(* ===== verification/Prelude.thy ===== *)
theory Prelude
  imports Main "HOL-Library.Sublist"
begin

text \<open>
  Shared vocabulary of the development: the collections of facts the component theories fill,
  results of fallible operations, and the lemmas on lists of keyed rows (the tables of the
  daemon's SQLite store) that every storage theory uses.
\<close>

section \<open>Collections\<close>

named_theorems text_simps \<open>facts about the Go text functions\<close>
named_theorems row_simps \<open>facts about keyed rows\<close>
named_theorems store_defs \<open>definitions of the store operations\<close>

section \<open>Results\<close>

text \<open>Go returns a value and an error; the model returns \<^verbatim>\<open>Inl\<close> of the error or the value.\<close>

type_synonym ('e, 'a) result = "'e + 'a"

definition is_ok :: "('e, 'a) result \<Rightarrow> bool" where
  "is_ok r = (case r of Inl _ \<Rightarrow> False | Inr _ \<Rightarrow> True)"

lemma is_ok_simps [simp]: "is_ok (Inr x)" "\<not> is_ok (Inl e)"
  by (simp_all add: is_ok_def)

lemma map_sum_Inr: "map_sum f g x = Inr y \<longleftrightarrow> (\<exists>z. x = Inr z \<and> y = g z)"
  by (cases x) auto

text \<open>A loop over a list that stops at the first error and otherwise collects the values.\<close>

fun map_result :: "('a \<Rightarrow> ('e, 'b) result) \<Rightarrow> 'a list \<Rightarrow> ('e, 'b list) result" where
  "map_result f [] = Inr []"
| "map_result f (x # xs) =
     (case f x of
        Inl e \<Rightarrow> Inl e
      | Inr y \<Rightarrow> (case map_result f xs of Inl e \<Rightarrow> Inl e | Inr ys \<Rightarrow> Inr (y # ys)))"

lemma map_result_all2: "map_result f xs = Inr ys \<longleftrightarrow> list_all2 (\<lambda>x y. f x = Inr y) xs ys"
  by (induction f xs arbitrary: ys rule: map_result.induct)
    (auto simp: list_all2_Cons1 split: sum.split)

lemma map_result_keys:
  assumes "map_result f xs = Inr ys" "\<And>x y. x \<in> set xs \<Longrightarrow> f x = Inr y \<Longrightarrow> k' y = k x"
  shows "map k' ys = map k xs"
  using assms by (induction xs arbitrary: ys) (auto split: sum.splits)

lemma map_result_mem:
  assumes "map_result f xs = Inr ys" "y \<in> set ys"
  shows "\<exists>x\<in>set xs. f x = Inr y"
  using assms by (induction xs arbitrary: ys) (auto split: sum.splits)

section \<open>Keyed rows\<close>

text \<open>
  A table with a primary key is a list of rows in insertion order. An UPDATE rewrites the rows
  that satisfy the WHERE clause; an INSERT appends.
\<close>

definition update_rows :: "('r \<Rightarrow> bool) \<Rightarrow> ('r \<Rightarrow> 'r) \<Rightarrow> 'r list \<Rightarrow> 'r list" where
  "update_rows p f rs = map (\<lambda>r. if p r then f r else r) rs"

lemma update_rows_simps [simp]:
  "update_rows p f [] = []"
  "update_rows p f (r # rs) = (if p r then f r else r) # update_rows p f rs"
  by (simp_all add: update_rows_def)

lemma update_rows_append: "update_rows p f (xs @ ys) = update_rows p f xs @ update_rows p f ys"
  by (simp add: update_rows_def)

lemma length_update_rows [simp]: "length (update_rows p f rs) = length rs"
  by (simp add: update_rows_def)

lemma set_update_rows: "set (update_rows p f rs) = (\<lambda>r. if p r then f r else r) ` set rs"
  by (simp add: update_rows_def)

lemma ball_update_rows [row_simps]:
  "(\<forall>r\<in>set (update_rows p f rs). Q r) \<longleftrightarrow>
   (\<forall>r\<in>set rs. Q (if p r then f r else r))"
  by (auto simp: set_update_rows)

lemma map_update_rows [row_simps]:
  "(\<And>r. k (f r) = k r) \<Longrightarrow> map k (update_rows p f rs) = map k rs"
  by (simp add: update_rows_def)

lemma find_update_rows [row_simps]:
  assumes "\<And>r. k (f r) = k r"
  shows "find (\<lambda>r. k r = x) (update_rows p f rs) =
         map_option (\<lambda>r. if p r then f r else r) (find (\<lambda>r. k r = x) rs)"
  using assms by (induction rs) auto

lemma update_rows_none: "(\<And>r. r \<in> set rs \<Longrightarrow> \<not> p r) \<Longrightarrow> update_rows p f rs = rs"
  by (induction rs) auto

lemma find_append: "find p (xs @ ys) = (case find p xs of None \<Rightarrow> find p ys | Some x \<Rightarrow> Some x)"
  by (induction xs) auto

lemma find_key_in: "find (\<lambda>r. k r = x) rs = Some r \<Longrightarrow> r \<in> set rs \<and> k r = x"
  by (auto simp: find_Some_iff)

lemma find_key_None: "find (\<lambda>r. k r = x) rs = None \<longleftrightarrow> x \<notin> k ` set rs"
  by (auto simp: find_None_iff)

lemma distinct_find_key:
  "distinct (map k rs) \<Longrightarrow> r \<in> set rs \<Longrightarrow> find (\<lambda>s. k s = k r) rs = Some r"
  by (induction rs) auto

text \<open>The next value of a counter column: \<^verbatim>\<open>coalesce(max(c), 0) + 1\<close>.\<close>

definition next_seq :: "('r \<Rightarrow> nat) \<Rightarrow> 'r list \<Rightarrow> nat" where
  "next_seq c rs = Suc (foldr (\<lambda>r m. max (c r) m) rs 0)"

lemma next_seq_greater: "r \<in> set rs \<Longrightarrow> c r < next_seq c rs"
  by (induction rs) (auto simp: next_seq_def less_Suc_eq_le max_def split: if_splits)

lemma next_seq_fresh: "next_seq c rs \<notin> c ` set rs"
  using next_seq_greater [of _ rs c] by (metis imageE less_irrefl)

end
