(* ===== verification/Go_Strings.thy ===== *)
theory Go_Strings
  imports Prelude "HOL-Library.Char_ord" "HOL-Library.List_Lexorder"
begin

text \<open>
  The parts of Go's \<^verbatim>\<open>strings\<close>, \<^verbatim>\<open>strconv\<close>
  and \<^verbatim>\<open>fmt\<close> packages the program uses. A Go string is a sequence of bytes,
  which is what HOL's \<^typ>\<open>string\<close> is (a character of HOL is a byte); white space and
  letters beyond ASCII are the byte sequences of their UTF-8 encodings.
\<close>

section \<open>White space\<close>

text \<open>
  The UTF-8 encodings of the runes that \<^verbatim>\<open>unicode.IsSpace\<close> accepts: the six
  ASCII ones, U+0085, U+00A0, U+1680, U+2000 to U+200A, U+2028, U+2029, U+202F, U+205F, U+3000.
\<close>

definition space_codes :: "string list" where
  "space_codes =
    [[CHR 0x20], [CHR 0x0A], [CHR 0x09], [CHR 0x0D], [CHR 0x0B], [CHR 0x0C],
     [CHR 0xC2, CHR 0x85], [CHR 0xC2, CHR 0xA0], [CHR 0xE1, CHR 0x9A, CHR 0x80],
     [CHR 0xE2, CHR 0x80, CHR 0x80], [CHR 0xE2, CHR 0x80, CHR 0x81],
     [CHR 0xE2, CHR 0x80, CHR 0x82], [CHR 0xE2, CHR 0x80, CHR 0x83],
     [CHR 0xE2, CHR 0x80, CHR 0x84], [CHR 0xE2, CHR 0x80, CHR 0x85],
     [CHR 0xE2, CHR 0x80, CHR 0x86], [CHR 0xE2, CHR 0x80, CHR 0x87],
     [CHR 0xE2, CHR 0x80, CHR 0x88], [CHR 0xE2, CHR 0x80, CHR 0x89],
     [CHR 0xE2, CHR 0x80, CHR 0x8A], [CHR 0xE2, CHR 0x80, CHR 0xA8],
     [CHR 0xE2, CHR 0x80, CHR 0xA9], [CHR 0xE2, CHR 0x80, CHR 0xAF],
     [CHR 0xE2, CHR 0x81, CHR 0x9F], [CHR 0xE3, CHR 0x80, CHR 0x80]]"

lemma space_codes_nonempty: "p \<in> set space_codes \<Longrightarrow> p \<noteq> []"
  by (auto simp: space_codes_def)

definition leading_space :: "string \<Rightarrow> string option" where
  "leading_space s = find (\<lambda>p. prefix p s) space_codes"

definition trailing_space :: "string \<Rightarrow> string option" where
  "trailing_space s = find (\<lambda>p. suffix p s) space_codes"

lemma leading_space_Some:
  "leading_space s = Some p \<Longrightarrow> p \<in> set space_codes \<and> prefix p s \<and> p \<noteq> []"
  unfolding leading_space_def find_Some_iff
  using nth_mem space_codes_nonempty by metis

lemma trailing_space_Some:
  "trailing_space s = Some p \<Longrightarrow> p \<in> set space_codes \<and> suffix p s \<and> p \<noteq> []"
  unfolding trailing_space_def find_Some_iff
  using nth_mem space_codes_nonempty by metis

lemma leading_space_shorter:
  "leading_space s = Some p \<Longrightarrow> length s - length p < length s"
  by (drule leading_space_Some) (auto simp: prefix_def)

lemma trailing_space_shorter:
  "trailing_space s = Some p \<Longrightarrow> length s - length p < length s"
  by (drule trailing_space_Some) (auto simp: suffix_def)

text \<open>\<^verbatim>\<open>strings.TrimLeftFunc(s, unicode.IsSpace)\<close> and its mirror image.\<close>

function trim_left :: "string \<Rightarrow> string" where
  "trim_left s = (case leading_space s of None \<Rightarrow> s | Some p \<Rightarrow> trim_left (drop (length p) s))"
  by pat_completeness auto
termination
  by (relation "measure length") (simp_all add: leading_space_shorter)

function trim_right :: "string \<Rightarrow> string" where
  "trim_right s =
     (case trailing_space s of
        None \<Rightarrow> s
      | Some p \<Rightarrow> trim_right (take (length s - length p) s))"
  by pat_completeness auto
termination
  by (relation "measure length") (simp_all add: trailing_space_shorter)

declare trim_left.simps [simp del] trim_right.simps [simp del]

definition trim_space :: "string \<Rightarrow> string" where
  "trim_space s = trim_right (trim_left s)"

lemma trim_left_no_space: "leading_space (trim_left s) = None"
  by (induction s rule: trim_left.induct)
    (subst trim_left.simps, simp split: option.split)

lemma trim_right_no_space: "trailing_space (trim_right s) = None"
  by (induction s rule: trim_right.induct)
    (subst trim_right.simps, simp split: option.split)

lemma trim_left_suffix: "suffix (trim_left s) s"
proof (induction s rule: trim_left.induct)
  case (1 s)
  show ?case
    using 1 by (subst trim_left.simps) (auto split: option.split intro: suffix_drop suffix_order.trans)
qed

lemma trim_right_prefix: "prefix (trim_right s) s"
proof (induction s rule: trim_right.induct)
  case (1 s)
  show ?case
    using 1 by (subst trim_right.simps) (auto split: option.split intro: take_is_prefix prefix_order.trans)
qed

lemma trim_left_fix: "leading_space s = None \<Longrightarrow> trim_left s = s"
  by (subst trim_left.simps) simp

lemma trim_right_fix: "trailing_space s = None \<Longrightarrow> trim_right s = s"
  by (subst trim_right.simps) simp

lemma leading_space_prefix:
  assumes "leading_space s = None" "prefix t s"
  shows "leading_space t = None"
proof (cases "leading_space t")
  case (Some p)
  then have "p \<in> set space_codes" "prefix p t"
    using leading_space_Some by auto
  then have "prefix p s" using assms(2) prefix_order.trans by blast
  with assms(1) \<open>p \<in> set space_codes\<close> show ?thesis
    by (simp add: leading_space_def find_None_iff)
qed simp

text \<open>What a trimmed string looks like, and that trimming again changes nothing.\<close>

lemma trim_space_ends [text_simps]:
  "leading_space (trim_space s) = None" "trailing_space (trim_space s) = None"
  by (auto simp: trim_space_def trim_right_no_space
      intro: leading_space_prefix [OF trim_left_no_space trim_right_prefix])

lemma trim_space_fix:
  "leading_space s = None \<Longrightarrow> trailing_space s = None \<Longrightarrow> trim_space s = s"
  by (simp add: trim_space_def trim_left_fix trim_right_fix)

lemma trim_space_idem [simp]: "trim_space (trim_space s) = trim_space s"
  by (rule trim_space_fix) (rule trim_space_ends)+

lemma trim_space_Nil [simp]: "trim_space [] = []"
  by (rule trim_space_fix) (auto simp: leading_space_def trailing_space_def find_None_iff
      dest: space_codes_nonempty)

text \<open>Printable ASCII at both ends: the common case, decided without the table.\<close>

definition ascii_mark :: "char \<Rightarrow> bool" where
  "ascii_mark c \<longleftrightarrow> 0x20 < (of_char c :: nat) \<and> (of_char c :: nat) < 0x7F"

lemma space_code_hd: "p \<in> set space_codes \<Longrightarrow> \<not> ascii_mark (hd p) \<and> \<not> ascii_mark (last p)"
  by (auto simp: space_codes_def ascii_mark_def)

lemma trim_space_ascii [text_simps]:
  assumes "s \<noteq> []" "ascii_mark (hd s)" "ascii_mark (last s)"
  shows "trim_space s = s"
proof (rule trim_space_fix)
  show "leading_space s = None"
    using assms space_codes_nonempty space_code_hd
    by (fastforce simp: leading_space_def find_None_iff prefix_def)
  show "trailing_space s = None"
    using assms space_codes_nonempty space_code_hd
    by (fastforce simp: trailing_space_def find_None_iff suffix_def)
qed

text \<open>A printable prefix keeps the white space of what follows where it is.\<close>

lemma space_code_no_mark: "p \<in> set space_codes \<Longrightarrow> c \<in> set p \<Longrightarrow> \<not> ascii_mark c"
  by (auto simp: space_codes_def ascii_mark_def)

lemma trailing_space_after_mark:
  assumes "ascii_mark c" "trailing_space u = None"
  shows "trailing_space (m @ c # u) = None"
proof -
  have "\<not> suffix p (m @ c # u)" if p: "p \<in> set space_codes" for p
  proof
    assume "suffix p (m @ c # u)"
    then obtain r where r: "m @ c # u = r @ p"
      by (auto simp: suffix_def)
    from append_eq_append_conv2 [THEN iffD1, OF r] obtain us
      where "m = r @ us \<and> us @ c # u = p \<or> m @ us = r \<and> c # u = us @ p" by blast
    then show False
      using p assms space_code_no_mark [OF p] space_codes_nonempty [OF p]
      by (fastforce simp: trailing_space_def find_None_iff suffix_def append_eq_Cons_conv
          Cons_eq_append_conv)
  qed
  then show ?thesis by (simp add: trailing_space_def find_None_iff)
qed

lemma trim_space_prefixed:
  assumes "m \<noteq> []" "ascii_mark (hd m)" "ascii_mark c" "trailing_space u = None"
  shows "trim_space (m @ c # u) = m @ c # u"
proof (rule trim_space_fix)
  show "leading_space (m @ c # u) = None"
    using assms(1,2) space_codes_nonempty space_code_hd
    by (fastforce simp: leading_space_def find_None_iff prefix_def neq_Nil_conv)
  show "trailing_space (m @ c # u) = None"
    by (rule trailing_space_after_mark [OF assms(3,4)])
qed

text \<open>A blank string is one that trims to nothing; the code's \<^verbatim>\<open>TrimSpace(s) == ""\<close>.\<close>

definition blank :: "string \<Rightarrow> bool" where
  "blank s \<longleftrightarrow> trim_space s = []"

lemma blank_Nil [simp]: "blank []"
  by (simp add: blank_def)

lemma blank_trim [simp]: "blank (trim_space s) \<longleftrightarrow> trim_space s = []"
  by (simp add: blank_def)

lemma blank_ascii [text_simps]:
  "ascii_mark (hd s) \<Longrightarrow> ascii_mark (last s) \<Longrightarrow> blank s \<longleftrightarrow> s = []"
  by (cases "s = []") (simp_all add: blank_def trim_space_ascii)

section \<open>Letter case\<close>

text \<open>
  \<^verbatim>\<open>strings.ToLower\<close> on ASCII letters, plus the two runes beyond ASCII whose
  lower case is an ASCII letter (U+0130 and U+212A). Other letters keep their bytes. Every
  modelled use compares the result with an ASCII constant, or searches it for one, and no other
  rune can change the outcome of that.
\<close>

definition lower_byte :: "char \<Rightarrow> char" where
  "lower_byte c = (if CHR ''A'' \<le> c \<and> c \<le> CHR ''Z'' then char_of (of_char c + 32 :: nat) else c)"

fun to_lower :: "string \<Rightarrow> string" where
  "to_lower [] = []"
| "to_lower (c # s) =
     (if prefix [CHR 0xE2, CHR 0x84, CHR 0xAA] (c # s) then CHR ''k'' # to_lower (drop 2 s)
      else if prefix [CHR 0xC4, CHR 0xB0] (c # s) then CHR ''i'' # to_lower (drop 1 s)
      else lower_byte c # to_lower s)"

text \<open>
  \<^verbatim>\<open>strings.EqualFold\<close>, read the same way: the fold orbits that hold an ASCII
  letter are those of the letter's two cases, with U+212A for k and U+017F for s.
\<close>

fun fold_key :: "string \<Rightarrow> string" where
  "fold_key [] = []"
| "fold_key (c # s) =
     (if prefix [CHR 0xE2, CHR 0x84, CHR 0xAA] (c # s) then CHR ''k'' # fold_key (drop 2 s)
      else if prefix [CHR 0xC5, CHR 0xBF] (c # s) then CHR ''s'' # fold_key (drop 1 s)
      else lower_byte c # fold_key s)"

definition equal_fold :: "string \<Rightarrow> string \<Rightarrow> bool" where
  "equal_fold s t \<longleftrightarrow> fold_key s = fold_key t"

section \<open>Searching, splitting, joining\<close>

text \<open>\<^verbatim>\<open>strings.HasPrefix(s, p)\<close>, \<^verbatim>\<open>TrimPrefix\<close> and
  \<^verbatim>\<open>Contains\<close>.\<close>

definition has_prefix :: "string \<Rightarrow> string \<Rightarrow> bool" where
  "has_prefix s p = prefix p s"

definition trim_prefix :: "string \<Rightarrow> string \<Rightarrow> string" where
  "trim_prefix s p = (if prefix p s then drop (length p) s else s)"

fun contains :: "string \<Rightarrow> string \<Rightarrow> bool" where
  "contains [] sub \<longleftrightarrow> sub = []"
| "contains (c # s) sub \<longleftrightarrow> prefix sub (c # s) \<or> contains s sub"

lemma contains_iff: "contains s sub \<longleftrightarrow> (\<exists>u v. s = u @ sub @ v)"
proof (induction s)
  case (Cons c s)
  show ?case
  proof
    assume "contains (c # s) sub"
    then consider "prefix sub (c # s)" | "contains s sub" by auto
    then show "\<exists>u v. c # s = u @ sub @ v"
    proof cases
      case 1
      then show ?thesis by (metis append_Nil prefix_def)
    next
      case 2
      then obtain u v where "s = u @ sub @ v" using Cons by auto
      then have "c # s = (c # u) @ sub @ v" by simp
      then show ?thesis by blast
    qed
  next
    assume "\<exists>u v. c # s = u @ sub @ v"
    then obtain u v where uv: "c # s = u @ sub @ v" by auto
    show "contains (c # s) sub"
    proof (cases u)
      case Nil
      with uv have "prefix sub (c # s)" by (simp add: prefix_def)
      then show ?thesis by simp
    next
      case (Cons d u')
      with uv have "contains s sub" using \<open>contains s sub \<longleftrightarrow> (\<exists>u v. s = u @ sub @ v)\<close> by auto
      then show ?thesis by simp
    qed
  qed
qed simp

lemma contains_prefix: "prefix p s \<Longrightarrow> contains s p"
  by (metis append_Nil contains_iff prefix_def)

text \<open>The bytes before the first occurrence of a byte: \<^verbatim>\<open>s[:IndexByte(s, c)]\<close>.\<close>

definition before_byte :: "char \<Rightarrow> string \<Rightarrow> string" where
  "before_byte c s = takeWhile (\<lambda>d. d \<noteq> c) s"

text \<open>\<^verbatim>\<open>strings.Split(s, sep)\<close> for a one-byte separator, and
  \<^verbatim>\<open>strings.Join\<close>.\<close>

fun split_byte :: "char \<Rightarrow> string \<Rightarrow> string list" where
  "split_byte c [] = [[]]"
| "split_byte c (d # s) =
     (if d = c then [] # split_byte c s
      else case split_byte c s of [] \<Rightarrow> [[d]] | w # ws \<Rightarrow> (d # w) # ws)"

fun join :: "string \<Rightarrow> string list \<Rightarrow> string" where
  "join sep [] = []"
| "join sep [w] = w"
| "join sep (w # ws) = w @ sep @ join sep ws"

lemma split_byte_nonempty [simp]: "split_byte c s \<noteq> []"
  by (induction s) (auto split: list.splits)

lemma join_split_byte: "join [c] (split_byte c s) = s"
proof (induction s)
  case (Cons d s)
  then show ?case
    by (cases "split_byte c s"; cases "tl (split_byte c s)") auto
qed simp

lemma split_byte_free: "w \<in> set (split_byte c s) \<Longrightarrow> c \<notin> set w"
  by (induction s arbitrary: w) (auto split: if_splits list.splits)

text \<open>\<^verbatim>\<open>strings.ReplaceAll(s, old, new)\<close>; the program's patterns are never empty.\<close>

function replace_all :: "string \<Rightarrow> string \<Rightarrow> string \<Rightarrow> string" where
  "replace_all old new [] = []"
| "replace_all old new (c # s) =
     (if old \<noteq> [] \<and> prefix old (c # s)
      then new @ replace_all old new (drop (length old) (c # s))
      else c # replace_all old new s)"
  by pat_completeness auto
termination
  by (relation "measure (\<lambda>(old, new, s). length s)") (auto simp: neq_Nil_conv)

text \<open>\<^verbatim>\<open>strings.Fields\<close>: the maximal pieces free of white space.\<close>

function fields_acc :: "string \<Rightarrow> string \<Rightarrow> string list" where
  "fields_acc acc s =
     (case s of
        [] \<Rightarrow> (if acc = [] then [] else [acc])
      | c # s' \<Rightarrow>
          (case leading_space s of
             None \<Rightarrow> fields_acc (acc @ [c]) s'
           | Some p \<Rightarrow>
               (if acc = [] then [] else [acc]) @ fields_acc [] (drop (length p) s)))"
  by pat_completeness auto
termination
proof (relation "measure (\<lambda>(acc, s). length s)", goal_cases)
  case (3 acc s c s' p)
  then show ?case using leading_space_shorter [of s p] by simp
qed auto

declare fields_acc.simps [simp del]

definition fields :: "string \<Rightarrow> string list" where
  "fields s = fields_acc [] s"

lemma fields_acc_nonempty: "[] \<notin> set (fields_acc acc s)"
proof (induction acc s rule: fields_acc.induct)
  case (1 acc s)
  then show ?case
    by (subst fields_acc.simps) (auto split: list.split option.split)
qed

lemma fields_nonempty: "w \<in> set (fields s) \<Longrightarrow> w \<noteq> []"
  using fields_acc_nonempty by (auto simp: fields_def)

lemma fields_Nil [simp]: "fields [] = []"
  by (simp add: fields_def fields_acc.simps)

section \<open>Numbers as text\<close>

text \<open>\<^verbatim>\<open>strconv.FormatInt(n, 10)\<close>, also what \<^verbatim>\<open>%d\<close> prints.\<close>

definition digit_char :: "nat \<Rightarrow> char" where
  "digit_char d = char_of (48 + d)"

fun nat_digits :: "nat \<Rightarrow> string" where
  "nat_digits n = (if n < 10 then [digit_char n] else nat_digits (n div 10) @ [digit_char (n mod 10)])"

declare nat_digits.simps [simp del]

definition itoa :: "int \<Rightarrow> string" where
  "itoa n = (if n < 0 then CHR ''-'' # nat_digits (nat (- n)) else nat_digits (nat n))"

text \<open>
  \<^verbatim>\<open>strconv.ParseInt(s, 10, 64)\<close>: an optional sign and at least one digit;
  \<^verbatim>\<open>None\<close> stands for the value 0 with a syntax error; out of range, the nearest
  end of the range with a range error. The code always drops or propagates the error, so the
  result is the value and whether it is free of error.
\<close>

definition is_digit :: "char \<Rightarrow> bool" where
  "is_digit c \<longleftrightarrow> CHR ''0'' \<le> c \<and> c \<le> CHR ''9''"

definition digits_value :: "string \<Rightarrow> nat" where
  "digits_value s = foldl (\<lambda>v c. 10 * v + (of_char c - 48)) 0 s"

definition int64_max :: int where "int64_max = 9223372036854775807"
definition int64_min :: int where "int64_min = -9223372036854775808"

definition parse_int :: "string \<Rightarrow> int \<times> bool" where
  "parse_int s =
     (let neg = (has_prefix s ''-'');
          ds = (if s \<noteq> [] \<and> (hd s = CHR ''-'' \<or> hd s = CHR ''+'') then tl s else s)
      in if ds = [] \<or> \<not> list_all is_digit ds then (0, False)
         else let v = int (digits_value ds)
              in if neg then (if v \<le> - int64_min then (- v, True) else (int64_min, False))
                 else (if v \<le> int64_max then (v, True) else (int64_max, False)))"

lemma of_char_digit: "d < 10 \<Longrightarrow> (of_char (digit_char d) :: nat) = 48 + d"
  by (simp add: digit_char_def)

lemma is_digit_digit_char: "d < 10 \<Longrightarrow> is_digit (digit_char d)"
  by (simp add: is_digit_def less_eq_char_def of_char_digit)

lemma nat_digits_digits: "list_all is_digit (nat_digits n)"
proof (induction n rule: nat_digits.induct)
  case (1 n)
  then show ?case by (subst nat_digits.simps) (simp add: is_digit_digit_char)
qed

lemma nat_digits_nonempty [simp]: "nat_digits n \<noteq> []"
  by (subst nat_digits.simps) simp

lemma digits_value_nat_digits: "digits_value (nat_digits n) = n"
proof (induction n rule: nat_digits.induct)
  case (1 n)
  then show ?case
    by (subst nat_digits.simps) (simp add: digits_value_def of_char_digit)
qed

lemma hd_nat_digits: "is_digit (hd (nat_digits n))"
  using nat_digits_digits [of n] by (cases "nat_digits n") auto

lemma is_digit_not_sign: "is_digit c \<Longrightarrow> c \<noteq> CHR ''-'' \<and> c \<noteq> CHR ''+'' \<and> ascii_mark c"
  by (auto simp: is_digit_def less_eq_char_def ascii_mark_def)

lemma parse_itoa:
  assumes "int64_min \<le> n" "n \<le> int64_max"
  shows "parse_int (itoa n) = (n, True)"
proof (cases "n < 0")
  case True
  then show ?thesis
    using assms
    by (simp add: parse_int_def itoa_def has_prefix_def nat_digits_digits digits_value_nat_digits
        int64_min_def)
next
  case False
  obtain c cs where ds: "nat_digits (nat n) = c # cs"
    by (cases "nat_digits (nat n)") auto
  have "c \<noteq> CHR ''-''" "c \<noteq> CHR ''+''"
    using is_digit_not_sign [OF hd_nat_digits [of "nat n"]] by (simp_all add: ds)
  moreover have "list_all is_digit (c # cs)" "digits_value (c # cs) = nat n"
    using nat_digits_digits [of "nat n"] digits_value_nat_digits [of "nat n"] by (simp_all add: ds)
  ultimately show ?thesis
    using False assms by (simp add: parse_int_def itoa_def has_prefix_def ds Let_def)
qed

lemma itoa_ends: "itoa n \<noteq> [] \<and> ascii_mark (hd (itoa n)) \<and> ascii_mark (last (itoa n))"
proof -
  have "is_digit (last (nat_digits m))" for m
    using nat_digits_digits [of m] by (simp add: list_all_iff)
  moreover have "ascii_mark CHR ''-''" by (simp add: ascii_mark_def)
  ultimately show ?thesis
    using is_digit_not_sign hd_nat_digits by (auto simp: itoa_def)
qed

lemma trim_itoa [simp]: "trim_space (itoa n) = itoa n"
  using itoa_ends [of n] by (simp add: trim_space_ascii)

text \<open>\<^verbatim>\<open>%t\<close> and \<^verbatim>\<open>strconv.FormatBool\<close>.\<close>

definition format_bool :: "bool \<Rightarrow> string" where
  "format_bool b = (if b then ''true'' else ''false'')"

end
