(* ===== verification/Utf8.thy ===== *)
theory Utf8
  imports Go_Strings
begin

text \<open>
  Go's conversions between strings and runes: \<^verbatim>\<open>[]rune(s)\<close> decodes UTF-8 and
  replaces every byte that starts no valid sequence by U+FFFD;
  \<^verbatim>\<open>string(runes)\<close> encodes. A rune is its code point.
\<close>

type_synonym rune = nat

definition rune_error :: rune where "rune_error = 0xFFFD"

definition scalar :: "rune \<Rightarrow> bool" where
  "scalar r \<longleftrightarrow> r < 0xD800 \<or> (0xDFFF < r \<and> r < 0x110000)"

section \<open>Decoding\<close>

definition cont :: "nat \<Rightarrow> bool" where
  "cont b \<longleftrightarrow> 0x80 \<le> b \<and> b < 0xC0"

text \<open>The byte at an index, 0 past the end (which is no continuation byte).\<close>

definition byte_at :: "string \<Rightarrow> nat \<Rightarrow> nat" where
  "byte_at s i = (if i < length s then of_char (s ! i) else 0)"

text \<open>\<^verbatim>\<open>utf8.DecodeRuneInString\<close> on a non-empty string: the rune and its width.\<close>

definition decode_rune :: "string \<Rightarrow> rune \<times> nat" where
  "decode_rune s =
     (let b0 = byte_at s 0; b1 = byte_at s 1; b2 = byte_at s 2; b3 = byte_at s 3
      in if b0 < 0x80 then (b0, 1)
         else if 0xC2 \<le> b0 \<and> b0 < 0xE0 \<and> cont b1
         then ((b0 - 0xC0) * 64 + (b1 - 0x80), 2)
         else if 0xE0 \<le> b0 \<and> b0 < 0xF0 \<and> cont b1 \<and> cont b2 \<and>
                 (b0 = 0xE0 \<longrightarrow> 0xA0 \<le> b1) \<and> (b0 = 0xED \<longrightarrow> b1 < 0xA0)
         then ((b0 - 0xE0) * 4096 + (b1 - 0x80) * 64 + (b2 - 0x80), 3)
         else if 0xF0 \<le> b0 \<and> b0 < 0xF5 \<and> cont b1 \<and> cont b2 \<and> cont b3 \<and>
                 (b0 = 0xF0 \<longrightarrow> 0x90 \<le> b1) \<and> (b0 = 0xF4 \<longrightarrow> b1 < 0x90)
         then ((b0 - 0xF0) * 262144 + (b1 - 0x80) * 4096 + (b2 - 0x80) * 64 + (b3 - 0x80), 4)
         else (rune_error, 1))"

lemma decode_rune_width: "0 < snd (decode_rune s)"
  by (simp add: decode_rune_def Let_def)

function runes :: "string \<Rightarrow> rune list" where
  "runes s =
     (if s = [] then [] else fst (decode_rune s) # runes (drop (snd (decode_rune s)) s))"
  by pat_completeness auto
termination
  by (relation "measure length") (auto simp: decode_rune_width)

declare runes.simps [simp del]

lemma runes_Nil [simp]: "runes [] = []"
  by (simp add: runes.simps)

section \<open>Encoding\<close>

text \<open>\<^verbatim>\<open>utf8.AppendRune\<close>: what is no scalar value becomes U+FFFD.\<close>

definition encode_rune :: "rune \<Rightarrow> string" where
  "encode_rune r0 =
     (let r = (if scalar r0 then r0 else rune_error)
      in if r < 0x80 then [char_of r]
         else if r < 0x800 then [char_of (0xC0 + r div 64), char_of (0x80 + r mod 64)]
         else if r < 0x10000
         then [char_of (0xE0 + r div 4096), char_of (0x80 + r div 64 mod 64),
               char_of (0x80 + r mod 64)]
         else [char_of (0xF0 + r div 262144), char_of (0x80 + r div 4096 mod 64),
               char_of (0x80 + r div 64 mod 64), char_of (0x80 + r mod 64)])"

definition of_runes :: "rune list \<Rightarrow> string" where
  "of_runes rs = concat (map encode_rune rs)"

lemma of_runes_simps [simp]:
  "of_runes [] = []"
  "of_runes (r # rs) = encode_rune r @ of_runes rs"
  "of_runes (rs @ rs') = of_runes rs @ of_runes rs'"
  by (simp_all add: of_runes_def)

section \<open>Round trip\<close>

lemma byte_at_Cons [simp]:
  "byte_at (c # s) 0 = of_char c"
  "byte_at (c # s) (Suc i) = byte_at s i"
  by (simp_all add: byte_at_def)

lemma byte_at_numeral [simp]:
  "byte_at (c # s) (numeral k) = byte_at s (pred_numeral k)"
  by (simp add: numeral_eq_Suc)

lemma of_char_of: "(n::nat) < 256 \<Longrightarrow> (of_char (char_of n :: char) :: nat) = n"
  by simp

lemma decode_encode_1: "r < 0x80 \<Longrightarrow> decode_rune (encode_rune r @ s) = (r, 1)"
  by (simp add: encode_rune_def scalar_def decode_rune_def)

lemma decode_encode_2:
  assumes "0x80 \<le> r" "r < 0x800"
  shows "decode_rune (encode_rune r @ s) = (r, 2)"
proof -
  define q m where "q = r div 64" and "m = r mod 64"
  have enc: "encode_rune r = [char_of (0xC0 + q), char_of (0x80 + m)]"
    using assms by (simp add: encode_rune_def scalar_def q_def m_def)
  have "2 \<le> q" "q < 32" "m < 64" "q * 64 + m = r"
    using assms unfolding q_def m_def by arith+
  then show ?thesis
    by (simp add: enc decode_rune_def cont_def of_char_of Let_def)
qed

lemma base64_digits:
  fixes r :: nat
  shows "r div 4096 * 4096 + r div 64 mod 64 * 64 + r mod 64 = r"
    and "r div 262144 * 262144 + r div 4096 mod 64 * 4096 + r div 64 mod 64 * 64 + r mod 64 = r"
proof -
  have e: "r div 64 div 64 = r div 4096" "r div 4096 div 64 = r div 262144"
    by (simp_all flip: div_mult2_eq)
  have d: "n div 64 * 64 + n mod 64 = n" for n :: nat by simp
  show "r div 4096 * 4096 + r div 64 mod 64 * 64 + r mod 64 = r"
    using d [of r] d [of "r div 64"] unfolding e by linarith
  then show "r div 262144 * 262144 + r div 4096 mod 64 * 4096 + r div 64 mod 64 * 64 + r mod 64 = r"
    using d [of "r div 4096"] unfolding e by linarith
qed

lemma decode_encode_3:
  assumes "0x800 \<le> r" "r < 0x10000" "scalar r"
  shows "decode_rune (encode_rune r @ s) = (r, 3)"
proof -
  define a b c where "a = r div 4096" and "b = r div 64 mod 64" and "c = r mod 64"
  have enc: "encode_rune r = [char_of (0xE0 + a), char_of (0x80 + b), char_of (0x80 + c)]"
    using assms by (simp add: encode_rune_def a_def b_def c_def)
  have bounds: "a < 16" "b < 64" "c < 64"
    using assms(2) by (simp_all add: a_def b_def c_def less_mult_imp_div_less)
  have r: "a * 4096 + b * 64 + c = r"
    unfolding a_def b_def c_def by (rule base64_digits)
  have "a = 0 \<longrightarrow> 0x20 \<le> b"
    using assms(1) bounds r by linarith
  moreover have "a = 13 \<longrightarrow> b < 0x20"
    using assms(3) bounds r unfolding scalar_def by linarith
  moreover note bounds r
  ultimately show ?thesis
    by (simp add: enc decode_rune_def cont_def of_char_of Let_def)
qed

lemma decode_encode_4:
  assumes "0x10000 \<le> r" "scalar r"
  shows "decode_rune (encode_rune r @ s) = (r, 4)"
proof -
  define a b c d where "a = r div 262144" and "b = r div 4096 mod 64"
    and "c = r div 64 mod 64" and "d = r mod 64"
  have enc: "encode_rune r =
      [char_of (0xF0 + a), char_of (0x80 + b), char_of (0x80 + c), char_of (0x80 + d)]"
    using assms by (simp add: encode_rune_def a_def b_def c_def d_def)
  have bounds: "a < 5" "b < 64" "c < 64" "d < 64"
    using assms(2) by (auto simp: a_def b_def c_def d_def scalar_def less_mult_imp_div_less)
  have r: "a * 262144 + b * 4096 + c * 64 + d = r"
    unfolding a_def b_def c_def d_def by (rule base64_digits)
  have "a = 0 \<longrightarrow> 0x10 \<le> b"
    using assms(1) bounds r by linarith
  moreover have "a = 4 \<longrightarrow> b < 0x10"
    using assms(2) bounds r unfolding scalar_def by linarith
  moreover note bounds r
  ultimately show ?thesis
    by (simp add: enc decode_rune_def cont_def of_char_of Let_def)
qed

lemma length_encode_rune:
  "scalar r \<Longrightarrow>
   length (encode_rune r) = (if r < 0x80 then 1 else if r < 0x800 then 2 else if r < 0x10000 then 3 else 4)"
  by (simp add: encode_rune_def Let_def)

lemma decode_encode_rune:
  "scalar r \<Longrightarrow> decode_rune (encode_rune r @ s) = (r, length (encode_rune r))"
  using decode_encode_1 [of r s] decode_encode_2 [of r s] decode_encode_3 [of r s]
    decode_encode_4 [of r s]
  by (auto simp: length_encode_rune not_less)

lemma encode_rune_nonempty [simp]: "encode_rune r \<noteq> []"
  by (simp add: encode_rune_def Let_def)

lemma runes_encode: "scalar r \<Longrightarrow> runes (encode_rune r @ s) = r # runes s"
  by (subst runes.simps) (simp add: decode_encode_rune)

lemma runes_of_runes [text_simps]: "list_all scalar rs \<Longrightarrow> runes (of_runes rs) = rs"
  by (induction rs) (simp_all add: runes_encode)

lemma scalar_2: "b0 < 0xE0 \<Longrightarrow> cont b1 \<Longrightarrow> scalar ((b0 - 0xC0) * 64 + (b1 - 0x80))"
  unfolding scalar_def cont_def by arith

lemma scalar_3:
  assumes "0xE0 \<le> b0" "b0 < 0xF0" "cont b1" "cont b2" "b0 = 0xED \<longrightarrow> b1 < 0xA0"
  shows "scalar ((b0 - 0xE0) * 4096 + (b1 - 0x80) * 64 + (b2 - 0x80))"
proof -
  obtain x y z where b: "b0 = 0xE0 + x" "b1 = 0x80 + y" "b2 = 0x80 + z"
    using assms(1,3,4) unfolding cont_def by (meson le_Suc_ex)
  then have "x < 16" "y < 64" "z < 64" "x = 13 \<longrightarrow> y < 32"
    using assms unfolding cont_def by auto
  then have "x * 4096 + y * 64 + z < 0xD800 \<or> 0xDFFF < x * 4096 + y * 64 + z"
    by (cases "x = 13"; cases "x < 13") auto
  moreover have "x * 4096 + y * 64 + z < 0x110000"
    using \<open>x < 16\<close> \<open>y < 64\<close> \<open>z < 64\<close> by linarith
  ultimately show ?thesis by (auto simp: b scalar_def)
qed

lemma scalar_4:
  assumes "0xF0 \<le> b0" "b0 < 0xF5" "cont b1" "cont b2" "cont b3"
    "b0 = 0xF0 \<longrightarrow> 0x90 \<le> b1" "b0 = 0xF4 \<longrightarrow> b1 < 0x90"
  shows "scalar ((b0 - 0xF0) * 262144 + (b1 - 0x80) * 4096 + (b2 - 0x80) * 64 + (b3 - 0x80))"
proof -
  obtain w x y z where b: "b0 = 0xF0 + w" "b1 = 0x80 + x" "b2 = 0x80 + y" "b3 = 0x80 + z"
    using assms(1,3,4,5) unfolding cont_def by (meson le_Suc_ex)
  then have "w < 5" "x < 64" "y < 64" "z < 64" "w = 0 \<longrightarrow> 16 \<le> x" "w = 4 \<longrightarrow> x < 16"
    using assms unfolding cont_def by auto
  then have "0xDFFF < w * 262144 + x * 4096 + y * 64 + z"
    "w * 262144 + x * 4096 + y * 64 + z < 0x110000"
    by linarith+
  then show ?thesis by (simp add: b scalar_def)
qed

lemma scalar_decode_rune: "scalar (fst (decode_rune s))"
  unfolding decode_rune_def Let_def
  using scalar_2 scalar_3 scalar_4 by (auto simp: scalar_def rune_error_def)

lemma scalar_runes: "list_all scalar (runes s)"
proof (induction s rule: runes.induct)
  case (1 s)
  then show ?case by (subst runes.simps) (simp add: scalar_decode_rune)
qed

lemma length_runes_le: "length (runes s) \<le> length s"
proof (induction s rule: runes.induct)
  case (1 s)
  show ?case
  proof (cases "s = []")
    case False
    moreover from False 1
    have "length (runes (drop (snd (decode_rune s)) s)) \<le> length s - snd (decode_rune s)" by simp
    moreover have "0 < length s" "0 < snd (decode_rune s)"
      using False decode_rune_width by auto
    ultimately have "Suc (length (runes (drop (snd (decode_rune s)) s))) \<le> length s"
      by linarith
    with False show ?thesis by (subst runes.simps) simp
  qed simp
qed

end
