(* ===== verification/Fingerprint.thy ===== *)
theory Fingerprint
  imports Utf8 "HOL-Library.Word"
begin

text \<open>
  Fingerprints (\<^verbatim>\<open>fingerprint\<close> in \<^verbatim>\<open>internal/appserver/normalize.go\<close>): the
  hexadecimal SHA-1 digest of the parts, each followed by a zero byte. SHA-1
  (\<^verbatim>\<open>crypto/sha1\<close>) is written out over 32-bit words, as FIPS 180 gives it.
\<close>

unbundle bit_operations_syntax

type_synonym u32 = "32 word"

section \<open>SHA-1\<close>

definition byte_word :: "char \<Rightarrow> u32" where
  "byte_word c = of_nat (of_char c)"

definition be_word :: "string \<Rightarrow> u32" where
  "be_word bs = foldl (\<lambda>w c. push_bit 8 w OR byte_word c) 0 bs"

definition be_bytes :: "nat \<Rightarrow> nat \<Rightarrow> string" where
  "be_bytes k n = map (\<lambda>i. char_of (n div 256 ^ (k - 1 - i) mod 256)) [0..<k]"

definition sha_pad :: "string \<Rightarrow> string" where
  "sha_pad m =
     m @ [CHR 0x80] @ replicate ((119 - length m mod 64) mod 64) (CHR 0x00) @ be_bytes 8 (8 * length m)"

fun chunks :: "nat \<Rightarrow> nat \<Rightarrow> 'a list \<Rightarrow> 'a list list" where
  "chunks 0 k xs = []"
| "chunks (Suc n) k xs = take k xs # chunks n k (drop k xs)"

fun sha1_extend :: "nat \<Rightarrow> u32 list \<Rightarrow> u32 list" where
  "sha1_extend 0 w = w"
| "sha1_extend (Suc n) w =
     (let t = length w
      in sha1_extend n
           (w @ [word_rotl 1 (w ! (t - 3) XOR w ! (t - 8) XOR w ! (t - 14) XOR w ! (t - 16))]))"

definition sha1_f :: "nat \<Rightarrow> u32 \<Rightarrow> u32 \<Rightarrow> u32 \<Rightarrow> u32" where
  "sha1_f t b c d =
     (if t < 20 then (b AND c) OR (NOT b AND d)
      else if t < 40 then b XOR c XOR d
      else if t < 60 then (b AND c) OR (b AND d) OR (c AND d)
      else b XOR c XOR d)"

definition sha1_k :: "nat \<Rightarrow> u32" where
  "sha1_k t =
     (if t < 20 then 0x5A827999 else if t < 40 then 0x6ED9EBA1
      else if t < 60 then 0x8F1BBCDC else 0xCA62C1D6)"

record sha1_state =
  sha_a :: u32
  sha_b :: u32
  sha_c :: u32
  sha_d :: u32
  sha_e :: u32

definition sha1_round :: "sha1_state \<Rightarrow> nat \<times> u32 \<Rightarrow> sha1_state" where
  "sha1_round h tw =
     (let t = fst tw;
          x = word_rotl 5 (sha_a h) + sha1_f t (sha_b h) (sha_c h) (sha_d h) + sha_e h
              + sha1_k t + snd tw
      in \<lparr>sha_a = x, sha_b = sha_a h, sha_c = word_rotl 30 (sha_b h),
          sha_d = sha_c h, sha_e = sha_d h\<rparr>)"

definition sha1_block :: "sha1_state \<Rightarrow> string \<Rightarrow> sha1_state" where
  "sha1_block h blk =
     (let w = sha1_extend 64 (map be_word (chunks 16 4 blk));
          h' = foldl sha1_round h (enumerate 0 w)
      in \<lparr>sha_a = sha_a h + sha_a h', sha_b = sha_b h + sha_b h', sha_c = sha_c h + sha_c h',
          sha_d = sha_d h + sha_d h', sha_e = sha_e h + sha_e h'\<rparr>)"

definition sha1_init :: sha1_state where
  "sha1_init = \<lparr>sha_a = 0x67452301, sha_b = 0xEFCDAB89, sha_c = 0x98BADCFE,
                sha_d = 0x10325476, sha_e = 0xC3D2E1F0\<rparr>"

definition sha1 :: "string \<Rightarrow> string" where
  "sha1 m =
     (let p = sha_pad m;
          h = foldl sha1_block sha1_init (chunks (length p div 64) 64 p)
      in concat (map (\<lambda>w. be_bytes 4 (unat w)) [sha_a h, sha_b h, sha_c h, sha_d h, sha_e h]))"

section \<open>Hexadecimal text\<close>

definition hex_digit :: "nat \<Rightarrow> char" where
  "hex_digit d = (if d < 10 then char_of (48 + d) else char_of (87 + d))"

definition hex_string :: "string \<Rightarrow> string" where
  "hex_string bs = concat (map (\<lambda>c. [hex_digit (of_char c div 16), hex_digit (of_char c mod 16)]) bs)"

lemma length_hex_string [simp]: "length (hex_string bs) = 2 * length bs"
  by (induction bs) (simp_all add: hex_string_def)

lemma length_be_bytes [simp]: "length (be_bytes k n) = k"
  by (simp add: be_bytes_def)

lemma length_sha1 [simp]: "length (sha1 m) = 20"
  by (simp add: sha1_def Let_def)

section \<open>Fingerprints\<close>

text \<open>What the hasher is fed: every part, terminated by a zero byte.\<close>

definition fp_bytes :: "string list \<Rightarrow> string" where
  "fp_bytes parts = concat (map (\<lambda>p. p @ [CHR 0x00]) parts)"

definition fingerprint :: "string list \<Rightarrow> string" where
  "fingerprint parts = hex_string (sha1 (fp_bytes parts))"

lemma length_fingerprint [simp]: "length (fingerprint parts) = 40"
  by (simp add: fingerprint_def)

lemma fingerprint_nonempty [simp]: "fingerprint parts \<noteq> []" "[] \<noteq> fingerprint parts"
  by (metis length_fingerprint list.size(3) zero_neq_numeral)+

lemma hex_digit_mark: "d < 16 \<Longrightarrow> ascii_mark (hex_digit d)"
  by (simp add: hex_digit_def ascii_mark_def)

lemma of_char_div_16: "(of_char c :: nat) div 16 < 16"
proof -
  have "(of_char c :: nat) < 256" by simp
  then show ?thesis by linarith
qed

lemma hex_string_mark: "c \<in> set (hex_string bs) \<Longrightarrow> ascii_mark c"
  by (auto simp: hex_string_def of_char_div_16 intro!: hex_digit_mark)

lemma trim_fingerprint [simp]: "trim_space (fingerprint parts) = fingerprint parts"
proof (rule trim_space_ascii)
  have "ascii_mark c" if "c \<in> set (fingerprint parts)" for c
    using that hex_string_mark by (auto simp: fingerprint_def)
  then show "ascii_mark (hd (fingerprint parts))" "ascii_mark (last (fingerprint parts))"
    by simp_all
qed simp

lemma fingerprint_not_blank [simp]: "\<not> blank (fingerprint parts)"
  by (simp add: blank_def)

text \<open>The zero byte is a separator: distinct parts give distinct hasher input.\<close>

lemma fp_bytes_inj_aux:
  assumes "z \<notin> set p" "z \<notin> set q" "p @ z # s = q @ z # t"
  shows "p = q \<and> s = t"
  using assms
proof (induction p arbitrary: q)
  case Nil
  then show ?case by (cases q) auto
next
  case (Cons c p)
  then show ?case by (cases q) auto
qed

lemma fp_bytes_inj:
  assumes "\<forall>p\<in>set ps. CHR 0x00 \<notin> set p" "\<forall>q\<in>set qs. CHR 0x00 \<notin> set q"
    and "fp_bytes ps = fp_bytes qs"
  shows "ps = qs"
  using assms
proof (induction ps arbitrary: qs)
  case Nil
  then show ?case by (cases qs) (simp_all add: fp_bytes_def)
next
  case (Cons p ps)
  then obtain q qs' where qs: "qs = q # qs'"
    by (cases qs) (simp_all add: fp_bytes_def)
  with Cons.prems have eq: "p @ CHR 0x00 # fp_bytes ps = q @ CHR 0x00 # fp_bytes qs'"
    by (simp add: fp_bytes_def)
  have free: "CHR 0x00 \<notin> set p" "CHR 0x00 \<notin> set q"
    using Cons.prems(1,2) by (simp_all add: qs)
  have "p = q" "fp_bytes ps = fp_bytes qs'"
    using fp_bytes_inj_aux [OF free eq] by (rule conjunct1, rule conjunct2)
  with Cons.IH [of qs'] Cons.prems(1,2) show ?case by (simp add: qs)
qed

end
