(* ===== verification/Json.thy ===== *)
theory Json
  imports Fingerprint
begin

text \<open>
  The dynamic values the App Server's JSON messages decode to (\<^verbatim>\<open>any\<close> in the
  Go code), and the accessors of \<^verbatim>\<open>internal/appserver/normalize.go\<close>,
  \<^verbatim>\<open>internal/appserver/client.go\<close> and \<^verbatim>\<open>internal/model/types.go\<close>
  that read them.
\<close>

section \<open>Values\<close>

text \<open>
  \<^verbatim>\<open>encoding/json\<close> decodes numbers to float64: mantissa times a power of two. The
  text is what \<^verbatim>\<open>%v\<close> prints for it (the shortest decimal that reads back as the
  same float); it is carried with the number and no theorem depends on it.
\<close>

datatype float64 = F64 (f_mant: int) (f_exp: int) (f_text: string)

datatype json =
    JNull
  | JBool bool
  | JNum float64
  | JStr string
  | JArr "json list"
  | JObj "(string \<times> json) list"

text \<open>A decoded object: keys are distinct and their order carries no meaning.\<close>

type_synonym jmap = "(string \<times> json) list"

text \<open>\<^verbatim>\<open>payload[key]\<close>: nil when the key is absent.\<close>

definition jget :: "jmap \<Rightarrow> string \<Rightarrow> json" where
  "jget m k = (case map_of m k of None \<Rightarrow> JNull | Some v \<Rightarrow> v)"

lemma jget_simps [simp]:
  "jget [] k = JNull"
  "jget ((k', v) # m) k = (if k' = k then v else jget m k)"
  by (simp_all add: jget_def)

text \<open>
  The type assertions \<^verbatim>\<open>v.(map[string]any)\<close> and \<^verbatim>\<open>v.([]any)\<close> in
  their comma-ok form, and with the ok dropped (a nil map reads as empty).
\<close>

definition obj_of :: "json \<Rightarrow> jmap option" where
  "obj_of v = (case v of JObj m \<Rightarrow> Some m | _ \<Rightarrow> None)"

definition list_of :: "json \<Rightarrow> json list option" where
  "list_of v = (case v of JArr xs \<Rightarrow> Some xs | _ \<Rightarrow> None)"

definition as_map :: "json \<Rightarrow> jmap" where
  "as_map v = (case v of JObj m \<Rightarrow> m | _ \<Rightarrow> [])"

definition as_list :: "json \<Rightarrow> json list" where
  "as_list v = (case v of JArr xs \<Rightarrow> xs | _ \<Rightarrow> [])"

lemma as_simps [simp]:
  "as_map (JObj m) = m" "as_list (JArr xs) = xs" "as_map JNull = []" "as_list JNull = []"
  "obj_of (JObj m) = Some m" "list_of (JArr xs) = Some xs" "obj_of JNull = None" "list_of JNull = None"
  by (simp_all add: as_map_def as_list_def obj_of_def list_of_def)

section \<open>Scalars\<close>

text \<open>\<^verbatim>\<open>stringValue\<close>: a string, unless it is the text of a formatted nil.\<close>

definition string_value :: "json \<Rightarrow> string \<Rightarrow> string" where
  "string_value v fallback =
     (case v of JStr s \<Rightarrow> if trim_space s = ''<nil>'' then fallback else s | _ \<Rightarrow> fallback)"

text \<open>\<^verbatim>\<open>stringFromAny\<close> of the model package.\<close>

definition string_from_any :: "json \<Rightarrow> string" where
  "string_from_any v = (case v of JStr s \<Rightarrow> trim_space s | _ \<Rightarrow> [])"

definition truthy :: "json \<Rightarrow> bool" where
  "truthy v =
     (case v of
        JBool b \<Rightarrow> b
      | JStr s \<Rightarrow> (let n = trim_space (to_lower s) in n = ''true'' \<or> n = ''1'' \<or> n = ''yes'')
      | JNum x \<Rightarrow> f_mant x \<noteq> 0
      | _ \<Rightarrow> False)"

text \<open>
  \<^verbatim>\<open>int64(x)\<close> truncates towards zero. Out of range the language leaves the result to
  the implementation; the amd64 one gives the least int64.
\<close>

definition trunc_float :: "float64 \<Rightarrow> int" where
  "trunc_float x =
     (let m = f_mant x; e = f_exp x
      in if 0 \<le> e then m * 2 ^ nat e else sgn m * (\<bar>m\<bar> div 2 ^ nat (- e)))"

definition int64_value :: "json \<Rightarrow> int" where
  "int64_value v =
     (case v of
        JNum x \<Rightarrow> (let n = trunc_float x in if int64_min \<le> n \<and> n \<le> int64_max then n else int64_min)
      | _ \<Rightarrow> 0)"

lemma int64_value_range: "int64_min \<le> int64_value v \<and> int64_value v \<le> int64_max"
  by (cases v) (simp_all add: int64_value_def int64_min_def int64_max_def Let_def)

section \<open>Formatting with %v\<close>

lemma size_json_pair [termination_simp]:
  "(k, v) \<in> set m \<Longrightarrow> size v < Suc (size_list (size_prod (\<lambda>_. 0) size) m)"
  by (induction m) auto

fun fmt_v :: "json \<Rightarrow> string" where
  "fmt_v JNull = ''<nil>''"
| "fmt_v (JBool b) = format_bool b"
| "fmt_v (JNum x) = f_text x"
| "fmt_v (JStr s) = s"
| "fmt_v (JArr xs) = ''['' @ join '' '' (map fmt_v xs) @ '']''"
| "fmt_v (JObj m) =
     ''map['' @
     join '' '' (map (\<lambda>kt. fst kt @ '':'' @ snd kt)
                  (sort_key fst (map (\<lambda>(k, v). (k, fmt_v v)) m))) @ '']''"

text \<open>\<^verbatim>\<open>rpcString\<close>: the trimmed text of a value, empty for nil.\<close>

definition rpc_string :: "json \<Rightarrow> string" where
  "rpc_string v =
     (if v = JNull then []
      else let out = trim_space (fmt_v v)
           in if out = [] \<or> out = ''<nil>'' then [] else out)"

definition string_slice_value :: "json \<Rightarrow> string list" where
  "string_slice_value v = filter (\<lambda>t. t \<noteq> []) (map rpc_string (as_list v))"

lemma string_slice_value_nonempty: "t \<in> set (string_slice_value v) \<Longrightarrow> t \<noteq> []"
  by (simp add: string_slice_value_def)

text \<open>\<^verbatim>\<open>firstString\<close>: the first argument that is not blank, trimmed.\<close>

fun first_string :: "string list \<Rightarrow> string" where
  "first_string [] = []"
| "first_string (v # vs) = (let t = trim_space v in if t \<noteq> [] then t else first_string vs)"

lemma first_string_trimmed: "trim_space (first_string vs) = first_string vs"
  by (induction vs) (simp_all add: Let_def)

lemma first_string_Nil_iff: "first_string vs = [] \<longleftrightarrow> (\<forall>v\<in>set vs. blank v)"
  by (induction vs) (simp_all add: Let_def blank_def)

text \<open>\<^verbatim>\<open>nestedPayloadValue\<close> and \<^verbatim>\<open>firstPayload\<close>: lookup along a dotted path.\<close>

fun path_value :: "json \<Rightarrow> string list \<Rightarrow> json" where
  "path_value v [] = v"
| "path_value v (p # ps) =
     (case v of JObj m \<Rightarrow> path_value (jget m p) ps | _ \<Rightarrow> JNull)"

definition nested_payload_value :: "jmap \<Rightarrow> string \<Rightarrow> json" where
  "nested_payload_value payload key = path_value (JObj payload) (split_byte CHR ''.'' key)"

fun first_payload :: "jmap \<Rightarrow> string list \<Rightarrow> json" where
  "first_payload payload [] = JNull"
| "first_payload payload (key # keys) =
     (let v = nested_payload_value payload key
      in if v \<noteq> JNull then v else first_payload payload keys)"

text \<open>
  \<^verbatim>\<open>statusText\<close>: a status is a string or an object with a type and, while active,
  its flags.
\<close>

definition status_text :: "json \<Rightarrow> string" where
  "status_text v =
     (case v of
        JStr s \<Rightarrow> s
      | JObj m \<Rightarrow>
          (let ty = string_value (jget m ''type'') []; flags = string_slice_value (jget m ''activeFlags'')
           in if ty = ''active'' \<and> flags \<noteq> [] then ''active['' @ join '','' flags @ '']'' else ty)
      | _ \<Rightarrow> [])"

definition status_has_flag :: "string \<Rightarrow> string \<Rightarrow> bool" where
  "status_has_flag status flag =
     (let s = to_lower (trim_space status); f = to_lower (trim_space flag)
      in if s = [] \<or> f = [] then False else s = f \<or> contains s f)"

lemma status_has_flag_blank: "status_has_flag [] flag = False"
  by (simp add: status_has_flag_def)

end
