(* ===== verification/Model.thy ===== *)
theory Model
  imports Json
begin

text \<open>
  The shared data types and pure helpers of \<^verbatim>\<open>internal/model/types.go\<close> and
  \<^verbatim>\<open>internal/model/notifier.go\<close>.
\<close>

section \<open>Time\<close>

text \<open>
  An instant is its number of nanoseconds since the Unix epoch. Go's zero time is the first of
  January of the year 1. A \<^verbatim>\<open>model.TimeString\<close> is empty, the RFC 3339 text of an
  instant (represented by the instant) or a text that does not parse.
\<close>

type_synonym instant = int
type_synonym duration = int

definition zero_time :: instant where "zero_time = -62135596800000000000"

definition second :: duration where "second = 1000000000"

datatype time_string = TEmpty | TStamp instant | TText string

text \<open>\<^verbatim>\<open>parseTime\<close> of \<^verbatim>\<open>service.go\<close>: the zero time for what does not parse.\<close>

definition parse_time :: "time_string \<Rightarrow> instant" where
  "parse_time v = (case v of TStamp t \<Rightarrow> t | _ \<Rightarrow> zero_time)"

definition is_zero_time :: "instant \<Rightarrow> bool" where
  "is_zero_time t \<longleftrightarrow> t = zero_time"

text \<open>\<^verbatim>\<open>strings.TrimSpace(string(t)) == ""\<close>.\<close>

definition ts_blank :: "time_string \<Rightarrow> bool" where
  "ts_blank v = (case v of TEmpty \<Rightarrow> True | TStamp _ \<Rightarrow> False | TText s \<Rightarrow> blank s)"

text \<open>\<^verbatim>\<open>if now.IsZero() \<lbrace> now = time.Now() \<rbrace>\<close>; the wall clock is an argument.\<close>

definition or_clock :: "instant \<Rightarrow> instant \<Rightarrow> instant" where
  "or_clock clock t = (if is_zero_time t then clock else t)"

text \<open>\<^verbatim>\<open>t.Unix()\<close>: whole seconds, rounded towards the past.\<close>

definition unix_seconds :: "instant \<Rightarrow> int" where
  "unix_seconds t = t div second"

definition max_duration :: "duration \<Rightarrow> duration \<Rightarrow> duration" where
  "max_duration l r = (if l > r then l else r)"

section \<open>Paths\<close>

text \<open>\<^verbatim>\<open>path.Clean\<close>: drop empty and dot components, resolve dot-dot lexically.\<close>

fun clean_parts :: "bool \<Rightarrow> string list \<Rightarrow> string list \<Rightarrow> string list" where
  "clean_parts rooted out [] = rev out"
| "clean_parts rooted out (w # ws) =
     (if w = [] \<or> w = ''.'' then clean_parts rooted out ws
      else if w = ''..'' then
        (case out of
           [] \<Rightarrow> clean_parts rooted (if rooted then [] else [''..'']) ws
         | o1 # out' \<Rightarrow>
             if o1 = ''..'' then clean_parts rooted (''..'' # out) ws
             else clean_parts rooted out' ws)
      else clean_parts rooted (w # out) ws)"

definition path_clean :: "string \<Rightarrow> string" where
  "path_clean p =
     (if p = [] then ''.''
      else let rooted = has_prefix p ''/'';
               ws = clean_parts rooted [] (split_byte CHR ''/'' p)
           in if rooted then ''/'' @ join ''/'' ws
              else if ws = [] then ''.'' else join ''/'' ws)"

text \<open>\<^verbatim>\<open>path.Base\<close>: the last component, after trailing slashes are dropped.\<close>

definition path_base :: "string \<Rightarrow> string" where
  "path_base p =
     (if p = [] then ''.''
      else let q = rev (dropWhile (\<lambda>c. c = CHR ''/'') (rev p));
               b = rev (takeWhile (\<lambda>c. c \<noteq> CHR ''/'') (rev q))
           in if b = [] then ''/'' else b)"

definition normalize_path :: "string \<Rightarrow> string" where
  "normalize_path value =
     (let trimmed = trim_space value
      in if trimmed = [] then []
         else let cleaned = path_clean (replace_all [CHR 0x5C] ''/'' trimmed)
              in if cleaned = ''.'' then [] else cleaned)"

definition project_name_from_cwd :: "string \<Rightarrow> string \<times> string" where
  "project_name_from_cwd cwd =
     (let normalized = normalize_path cwd
      in if normalized = [] then (''Shared/General'', [])
         else if to_lower normalized = ''c:/users/you/documents/codex''
         then (''Shared/General'', ''General'')
         else let dir = path_base normalized
              in if dir = ''.'' \<or> dir = ''/'' \<or> dir = [] then (''Shared/General'', [])
                 else (dir, dir))"

lemma path_base_component:
  "path_base p = ''/'' \<or> CHR ''/'' \<notin> set (path_base p)"
  by (auto simp: path_base_def Let_def dest: set_takeWhileD)

text \<open>The directory a thread is shown under is one path component, never a path.\<close>

lemma project_directory_component: "CHR ''/'' \<notin> set (snd (project_name_from_cwd cwd))"
  using path_base_component [of "normalize_path cwd"]
  by (auto simp: project_name_from_cwd_def Let_def)

section \<open>Threads\<close>

text \<open>
  \<^verbatim>\<open>Raw\<close> is the JSON text of the payload the thread was read from; it is kept as the
  payload itself, nil when there is none.
\<close>

record thread =
  th_id :: string
  th_title :: string
  th_cwd :: string
  th_project_name :: string
  th_directory_name :: string
  th_updated_at :: int
  th_status :: string
  th_last_preview :: string
  th_active_turn_id :: string
  th_preferred_model :: string
  th_permissions_mode :: string
  th_archived :: bool
  th_raw :: json

definition empty_thread :: thread where
  "empty_thread = \<lparr>th_id = [], th_title = [], th_cwd = [], th_project_name = [],
     th_directory_name = [], th_updated_at = 0, th_status = [], th_last_preview = [],
     th_active_turn_id = [], th_preferred_model = [], th_permissions_mode = [],
     th_archived = False, th_raw = JNull\<rparr>"

definition payload_looks_internal :: "jmap \<Rightarrow> bool" where
  "payload_looks_internal payload =
     (if payload = [] then False
      else if truthy (jget payload ''ephemeral'') then True
      else string_from_any (jget (as_map (jget payload ''source'')) ''subAgent'') \<noteq> [])"

definition raw_thread_looks_internal :: "json \<Rightarrow> bool" where
  "raw_thread_looks_internal raw =
     (case raw of
        JObj payload \<Rightarrow>
          payload_looks_internal payload \<or> payload_looks_internal (as_map (jget payload ''thread''))
      | _ \<Rightarrow> False)"

definition is_internal :: "thread \<Rightarrow> bool" where
  "is_internal t = raw_thread_looks_internal (th_raw t)"

definition short_id :: "thread \<Rightarrow> string" where
  "short_id t = (if length (th_id t) \<le> 8 then th_id t else take 8 (th_id t))"

definition label :: "thread \<Rightarrow> string" where
  "label t =
     (let title0 = trim_space (th_title t);
          title = (if title0 = [] then short_id t else title0);
          project = trim_space (th_project_name t)
      in if project = [] then title else ''['' @ project @ ''] '' @ title)"

section \<open>Chat keys\<close>

text \<open>\<^verbatim>\<open>ChatKey\<close>: the key of a chat and topic in the delivery tables.\<close>

definition chat_key :: "int \<Rightarrow> int \<Rightarrow> string" where
  "chat_key chat_id topic_id = itoa chat_id @ '':'' @ itoa topic_id"

lemma colon_not_in_itoa: "CHR '':'' \<notin> set (itoa n)"
proof -
  have "\<not> is_digit CHR '':''"
    by (simp add: is_digit_def less_eq_char_def)
  then have "CHR '':'' \<notin> set (nat_digits m)" for m
    using nat_digits_digits [of m] by (auto simp: list_all_iff)
  then show ?thesis by (simp add: itoa_def)
qed

lemma nat_digits_inj: "nat_digits m = nat_digits n \<Longrightarrow> m = n"
  by (metis digits_value_nat_digits)

lemma itoa_inj: "itoa m = itoa n \<Longrightarrow> m = n"
proof -
  have minus: "nat_digits a \<noteq> CHR ''-'' # ds" for a ds
    using is_digit_not_sign [OF hd_nat_digits [of a]] by (metis list.sel(1))
  assume "itoa m = itoa n"
  then show ?thesis
    using minus minus [symmetric]
    by (auto simp: itoa_def dest!: nat_digits_inj split: if_splits)
qed

lemma chat_key_inj: "chat_key c t = chat_key c' t' \<longleftrightarrow> c = c' \<and> t = t'"
proof
  assume eq: "chat_key c t = chat_key c' t'"
  have "itoa c = itoa c' \<and> itoa t = itoa t'"
    using fp_bytes_inj_aux [OF colon_not_in_itoa colon_not_in_itoa] eq
    by (simp add: chat_key_def)
  then show "c = c' \<and> t = t'" by (auto dest: itoa_inj)
qed simp

section \<open>Messages, details, events\<close>

record message_entity =
  me_type :: string
  me_offset :: int
  me_length :: int
  me_url :: string
  me_language :: string

record rendered_message =
  rm_text :: string
  rm_entities :: "message_entity list"

record button_spec =
  bs_text :: string
  bs_callback_data :: string

text \<open>
  A delivery's payload; the fields for files, captions and panels belong to the full profile and
  are left out.
\<close>

record delivery_payload =
  dp_mode :: string
  dp_text :: string
  dp_thread_id :: string
  dp_turn_id :: string
  dp_item_id :: string
  dp_event_id :: string
  dp_message_id :: int
  dp_buttons :: "button_spec list list"
  dp_rendered :: "rendered_message option"

text \<open>The kinds of detail items; \<^verbatim>\<open>DetailNone\<close> is the empty string, which only stored JSON can hold.\<close>

datatype detail_kind =
  DetailNone | DetailUser | DetailCommentary | DetailPlan | DetailTool | DetailOutput | DetailFinal

record detail_item =
  di_id :: string
  di_kind :: detail_kind
  di_phase :: string
  di_text :: string
  di_label :: string
  di_status :: string
  di_output :: string
  di_fp :: string
  di_commentary_index :: nat

definition new_detail :: "string \<Rightarrow> detail_kind \<Rightarrow> string \<Rightarrow> nat \<Rightarrow> detail_item" where
  "new_detail i k fp n = \<lparr>di_id = i, di_kind = k, di_phase = [], di_text = [], di_label = [],
     di_status = [], di_output = [], di_fp = fp, di_commentary_index = n\<rparr>"

datatype prompt_source = PromptServerRequest | PromptSyntheticPoll

record plan_prompt =
  pp_prompt_id :: string
  pp_source :: prompt_source
  pp_thread_id :: string
  pp_turn_id :: string
  pp_item_id :: string
  pp_request_id :: string
  pp_question :: string
  pp_options :: "string list"
  pp_fingerprint :: string
  pp_status :: string

datatype event_kind = TurnStarted | ToolActivity | ThreadUpdated | FinalAnswer | TurnCompleted | TurnFailed

record observer_event =
  oe_event_id :: string
  oe_kind :: event_kind
  oe_thread_id :: string
  oe_project_name :: string
  oe_thread_title :: string
  oe_text :: string
  oe_status :: string
  oe_turn_id :: string
  oe_item_id :: string
  oe_request_id :: string
  oe_needs_reply :: bool
  oe_needs_approval :: bool

record agent_message_entry =
  am_id :: string
  am_phase :: string
  am_text :: string
  am_fp :: string

record observer_target =
  ot_chat_id :: int
  ot_topic_id :: int
  ot_enabled :: bool

end
