(* ===== verification/Items.thy ===== *)
theory Items
  imports Model
begin

text \<open>
  How a turn's items are read (\<^verbatim>\<open>internal/appserver/normalize.go\<close>): the text
  of an item, tool labels and outputs, agent messages, the final answer, the detail list and
  the questions and choices of a turn that waits for input.
\<close>

definition nl :: string where "nl = [CHR 0x0A]"

definition tool_types :: "string list" where
  "tool_types = [''commandExecution'', ''fileChange'', ''dynamicToolCall'', ''mcpToolCall'', ''webSearch'']"

section \<open>Text of an item\<close>

definition item_str :: "jmap \<Rightarrow> string \<Rightarrow> string" where
  "item_str item key = string_value (jget item key) []"

definition item_type :: "jmap \<Rightarrow> string" where
  "item_type item = trim_space (item_str item ''type'')"

definition clean_tool_text :: "string \<Rightarrow> string" where
  "clean_tool_text value =
     (let v = trim_space value
      in if v \<in> set [[], ''<nil>'', ''{}'', ''[]'', ''map[]''] then [] else v)"

definition user_message_text :: "jmap \<Rightarrow> string" where
  "user_message_text item =
     (let text = trim_space (item_str item ''text'')
      in if text \<noteq> [] then text
         else trim_space (join nl (filter (\<lambda>t. t \<noteq> [])
                (map (\<lambda>part. trim_space (item_str (as_map part) ''text''))
                  (as_list (jget item ''content''))))))"

definition plan_text :: "jmap \<Rightarrow> string" where
  "plan_text item =
     (let text = trim_space (item_str item ''text''); plan = trim_space (item_str item ''plan'')
      in if text \<noteq> [] then text
         else if plan \<noteq> [] then plan
         else trim_space (user_message_text item))"

definition render_command :: "jmap \<Rightarrow> string" where
  "render_command item =
     (let command = clean_tool_text (item_str item ''command'');
          status = trim_space (item_str item ''status'');
          output = trim_space (item_str item ''aggregatedOutput'')
      in if output \<noteq> [] then
           (let line = trim_space (before_byte CHR 0x0A output)
            in if status \<noteq> [] \<and> command \<noteq> []
               then status @ '': '' @ command @ nl @ ''Output: '' @ line
               else line)
         else if status \<noteq> [] \<and> command \<noteq> [] then status @ '': '' @ command
         else command)"

definition render_item_text :: "jmap \<Rightarrow> string" where
  "render_item_text item =
     (let ty = item_str item ''type''; path = clean_tool_text (item_str item ''path'')
      in if ty = ''agentMessage'' then trim_space (item_str item ''text'')
         else if ty = ''userMessage'' then trim_space (user_message_text item)
         else if ty = ''plan'' then trim_space (plan_text item)
         else if ty = ''commandExecution'' then render_command item
         else if ty = ''fileChange'' \<and> path \<noteq> [] then ''File changed: '' @ path
         else trim_space (item_str item ''text''))"

fun preview_of_items :: "json list \<Rightarrow> string" where
  "preview_of_items [] = []"
| "preview_of_items (i # is) =
     (let text = render_item_text (as_map i) in if text \<noteq> [] then text else preview_of_items is)"

definition preview_from_turn :: "jmap \<Rightarrow> string" where
  "preview_from_turn turn = preview_of_items (rev (as_list (jget turn ''items'')))"

section \<open>Tools\<close>

fun first_tool_text :: "jmap \<Rightarrow> string list \<Rightarrow> string" where
  "first_tool_text item [] = []"
| "first_tool_text item (k # ks) =
     (let text = clean_tool_text (item_str item k)
      in if text \<noteq> [] then text else first_tool_text item ks)"

definition tool_label :: "jmap \<Rightarrow> string" where
  "tool_label item =
     (let ty = item_type item;
          specific =
            (if ty = ''commandExecution'' then clean_tool_text (item_str item ''command'')
             else if ty = ''fileChange'' then
               (let path = clean_tool_text (item_str item ''path'')
                in if path \<noteq> [] then ''File changed: '' @ path else [])
             else if ty = ''dynamicToolCall'' \<or> ty = ''mcpToolCall''
             then first_tool_text item [''tool'', ''name'', ''namespace'']
             else if ty = ''webSearch'' then first_tool_text item [''query'', ''text'']
             else [])
      in if specific \<noteq> [] then specific else clean_tool_text (render_item_text item))"

definition tool_status :: "jmap \<Rightarrow> string \<Rightarrow> string" where
  "tool_status item turn_status =
     (let status = trim_space (item_str item ''status'')
      in if status \<noteq> [] then status else trim_space turn_status)"

fun first_output :: "jmap \<Rightarrow> string list \<Rightarrow> string" where
  "first_output item [] = []"
| "first_output item (k # ks) =
     (if \<not> blank (item_str item k) then item_str item k else first_output item ks)"

definition tool_output :: "jmap \<Rightarrow> string" where
  "tool_output item =
     (let output = item_str item ''aggregatedOutput''
      in if \<not> blank output then output
         else if item_type item = ''commandExecution''
         then first_output item [''output'', ''stdout'', ''stderr'']
         else let text = render_item_text item in if \<not> blank text then text else [])"

text \<open>The output of a tool is either empty or shows something.\<close>

lemma first_output_blank: "blank (first_output item ks) \<Longrightarrow> first_output item ks = []"
  by (induction ks) (auto split: if_splits)

lemma tool_output_blank: "blank (tool_output item) \<Longrightarrow> tool_output item = []"
  by (auto simp: tool_output_def Let_def first_output_blank split: if_splits)

section \<open>Agent messages\<close>

definition normalize_agent_message_phase :: "jmap \<Rightarrow> string" where
  "normalize_agent_message_phase item = trim_space (item_str item ''phase'')"

text \<open>One round of the loop of \<^verbatim>\<open>collectAgentMessageEntriesFromItems\<close>.\<close>

definition entry_of_item :: "json \<Rightarrow> agent_message_entry option" where
  "entry_of_item raw =
     (let item = as_map raw; ty = item_type item
      in if ty \<noteq> ''agentMessage'' \<and> ty \<noteq> ''plan'' then None
         else let text = (if ty = ''plan'' then trim_space (plan_text item)
                          else trim_space (user_message_text item))
              in if text = [] then None
                 else let ph0 = normalize_agent_message_phase item;
                          ph = (if ty = ''plan'' \<and> ph0 = [] then ''plan'' else ph0);
                          i = item_str item ''id''
                      in Some \<lparr>am_id = i, am_phase = ph, am_text = text,
                               am_fp = fingerprint [''agentMessage'', i, ph, text]\<rparr>)"

definition collect_agent_message_entries_from_items :: "json list \<Rightarrow> nat \<Rightarrow> agent_message_entry list" where
  "collect_agent_message_entries_from_items items limit =
     take limit (List.map_filter entry_of_item (rev items))"

definition collect_agent_messages_from_items :: "json list \<Rightarrow> nat \<Rightarrow> string list" where
  "collect_agent_messages_from_items items limit =
     filter (\<lambda>t. t \<noteq> []) (map am_text (collect_agent_message_entries_from_items items limit))"

lemma entry_of_item_text: "entry_of_item raw = Some e \<Longrightarrow> am_text e \<noteq> []"
  by (auto simp: entry_of_item_def Let_def split: if_splits)

lemma entry_of_item_fp: "entry_of_item raw = Some e \<Longrightarrow> am_fp e \<noteq> []"
  by (auto simp: entry_of_item_def Let_def split: if_splits)

lemma collect_entries_from:
  assumes "e \<in> set (collect_agent_message_entries_from_items items limit)"
  shows "\<exists>raw\<in>set items. entry_of_item raw = Some e"
proof -
  have "e \<in> set (List.map_filter entry_of_item (rev items))"
    using assms unfolding collect_agent_message_entries_from_items_def by (rule in_set_takeD)
  then show ?thesis by (force simp: List.map_filter_def)
qed

lemma length_collect_entries:
  "length (collect_agent_message_entries_from_items items limit) \<le> limit"
  by (simp add: collect_agent_message_entries_from_items_def)

text \<open>
  \<^verbatim>\<open>latestFinalAgentMessage\<close>: the newest message in the phase final_answer; if no
  message names a phase, the newest message.
\<close>

definition phase_key :: "agent_message_entry \<Rightarrow> string" where
  "phase_key e = to_lower (trim_space (am_phase e))"

definition latest_final_agent_message :: "json list \<Rightarrow> string \<times> string" where
  "latest_final_agent_message items =
     (let entries = collect_agent_message_entries_from_items items (length items)
      in case find (\<lambda>e. phase_key e = ''final_answer'') entries of
           Some e \<Rightarrow> (am_text e, am_fp e)
         | None \<Rightarrow>
             if \<exists>e\<in>set entries. phase_key e \<noteq> [] then ([], [])
             else case entries of
                    [] \<Rightarrow> ([], [])
                  | e # _ \<Rightarrow> (am_text e, fingerprint [''agentMessage'', am_id e, am_text e]))"

lemma collect_entries_text:
  "e \<in> set (collect_agent_message_entries_from_items items n) \<Longrightarrow> am_text e \<noteq> [] \<and> am_fp e \<noteq> []"
  using collect_entries_from entry_of_item_text entry_of_item_fp by blast

lemma latest_final_both:
  "fst (latest_final_agent_message items) = [] \<longleftrightarrow> snd (latest_final_agent_message items) = []"
proof -
  define es where "es = collect_agent_message_entries_from_items items (length items)"
  have nonempty: "am_text e \<noteq> [] \<and> am_fp e \<noteq> []" if "e \<in> set es" for e
    using that unfolding es_def by (rule collect_entries_text)
  show ?thesis
  proof (cases "find (\<lambda>e. phase_key e = ''final_answer'') es")
    case (Some e)
    then have "e \<in> set es" by (auto simp: find_Some_iff)
    with Some nonempty show ?thesis
      unfolding latest_final_agent_message_def Let_def es_def [symmetric] by simp
  next
    case None
    with nonempty show ?thesis
      unfolding latest_final_agent_message_def Let_def es_def [symmetric]
      by (cases es) auto
  qed
qed

section \<open>Latest user message\<close>

definition user_of_item :: "json \<Rightarrow> (string \<times> string \<times> string) option" where
  "user_of_item raw =
     (let item = as_map raw
      in if item_type item \<noteq> ''userMessage'' then None
         else let text = trim_space (user_message_text item)
              in if text = [] then None
                 else let i = item_str item ''id''
                      in Some (i, text, fingerprint [''userMessage'', i, text]))"

definition latest_user_message :: "json list \<Rightarrow> string \<times> string \<times> string" where
  "latest_user_message items =
     (case List.map_filter user_of_item (rev items) of [] \<Rightarrow> ([], [], []) | u # _ \<Rightarrow> u)"

section \<open>Detail items\<close>

text \<open>
  \<^verbatim>\<open>collectDetailItemsFromItems\<close>: one pass over the items; the counter numbers the
  commentary messages and plans, and tool rows carry the number of the commentary before them.
  A step gives the rows of one item and the counter after it.
\<close>

definition detail_step :: "string \<Rightarrow> nat \<Rightarrow> json \<Rightarrow> detail_item list \<times> nat" where
  "detail_step turn_status n raw =
     (case obj_of raw of
        None \<Rightarrow> ([], n)
      | Some item \<Rightarrow>
          let ty = item_type item; i = item_str item ''id''
          in if ty = ''userMessage'' then
               (let text = trim_space (user_message_text item)
                in if text = [] then ([], n)
                   else ([(new_detail i DetailUser (fingerprint [''detail'', ty, i, text]) 0)
                            \<lparr>di_text := text\<rparr>], n))
             else if ty = ''agentMessage'' then
               (let text = trim_space (item_str item ''text'')
                in if text = [] then ([], n)
                   else let ph = normalize_agent_message_phase item;
                            final = equal_fold ph ''final_answer'';
                            n' = (if final then n else Suc n)
                        in ([(new_detail i (if final then DetailFinal else DetailCommentary)
                               (fingerprint [''detail'', ty, i, ph, text]) n')
                              \<lparr>di_phase := ph, di_text := text\<rparr>], n'))
             else if ty = ''plan'' then
               (let text = trim_space (plan_text item)
                in if text = [] then ([], n)
                   else ([(new_detail i DetailPlan (fingerprint [''detail'', ty, i, text]) (Suc n))
                            \<lparr>di_phase := ''plan'', di_text := text\<rparr>], Suc n))
             else if ty \<in> set tool_types then
               (let lbl = trim_space (tool_label item);
                    status = trim_space (tool_status item turn_status);
                    output = tool_output item
                in if lbl = [] \<and> blank output then ([], n)
                   else ((new_detail i DetailTool (fingerprint [''detail'', ty, i, lbl, status]) n)
                            \<lparr>di_label := lbl, di_status := status\<rparr>
                         # (if blank output then []
                            else [(new_detail (i @ '':output'') DetailOutput
                                     (fingerprint [''detail-output'', ty, i, output]) n)
                                    \<lparr>di_output := output\<rparr>]), n))
             else ([], n))"

fun collect_detail_from :: "string \<Rightarrow> nat \<Rightarrow> json list \<Rightarrow> detail_item list" where
  "collect_detail_from turn_status n [] = []"
| "collect_detail_from turn_status n (raw # rest) =
     (let (rows, n') = detail_step turn_status n raw
      in rows @ collect_detail_from turn_status n' rest)"

definition collect_detail_items_from_items :: "json list \<Rightarrow> string \<Rightarrow> detail_item list" where
  "collect_detail_items_from_items items turn_status = collect_detail_from turn_status 0 items"

text \<open>
  What a detail row of each kind carries: the rows the user sees have text, a tool row has a label
  or is followed by output, an output row has output; fingerprints are never empty.
\<close>

definition detail_shown :: "detail_item \<Rightarrow> bool" where
  "detail_shown d \<longleftrightarrow>
     di_fp d \<noteq> [] \<and>
     (di_kind d \<in> {DetailUser, DetailCommentary, DetailPlan, DetailFinal} \<longrightarrow> di_text d \<noteq> []) \<and>
     (di_kind d = DetailOutput \<longrightarrow> \<not> blank (di_output d)) \<and> di_kind d \<noteq> DetailNone"

lemma new_detail_sel [simp]:
  "di_id (new_detail i k fp n) = i" "di_kind (new_detail i k fp n) = k"
  "di_fp (new_detail i k fp n) = fp" "di_commentary_index (new_detail i k fp n) = n"
  "di_phase (new_detail i k fp n) = []" "di_text (new_detail i k fp n) = []"
  "di_label (new_detail i k fp n) = []" "di_status (new_detail i k fp n) = []"
  "di_output (new_detail i k fp n) = []"
  by (simp_all add: new_detail_def)

lemma detail_step_shown: "d \<in> set (fst (detail_step st n raw)) \<Longrightarrow> detail_shown d"
  unfolding detail_step_def
  by (auto simp: Let_def detail_shown_def split: option.splits if_splits)

lemma detail_step_counter: "snd (detail_step st n raw) = n \<or> snd (detail_step st n raw) = Suc n"
  unfolding detail_step_def by (auto simp: Let_def split: option.split)

lemma detail_step_index:
  "d \<in> set (fst (detail_step st n raw)) \<Longrightarrow> di_kind d \<noteq> DetailUser \<Longrightarrow>
   di_commentary_index d = snd (detail_step st n raw)"
  unfolding detail_step_def by (auto simp: Let_def split: option.splits if_splits)

lemma collect_detail_shown: "d \<in> set (collect_detail_from st n items) \<Longrightarrow> detail_shown d"
  by (induction items arbitrary: n) (auto simp: Let_def split_beta dest: detail_step_shown)

lemma collect_detail_lower:
  "d \<in> set (collect_detail_from st n items) \<Longrightarrow> di_kind d \<noteq> DetailUser \<Longrightarrow> n \<le> di_commentary_index d"
proof (induction items arbitrary: n)
  case (Cons raw items)
  have "n \<le> snd (detail_step st n raw)"
    using detail_step_counter [of st n raw] by auto
  moreover have "snd (detail_step st n raw) \<le> di_commentary_index d"
    if "d \<in> set (collect_detail_from st (snd (detail_step st n raw)) items)"
    using Cons.IH [OF that Cons.prems(2)] .
  moreover have "di_commentary_index d = snd (detail_step st n raw)"
    if "d \<in> set (fst (detail_step st n raw))"
    using detail_step_index [OF that Cons.prems(2)] .
  ultimately show ?case
    using Cons.prems(1) by (auto simp: Let_def split_beta)
qed simp

lemma sorted_map_const: "\<forall>x\<in>set xs. f x = c \<Longrightarrow> sorted (map f xs)"
  by (induction xs) auto

text \<open>The numbering never goes back: tool rows are listed under the commentary they follow.\<close>

lemma collect_detail_sorted:
  "sorted (map di_commentary_index
     (filter (\<lambda>d. di_kind d \<noteq> DetailUser) (collect_detail_from st n items)))"
proof (induction items arbitrary: n)
  case (Cons raw items)
  let ?n' = "snd (detail_step st n raw)"
  let ?rows = "filter (\<lambda>d. di_kind d \<noteq> DetailUser) (fst (detail_step st n raw))"
  have rows: "\<forall>d\<in>set ?rows. di_commentary_index d = ?n'"
    using detail_step_index by auto
  then have "sorted (map di_commentary_index ?rows)"
    by (rule sorted_map_const)
  moreover have "\<forall>d\<in>set ?rows. \<forall>d'\<in>set (filter (\<lambda>d. di_kind d \<noteq> DetailUser)
      (collect_detail_from st ?n' items)). di_commentary_index d \<le> di_commentary_index d'"
    using rows collect_detail_lower by fastforce
  ultimately show ?case
    using Cons.IH [of ?n'] by (auto simp: Let_def split_beta sorted_append)
qed simp

section \<open>Waiting for input\<close>

definition question_of_item :: "json \<Rightarrow> (string \<times> string) option" where
  "question_of_item raw =
     (let item = as_map raw; ty = item_type item
      in if ty = ''agentMessage'' then
           (if to_lower (trim_space (normalize_agent_message_phase item)) = ''final_answer'' then None
            else let text = trim_space (user_message_text item)
                 in if text \<noteq> [] then Some (item_str item ''id'', text) else None)
         else if ty = ''plan'' then
           (let text = trim_space (plan_text item)
            in if text \<noteq> [] then Some (item_str item ''id'', text) else None)
         else None)"

definition asking_user_message :: "json \<Rightarrow> (string \<times> string) option" where
  "asking_user_message raw =
     (let item = as_map raw; text = trim_space (user_message_text item)
      in if item_type item = ''userMessage'' \<and> contains text ''?''
         then Some (item_str item ''id'', text) else None)"

definition latest_plan_question :: "json list \<Rightarrow> string \<times> string" where
  "latest_plan_question items =
     (case List.map_filter question_of_item (rev items) of
        q # _ \<Rightarrow> q
      | [] \<Rightarrow> (case List.map_filter asking_user_message (rev items) of q # _ \<Rightarrow> q | [] \<Rightarrow> ([], [])))"

definition choice_of_item :: "json \<Rightarrow> string option" where
  "choice_of_item v =
     (case v of
        JStr s \<Rightarrow> (if blank s then None else Some (trim_space s))
      | JObj m \<Rightarrow>
          find (\<lambda>t. t \<noteq> []) (map (\<lambda>f. rpc_string (jget m f)) [''label'', ''text'', ''value''])
      | _ \<Rightarrow> None)"

fun choices_under :: "jmap \<Rightarrow> string list \<Rightarrow> string list" where
  "choices_under payload [] = []"
| "choices_under payload (key # keys) =
     (let out = List.map_filter choice_of_item (as_list (jget payload key))
      in if out \<noteq> [] then out else choices_under payload keys)"

definition extract_choice_options :: "jmap \<Rightarrow> string list" where
  "extract_choice_options payload =
     choices_under payload [''choices'', ''options'', ''suggestions'', ''responses'']"

definition latest_choice_options :: "json list \<Rightarrow> string list" where
  "latest_choice_options items =
     (case filter (\<lambda>os. os \<noteq> []) (map (\<lambda>raw. extract_choice_options (as_map raw)) (rev items)) of
        [] \<Rightarrow> [] | os # _ \<Rightarrow> os)"

text \<open>
  \<^verbatim>\<open>fp[:12]\<close> panics in Go when the text is shorter; a fingerprint has 40 bytes
  (\<^verbatim>\<open>length_fingerprint\<close>).
\<close>

definition synthetic_plan_prompt :: "thread \<Rightarrow> string \<Rightarrow> json list \<Rightarrow> bool \<Rightarrow> plan_prompt option" where
  "synthetic_plan_prompt t turn_id items waiting =
     (if \<not> waiting then None
      else let (item_id, q0) = latest_plan_question items;
               question = (if q0 = [] then ''Input required.'' else q0);
               options = latest_choice_options items;
               fp = fingerprint [''planPrompt'', ''synthetic_poll'', th_id t, turn_id, item_id, question,
                                 join [CHR 0x1F] options]
           in Some \<lparr>pp_prompt_id = ''synthetic:'' @ th_id t @ '':'' @ turn_id @ '':'' @ take 12 fp,
                    pp_source = PromptSyntheticPoll, pp_thread_id = th_id t, pp_turn_id = turn_id,
                    pp_item_id = item_id, pp_request_id = [], pp_question = question,
                    pp_options = options, pp_fingerprint = fp, pp_status = ''waiting for input''\<rparr>)"

definition waiting_text :: "plan_prompt option \<Rightarrow> string" where
  "waiting_text prompt =
     (case prompt of
        Some p \<Rightarrow> if \<not> blank (pp_question p) then pp_question p else ''Thread is waiting for input.''
      | None \<Rightarrow> ''Thread is waiting for input.'')"

definition question_part :: "json \<Rightarrow> string option" where
  "question_part raw =
     (case obj_of raw of
        None \<Rightarrow> None
      | Some question \<Rightarrow>
          let header = trim_space (item_str question ''header'');
              text = trim_space (item_str question ''question'')
          in if header \<noteq> [] \<and> text \<noteq> [] then Some (header @ '': '' @ text)
             else if text \<noteq> [] then Some text
             else if header \<noteq> [] then Some header else None)"

definition request_user_input_question :: "jmap \<Rightarrow> string" where
  "request_user_input_question params =
     (let text = trim_space (item_str params ''question'')
      in if text \<noteq> [] then text
         else case list_of (jget params ''questions'') of
                None \<Rightarrow> ''Input required.''
              | Some questions \<Rightarrow>
                  let parts = List.map_filter question_part questions
                  in if parts = [] then ''Input required.'' else join nl parts)"

lemma map_filter_from: "y \<in> set (List.map_filter f xs) \<Longrightarrow> \<exists>x\<in>set xs. f x = Some y"
  by (force simp: List.map_filter_def)

lemma latest_plan_question_fst_blank:
  "q \<in> set (List.map_filter question_of_item items) \<Longrightarrow> snd q \<noteq> []"
  by (auto dest!: map_filter_from simp: question_of_item_def Let_def split: if_splits)

text \<open>A prompt always asks something and has a whole fingerprint to cut the id from.\<close>

lemma synthetic_plan_prompt_wf:
  assumes "synthetic_plan_prompt t turn_id items waiting = Some p"
  shows "waiting \<and> pp_question p \<noteq> [] \<and> length (pp_fingerprint p) = 40 \<and> pp_thread_id p = th_id t
    \<and> pp_turn_id p = turn_id"
  using assms by (auto simp: synthetic_plan_prompt_def Let_def split_beta split: if_splits)

lemma entry_fp_not_blank: "entry_of_item raw = Some e \<Longrightarrow> \<not> blank (am_fp e)"
  by (auto simp: entry_of_item_def Let_def split: if_splits)

lemma latest_final_fp_not_blank:
  assumes "snd (latest_final_agent_message items) \<noteq> []"
  shows "\<not> blank (snd (latest_final_agent_message items))"
proof -
  have "\<not> blank (am_fp e)"
    if "find P (collect_agent_message_entries_from_items items n) = Some e" for P n e
    using that collect_entries_from entry_fp_not_blank by (metis find_Some_iff nth_mem)
  then show ?thesis
    using assms by (auto simp: latest_final_agent_message_def Let_def split: option.splits if_splits list.splits)
qed

end
