(* ===== verification/Snapshot.thy ===== *)
theory Snapshot
  imports Items
begin

text \<open>
  Thread payloads and thread snapshots: \<^verbatim>\<open>ThreadFromPayload\<close>,
  \<^verbatim>\<open>ThreadsFromList\<close>, \<^verbatim>\<open>SnapshotFromThreadRead\<close> and their helpers in
  \<^verbatim>\<open>internal/appserver/normalize.go\<close>.
\<close>

record snapshot =
  sn_thread :: thread
  sn_turn_id :: string
  sn_turn_status :: string
  sn_turn_started_at :: time_string
  sn_turn_updated_at :: time_string
  sn_waiting_on_approval :: bool
  sn_waiting_on_reply :: bool
  sn_agent_messages :: "string list"
  sn_agent_entries :: "agent_message_entry list"
  sn_progress_fp :: string
  sn_progress_text :: string
  sn_user_id :: string
  sn_user_text :: string
  sn_user_fp :: string
  sn_final_fp :: string
  sn_final_text :: string
  sn_tool_id :: string
  sn_tool_kind :: string
  sn_tool_label :: string
  sn_tool_status :: string
  sn_tool_output :: string
  sn_tool_fp :: string
  sn_tool_live_current :: bool
  sn_tool_started_at :: time_string
  sn_tool_updated_at :: time_string
  sn_plan_prompt :: "plan_prompt option"
  sn_detail_items :: "detail_item list"

definition empty_snapshot :: snapshot where
  "empty_snapshot = \<lparr>sn_thread = empty_thread, sn_turn_id = [], sn_turn_status = [],
     sn_turn_started_at = TEmpty, sn_turn_updated_at = TEmpty,
     sn_waiting_on_approval = False, sn_waiting_on_reply = False,
     sn_agent_messages = [], sn_agent_entries = [], sn_progress_fp = [], sn_progress_text = [],
     sn_user_id = [], sn_user_text = [], sn_user_fp = [], sn_final_fp = [], sn_final_text = [],
     sn_tool_id = [], sn_tool_kind = [], sn_tool_label = [], sn_tool_status = [],
     sn_tool_output = [], sn_tool_fp = [], sn_tool_live_current = False,
     sn_tool_started_at = TEmpty, sn_tool_updated_at = TEmpty,
     sn_plan_prompt = None, sn_detail_items = []\<rparr>"

section \<open>Threads\<close>

text \<open>The thread object of a response: nested under a key, or the response itself.\<close>

definition thread_payload_of :: "jmap \<Rightarrow> jmap" where
  "thread_payload_of payload =
     (case obj_of (jget payload ''thread'') of Some nested \<Rightarrow> nested | None \<Rightarrow> payload)"

definition turns_of :: "jmap \<Rightarrow> json list" where
  "turns_of payload = as_list (jget payload ''turns'')"

definition turn_looks_active :: "jmap \<Rightarrow> bool" where
  "turn_looks_active turn =
     (let st = status_text (jget turn ''status'')
      in equal_fold st ''inProgress'' \<or> status_has_flag st ''active'')"

definition thread_from_payload :: "jmap \<Rightarrow> thread" where
  "thread_from_payload payload =
     (let tp = thread_payload_of payload;
          i = string_value (jget tp ''id'') (string_value (jget tp ''threadId'') []);
          cwd = item_str tp ''cwd'';
          pd = project_name_from_cwd cwd;
          title = string_value (jget tp ''name'') (string_value (jget tp ''title'') i);
          preview0 = item_str tp ''preview'';
          st = status_text (jget tp ''status'');
          model = string_value (jget tp ''model'') (item_str payload ''model'');
          active0 = item_str tp ''activeTurnId'';
          last = (if turns_of tp = [] then None else obj_of (List.last (turns_of tp)));
          active = (if active0 \<noteq> [] then active0
                    else case last of
                           Some turn \<Rightarrow> if turn_looks_active turn then item_str turn ''id'' else []
                         | None \<Rightarrow> []);
          preview = (if active0 = [] \<and> preview0 = []
                     then case last of Some turn \<Rightarrow> preview_from_turn turn | None \<Rightarrow> []
                     else preview0)
      in \<lparr>th_id = i, th_title = title, th_cwd = cwd, th_project_name = fst pd,
          th_directory_name = snd pd, th_updated_at = int64_value (jget tp ''updatedAt''),
          th_status = st, th_last_preview = preview, th_active_turn_id = active,
          th_preferred_model = model, th_permissions_mode = [], th_archived = False,
          th_raw = JObj tp\<rparr>)"

definition any_maps :: "json list \<Rightarrow> jmap list" where
  "any_maps items = List.map_filter obj_of items"

definition iter_thread_items :: "jmap \<Rightarrow> jmap list" where
  "iter_thread_items payload =
     (case list_of (jget payload ''data'') of
        Some items \<Rightarrow> any_maps items
      | None \<Rightarrow> (case list_of (jget payload ''items'') of
        Some items \<Rightarrow> any_maps items
      | None \<Rightarrow> (case list_of (jget (as_map (jget payload ''thread'')) ''items'') of
        Some items \<Rightarrow> any_maps items
      | None \<Rightarrow> (case list_of (jget payload ''threads'') of
        Some items \<Rightarrow> any_maps items
      | None \<Rightarrow> (case list_of (jget payload ''results'') of
        Some items \<Rightarrow> any_maps items
      | None \<Rightarrow> [])))))"

definition threads_from_list :: "jmap \<Rightarrow> thread list" where
  "threads_from_list result =
     filter (\<lambda>t. \<not> is_internal t) (map thread_from_payload (iter_thread_items result))"

lemma threads_from_list_external: "t \<in> set (threads_from_list result) \<Longrightarrow> \<not> is_internal t"
  by (simp add: threads_from_list_def)

lemma thread_from_payload_ids:
  "th_directory_name (thread_from_payload p) = snd (project_name_from_cwd (th_cwd (thread_from_payload p)))"
  "th_archived (thread_from_payload p) = False"
  "int64_min \<le> th_updated_at (thread_from_payload p) \<and> th_updated_at (thread_from_payload p) \<le> int64_max"
  by (simp_all add: thread_from_payload_def Let_def int64_value_range)

section \<open>Finalised turns\<close>

definition terminal_turn_status :: "string \<Rightarrow> bool" where
  "terminal_turn_status status =
     (trim_space (to_lower status) \<in>
        set [''completed'', ''interrupted'', ''failed'', ''cancelled'', ''canceled''])"

definition status_looks_live :: "string \<Rightarrow> bool" where
  "status_looks_live status =
     (let s = trim_space (to_lower status)
      in s = ''active'' \<or> has_prefix s ''active['' \<or> contains s ''inprogress'' \<or> contains s ''running'')"

definition normalize_finalized_turn :: "snapshot \<Rightarrow> snapshot" where
  "normalize_finalized_turn sn =
     (if blank (sn_final_fp sn) then sn
      else if sn_waiting_on_approval sn \<or> sn_waiting_on_reply sn then sn
      else let t = sn_thread sn;
               t1 = (if trim_space (th_active_turn_id t) = trim_space (sn_turn_id sn)
                     then t\<lparr>th_active_turn_id := []\<rparr> else t);
               t2 = (if status_looks_live (th_status t1) \<or> blank (th_status t1)
                     then t1\<lparr>th_status := ''completed''\<rparr> else t1)
           in sn\<lparr>sn_turn_status := (if terminal_turn_status (sn_turn_status sn) then sn_turn_status sn
                                    else ''completed''),
                 sn_thread := t2\<rparr>)"

section \<open>The snapshot of a thread/read response\<close>

text \<open>One round of the backward scan for the latest progress text and the latest tool.\<close>

definition note_progress :: "string \<Rightarrow> jmap \<Rightarrow> snapshot \<Rightarrow> snapshot" where
  "note_progress ty item sn =
     (let text = trim_space (render_item_text item)
      in if text \<noteq> [] \<and> sn_progress_fp sn = []
         then sn\<lparr>sn_progress_fp := fingerprint [ty, item_str item ''id'', text],
                 sn_progress_text := text\<rparr>
         else sn)"

definition note_tool :: "string \<Rightarrow> jmap \<Rightarrow> snapshot \<Rightarrow> snapshot" where
  "note_tool ty item sn =
     (if sn_tool_fp sn = []
      then let i = item_str item ''id''; lbl = tool_label item;
               st = tool_status item (sn_turn_status sn); out = tool_output item
           in sn\<lparr>sn_tool_id := i, sn_tool_kind := ty, sn_tool_label := lbl, sn_tool_status := st,
                 sn_tool_output := out, sn_tool_fp := fingerprint [ty, i, lbl, st, out]\<rparr>
      else sn)"

definition scan_item :: "json \<Rightarrow> snapshot \<Rightarrow> snapshot" where
  "scan_item raw sn =
     (let item = as_map raw; ty = item_type item
      in if ty = ''plan'' then note_progress ty item sn
         else if ty \<in> set tool_types then note_tool ty item (note_progress ty item sn)
         else sn)"

definition waits_on_reply :: "string \<Rightarrow> bool" where
  "waits_on_reply status \<longleftrightarrow>
     status_has_flag status ''waitingOnUserInput'' \<or> status_has_flag status ''waitingOnInput''"

definition snapshot_of_turn :: "snapshot \<Rightarrow> jmap \<Rightarrow> snapshot" where
  "snapshot_of_turn sn0 turn =
     (let st = status_text (jget turn ''status'');
          items = as_list (jget turn ''items'');
          approval = sn_waiting_on_approval sn0 \<or> status_has_flag st ''waitingOnApproval'';
          reply = sn_waiting_on_reply sn0 \<or> waits_on_reply st;
          turn_id = item_str turn ''id'';
          (user_id, user_text, user_fp) = latest_user_message items;
          (final_text, final_fp) = latest_final_agent_message items;
          sn1 = sn0\<lparr>sn_turn_id := turn_id, sn_turn_status := st,
                     sn_waiting_on_approval := approval, sn_waiting_on_reply := reply,
                     sn_agent_messages := collect_agent_messages_from_items items 3,
                     sn_agent_entries := collect_agent_message_entries_from_items items 3,
                     sn_detail_items := collect_detail_items_from_items items st,
                     sn_plan_prompt := synthetic_plan_prompt (sn_thread sn0) turn_id items reply,
                     sn_user_id := user_id, sn_user_text := user_text, sn_user_fp := user_fp,
                     sn_final_text := final_text, sn_final_fp := final_fp\<rparr>
      in fold scan_item (rev items) (normalize_finalized_turn sn1))"

definition snapshot_from_thread_read :: "jmap \<Rightarrow> snapshot" where
  "snapshot_from_thread_read result =
     (let t = thread_from_payload result;
          turns = turns_of (thread_payload_of result);
          sn0 = empty_snapshot\<lparr>sn_thread := t,
                  sn_waiting_on_approval := status_has_flag (th_status t) ''waitingOnApproval'',
                  sn_waiting_on_reply := waits_on_reply (th_status t)\<rparr>
      in if turns = [] then sn0 else snapshot_of_turn sn0 (as_map (List.last turns)))"

subsection \<open>What the scan leaves alone\<close>

lemma scan_item_frame [simp]:
  "sn_thread (scan_item raw sn) = sn_thread sn"
  "sn_turn_id (scan_item raw sn) = sn_turn_id sn"
  "sn_turn_status (scan_item raw sn) = sn_turn_status sn"
  "sn_waiting_on_approval (scan_item raw sn) = sn_waiting_on_approval sn"
  "sn_waiting_on_reply (scan_item raw sn) = sn_waiting_on_reply sn"
  "sn_final_fp (scan_item raw sn) = sn_final_fp sn"
  "sn_final_text (scan_item raw sn) = sn_final_text sn"
  "sn_detail_items (scan_item raw sn) = sn_detail_items sn"
  "sn_plan_prompt (scan_item raw sn) = sn_plan_prompt sn"
  "sn_agent_entries (scan_item raw sn) = sn_agent_entries sn"
  by (simp_all add: scan_item_def note_progress_def note_tool_def Let_def)

lemma fold_scan_frame [simp]:
  "sn_thread (fold scan_item is sn) = sn_thread sn"
  "sn_turn_id (fold scan_item is sn) = sn_turn_id sn"
  "sn_turn_status (fold scan_item is sn) = sn_turn_status sn"
  "sn_waiting_on_approval (fold scan_item is sn) = sn_waiting_on_approval sn"
  "sn_waiting_on_reply (fold scan_item is sn) = sn_waiting_on_reply sn"
  "sn_final_fp (fold scan_item is sn) = sn_final_fp sn"
  "sn_final_text (fold scan_item is sn) = sn_final_text sn"
  "sn_detail_items (fold scan_item is sn) = sn_detail_items sn"
  "sn_plan_prompt (fold scan_item is sn) = sn_plan_prompt sn"
  "sn_agent_entries (fold scan_item is sn) = sn_agent_entries sn"
  by (induction "is" arbitrary: sn) simp_all

lemma normalize_finalized_frame [simp]:
  "sn_turn_id (normalize_finalized_turn sn) = sn_turn_id sn"
  "sn_waiting_on_approval (normalize_finalized_turn sn) = sn_waiting_on_approval sn"
  "sn_waiting_on_reply (normalize_finalized_turn sn) = sn_waiting_on_reply sn"
  "sn_final_fp (normalize_finalized_turn sn) = sn_final_fp sn"
  "sn_final_text (normalize_finalized_turn sn) = sn_final_text sn"
  "sn_detail_items (normalize_finalized_turn sn) = sn_detail_items sn"
  "sn_plan_prompt (normalize_finalized_turn sn) = sn_plan_prompt sn"
  "th_id (sn_thread (normalize_finalized_turn sn)) = th_id (sn_thread sn)"
  "th_updated_at (sn_thread (normalize_finalized_turn sn)) = th_updated_at (sn_thread sn)"
  by (simp_all add: normalize_finalized_turn_def Let_def)

section \<open>What a snapshot promises\<close>

lemma read_is_scan:
  assumes "turns_of (thread_payload_of payload) \<noteq> []"
  obtains sn items where "snapshot_from_thread_read payload = fold scan_item items (normalize_finalized_turn sn)"
proof -
  let ?items = "as_list (jget (as_map (List.last (turns_of (thread_payload_of payload)))) ''items'')"
  obtain a b c where u: "latest_user_message ?items = (a, b, c)" by (rule prod_cases3)
  obtain x y where f: "latest_final_agent_message ?items = (x, y)" by (rule prod.exhaust)
  have "\<exists>sn items. snapshot_from_thread_read payload = fold scan_item items (normalize_finalized_turn sn)"
    using assms unfolding snapshot_from_thread_read_def snapshot_of_turn_def Let_def u f prod.case
    by (simp only: if_False) (intro exI, rule refl)
  then show ?thesis using that by blast
qed

lemma normalize_finalized_closes:
  assumes "\<not> blank (sn_final_fp sn)" "\<not> sn_waiting_on_approval sn" "\<not> sn_waiting_on_reply sn"
  shows "terminal_turn_status (sn_turn_status (normalize_finalized_turn sn))"
    and "\<not> status_looks_live (th_status (sn_thread (normalize_finalized_turn sn)))"
    and "th_active_turn_id (sn_thread (normalize_finalized_turn sn)) = [] \<or>
      trim_space (th_active_turn_id (sn_thread (normalize_finalized_turn sn))) \<noteq> trim_space (sn_turn_id sn)"
proof -
  have ok: "terminal_turn_status ''completed''" "\<not> status_looks_live ''completed''" by code_simp+
  show "terminal_turn_status (sn_turn_status (normalize_finalized_turn sn))"
    using assms ok(1) by (simp add: normalize_finalized_turn_def Let_def)
  show "\<not> status_looks_live (th_status (sn_thread (normalize_finalized_turn sn)))"
    using assms ok(2) by (simp add: normalize_finalized_turn_def Let_def)
  show "th_active_turn_id (sn_thread (normalize_finalized_turn sn)) = [] \<or>
      trim_space (th_active_turn_id (sn_thread (normalize_finalized_turn sn))) \<noteq> trim_space (sn_turn_id sn)"
    using assms by (simp add: normalize_finalized_turn_def Let_def)
qed


lemma read_fields:
  assumes "turns_of (thread_payload_of payload) \<noteq> []"
  defines "turn \<equiv> as_map (List.last (turns_of (thread_payload_of payload)))"
    and "t \<equiv> thread_from_payload payload"
  shows "sn_final_fp (snapshot_from_thread_read payload) =
      snd (latest_final_agent_message (as_list (jget turn ''items'')))"
    and "sn_waiting_on_approval (snapshot_from_thread_read payload) =
      (status_has_flag (th_status t) ''waitingOnApproval'' \<or>
       status_has_flag (status_text (jget turn ''status'')) ''waitingOnApproval'')"
    and "sn_waiting_on_reply (snapshot_from_thread_read payload) =
      (waits_on_reply (th_status t) \<or> waits_on_reply (status_text (jget turn ''status'')))"
    and "sn_detail_items (snapshot_from_thread_read payload) =
      collect_detail_items_from_items (as_list (jget turn ''items'')) (status_text (jget turn ''status''))"
  using assms(1) by (simp_all add: snapshot_from_thread_read_def snapshot_of_turn_def Let_def assms(2,3)
      split: prod.split)

lemma read_without_turns:
  assumes "turns_of (thread_payload_of payload) = []"
  shows "sn_final_fp (snapshot_from_thread_read payload) = []"
    "sn_detail_items (snapshot_from_thread_read payload) = []"
  using assms by (simp_all add: snapshot_from_thread_read_def Let_def empty_snapshot_def)

text \<open>
  C21: A turn with a final answer is closed. In the snapshot of any thread/read answer, if the latest
  turn has a final answer and the thread waits for nobody, the turn's status is terminal, the thread
  no longer looks live and the turn is no longer its active turn, whatever stale status the server
  reported.
\<close>
theorem final_answer_closes_turn:
  assumes "sn_final_fp (snapshot_from_thread_read payload) \<noteq> []"
    and "\<not> sn_waiting_on_approval (snapshot_from_thread_read payload)"
    and "\<not> sn_waiting_on_reply (snapshot_from_thread_read payload)"
  shows "terminal_turn_status (sn_turn_status (snapshot_from_thread_read payload)) \<and>
    \<not> status_looks_live (th_status (sn_thread (snapshot_from_thread_read payload))) \<and>
    (th_active_turn_id (sn_thread (snapshot_from_thread_read payload)) = [] \<or>
     trim_space (th_active_turn_id (sn_thread (snapshot_from_thread_read payload))) \<noteq>
     trim_space (sn_turn_id (snapshot_from_thread_read payload)))"
proof -
  have turns: "turns_of (thread_payload_of payload) \<noteq> []"
    using assms(1) read_without_turns(1) by blast
  then obtain sn items where
    scan: "snapshot_from_thread_read payload = fold scan_item items (normalize_finalized_turn sn)"
    by (rule read_is_scan)
  have "\<not> blank (sn_final_fp (snapshot_from_thread_read payload))"
    using assms(1) latest_final_fp_not_blank unfolding read_fields(1) [OF turns] by blast
  then have "\<not> blank (sn_final_fp sn)" "\<not> sn_waiting_on_approval sn" "\<not> sn_waiting_on_reply sn"
    using assms by (simp_all add: scan)
  from normalize_finalized_closes [OF this] show ?thesis by (simp add: scan)
qed

definition demo_answer :: jmap where
  "demo_answer = [(''id'', JStr ''t''), (''status'', JStr ''active''),
     (''turns'', JArr [JObj [(''id'', JStr ''u''), (''status'', JStr ''inProgress''),
        (''items'', JArr [JObj [(''type'', JStr ''agentMessage''), (''phase'', JStr ''final_answer''),
           (''text'', JStr ''hi'')]])]])]"

lemma final_answer_closes_turn_witness:
  "terminal_turn_status (sn_turn_status (snapshot_from_thread_read demo_answer))"
proof -
  let ?turn = "[(''id'', JStr ''u''), (''status'', JStr ''inProgress''),
        (''items'', JArr [JObj [(''type'', JStr ''agentMessage''), (''phase'', JStr ''final_answer''),
           (''text'', JStr ''hi'')]])]"
  have turns: "turns_of (thread_payload_of demo_answer) = [JObj ?turn]"
    by (simp add: demo_answer_def turns_of_def thread_payload_of_def)
  then have ne: "turns_of (thread_payload_of demo_answer) \<noteq> []" by simp
  have flags: "th_status (thread_from_payload demo_answer) = ''active''"
    "\<not> status_has_flag ''active'' ''waitingOnApproval''" "\<not> waits_on_reply ''active''"
    "status_text (JStr ''inProgress'') = ''inProgress''"
    "\<not> status_has_flag ''inProgress'' ''waitingOnApproval''" "\<not> waits_on_reply ''inProgress''"
    by code_simp+
  have trims: "trim_space ''agentMessage'' = ''agentMessage''" "trim_space ''final_answer'' = ''final_answer''"
    "trim_space ''hi'' = ''hi''" "to_lower ''final_answer'' = ''final_answer''" by code_simp+
  have "sn_final_fp (snapshot_from_thread_read demo_answer) \<noteq> []"
    by (simp add: read_fields(1) [OF ne] turns latest_final_agent_message_def
        collect_agent_message_entries_from_items_def entry_of_item_def item_type_def item_str_def
        string_value_def user_message_text_def plan_text_def normalize_agent_message_phase_def
        phase_key_def trims List.map_filter_simps Let_def lower_byte_def less_eq_char_def)
  then show ?thesis
    using final_answer_closes_turn [of demo_answer]
    by (simp add: read_fields(2,3) [OF ne] turns flags)
qed

text \<open>
  The detail view of a snapshot has only rows with something to show, each with a fingerprint,
  and their commentary numbers never go back, so that a tool row stays under the message it
  follows.
\<close>
theorem detail_rows_shown_in_order:
  "list_all detail_shown (sn_detail_items (snapshot_from_thread_read payload)) \<and>
   sorted (map di_commentary_index
     (filter (\<lambda>d. di_kind d \<noteq> DetailUser) (sn_detail_items (snapshot_from_thread_read payload))))"
proof (cases "turns_of (thread_payload_of payload) = []")
  case True
  then show ?thesis by (simp add: read_without_turns)
next
  case False
  then show ?thesis
    by (auto simp: read_fields(4) collect_detail_items_from_items_def list_all_iff
        intro: collect_detail_shown collect_detail_sorted)
qed

end
