(* ===== verification/Control.thy ===== *)
theory Control
  imports Snapshot
begin

text \<open>
  The control plane's event contract (\<^verbatim>\<open>internal/control/control.go\<close> and
  \<^verbatim>\<open>events.go\<close>), notification severities (\<^verbatim>\<open>notifications.go\<close>) and
  the capability map (\<^verbatim>\<open>capabilities.go\<close>).
\<close>

section \<open>Events\<close>

record event =
  ev_channel :: string
  ev_method :: string
  ev_params :: jmap
  ev_id :: json

datatype live_kind =
    LkNone | LkTurnStarted | LkTurnCompleted | LkThreadStatus | LkToolStarted | LkToolUpdated
  | LkToolCompleted | LkAgentMessage | LkApprovalRequest | LkInputRequest
  | LkLegacyTaskStarted | LkLegacyTaskComplete

record normalized_event =
  ne_kind :: live_kind
  ne_method :: string
  ne_thread_id :: string
  ne_thread_title :: string
  ne_project_name :: string
  ne_turn_id :: string
  ne_turn_status :: string
  ne_item_id :: string
  ne_item_kind :: string
  ne_label :: string
  ne_status :: string
  ne_output :: string
  ne_text :: string
  ne_phase :: string
  ne_request_id :: string
  ne_raw :: event

section \<open>Severity\<close>

datatype severity = Urgent | Normal | Silent | Digest

definition default_notification_severity :: "normalized_event \<Rightarrow> severity" where
  "default_notification_severity e =
     (case ne_kind e of
        LkApprovalRequest \<Rightarrow> Urgent
      | LkInputRequest \<Rightarrow> Urgent
      | LkTurnCompleted \<Rightarrow> Normal
      | LkLegacyTaskComplete \<Rightarrow> Normal
      | LkAgentMessage \<Rightarrow> if ne_phase e = ''final_answer'' then Normal else Silent
      | _ \<Rightarrow> Silent)"

section \<open>Capabilities\<close>

datatype capability =
    CapThreadFork | CapSkillsList | CapHooksList | CapMCPServerStatusList | CapAppList
  | CapReviewStart | CapCommandExec | CapThreadGoalSet | CapThreadGoalClear | CapUnknown string

fun capability_method :: "capability \<Rightarrow> string" where
  "capability_method CapThreadFork = ''thread/fork''"
| "capability_method CapSkillsList = ''skills/list''"
| "capability_method CapHooksList = ''hooks/list''"
| "capability_method CapMCPServerStatusList = ''mcpServerStatus/list''"
| "capability_method CapAppList = ''app/list''"
| "capability_method CapReviewStart = ''review/start''"
| "capability_method CapCommandExec = ''command/exec''"
| "capability_method CapThreadGoalSet = ''thread/goal/set''"
| "capability_method CapThreadGoalClear = ''thread/goal/clear''"
| "capability_method (CapUnknown s) = []"

text \<open>The set of methods, as the keys of a Go map (\<^verbatim>\<open>None\<close> is the nil map).\<close>

type_synonym capability_map = "string list option"

definition capabilities_from_methods :: "string list \<Rightarrow> capability_map" where
  "capabilities_from_methods methods =
     Some (fold (\<lambda>m out. if m = [] then out else List.insert m out) methods [])"

definition supports_method :: "capability_map \<Rightarrow> string \<Rightarrow> bool" where
  "supports_method cm method =
     (case cm of None \<Rightarrow> False | Some ms \<Rightarrow> if method = [] then False else method \<in> set ms)"

definition supports :: "capability_map \<Rightarrow> capability \<Rightarrow> bool" where
  "supports cm c = supports_method cm (capability_method c)"

definition methods :: "capability_map \<Rightarrow> string list" where
  "methods cm = (case cm of None \<Rightarrow> [] | Some ms \<Rightarrow> sort ms)"

lemma fold_insert_methods:
  assumes "distinct out" "[] \<notin> set out"
  shows "distinct (fold (\<lambda>m out. if m = [] then out else List.insert m out) ms out) \<and>
    set (fold (\<lambda>m out. if m = [] then out else List.insert m out) ms out) = set out \<union> (set ms - {[]})"
  using assms by (induction ms arbitrary: out) auto

lemma capabilities_keys:
  "capabilities_from_methods ms = Some ks \<Longrightarrow> distinct ks \<and> set ks = set ms - {[]}"
  using fold_insert_methods [of "[]" ms] by (auto simp: capabilities_from_methods_def)

lemma supports_method_iff:
  "supports_method (capabilities_from_methods ms) m \<longleftrightarrow> m \<noteq> [] \<and> m \<in> set ms"
  using capabilities_keys [of ms]
  by (auto simp: supports_method_def capabilities_from_methods_def)

end
