(* ===== verification/Diff.thy ===== *)
theory Diff
  imports Snapshot
begin

text \<open>
  Comparing a snapshot with the stored state of its thread, and storing it:
  \<^verbatim>\<open>DiffSnapshot\<close>, \<^verbatim>\<open>CompactSnapshot\<close> and the timing helpers of
  \<^verbatim>\<open>internal/appserver/normalize.go\<close>.
\<close>

text \<open>
  \<^verbatim>\<open>model.ThreadSnapshotState\<close>. \<^verbatim>\<open>CompactJSON\<close> is the JSON text of the
  snapshot that was stored; it is kept as that snapshot, \<^verbatim>\<open>None\<close> when it is empty.
\<close>

record snapshot_state =
  ss_thread_updated_at :: int
  ss_thread_status :: string
  ss_turn_id :: string
  ss_turn_status :: string
  ss_progress_fp :: string
  ss_progress_sent_at :: time_string
  ss_final_fp :: string
  ss_completion_fp :: string
  ss_approval_fp :: string
  ss_reply_fp :: string
  ss_final_notice_fp :: string
  ss_tool_document_fp :: string
  ss_rich_live_event_at :: time_string
  ss_poll_at :: time_string
  ss_next_poll_after :: time_string
  ss_compact :: "snapshot option"

section \<open>Events between two reads\<close>

definition mk_event :: "thread \<Rightarrow> string \<Rightarrow> string \<Rightarrow> event_kind \<Rightarrow> string \<Rightarrow> string \<Rightarrow> observer_event" where
  "mk_event t turn_id eid k txt st =
     \<lparr>oe_event_id = eid, oe_kind = k, oe_thread_id = th_id t, oe_project_name = th_project_name t,
      oe_thread_title = th_title t, oe_text = txt, oe_status = st, oe_turn_id = turn_id,
      oe_item_id = [], oe_request_id = [], oe_needs_reply = False, oe_needs_approval = False\<rparr>"

definition poll_id :: "thread \<Rightarrow> string \<Rightarrow> string \<Rightarrow> string" where
  "poll_id t turn_id what = ''poll:'' @ th_id t @ '':'' @ turn_id @ '':'' @ what"

definition diff_started :: "snapshot_state \<Rightarrow> snapshot \<Rightarrow> observer_event list" where
  "diff_started p c =
     (let turn = sn_turn_id c; t = sn_thread c
      in if turn \<noteq> [] \<and> ss_turn_id p \<noteq> turn
         then [mk_event t turn (poll_id t turn ''started'') TurnStarted ''Turn started'' (sn_turn_status c)]
         else [])"

definition diff_progress :: "snapshot_state \<Rightarrow> snapshot \<Rightarrow> observer_event list" where
  "diff_progress p c =
     (let turn = sn_turn_id c; t = sn_thread c
      in if sn_progress_fp c \<noteq> [] \<and> sn_progress_fp c \<noteq> ss_progress_fp p
         then [mk_event t turn (poll_id t turn (''progress:'' @ sn_progress_fp c)) ToolActivity
                 (sn_progress_text c) (sn_turn_status c)]
         else [])"

definition diff_approval :: "snapshot_state \<Rightarrow> snapshot \<Rightarrow> observer_event list" where
  "diff_approval p c =
     (let turn = sn_turn_id c; t = sn_thread c
      in if sn_waiting_on_approval c \<and> ss_approval_fp p \<noteq> turn
         then [(mk_event t turn (poll_id t turn ''approval'') ThreadUpdated
                  ''Thread is waiting for approval.'' (th_status t))\<lparr>oe_needs_approval := True\<rparr>]
         else [])"

definition diff_reply :: "snapshot_state \<Rightarrow> snapshot \<Rightarrow> observer_event list" where
  "diff_reply p c =
     (let turn = sn_turn_id c; t = sn_thread c;
          fp = (case sn_plan_prompt c of
                  Some q \<Rightarrow> if pp_fingerprint q \<noteq> [] then pp_fingerprint q else turn
                | None \<Rightarrow> turn)
      in if sn_waiting_on_reply c \<and> ss_thread_status p \<noteq> th_status t
         then [(mk_event t turn (poll_id t turn (''reply:'' @ fp)) ThreadUpdated
                  (waiting_text (sn_plan_prompt c)) (th_status t))\<lparr>oe_needs_reply := True\<rparr>]
         else [])"

definition diff_final :: "snapshot_state \<Rightarrow> snapshot \<Rightarrow> observer_event list" where
  "diff_final p c =
     (let turn = sn_turn_id c; t = sn_thread c
      in if sn_final_fp c \<noteq> [] \<and> sn_final_fp c \<noteq> ss_final_fp p
         then [mk_event t turn (poll_id t turn (''final:'' @ sn_final_fp c)) FinalAnswer
                 (sn_final_text c) (sn_turn_status c)]
         else [])"

definition completion_fp :: "snapshot \<Rightarrow> string" where
  "completion_fp c = fingerprint [sn_turn_id c, sn_turn_status c]"

definition diff_completion :: "snapshot_state \<Rightarrow> snapshot \<Rightarrow> observer_event list" where
  "diff_completion p c =
     (let turn = sn_turn_id c; t = sn_thread c; st = sn_turn_status c
      in if turn = [] \<or> st = [] \<or> completion_fp c = ss_completion_fp p then []
         else if st = ''completed'' \<or> st = ''interrupted''
         then [mk_event t turn (poll_id t turn st) TurnCompleted (''Turn '' @ st) st]
         else if st = ''failed''
         then [mk_event t turn (poll_id t turn ''failed'') TurnFailed ''Turn failed'' st]
         else [])"

definition diff_snapshot :: "snapshot_state option \<Rightarrow> snapshot \<Rightarrow> observer_event list" where
  "diff_snapshot previous c =
     (case previous of
        None \<Rightarrow> []
      | Some p \<Rightarrow> diff_started p c @ diff_progress p c @ diff_approval p c @ diff_reply p c
                  @ diff_final p c @ diff_completion p c)"

lemmas diff_parts = diff_started_def diff_progress_def diff_approval_def diff_reply_def
  diff_final_def diff_completion_def

section \<open>Timing of the latest turn and tool\<close>

text \<open>The clock is read when the caller passes the zero time.\<close>

definition observed_time :: "instant \<Rightarrow> instant \<Rightarrow> instant" where
  "observed_time clock observed = (if is_zero_time observed then clock else observed)"

definition stored_snapshot :: "snapshot_state option \<Rightarrow> snapshot" where
  "stored_snapshot previous =
     (case previous of
        None \<Rightarrow> empty_snapshot
      | Some p \<Rightarrow> (case ss_compact p of None \<Rightarrow> empty_snapshot | Some sn \<Rightarrow> sn))"

definition apply_latest_turn_timing ::
    "instant \<Rightarrow> snapshot_state option \<Rightarrow> snapshot \<Rightarrow> instant \<Rightarrow> snapshot" where
  "apply_latest_turn_timing clock previous c observed =
     (if blank (sn_turn_id c) then c
      else let now = TStamp (observed_time clock observed);
               p = stored_snapshot previous;
               same = (trim_space (sn_turn_id p) = trim_space (sn_turn_id c));
               c1 = (if ts_blank (sn_turn_started_at c)
                     then c\<lparr>sn_turn_started_at :=
                              (if same \<and> \<not> ts_blank (sn_turn_started_at p) then sn_turn_started_at p
                               else now)\<rparr>
                     else c)
           in if ts_blank (sn_turn_updated_at c1) then c1\<lparr>sn_turn_updated_at := now\<rparr> else c1)"

definition latest_tool_timing_key :: "snapshot \<Rightarrow> string" where
  "latest_tool_timing_key sn =
     (let i = trim_space (sn_tool_id sn); k = trim_space (sn_tool_kind sn); l = trim_space (sn_tool_label sn)
      in if i \<noteq> [] then ''id:'' @ i
         else if k = [] \<and> l = [] then []
         else ''fallback:'' @ k @ '':'' @ l)"

definition same_latest_tool :: "snapshot \<Rightarrow> snapshot \<Rightarrow> bool" where
  "same_latest_tool l r =
     (let lk = latest_tool_timing_key l; rk = latest_tool_timing_key r;
          lt = trim_space (sn_turn_id l); rt = trim_space (sn_turn_id r)
      in if lk = [] \<or> rk = [] \<or> lk \<noteq> rk then False
         else lt = [] \<or> rt = [] \<or> lt = rt)"

definition apply_latest_tool_timing ::
    "instant \<Rightarrow> snapshot_state option \<Rightarrow> snapshot \<Rightarrow> instant \<Rightarrow> snapshot" where
  "apply_latest_tool_timing clock previous c observed =
     (if latest_tool_timing_key c = [] then c
      else let now = TStamp (observed_time clock observed);
               p = stored_snapshot previous;
               same = same_latest_tool p c;
               c1 = (if ts_blank (sn_tool_started_at c)
                     then c\<lparr>sn_tool_started_at :=
                              (if same \<and> \<not> ts_blank (sn_tool_started_at p) then sn_tool_started_at p
                               else now)\<rparr>
                     else c)
           in if ts_blank (sn_tool_updated_at c1)
              then c1\<lparr>sn_tool_updated_at :=
                        (if same \<and> \<not> ts_blank (sn_tool_updated_at p) \<and>
                            trim_space (sn_tool_fp p) = trim_space (sn_tool_fp c1)
                         then sn_tool_updated_at p else now)\<rparr>
              else c1)"

definition terminal_latest_tool_status :: "string \<Rightarrow> bool" where
  "terminal_latest_tool_status status =
     (to_lower (trim_space status) \<in>
        set [''completed'', ''succeeded'', ''failed'', ''interrupted'', ''cancelled'', ''canceled''])"

section \<open>Storing a snapshot\<close>

definition compact_snapshot :: "instant \<Rightarrow> snapshot_state option \<Rightarrow> snapshot \<Rightarrow> instant \<Rightarrow> snapshot_state" where
  "compact_snapshot clock previous c0 polled =
     (let c = apply_latest_tool_timing clock previous
                (apply_latest_turn_timing clock previous c0 polled) polled;
          keep = (\<lambda>f d. case previous of None \<Rightarrow> d | Some p \<Rightarrow> f p);
          terminal = (sn_turn_id c \<noteq> [] \<and>
                      sn_turn_status c \<in> set [''completed'', ''interrupted'', ''failed''])
      in \<lparr>ss_thread_updated_at = th_updated_at (sn_thread c),
          ss_thread_status = th_status (sn_thread c),
          ss_turn_id = sn_turn_id c,
          ss_turn_status = sn_turn_status c,
          ss_progress_fp = sn_progress_fp c,
          ss_progress_sent_at = (case previous of None \<Rightarrow> TEmpty | Some p \<Rightarrow> ss_progress_sent_at p),
          ss_final_fp = sn_final_fp c,
          ss_completion_fp = (if terminal then completion_fp c else keep ss_completion_fp []),
          ss_approval_fp = (if sn_waiting_on_approval c then sn_turn_id c else []),
          ss_reply_fp = (if sn_waiting_on_reply c
                         then case sn_plan_prompt c of Some q \<Rightarrow> pp_fingerprint q | None \<Rightarrow> []
                         else []),
          ss_final_notice_fp = keep ss_final_notice_fp [],
          ss_tool_document_fp = keep ss_tool_document_fp [],
          ss_rich_live_event_at = (case previous of None \<Rightarrow> TEmpty | Some p \<Rightarrow> ss_rich_live_event_at p),
          ss_poll_at = TStamp polled,
          ss_next_poll_after = TEmpty,
          ss_compact = Some c\<rparr>)"

text \<open>The timing helpers write the four time fields only.\<close>

definition timeless :: "snapshot \<Rightarrow> snapshot" where
  "timeless sn = sn\<lparr>sn_turn_started_at := TEmpty, sn_turn_updated_at := TEmpty,
                    sn_tool_started_at := TEmpty, sn_tool_updated_at := TEmpty\<rparr>"

lemma timeless_turn_timing: "timeless (apply_latest_turn_timing clock p c t) = timeless c"
  by (simp add: timeless_def apply_latest_turn_timing_def Let_def)

lemma timeless_tool_timing: "timeless (apply_latest_tool_timing clock p c t) = timeless c"
  by (simp add: timeless_def apply_latest_tool_timing_def Let_def)

lemma timeless_sel:
  "sn_turn_id (timeless c) = sn_turn_id c" "sn_turn_status (timeless c) = sn_turn_status c"
  "sn_thread (timeless c) = sn_thread c" "sn_progress_fp (timeless c) = sn_progress_fp c"
  "sn_final_fp (timeless c) = sn_final_fp c"
  "sn_waiting_on_approval (timeless c) = sn_waiting_on_approval c"
  "sn_waiting_on_reply (timeless c) = sn_waiting_on_reply c"
  "sn_plan_prompt (timeless c) = sn_plan_prompt c"
  by (simp_all add: timeless_def)

definition timed :: "instant \<Rightarrow> snapshot_state option \<Rightarrow> snapshot \<Rightarrow> instant \<Rightarrow> snapshot" where
  "timed clock p c t = apply_latest_tool_timing clock p (apply_latest_turn_timing clock p c t) t"

lemma timeless_timed: "timeless (timed clock p c t) = timeless c"
  by (simp add: timed_def timeless_tool_timing timeless_turn_timing)

lemma timed_sel [simp]:
  "sn_turn_id (timed clock p c t) = sn_turn_id c"
  "sn_turn_status (timed clock p c t) = sn_turn_status c"
  "sn_thread (timed clock p c t) = sn_thread c"
  "sn_progress_fp (timed clock p c t) = sn_progress_fp c"
  "sn_final_fp (timed clock p c t) = sn_final_fp c"
  "sn_waiting_on_approval (timed clock p c t) = sn_waiting_on_approval c"
  "sn_waiting_on_reply (timed clock p c t) = sn_waiting_on_reply c"
  "sn_plan_prompt (timed clock p c t) = sn_plan_prompt c"
  using timeless_timed [of clock p c t] by (metis timeless_sel)+

lemma compact_snapshot_sel:
  "ss_turn_id (compact_snapshot clock p c t) = sn_turn_id c"
  "ss_thread_status (compact_snapshot clock p c t) = th_status (sn_thread c)"
  "ss_progress_fp (compact_snapshot clock p c t) = sn_progress_fp c"
  "ss_final_fp (compact_snapshot clock p c t) = sn_final_fp c"
  "sn_waiting_on_approval c \<Longrightarrow> ss_approval_fp (compact_snapshot clock p c t) = sn_turn_id c"
  "sn_turn_id c \<noteq> [] \<Longrightarrow> sn_turn_status c \<in> {''completed'', ''interrupted'', ''failed''} \<Longrightarrow>
   ss_completion_fp (compact_snapshot clock p c t) = completion_fp c"
  by (auto simp: compact_snapshot_def Let_def completion_fp_def simp flip: timed_def)

section \<open>Each event once\<close>

text \<open>
  Polling is quiet when nothing happens. The first snapshot of a thread reports nothing, and
  comparing a reading of the thread with the state that was stored from the same reading reports
  nothing, whatever was stored before that and whatever the clocks say.
\<close>
theorem poll_quiescent:
  "diff_snapshot None c = [] \<and>
   diff_snapshot (Some (compact_snapshot clock p c t)) (timed clock' p' c t') = []"
proof -
  let ?s = "compact_snapshot clock p c t"
  have "completion_fp (timed clock' p' c t') = completion_fp c"
    by (simp add: completion_fp_def)
  moreover have "completion_fp c = ss_completion_fp ?s"
    if "sn_turn_id c \<noteq> []" "sn_turn_status c \<in> {''completed'', ''interrupted'', ''failed''}"
    by (rule compact_snapshot_sel(6) [OF that, symmetric])
  ultimately have "diff_completion ?s (timed clock' p' c t') = []"
    by (auto simp: diff_completion_def Let_def)
  then show ?thesis
    by (simp add: diff_snapshot_def diff_started_def diff_progress_def diff_approval_def diff_reply_def
        diff_final_def Let_def compact_snapshot_sel)
qed

lemma poll_id_inject [simp]: "poll_id t u x = poll_id t u y \<longleftrightarrow> x = y"
  by (simp add: poll_id_def)

text \<open>Each part contributes at most one event; these are the ids it can have.\<close>

definition diff_ids :: "snapshot \<Rightarrow> string list" where
  "diff_ids c =
     (let u = sn_turn_id c
      in map (poll_id (sn_thread c) u)
           [''started'', ''progress:'' @ sn_progress_fp c, ''approval'',
            ''reply:'' @ (case sn_plan_prompt c of
                  Some q \<Rightarrow> if pp_fingerprint q \<noteq> [] then pp_fingerprint q else u
                | None \<Rightarrow> u),
            ''final:'' @ sn_final_fp c,
            if sn_turn_status c = ''completed'' \<or> sn_turn_status c = ''interrupted'' then sn_turn_status c
            else ''failed''])"

lemma diff_ids_cover: "subseq (map oe_event_id (diff_snapshot (Some p) c)) (diff_ids c)"
proof -
  have split: "diff_ids c = concat (map (\<lambda>x. [x]) (diff_ids c))" by simp
  have "subseq (map oe_event_id (diff_started p c)) [diff_ids c ! 0]"
    "subseq (map oe_event_id (diff_progress p c)) [diff_ids c ! 1]"
    "subseq (map oe_event_id (diff_approval p c)) [diff_ids c ! 2]"
    "subseq (map oe_event_id (diff_reply p c)) [diff_ids c ! 3]"
    "subseq (map oe_event_id (diff_final p c)) [diff_ids c ! 4]"
    "subseq (map oe_event_id (diff_completion p c)) [diff_ids c ! 5]"
    by (simp_all add: diff_parts mk_event_def diff_ids_def Let_def)
  then have "subseq (map oe_event_id (diff_snapshot (Some p) c))
      ([diff_ids c ! 0] @ [diff_ids c ! 1] @ [diff_ids c ! 2] @ [diff_ids c ! 3] @ [diff_ids c ! 4] @ [diff_ids c ! 5])"
    unfolding diff_snapshot_def option.case map_append by (intro list_emb_append_mono)
  moreover have "[diff_ids c ! 0] @ [diff_ids c ! 1] @ [diff_ids c ! 2] @ [diff_ids c ! 3] @ [diff_ids c ! 4] @
      [diff_ids c ! 5] = diff_ids c"
    by (simp add: diff_ids_def Let_def)
  ultimately show ?thesis by (simp only:)
qed

lemma diff_ids_distinct: "distinct (diff_ids c)"
proof -
  have "distinct (map (poll_id t u) xs)" if "distinct xs" for t u xs
    using that by (simp add: distinct_map inj_on_def)
  then show ?thesis unfolding diff_ids_def Let_def by (rule meta_mp) auto
qed

lemma subseq_distinct: "subseq xs ys \<Longrightarrow> distinct ys \<Longrightarrow> distinct xs"
  by (metis subseq_conv_nths distinct_nthsI)

text \<open>
  C20: The events of one poll have different ids, belong to the thread and turn that were read, and
  ask for an approval or a reply only when the thread waits for it.
\<close>
theorem poll_events_wellformed:
  "distinct (map oe_event_id (diff_snapshot p c)) \<and>
   list_all (\<lambda>e. oe_thread_id e = th_id (sn_thread c) \<and> oe_turn_id e = sn_turn_id c \<and>
     (oe_needs_approval e \<le> sn_waiting_on_approval c) \<and>
     (oe_needs_reply e \<le> sn_waiting_on_reply c)) (diff_snapshot p c)" (is "_ \<and> list_all ?ok _")
proof (cases p)
  case (Some s)
  have "list_all ?ok (diff_started s c)" "list_all ?ok (diff_progress s c)" "list_all ?ok (diff_approval s c)"
    "list_all ?ok (diff_reply s c)" "list_all ?ok (diff_final s c)" "list_all ?ok (diff_completion s c)"
    by (simp_all add: diff_parts mk_event_def Let_def)
  then show ?thesis
    using subseq_distinct [OF diff_ids_cover diff_ids_distinct, of s c]
    by (simp add: Some diff_snapshot_def)
qed (simp add: diff_snapshot_def)

end
