(* ===== verification/Live_Event.thy ===== *)
theory Live_Event
  imports Control Diff
begin

text \<open>
  Live App Server events: \<^verbatim>\<open>internal/appserver/live_event.go\<close>, and the observer
  events and pending prompts that \<^verbatim>\<open>internal/appserver/normalize.go\<close> derives from
  them.
\<close>

definition nested_thread_id :: "jmap \<Rightarrow> string" where
  "nested_thread_id params =
     (let v = item_str params ''threadId''; t = as_map (jget params ''thread'')
      in if v \<noteq> [] then v
         else if item_str t ''id'' \<noteq> [] then item_str t ''id''
         else item_str t ''threadId'')"

definition nested_turn_id :: "jmap \<Rightarrow> string" where
  "nested_turn_id payload = item_str (as_map (jget payload ''turn'')) ''id''"

definition tool_live_event_kind :: "string \<Rightarrow> live_kind" where
  "tool_live_event_kind method =
     (if method = ''item/completed'' then LkToolCompleted
      else if method = ''item/updated'' then LkToolUpdated
      else LkToolStarted)"

section \<open>Notifications\<close>

definition normalize_item_event :: "string \<Rightarrow> jmap \<Rightarrow> normalized_event \<Rightarrow> normalized_event option" where
  "normalize_item_event method params n =
     (let item = as_map (jget params ''item'');
          ty = item_type item;
          n1 = n\<lparr>ne_item_kind := ty, ne_item_id := string_value (jget item ''id'') ty\<rparr>
      in if ty \<in> set tool_types then
           (let kind = tool_live_event_kind method;
                lbl = trim_space (tool_label item);
                out = tool_output item;
                st0 = trim_space (tool_status item []);
                st1 = (if st0 = [] then trim_space (item_str params ''status'') else st0);
                st = (if st1 = [] then (if kind = LkToolCompleted then ''completed'' else ''running'')
                      else st1);
                n2 = n1\<lparr>ne_kind := kind, ne_label := lbl, ne_output := out, ne_status := st\<rparr>
            in if ne_thread_id n2 \<noteq> [] \<and> (lbl \<noteq> [] \<or> \<not> blank out) then Some n2 else None)
         else if ty = ''agentMessage'' then
           (let n2 = n1\<lparr>ne_kind := LkAgentMessage, ne_text := trim_space (item_str item ''text''),
                        ne_phase := normalize_agent_message_phase item\<rparr>
            in if ne_thread_id n2 \<noteq> [] \<and> ne_text n2 \<noteq> [] then Some n2 else None)
         else None)"

definition legacy_command_label :: "json \<Rightarrow> string" where
  "legacy_command_label v =
     (case v of
        JArr parts \<Rightarrow>
          join '' '' (filter (\<lambda>t. t \<noteq> [] \<and> t \<noteq> ''<nil>'') (map (\<lambda>p. trim_space (fmt_v p)) parts))
      | _ \<Rightarrow> trim_space (string_value v []))"

definition legacy_item_id :: "jmap \<Rightarrow> string" where
  "legacy_item_id msg = first_string [item_str msg ''call_id'', item_str msg ''callId'', ''commandExecution'']"

definition legacy_fields :: "jmap \<Rightarrow> normalized_event \<Rightarrow> normalized_event option" where
  "legacy_fields msg n =
     (let ty = item_type msg
      in if ty = ''task_started''
         then Some (n\<lparr>ne_kind := LkLegacyTaskStarted, ne_turn_status := ''inProgress''\<rparr>)
         else if ty = ''task_complete''
         then Some (n\<lparr>ne_kind := LkLegacyTaskComplete, ne_turn_status := ''completed''\<rparr>)
         else if ty = ''turn_aborted''
         then Some (n\<lparr>ne_kind := LkTurnCompleted, ne_turn_status := ''interrupted''\<rparr>)
         else if ty = ''exec_command_begin''
         then Some (n\<lparr>ne_kind := LkToolStarted, ne_item_kind := ''commandExecution'',
                      ne_item_id := legacy_item_id msg,
                      ne_label := legacy_command_label (jget msg ''command''),
                      ne_status := first_string [item_str msg ''status'', ''running'']\<rparr>)
         else if ty = ''exec_command_end''
         then Some (n\<lparr>ne_kind := LkToolCompleted, ne_item_kind := ''commandExecution'',
                      ne_item_id := legacy_item_id msg,
                      ne_label := legacy_command_label (jget msg ''command''),
                      ne_output := first_string [item_str msg ''output'', item_str msg ''error''],
                      ne_status := first_string [item_str msg ''status'', ''completed'']\<rparr>)
         else if ty = ''agent_message''
         then Some (n\<lparr>ne_kind := LkAgentMessage, ne_text := trim_space (item_str msg ''message'')\<rparr>)
         else None)"

definition normalize_legacy_codex_event :: "event \<Rightarrow> thread \<Rightarrow> normalized_event \<Rightarrow> normalized_event option" where
  "normalize_legacy_codex_event ev t n =
     (let m0 = as_map (jget (ev_params ev) ''msg'');
          msg = (if m0 = [] then ev_params ev else m0);
          n1 = n\<lparr>ne_thread_id := first_string [nested_thread_id msg, nested_thread_id (ev_params ev), th_id t],
                 ne_thread_title := th_title t, ne_project_name := th_project_name t,
                 ne_turn_id := first_string [item_str msg ''turn_id'', item_str msg ''turnId'',
                                             th_active_turn_id t]\<rparr>
      in case legacy_fields msg n1 of
           None \<Rightarrow> None
         | Some n2 \<Rightarrow>
             if ne_thread_id n2 \<noteq> [] \<or> ne_turn_id n2 \<noteq> [] \<or> ne_label n2 \<noteq> [] \<or> ne_text n2 \<noteq> []
             then Some n2 else None)"

definition method_key :: "event \<Rightarrow> string" where
  "method_key ev = trim_space (to_lower (ev_method ev))"

definition normalize_notification_event :: "event \<Rightarrow> thread \<Rightarrow> normalized_event \<Rightarrow> normalized_event option" where
  "normalize_notification_event ev t n =
     (let method = method_key ev; params = ev_params ev
      in if has_prefix method ''codex/event'' then normalize_legacy_codex_event ev t n
         else
           let n1 = n\<lparr>ne_thread_id := first_string [nested_thread_id params, th_id t],
                      ne_thread_title := first_string [item_str params ''threadTitle'', th_title t],
                      ne_project_name := first_string [item_str params ''projectName'', th_project_name t],
                      ne_turn_id := first_string [item_str params ''turnId'', nested_turn_id params,
                                                  th_active_turn_id t],
                      ne_turn_status := status_text (first_payload params [''status'', ''turn.status''])\<rparr>
           in if method = ''turn/started'' then
                (let n2 = n1\<lparr>ne_kind := LkTurnStarted,
                             ne_turn_status := first_string [ne_turn_status n1, ''inProgress'']\<rparr>
                 in if ne_thread_id n2 \<noteq> [] \<or> ne_turn_id n2 \<noteq> [] then Some n2 else None)
              else if method = ''turn/completed'' then
                (let n2 = n1\<lparr>ne_kind := LkTurnCompleted,
                             ne_turn_status := first_string [ne_turn_status n1,
                                status_text (first_payload params [''turn.status'']), ''completed'']\<rparr>
                 in if ne_thread_id n2 \<noteq> [] \<or> ne_turn_id n2 \<noteq> [] then Some n2 else None)
              else if method = ''thread/status/changed'' then
                (let n2 = n1\<lparr>ne_kind := LkThreadStatus,
                             ne_turn_status := first_string [ne_turn_status n1,
                                status_text (first_payload params [''thread.status'', ''status.type'']),
                                ''inProgress'']\<rparr>
                 in if ne_thread_id n2 \<noteq> [] \<or> ne_turn_status n2 \<noteq> [] then Some n2 else None)
              else if method \<in> set [''item/started'', ''item/updated'', ''item/completed'']
              then normalize_item_event method params n1
              else None)"

section \<open>Server requests\<close>

definition normalize_server_request_event :: "event \<Rightarrow> thread \<Rightarrow> normalized_event \<Rightarrow> normalized_event option" where
  "normalize_server_request_event ev t n =
     (let method = method_key ev; params = ev_params ev;
          n1 = n\<lparr>ne_thread_id := first_string [nested_thread_id params, th_id t],
                 ne_thread_title := th_title t, ne_project_name := th_project_name t,
                 ne_turn_id := first_string [item_str params ''turnId'', nested_turn_id params,
                                             th_active_turn_id t],
                 ne_item_id := item_str params ''itemId'',
                 ne_request_id := rpc_string (ev_id ev)\<rparr>;
          kind = (if contains method ''requestapproval'' then LkApprovalRequest
                  else if contains method ''input'' \<or> contains method ''elicitation'' then LkInputRequest
                  else LkNone)
      in if kind = LkNone then None
         else if ne_thread_id n1 \<noteq> [] \<or> ne_request_id n1 \<noteq> [] then Some (n1\<lparr>ne_kind := kind\<rparr>)
         else None)"

definition blank_event :: "event \<Rightarrow> normalized_event" where
  "blank_event ev = \<lparr>ne_kind = LkNone, ne_method = trim_space (ev_method ev), ne_thread_id = [],
     ne_thread_title = [], ne_project_name = [], ne_turn_id = [], ne_turn_status = [], ne_item_id = [],
     ne_item_kind = [], ne_label = [], ne_status = [], ne_output = [], ne_text = [], ne_phase = [],
     ne_request_id = [], ne_raw = ev\<rparr>"

definition normalize_app_server_live_event :: "event \<Rightarrow> thread \<Rightarrow> normalized_event option" where
  "normalize_app_server_live_event ev t =
     (if ev_channel ev = ''notification'' then normalize_notification_event ev t (blank_event ev)
      else if ev_channel ev = ''server_request'' then normalize_server_request_event ev t (blank_event ev)
      else None)"

section \<open>Snapshots of live tools\<close>

definition live_tool_detail_items :: "snapshot \<Rightarrow> detail_item list" where
  "live_tool_detail_items sn =
     (if blank (sn_tool_fp sn) then []
      else let out = trim_space (sn_tool_output sn)
           in (new_detail (sn_tool_id sn) DetailTool (sn_tool_fp sn) 0)
                \<lparr>di_label := sn_tool_label sn, di_status := sn_tool_status sn\<rparr>
              # (if out = [] then []
                 else [(new_detail (sn_tool_id sn @ '':output'') DetailOutput
                          (fingerprint [''live-tool-output'', sn_tool_id sn, out]) 0)
                         \<lparr>di_output := out\<rparr>]))"

definition tool_event_kind :: "live_kind \<Rightarrow> bool" where
  "tool_event_kind k \<longleftrightarrow> k = LkToolStarted \<or> k = LkToolUpdated \<or> k = LkToolCompleted"

definition tool_snapshot_from_live_event :: "normalized_event \<Rightarrow> thread \<Rightarrow> snapshot option" where
  "tool_snapshot_from_live_event e t =
     (let thread_id = first_string [ne_thread_id e, th_id t];
          lbl = trim_space (ne_label e); out = ne_output e
      in if \<not> tool_event_kind (ne_kind e) then None
         else if thread_id = [] then None
         else if lbl = [] \<and> blank out then None
         else
           let st0 = trim_space (ne_status e);
               st = (if st0 = [] then (if ne_kind e = LkToolCompleted then ''completed'' else ''running'')
                     else st0);
               turn_id = trim_space (ne_turn_id e);
               turn_status = (if terminal_latest_tool_status st
                              then first_string [trim_space (ne_turn_status e), ''inProgress'']
                              else ''inProgress'');
               progress = (if lbl = [] then trim_space out else lbl);
               kind = first_string [ne_item_kind e, ''tool''];
               tool_id = first_string [ne_item_id e, kind];
               sn = empty_snapshot\<lparr>
                      sn_thread := empty_thread\<lparr>th_id := thread_id,
                        th_title := first_string [th_title t, ne_thread_title e, thread_id],
                        th_project_name := first_string [th_project_name t, ne_project_name e],
                        th_status := ''inProgress'', th_active_turn_id := turn_id\<rparr>,
                      sn_turn_id := turn_id, sn_turn_status := turn_status,
                      sn_progress_text := progress,
                      sn_tool_id := tool_id, sn_tool_kind := kind, sn_tool_label := lbl,
                      sn_tool_status := st, sn_tool_output := out,
                      sn_tool_live_current := (ne_kind e \<noteq> LkToolCompleted \<and> turn_id \<noteq> [] \<and>
                                               \<not> terminal_latest_tool_status st),
                      sn_progress_fp := fingerprint [''live-progress'', kind, tool_id, progress, st, out],
                      sn_tool_fp := fingerprint [''live-tool'', kind, tool_id, lbl, st, out]\<rparr>
           in Some (sn\<lparr>sn_detail_items := live_tool_detail_items sn\<rparr>))"

definition tool_snapshot_from_live_notification :: "event \<Rightarrow> thread \<Rightarrow> snapshot option" where
  "tool_snapshot_from_live_notification ev t =
     (case normalize_app_server_live_event ev t of
        None \<Rightarrow> None
      | Some e \<Rightarrow> tool_snapshot_from_live_event e t)"

section \<open>Observer events of live notifications\<close>

definition live_id :: "string \<Rightarrow> string \<Rightarrow> string \<Rightarrow> string" where
  "live_id thread_id turn_id what = ''live:'' @ thread_id @ '':'' @ turn_id @ '':'' @ what"

definition live_event :: "string \<Rightarrow> string \<Rightarrow> string \<Rightarrow> string \<Rightarrow> event_kind \<Rightarrow> string \<Rightarrow> observer_event" where
  "live_event thread_id project title eid k txt =
     \<lparr>oe_event_id = eid, oe_kind = k, oe_thread_id = thread_id, oe_project_name = project,
      oe_thread_title = title, oe_text = txt, oe_status = [], oe_turn_id = [],
      oe_item_id = [], oe_request_id = [], oe_needs_reply = False, oe_needs_approval = False\<rparr>"

definition live_item_completed :: "string \<Rightarrow> string \<Rightarrow> string \<Rightarrow> jmap \<Rightarrow> observer_event list" where
  "live_item_completed thread_id project title params =
     (let item = as_map (jget params ''item''); ty = item_type item;
          turn_id = item_str params ''turnId'';
          text = trim_space (render_item_text item);
          ev = (\<lambda>k dflt. (live_event thread_id project title
                           (live_id thread_id turn_id (string_value (jget item ''id'') dflt)) k text)
                         \<lparr>oe_turn_id := turn_id, oe_item_id := item_str item ''id''\<rparr>)
      in if ty = ''agentMessage'' \<and> text \<noteq> [] then
           (let phase = to_lower (normalize_agent_message_phase item)
            in if phase \<noteq> [] \<and> phase \<noteq> ''final_answer'' then [] else [ev FinalAnswer ''agent''])
         else if ty = ''plan'' \<and> text \<noteq> [] then [ev ThreadUpdated ''plan'']
         else if text \<noteq> [] then [ev ToolActivity ty]
         else [])"

definition live_status_changed :: "string \<Rightarrow> string \<Rightarrow> string \<Rightarrow> jmap \<Rightarrow> observer_event list" where
  "live_status_changed thread_id project title params =
     (let st = status_text (jget params ''status'');
          ev = (\<lambda>txt. (live_event thread_id project title (''live:'' @ thread_id @ '':status:'' @ st)
                         ThreadUpdated txt)\<lparr>oe_status := st\<rparr>)
      in if status_has_flag st ''waitingOnApproval''
         then [(ev ''Thread is waiting for approval.'')\<lparr>oe_needs_approval := True\<rparr>]
         else if waits_on_reply st
         then [(ev ''Thread is waiting for input.'')\<lparr>oe_needs_reply := True\<rparr>]
         else [])"

definition normalize_live_notification :: "event \<Rightarrow> thread \<Rightarrow> observer_event list" where
  "normalize_live_notification ev t =
     (let method = method_key ev; params = ev_params ev;
          tid0 = nested_thread_id params;
          thread_id = (if tid0 = [] then th_id t else tid0);
          project = (if th_project_name t = [] then item_str params ''projectName'' else th_project_name t);
          title = (if th_title t = [] then string_value (jget params ''threadTitle'') thread_id
                   else th_title t);
          turn = as_map (jget params ''turn'');
          turn_id = string_value (jget turn ''id'') (item_str params ''turnId'')
      in if thread_id = [] then []
         else if method = ''turn/started'' then
           [(live_event thread_id project title (live_id thread_id turn_id ''started'') TurnStarted
               ''Turn started'')\<lparr>oe_status := item_str turn ''status'', oe_turn_id := turn_id\<rparr>]
         else if method = ''turn/completed'' then
           (let st = string_value (jget turn ''status'') (string_value (jget params ''status'') ''completed'');
                failed = (st = ''failed'')
            in [(live_event thread_id project title (live_id thread_id turn_id st)
                   (if failed then TurnFailed else TurnCompleted)
                   (if failed then ''Turn failed'' else ''Turn '' @ st))
                  \<lparr>oe_status := st, oe_turn_id := turn_id\<rparr>])
         else if method = ''turn/plan/updated'' then
           (let tid = item_str params ''turnId'';
                text = trim_space (string_value (jget params ''text'')
                         (string_value (jget params ''plan'') ''Plan updated''))
            in [(live_event thread_id project title
                   (live_id thread_id tid (''plan:'' @ fingerprint [text])) ThreadUpdated text)
                  \<lparr>oe_turn_id := tid\<rparr>])
         else if method = ''item/completed'' then live_item_completed thread_id project title params
         else if method = ''thread/status/changed'' then live_status_changed thread_id project title params
         else [])"

section \<open>Pending prompts of server requests\<close>

datatype prompt_kind = PromptApproval | PromptUserInput

record pending_prompt =
  pr_request_id :: string
  pr_thread_id :: string
  pr_turn_id :: string
  pr_item_id :: string
  pr_kind :: prompt_kind
  pr_question :: string
  pr_status :: string
  pr_payload :: jmap
  pr_updated_at :: time_string

definition pending_approval_from_server_request :: "instant \<Rightarrow> event \<Rightarrow> pending_prompt option" where
  "pending_approval_from_server_request clock ev =
     (let method = to_lower (trim_space (ev_method ev)); params = ev_params ev;
          request_id = rpc_string (ev_id ev);
          prompt = (\<lambda>k q. \<lparr>pr_request_id = request_id, pr_thread_id = nested_thread_id params,
                      pr_turn_id = item_str params ''turnId'', pr_item_id = item_str params ''itemId'',
                      pr_kind = k, pr_question = q, pr_status = ''pending'', pr_payload = params,
                      pr_updated_at = TStamp clock\<rparr>)
      in if ev_channel ev \<noteq> ''server_request'' then None
         else if request_id = [] then None
         else if contains method ''requestapproval''
         then Some (prompt PromptApproval (string_value (jget params ''question'') ''Approval required.''))
         else if contains method ''requestuserinput''
         then Some (prompt PromptUserInput (request_user_input_question params))
         else None)"

section \<open>Facts\<close>

lemma join_nonempty: "ws \<noteq> [] \<Longrightarrow> (\<And>w. w \<in> set ws \<Longrightarrow> w \<noteq> []) \<Longrightarrow> join sep ws \<noteq> []"
  by (induction sep ws rule: join.induct) auto

lemma question_part_nonempty: "question_part q = Some t \<Longrightarrow> t \<noteq> []"
  by (auto simp: question_part_def Let_def split: option.splits if_splits)

lemma request_user_input_question_nonempty: "request_user_input_question params \<noteq> []"
proof -
  have "join nl (List.map_filter question_part qs) \<noteq> []"
    if "List.map_filter question_part qs \<noteq> []" for qs
    using that by (rule join_nonempty) (auto dest!: map_filter_from question_part_nonempty)
  then show ?thesis
    by (auto simp: request_user_input_question_def Let_def split: option.split)
qed

lemma tool_event_kind_simps [simp]:
  "tool_event_kind LkToolStarted" "tool_event_kind LkToolUpdated" "tool_event_kind LkToolCompleted"
  "\<not> tool_event_kind LkNone" "\<not> tool_event_kind LkAgentMessage"
  by (simp_all add: tool_event_kind_def)

lemma tool_live_kind [simp]: "tool_event_kind (tool_live_event_kind m)"
  by (simp add: tool_live_event_kind_def)

lemma live_details_frame: "live_tool_detail_items (sn\<lparr>sn_detail_items := ds\<rparr>) = live_tool_detail_items sn"
  by (simp add: live_tool_detail_items_def Let_def)

text \<open>
  What a live tool event shows. A snapshot made from one names a thread and has a whole
  fingerprint, something to show (a label or output) and a tool row with that label and status
  first; it counts as the tool running now only if its turn is known and neither the event nor the
  status says that it ended; and a turn is shown as ended only together with its tool.
\<close>
theorem live_tool_snapshot:
  assumes "tool_snapshot_from_live_event e t = Some sn"
  shows "th_id (sn_thread sn) \<noteq> [] \<and> length (sn_tool_fp sn) = 40 \<and>
    (sn_tool_label sn \<noteq> [] \<or> \<not> blank (sn_tool_output sn)) \<and> sn_tool_status sn \<noteq> [] \<and>
    (\<exists>rest. sn_detail_items sn = (new_detail (sn_tool_id sn) DetailTool (sn_tool_fp sn) 0)
        \<lparr>di_label := sn_tool_label sn, di_status := sn_tool_status sn\<rparr> # rest) \<and>
    list_all detail_shown (sn_detail_items sn) \<and>
    (sn_tool_live_current sn \<longleftrightarrow> ne_kind e \<noteq> LkToolCompleted \<and> sn_turn_id sn \<noteq> [] \<and>
       \<not> terminal_latest_tool_status (sn_tool_status sn)) \<and>
    (sn_turn_status sn = ''inProgress'' \<or> terminal_latest_tool_status (sn_tool_status sn))"
proof -
  define st where "st = (if trim_space (ne_status e) = []
    then (if ne_kind e = LkToolCompleted then ''completed'' else ''running'') else trim_space (ne_status e))"
  have guard: "tool_event_kind (ne_kind e)" "first_string [ne_thread_id e, th_id t] \<noteq> []"
    "\<not> (trim_space (ne_label e) = [] \<and> blank (ne_output e))"
    using assms by (simp_all only: tool_snapshot_from_live_event_def Let_def if_True not_not split: if_split_asm) auto
  note sn = assms [unfolded tool_snapshot_from_live_event_def Let_def, folded st_def]
  have st: "st \<noteq> []" by (simp add: st_def)
  have fields: "th_id (sn_thread sn) = first_string [ne_thread_id e, th_id t]"
    "sn_tool_label sn = trim_space (ne_label e)" "sn_tool_output sn = ne_output e" "sn_tool_status sn = st"
    "length (sn_tool_fp sn) = 40" "\<not> blank (sn_tool_fp sn)"
    "sn_turn_id sn = trim_space (ne_turn_id e)"
    "sn_tool_live_current sn \<longleftrightarrow> ne_kind e \<noteq> LkToolCompleted \<and> trim_space (ne_turn_id e) \<noteq> [] \<and>
       \<not> terminal_latest_tool_status st"
    "sn_turn_status sn = ''inProgress'' \<or> terminal_latest_tool_status st"
    "sn_detail_items sn = live_tool_detail_items sn"
    using sn guard by (auto simp: live_details_frame simp del: first_string.simps)
  have shown: "list_all detail_shown (live_tool_detail_items sn)"
    using fields(6) by (auto simp: live_tool_detail_items_def Let_def detail_shown_def blank_def)
  have row: "\<exists>rest. live_tool_detail_items sn = (new_detail (sn_tool_id sn) DetailTool (sn_tool_fp sn) 0)
        \<lparr>di_label := sn_tool_label sn, di_status := sn_tool_status sn\<rparr> # rest"
    using fields(6) by (simp add: live_tool_detail_items_def Let_def)
  show ?thesis
    using guard st shown row fields(9) unfolding fields(1-5,7,8,10) by blast
qed

lemma live_tool_snapshot_witness:
  "th_id (sn_thread (the (tool_snapshot_from_live_event
     ((blank_event \<lparr>ev_channel = [], ev_method = [], ev_params = [], ev_id = JNull\<rparr>)
       \<lparr>ne_kind := LkToolStarted, ne_thread_id := ''t'', ne_label := ''ls''\<rparr>) empty_thread))) \<noteq> []"
proof -
  let ?e = "(blank_event \<lparr>ev_channel = [], ev_method = [], ev_params = [], ev_id = JNull\<rparr>)
       \<lparr>ne_kind := LkToolStarted, ne_thread_id := ''t'', ne_label := ''ls''\<rparr>"
  have "first_string [''t'', th_id empty_thread] = ''t''" "trim_space ''ls'' = ''ls''" by code_simp+
  then have "tool_snapshot_from_live_event ?e empty_thread \<noteq> None"
    by (simp add: tool_snapshot_from_live_event_def Let_def)
  then obtain sn where "tool_snapshot_from_live_event ?e empty_thread = Some sn" by blast
  with live_tool_snapshot [OF this] show ?thesis by simp
qed

end
