(* ===== verification/State_Store.thy ===== *)
theory State_Store
  imports Model
begin

text \<open>
  The daemon's key-value table \<^verbatim>\<open>daemon_state\<close> (\<^verbatim>\<open>internal/storage/store.go\<close>) and what is
  kept in it under fixed keys: the global observer target of \<^verbatim>\<open>internal/storage/store_panels.go\<close>.
  The table is a map from keys to values; a missing key reads as the empty text. The column
  \<^verbatim>\<open>updated_at\<close> is never read and is not kept. Database failures are not modelled: every
  statement succeeds, so the operations return the new table.

  The laws a client of the table relies on are the locale \<^verbatim>\<open>kv_store\<close>; \<^verbatim>\<open>scoped_keys\<close>
  extends it with a family of keys, one per thread id.
\<close>

type_synonym kv_table = "string \<rightharpoonup> string"

definition set_state :: "kv_table \<Rightarrow> string \<Rightarrow> string \<Rightarrow> kv_table" where
  "set_state s k v = s(k \<mapsto> v)"

definition get_state :: "kv_table \<Rightarrow> string \<Rightarrow> string" where
  "get_state s k = (case s k of None \<Rightarrow> [] | Some v \<Rightarrow> v)"

definition delete_state :: "kv_table \<Rightarrow> string \<Rightarrow> kv_table" where
  "delete_state s k = s(k := None)"

section \<open>The contract of the table\<close>

locale kv_store =
  fixes get :: "'s \<Rightarrow> string \<Rightarrow> string"
    and put :: "'s \<Rightarrow> string \<Rightarrow> string \<Rightarrow> 's"
    and del :: "'s \<Rightarrow> string \<Rightarrow> 's"
  assumes get_put: "get (put s k v) j = (if j = k then v else get s j)"
    and get_del: "get (del s k) j = (if j = k then [] else get s j)"
begin

lemma get_put_same: "get (put s k v) k = v"
  by (simp add: get_put)

lemma get_put_other: "j \<noteq> k \<Longrightarrow> get (put s k v) j = get s j"
  by (simp add: get_put)

lemma put_all_frame:
  "k \<notin> fst ` set kvs \<Longrightarrow> get (fold (\<lambda>(k, v) s. put s k v) kvs s) k = get s k"
  by (induction kvs arbitrary: s) (auto simp: get_put)

lemma put_all_get:
  "distinct (map fst kvs) \<Longrightarrow> (k, v) \<in> set kvs \<Longrightarrow>
   get (fold (\<lambda>(k, v) s. put s k v) kvs s) k = v"
proof (induction kvs arbitrary: s)
  case (Cons p kvs)
  then show ?case
    by (cases p) (auto simp: put_all_frame get_put)
qed simp

end

interpretation kv: kv_store get_state set_state delete_state
  by unfold_locales (simp_all add: get_state_def set_state_def delete_state_def)

text \<open>
  A family of keys \<^verbatim>\<open>prefix + strings.TrimSpace(id)\<close>. Two ids share a key exactly when they are
  the same after trimming, so writing under one id leaves the others alone.
\<close>

locale scoped_keys = kv_store get put del
  for get :: "'s \<Rightarrow> string \<Rightarrow> string"
    and put :: "'s \<Rightarrow> string \<Rightarrow> string \<Rightarrow> 's"
    and del :: "'s \<Rightarrow> string \<Rightarrow> 's" +
  fixes key :: "string \<Rightarrow> string"
  assumes key_eq: "key a = key b \<longleftrightarrow> trim_space a = trim_space b"
begin

lemma put_scoped:
  "get (put s (key a) v) (key b) = (if trim_space b = trim_space a then v else get s (key b))"
  by (simp add: get_put key_eq)

lemma del_scoped:
  "get (del s (key a)) (key b) = (if trim_space b = trim_space a then [] else get s (key b))"
  by (simp add: get_del key_eq)

lemma del_put_scoped:
  "get (del (put s (key a) v) (key a)) (key b) =
   (if trim_space b = trim_space a then [] else get s (key b))"
  by (simp add: get_put get_del key_eq)

end

lemma prefix_key_eq: "p @ trim_space a = p @ trim_space b \<longleftrightarrow> trim_space a = trim_space b"
  by simp

section \<open>The global observer target\<close>

definition global_enabled_key :: string where
  "global_enabled_key = ''observer.global_enabled''"
definition global_chat_key :: string where
  "global_chat_key = ''observer.global_chat_id''"
definition global_topic_key :: string where
  "global_topic_key = ''observer.global_topic_id''"
definition global_since_key :: string where
  "global_since_key = ''observer.global_since_unix''"

lemmas global_keys =
  global_enabled_key_def global_chat_key_def global_topic_key_def global_since_key_def

definition set_global_observer_target ::
  "instant \<Rightarrow> int \<Rightarrow> int \<Rightarrow> bool \<Rightarrow> kv_table \<Rightarrow> kv_table" where
  "set_global_observer_target now chat topic enabled s =
     (let s1 = set_state s global_enabled_key (format_bool enabled)
      in if enabled then
           set_state
             (set_state
               (set_state s1 global_chat_key (itoa chat))
               global_topic_key (itoa topic))
             global_since_key (itoa (unix_seconds now))
         else s1)"

text \<open>The target, and whether one was ever configured.\<close>

definition get_global_observer_target :: "kv_table \<Rightarrow> observer_target option \<times> bool" where
  "get_global_observer_target s =
     (let raw = get_state s global_enabled_key
      in if trim_space raw = [] then (None, False)
         else if \<not> equal_fold (trim_space raw) ''true'' then (None, True)
         else let chat = fst (parse_int (trim_space (get_state s global_chat_key)));
                  topic = fst (parse_int (trim_space (get_state s global_topic_key)))
              in if chat = 0 then (None, True)
                 else (Some \<lparr>ot_chat_id = chat, ot_topic_id = topic, ot_enabled = True\<rparr>, True))"

definition get_global_observer_since_unix :: "kv_table \<Rightarrow> int \<times> bool" where
  "get_global_observer_since_unix s =
     (let raw = trim_space (get_state s global_since_key)
      in if raw = [] then (0, False)
         else case parse_int raw of (v, ok) \<Rightarrow> if ok then (v, True) else (0, False))"

definition int64 :: "int \<Rightarrow> bool" where
  "int64 n \<longleftrightarrow> int64_min \<le> n \<and> n \<le> int64_max"

lemma parse_itoa64 [simp]: "int64 n \<Longrightarrow> parse_int (itoa n) = (n, True)"
  by (simp add: int64_def parse_itoa)

lemma parse_itoa_zero: "parse_int (itoa 0) = (0, True)"
  by (simp add: parse_itoa int64_min_def int64_max_def)

lemma itoa_not_Nil [simp]: "itoa n \<noteq> []"
  using itoa_ends [of n] by simp

lemma format_bool_trim [simp]: "trim_space (format_bool b) = format_bool b"
  by (cases b) (simp_all add: format_bool_def trim_space_ascii ascii_mark_def)

lemma format_bool_true [simp]: "equal_fold (format_bool b) ''true'' = b"
  by (cases b) (simp_all add: format_bool_def equal_fold_def)

lemma format_bool_not_Nil [simp]: "format_bool b \<noteq> []"
  by (simp add: format_bool_def)

lemma target_of_set:
  assumes "int64 chat" "int64 topic"
  shows "get_global_observer_target (set_global_observer_target now chat topic enabled s) =
    (if enabled \<and> chat \<noteq> 0
     then (Some \<lparr>ot_chat_id = chat, ot_topic_id = topic, ot_enabled = True\<rparr>, True)
     else (None, True))"
  using assms
  by (cases "chat = 0") (simp_all add: get_global_observer_target_def set_global_observer_target_def kv.get_put
      global_keys Let_def parse_itoa_zero)

lemma set_target_frame:
  "k \<notin> {global_enabled_key, global_chat_key, global_topic_key, global_since_key} \<Longrightarrow>
   get_state (set_global_observer_target now chat topic e s) k = get_state s k"
  by (simp add: set_global_observer_target_def kv.get_put Let_def)

lemma target_enabled:
  "get_global_observer_target s = (Some t, c) \<Longrightarrow> c \<and> ot_enabled t \<and> ot_chat_id t \<noteq> 0"
  by (auto simp: get_global_observer_target_def Let_def split: if_splits)

text \<open>
  The observer target survives the store: after a target is enabled for a chat and topic,
  reading it back gives exactly that chat and topic (every 64-bit id, negative group ids
  included), switched on; after it is disabled, or enabled for the impossible chat 0, reading
  gives no target but remembers that one was configured; and all other keys keep their values.
\<close>
theorem observer_target_roundtrip:
  fixes s :: kv_table
  assumes "int64 chat" "int64 topic"
  shows "get_global_observer_target (set_global_observer_target now chat topic True s) =
      (if chat = 0 then None
       else Some \<lparr>ot_chat_id = chat, ot_topic_id = topic, ot_enabled = True\<rparr>, True) \<and>
    get_global_observer_target (set_global_observer_target now chat topic False s) =
      (None, True) \<and>
    (k \<notin> {global_enabled_key, global_chat_key, global_topic_key, global_since_key} \<longrightarrow>
     get_state (set_global_observer_target now chat topic e s) k = get_state s k)"
  by (simp add: target_of_set [OF assms] set_target_frame)

lemma observer_target_roundtrip_witness:
  "get_global_observer_target (set_global_observer_target 0 (- 1001234567890) 7 True Map.empty) =
    (Some \<lparr>ot_chat_id = - 1001234567890, ot_topic_id = 7, ot_enabled = True\<rparr>, True)"
  using observer_target_roundtrip [of "- 1001234567890" 7 0 Map.empty]
  by (simp add: int64_def int64_min_def int64_max_def)

end
