(* ===== verification/Collaboration.thy ===== *)
theory Collaboration
  imports State_Store Snapshot
begin

text \<open>
  Leaving plan mode: the per-thread override and marker that
  \<^verbatim>\<open>internal/daemon/collaboration_reset.go\<close> keeps in \<^verbatim>\<open>daemon_state\<close>, and the
  test that decides whether a final card offers to turn plan mode off. Each of the two key
  families interprets \<^verbatim>\<open>scoped_keys\<close>, so what one thread records never shows on another.
\<close>

definition collaboration_mode_default :: string where
  "collaboration_mode_default = ''default''"
definition collaboration_mode_plan :: string where
  "collaboration_mode_plan = ''plan''"

definition thread_collaboration_override_key :: "string \<Rightarrow> string" where
  "thread_collaboration_override_key i = ''thread_collaboration_override.'' @ trim_space i"

definition thread_collaboration_marker_key :: "string \<Rightarrow> string" where
  "thread_collaboration_marker_key i = ''thread_collaboration_marker.'' @ trim_space i"

interpretation override: scoped_keys get_state set_state delete_state
  thread_collaboration_override_key
  by unfold_locales (simp add: thread_collaboration_override_key_def)

interpretation marker: scoped_keys get_state set_state delete_state
  thread_collaboration_marker_key
  by unfold_locales (simp add: thread_collaboration_marker_key_def)

lemma override_not_marker:
  "thread_collaboration_override_key a \<noteq> thread_collaboration_marker_key b"
  by (simp add: thread_collaboration_override_key_def thread_collaboration_marker_key_def)

definition set_thread_collaboration_default_override :: "string \<Rightarrow> kv_table \<Rightarrow> kv_table" where
  "set_thread_collaboration_default_override i s =
     (if trim_space i = [] then s
      else set_state s (thread_collaboration_override_key (trim_space i))
             collaboration_mode_default)"

definition clear_thread_collaboration_override :: "string \<Rightarrow> kv_table \<Rightarrow> kv_table" where
  "clear_thread_collaboration_override i s =
     (if trim_space i = [] then s
      else delete_state s (thread_collaboration_override_key (trim_space i)))"

definition thread_collaboration_override :: "string \<Rightarrow> kv_table \<Rightarrow> string" where
  "thread_collaboration_override i s =
     (if trim_space i = [] then []
      else if trim_space (get_state s (thread_collaboration_override_key (trim_space i))) =
              collaboration_mode_default
           then collaboration_mode_default
      else [])"

definition clear_thread_collaboration_marker :: "string \<Rightarrow> kv_table \<Rightarrow> kv_table" where
  "clear_thread_collaboration_marker i s =
     (if trim_space i = [] then s
      else delete_state s (thread_collaboration_marker_key (trim_space i)))"

definition set_thread_collaboration_marker ::
  "string \<Rightarrow> string \<Rightarrow> string \<Rightarrow> kv_table \<Rightarrow> kv_table" where
  "set_thread_collaboration_marker i turn mode s =
     (if trim_space i = [] then s
      else if trim_space mode \<noteq> collaboration_mode_plan
        then clear_thread_collaboration_marker (trim_space i) s
      else set_state s (thread_collaboration_marker_key (trim_space i))
             (if trim_space turn = [] then collaboration_mode_plan
              else collaboration_mode_plan @ '':'' @ trim_space turn))"

definition marker_matches :: "string \<Rightarrow> string \<Rightarrow> bool" where
  "marker_matches value turn \<longleftrightarrow>
     value = collaboration_mode_plan \<or>
     has_prefix value (collaboration_mode_plan @ '':'') \<and>
     (let marked = trim_space (trim_prefix value (collaboration_mode_plan @ '':''))
      in marked \<noteq> [] \<and> (trim_space turn = [] \<or> marked = trim_space turn))"

definition thread_collaboration_marker :: "string \<Rightarrow> string \<Rightarrow> kv_table \<Rightarrow> string" where
  "thread_collaboration_marker i turn s =
     (if trim_space i = [] then []
      else if marker_matches
                (trim_space (get_state s (thread_collaboration_marker_key (trim_space i)))) turn
           then collaboration_mode_plan
      else [])"

definition snapshot_looks_plan_like :: "snapshot option \<Rightarrow> bool" where
  "snapshot_looks_plan_like snap =
     (case snap of
        None \<Rightarrow> False
      | Some sn \<Rightarrow>
          (let turn = trim_space (sn_turn_id sn)
           in (case sn_plan_prompt sn of
                 None \<Rightarrow> False
               | Some pp \<Rightarrow>
                   (let pt = trim_space (pp_turn_id pp)
                    in pt = [] \<or> turn = [] \<or> pt = turn)) \<or>
              list_ex (\<lambda>item. di_kind item = DetailPlan) (sn_detail_items sn)))"

definition final_card_should_show_turn_off_plan ::
  "string \<Rightarrow> snapshot option \<Rightarrow> kv_table \<Rightarrow> bool" where
  "final_card_should_show_turn_off_plan i snap s =
     (if thread_collaboration_override i s = collaboration_mode_default then False
      else if snapshot_looks_plan_like snap then True
      else case snap of
             None \<Rightarrow> False
           | Some sn \<Rightarrow>
               thread_collaboration_marker i (sn_turn_id sn) s = collaboration_mode_plan)"

lemmas collaboration_ops =
  set_thread_collaboration_default_override_def clear_thread_collaboration_override_def
  thread_collaboration_override_def clear_thread_collaboration_marker_def
  set_thread_collaboration_marker_def thread_collaboration_marker_def

lemma mode_trims [simp]:
  "trim_space collaboration_mode_plan = collaboration_mode_plan"
  "trim_space collaboration_mode_default = collaboration_mode_default"
  by (simp_all add: collaboration_mode_plan_def collaboration_mode_default_def trim_space_ascii
      ascii_mark_def)

lemma modes_nonempty [simp]: "collaboration_mode_plan \<noteq> []" "collaboration_mode_default \<noteq> []"
    "[] \<noteq> collaboration_mode_plan" "[] \<noteq> collaboration_mode_default"
  by (simp_all add: collaboration_mode_plan_def collaboration_mode_default_def)

lemma marker_value_trims:
  "trim_space (collaboration_mode_plan @ CHR '':'' # trim_space u) =
   collaboration_mode_plan @ CHR '':'' # trim_space u"
  using trim_space_prefixed [of collaboration_mode_plan "CHR '':''" "trim_space u"]
  by (simp add: collaboration_mode_plan_def ascii_mark_def trim_space_ends)

lemma marker_value_matches:
  "marker_matches (collaboration_mode_plan @ CHR '':'' # trim_space u) v \<longleftrightarrow>
   trim_space u \<noteq> [] \<and> (trim_space v = [] \<or> trim_space u = trim_space v)"
  by (simp add: marker_matches_def has_prefix_def trim_prefix_def Let_def)

lemma plan_value_matches: "marker_matches collaboration_mode_plan v"
  by (simp add: marker_matches_def)

lemma marker_matches_Nil: "\<not> marker_matches [] v"
  by (simp add: marker_matches_def has_prefix_def collaboration_mode_plan_def)

section \<open>Leaving plan mode\<close>

lemma marker_roundtrip:
  assumes "trim_space i \<noteq> []"
  shows "thread_collaboration_marker j v
           (set_thread_collaboration_marker i u collaboration_mode_plan s) =
    (if trim_space j = trim_space i
     then (if trim_space u = [] \<or> trim_space v = [] \<or> trim_space u = trim_space v
           then collaboration_mode_plan else [])
     else thread_collaboration_marker j v s)"
  using assms
  by (auto simp: collaboration_ops marker.put_scoped marker_value_trims marker_value_matches
      plan_value_matches marker_matches_Nil)

lemma override_roundtrip:
  assumes "trim_space i \<noteq> []"
  shows "thread_collaboration_override j (set_thread_collaboration_default_override i s) =
    (if trim_space j = trim_space i then collaboration_mode_default
     else thread_collaboration_override j s)"
  using assms by (auto simp: collaboration_ops override.put_scoped)

lemma override_of_marker:
  "thread_collaboration_override k (set_thread_collaboration_marker i u m s) =
   thread_collaboration_override k s"
  by (auto simp: collaboration_ops kv.get_put kv.get_del override_not_marker)

lemma marker_of_override:
  "thread_collaboration_marker k v (set_thread_collaboration_default_override i s) =
   thread_collaboration_marker k v s"
  by (auto simp: collaboration_ops kv.get_put override_not_marker [symmetric])

text \<open>
  A plan marker written for one turn of a thread makes that thread's final card offer to turn
  plan mode off exactly when the card's turn is that turn (or either turn is unknown, or the
  snapshot itself carries a plan); choosing the default mode for the thread withdraws the offer
  whatever the marker and the snapshot say; and neither write changes what a different thread's
  card shows.
\<close>
theorem plan_mode_offer:
  assumes "trim_space i \<noteq> []"
  shows "(thread_collaboration_override i s \<noteq> collaboration_mode_default \<longrightarrow>
      final_card_should_show_turn_off_plan i (Some sn)
        (set_thread_collaboration_marker i u collaboration_mode_plan s) =
      (snapshot_looks_plan_like (Some sn) \<or> trim_space u = [] \<or>
       trim_space (sn_turn_id sn) = [] \<or> trim_space u = trim_space (sn_turn_id sn))) \<and>
    \<not> final_card_should_show_turn_off_plan i (Some sn)
        (set_thread_collaboration_default_override i s) \<and>
    (trim_space j \<noteq> trim_space i \<longrightarrow>
      final_card_should_show_turn_off_plan j (Some sn)
        (set_thread_collaboration_marker i u collaboration_mode_plan s) =
        final_card_should_show_turn_off_plan j (Some sn) s \<and>
      final_card_should_show_turn_off_plan j (Some sn)
        (set_thread_collaboration_default_override i s) =
        final_card_should_show_turn_off_plan j (Some sn) s)"
  by (simp add: final_card_should_show_turn_off_plan_def override_of_marker marker_of_override
      marker_roundtrip [OF assms] override_roundtrip [OF assms])

lemma plan_mode_offer_witness:
  "\<not> final_card_should_show_turn_off_plan ''t1''
      (Some (empty_snapshot\<lparr>sn_turn_id := ''b''\<rparr>))
      (set_thread_collaboration_marker ''t1'' ''a'' collaboration_mode_plan Map.empty)"
proof -
  have trims: "trim_space ''t1'' = ''t1''" "trim_space ''a'' = ''a''" "trim_space ''b'' = ''b''"
    by (simp_all add: trim_space_ascii ascii_mark_def)
  have "thread_collaboration_override ''t1'' Map.empty \<noteq> collaboration_mode_default"
    by (simp add: thread_collaboration_override_def get_state_def trims
        collaboration_mode_default_def)
  then show ?thesis
    using plan_mode_offer [of "''t1''" Map.empty "empty_snapshot\<lparr>sn_turn_id := ''b''\<rparr>" "''a''"]
    by (simp add: trims snapshot_looks_plan_like_def empty_snapshot_def)
qed

end
