(* ===== verification/Delivery_Store.thy ===== *)
theory Delivery_Store
  imports State_Store "HOL-Library.Word"
begin

text \<open>
  The outbox: the tables \<^verbatim>\<open>delivery_queue\<close>, \<^verbatim>\<open>terminal_events\<close>,
  \<^verbatim>\<open>telegram_message_routes\<close>, \<^verbatim>\<open>delivery_attempts\<close> of \<^verbatim>\<open>internal/storage/store.go\<close>
  and their operations: enqueue one delivery, enqueue a terminal event with its group of
  deliveries, claim a batch, complete and fail a delivery, and the migration at start-up that
  returns interrupted deliveries to the queue. Every operation is one transaction: an error
  leaves the tables as they were. The columns \<^verbatim>\<open>created_at\<close> and \<^verbatim>\<open>updated_at\<close> decide
  nothing and are not kept. The linked threads are here because a terminal event can begin the
  release of one; their other operations are in \<^verbatim>\<open>Linked_Threads\<close>.
\<close>

section \<open>Rows\<close>

datatype delivery_status = Pending | Processing | Delivered | Retry | Dead

record delivery_item =
  qi_id :: nat
  qi_event_id :: string
  qi_chat_key :: string
  qi_chat_id :: int
  qi_topic_id :: int
  qi_thread_id :: string
  qi_kind :: string
  qi_status :: delivery_status
  qi_retry_count :: int
  qi_available_at :: "instant option"
  qi_last_error :: string
  qi_payload :: string
  qi_group_id :: string
  qi_sequence_no :: int
  qi_sequence_count :: int

record delivery_row =
  dq_id :: nat
  dq_event_id :: string
  dq_chat_key :: string
  dq_chat_id :: int
  dq_topic_id :: int
  dq_thread_id :: string
  dq_kind :: string
  dq_status :: delivery_status
  dq_retry_count :: int
  dq_available_at :: instant
  dq_last_error :: "string option"
  dq_payload :: "string option"
  dq_group_id :: "string option"
  dq_sequence_no :: int
  dq_sequence_count :: int

record terminal_event =
  te_key :: string
  te_thread_id :: string
  te_turn_id :: string
  te_status :: string
  te_delivery_status :: delivery_status

record message_route =
  rt_chat_id :: int
  rt_topic_id :: int
  rt_message_id :: int
  rt_thread_id :: string
  rt_turn_id :: string
  rt_item_id :: string
  rt_event_id :: string
  rt_created_at :: instant

record delivery_attempt =
  da_queue_id :: nat
  da_attempt_no :: int
  da_status :: string
  da_error :: "string option"

record linked_row =
  lt_chat_key :: string
  lt_chat_id :: int
  lt_topic_id :: int
  lt_project_id :: string
  lt_source_thread_id :: string
  lt_linked_thread_id :: "string option"
  lt_source_anchor_turn_id :: string
  lt_source_title :: "string option"
  lt_desired_title :: "string option"
  lt_title_state :: string
  lt_state :: string
  lt_active_turn_id :: "string option"
  lt_worker_generation :: int
  lt_last_blocked_at :: "instant option"
  lt_last_blocked_code :: "string option"
  lt_failure_kind :: "string option"
  lt_released_at :: "instant option"

record linked_release =
  lr_linked_thread_id :: string
  lr_turn_id :: string
  lr_worker_generation :: "64 word"

record outbox =
  ob_queue :: "delivery_row list"
  ob_next_id :: nat
  ob_events :: "terminal_event list"
  ob_routes :: "message_route list"
  ob_attempts :: "delivery_attempt list"
  ob_linked :: "linked_row list"

definition empty_outbox :: outbox where
  "empty_outbox = \<lparr>ob_queue = [], ob_next_id = 1, ob_events = [], ob_routes = [],
     ob_attempts = [], ob_linked = []\<rparr>"

datatype store_error =
    ErrProtect | ErrUnprotect | ErrNoProtector | ErrConstraint | ErrNoRow | ErrScan
  | ErrGenerationRequired | ErrGenerationRange | ErrThreadIdRequired | ErrParse

text \<open>
  The protector of \<^verbatim>\<open>internal/securestore\<close> calls the operating system's data protection;
  it is a parameter: two functions that may fail.
\<close>

record protector =
  protect :: "string \<Rightarrow> string option"
  unprotect :: "string \<Rightarrow> string option"

definition nullable :: "string \<Rightarrow> string option" where
  "nullable v = (if trim_space v = [] then None else Some v)"

text \<open>A nullable column that is always read through \<^verbatim>\<open>coalesce(c, '')\<close>.\<close>

definition blank_to_empty :: "string \<Rightarrow> string" where
  "blank_to_empty v = (if trim_space v = [] then [] else v)"

section \<open>Timestamps in SQL\<close>

text \<open>
  \<^verbatim>\<open>available_at <= ?\<close> compares two RFC 3339 texts byte by byte. Down to the second
  they have a fixed width; the fraction is written without trailing zeros and is followed by
  the letter Z, which is greater than a digit and than the full stop.
\<close>

definition nine_digits :: "nat \<Rightarrow> string" where
  "nine_digits n = map (\<lambda>k. digit_char (n div 10 ^ k mod 10)) [8, 7, 6, 5, 4, 3, 2, 1, 0]"

definition stamp_fraction :: "instant \<Rightarrow> string" where
  "stamp_fraction t =
     (let ns = nat (t mod second)
      in if ns = 0 then ''Z''
         else ''.'' @ rev (dropWhile (\<lambda>c. c = CHR ''0'') (rev (nine_digits ns))) @ ''Z'')"

definition stamp_le :: "instant \<Rightarrow> instant \<Rightarrow> bool" where
  "stamp_le a b \<longleftrightarrow>
     a div second < b div second \<or>
     a div second = b div second \<and> stamp_fraction a \<le> stamp_fraction b"

section \<open>Enqueue\<close>

definition protect_payload :: "protector option \<Rightarrow> string \<Rightarrow> (store_error, string) result" where
  "protect_payload prot payload =
     (case prot of
        None \<Rightarrow> Inr payload
      | Some p \<Rightarrow> (case protect p payload of None \<Rightarrow> Inl ErrProtect | Some v \<Rightarrow> Inr v))"

definition same_target :: "delivery_item \<Rightarrow> delivery_row \<Rightarrow> bool" where
  "same_target item r \<longleftrightarrow> dq_event_id r = qi_event_id item \<and> dq_chat_key r = qi_chat_key item"

definition available_or :: "instant \<Rightarrow> delivery_item \<Rightarrow> instant" where
  "available_or now item = (case qi_available_at item of None \<Rightarrow> now | Some t \<Rightarrow> t)"

definition single_row :: "instant \<Rightarrow> nat \<Rightarrow> string \<Rightarrow> delivery_item \<Rightarrow> delivery_row" where
  "single_row now i payload item =
     \<lparr>dq_id = i, dq_event_id = qi_event_id item, dq_chat_key = qi_chat_key item,
      dq_chat_id = qi_chat_id item, dq_topic_id = qi_topic_id item,
      dq_thread_id = qi_thread_id item, dq_kind = qi_kind item, dq_status = qi_status item,
      dq_retry_count = qi_retry_count item, dq_available_at = available_or now item,
      dq_last_error = nullable (qi_last_error item), dq_payload = Some payload,
      dq_group_id = None, dq_sequence_no = 1, dq_sequence_count = 1\<rparr>"

definition append_row :: "(nat \<Rightarrow> delivery_row) \<Rightarrow> outbox \<Rightarrow> outbox" where
  "append_row f ob =
     ob\<lparr>ob_queue := ob_queue ob @ [f (ob_next_id ob)], ob_next_id := Suc (ob_next_id ob)\<rparr>"

definition enqueue_delivery ::
  "protector option \<Rightarrow> instant \<Rightarrow> delivery_item \<Rightarrow> outbox \<Rightarrow> (store_error, unit) result \<times> outbox" where
  "enqueue_delivery prot now item ob =
     (case protect_payload prot (qi_payload item) of
        Inl e \<Rightarrow> (Inl e, ob)
      | Inr payload \<Rightarrow>
          if list_ex (same_target item) (ob_queue ob) then (Inr (), ob)
          else (Inr (), append_row (\<lambda>i. single_row now i payload item) ob))"

definition group_row :: "instant \<Rightarrow> nat \<Rightarrow> string \<Rightarrow> delivery_item \<Rightarrow> delivery_row" where
  "group_row now i payload item =
     \<lparr>dq_id = i, dq_event_id = qi_event_id item, dq_chat_key = qi_chat_key item,
      dq_chat_id = qi_chat_id item, dq_topic_id = qi_topic_id item,
      dq_thread_id = qi_thread_id item, dq_kind = qi_kind item, dq_status = Pending,
      dq_retry_count = 0, dq_available_at = available_or now item,
      dq_last_error = None, dq_payload = Some payload,
      dq_group_id = Some (qi_group_id item), dq_sequence_no = qi_sequence_no item,
      dq_sequence_count = qi_sequence_count item\<rparr>"

fun insert_group ::
  "instant \<Rightarrow> (delivery_item \<times> string) list \<Rightarrow> outbox \<Rightarrow> (store_error, outbox) result" where
  "insert_group now [] ob = Inr ob"
| "insert_group now ((item, payload) # rest) ob =
     (if list_ex (same_target item) (ob_queue ob) then Inl ErrConstraint
      else insert_group now rest (append_row (\<lambda>i. group_row now i payload item) ob))"

definition linked_running :: string where "linked_running = ''telegram_running''"
definition linked_release_pending :: string where "linked_release_pending = ''release_pending''"

text \<open>The row a release addresses, with the worker generation as a 64-bit number.\<close>

definition release_row :: "linked_release \<Rightarrow> linked_row \<Rightarrow> bool" where
  "release_row rel r \<longleftrightarrow>
     lt_linked_thread_id r = Some (trim_space (lr_linked_thread_id rel)) \<and>
     lt_worker_generation r = uint (lr_worker_generation rel) \<and>
     lt_state r = linked_running \<and>
     lt_active_turn_id r = Some (trim_space (lr_turn_id rel))"

text \<open>What the code checks of a release before it opens the transaction.\<close>

definition check_release :: "linked_release option \<Rightarrow> (store_error, bool) result" where
  "check_release release =
     (case release of
        None \<Rightarrow> Inr True
      | Some rel \<Rightarrow>
          if lr_worker_generation rel = 0 then Inl ErrGenerationRequired
          else if lr_worker_generation rel > 0x7FFFFFFFFFFFFFFF then Inl ErrGenerationRange
          else Inr (trim_space (lr_linked_thread_id rel) \<noteq> [] \<and>
                    trim_space (lr_turn_id rel) \<noteq> []))"

definition apply_release :: "linked_release option \<Rightarrow> outbox \<Rightarrow> outbox option" where
  "apply_release release ob =
     (case release of
        None \<Rightarrow> Some ob
      | Some rel \<Rightarrow>
          if length (filter (release_row rel) (ob_linked ob)) = 1
          then Some (ob\<lparr>ob_linked := update_rows (release_row rel)
                        (\<lambda>r. r\<lparr>lt_state := linked_release_pending\<rparr>) (ob_linked ob)\<rparr>)
          else None)"

definition enqueue_terminal_event_with_linked_release ::
  "protector option \<Rightarrow> instant \<Rightarrow> terminal_event \<Rightarrow> delivery_item list \<Rightarrow> linked_release option \<Rightarrow>
   outbox \<Rightarrow> (store_error, bool) result \<times> outbox" where
  "enqueue_terminal_event_with_linked_release prot now event items release ob =
     (if prot = None then (Inl ErrNoProtector, ob)
      else case check_release release of
        Inl e \<Rightarrow> (Inl e, ob)
      | Inr False \<Rightarrow> (Inr False, ob)
      | Inr True \<Rightarrow>
         (case map_result (\<lambda>item. protect_payload prot (qi_payload item)) items of
            Inl e \<Rightarrow> (Inl e, ob)
          | Inr protected \<Rightarrow>
              if list_ex (\<lambda>e. te_key e = te_key event) (ob_events ob) then (Inr False, ob)
              else case insert_group now (zip items protected)
                     (ob\<lparr>ob_events := ob_events ob @ [event\<lparr>te_delivery_status := Pending\<rparr>]\<rparr>) of
                     Inl e \<Rightarrow> (Inl e, ob)
                   | Inr ob' \<Rightarrow>
                       (case apply_release release ob' of
                          None \<Rightarrow> (Inr False, ob)
                        | Some ob'' \<Rightarrow> (Inr True, ob''))))"

definition enqueue_terminal_event ::
  "protector option \<Rightarrow> instant \<Rightarrow> terminal_event \<Rightarrow> delivery_item list \<Rightarrow> outbox \<Rightarrow>
   (store_error, bool) result \<times> outbox" where
  "enqueue_terminal_event prot now event items ob =
     enqueue_terminal_event_with_linked_release prot now event items None ob"

section \<open>Claim\<close>

definition earlier_open :: "delivery_row list \<Rightarrow> delivery_row \<Rightarrow> bool" where
  "earlier_open q r \<longleftrightarrow>
     list_ex (\<lambda>e. dq_group_id e = dq_group_id r \<and> dq_sequence_no e < dq_sequence_no r \<and>
                  dq_status e \<noteq> Delivered) q"

definition claimable :: "instant \<Rightarrow> delivery_row list \<Rightarrow> delivery_row \<Rightarrow> bool" where
  "claimable now q r \<longleftrightarrow>
     (dq_status r = Pending \<or> dq_status r = Retry) \<and>
     stamp_le (dq_available_at r) now \<and>
     (dq_group_id r = None \<or> \<not> earlier_open q r)"

definition claim_limit :: "int \<Rightarrow> nat" where
  "claim_limit limit = (if limit \<le> 0 then 10 else nat limit)"

definition claimed_rows :: "instant \<Rightarrow> int \<Rightarrow> delivery_row list \<Rightarrow> delivery_row list" where
  "claimed_rows now limit q =
     take (claim_limit limit) (sort_key dq_id (filter (claimable now q) q))"

definition scan_row :: "protector option \<Rightarrow> delivery_row \<Rightarrow> (store_error, delivery_item) result" where
  "scan_row prot r =
     (case dq_payload r of
        None \<Rightarrow> Inl ErrScan
      | Some stored \<Rightarrow>
          (case (case prot of None \<Rightarrow> Some stored | Some p \<Rightarrow> unprotect p stored) of
             None \<Rightarrow> Inl ErrUnprotect
           | Some payload \<Rightarrow>
               Inr \<lparr>qi_id = dq_id r, qi_event_id = dq_event_id r, qi_chat_key = dq_chat_key r,
                    qi_chat_id = dq_chat_id r, qi_topic_id = dq_topic_id r,
                    qi_thread_id = dq_thread_id r, qi_kind = dq_kind r, qi_status = dq_status r,
                    qi_retry_count = dq_retry_count r,
                    qi_available_at = Some (dq_available_at r),
                    qi_last_error = (case dq_last_error r of None \<Rightarrow> [] | Some t \<Rightarrow> t),
                    qi_payload = payload,
                    qi_group_id = (case dq_group_id r of None \<Rightarrow> [] | Some g \<Rightarrow> g),
                    qi_sequence_no = dq_sequence_no r,
                    qi_sequence_count = dq_sequence_count r\<rparr>))"

definition set_status :: "delivery_status \<Rightarrow> delivery_row \<Rightarrow> delivery_row" where
  "set_status st r = r\<lparr>dq_status := st\<rparr>"

definition claim_delivery_batch ::
  "protector option \<Rightarrow> instant \<Rightarrow> int \<Rightarrow> outbox \<Rightarrow>
   (store_error, delivery_item list) result \<times> outbox" where
  "claim_delivery_batch prot now limit ob =
     (let rows = claimed_rows now limit (ob_queue ob)
      in case map_result (scan_row prot) rows of
           Inl e \<Rightarrow> (Inl e, ob)
         | Inr items \<Rightarrow>
             (Inr items,
              ob\<lparr>ob_queue := update_rows (\<lambda>r. dq_id r \<in> set (map qi_id items))
                               (set_status Processing) (ob_queue ob)\<rparr>))"

section \<open>Complete and fail\<close>

definition drop_payload :: "delivery_row \<Rightarrow> delivery_row" where
  "drop_payload r = r\<lparr>dq_payload := None\<rparr>"

definition settle :: "protector option \<Rightarrow> delivery_row \<Rightarrow> delivery_row" where
  "settle prot r = (if prot = None then r else drop_payload r)"

definition upsert_route :: "message_route \<Rightarrow> message_route list \<Rightarrow> message_route list" where
  "upsert_route rt rts =
     (let same = (\<lambda>r. rt_chat_id r = rt_chat_id rt \<and> rt_topic_id r = rt_topic_id rt \<and>
                      rt_message_id r = rt_message_id rt)
      in if list_ex same rts then update_rows same (\<lambda>_. rt) rts else rts @ [rt])"

definition mark_event :: "string \<Rightarrow> delivery_status \<Rightarrow> terminal_event list \<Rightarrow> terminal_event list" where
  "mark_event key st = update_rows (\<lambda>e. te_key e = key) (\<lambda>e. e\<lparr>te_delivery_status := st\<rparr>)"

definition complete_delivery ::
  "protector option \<Rightarrow> message_route option \<Rightarrow> nat \<Rightarrow> outbox \<Rightarrow> outbox" where
  "complete_delivery prot route i ob =
     ob\<lparr>ob_routes := (case route of None \<Rightarrow> ob_routes ob | Some rt \<Rightarrow> upsert_route rt (ob_routes ob)),
        ob_queue := update_rows (\<lambda>r. dq_id r = i)
                      (\<lambda>r. settle prot (set_status Delivered r)) (ob_queue ob),
        ob_events :=
          (case find (\<lambda>r. dq_id r = i \<and> dq_sequence_no r = dq_sequence_count r) (ob_queue ob) of
             None \<Rightarrow> ob_events ob
           | Some r \<Rightarrow>
               (case dq_group_id r of
                  None \<Rightarrow> ob_events ob
                | Some g \<Rightarrow> mark_event g Delivered (ob_events ob)))\<rparr>"

definition failed_row :: "delivery_status \<Rightarrow> int \<Rightarrow> instant \<Rightarrow> string \<Rightarrow> delivery_row \<Rightarrow> delivery_row" where
  "failed_row st retry available err r =
     r\<lparr>dq_status := st, dq_retry_count := retry, dq_available_at := available,
       dq_last_error := nullable err\<rparr>"

definition fail_delivery ::
  "protector option \<Rightarrow> nat \<Rightarrow> int \<Rightarrow> instant \<Rightarrow> string \<Rightarrow> bool \<Rightarrow> outbox \<Rightarrow>
   (store_error, unit) result \<times> outbox" where
  "fail_delivery prot i retry available err dead ob =
     (if \<not> dead
      then (Inr (), ob\<lparr>ob_queue := update_rows (\<lambda>r. dq_id r = i)
                                   (failed_row Retry retry available err) (ob_queue ob)\<rparr>)
      else let ob1 = ob\<lparr>ob_queue := update_rows (\<lambda>r. dq_id r = i)
                          (\<lambda>r. settle prot (failed_row Dead retry available err r)) (ob_queue ob)\<rparr>
           in case find (\<lambda>r. dq_id r = i) (ob_queue ob1) of
                None \<Rightarrow> (Inl ErrNoRow, ob)
              | Some r \<Rightarrow>
                  (case dq_group_id r of
                     None \<Rightarrow> (Inr (), ob1)
                   | Some g \<Rightarrow>
                       if trim_space g = [] then (Inr (), ob1)
                       else (Inr (),
                         ob1\<lparr>ob_events := mark_event g Dead (ob_events ob1),
                             ob_queue := update_rows
                               (\<lambda>r. dq_group_id r = Some g \<and> dq_status r \<noteq> Delivered)
                               (\<lambda>r. drop_payload (set_status Dead r)) (ob_queue ob1)\<rparr>)))"

definition record_delivery_attempt :: "nat \<Rightarrow> int \<Rightarrow> string \<Rightarrow> string \<Rightarrow> outbox \<Rightarrow> outbox" where
  "record_delivery_attempt i n st err ob =
     ob\<lparr>ob_attempts := ob_attempts ob @
          [\<lparr>da_queue_id = i, da_attempt_no = n, da_status = st, da_error = nullable err\<rparr>]\<rparr>"

definition live :: "delivery_status \<Rightarrow> bool" where
  "live st \<longleftrightarrow> st = Pending \<or> st = Retry \<or> st = Processing"

definition delivery_queue_backlog :: "outbox \<Rightarrow> nat" where
  "delivery_queue_backlog ob = length (filter (\<lambda>r. live (dq_status r)) (ob_queue ob))"

section \<open>Restart\<close>

text \<open>
  \<^verbatim>\<open>migrateProtectedDeliveryPayloads\<close>, run when the store opens with a protector: what was
  being sent when the daemon stopped goes back to the queue (an approval request does not: it
  may have been answered), plaintext payloads are protected, and the payloads of finished rows
  are erased. The rebuilding of an old table with a non-null payload column copies its rows and
  is not modelled.
\<close>

definition protected_prefix :: string where "protected_prefix = ''dpapi:v1:''"
definition minimal_approval_kind :: string where "minimal_approval_kind = ''minimal_approval''"

definition migrate_live_row :: "protector \<Rightarrow> delivery_row \<Rightarrow> (store_error, delivery_row) result" where
  "migrate_live_row p r =
     (case dq_payload r of
        None \<Rightarrow> Inr r
      | Some payload \<Rightarrow>
         (if dq_kind r = minimal_approval_kind \<and> dq_status r = Processing
          then Inr (drop_payload (set_status Dead r))
          else let st = (if dq_status r = Processing then Retry else dq_status r)
               in if has_prefix payload protected_prefix
                  then (if unprotect p payload = None then Inl ErrUnprotect
                        else Inr (set_status st r))
                  else (case protect p payload of
                          None \<Rightarrow> Inl ErrProtect
                        | Some v \<Rightarrow> Inr (set_status st (r\<lparr>dq_payload := Some v\<rparr>)))))"

definition migrate_row :: "protector \<Rightarrow> delivery_row \<Rightarrow> (store_error, delivery_row) result" where
  "migrate_row p r =
     (if live (dq_status r)
      then map_sum id (\<lambda>r'. if live (dq_status r') then r' else drop_payload r') (migrate_live_row p r)
      else Inr (drop_payload r))"

definition migrate_protected_delivery_payloads ::
  "protector \<Rightarrow> outbox \<Rightarrow> (store_error, unit) result \<times> outbox" where
  "migrate_protected_delivery_payloads p ob =
     (case map_result (migrate_row p) (ob_queue ob) of
        Inl e \<Rightarrow> (Inl e, ob)
      | Inr q \<Rightarrow> (Inr (), ob\<lparr>ob_queue := q\<rparr>))"

end
