(* ===== verification/Outbox.thy ===== *)
theory Outbox
  imports Delivery_Store
begin

text \<open>
  The outbox as a state machine. \<^verbatim>\<open>outbox_step\<close> is one transaction of the store as the
  daemon issues them; \<^verbatim>\<open>outbox_ok\<close> is the invariant of the tables: unique keys, deliveries
  of one group go out in sequence order and one at a time, finished rows carry no payload, and
  the status of a terminal event is the summary of the rows of its group.
\<close>

section \<open>The invariant\<close>

text \<open>The columns no transaction changes.\<close>

definition ident :: "delivery_row \<Rightarrow> nat \<times> (string \<times> string) \<times> string \<times> string option \<times> int \<times> int" where
  "ident r = (dq_id r, (dq_event_id r, dq_chat_key r), dq_kind r, dq_group_id r,
              dq_sequence_no r, dq_sequence_count r)"

lemma ident_eq:
  "ident r = ident s \<longleftrightarrow>
   dq_id r = dq_id s \<and> dq_event_id r = dq_event_id s \<and> dq_chat_key r = dq_chat_key s \<and>
   dq_kind r = dq_kind s \<and> dq_group_id r = dq_group_id s \<and>
   dq_sequence_no r = dq_sequence_no s \<and> dq_sequence_count r = dq_sequence_count s"
  by (simp add: ident_def)

definition keys_ok :: "outbox \<Rightarrow> bool" where
  "keys_ok ob \<longleftrightarrow>
     sorted_wrt (<) (map dq_id (ob_queue ob)) \<and>
     (\<forall>r\<in>set (ob_queue ob). dq_id r < ob_next_id ob) \<and>
     distinct (map (\<lambda>r. (dq_event_id r, dq_chat_key r)) (ob_queue ob)) \<and>
     distinct (map te_key (ob_events ob)) \<and>
     (\<forall>r\<in>set (ob_queue ob). \<forall>g. dq_group_id r = Some g \<longrightarrow>
        g \<in> te_key ` set (ob_events ob) \<and> dq_kind r \<noteq> minimal_approval_kind) \<and>
     (\<forall>r\<in>set (ob_queue ob). \<forall>s\<in>set (ob_queue ob).
        dq_group_id r \<noteq> None \<longrightarrow> dq_group_id s = dq_group_id r \<longrightarrow>
        dq_sequence_no s = dq_sequence_no r \<longrightarrow> dq_id s = dq_id r)"

text \<open>A row has been started once it is in flight, waiting to be retried, or delivered.\<close>

definition started :: "delivery_status \<Rightarrow> bool" where
  "started st \<longleftrightarrow> st = Processing \<or> st = Retry \<or> st = Delivered"

definition pair_ok :: "delivery_row \<Rightarrow> delivery_row \<Rightarrow> bool" where
  "pair_ok e r \<longleftrightarrow>
     (\<forall>g. dq_group_id e = Some g \<longrightarrow> dq_group_id r = Some g \<longrightarrow>
        (dq_sequence_no e < dq_sequence_no r \<longrightarrow> started (dq_status r) \<longrightarrow> dq_status e = Delivered) \<and>
        (trim_space g \<noteq> [] \<longrightarrow> dq_status e = Dead \<longrightarrow> \<not> live (dq_status r)))"

definition order_ok :: "delivery_row list \<Rightarrow> bool" where
  "order_ok q \<longleftrightarrow> (\<forall>e\<in>set q. \<forall>r\<in>set q. pair_ok e r)"

definition payload_ok :: "delivery_row list \<Rightarrow> bool" where
  "payload_ok q \<longleftrightarrow> (\<forall>r\<in>set q. dq_payload r = None \<longleftrightarrow> \<not> live (dq_status r))"

text \<open>What the rows of a group say about its terminal event.\<close>

definition group_state :: "string \<Rightarrow> delivery_row list \<Rightarrow> delivery_status" where
  "group_state g q =
     (if list_ex (\<lambda>r. dq_group_id r = Some g \<and> dq_status r = Dead) q then Dead
      else if list_ex (\<lambda>r. dq_group_id r = Some g \<and> dq_status r = Delivered \<and>
                           dq_sequence_no r = dq_sequence_count r) q then Delivered
      else Pending)"

definition events_ok :: "outbox \<Rightarrow> bool" where
  "events_ok ob \<longleftrightarrow>
     (\<forall>e\<in>set (ob_events ob). trim_space (te_key e) \<noteq> [] \<longrightarrow>
        te_delivery_status e = group_state (te_key e) (ob_queue ob))"

definition outbox_ok :: "outbox \<Rightarrow> bool" where
  "outbox_ok ob \<longleftrightarrow>
     keys_ok ob \<and> order_ok (ob_queue ob) \<and> payload_ok (ob_queue ob) \<and> events_ok ob"

section \<open>Steps\<close>

text \<open>A terminal event is enqueued with its own group and distinct sequence numbers.\<close>

definition group_items :: "terminal_event \<Rightarrow> delivery_item list \<Rightarrow> bool" where
  "group_items event items \<longleftrightarrow>
     (\<forall>item\<in>set items. qi_group_id item = te_key event \<and> qi_kind item \<noteq> minimal_approval_kind) \<and>
     distinct (map qi_sequence_no items)"

definition in_flight :: "outbox \<Rightarrow> nat set" where
  "in_flight ob = {dq_id r |r. r \<in> set (ob_queue ob) \<and> dq_status r = Processing}"

inductive outbox_step :: "protector \<Rightarrow> outbox \<Rightarrow> outbox \<Rightarrow> bool" for p where
  single: "qi_status item = Pending \<Longrightarrow>
    outbox_step p ob (snd (enqueue_delivery (Some p) now item ob))"
| terminal: "group_items event items \<Longrightarrow>
    outbox_step p ob
      (snd (enqueue_terminal_event_with_linked_release (Some p) now event items release ob))"
| claim: "outbox_step p ob (snd (claim_delivery_batch (Some p) now limit ob))"
| complete: "i \<in> in_flight ob \<Longrightarrow> outbox_step p ob (complete_delivery (Some p) route i ob)"
| fail: "i \<in> in_flight ob \<Longrightarrow>
    outbox_step p ob (snd (fail_delivery (Some p) i retry available err dead ob))"
| attempt: "outbox_step p ob (record_delivery_attempt i n st err ob)"
| restart: "outbox_step p ob (snd (migrate_protected_delivery_payloads p ob))"

inductive_cases outbox_stepE: "outbox_step p ob ob'"

abbreviation outbox_reaches :: "protector \<Rightarrow> outbox \<Rightarrow> outbox \<Rightarrow> bool" where
  "outbox_reaches p \<equiv> (outbox_step p)\<^sup>*\<^sup>*"

section \<open>Frames\<close>

text \<open>A transaction that rewrites rows in place keeps everything the keys depend on.\<close>

lemma ident_maps:
  assumes "map ident q' = map ident q"
  shows "map dq_id q' = map dq_id q"
    "map (\<lambda>r. (dq_event_id r, dq_chat_key r)) q' = map (\<lambda>r. (dq_event_id r, dq_chat_key r)) q"
    "(\<lambda>r. (dq_id r, dq_group_id r, dq_sequence_no r, dq_kind r)) ` set q' =
     (\<lambda>r. (dq_id r, dq_group_id r, dq_sequence_no r, dq_kind r)) ` set q"
proof -
  have all2: "list_all2 (\<lambda>r s. ident r = ident s) q' q"
    using assms by (simp add: list_all2_conv_all_nth list_eq_iff_nth_eq)
  then show "map dq_id q' = map dq_id q"
    by induction (simp_all add: ident_eq)
  from all2 show "map (\<lambda>r. (dq_event_id r, dq_chat_key r)) q' =
      map (\<lambda>r. (dq_event_id r, dq_chat_key r)) q"
    by induction (simp_all add: ident_eq)
  from all2 show "(\<lambda>r. (dq_id r, dq_group_id r, dq_sequence_no r, dq_kind r)) ` set q' =
     (\<lambda>r. (dq_id r, dq_group_id r, dq_sequence_no r, dq_kind r)) ` set q"
    by induction (simp_all add: ident_eq)
qed

text \<open>The parts of \<^verbatim>\<open>keys_ok\<close> that range over rows, read off those columns.\<close>

definition key_columns :: "delivery_row list \<Rightarrow> (nat \<times> string option \<times> int \<times> string) set" where
  "key_columns q = (\<lambda>r. (dq_id r, dq_group_id r, dq_sequence_no r, dq_kind r)) ` set q"

lemma keys_ok_columns:
  "keys_ok ob \<longleftrightarrow>
     sorted_wrt (<) (map dq_id (ob_queue ob)) \<and>
     (\<forall>i\<in>set (map dq_id (ob_queue ob)). i < ob_next_id ob) \<and>
     distinct (map (\<lambda>r. (dq_event_id r, dq_chat_key r)) (ob_queue ob)) \<and>
     distinct (map te_key (ob_events ob)) \<and>
     (\<forall>(i, g, n, k)\<in>key_columns (ob_queue ob). \<forall>x. g = Some x \<longrightarrow>
        x \<in> set (map te_key (ob_events ob)) \<and> k \<noteq> minimal_approval_kind) \<and>
     (\<forall>(i, g, n, k)\<in>key_columns (ob_queue ob). \<forall>(i', g', n', k')\<in>key_columns (ob_queue ob).
        g \<noteq> None \<longrightarrow> g' = g \<longrightarrow> n' = n \<longrightarrow> i' = i)"
  by (simp add: keys_ok_def key_columns_def)

lemma keys_ok_frame:
  assumes "map ident (ob_queue ob') = map ident (ob_queue ob)"
    "map te_key (ob_events ob') = map te_key (ob_events ob)" "ob_next_id ob' = ob_next_id ob"
  shows "keys_ok ob' = keys_ok ob"
  using ident_maps [OF assms(1)] assms(2,3)
  unfolding keys_ok_columns key_columns_def by (simp only:)

lemma ident_update_rows [row_simps]:
  "(\<And>r. ident (f r) = ident r) \<Longrightarrow> map ident (update_rows p f q) = map ident q"
  by (simp add: update_rows_def)

lemma ident_simps [simp]:
  "ident (set_status st r) = ident r" "ident (drop_payload r) = ident r"
  "ident (settle prot r) = ident r" "ident (failed_row st n t err r) = ident r"
  by (simp_all add: ident_eq set_status_def drop_payload_def settle_def failed_row_def)

lemma row_columns [simp]:
  "dq_id (set_status st r) = dq_id r" "dq_id (drop_payload r) = dq_id r"
  "dq_id (failed_row st n t err r) = dq_id r"
  "dq_group_id (set_status st r) = dq_group_id r" "dq_group_id (drop_payload r) = dq_group_id r"
  "dq_group_id (failed_row st n t err r) = dq_group_id r"
  "dq_sequence_no (set_status st r) = dq_sequence_no r"
  "dq_sequence_no (drop_payload r) = dq_sequence_no r"
  "dq_sequence_no (failed_row st n t err r) = dq_sequence_no r"
  "dq_sequence_count (set_status st r) = dq_sequence_count r"
  "dq_sequence_count (drop_payload r) = dq_sequence_count r"
  "dq_sequence_count (failed_row st n t err r) = dq_sequence_count r"
  "dq_status (set_status st r) = st" "dq_status (drop_payload r) = dq_status r"
  "dq_status (failed_row st n t err r) = st"
  "dq_payload (set_status st r) = dq_payload r" "dq_payload (drop_payload r) = None"
  "dq_payload (failed_row st n t err r) = dq_payload r"
  by (simp_all add: set_status_def drop_payload_def failed_row_def)

lemma settle_Some [simp]: "settle (Some p) = drop_payload"
  by (simp add: settle_def fun_eq_iff)

lemma te_key_mark [row_simps, simp]: "map te_key (mark_event k st es) = map te_key es"
  by (simp add: mark_event_def update_rows_def)

lemma te_key_set_mark [simp]: "te_key ` set (mark_event k st es) = te_key ` set es"
  using te_key_mark [of k st es] by (metis set_map)

lemma live_simps [simp]:
  "live Pending" "live Retry" "live Processing" "\<not> live Delivered" "\<not> live Dead"
  by (simp_all add: live_def)

lemma started_simps [simp]:
  "started Processing" "started Retry" "started Delivered" "\<not> started Pending" "\<not> started Dead"
  by (simp_all add: started_def)

lemma keys_ok_id:
  "keys_ok ob \<Longrightarrow> r \<in> set (ob_queue ob) \<Longrightarrow> s \<in> set (ob_queue ob) \<Longrightarrow> dq_id r = dq_id s \<Longrightarrow> r = s"
proof -
  assume ok: "keys_ok ob" and mem: "r \<in> set (ob_queue ob)" "s \<in> set (ob_queue ob)"
    and eq: "dq_id r = dq_id s"
  have "distinct (map dq_id (ob_queue ob))"
    using ok by (simp add: keys_ok_def strict_sorted_iff)
  then have "inj_on dq_id (set (ob_queue ob))"
    by (simp add: distinct_map)
  then show "r = s" using mem eq by (auto dest: inj_onD)
qed


section \<open>Preservation\<close>

lemma rewrite_ok:
  assumes ok: "outbox_ok ob"
    and q: "ob_queue ob' = map h (ob_queue ob)" and n: "ob_next_id ob' = ob_next_id ob"
    and k: "map te_key (ob_events ob') = map te_key (ob_events ob)"
    and i: "\<And>r. r \<in> set (ob_queue ob) \<Longrightarrow> ident (h r) = ident r"
    and pairs: "\<And>e r. e \<in> set (ob_queue ob) \<Longrightarrow> r \<in> set (ob_queue ob) \<Longrightarrow> pair_ok e r \<Longrightarrow> pair_ok (h e) (h r)"
    and pay: "\<And>r. r \<in> set (ob_queue ob) \<Longrightarrow> (dq_payload r = None \<longleftrightarrow> \<not> live (dq_status r)) \<Longrightarrow>
      (dq_payload (h r) = None \<longleftrightarrow> \<not> live (dq_status (h r)))"
    and ev: "events_ok ob'"
  shows "outbox_ok ob'"
proof -
  have "map ident (ob_queue ob') = map ident (ob_queue ob)"
    using i by (simp add: q)
  then have "keys_ok ob'"
    using ok keys_ok_frame [OF _ k n] by (simp add: outbox_ok_def)
  moreover have "order_ok (ob_queue ob')"
    using ok pairs by (auto simp: q order_ok_def outbox_ok_def)
  moreover have "payload_ok (ob_queue ob')"
    using ok pay by (auto simp: q payload_ok_def outbox_ok_def)
  ultimately show ?thesis using ev by (simp add: outbox_ok_def)
qed

text \<open>A rewrite that neither finishes a row nor revives one leaves the summaries alone.\<close>

lemma group_state_map:
  assumes "\<And>r. r \<in> set q \<Longrightarrow> dq_group_id r = Some g \<Longrightarrow>
      (dq_status (h r) = Dead \<longleftrightarrow> dq_status r = Dead) \<and>
      (dq_status (h r) = Delivered \<longleftrightarrow> dq_status r = Delivered)"
    and "\<And>r. r \<in> set q \<Longrightarrow> ident (h r) = ident r"
  shows "group_state g (map h q) = group_state g q"
proof -
  have "list_ex (\<lambda>r. dq_group_id r = Some g \<and> dq_status r = Dead) (map h q) =
        list_ex (\<lambda>r. dq_group_id r = Some g \<and> dq_status r = Dead) q"
    using assms by (auto simp: list_ex_iff ident_eq)
  moreover have "list_ex (\<lambda>r. dq_group_id r = Some g \<and> dq_status r = Delivered \<and>
            dq_sequence_no r = dq_sequence_count r) (map h q) =
        list_ex (\<lambda>r. dq_group_id r = Some g \<and> dq_status r = Delivered \<and>
            dq_sequence_no r = dq_sequence_count r) q"
    using assms by (auto simp: list_ex_iff ident_eq)
  ultimately show ?thesis by (simp add: group_state_def)
qed

lemma events_ok_map:
  assumes "events_ok ob" "ob_events ob' = ob_events ob" "ob_queue ob' = map h (ob_queue ob)"
    "\<And>r. r \<in> set (ob_queue ob) \<Longrightarrow> dq_group_id r \<noteq> None \<Longrightarrow>
      (dq_status (h r) = Dead \<longleftrightarrow> dq_status r = Dead) \<and>
      (dq_status (h r) = Delivered \<longleftrightarrow> dq_status r = Delivered)"
    "\<And>r. r \<in> set (ob_queue ob) \<Longrightarrow> ident (h r) = ident r"
  shows "events_ok ob'"
  using assms group_state_map [of "ob_queue ob" _ h] by (simp add: events_ok_def)

lemma claimed_rows_claimable:
  "r \<in> set (claimed_rows now limit q) \<Longrightarrow> r \<in> set q \<and> claimable now q r"
  by (auto simp: claimed_rows_def dest: in_set_takeD)

lemma scan_row_id: "scan_row prot r = Inr item \<Longrightarrow> qi_id item = dq_id r"
  by (auto simp: scan_row_def split: option.splits)

lemma claim_result:
  assumes "claim_delivery_batch prot now limit ob = (Inr items, ob')"
  shows "map qi_id items = map dq_id (claimed_rows now limit (ob_queue ob))"
    "ob' = ob\<lparr>ob_queue := update_rows (\<lambda>r. dq_id r \<in> set (map qi_id items))
             (set_status Processing) (ob_queue ob)\<rparr>"
  using assms map_result_keys [of "scan_row prot" _ items qi_id dq_id]
  by (auto simp: claim_delivery_batch_def Let_def scan_row_id split: sum.splits)

lemma claim_ok:
  assumes ok: "outbox_ok ob"
  shows "outbox_ok (snd (claim_delivery_batch prot now limit ob))"
proof (cases "claim_delivery_batch prot now limit ob")
  case (Pair res ob')
  show ?thesis
  proof (cases res)
    case (Inl e)
    then have "ob' = ob" using Pair
      by (auto simp: claim_delivery_batch_def Let_def split: sum.splits)
    then show ?thesis using ok Pair by simp
  next
    case (Inr items)
    let ?ids = "set (map dq_id (claimed_rows now limit (ob_queue ob)))"
    define h where "h r = (if dq_id r \<in> ?ids then set_status Processing r else r)" for r
    have res: "ob' = ob\<lparr>ob_queue := map h (ob_queue ob)\<rparr>"
      using claim_result [of prot now limit ob items ob'] Pair Inr
      by (simp add: update_rows_def h_def)
    have cl: "claimable now (ob_queue ob) r"
      if m: "r \<in> set (ob_queue ob)" and i: "dq_id r \<in> ?ids" for r
    proof -
      obtain r' where r': "r' \<in> set (claimed_rows now limit (ob_queue ob))" "dq_id r' = dq_id r"
        using i by (metis (no_types, lifting) imageE set_map)
      moreover have "keys_ok ob" using ok by (simp add: outbox_ok_def)
      ultimately have "r' = r"
        using keys_ok_id m claimed_rows_claimable by blast
      then show ?thesis using r'(1) claimed_rows_claimable by blast
    qed
    have pend: "dq_status r \<in> {Pending, Retry}" if "r \<in> set (ob_queue ob)" "dq_id r \<in> ?ids" for r
      using cl [OF that] by (auto simp: claimable_def)
    have first: "dq_status e = Delivered"
      if "e \<in> set (ob_queue ob)" "r \<in> set (ob_queue ob)" "dq_id r \<in> ?ids"
        "dq_group_id e = Some g" "dq_group_id r = Some g" "dq_sequence_no e < dq_sequence_no r"
      for e r g
    proof -
      have "\<not> earlier_open (ob_queue ob) r"
        using cl [OF that(2,3)] that(5) by (simp add: claimable_def)
      then show ?thesis
        using that(1,4,5,6) unfolding earlier_open_def list_ex_iff by metis
    qed
    show ?thesis
    proof (simp only: Pair snd_conv, rule rewrite_ok [OF ok, where h = h])
      fix e r assume mem: "e \<in> set (ob_queue ob)" "r \<in> set (ob_queue ob)" and p: "pair_ok e r"
      show "pair_ok (h e) (h r)"
      proof (cases "dq_id r \<in> ?ids")
        case True
        then show ?thesis
          using first [OF mem True] pend [OF mem(2) True] pend [OF mem(1)] p
          by (cases "dq_id e \<in> ?ids") (auto simp: pair_ok_def h_def)
      next
        case False
        then show ?thesis
          using p pend [OF mem(1)] by (cases "dq_id e \<in> ?ids") (auto simp: pair_ok_def h_def)
      qed
    next
      fix r assume "r \<in> set (ob_queue ob)" "(dq_payload r = None) = (\<not> live (dq_status r))"
      then show "(dq_payload (h r) = None) = (\<not> live (dq_status (h r)))"
        using pend [of r] by (auto simp: h_def)
    next
      have st: "(dq_status (h r) = Dead \<longleftrightarrow> dq_status r = Dead) \<and>
          (dq_status (h r) = Delivered \<longleftrightarrow> dq_status r = Delivered)"
        if "r \<in> set (ob_queue ob)" for r
        using pend [OF that] by (cases "dq_id r \<in> ?ids") (auto simp: h_def)
      show "events_ok ob'"
        by (rule events_ok_map [where h = h and ob = ob])
          (use ok st in \<open>simp_all add: res outbox_ok_def\<close>, simp add: h_def)
    qed (simp_all add: res h_def)
  qed
qed


lemma events_ok_marked:
  assumes "events_ok ob"
    and "ob_events ob' =
      map (\<lambda>e. if P (te_key e) then e\<lparr>te_delivery_status := st\<rparr> else e) (ob_events ob)"
    and "\<And>g. trim_space g \<noteq> [] \<Longrightarrow>
      group_state g (ob_queue ob') = (if P g then st else group_state g (ob_queue ob))"
  shows "events_ok ob'"
  using assms(1) by (auto simp: events_ok_def assms(2,3))

lemma marked_if:
  "(if c then (case g of None \<Rightarrow> es | Some k \<Rightarrow> mark_event k st es) else es) =
   map (\<lambda>e. if g = Some (te_key e) \<and> c then e\<lparr>te_delivery_status := st\<rparr> else e) es"
  by (cases g) (auto simp: mark_event_def update_rows_def)

text \<open>The row in flight that a completion or a failure addresses, and what the rest looks like.\<close>

lemma in_flight_row:
  assumes "outbox_ok ob" "i \<in> in_flight ob"
  obtains r0 where "r0 \<in> set (ob_queue ob)" "dq_id r0 = i" "dq_status r0 = Processing"
    "\<And>r. r \<in> set (ob_queue ob) \<Longrightarrow> dq_id r = i \<longleftrightarrow> r = r0"
    "\<And>e g. e \<in> set (ob_queue ob) \<Longrightarrow> dq_group_id r0 = Some g \<Longrightarrow> dq_group_id e = Some g \<Longrightarrow>
       (dq_sequence_no e < dq_sequence_no r0 \<longrightarrow> dq_status e = Delivered) \<and>
       (dq_sequence_no r0 < dq_sequence_no e \<longrightarrow> \<not> started (dq_status e)) \<and>
       (trim_space g \<noteq> [] \<longrightarrow> dq_status e \<noteq> Dead)"
proof -
  obtain r0 where r0: "r0 \<in> set (ob_queue ob)" "dq_id r0 = i" "dq_status r0 = Processing"
    using assms(2) by (auto simp: in_flight_def)
  have uniq: "dq_id r = i \<longleftrightarrow> r = r0" if "r \<in> set (ob_queue ob)" for r
    using assms(1) that r0 keys_ok_id [of ob r r0] by (auto simp: outbox_ok_def)
  have pairs: "pair_ok e r0" "pair_ok r0 e" if "e \<in> set (ob_queue ob)" for e
    using assms(1) that r0(1) by (auto simp: outbox_ok_def order_ok_def)
  show thesis
    by (rule that [OF r0 uniq]) (use pairs r0(3) in \<open>auto simp: pair_ok_def\<close>)
qed

lemma find_id:
  assumes "r0 \<in> set q" "\<And>r. r \<in> set q \<Longrightarrow> dq_id r = i \<longleftrightarrow> r = r0"
  shows "find (\<lambda>r. dq_id r = i \<and> P r) q = (if P r0 then Some r0 else None)"
  using assms by (induction q) (auto simp: find_None_iff split: if_splits)

lemma complete_ok:
  assumes ok: "outbox_ok ob" and fl: "i \<in> in_flight ob"
  shows "outbox_ok (complete_delivery (Some p) route i ob)"
proof -
  let ?ob' = "complete_delivery (Some p) route i ob"
  obtain r0 where r0: "r0 \<in> set (ob_queue ob)" "dq_id r0 = i" "dq_status r0 = Processing"
    and uniq: "\<And>r. r \<in> set (ob_queue ob) \<Longrightarrow> dq_id r = i \<longleftrightarrow> r = r0"
    and around: "\<And>e g. e \<in> set (ob_queue ob) \<Longrightarrow> dq_group_id r0 = Some g \<Longrightarrow> dq_group_id e = Some g \<Longrightarrow>
       (dq_sequence_no e < dq_sequence_no r0 \<longrightarrow> dq_status e = Delivered) \<and>
       (dq_sequence_no r0 < dq_sequence_no e \<longrightarrow> \<not> started (dq_status e)) \<and>
       (trim_space g \<noteq> [] \<longrightarrow> dq_status e \<noteq> Dead)"
    using in_flight_row [OF ok fl] by blast
  define h where "h r = (if dq_id r = i then drop_payload (set_status Delivered r) else r)" for r
  have q': "ob_queue ?ob' = map h (ob_queue ob)"
    by (simp add: complete_delivery_def update_rows_def h_def)
  have ev': "ob_events ?ob' =
      map (\<lambda>e. if dq_group_id r0 = Some (te_key e) \<and> dq_sequence_no r0 = dq_sequence_count r0
           then e\<lparr>te_delivery_status := Delivered\<rparr> else e) (ob_events ob)"
    unfolding marked_if [symmetric] by (simp add: complete_delivery_def find_id [OF r0(1) uniq])
  show ?thesis
  proof (rule rewrite_ok [OF ok, where h = h])
    fix e r assume mem: "e \<in> set (ob_queue ob)" "r \<in> set (ob_queue ob)" and p: "pair_ok e r"
    show "pair_ok (h e) (h r)"
      using p r0(3) uniq [OF mem(1)] uniq [OF mem(2)]
      by (cases "r = r0"; cases "e = r0") (auto simp: pair_ok_def h_def)
  next
    have same: "dq_group_id (h r) = dq_group_id r" "dq_sequence_no (h r) = dq_sequence_no r"
      "dq_sequence_count (h r) = dq_sequence_count r" for r by (simp_all add: h_def)
    have st: "dq_status (h r) = (if r = r0 then Delivered else dq_status r)"
      if "r \<in> set (ob_queue ob)" for r using uniq [OF that] by (simp add: h_def)
    have "group_state g (map h (ob_queue ob)) =
        (if dq_group_id r0 = Some g \<and> dq_sequence_no r0 = dq_sequence_count r0 then Delivered
         else group_state g (ob_queue ob))" if "trim_space g \<noteq> []" for g
    proof -
      have "list_ex (\<lambda>r. dq_group_id r = Some g \<and> dq_status r = Dead) (map h (ob_queue ob)) =
          list_ex (\<lambda>r. dq_group_id r = Some g \<and> dq_status r = Dead) (ob_queue ob)"
        using r0(3) unfolding list_ex_iff set_map bex_simps same
        by (intro bex_cong [OF refl]) (simp add: st)
      moreover have "dq_group_id r0 = Some g \<Longrightarrow>
          \<not> list_ex (\<lambda>r. dq_group_id r = Some g \<and> dq_status r = Dead) (ob_queue ob)"
        using around that by (auto simp: list_ex_iff)
      moreover have "list_ex (\<lambda>r. dq_group_id r = Some g \<and> dq_status r = Delivered \<and>
            dq_sequence_no r = dq_sequence_count r) (map h (ob_queue ob)) \<longleftrightarrow>
          dq_group_id r0 = Some g \<and> dq_sequence_no r0 = dq_sequence_count r0 \<or>
          list_ex (\<lambda>r. dq_group_id r = Some g \<and> dq_status r = Delivered \<and>
            dq_sequence_no r = dq_sequence_count r) (ob_queue ob)"
      proof -
        have "list_ex (\<lambda>r. dq_group_id r = Some g \<and> dq_status r = Delivered \<and>
              dq_sequence_no r = dq_sequence_count r) (map h (ob_queue ob)) \<longleftrightarrow>
            (\<exists>r\<in>set (ob_queue ob). dq_group_id r = Some g \<and>
              (r = r0 \<or> dq_status r = Delivered) \<and> dq_sequence_no r = dq_sequence_count r)"
          unfolding list_ex_iff set_map bex_simps same
          by (intro bex_cong [OF refl]) (simp add: st)
        then show ?thesis using r0(1) unfolding list_ex_iff by blast
      qed
      ultimately show ?thesis by (simp add: group_state_def)
    qed
    then show "events_ok ?ob'"
      using ok by (intro events_ok_marked [OF _ ev']) (simp_all add: outbox_ok_def q')
  next
    show "map te_key (ob_events ?ob') = map te_key (ob_events ob)"
      by (simp add: ev')
  next
    fix r assume "r \<in> set (ob_queue ob)" "(dq_payload r = None) = (\<not> live (dq_status r))"
    then show "(dq_payload (h r) = None) = (\<not> live (dq_status (h r)))"
      by (simp add: h_def)
  qed (simp_all add: q', simp_all add: complete_delivery_def h_def)
qed


lemma fail_retry_ok:
  assumes ok: "outbox_ok ob" and fl: "i \<in> in_flight ob"
  shows "outbox_ok (snd (fail_delivery (Some p) i retry available err False ob))"
proof -
  let ?ob' = "snd (fail_delivery (Some p) i retry available err False ob)"
  obtain r0 where r0: "dq_status r0 = Processing"
    and uniq: "\<And>r. r \<in> set (ob_queue ob) \<Longrightarrow> dq_id r = i \<longleftrightarrow> r = r0"
    by (rule in_flight_row [OF ok fl]) (rule that)
  define h where "h r = (if dq_id r = i then failed_row Retry retry available err r else r)" for r
  have ob': "?ob' = ob\<lparr>ob_queue := map h (ob_queue ob)\<rparr>"
    by (simp add: fail_delivery_def update_rows_def h_def)
  have same: "dq_group_id (h r) = dq_group_id r" "dq_sequence_no (h r) = dq_sequence_no r" for r
    by (simp_all add: h_def)
  have st: "dq_status (h r) = (if r = r0 then Retry else dq_status r)"
    if "r \<in> set (ob_queue ob)" for r using uniq [OF that] by (simp add: h_def)
  show ?thesis
  proof (rule rewrite_ok [OF ok, where h = h])
    fix e r assume mem: "e \<in> set (ob_queue ob)" "r \<in> set (ob_queue ob)" and p: "pair_ok e r"
    show "pair_ok (h e) (h r)"
      using p unfolding pair_ok_def same st [OF mem(1)] st [OF mem(2)]
      by (cases "r = r0"; cases "e = r0") (simp_all add: r0)
  next
    fix r assume "r \<in> set (ob_queue ob)" "(dq_payload r = None) = (\<not> live (dq_status r))"
    then show "(dq_payload (h r) = None) = (\<not> live (dq_status (h r)))"
      using r0 uniq [of r] by (auto simp: h_def)
  next
    show "events_ok ?ob'"
    proof (rule events_ok_map [where h = h and ob = ob])
      fix r assume "r \<in> set (ob_queue ob)"
      then show "(dq_status (h r) = Dead \<longleftrightarrow> dq_status r = Dead) \<and>
          (dq_status (h r) = Delivered \<longleftrightarrow> dq_status r = Delivered)"
        using uniq [of r] r0 by (simp add: h_def)
    qed (use ok in \<open>simp_all add: outbox_ok_def ob' h_def\<close>)
  qed (simp_all add: ob' h_def)
qed

text \<open>A failure for good ends the whole group.\<close>

lemma fail_dead_result:
  assumes ok: "outbox_ok ob" and r0: "r0 \<in> set (ob_queue ob)" "dq_id r0 = i"
    and uniq: "\<And>r. r \<in> set (ob_queue ob) \<Longrightarrow> dq_id r = i \<longleftrightarrow> r = r0"
  shows "fail_delivery (Some p) i retry available err True ob =
    (Inr (), ob\<lparr>ob_queue := map (\<lambda>r.
        let r1 = (if dq_id r = i then drop_payload (failed_row Dead retry available err r) else r)
        in if (\<exists>g. dq_group_id r0 = Some g \<and> trim_space g \<noteq> []) \<and>
              dq_group_id r = dq_group_id r0 \<and> dq_status r1 \<noteq> Delivered
           then drop_payload (set_status Dead r1) else r1) (ob_queue ob),
      ob_events := map (\<lambda>e. if dq_group_id r0 = Some (te_key e) \<and> trim_space (te_key e) \<noteq> []
        then e\<lparr>te_delivery_status := Dead\<rparr> else e) (ob_events ob)\<rparr>)"
proof -
  let ?f = "\<lambda>r. drop_payload (failed_row Dead retry available err r)"
  have "find (\<lambda>r. dq_id r = i) (update_rows (\<lambda>r. dq_id r = i) ?f (ob_queue ob)) = Some (?f r0)"
    using find_update_rows [of dq_id ?f i "\<lambda>r. dq_id r = i" "ob_queue ob"]
      find_id [OF r0(1) uniq, of "\<lambda>_. True"] r0(2) by simp
  moreover have "map (\<lambda>e. if g = te_key e \<and> trim_space (te_key e) \<noteq> []
      then e\<lparr>te_delivery_status := Dead\<rparr> else e) (ob_events ob) = ob_events ob"
    if "trim_space g = []" for g
    using that by (intro map_idI) auto
  ultimately show ?thesis
    by (cases "dq_group_id r0")
      (auto simp: fail_delivery_def Let_def update_rows_def mark_event_def o_def intro!: map_cong)
qed


lemma fail_dead_ok:
  assumes ok: "outbox_ok ob" and fl: "i \<in> in_flight ob"
  shows "outbox_ok (snd (fail_delivery (Some p) i retry available err True ob))"
proof -
  let ?ob' = "snd (fail_delivery (Some p) i retry available err True ob)"
  obtain r0 where r0: "r0 \<in> set (ob_queue ob)" "dq_id r0 = i" "dq_status r0 = Processing"
    and uniq: "\<And>r. r \<in> set (ob_queue ob) \<Longrightarrow> dq_id r = i \<longleftrightarrow> r = r0"
    by (rule in_flight_row [OF ok fl]) (rule that)
  let ?grouped = "\<lambda>g. dq_group_id r0 = Some g \<and> trim_space g \<noteq> []"
  define h where "h r =
    (let r1 = (if dq_id r = i then drop_payload (failed_row Dead retry available err r) else r)
     in if (\<exists>g. ?grouped g) \<and> dq_group_id r = dq_group_id r0 \<and> dq_status r1 \<noteq> Delivered
        then drop_payload (set_status Dead r1) else r1)" for r
  have ob': "?ob' = ob\<lparr>ob_queue := map h (ob_queue ob),
      ob_events := map (\<lambda>e. if ?grouped (te_key e) then e\<lparr>te_delivery_status := Dead\<rparr> else e)
        (ob_events ob)\<rparr>"
    by (simp add: fail_dead_result [OF ok r0(1,2) uniq] h_def)
  have idh: "ident (h r) = ident r" for r
    by (simp add: h_def Let_def)
  have same: "dq_group_id (h r) = dq_group_id r" "dq_sequence_no (h r) = dq_sequence_no r"
    "dq_sequence_count (h r) = dq_sequence_count r" for r
    using idh [of r] by (simp_all add: ident_eq)
  have st: "dq_status (h r) = (if r = r0 \<or> (\<exists>g. ?grouped g \<and> dq_group_id r = Some g) \<and>
      dq_status r \<noteq> Delivered then Dead else dq_status r)" if "r \<in> set (ob_queue ob)" for r
    using uniq [OF that] by (auto simp: h_def Let_def)
  have group: "dq_status (h r) = (if dq_status r = Delivered then Delivered else Dead)"
    if "r \<in> set (ob_queue ob)" "?grouped g" "dq_group_id r = Some g" for r g
    using st [OF that(1)] that(2,3) r0(3) by auto
  have other: "dq_status (h r) = (if r = r0 then Dead else dq_status r)"
    if "r \<in> set (ob_queue ob)" "dq_group_id r = Some g" "\<not> ?grouped g" for r g
    using st [OF that(1)] that(2,3) by auto
  show ?thesis
  proof (rule rewrite_ok [OF ok, where h = h])
    fix e r assume mem: "e \<in> set (ob_queue ob)" "r \<in> set (ob_queue ob)" and p: "pair_ok e r"
    have "(dq_sequence_no e < dq_sequence_no r \<longrightarrow> started (dq_status (h r)) \<longrightarrow>
           dq_status (h e) = Delivered) \<and>
         (trim_space g \<noteq> [] \<longrightarrow> dq_status (h e) = Dead \<longrightarrow> \<not> live (dq_status (h r)))"
      if g: "dq_group_id e = Some g" "dq_group_id r = Some g" for g
    proof (cases "?grouped g")
      case True
      then show ?thesis
        using p g unfolding group [OF mem(1) True g(1)] group [OF mem(2) True g(2)] pair_ok_def
        by (cases "dq_status r") simp_all
    next
      case False
      have "e = r0 \<longrightarrow> trim_space g = []"
        using False g by auto
      then show ?thesis
        using p g r0(3) unfolding other [OF mem(1) g(1) False] other [OF mem(2) g(2) False] pair_ok_def
        by (cases "e = r0"; cases "r = r0") simp_all
    qed
    then show "pair_ok (h e) (h r)"
      by (simp add: pair_ok_def same)
  next
    fix r assume r: "r \<in> set (ob_queue ob)" "(dq_payload r = None) = (\<not> live (dq_status r))"
    then show "(dq_payload (h r) = None) = (\<not> live (dq_status (h r)))"
      by (auto simp: h_def Let_def)
  next
    have "group_state g (map h (ob_queue ob)) =
        (if ?grouped g then Dead else group_state g (ob_queue ob))" if "trim_space g \<noteq> []" for g
    proof (cases "?grouped g")
      case True
      have "dq_group_id (h r0) = Some g \<and> dq_status (h r0) = Dead"
        using True r0 group [OF r0(1) True] by (simp add: same)
      then have "list_ex (\<lambda>r. dq_group_id r = Some g \<and> dq_status r = Dead) (map h (ob_queue ob))"
        unfolding list_ex_iff using r0(1) by (intro bexI [of _ "h r0"]) simp_all
      then show ?thesis using True by (simp add: group_state_def)
    next
      case False
      then show ?thesis
        using that idh other by (simp add: False) (rule group_state_map, auto)
    qed
    then have state: "group_state g (ob_queue ?ob') =
        (if ?grouped g then Dead else group_state g (ob_queue ob))" if "trim_space g \<noteq> []" for g
      using that by (simp add: ob')
    have marked: "ob_events ?ob' =
        map (\<lambda>e. if ?grouped (te_key e) then e\<lparr>te_delivery_status := Dead\<rparr> else e) (ob_events ob)"
      by (simp add: ob')
    have "events_ok ob" using ok by (simp only: outbox_ok_def)
    then show "events_ok ?ob'"
      using marked state by (rule events_ok_marked)
  qed (simp_all add: ob' idh o_def)
qed


lemma migrate_row_shape:
  assumes "migrate_row p r = Inr r'" "dq_payload r = None \<longleftrightarrow> \<not> live (dq_status r)"
    "dq_group_id r \<noteq> None \<Longrightarrow> dq_kind r \<noteq> minimal_approval_kind"
  shows "ident r' = ident r \<and> (dq_payload r' = None \<longleftrightarrow> \<not> live (dq_status r')) \<and>
    (dq_group_id r \<noteq> None \<longrightarrow>
      dq_status r' = (if dq_status r = Processing then Retry else dq_status r))"
proof (cases "live (dq_status r)")
  case False
  then have "r' = drop_payload r" using assms(1) by (simp add: migrate_row_def)
  then show ?thesis using False by auto
next
  case True
  have frame: "ident (r\<lparr>dq_payload := Some v\<rparr>) = ident r" for v by (simp add: ident_eq)
  obtain payload where pl: "dq_payload r = Some payload"
    using assms(2) True by (cases "dq_payload r") auto
  define st where "st = (if dq_status r = Processing then Retry else dq_status r)"
  have live_st: "live st" using True by (simp add: st_def)
  consider
      (erase) "dq_kind r = minimal_approval_kind" "dq_status r = Processing"
        "migrate_live_row p r = Inr (drop_payload (set_status Dead r))"
    | (error) e where "migrate_live_row p r = Inl e"
    | (keep) "migrate_live_row p r = Inr (set_status st r)"
    | (seal) v where "migrate_live_row p r = Inr (set_status st (r\<lparr>dq_payload := Some v\<rparr>))"
  proof (cases "dq_kind r = minimal_approval_kind \<and> dq_status r = Processing")
    case True
    then show thesis using erase by (simp add: migrate_live_row_def pl)
  next
    case False
    then have row: "migrate_live_row p r =
        (if has_prefix payload protected_prefix
         then (if unprotect p payload = None then Inl ErrUnprotect else Inr (set_status st r))
         else (case protect p payload of None \<Rightarrow> Inl ErrProtect
               | Some v \<Rightarrow> Inr (set_status st (r\<lparr>dq_payload := Some v\<rparr>))))"
      by (simp only: migrate_live_row_def pl option.case Let_def st_def if_False)
    show thesis
    proof (cases "has_prefix payload protected_prefix")
      case True
      then show thesis
        using error keep row by (cases "unprotect p payload") simp_all
    next
      case False
      then show thesis
        using error seal row by (cases "protect p payload") simp_all
    qed
  qed
  then show ?thesis
  proof cases
    case erase
    then have "r' = drop_payload (drop_payload (set_status Dead r))"
      using assms(1) True by (simp add: migrate_row_def)
    moreover have "dq_group_id r = None" using assms(3) erase(1) by blast
    ultimately show ?thesis by simp
  next
    case (error e)
    then show ?thesis using assms(1) True by (simp add: migrate_row_def)
  next
    case keep
    then have "r' = set_status st r"
      using assms(1) True live_st by (simp add: migrate_row_def)
    then show ?thesis using live_st pl by (simp add: st_def)
  next
    case (seal v)
    then have "r' = set_status st (r\<lparr>dq_payload := Some v\<rparr>)"
      using assms(1) True live_st by (simp add: migrate_row_def)
    then show ?thesis using live_st frame by (simp add: st_def)
  qed
qed

lemma map_result_map: "map_result f xs = Inr ys \<Longrightarrow> ys = map (\<lambda>x. projr (f x)) xs"
  by (induction xs arbitrary: ys) (auto split: sum.splits)

lemma map_result_each:
  "map_result f xs = Inr ys \<Longrightarrow> x \<in> set xs \<Longrightarrow> f x = Inr (projr (f x))"
  by (induction xs arbitrary: ys) (auto split: sum.splits)

lemma restart_ok:
  assumes ok: "outbox_ok ob"
  shows "outbox_ok (snd (migrate_protected_delivery_payloads p ob))"
proof (cases "map_result (migrate_row p) (ob_queue ob)")
  case (Inl e)
  then show ?thesis using ok by (simp add: migrate_protected_delivery_payloads_def)
next
  case (Inr q)
  let ?ob' = "snd (migrate_protected_delivery_payloads p ob)"
  define h where "h r = projr (migrate_row p r)" for r
  have ob': "?ob' = ob\<lparr>ob_queue := map h (ob_queue ob)\<rparr>"
    using Inr map_result_map [OF Inr]
    by (simp add: migrate_protected_delivery_payloads_def h_def)
  have shape: "ident (h r) = ident r \<and> (dq_payload (h r) = None \<longleftrightarrow> \<not> live (dq_status (h r))) \<and>
      (dq_group_id r \<noteq> None \<longrightarrow>
        dq_status (h r) = (if dq_status r = Processing then Retry else dq_status r))"
    if "r \<in> set (ob_queue ob)" for r
  proof -
    have "keys_ok ob" "payload_ok (ob_queue ob)" using ok by (simp_all add: outbox_ok_def)
    then have "dq_payload r = None \<longleftrightarrow> \<not> live (dq_status r)"
      and kind: "dq_group_id r \<noteq> None \<Longrightarrow> dq_kind r \<noteq> minimal_approval_kind"
      using that unfolding keys_ok_def payload_ok_def by blast+
    then show ?thesis
      by (rule migrate_row_shape [OF map_result_each [OF Inr that], folded h_def])
  qed
  show ?thesis
  proof (rule rewrite_ok [OF ok, where h = h])
    fix e r assume mem: "e \<in> set (ob_queue ob)" "r \<in> set (ob_queue ob)" and p: "pair_ok e r"
    show "pair_ok (h e) (h r)"
      unfolding pair_ok_def
    proof (intro allI impI)
      fix g assume "dq_group_id (h e) = Some g" "dq_group_id (h r) = Some g"
      then have g: "dq_group_id e = Some g" "dq_group_id r = Some g"
        and n: "dq_sequence_no (h e) = dq_sequence_no e" "dq_sequence_no (h r) = dq_sequence_no r"
        using shape [OF mem(1)] shape [OF mem(2)] by (simp_all add: ident_eq)
      have st: "dq_status (h e) = (if dq_status e = Processing then Retry else dq_status e)"
        "dq_status (h r) = (if dq_status r = Processing then Retry else dq_status r)"
        using shape [OF mem(1)] shape [OF mem(2)] g by simp_all
      show "(dq_sequence_no (h e) < dq_sequence_no (h r) \<longrightarrow> started (dq_status (h r)) \<longrightarrow>
            dq_status (h e) = Delivered) \<and>
          (trim_space g \<noteq> [] \<longrightarrow> dq_status (h e) = Dead \<longrightarrow> \<not> live (dq_status (h r)))"
        using p g unfolding pair_ok_def st n by (cases "dq_status r"; cases "dq_status e") simp_all
    qed
  next
    show "events_ok ?ob'"
      by (rule events_ok_map [where h = h and ob = ob])
        (use ok shape in \<open>auto simp: outbox_ok_def ob'\<close>)
  qed (use shape in \<open>simp_all add: ob'\<close>)
qed


section \<open>Appending rows\<close>

lemma append_row_ok:
  assumes ok: "outbox_ok ob" and id: "\<And>i. dq_id (f i) = i"
    and st: "\<And>i. dq_status (f i) = Pending" and pl: "\<And>i. dq_payload (f i) \<noteq> None"
    and target: "\<And>i r. r \<in> set (ob_queue ob) \<Longrightarrow>
      (dq_event_id r, dq_chat_key r) \<noteq> (dq_event_id (f i), dq_chat_key (f i))"
    and group: "\<And>i g. dq_group_id (f i) = Some g \<Longrightarrow>
      g \<in> te_key ` set (ob_events ob) \<and> dq_kind (f i) \<noteq> minimal_approval_kind \<and>
      (\<forall>r\<in>set (ob_queue ob). dq_group_id r = Some g \<longrightarrow>
         dq_status r = Pending \<and> dq_sequence_no r \<noteq> dq_sequence_no (f i))"
  shows "outbox_ok (append_row f ob)"
proof -
  let ?x = "f (ob_next_id ob)"
  have sn: "ob_queue (append_row f ob) = ob_queue ob @ [?x]"
    "ob_next_id (append_row f ob) = Suc (ob_next_id ob)"
    "ob_events (append_row f ob) = ob_events ob"
    by (simp_all add: append_row_def)
  have k: "keys_ok ob" and o: "order_ok (ob_queue ob)" and p: "payload_ok (ob_queue ob)"
    and e: "events_ok ob" using ok by (simp_all add: outbox_ok_def)
  have peers: "dq_status r = Pending" "dq_sequence_no r \<noteq> dq_sequence_no ?x"
    if "r \<in> set (ob_queue ob)" "dq_group_id ?x = Some g" "dq_group_id r = Some g" for r g
    using group [of "ob_next_id ob" g] that by auto
  have below: "dq_id r < ob_next_id ob" if "r \<in> set (ob_queue ob)" for r
    using k that by (simp add: keys_ok_def)
  have "keys_ok (append_row f ob)"
    unfolding keys_ok_def sn
  proof (intro conjI)
    show "sorted_wrt (<) (map dq_id (ob_queue ob @ [?x]))"
      using k below by (auto simp: keys_ok_def sorted_wrt_append id)
    show "\<forall>r\<in>set (ob_queue ob @ [?x]). dq_id r < Suc (ob_next_id ob)"
      using below by (auto simp: id less_SucI)
    show "distinct (map (\<lambda>r. (dq_event_id r, dq_chat_key r)) (ob_queue ob @ [?x]))"
    proof -
      have "(dq_event_id ?x, dq_chat_key ?x) \<notin>
          (\<lambda>r. (dq_event_id r, dq_chat_key r)) ` set (ob_queue ob)"
        using target [of _ "ob_next_id ob"] by (metis (no_types, lifting) imageE)
      then show ?thesis using k by (simp add: keys_ok_def)
    qed
    show "distinct (map te_key (ob_events ob))" using k by (simp add: keys_ok_def)
    show "\<forall>r\<in>set (ob_queue ob @ [?x]). \<forall>g. dq_group_id r = Some g \<longrightarrow>
        g \<in> te_key ` set (ob_events ob) \<and> dq_kind r \<noteq> minimal_approval_kind"
      using k group [of "ob_next_id ob"] by (auto simp: keys_ok_def)
    show "\<forall>r\<in>set (ob_queue ob @ [?x]). \<forall>s\<in>set (ob_queue ob @ [?x]). dq_group_id r \<noteq> None \<longrightarrow>
        dq_group_id s = dq_group_id r \<longrightarrow> dq_sequence_no s = dq_sequence_no r \<longrightarrow> dq_id s = dq_id r"
    proof (intro ballI impI)
      fix r s assume mem: "r \<in> set (ob_queue ob @ [?x])" "s \<in> set (ob_queue ob @ [?x])"
        and eq: "dq_group_id r \<noteq> None" "dq_group_id s = dq_group_id r"
          "dq_sequence_no s = dq_sequence_no r"
      obtain g where g: "dq_group_id r = Some g" "dq_group_id s = Some g" using eq by auto
      consider "r = ?x" "s = ?x" | "r \<in> set (ob_queue ob)" "s = ?x" | "r = ?x" "s \<in> set (ob_queue ob)"
        | "r \<in> set (ob_queue ob)" "s \<in> set (ob_queue ob)" using mem by auto
      then show "dq_id s = dq_id r"
      proof cases
        case 4
        then show ?thesis using k eq unfolding keys_ok_def by blast
      qed (use peers g eq(3) in \<open>auto\<close>)
    qed
  qed
  moreover have "order_ok (ob_queue ob @ [?x])"
    using o peers by (auto simp: order_ok_def pair_ok_def st)
  moreover have "payload_ok (ob_queue ob @ [?x])"
    using p st pl by (auto simp: payload_ok_def)
  moreover have "group_state g (ob_queue ob @ [?x]) = group_state g (ob_queue ob)" for g
    by (simp add: group_state_def st)
  then have "events_ok (append_row f ob)"
    using e by (simp add: events_ok_def sn)
  ultimately show ?thesis by (simp add: outbox_ok_def sn)
qed

lemma single_ok:
  assumes "outbox_ok ob" "qi_status item = Pending"
  shows "outbox_ok (snd (enqueue_delivery (Some p) now item ob))"
proof -
  have "outbox_ok (append_row (\<lambda>i. single_row now i payload item) ob)"
    if "\<not> list_ex (same_target item) (ob_queue ob)" for payload
    by (rule append_row_ok [OF assms(1)])
      (use assms(2) that in \<open>auto simp: single_row_def list_ex_iff same_target_def\<close>)
  then show ?thesis
    using assms(1) by (auto simp: enqueue_delivery_def split: sum.split)
qed

lemma insert_group_ok:
  assumes "outbox_ok ob" "key \<in> te_key ` set (ob_events ob)"
    "\<forall>(item, payload)\<in>set xs. qi_group_id item = key \<and> qi_kind item \<noteq> minimal_approval_kind"
    "distinct (map (qi_sequence_no \<circ> fst) xs)"
    "\<forall>r\<in>set (ob_queue ob). dq_group_id r = Some key \<longrightarrow>
       dq_status r = Pending \<and> dq_sequence_no r \<notin> set (map (qi_sequence_no \<circ> fst) xs)"
    "insert_group now xs ob = Inr ob'"
  shows "outbox_ok ob' \<and> ob_events ob' = ob_events ob \<and> ob_linked ob' = ob_linked ob"
  using assms
proof (induction now xs ob rule: insert_group.induct)
  case (2 now item payload rest ob)
  let ?ob = "append_row (\<lambda>i. group_row now i payload item) ob"
  have free: "\<not> list_ex (same_target item) (ob_queue ob)"
    using "2.prems"(6) by (auto split: if_splits)
  then have step: "insert_group now rest ?ob = Inr ob'"
    using "2.prems"(6) by simp
  have same: "ob_events ?ob = ob_events ob" "ob_linked ?ob = ob_linked ob"
    "set (ob_queue ?ob) = insert (group_row now (ob_next_id ob) payload item) (set (ob_queue ob))"
    by (simp_all add: append_row_def)
  have "outbox_ok ?ob"
    by (rule append_row_ok [OF "2.prems"(1)])
      (use "2.prems"(2,3,5) free in
        \<open>auto simp: group_row_def list_ex_iff same_target_def\<close>)
  moreover have "key \<in> te_key ` set (ob_events ?ob)"
    using "2.prems"(2) by (simp add: same)
  moreover have "\<forall>(item, payload)\<in>set rest. qi_group_id item = key \<and> qi_kind item \<noteq> minimal_approval_kind"
    using "2.prems"(3) by simp
  moreover have "distinct (map (qi_sequence_no \<circ> fst) rest)"
    using "2.prems"(4) by (simp add: o_def)
  moreover have "\<forall>r\<in>set (ob_queue ?ob). dq_group_id r = Some key \<longrightarrow>
       dq_status r = Pending \<and> dq_sequence_no r \<notin> set (map (qi_sequence_no \<circ> fst) rest)"
  proof -
    have "dq_sequence_no (group_row now i payload item) = qi_sequence_no item"
      "dq_status (group_row now i payload item) = Pending" for i
      by (simp_all add: group_row_def)
    moreover have "qi_sequence_no item \<notin> set (map (qi_sequence_no \<circ> fst) rest)"
      using "2.prems"(4) by simp
    moreover have "\<forall>r\<in>set (ob_queue ob). dq_group_id r = Some key \<longrightarrow>
       dq_status r = Pending \<and> dq_sequence_no r \<notin> set (map (qi_sequence_no \<circ> fst) rest)"
      using "2.prems"(5) by simp
    ultimately show ?thesis unfolding same by (metis insert_iff)
  qed
  ultimately have "outbox_ok ob' \<and> ob_events ob' = ob_events ?ob \<and> ob_linked ob' = ob_linked ?ob"
    using step by (rule "2.IH" [OF free])
  then show ?case by (simp only: same)
qed simp


lemma outbox_ok_linked: "outbox_ok (ob\<lparr>ob_linked := l\<rparr>) = outbox_ok ob"
  by (simp add: outbox_ok_def keys_ok_def events_ok_def)

lemma no_group_state:
  assumes "\<forall>r\<in>set q. dq_group_id r \<noteq> Some g"
  shows "group_state g q = Pending"
  using assms by (auto simp: group_state_def list_ex_iff)

lemma new_event_ok:
  assumes ok: "outbox_ok ob" and new: "te_key event \<notin> te_key ` set (ob_events ob)"
  shows "outbox_ok (ob\<lparr>ob_events := ob_events ob @ [event\<lparr>te_delivery_status := Pending\<rparr>]\<rparr>)"
proof -
  have k: "keys_ok ob" using ok by (simp add: outbox_ok_def)
  then have "\<forall>r\<in>set (ob_queue ob). dq_group_id r \<noteq> Some (te_key event)"
    using new unfolding keys_ok_def by blast
  then have "group_state (te_key event) (ob_queue ob) = Pending"
    by (rule no_group_state)
  moreover have "keys_ok (ob\<lparr>ob_events := ob_events ob @ [event\<lparr>te_delivery_status := Pending\<rparr>]\<rparr>)"
    (is "keys_ok ?ob'")
  proof -
    let ?events = "ob_events ob @ [event\<lparr>te_delivery_status := Pending\<rparr>]"
    have sn: "ob_queue ?ob' = ob_queue ob" "ob_next_id ?ob' = ob_next_id ob" "ob_events ?ob' = ?events"
      by simp_all
    have "distinct (map te_key (ob_events ob))"
      using k unfolding keys_ok_def by blast
    then have d: "distinct (map te_key ?events)" using new by simp
    have g: "\<forall>r\<in>set (ob_queue ob). \<forall>g. dq_group_id r = Some g \<longrightarrow>
        g \<in> te_key ` set ?events \<and> dq_kind r \<noteq> minimal_approval_kind"
    proof -
      have "te_key ` set (ob_events ob) \<subseteq> te_key ` set ?events" by auto
      moreover have "\<forall>r\<in>set (ob_queue ob). \<forall>g. dq_group_id r = Some g \<longrightarrow>
          g \<in> te_key ` set (ob_events ob) \<and> dq_kind r \<noteq> minimal_approval_kind"
        using k unfolding keys_ok_def by (elim conjE)
      ultimately show ?thesis by blast
    qed
    show ?thesis
      using k unfolding keys_ok_def sn by (elim conjE) (intro conjI d g; assumption)
  qed
  ultimately show ?thesis
    using ok by (simp add: outbox_ok_def events_ok_def)
qed

lemma terminal_cases:
  assumes "enqueue_terminal_event_with_linked_release prot now event items release ob = (res, ob')"
  obtains (unchanged) "ob' = ob" "res \<noteq> Inr True"
  | (stored) protected ob1 where "res = Inr True"
      "te_key event \<notin> te_key ` set (ob_events ob)"
      "map_result (\<lambda>item. protect_payload prot (qi_payload item)) items = Inr protected"
      "insert_group now (zip items protected)
         (ob\<lparr>ob_events := ob_events ob @ [event\<lparr>te_delivery_status := Pending\<rparr>]\<rparr>) = Inr ob1"
      "apply_release release ob1 = Some ob'"
proof (cases "ob' = ob \<and> res \<noteq> Inr True")
  case True
  then show thesis using unchanged by blast
next
  case False
  have "\<exists>protected ob1. res = Inr True \<and>
      te_key event \<notin> te_key ` set (ob_events ob) \<and>
      map_result (\<lambda>item. protect_payload prot (qi_payload item)) items = Inr protected \<and>
      insert_group now (zip items protected)
        (ob\<lparr>ob_events := ob_events ob @ [event\<lparr>te_delivery_status := Pending\<rparr>]\<rparr>) = Inr ob1 \<and>
      apply_release release ob1 = Some ob'"
    using assms False
    by (auto simp: enqueue_terminal_event_with_linked_release_def list_ex_iff
        split: if_splits sum.splits bool.splits option.splits)
  then show thesis using stored by blast
qed

lemma terminal_ok:
  assumes ok: "outbox_ok ob" and wf: "group_items event items"
  shows "outbox_ok (snd (enqueue_terminal_event_with_linked_release prot now event items release ob))"
proof -
  obtain res ob' where res: "enqueue_terminal_event_with_linked_release prot now event items release ob = (res, ob')"
    by (rule prod.exhaust)
  from res show ?thesis
  proof (cases rule: terminal_cases)
    case unchanged
    then show ?thesis using ok res by simp
  next
    case (stored protected ob1)
    let ?ob0 = "ob\<lparr>ob_events := ob_events ob @ [event\<lparr>te_delivery_status := Pending\<rparr>]\<rparr>"
    have len: "length protected = length items"
      using map_result_map [OF stored(3)] by simp
    have k: "keys_ok ob" using ok by (simp add: outbox_ok_def)
    have empty: "\<forall>r\<in>set (ob_queue ob). dq_group_id r \<noteq> Some (te_key event)"
      using k stored(2) unfolding keys_ok_def by blast
    have "map (qi_sequence_no \<circ> fst) (zip items protected) = map qi_sequence_no items"
      using len by (metis map_fst_zip map_map)
    then have "distinct (map (qi_sequence_no \<circ> fst) (zip items protected))"
      using wf by (simp add: group_items_def)
    moreover have "\<forall>(item, payload)\<in>set (zip items protected).
        qi_group_id item = te_key event \<and> qi_kind item \<noteq> minimal_approval_kind"
      using wf by (auto simp: group_items_def dest: set_zip_leftD)
    ultimately have "outbox_ok ob1"
      using insert_group_ok [OF new_event_ok [OF ok stored(2)] _ _ _ _ stored(4), of "te_key event"] empty
      by simp
    moreover have "\<exists>l. ob' = ob1\<lparr>ob_linked := l\<rparr>"
    proof (cases release)
      case None
      then show ?thesis using stored(5) by (intro exI [of _ "ob_linked ob1"]) (simp add: apply_release_def)
    next
      case (Some rel)
      then show ?thesis using stored(5) by (auto simp: apply_release_def split: if_splits)
    qed
    ultimately show ?thesis using res by (auto simp: outbox_ok_linked)
  qed
qed

lemma attempt_ok: "outbox_ok (record_delivery_attempt i n st err ob) = outbox_ok ob"
  by (simp add: record_delivery_attempt_def outbox_ok_def keys_ok_def events_ok_def)

lemma empty_outbox_ok: "outbox_ok empty_outbox"
  by (simp add: empty_outbox_def outbox_ok_def keys_ok_def order_ok_def payload_ok_def events_ok_def)

lemma fail_ok:
  "outbox_ok ob \<Longrightarrow> i \<in> in_flight ob \<Longrightarrow>
   outbox_ok (snd (fail_delivery (Some p) i retry available err dead ob))"
  by (cases dead) (simp_all add: fail_retry_ok fail_dead_ok)

lemma outbox_step_ok:
  assumes "outbox_step p ob ob'" "outbox_ok ob"
  shows "outbox_ok ob'"
  using assms
  by (induction rule: outbox_step.induct)
    (simp_all add: single_ok terminal_ok claim_ok complete_ok fail_ok restart_ok attempt_ok)

lemma outbox_reaches_ok:
  "outbox_reaches p ob ob' \<Longrightarrow> outbox_ok ob \<Longrightarrow> outbox_ok ob'"
  by (induction rule: rtranclp_induct) (auto dest: outbox_step_ok)


section \<open>What the queue guarantees\<close>

lemma stamp_le_late: "stamp_le a b \<Longrightarrow> a < b + second"
proof -
  have s: "0 < second" by (simp add: second_def)
  assume "stamp_le a b"
  then have "a div second \<le> b div second" by (auto simp: stamp_le_def)
  then have "(a div second) * second \<le> (b div second) * second"
    using s by (intro mult_right_mono) simp_all
  moreover have "a = (a div second) * second + a mod second" "a mod second < second"
    "b = (b div second) * second + b mod second" "0 \<le> b mod second"
    using s by simp_all
  ultimately show ?thesis by linarith
qed

lemma stamp_le_due: "a + second \<le> b \<Longrightarrow> stamp_le a b"
proof -
  assume "a + second \<le> b"
  then have "(a + second) div second \<le> b div second"
    by (rule zdiv_mono1) (simp add: second_def)
  moreover have "(a + second) div second = a div second + 1"
    by (simp add: second_def)
  ultimately show ?thesis by (simp add: stamp_le_def)
qed

lemma claimed_rows_all:
  assumes "length (claimed_rows now limit q) < claim_limit limit" "r \<in> set q" "claimable now q r"
  shows "r \<in> set (claimed_rows now limit q)"
proof -
  have "claimed_rows now limit q = sort_key dq_id (filter (claimable now q) q)"
    using assms(1) by (simp add: claimed_rows_def)
  then show ?thesis using assms(2,3) by simp
qed

lemma claimed_rows_length: "length (claimed_rows now limit q) \<le> claim_limit limit"
  by (simp add: claimed_rows_def)

lemma event_keys_step:
  "outbox_step p ob ob' \<Longrightarrow> te_key ` set (ob_events ob) \<subseteq> te_key ` set (ob_events ob')"
proof (induction rule: outbox_step.induct)
  case (single item ob now)
  then show ?case by (auto simp: enqueue_delivery_def append_row_def split: sum.split)
next
  case (terminal event items ob now release)
  obtain res ob' where res: "enqueue_terminal_event_with_linked_release (Some p) now event items release ob = (res, ob')"
    by (rule prod.exhaust)
  have grow: "insert_group now xs a = Inr b \<Longrightarrow> ob_events b = ob_events a" for xs a b
    by (induction now xs a rule: insert_group.induct) (auto simp: append_row_def split: if_splits)
  from res show ?case
  proof (cases rule: terminal_cases)
    case (stored protected ob1)
    then have "ob_events ob' = ob_events ob1"
      by (auto simp: apply_release_def split: option.splits if_splits)
    then show ?thesis using res grow [OF stored(4)] by auto
  qed (simp add: res)
next
  case (claim ob now limit)
  then show ?case by (simp add: claim_delivery_batch_def Let_def split: sum.split)
next
  case (complete i ob route)
  then show ?case by (simp add: complete_delivery_def split: option.split)
next
  case (fail i ob retry available err dead)
  then show ?case
    by (auto simp: fail_delivery_def Let_def split: option.split)
next
  case (attempt ob i n st err)
  then show ?case by (simp add: record_delivery_attempt_def)
next
  case (restart ob)
  then show ?case by (simp add: migrate_protected_delivery_payloads_def split: sum.split)
qed

lemma event_keys_reach:
  assumes "outbox_reaches p ob ob'"
  shows "te_key ` set (ob_events ob) \<subseteq> te_key ` set (ob_events ob')"
  using assms
proof (induction rule: rtranclp_induct)
  case (step y z)
  from step.IH event_keys_step [OF step.hyps(2)] show ?case by (rule subset_trans)
qed simp

text \<open>A run to try the properties on: one terminal event with two deliveries.\<close>

definition demo_protector :: protector where
  "demo_protector = \<lparr>protect = (\<lambda>x. Some (protected_prefix @ x)), unprotect = (\<lambda>x. Some (drop 9 x))\<rparr>"

definition demo_event :: terminal_event where
  "demo_event = \<lparr>te_key = ''t:1:completed'', te_thread_id = ''t'', te_turn_id = ''1'',
     te_status = ''completed'', te_delivery_status = Pending\<rparr>"

definition demo_item :: "string \<Rightarrow> int \<Rightarrow> delivery_item" where
  "demo_item e n = \<lparr>qi_id = 0, qi_event_id = e, qi_chat_key = ''5:0'', qi_chat_id = 5,
     qi_topic_id = 0, qi_thread_id = ''t'', qi_kind = ''notifier_terminal'', qi_status = Pending,
     qi_retry_count = 0, qi_available_at = None, qi_last_error = [], qi_payload = ''{}'',
     qi_group_id = ''t:1:completed'', qi_sequence_no = n, qi_sequence_count = 2\<rparr>"

definition demo_enqueued :: outbox where
  "demo_enqueued = snd (enqueue_terminal_event_with_linked_release (Some demo_protector) 0
     demo_event [demo_item ''a'' 1, demo_item ''b'' 2] None empty_outbox)"

definition demo_claimed :: outbox where
  "demo_claimed = snd (claim_delivery_batch (Some demo_protector) 0 10 demo_enqueued)"

definition demo_first_done :: outbox where
  "demo_first_done = complete_delivery (Some demo_protector) None 1 demo_claimed"

lemma demo_values:
  "map dq_status (ob_queue demo_enqueued) = [Pending, Pending]"
  "map dq_status (ob_queue demo_claimed) = [Processing, Pending]"
  "map dq_status (ob_queue demo_first_done) = [Delivered, Pending]"
  "map dq_id (ob_queue demo_claimed) = [1, 2]"
  "map dq_payload (ob_queue demo_first_done) = [None, Some (protected_prefix @ ''{}'')]"
  by code_simp+


lemma demo_group_items: "group_items demo_event [demo_item ''a'' 1, demo_item ''b'' 2]"
  by (simp add: group_items_def demo_event_def demo_item_def minimal_approval_kind_def)

lemma demo_reaches:
  "outbox_reaches demo_protector empty_outbox demo_enqueued"
  "outbox_reaches demo_protector empty_outbox demo_claimed"
  "outbox_reaches demo_protector empty_outbox demo_first_done"
proof -
  show e: "outbox_reaches demo_protector empty_outbox demo_enqueued"
    unfolding demo_enqueued_def by (rule r_into_rtranclp) (rule outbox_step.terminal [OF demo_group_items])
  show c: "outbox_reaches demo_protector empty_outbox demo_claimed"
    by (rule rtranclp.rtrancl_into_rtrancl [OF e]) (simp add: demo_claimed_def outbox_step.claim)
  have "ob_queue demo_claimed ! 0 \<in> set (ob_queue demo_claimed)"
    "dq_status (ob_queue demo_claimed ! 0) = Processing" "dq_id (ob_queue demo_claimed ! 0) = 1"
    by code_simp+
  then have "1 \<in> in_flight demo_claimed"
    unfolding in_flight_def mem_Collect_eq by metis
  then show "outbox_reaches demo_protector empty_outbox demo_first_done"
    by (intro rtranclp.rtrancl_into_rtrancl [OF c]) (simp add: demo_first_done_def outbox_step.complete)
qed

section \<open>Properties\<close>

text \<open>
  C2: Deliveries of one group go out in order and one at a time: in every state the outbox can
  reach, once a delivery of a group is in flight, waiting for a retry or delivered, everything
  before it in the group has been delivered, and two deliveries in flight never share a group.
\<close>
theorem group_delivery_order:
  assumes "outbox_reaches p empty_outbox ob"
    and "r \<in> set (ob_queue ob)" "e \<in> set (ob_queue ob)"
    and "dq_group_id r = Some g" "dq_group_id e = Some g" "dq_status r \<in> {Processing, Retry, Delivered}"
  shows "(dq_sequence_no e < dq_sequence_no r \<longrightarrow> dq_status e = Delivered) \<and>
    (dq_status r = Processing \<and> dq_status e = Processing \<longrightarrow> e = r)"
proof -
  have ok: "outbox_ok ob" using outbox_reaches_ok [OF assms(1) empty_outbox_ok] .
  then have pairs: "pair_ok e r" "pair_ok r e" using assms(2,3) by (auto simp: outbox_ok_def order_ok_def)
  have keys: "keys_ok ob" using ok by (simp add: outbox_ok_def)
  have "dq_sequence_no e = dq_sequence_no r \<longrightarrow> dq_id e = dq_id r"
    using keys assms(2-5) unfolding keys_ok_def by (metis option.discI)
  then have same: "dq_sequence_no e = dq_sequence_no r \<longrightarrow> e = r"
    using keys_ok_id [OF keys assms(3,2)] by blast
  show ?thesis
  proof (intro conjI impI)
    show "dq_status e = Delivered" if "dq_sequence_no e < dq_sequence_no r"
      using that pairs(1) assms(4-6) by (auto simp: pair_ok_def)
    show "e = r" if "dq_status r = Processing \<and> dq_status e = Processing"
      using that pairs assms(4,5) same
      by (cases "dq_sequence_no e" "dq_sequence_no r" rule: linorder_cases) (simp_all add: pair_ok_def)
  qed
qed

lemma group_delivery_order_witness:
  "dq_status (ob_queue demo_claimed ! 0) = Processing \<and> dq_status (ob_queue demo_claimed ! 1) = Pending \<and>
   \<not> dq_sequence_no (ob_queue demo_claimed ! 1) < dq_sequence_no (ob_queue demo_claimed ! 0)"
proof -
  have "ob_queue demo_claimed ! 0 \<in> set (ob_queue demo_claimed)"
    "ob_queue demo_claimed ! 1 \<in> set (ob_queue demo_claimed)"
    "dq_group_id (ob_queue demo_claimed ! 0) = Some ''t:1:completed''"
    "dq_group_id (ob_queue demo_claimed ! 1) = Some ''t:1:completed''"
    "dq_status (ob_queue demo_claimed ! 0) = Processing"
    "dq_status (ob_queue demo_claimed ! 1) = Pending"
    by code_simp+
  then show ?thesis
    using group_delivery_order [OF demo_reaches(2), of "ob_queue demo_claimed ! 0"
        "ob_queue demo_claimed ! 1" "''t:1:completed''"] by auto
qed

text \<open>
  C4: The status of a terminal event is the summary of its deliveries. In every reachable state
  an event (with a key that is not blank) is dead exactly when one of its deliveries is, and then
  none of them will be tried again; it is delivered exactly when its last delivery went out and
  none is dead, and then every delivery up to the last one went out.
\<close>
theorem terminal_event_summary:
  assumes "outbox_reaches p empty_outbox ob" "e \<in> set (ob_events ob)" "trim_space (te_key e) \<noteq> []"
  shows "(te_delivery_status e = Dead \<longleftrightarrow>
      (\<exists>r\<in>set (ob_queue ob). dq_group_id r = Some (te_key e) \<and> dq_status r = Dead)) \<and>
    (te_delivery_status e = Dead \<longrightarrow>
      (\<forall>r\<in>set (ob_queue ob). dq_group_id r = Some (te_key e) \<longrightarrow> \<not> live (dq_status r))) \<and>
    (te_delivery_status e = Delivered \<longrightarrow>
      (\<exists>l\<in>set (ob_queue ob). dq_group_id l = Some (te_key e) \<and> dq_sequence_no l = dq_sequence_count l \<and>
        (\<forall>r\<in>set (ob_queue ob). dq_group_id r = Some (te_key e) \<longrightarrow>
           dq_sequence_no r \<le> dq_sequence_count l \<longrightarrow> dq_status r = Delivered)))"
proof -
  have ok: "outbox_ok ob" using outbox_reaches_ok [OF assms(1) empty_outbox_ok] .
  then have st: "te_delivery_status e = group_state (te_key e) (ob_queue ob)"
    using assms(2,3) by (simp add: outbox_ok_def events_ok_def)
  have pairs: "pair_ok a b" if "a \<in> set (ob_queue ob)" "b \<in> set (ob_queue ob)" for a b
    using ok that by (simp add: outbox_ok_def order_ok_def)
  have keys: "keys_ok ob" using ok by (simp add: outbox_ok_def)
  show ?thesis
  proof (intro conjI impI)
    show dead: "te_delivery_status e = Dead \<longleftrightarrow>
        (\<exists>r\<in>set (ob_queue ob). dq_group_id r = Some (te_key e) \<and> dq_status r = Dead)"
      by (auto simp: st group_state_def list_ex_iff)
    show "\<forall>r\<in>set (ob_queue ob). dq_group_id r = Some (te_key e) \<longrightarrow> \<not> live (dq_status r)"
      if "te_delivery_status e = Dead"
      using that dead pairs assms(3) unfolding pair_ok_def by blast
    assume "te_delivery_status e = Delivered"
    then obtain l where l: "l \<in> set (ob_queue ob)" "dq_group_id l = Some (te_key e)"
        "dq_status l = Delivered" "dq_sequence_no l = dq_sequence_count l"
      by (auto simp: st group_state_def list_ex_iff split: if_splits)
    have "dq_status r = Delivered" if r: "r \<in> set (ob_queue ob)" "dq_group_id r = Some (te_key e)"
        "dq_sequence_no r \<le> dq_sequence_count l" for r
    proof (cases "dq_sequence_no r = dq_sequence_no l")
      case True
      then have "dq_id r = dq_id l"
        using keys l(1,2) r(1,2) unfolding keys_ok_def by (metis option.discI)
      then show ?thesis using keys_ok_id [OF keys r(1) l(1)] l(3) by simp
    next
      case False
      then show ?thesis using pairs [OF r(1) l(1)] l r(2,3) by (simp add: pair_ok_def)
    qed
    then show "\<exists>l\<in>set (ob_queue ob). dq_group_id l = Some (te_key e) \<and>
        dq_sequence_no l = dq_sequence_count l \<and>
        (\<forall>r\<in>set (ob_queue ob). dq_group_id r = Some (te_key e) \<longrightarrow>
           dq_sequence_no r \<le> dq_sequence_count l \<longrightarrow> dq_status r = Delivered)"
      using l by blast
  qed
qed

lemma terminal_event_summary_witness:
  "te_delivery_status (ob_events demo_first_done ! 0) \<noteq> Dead"
proof -
  have "trim_space ''t:1:completed'' = ''t:1:completed''"
    by (simp add: trim_space_ascii ascii_mark_def)
  moreover have "ob_events demo_first_done ! 0 \<in> set (ob_events demo_first_done)"
    "te_key (ob_events demo_first_done ! 0) = ''t:1:completed''"
    "\<not> list_ex (\<lambda>r. dq_status r = Dead) (ob_queue demo_first_done)"
    by code_simp+
  ultimately show ?thesis
    using terminal_event_summary [OF demo_reaches(3), of "ob_events demo_first_done ! 0"]
    by (auto simp: list_ex_iff)
qed

end
