(* ===== verification/Notifier_Store.thy ===== *)
theory Notifier_Store
  imports Outbox
begin

text \<open>
  The notifier's observations (\<^verbatim>\<open>internal/storage/store_notifier.go\<close>): one row per watched
  thread with the timestamp last seen in the thread list, the last turn read, and whether the
  thread has to be read again; the moment the notifier was activated; and the migration that
  retires the deliveries of the older profile. NULL and the empty text are not told apart, as
  every query coalesces them.
\<close>

section \<open>Rows and operations\<close>

record notifier_observation =
  no_thread_id :: string
  no_last_updated_at :: int
  no_last_turn_id :: string
  no_last_turn_status :: string
  no_baseline_ready :: bool
  no_read_required :: bool
  no_defer_until :: int
  no_retired :: bool
  no_discovery_seq :: nat

type_synonym observations = "notifier_observation list"

definition new_observation :: "string \<Rightarrow> int \<Rightarrow> string \<Rightarrow> string \<Rightarrow> bool \<Rightarrow> bool \<Rightarrow> nat \<Rightarrow> notifier_observation" where
  "new_observation i u turn st baseline required n =
     \<lparr>no_thread_id = i, no_last_updated_at = u, no_last_turn_id = turn, no_last_turn_status = st,
      no_baseline_ready = baseline, no_read_required = required, no_defer_until = 0,
      no_retired = False, no_discovery_seq = n\<rparr>"

definition observe_notifier_thread :: "string \<Rightarrow> int \<Rightarrow> observations \<Rightarrow> (store_error, observations) result" where
  "observe_notifier_thread i u obs =
     (let i' = trim_space i
      in if i' = [] then Inl ErrThreadIdRequired
         else if list_ex (\<lambda>w. no_thread_id w = i') obs
         then Inr (update_rows (\<lambda>w. no_thread_id w = i' \<and> u \<noteq> no_last_updated_at w)
                     (\<lambda>w. w\<lparr>no_last_updated_at := u, no_read_required := True, no_defer_until := 0\<rparr>) obs)
         else Inr (obs @ [new_observation i' u [] [] False True (next_seq no_discovery_seq obs)]))"

definition baseline_notifier_observations :: "int \<Rightarrow> observations \<Rightarrow> observations" where
  "baseline_notifier_observations activation =
     update_rows (\<lambda>w. \<not> no_retired w \<and> no_last_updated_at w \<le> activation)
       (\<lambda>w. w\<lparr>no_baseline_ready := True, no_read_required := False\<rparr>)"

text \<open>
  \<^verbatim>\<open>ORDER BY last_updated_at DESC, thread_id ASC\<close> is the order of this key.
\<close>

datatype due_key = DueKey (due_updated: int) (due_thread: string)

instantiation due_key :: linorder
begin

definition less_eq_due_key :: "due_key \<Rightarrow> due_key \<Rightarrow> bool" where
  "less_eq_due_key a b \<longleftrightarrow>
     due_updated b < due_updated a \<or> due_updated a = due_updated b \<and> due_thread a \<le> due_thread b"

definition less_due_key :: "due_key \<Rightarrow> due_key \<Rightarrow> bool" where
  "less_due_key a b \<longleftrightarrow>
     due_updated b < due_updated a \<or> due_updated a = due_updated b \<and> due_thread a < due_thread b"

instance
  by standard (auto simp: less_eq_due_key_def less_due_key_def due_key.expand)

end

definition due_key_of :: "notifier_observation \<Rightarrow> due_key" where
  "due_key_of w = DueKey (no_last_updated_at w) (no_thread_id w)"

definition observation_due :: "instant \<Rightarrow> notifier_observation \<Rightarrow> bool" where
  "observation_due now w \<longleftrightarrow>
     no_read_required w \<and> \<not> no_retired w \<and> no_defer_until w \<le> unix_seconds now"

definition list_notifier_observations_due :: "instant \<Rightarrow> int \<Rightarrow> instant \<Rightarrow> observations \<Rightarrow> observations" where
  "list_notifier_observations_due clock limit now obs =
     take (nat (if limit \<le> 0 then 50 else limit))
       (sort_key due_key_of (filter (observation_due (or_clock clock now)) obs))"

definition defer_notifier_read ::
  "instant \<Rightarrow> string \<Rightarrow> instant \<Rightarrow> observations \<Rightarrow> (store_error, observations) result" where
  "defer_notifier_read clock i retry obs =
     (let i' = trim_space i
      in if i' = [] then Inl ErrThreadIdRequired
         else Inr (update_rows (\<lambda>w. no_thread_id w = i' \<and> \<not> no_retired w)
                (\<lambda>w. w\<lparr>no_read_required := True, no_defer_until := unix_seconds (or_clock clock retry)\<rparr>) obs))"

definition record_notifier_read ::
  "string \<Rightarrow> string \<Rightarrow> string \<Rightarrow> int \<Rightarrow> bool \<Rightarrow> observations \<Rightarrow> (store_error, observations) result" where
  "record_notifier_read i turn st u keep obs =
     (let i' = trim_space i; turn' = trim_space turn; st' = trim_space st
      in if i' = [] then Inl ErrThreadIdRequired
         else if list_ex (\<lambda>w. no_thread_id w = i') obs
         then Inr (update_rows (\<lambda>w. no_thread_id w = i')
                (\<lambda>w. w\<lparr>no_last_turn_id := turn', no_last_turn_status := st', no_baseline_ready := True,
                       no_read_required := keep, no_defer_until := 0\<rparr>) obs)
         else Inr (obs @ [new_observation i' u turn' st' True keep (next_seq no_discovery_seq obs)]))"

definition find_notifier_observation :: "string \<Rightarrow> observations \<Rightarrow> notifier_observation option" where
  "find_notifier_observation i obs =
     (if trim_space i = [] then None else find (\<lambda>w. no_thread_id w = trim_space i) obs)"

definition count_notifier_observations :: "observations \<Rightarrow> nat \<times> nat" where
  "count_notifier_observations obs =
     (length (filter (\<lambda>w. \<not> no_retired w) obs),
      length (filter (\<lambda>w. \<not> no_retired w \<and> no_read_required w) obs))"

section \<open>Activation\<close>

definition notifier_activation_key :: string where
  "notifier_activation_key = ''notifier.activation_unix''"
definition notifier_migration_key :: string where
  "notifier_migration_key = ''notifier.migration.v1''"

definition ensure_notifier_activation ::
  "instant \<Rightarrow> instant \<Rightarrow> kv_table \<Rightarrow> (store_error, int) result \<times> kv_table" where
  "ensure_notifier_activation clock now s =
     (let s' = (if s notifier_activation_key = None
                then set_state s notifier_activation_key (itoa (unix_seconds (or_clock clock now)))
                else s)
      in case parse_int (get_state s' notifier_activation_key) of
           (v, True) \<Rightarrow> (Inr v, s')
         | (v, False) \<Rightarrow> (Inl ErrParse, s))"

section \<open>Migration from the older profile\<close>

definition notifier_kind :: string where "notifier_kind = ''notifier_terminal''"

definition waiting :: "delivery_row \<Rightarrow> bool" where
  "waiting r \<longleftrightarrow> dq_status r = Pending \<or> dq_status r = Retry"

definition migrates_event :: "delivery_row list \<Rightarrow> terminal_event \<Rightarrow> bool" where
  "migrates_event q e \<longleftrightarrow>
     list_ex (\<lambda>r. dq_group_id r = Some (te_key e) \<and> te_key e \<noteq> [] \<and> waiting r \<and> dq_kind r \<noteq> notifier_kind) q \<and>
     \<not> list_ex (\<lambda>r. dq_group_id r = Some (te_key e) \<and> waiting r \<and> dq_kind r = notifier_kind) q"

definition migrate_notifier_profile :: "kv_table \<Rightarrow> outbox \<Rightarrow> nat \<times> kv_table \<times> outbox" where
  "migrate_notifier_profile s ob =
     (if get_state s notifier_migration_key = ''done'' then (0, s, ob)
      else let retired = (\<lambda>r. waiting r \<and> dq_kind r \<noteq> notifier_kind)
           in (length (filter retired (ob_queue ob)),
               set_state s notifier_migration_key ''done'',
               ob\<lparr>ob_events := update_rows (migrates_event (ob_queue ob))
                                (\<lambda>e. e\<lparr>te_delivery_status := Dead\<rparr>) (ob_events ob),
                  ob_queue := update_rows retired (\<lambda>r. drop_payload (set_status Dead r)) (ob_queue ob)\<rparr>))"

lemmas [store_defs] = observe_notifier_thread_def baseline_notifier_observations_def
  defer_notifier_read_def record_notifier_read_def find_notifier_observation_def


section \<open>The contract the observer relies on\<close>

locale watch_list =
  fixes row :: "'s \<Rightarrow> string \<Rightarrow> notifier_observation option"
    and observe :: "string \<Rightarrow> int \<Rightarrow> 's \<Rightarrow> 's"
    and record_read :: "string \<Rightarrow> string \<Rightarrow> string \<Rightarrow> int \<Rightarrow> bool \<Rightarrow> 's \<Rightarrow> 's"
  assumes row_trim: "trim_space i = trim_space j \<Longrightarrow> row s i = row s j"
    and observe_known: "row s i = Some r \<Longrightarrow> row (observe i u s) i =
      Some (if no_last_updated_at r = u then r
            else r\<lparr>no_last_updated_at := u, no_read_required := True, no_defer_until := 0\<rparr>)"
    and observe_other: "trim_space j \<noteq> trim_space i \<Longrightarrow> row (observe i u s) j = row s j"
    and record_known: "row s i = Some r \<Longrightarrow> row (record_read i t st u keep s) i =
      Some (r\<lparr>no_last_turn_id := trim_space t, no_last_turn_status := trim_space st,
              no_baseline_ready := True, no_read_required := keep, no_defer_until := 0\<rparr>)"
    and record_other: "trim_space j \<noteq> trim_space i \<Longrightarrow> row (record_read i t st u keep s) j = row s j"
begin

lemma observe_row:
  assumes "row s i = Some r"
  shows "row (observe j u s) i =
    Some (if trim_space j = trim_space i \<and> no_last_updated_at r \<noteq> u
          then r\<lparr>no_last_updated_at := u, no_read_required := True, no_defer_until := 0\<rparr> else r)"
proof (cases "trim_space j = trim_space i")
  case True
  have "row s j = Some r" using assms row_trim [OF True, of s] by simp
  then show ?thesis using True observe_known [of s j r u] row_trim [OF True, of "observe j u s"] by simp
qed (simp add: assms observe_other)

text \<open>Listing a thread again with the timestamp already stored changes nothing about it.\<close>

lemma quiet_while_unchanged:
  assumes "row s i = Some r" "\<forall>(j, u)\<in>set xs. trim_space j = trim_space i \<longrightarrow> u = no_last_updated_at r"
  shows "row (fold (\<lambda>(j, u). observe j u) xs s) i = Some r"
  using assms
proof (induction xs arbitrary: s)
  case (Cons x xs)
  obtain j u where x: "x = (j, u)" by (rule prod.exhaust)
  have "row (observe j u s) i = Some r"
    using Cons.prems x by (auto simp: observe_row)
  then show ?case using Cons x by simp
qed simp

text \<open>A required read stays required however often the thread is listed.\<close>

lemma required_stays:
  assumes "row s i = Some r" "no_read_required r"
  shows "\<exists>r'. row (fold (\<lambda>(j, u). observe j u) xs s) i = Some r' \<and> no_read_required r'"
  using assms
proof (induction xs arbitrary: s r)
  case (Cons x xs)
  obtain j u where x: "x = (j, u)" by (rule prod.exhaust)
  obtain r' where "row (observe j u s) i = Some r'" "no_read_required r'"
    using Cons.prems by (cases "trim_space j = trim_space i \<and> no_last_updated_at r \<noteq> u")
      (auto simp: observe_row)
  then show ?case using Cons.IH x by simp
qed auto

text \<open>A listing with a new timestamp makes a read required, whatever is listed before and after.\<close>

lemma change_requires_read:
  assumes "row s i = Some r" "(j, u) \<in> set xs" "trim_space j = trim_space i" "u \<noteq> no_last_updated_at r"
  shows "\<exists>r'. row (fold (\<lambda>(j, u). observe j u) xs s) i = Some r' \<and> no_read_required r'"
  using assms
proof (induction xs arbitrary: s)
  case (Cons x xs)
  obtain k v where x: "x = (k, v)" by (rule prod.exhaust)
  show ?case
  proof (cases "trim_space k = trim_space i \<and> no_last_updated_at r \<noteq> v")
    case True
    then have "row (observe k v s) i =
        Some (r\<lparr>no_last_updated_at := v, no_read_required := True, no_defer_until := 0\<rparr>)"
      using Cons.prems(1) by (simp add: observe_row)
    from required_stays [OF this] show ?thesis by (simp add: x)
  next
    case False
    then have "row (observe k v s) i = Some r" "(j, u) \<in> set xs"
      using Cons.prems x by (auto simp: observe_row)
    then show ?thesis using Cons.IH Cons.prems(3,4) x by simp
  qed
qed simp

end

text \<open>The store's operations as total functions: an error leaves the rows as they are.\<close>

definition or_keep :: "'s \<Rightarrow> (store_error, 's) result \<Rightarrow> 's" where
  "or_keep s r = (case r of Inl _ \<Rightarrow> s | Inr s' \<Rightarrow> s')"

definition observation_row :: "observations \<Rightarrow> string \<Rightarrow> notifier_observation option" where
  "observation_row obs i = find_notifier_observation i obs"

definition observe_or_keep :: "string \<Rightarrow> int \<Rightarrow> observations \<Rightarrow> observations" where
  "observe_or_keep i u obs = or_keep obs (observe_notifier_thread i u obs)"

definition record_or_keep :: "string \<Rightarrow> string \<Rightarrow> string \<Rightarrow> int \<Rightarrow> bool \<Rightarrow> observations \<Rightarrow> observations" where
  "record_or_keep i t st u keep obs = or_keep obs (record_notifier_read i t st u keep obs)"

lemma find_update_key:
  assumes "\<And>r. k (f r) = k r"
  shows "find (\<lambda>r. k r = x) (update_rows (\<lambda>r. k r = y \<and> p r) f rs) =
    (case find (\<lambda>r. k r = x) rs of None \<Rightarrow> None | Some r \<Rightarrow> Some (if x = y \<and> p r then f r else r))"
  using assms by (induction rs) (auto split: option.splits)

lemma find_update_same_key:
  assumes "\<And>r. k (f r) = k r"
  shows "find (\<lambda>r. k r = x) (update_rows (\<lambda>r. k r = y) f rs) =
    (case find (\<lambda>r. k r = x) rs of None \<Rightarrow> None | Some r \<Rightarrow> Some (if x = y then f r else r))"
  using assms by (induction rs) (auto split: option.splits)

lemma list_ex_find: "list_ex p xs \<longleftrightarrow> find p xs \<noteq> None"
  by (induction xs) auto

lemma observe_lookup:
  assumes "trim_space i \<noteq> []"
  shows "find (\<lambda>w. no_thread_id w = x) (observe_or_keep i u s) =
    (case find (\<lambda>w. no_thread_id w = x) s of
       Some r \<Rightarrow> Some (if x = trim_space i \<and> u \<noteq> no_last_updated_at r
          then r\<lparr>no_last_updated_at := u, no_read_required := True, no_defer_until := 0\<rparr> else r)
     | None \<Rightarrow> if x = trim_space i
          then Some (new_observation x u [] [] False True (next_seq no_discovery_seq s)) else None)"
proof (cases "find (\<lambda>w. no_thread_id w = trim_space i) s")
  case None
  then show ?thesis
    using assms by (auto simp: observe_or_keep_def or_keep_def observe_notifier_thread_def Let_def
        list_ex_find find_append new_observation_def split: option.splits)
next
  case (Some r)
  then show ?thesis
    using assms by (simp add: observe_or_keep_def or_keep_def observe_notifier_thread_def Let_def
        list_ex_find find_update_key split: option.split)
qed

lemma record_lookup:
  assumes "trim_space i \<noteq> []"
  shows "find (\<lambda>w. no_thread_id w = x) (record_or_keep i t st u keep s) =
    (case find (\<lambda>w. no_thread_id w = x) s of
       Some r \<Rightarrow> Some (if x = trim_space i
          then r\<lparr>no_last_turn_id := trim_space t, no_last_turn_status := trim_space st,
                 no_baseline_ready := True, no_read_required := keep, no_defer_until := 0\<rparr> else r)
     | None \<Rightarrow> if x = trim_space i
          then Some (new_observation x u (trim_space t) (trim_space st) True keep
                       (next_seq no_discovery_seq s)) else None)"
proof (cases "find (\<lambda>w. no_thread_id w = trim_space i) s")
  case None
  then show ?thesis
    using assms by (auto simp: record_or_keep_def or_keep_def record_notifier_read_def Let_def
        list_ex_find find_append new_observation_def split: option.splits)
next
  case (Some r)
  then show ?thesis
    using assms by (simp add: record_or_keep_def or_keep_def record_notifier_read_def Let_def
        list_ex_find find_update_same_key split: option.split)
qed

lemma blank_id_kept:
  "trim_space i = [] \<Longrightarrow> observe_or_keep i u s = s" "trim_space i = [] \<Longrightarrow> record_or_keep i t st u keep s = s"
  by (simp_all add: observe_or_keep_def record_or_keep_def or_keep_def observe_notifier_thread_def
      record_notifier_read_def)

interpretation watched: watch_list observation_row observe_or_keep record_or_keep
proof
  fix s i j u r t st keep
  show "trim_space i = trim_space j \<Longrightarrow> observation_row s i = observation_row s j"
    by (simp add: observation_row_def find_notifier_observation_def)
  show "observation_row s i = Some r \<Longrightarrow> observation_row (observe_or_keep i u s) i =
      Some (if no_last_updated_at r = u then r
            else r\<lparr>no_last_updated_at := u, no_read_required := True, no_defer_until := 0\<rparr>)"
    by (simp add: observation_row_def find_notifier_observation_def observe_lookup split: if_splits)
  show "trim_space j \<noteq> trim_space i \<Longrightarrow> observation_row (observe_or_keep i u s) j = observation_row s j"
    by (cases "trim_space i = []") (simp_all add: observation_row_def find_notifier_observation_def
        observe_lookup blank_id_kept split: option.split)
  show "observation_row s i = Some r \<Longrightarrow> observation_row (record_or_keep i t st u keep s) i =
      Some (r\<lparr>no_last_turn_id := trim_space t, no_last_turn_status := trim_space st,
              no_baseline_ready := True, no_read_required := keep, no_defer_until := 0\<rparr>)"
    by (simp add: observation_row_def find_notifier_observation_def record_lookup split: if_splits)
  show "trim_space j \<noteq> trim_space i \<Longrightarrow> observation_row (record_or_keep i t st u keep s) j = observation_row s j"
    by (cases "trim_space i = []") (simp_all add: observation_row_def find_notifier_observation_def
        record_lookup blank_id_kept split: option.split)
qed


section \<open>The invariant of the rows\<close>

definition observations_ok :: "observations \<Rightarrow> bool" where
  "observations_ok obs \<longleftrightarrow>
     distinct (map no_thread_id obs) \<and>
     (\<forall>w\<in>set obs. no_thread_id w \<noteq> [] \<and> trim_space (no_thread_id w) = no_thread_id w) \<and>
     sorted_wrt (<) (map no_discovery_seq obs) \<and>
     (\<forall>w\<in>set obs. no_baseline_ready w \<or> no_read_required w)"

inductive observation_step :: "observations \<Rightarrow> observations \<Rightarrow> bool" where
  observe: "observe_notifier_thread i u obs = Inr obs' \<Longrightarrow> observation_step obs obs'"
| baseline: "observation_step obs (baseline_notifier_observations activation obs)"
| defer_read: "defer_notifier_read clock i retry obs = Inr obs' \<Longrightarrow> observation_step obs obs'"
| record_read: "record_notifier_read i t st u keep obs = Inr obs' \<Longrightarrow> observation_step obs obs'"

lemma rewrite_observations_ok:
  assumes "observations_ok obs"
    "\<And>w. no_thread_id (f w) = no_thread_id w" "\<And>w. no_discovery_seq (f w) = no_discovery_seq w"
    "\<And>w. no_baseline_ready w \<or> no_read_required w \<Longrightarrow> no_baseline_ready (f w) \<or> no_read_required (f w)"
  shows "observations_ok (update_rows p f obs)"
  using assms by (auto simp: observations_ok_def map_update_rows ball_update_rows)

lemma append_observation_ok:
  assumes "observations_ok obs" "\<not> list_ex (\<lambda>w. no_thread_id w = trim_space i) obs" "trim_space i \<noteq> []"
    "baseline \<or> required"
  shows "observations_ok (obs @ [new_observation (trim_space i) u t st baseline required (next_seq no_discovery_seq obs)])"
  using assms next_seq_greater [of _ obs no_discovery_seq]
  by (auto simp: observations_ok_def new_observation_def list_ex_iff sorted_wrt_append)

lemma observation_step_ok:
  assumes "observation_step obs obs'" "observations_ok obs"
  shows "observations_ok obs'"
  using assms
proof cases
  case (observe i u)
  then show ?thesis
    using assms(2) append_observation_ok
    by (auto simp: observe_notifier_thread_def Let_def intro!: rewrite_observations_ok split: if_splits)
next
  case (baseline activation)
  then show ?thesis
    using assms(2) by (auto simp: baseline_notifier_observations_def intro!: rewrite_observations_ok)
next
  case (defer_read clock i retry)
  then show ?thesis
    using assms(2) by (auto simp: defer_notifier_read_def Let_def intro!: rewrite_observations_ok split: if_splits)
next
  case (record_read i t st u keep)
  then show ?thesis
    using assms(2) append_observation_ok
    by (auto simp: record_notifier_read_def Let_def intro!: rewrite_observations_ok split: if_splits)
qed

lemma observations_reach_ok: "observation_step\<^sup>*\<^sup>* [] obs \<Longrightarrow> observations_ok obs"
  by (induction rule: rtranclp_induct) (auto simp: observations_ok_def [of "[]"] dest: observation_step_ok)


section \<open>Properties\<close>

text \<open>
  C10: The observation table stays well formed under any sequence of listings, baselines, deferrals
  and recorded reads: one row per thread, ids trimmed and never blank, discovery numbers strictly
  increasing in the order of discovery, and a thread that does not need reading always has a
  baseline.
\<close>
theorem observation_table_invariant:
  assumes "observation_step\<^sup>*\<^sup>* [] obs"
  shows "distinct (map no_thread_id obs) \<and> sorted_wrt (<) (map no_discovery_seq obs) \<and>
    (\<forall>w\<in>set obs. no_thread_id w \<noteq> [] \<and> trim_space (no_thread_id w) = no_thread_id w \<and>
       (no_read_required w \<or> no_baseline_ready w))"
  using observations_reach_ok [OF assms] by (auto simp: observations_ok_def)

lemma observation_table_invariant_witness:
  "distinct (map no_thread_id (observe_or_keep ''b'' 2 (observe_or_keep ''a'' 1 [])))"
proof -
  have trims: "trim_space ''a'' = ''a''" "trim_space ''b'' = ''b''"
    by (simp_all add: trim_space_ascii ascii_mark_def)
  have "observation_step [] (observe_or_keep ''a'' 1 [])"
    by (rule observation_step.observe [of "''a''" 1])
      (simp add: observe_or_keep_def or_keep_def observe_notifier_thread_def trims)
  moreover have "observation_step (observe_or_keep ''a'' 1 [])
      (observe_or_keep ''b'' 2 (observe_or_keep ''a'' 1 []))"
    by (rule observation_step.observe [of "''b''" 2])
      (simp add: observe_or_keep_def or_keep_def observe_notifier_thread_def trims Let_def split: sum.split)
  ultimately have "observation_step\<^sup>*\<^sup>* [] (observe_or_keep ''b'' 2 (observe_or_keep ''a'' 1 []))"
    by (rule converse_rtranclp_into_rtranclp [OF _ r_into_rtranclp])
  then show ?thesis using observation_table_invariant by blast
qed

text \<open>
  A thread is read once per change. After its read is recorded as finished, no listing that
  repeats the stored timestamp makes the thread due again, however many other threads are listed;
  and any listing in which its timestamp differs (newer or older) makes a read required again.
\<close>
theorem read_once_per_change:
  assumes "observation_row obs i = Some r"
  shows "((\<forall>(j, v)\<in>set listing. trim_space j = trim_space i \<longrightarrow> v = no_last_updated_at r) \<longrightarrow>
      (\<exists>w. observation_row (fold (\<lambda>(j, v). observe_or_keep j v) listing
              (record_or_keep i turn st u False obs)) i = Some w \<and>
           \<not> observation_due now w \<and> no_last_turn_id w = trim_space turn)) \<and>
    ((\<exists>(j, v)\<in>set listing. trim_space j = trim_space i \<and> v \<noteq> no_last_updated_at r) \<longrightarrow>
      (\<exists>w. observation_row (fold (\<lambda>(j, v). observe_or_keep j v) listing
              (record_or_keep i turn st u False obs)) i = Some w \<and> no_read_required w))"
proof -
  define r' where "r' = r\<lparr>no_last_turn_id := trim_space turn, no_last_turn_status := trim_space st,
      no_baseline_ready := True, no_read_required := False, no_defer_until := 0\<rparr>"
  have row: "observation_row (record_or_keep i turn st u False obs) i = Some r'"
    unfolding r'_def by (rule watched.record_known [OF assms])
  have same: "no_last_updated_at r' = no_last_updated_at r" "\<not> no_read_required r'"
      "no_last_turn_id r' = trim_space turn"
    by (simp_all add: r'_def)
  show ?thesis
  proof (intro conjI impI)
    assume "\<forall>(j, v)\<in>set listing. trim_space j = trim_space i \<longrightarrow> v = no_last_updated_at r"
    then show "\<exists>w. observation_row (fold (\<lambda>(j, v). observe_or_keep j v) listing
              (record_or_keep i turn st u False obs)) i = Some w \<and>
           \<not> observation_due now w \<and> no_last_turn_id w = trim_space turn"
      using watched.quiet_while_unchanged [OF row, of listing] same by (simp add: observation_due_def)
  next
    assume "\<exists>(j, v)\<in>set listing. trim_space j = trim_space i \<and> v \<noteq> no_last_updated_at r"
    then obtain j v where "(j, v) \<in> set listing" "trim_space j = trim_space i" "v \<noteq> no_last_updated_at r'"
      using same(1) by auto
    then show "\<exists>w. observation_row (fold (\<lambda>(j, v). observe_or_keep j v) listing
              (record_or_keep i turn st u False obs)) i = Some w \<and> no_read_required w"
      by (rule watched.change_requires_read [OF row])
  qed
qed

lemma read_once_per_change_witness:
  "\<exists>w. observation_row (observe_or_keep ''a'' 4 (record_or_keep ''a'' ''t1'' ''completed'' 5 False
     (observe_or_keep ''a'' 5 []))) ''a'' = Some w \<and> no_read_required w"
proof -
  have trim: "trim_space ''a'' = ''a''" by (simp add: trim_space_ascii ascii_mark_def)
  have "observation_row (observe_or_keep ''a'' 5 []) ''a'' =
      Some (new_observation ''a'' 5 [] [] False True (next_seq no_discovery_seq ([] :: observations)))"
    using observe_lookup [of "''a''" "''a''" 5 "[]"]
    by (simp add: trim observation_row_def find_notifier_observation_def)
  from read_once_per_change [OF this, of "[(''a'', 4)]" "''t1''" "''completed''" 5]
  show ?thesis by (simp add: new_observation_def)
qed

text \<open>
  The due list is the head of the right order: it has at most the limit (fifty when none is
  given), only rows that need reading, are not retired and not deferred past now; the most recently
  updated come first, ties by thread id; every due row that is left out comes after every row
  that is in; and nothing is left out while there is room.
\<close>
theorem due_list_is_head:
  assumes "0 < limit"
  shows "length (list_notifier_observations_due clock limit now obs) \<le> nat limit \<and>
    sorted (map due_key_of (list_notifier_observations_due clock limit now obs)) \<and>
    (\<forall>w\<in>set (list_notifier_observations_due clock limit now obs).
       w \<in> set obs \<and> observation_due (or_clock clock now) w) \<and>
    (\<forall>w\<in>set obs. observation_due (or_clock clock now) w \<longrightarrow>
       w \<in> set (list_notifier_observations_due clock limit now obs) \<or>
       length (list_notifier_observations_due clock limit now obs) = nat limit \<and>
       (\<forall>v\<in>set (list_notifier_observations_due clock limit now obs). due_key_of v \<le> due_key_of w))"
proof -
  let ?all = "sort_key due_key_of (filter (observation_due (or_clock clock now)) obs)"
  have eq: "list_notifier_observations_due clock limit now obs = take (nat limit) ?all"
    using assms by (simp add: list_notifier_observations_due_def)
  have sorted: "sorted (map due_key_of (take (nat limit) ?all @ drop (nat limit) ?all))" by simp
  have "w \<in> set (take (nat limit) ?all) \<or> length (take (nat limit) ?all) = nat limit \<and>
      (\<forall>v\<in>set (take (nat limit) ?all). due_key_of v \<le> due_key_of w)"
    if "w \<in> set obs" "observation_due (or_clock clock now) w" for w
  proof -
    have "w \<in> set ?all" using that by simp
    then have "w \<in> set (take (nat limit) ?all) \<or> w \<in> set (drop (nat limit) ?all)"
      by (metis Un_iff append_take_drop_id set_append)
    moreover have "nat limit < length ?all" if "w \<in> set (drop (nat limit) ?all)"
      using that by (metis drop_all empty_iff leI list.set(1))
    moreover have "\<forall>v\<in>set (take (nat limit) ?all). due_key_of v \<le> due_key_of w"
      if "w \<in> set (drop (nat limit) ?all)"
      using sorted that unfolding map_append sorted_append by simp
    ultimately show ?thesis by auto
  qed
  moreover have "sorted (map due_key_of (take (nat limit) ?all))"
    by (metis sorted_sort_key sorted_wrt_take take_map)
  ultimately show ?thesis unfolding eq by (auto dest: in_set_takeD)
qed

lemma due_list_is_head_witness:
  "length (list_notifier_observations_due 0 1 0
     [new_observation ''a'' 1 [] [] False True 1, new_observation ''b'' 2 [] [] False True 2]) \<le> 1"
  using due_list_is_head [of 1 0 0 "[new_observation ''a'' 1 [] [] False True 1,
      new_observation ''b'' 2 [] [] False True 2]"] by simp

text \<open>
  History from before the activation stays silent: right after the baseline no thread whose last
  update is at or before the activation is due, whatever the time and the limit; and a thread
  updated later keeps its row as it was.
\<close>
theorem history_stays_silent:
  "(\<forall>w\<in>set (list_notifier_observations_due clock limit now (baseline_notifier_observations activation obs)).
      activation < no_last_updated_at w) \<and>
   filter (\<lambda>w. activation < no_last_updated_at w) (baseline_notifier_observations activation obs) =
   filter (\<lambda>w. activation < no_last_updated_at w) obs"
proof
  show "\<forall>w\<in>set (list_notifier_observations_due clock limit now (baseline_notifier_observations activation obs)).
      activation < no_last_updated_at w"
    by (auto simp: list_notifier_observations_due_def baseline_notifier_observations_def set_update_rows
        observation_due_def dest!: in_set_takeD split: if_splits)
  show "filter (\<lambda>w. activation < no_last_updated_at w) (baseline_notifier_observations activation obs) =
     filter (\<lambda>w. activation < no_last_updated_at w) obs"
    by (induction obs) (auto simp: baseline_notifier_observations_def)
qed

lemma history_stays_silent_witness:
  "list_all (\<lambda>w. 10 < no_last_updated_at w)
     (list_notifier_observations_due 0 4 0 (baseline_notifier_observations 10
        [new_observation ''a'' 10 [] [] False True 1, new_observation ''b'' 11 [] [] False True 2]))"
  using history_stays_silent [of 0 4 0 10] unfolding list_all_iff by blast

text \<open>
  The activation moment is fixed by the first start: on a table without one the moment of the
  call is stored and returned, and every later call, whenever it is made, returns that same
  moment and changes nothing.
\<close>
theorem activation_is_sticky:
  assumes "s notifier_activation_key = None" "int64 (unix_seconds (or_clock clock now))"
  shows "fst (ensure_notifier_activation clock now s) = Inr (unix_seconds (or_clock clock now)) \<and>
    ensure_notifier_activation clock' now' (snd (ensure_notifier_activation clock now s)) =
      (Inr (unix_seconds (or_clock clock now)), snd (ensure_notifier_activation clock now s))"
  using assms by (simp add: ensure_notifier_activation_def Let_def set_state_def get_state_def)

lemma activation_is_sticky_witness:
  "fst (ensure_notifier_activation 0 9000000000 (snd (ensure_notifier_activation 0 5000000000 Map.empty))) = Inr 5"
  using activation_is_sticky [of Map.empty 0 5000000000 0 9000000000]
  by (simp add: or_clock_def is_zero_time_def zero_time_def unix_seconds_def second_def int64_def
      int64_min_def int64_max_def)

text \<open>
  The switch to the notifier profile retires the older profile's backlog exactly once: afterwards
  nothing but notifier deliveries waits to be sent, the retired ones are dead and carry no text and
  their number is what is reported, notifier deliveries and finished ones are untouched, and running
  it again does nothing.
\<close>
theorem profile_migration_once:
  assumes "migrate_notifier_profile s ob = (n, s', ob')" "get_state s notifier_migration_key \<noteq> ''done''"
  shows "ob_queue ob' = map (\<lambda>r. if waiting r \<and> dq_kind r \<noteq> notifier_kind
        then r\<lparr>dq_status := Dead, dq_payload := None\<rparr> else r) (ob_queue ob) \<and>
    n = length (filter (\<lambda>r. waiting r \<and> dq_kind r \<noteq> notifier_kind) (ob_queue ob)) \<and>
    (\<forall>r\<in>set (ob_queue ob'). waiting r \<longrightarrow> dq_kind r = notifier_kind) \<and>
    migrate_notifier_profile s' ob' = (0, s', ob')"
proof -
  have res: "n = length (filter (\<lambda>r. waiting r \<and> dq_kind r \<noteq> notifier_kind) (ob_queue ob))"
    "s' = set_state s notifier_migration_key ''done''"
    "ob_queue ob' = map (\<lambda>r. if waiting r \<and> dq_kind r \<noteq> notifier_kind
        then r\<lparr>dq_status := Dead, dq_payload := None\<rparr> else r) (ob_queue ob)"
    using assms by (auto simp: migrate_notifier_profile_def Let_def update_rows_def drop_payload_def set_status_def)
  moreover have "migrate_notifier_profile s' ob' = (0, s', ob')"
    by (simp add: migrate_notifier_profile_def res(2) kv.get_put_same)
  ultimately show ?thesis by (auto simp: waiting_def)
qed

lemma profile_migration_once_witness:
  "migrate_notifier_profile (fst (snd (migrate_notifier_profile Map.empty demo_enqueued)))
     (snd (snd (migrate_notifier_profile Map.empty demo_enqueued))) =
   (0, snd (migrate_notifier_profile Map.empty demo_enqueued))"
  using profile_migration_once [of Map.empty demo_enqueued "fst (migrate_notifier_profile Map.empty demo_enqueued)"
      "fst (snd (migrate_notifier_profile Map.empty demo_enqueued))"
      "snd (snd (migrate_notifier_profile Map.empty demo_enqueued))"]
  by (simp add: get_state_def)

end
