(* ===== verification/Notifier_Format.thy ===== *)
theory Notifier_Format
  imports Snapshot
begin

text \<open>
  The text of a notification (\<^verbatim>\<open>internal/daemon/notifier_format.go\<close>): the first paragraph of
  the final answer, stripped of Markdown and cut to 300 runes, under a header, the folder and the
  title. The fixed texts are Korean and are written out as their UTF-8 bytes.
\<close>

section \<open>Statuses\<close>

text \<open>\<^verbatim>\<open>canonicalMinimalTerminalStatus\<close> of \<^verbatim>\<open>minimal_observer.go\<close>.\<close>

definition canonical_terminal_status :: "string \<Rightarrow> string" where
  "canonical_terminal_status st =
     (let n = to_lower (trim_space st)
      in if n = ''canceled'' \<or> n = ''cancelled'' then ''interrupted'' else n)"

section \<open>Fields and lines\<close>

definition clean_notifier_field :: "string \<Rightarrow> string" where
  "clean_notifier_field field = join '' '' (Go_Strings.fields (trim_space field))"

text \<open>\<^verbatim>\<open>unicode.IsSpace(rune(b))\<close> of a single byte.\<close>

definition byte_space :: "char \<Rightarrow> bool" where
  "byte_space c \<longleftrightarrow> (of_char c :: nat) \<in> {0x09, 0x0A, 0x0B, 0x0C, 0x0D, 0x20, 0x85, 0xA0}"

definition trim_notifier_heading_marker :: "string \<Rightarrow> string" where
  "trim_notifier_heading_marker line =
     (let rest = dropWhile (\<lambda>c. c = CHR ''#'') line
      in if length rest = length line then line
         else case rest of
                c # s \<Rightarrow> if byte_space c then trim_space s else line
              | [] \<Rightarrow> line)"

definition trim_notifier_number_marker :: "string \<Rightarrow> string" where
  "trim_notifier_number_marker line =
     (let rest = dropWhile is_digit line
      in if length rest < length line
         then (case rest of
                 c # d # s \<Rightarrow> if c = CHR ''.'' \<and> byte_space d then trim_space s else line
               | _ \<Rightarrow> line)
         else line)"

definition trim_notifier_list_marker :: "string \<Rightarrow> string" where
  "trim_notifier_list_marker line =
     (case line of
        c # d # s \<Rightarrow>
          if c \<in> {CHR ''-'', CHR ''+'', CHR ''*''} \<and> byte_space d then trim_space s
          else trim_notifier_number_marker line
      | _ \<Rightarrow> trim_notifier_number_marker line)"

text \<open>One turn of the loop, and the loop: it repeats until nothing changes.\<close>

definition strip_markers :: "string \<Rightarrow> string" where
  "strip_markers line =
     trim_notifier_list_marker (trim_notifier_heading_marker
       (trim_space (dropWhile (\<lambda>c. c = CHR ''>'') line)))"

lemma sublist_trim_space: "sublist (trim_space s) s"
  unfolding trim_space_def
  by (meson prefix_imp_sublist sublist_order.order_trans suffix_imp_sublist trim_left_suffix trim_right_prefix)

lemma sublist_dropWhile: "sublist (dropWhile p s) s"
  by (rule suffix_imp_sublist) (rule suffix_dropWhile)

lemma sublist_trim_of: "sublist t s \<Longrightarrow> sublist (trim_space t) s"
  by (rule sublist_order.order_trans [OF sublist_trim_space])

lemma sublist_after:
  assumes "dropWhile p s = us @ t"
  shows "sublist (trim_space t) s"
proof -
  have "s = takeWhile p s @ us @ t" by (metis assms takeWhile_dropWhile_id)
  then have "suffix t s" by (metis append.assoc suffix_def)
  then show ?thesis by (rule sublist_trim_of [OF suffix_imp_sublist])
qed

lemma sublist_heading: "sublist (trim_notifier_heading_marker s) s"
proof (cases "dropWhile (\<lambda>c. c = CHR ''#'') s")
  case (Cons c t)
  then show ?thesis
    using sublist_after [of "\<lambda>c. c = CHR ''#''" s "[c]" t] by (simp add: trim_notifier_heading_marker_def)
next
  case Nil
  show ?thesis unfolding trim_notifier_heading_marker_def Let_def Nil by simp
qed

lemma sublist_number: "sublist (trim_notifier_number_marker s) s"
proof (cases "\<exists>c d t. dropWhile is_digit s = c # d # t")
  case True
  then obtain c d t where "dropWhile is_digit s = c # d # t" by blast
  then show ?thesis
    using sublist_after [of is_digit s "[c, d]" t] by (simp add: trim_notifier_number_marker_def)
next
  case False
  then show ?thesis
    by (auto simp: trim_notifier_number_marker_def Let_def split: list.split)
qed

lemma sublist_list_marker: "sublist (trim_notifier_list_marker s) s"
proof (cases "\<exists>c d t. s = c # d # t")
  case True
  then obtain c d t where s: "s = c # d # t" by blast
  have "sublist (trim_space t) s"
    using s by (intro sublist_trim_of suffix_imp_sublist) (simp add: suffix_ConsI)
  then show ?thesis using s sublist_number [of s] by (simp add: trim_notifier_list_marker_def)
next
  case False
  then show ?thesis
    using sublist_number [of s] by (auto simp: trim_notifier_list_marker_def split: list.split)
qed

lemma sublist_strip_markers: "sublist (strip_markers s) s"
  unfolding strip_markers_def
  by (meson sublist_dropWhile sublist_heading sublist_list_marker sublist_order.order_trans
      sublist_trim_space)

lemma strip_markers_shorter: "strip_markers s \<noteq> s \<Longrightarrow> length (strip_markers s) < length s"
proof -
  assume ne: "strip_markers s \<noteq> s"
  obtain u v where uv: "s = u @ strip_markers s @ v"
    using sublist_strip_markers [of s] by (auto simp: sublist_def)
  have "length u + length v \<noteq> 0"
    using ne uv by auto
  moreover have "length s = length u + length (strip_markers s) + length v"
    using arg_cong [OF uv, of length] by simp
  ultimately show ?thesis by linarith
qed

function strip_all_markers :: "string \<Rightarrow> string" where
  "strip_all_markers line =
     (if line = [] then []
      else let next_line = strip_markers line
           in if next_line = line then line else strip_all_markers next_line)"
  by pat_completeness auto
termination
  by (relation "measure length") (simp_all add: strip_markers_shorter)

declare strip_all_markers.simps [simp del]

text \<open>
  \<^verbatim>\<open>strings.NewReplacer\<close>: at each position the first pattern (in argument order) that
  matches is replaced.
\<close>

function replacer :: "(string \<times> string) list \<Rightarrow> string \<Rightarrow> string" where
  "replacer ps [] = []"
| "replacer ps (c # s) =
     (case find (\<lambda>(old, new). old \<noteq> [] \<and> prefix old (c # s)) ps of
        Some (old, new) \<Rightarrow> new @ replacer ps (drop (length old) (c # s))
      | None \<Rightarrow> c # replacer ps s)"
  by pat_completeness auto
termination
  by (relation "measure (\<lambda>(ps, s). length s)") (auto simp: find_Some_iff neq_Nil_conv)

definition markdown_marks :: "(string \<times> string) list" where
  "markdown_marks = [(''**'', []), (''__'', []), ([CHR 0x60], []), (''*'', []), (''_'', [])]"

definition clean_notifier_markdown_line :: "string \<Rightarrow> string" where
  "clean_notifier_markdown_line line =
     clean_notifier_field (replacer markdown_marks (strip_all_markers (trim_space line)))"

definition is_fence :: "string \<Rightarrow> bool" where
  "is_fence trimmed \<longleftrightarrow> has_prefix trimmed [CHR 0x60, CHR 0x60, CHR 0x60] \<or> has_prefix trimmed ''~~~''"

fun paragraph_lines :: "bool \<Rightarrow> string list \<Rightarrow> string list \<Rightarrow> string list" where
  "paragraph_lines in_fence paragraph [] = paragraph"
| "paragraph_lines in_fence paragraph (line # lines) =
     (let trimmed = trim_space line
      in if is_fence trimmed then paragraph_lines (\<not> in_fence) paragraph lines
         else if in_fence then paragraph_lines in_fence paragraph lines
         else let cleaned = clean_notifier_markdown_line trimmed
              in if cleaned = []
                 then (if paragraph \<noteq> [] then paragraph else paragraph_lines in_fence paragraph lines)
                 else paragraph_lines in_fence (paragraph @ [cleaned]) lines)"

definition first_notifier_paragraph :: "string \<Rightarrow> string" where
  "first_notifier_paragraph txt =
     clean_notifier_field (join '' ''
       (paragraph_lines False []
          (split_byte (CHR 0x0A) (replace_all [CHR 0x0D, CHR 0x0A] [CHR 0x0A] txt))))"

section \<open>Cutting\<close>

definition sentence_ending :: "rune \<Rightarrow> bool" where
  "sentence_ending r \<longleftrightarrow> r \<in> {0x2E, 0x21, 0x3F, 0x3002, 0xFF01, 0xFF1F, 0x2026}"

definition ellipsis :: string where "ellipsis = [CHR 0xE2, CHR 0x80, CHR 0xA6]"

definition truncate_notifier_runes :: "string \<Rightarrow> int \<Rightarrow> string" where
  "truncate_notifier_runes txt limit =
     (let rs = runes txt
      in if limit \<le> 0 \<or> int (length rs) \<le> limit then txt
         else let cutoff = nat (limit - 1);
                  ends = filter (\<lambda>i. 120 \<le> i \<and> sentence_ending (rs ! i)) [0..<cutoff]
              in of_runes (take (if ends = [] then cutoff else Suc (last ends)) rs) @ ellipsis)"

definition summary_rune_limit :: int where "summary_rune_limit = 300"

definition notifier_summary :: "string \<Rightarrow> string" where
  "notifier_summary txt =
     (let paragraph = first_notifier_paragraph txt
      in if paragraph = [] then [] else truncate_notifier_runes paragraph summary_rune_limit)"

section \<open>The message\<close>

definition header_done :: string where
  "header_done = [CHR 0xE2, CHR 0x9C, CHR 0x85, CHR 0x20, CHR 0xEC, CHR 0x9E, CHR 0x91, CHR 0xEC, CHR 0x97,
     CHR 0x85, CHR 0x20, CHR 0xEC, CHR 0x99, CHR 0x84, CHR 0xEB, CHR 0xA3, CHR 0x8C]"
definition header_failed :: string where
  "header_failed = [CHR 0xE2, CHR 0x9D, CHR 0x8C, CHR 0x20, CHR 0xEC, CHR 0x9E, CHR 0x91, CHR 0xEC, CHR 0x97,
     CHR 0x85, CHR 0x20, CHR 0xEC, CHR 0x8B, CHR 0xA4, CHR 0xED, CHR 0x8C, CHR 0xA8]"
definition label_folder :: string where
  "label_folder = [CHR 0xED, CHR 0x8F, CHR 0xB4, CHR 0xEB, CHR 0x8D, CHR 0x94, CHR 0x3A, CHR 0x20]"
definition label_title :: string where
  "label_title = [CHR 0xEB, CHR 0x8C, CHR 0x80, CHR 0xED, CHR 0x99, CHR 0x94, CHR 0x3A, CHR 0x20]"
definition text_failed :: string where
  "text_failed = [CHR 0xEB, CHR 0x82, CHR 0xB4, CHR 0xEC, CHR 0x9A, CHR 0xA9, CHR 0x3A, CHR 0x20, CHR 0xEC,
     CHR 0x9E, CHR 0x91, CHR 0xEC, CHR 0x97, CHR 0x85, CHR 0xEC, CHR 0x9D, CHR 0xB4, CHR 0x20,
     CHR 0xEC, CHR 0x8B, CHR 0xA4, CHR 0xED, CHR 0x8C, CHR 0xA8, CHR 0xED, CHR 0x95, CHR 0x98,
     CHR 0xEA, CHR 0xB1, CHR 0xB0, CHR 0xEB, CHR 0x82, CHR 0x98, CHR 0x20, CHR 0xEC, CHR 0xA4,
     CHR 0x91, CHR 0xEB, CHR 0x8B, CHR 0xA8, CHR 0xEB, CHR 0x90, CHR 0x98, CHR 0xEC, CHR 0x97,
     CHR 0x88, CHR 0xEC, CHR 0x8A, CHR 0xB5, CHR 0xEB, CHR 0x8B, CHR 0x88, CHR 0xEB, CHR 0x8B,
     CHR 0xA4, CHR 0x2E]"
definition label_summary :: string where
  "label_summary = [CHR 0xEC, CHR 0x9A, CHR 0x94, CHR 0xEC, CHR 0x95, CHR 0xBD, CHR 0x3A, CHR 0x20]"
definition text_done :: string where
  "text_done = [CHR 0xEC, CHR 0x9E, CHR 0x91, CHR 0xEC, CHR 0x97, CHR 0x85, CHR 0xEC, CHR 0x9D, CHR 0xB4,
     CHR 0x20, CHR 0xEC, CHR 0x99, CHR 0x84, CHR 0xEB, CHR 0xA3, CHR 0x8C, CHR 0xEB, CHR 0x90,
     CHR 0x98, CHR 0xEC, CHR 0x97, CHR 0x88, CHR 0xEC, CHR 0x8A, CHR 0xB5, CHR 0xEB, CHR 0x8B,
     CHR 0x88, CHR 0xEB, CHR 0x8B, CHR 0xA4, CHR 0x2E]"

lemmas fixed_texts = header_done_def header_failed_def label_folder_def label_title_def
  text_failed_def label_summary_def text_done_def

definition notifier_lines :: "snapshot \<Rightarrow> string list" where
  "notifier_lines sn =
     (let st = canonical_terminal_status (sn_turn_status sn);
          bad = (st = ''failed'' \<or> st = ''interrupted'');
          folder = clean_notifier_field (snd (project_name_from_cwd (th_cwd (sn_thread sn))));
          title = clean_notifier_field (th_title (sn_thread sn));
          lines = [if bad then header_failed else header_done, []] @
                  (if folder = [] then [] else [label_folder @ folder]) @
                  (if title = [] \<or> title = th_id (sn_thread sn) then [] else [label_title @ title]);
          summary = notifier_summary (sn_final_text sn)
      in lines @ (if 2 < length lines then [[]] else []) @
         [if bad then text_failed
          else if summary = [] then text_done else label_summary @ summary])"

definition render_notifier_terminal :: "snapshot \<Rightarrow> rendered_message" where
  "render_notifier_terminal sn =
     \<lparr>rm_text = join [CHR 0x0A] (notifier_lines sn), rm_entities = []\<rparr>"


section \<open>The length of a summary\<close>

lemma scalar_ellipsis: "of_runes [0x2026] = ellipsis"
  by (simp add: of_runes_def encode_rune_def scalar_def Let_def ellipsis_def char_of_eq_iff)

lemma runes_cut:
  "runes (of_runes (take k (runes t)) @ ellipsis) = take k (runes t) @ [0x2026]"
proof -
  have "list_all scalar (take k (runes t) @ [0x2026])"
    using scalar_runes [of t] by (auto simp: list_all_iff scalar_def dest: in_set_takeD)
  from runes_of_runes [OF this] show ?thesis
    unfolding scalar_ellipsis [symmetric] by (simp only: of_runes_simps(3))
qed

lemma truncate_length:
  assumes "0 < limit"
  shows "int (length (runes (truncate_notifier_runes t limit))) \<le> limit"
proof (cases "int (length (runes t)) \<le> limit")
  case True
  then show ?thesis by (simp add: truncate_notifier_runes_def Let_def)
next
  case False
  define cutoff where "cutoff = nat (limit - 1)"
  define ends where "ends = filter (\<lambda>i. 120 \<le> i \<and> sentence_ending (runes t ! i)) [0..<cutoff]"
  define k where "k = (if ends = [] then cutoff else Suc (last ends))"
  have "last ends < cutoff" if "ends \<noteq> []"
    using last_in_set [OF that] by (simp add: ends_def)
  then have k: "k \<le> cutoff" by (auto simp: k_def Suc_le_eq)
  have "truncate_notifier_runes t limit = of_runes (take k (runes t)) @ ellipsis"
    using False assms by (simp add: truncate_notifier_runes_def Let_def cutoff_def ends_def k_def)
  then have "length (runes (truncate_notifier_runes t limit)) \<le> Suc k"
    by (simp add: runes_cut)
  then show ?thesis using k assms by (simp add: cutoff_def)
qed

section \<open>No line breaks inside a field\<close>

lemma leading_newline: "leading_space (CHR 0x0A # s) \<noteq> None"
  by (auto simp: leading_space_def find_None_iff space_codes_def)

lemma fields_acc_no_newline:
  assumes "CHR 0x0A \<notin> set acc" "w \<in> set (fields_acc acc s)"
  shows "CHR 0x0A \<notin> set w"
  using assms
proof (induction acc s arbitrary: w rule: fields_acc.induct)
  case (1 acc s)
  show ?case
  proof (cases s)
    case Nil
    then show ?thesis using "1.prems" by (simp add: fields_acc.simps split: if_splits)
  next
    case (Cons c s')
    show ?thesis
    proof (cases "leading_space s")
      case None
      then have "c \<noteq> CHR 0x0A" using leading_newline [of s'] Cons by auto
      moreover have "fields_acc acc s = fields_acc (acc @ [c]) s'"
        using None Cons by (subst fields_acc.simps) simp
      ultimately show ?thesis
        using "1.IH"(1) [OF Cons None] "1.prems" by simp
    next
      case (Some p)
      have "fields_acc acc s = (if acc = [] then [] else [acc]) @ fields_acc [] (drop (length p) s)"
        using Some Cons by (subst fields_acc.simps) simp
      then show ?thesis
        using "1.IH"(2) [OF Cons Some] "1.prems" by (auto split: if_splits)
    qed
  qed
qed

lemma join_no_byte: "c \<notin> set sep \<Longrightarrow> \<forall>w\<in>set ws. c \<notin> set w \<Longrightarrow> c \<notin> set (join sep ws)"
  by (induction sep ws rule: join.induct) auto

lemma clean_field_one_line: "CHR 0x0A \<notin> set (clean_notifier_field s)"
  unfolding clean_notifier_field_def
  by (rule join_no_byte) (auto simp: Go_Strings.fields_def dest: fields_acc_no_newline [rotated])

lemma encode_rune_newline: "r \<noteq> 10 \<Longrightarrow> CHR 0x0A \<notin> set (encode_rune r)"
proof -
  assume r: "r \<noteq> 10"
  have eq: "CHR 0x0A = char_of n \<longleftrightarrow> n mod 256 = 10" for n :: nat
    unfolding eq_commute [of "CHR 0x0A"] char_of_eq_iff by (simp add: take_bit_eq_mod)
  show ?thesis using r
    by (auto simp: encode_rune_def Let_def rune_error_def eq scalar_def)
qed


lemma decode_rune_newline: "s \<noteq> [] \<Longrightarrow> fst (decode_rune s) = 10 \<Longrightarrow> hd s = CHR 0x0A"
proof -
  assume ne: "s \<noteq> []" and d: "fst (decode_rune s) = 10"
  have two: "(b0 - 0xC0) * 64 + (b1 - 0x80) \<noteq> 10" if "0xC2 \<le> b0" "b0 < 0xE0" "cont b1" for b0 b1 :: nat
  proof -
    have "2 * 64 \<le> (b0 - 0xC0) * 64" using that(1) by simp
    then show ?thesis by linarith
  qed
  have three: "(b0 - 0xE0) * 4096 + (b1 - 0x80) * 64 + (b2 - 0x80) \<noteq> 10"
    if "0xE0 \<le> b0" "cont b1" "cont b2" "b0 = 0xE0 \<longrightarrow> 0xA0 \<le> b1" for b0 b1 b2 :: nat
    using that by (cases "b0 = 0xE0") (simp_all add: cont_def)
  have four: "(b0 - 0xF0) * 262144 + (b1 - 0x80) * 4096 + (b2 - 0x80) * 64 + (b3 - 0x80) \<noteq> 10"
    if "0xF0 \<le> b0" "cont b1" "cont b2" "cont b3" "b0 = 0xF0 \<longrightarrow> 0x90 \<le> b1" for b0 b1 b2 b3 :: nat
    using that by (cases "b0 = 0xF0") (simp_all add: cont_def)
  have "byte_at s 0 = 10"
    using d unfolding decode_rune_def Let_def
    by (simp only: two three four rune_error_def fst_conv if_distrib [of fst] split: if_splits)
  then have "(of_char (hd s) :: nat) = 10" using ne by (simp add: byte_at_def hd_conv_nth)
  moreover have "(of_char (CHR 0x0A) :: nat) = 10" by simp
  ultimately have "(of_char (hd s) :: nat) = of_char (CHR 0x0A)" by simp
  then show ?thesis by (simp only: of_char_eq_iff)
qed

lemma runes_no_newline: "CHR 0x0A \<notin> set s \<Longrightarrow> 10 \<notin> set (runes s)"
proof (induction s rule: runes.induct)
  case (1 s)
  show ?case
  proof (cases "s = []")
    case False
    have "fst (decode_rune s) \<noteq> 10"
      using decode_rune_newline [OF False] "1.prems" False by (metis hd_in_set)
    moreover have "10 \<notin> set (runes (drop (snd (decode_rune s)) s))"
      using "1.IH" [OF False] "1.prems" by (metis in_set_dropD)
    ultimately show ?thesis using False by (subst runes.simps) simp
  qed simp
qed

lemma of_runes_no_newline: "10 \<notin> set rs \<Longrightarrow> CHR 0x0A \<notin> set (of_runes rs)"
  by (induction rs) (auto dest: encode_rune_newline)

lemma truncate_one_line: "CHR 0x0A \<notin> set t \<Longrightarrow> CHR 0x0A \<notin> set (truncate_notifier_runes t limit)"
proof -
  assume t: "CHR 0x0A \<notin> set t"
  have "CHR 0x0A \<notin> set (of_runes (take k (runes t)) @ ellipsis)" for k
    using runes_no_newline [OF t] of_runes_no_newline [of "take k (runes t)"]
    by (auto simp: ellipsis_def dest: in_set_takeD)
  then show ?thesis using t by (simp add: truncate_notifier_runes_def Let_def)
qed

lemma summary_one_line: "CHR 0x0A \<notin> set (notifier_summary t)"
  by (simp add: notifier_summary_def Let_def first_notifier_paragraph_def clean_field_one_line truncate_one_line)


lemma split_byte_append: "c \<notin> set w \<Longrightarrow> split_byte c (w @ c # s) = w # split_byte c s"
  by (induction w) auto

lemma split_byte_whole: "c \<notin> set w \<Longrightarrow> split_byte c w = [w]"
  by (induction w) auto

lemma split_join: "ws \<noteq> [] \<Longrightarrow> \<forall>w\<in>set ws. c \<notin> set w \<Longrightarrow> split_byte c (join [c] ws) = ws"
  by (induction "[c]" ws rule: join.induct) (auto simp: split_byte_append split_byte_whole)

lemma fixed_texts_one_line:
  "CHR 0x0A \<notin> set header_done" "CHR 0x0A \<notin> set header_failed" "CHR 0x0A \<notin> set label_folder"
  "CHR 0x0A \<notin> set label_title" "CHR 0x0A \<notin> set text_failed" "CHR 0x0A \<notin> set label_summary"
  "CHR 0x0A \<notin> set text_done"
  by (simp_all add: fixed_texts)

lemma notifier_lines_one_line: "\<forall>w\<in>set (notifier_lines sn). CHR 0x0A \<notin> set w"
  by (simp add: notifier_lines_def Let_def fixed_texts_one_line clean_field_one_line summary_one_line)

lemma notifier_lines_nonempty: "notifier_lines sn \<noteq> []"
  by (simp add: notifier_lines_def Let_def)

section \<open>Properties\<close>

text \<open>
  A summary has at most 300 runes, whatever the final answer holds (invalid UTF-8, fences,
  headings, one endless line), and it is one line of text.
\<close>
theorem notifier_summary_bounded:
  "length (runes (notifier_summary txt)) \<le> 300 \<and> CHR 0x0A \<notin> set (notifier_summary txt)"
proof
  show "CHR 0x0A \<notin> set (notifier_summary txt)" by (rule summary_one_line)
  show "length (runes (notifier_summary txt)) \<le> 300"
    using truncate_length [of summary_rune_limit "first_notifier_paragraph txt"]
    by (simp add: notifier_summary_def Let_def summary_rune_limit_def)
qed

text \<open>
  A notification has a fixed shape: splitting its text at line breaks gives back the lines it
  was made of, at most six, the first one the header for the turn's outcome and the second one
  empty, so nothing a title, a folder or a final answer contains can add or forge a line; and for a
  failed or interrupted turn the text does not depend on the final answer at all.
\<close>
theorem notification_shape:
  "split_byte (CHR 0x0A) (rm_text (render_notifier_terminal sn)) = notifier_lines sn \<and>
   length (notifier_lines sn) \<le> 6 \<and>
   take 2 (notifier_lines sn) =
     [if canonical_terminal_status (sn_turn_status sn) \<in> {''failed'', ''interrupted''}
      then header_failed else header_done, []] \<and>
   (canonical_terminal_status (sn_turn_status sn) \<in> {''failed'', ''interrupted''} \<longrightarrow>
    render_notifier_terminal (sn\<lparr>sn_final_text := x\<rparr>) = render_notifier_terminal sn)"
proof (intro conjI impI)
  show "split_byte (CHR 0x0A) (rm_text (render_notifier_terminal sn)) = notifier_lines sn"
    by (simp add: render_notifier_terminal_def split_join notifier_lines_one_line notifier_lines_nonempty)
qed (auto simp: notifier_lines_def render_notifier_terminal_def Let_def)

lemma notification_shape_witness:
  "render_notifier_terminal (empty_snapshot\<lparr>sn_turn_status := ''failed'', sn_final_text := ''secret''\<rparr>) =
   render_notifier_terminal (empty_snapshot\<lparr>sn_turn_status := ''failed''\<rparr>)"
proof -
  have "canonical_terminal_status ''failed'' = ''failed''"
    by (simp add: canonical_terminal_status_def trim_space_ascii ascii_mark_def lower_byte_def less_eq_char_def Let_def)
  then show ?thesis
    using notification_shape [of "empty_snapshot\<lparr>sn_turn_status := ''failed''\<rparr>" "''secret''"]
    by simp
qed

end
