(* ===== verification/Outbox_Claims.thy ===== *)
theory Outbox_Claims
  imports Outbox
begin

text \<open>
  What single operations of the outbox promise: a terminal event is stored at most once
  whatever happens in between, a claim takes what is due and nothing else, a failure for good
  ends its group, and a restart puts interrupted deliveries back in the queue.
\<close>

section \<open>Terminal events are stored once\<close>

lemma stored_event_key:
  assumes "enqueue_terminal_event_with_linked_release prot now event items release ob = (Inr True, ob')"
  shows "te_key event \<in> te_key ` set (ob_events ob')"
proof -
  have grow: "insert_group now xs a = Inr b \<Longrightarrow> ob_events b = ob_events a" for xs a b
    by (induction now xs a rule: insert_group.induct) (auto simp: append_row_def split: if_splits)
  from assms show ?thesis
  proof (cases rule: terminal_cases)
    case (stored protected ob1)
    then have "ob_events ob' = ob_events ob1"
      by (auto simp: apply_release_def split: option.splits if_splits)
    then show ?thesis using grow [OF stored(4)] by simp
  qed simp
qed

lemma known_event_unchanged:
  assumes "te_key event \<in> te_key ` set (ob_events ob)"
  shows "snd (enqueue_terminal_event_with_linked_release prot now event items release ob) = ob \<and>
    fst (enqueue_terminal_event_with_linked_release prot now event items release ob) \<noteq> Inr True"
proof -
  obtain res ob' where res: "enqueue_terminal_event_with_linked_release prot now event items release ob = (res, ob')"
    by (rule prod.exhaust)
  from res show ?thesis
    by (cases rule: terminal_cases) (use assms res in auto)
qed

text \<open>
  C3: A terminal event is accepted once. After an event was stored, through any further
  transactions of the outbox (claims, completions, failures, restarts, other events), storing
  an event with the same key again is refused and changes nothing: no second row, no second
  group of deliveries, no release of a linked thread.
\<close>
theorem terminal_event_once:
  assumes "enqueue_terminal_event_with_linked_release (Some p) now event items release ob = (Inr True, ob1)"
    and "outbox_reaches p ob1 ob2" and "te_key event' = te_key event"
  shows "snd (enqueue_terminal_event_with_linked_release (Some p) now' event' items' release' ob2) = ob2 \<and>
    fst (enqueue_terminal_event_with_linked_release (Some p) now' event' items' release' ob2) \<noteq> Inr True"
proof -
  have "te_key event' \<in> te_key ` set (ob_events ob2)"
    using stored_event_key [OF assms(1)] event_keys_reach [OF assms(2)] assms(3) by auto
  then show ?thesis by (rule known_event_unchanged)
qed

lemma terminal_event_once_witness:
  "snd (enqueue_terminal_event_with_linked_release (Some demo_protector) 7 demo_event
     [demo_item ''c'' 1] None demo_claimed) = demo_claimed"
proof -
  have first: "enqueue_terminal_event_with_linked_release (Some demo_protector) 0 demo_event
      [demo_item ''a'' 1, demo_item ''b'' 2] None empty_outbox = (Inr True, demo_enqueued)"
  proof -
    have "fst (enqueue_terminal_event_with_linked_release (Some demo_protector) 0 demo_event
        [demo_item ''a'' 1, demo_item ''b'' 2] None empty_outbox) = Inr True"
      by code_simp
    then show ?thesis by (simp add: demo_enqueued_def prod_eq_iff)
  qed
  have "outbox_reaches demo_protector demo_enqueued demo_claimed"
    unfolding demo_claimed_def by (rule r_into_rtranclp) (rule outbox_step.claim)
  then show ?thesis
    using terminal_event_once [OF first, of demo_claimed demo_event 7 "[demo_item ''c'' 1]" None]
    by simp
qed

section \<open>Claiming\<close>

lemma claimed_ids:
  assumes "outbox_ok ob" "r \<in> set (ob_queue ob)" "dq_id r \<in> set (map dq_id (claimed_rows now limit (ob_queue ob)))"
  shows "r \<in> set (claimed_rows now limit (ob_queue ob))"
proof -
  obtain r' where r': "r' \<in> set (claimed_rows now limit (ob_queue ob))" "dq_id r' = dq_id r"
    using assms(3) by (metis (no_types, lifting) imageE set_map)
  moreover have "r' \<in> set (ob_queue ob)" using claimed_rows_claimable r'(1) by blast
  moreover have "keys_ok ob" using assms(1) by (simp add: outbox_ok_def)
  ultimately have "r' = r" using keys_ok_id assms(2) by blast
  then show ?thesis using r'(1) by simp
qed

lemma claim_status:
  assumes "claim_delivery_batch prot now limit ob = (Inr items, ob')"
  shows "ob_queue ob' = map (\<lambda>r. if dq_id r \<in> set (map qi_id items) then set_status Processing r else r)
    (ob_queue ob)"
  using claim_result(2) [OF assms] by (simp add: update_rows_def)

text \<open>
  A claim takes at most the limit (ten when none is given), each row once; every row it takes
  was waiting, has all earlier rows of its group delivered and becomes available less than one
  second after now; when it takes fewer than the limit it has taken every row that was eligible
  and became available at least one second before now; the rows it takes are in flight
  afterwards and no other row changes.
\<close>
theorem claim_takes_due:
  assumes "outbox_ok ob" and "claim_delivery_batch prot now limit ob = (Inr items, ob')"
  shows "length items \<le> claim_limit limit \<and> distinct (map qi_id items) \<and>
    (\<forall>r\<in>set (ob_queue ob). dq_id r \<in> set (map qi_id items) \<longrightarrow>
       dq_status r \<in> {Pending, Retry} \<and> dq_available_at r < now + second \<and>
       (\<forall>e\<in>set (ob_queue ob). dq_group_id r \<noteq> None \<and> dq_group_id e = dq_group_id r \<and>
          dq_sequence_no e < dq_sequence_no r \<longrightarrow> dq_status e = Delivered)) \<and>
    (length items < claim_limit limit \<longrightarrow>
       (\<forall>r\<in>set (ob_queue ob). dq_status r \<in> {Pending, Retry} \<and> dq_available_at r + second \<le> now \<and>
          (dq_group_id r = None \<or> \<not> earlier_open (ob_queue ob) r) \<longrightarrow> dq_id r \<in> set (map qi_id items))) \<and>
    ob_queue ob' = map (\<lambda>r. if dq_id r \<in> set (map qi_id items) then set_status Processing r else r)
      (ob_queue ob)"
proof -
  let ?rows = "claimed_rows now limit (ob_queue ob)"
  have ids: "map qi_id items = map dq_id ?rows" by (rule claim_result(1) [OF assms(2)])
  then have len: "length items = length ?rows" by (metis length_map)
  have dist: "distinct (map dq_id (ob_queue ob))"
    using assms(1) by (simp add: outbox_ok_def keys_ok_def strict_sorted_iff)
  have "distinct (map dq_id (sort_key dq_id (filter (claimable now (ob_queue ob)) (ob_queue ob))))"
    using dist by (auto simp: distinct_map inj_on_def)
  then have "distinct (map dq_id ?rows)"
    by (simp add: claimed_rows_def take_map [symmetric] distinct_take)
  moreover have "dq_status r \<in> {Pending, Retry} \<and> dq_available_at r < now + second \<and>
       (\<forall>e\<in>set (ob_queue ob). dq_group_id r \<noteq> None \<and> dq_group_id e = dq_group_id r \<and>
          dq_sequence_no e < dq_sequence_no r \<longrightarrow> dq_status e = Delivered)"
    if r: "r \<in> set (ob_queue ob)" "dq_id r \<in> set (map dq_id ?rows)" for r
  proof -
    have "claimable now (ob_queue ob) r"
      using claimed_ids [OF assms(1) r] claimed_rows_claimable by blast
    then show ?thesis
      using stamp_le_late [of "dq_available_at r" now]
      by (auto simp: claimable_def earlier_open_def list_ex_iff)
  qed
  moreover have "dq_id r \<in> set (map dq_id ?rows)"
    if "length ?rows < claim_limit limit" "r \<in> set (ob_queue ob)" "dq_status r \<in> {Pending, Retry}"
      "dq_available_at r + second \<le> now" "dq_group_id r = None \<or> \<not> earlier_open (ob_queue ob) r" for r
  proof -
    have "claimable now (ob_queue ob) r"
      using that stamp_le_due unfolding claimable_def by blast
    then show ?thesis using claimed_rows_all [OF that(1,2)] by simp
  qed
  ultimately show ?thesis
    using claimed_rows_length [of now limit "ob_queue ob"] claim_status [OF assms(2)]
    unfolding ids len by blast
qed

lemma claim_takes_due_witness:
  "ob_queue demo_claimed =
   map (\<lambda>r. if dq_id r = 1 then set_status Processing r else r) (ob_queue demo_enqueued)"
proof -
  let ?items = "projr (fst (claim_delivery_batch (Some demo_protector) 0 10 demo_enqueued))"
  have ok: "outbox_ok demo_enqueued"
    using outbox_reaches_ok [OF demo_reaches(1) empty_outbox_ok] .
  have "claim_delivery_batch (Some demo_protector) 0 10 demo_enqueued = (Inr ?items, demo_claimed)"
  proof -
    have "isl (fst (claim_delivery_batch (Some demo_protector) 0 10 demo_enqueued)) = False"
      by code_simp
    then show ?thesis by (simp add: demo_claimed_def prod_eq_iff sum.collapse(2))
  qed
  from claim_takes_due [OF ok this]
  have "ob_queue demo_claimed = map (\<lambda>r. if dq_id r \<in> set (map qi_id ?items)
      then set_status Processing r else r) (ob_queue demo_enqueued)" by blast
  moreover have "map qi_id ?items = [1]" by code_simp
  ultimately show ?thesis by simp
qed

text \<open>
  The comparison of timestamps as text is not the comparison of instants: a delivery that becomes
  available on a whole second is not claimed at any later instant of that second.
\<close>

lemma due_check_not_chronological:
  assumes "dq_available_at r mod second = 0" "0 < f" "f < second"
  shows "\<not> claimable (dq_available_at r + f) q r"
proof -
  let ?t = "dq_available_at r"
  have "(?t + f) mod second = f" using assms by (metis add_0 mod_add_left_eq mod_pos_pos_trivial order_less_imp_le)
  moreover have "(?t + f) div second = ?t div second"
    using assms by (simp add: div_add1_eq)
  ultimately show ?thesis
    using assms by (simp add: claimable_def stamp_le_def stamp_fraction_def Let_def less_char_def)
qed

section \<open>Restart\<close>

text \<open>
  After a restart nothing is stuck in flight and nothing is lost: every row that still had to
  be sent is still in the queue and claimable again, with the same identity and its payload
  protected or unchanged; the exception is an approval request that was being sent, which is dead
  rather than sent twice. Finished rows keep their status.
\<close>
theorem restart_requeues:
  assumes "outbox_ok ob" "migrate_protected_delivery_payloads p ob = (Inr (), ob')"
  shows "list_all2 (\<lambda>r r'. ident r' = ident r \<and>
      (if \<not> live (dq_status r) then dq_status r' = dq_status r
       else if dq_kind r = minimal_approval_kind \<and> dq_status r = Processing then dq_status r' = Dead
       else dq_status r' = (if dq_status r = Processing then Retry else dq_status r) \<and>
            (dq_payload r' = dq_payload r \<or>
             (\<exists>x. dq_payload r = Some x \<and> \<not> has_prefix x protected_prefix \<and> dq_payload r' = protect p x))))
    (ob_queue ob) (ob_queue ob')"
    (is "list_all2 ?Q _ _")
proof -
  from assms(2) have "map_result (migrate_row p) (ob_queue ob) = Inr (ob_queue ob')"
    by (auto simp: migrate_protected_delivery_payloads_def split: sum.splits)
  then have all: "list_all2 (\<lambda>r r'. migrate_row p r = Inr r') (ob_queue ob) (ob_queue ob')"
    by (simp add: map_result_all2)
  have "?Q r r'" if r: "r \<in> set (ob_queue ob)" and m: "migrate_row p r = Inr r'" for r r'
  proof (cases "live (dq_status r)")
    case False
    then have "r' = drop_payload r" using m by (simp add: migrate_row_def)
    then show ?thesis using False by simp
  next
    case True
    have pay: "payload_ok (ob_queue ob)" using assms(1) by (simp add: outbox_ok_def)
    then obtain x where x: "dq_payload r = Some x"
      using r True by (cases "dq_payload r") (auto simp: payload_ok_def)
    show ?thesis
    proof (cases "dq_kind r = minimal_approval_kind \<and> dq_status r = Processing")
      case app: True
      then have "r' = drop_payload (drop_payload (set_status Dead r))"
        using m True x by (simp add: migrate_row_def migrate_live_row_def)
      then show ?thesis using app True by simp
    next
      case app: False
      define st where "st = (if dq_status r = Processing then Retry else dq_status r)"
      have lst: "live st" using True by (simp add: st_def)
      have row: "migrate_live_row p r =
        (if has_prefix x protected_prefix
         then (if unprotect p x = None then Inl ErrUnprotect else Inr (set_status st r))
         else (case protect p x of None \<Rightarrow> Inl ErrProtect
               | Some v \<Rightarrow> Inr (set_status st (r\<lparr>dq_payload := Some v\<rparr>))))"
        using app by (simp only: migrate_live_row_def x option.case Let_def st_def if_False)
      have same: "ident (r\<lparr>dq_payload := Some v\<rparr>) = ident r" for v by (simp add: ident_eq)
      show ?thesis
      proof (cases "has_prefix x protected_prefix")
        case True
        then have "r' = set_status st r"
          using m row lst \<open>live (dq_status r)\<close> by (auto simp: migrate_row_def split: if_splits)
        then show ?thesis using app by (simp add: st_def)
      next
        case False
        then obtain v where "protect p x = Some v" "r' = set_status st (r\<lparr>dq_payload := Some v\<rparr>)"
          using m row lst \<open>live (dq_status r)\<close>
          by (cases "protect p x") (auto simp: migrate_row_def split: if_splits)
        then show ?thesis using app False x by (simp add: st_def same)
      qed
    qed
  qed
  then show ?thesis by (rule list.rel_mono_strong [OF all])
qed

lemma restart_requeues_witness:
  "map dq_status (ob_queue (snd (migrate_protected_delivery_payloads demo_protector demo_claimed))) =
   [Retry, Pending]"
proof -
  have ok: "outbox_ok demo_claimed"
    using outbox_reaches_ok [OF demo_reaches(2) empty_outbox_ok] .
  have "migrate_protected_delivery_payloads demo_protector demo_claimed =
      (Inr (), snd (migrate_protected_delivery_payloads demo_protector demo_claimed))"
  proof -
    have "isl (fst (migrate_protected_delivery_payloads demo_protector demo_claimed)) = False"
      by code_simp
    then show ?thesis
      by (cases "fst (migrate_protected_delivery_payloads demo_protector demo_claimed)")
        (simp_all add: prod_eq_iff)
  qed
  from restart_requeues [OF ok this]
  show ?thesis
  proof -
    assume all: "list_all2 (\<lambda>r r'. ident r' = ident r \<and>
      (if \<not> live (dq_status r) then dq_status r' = dq_status r
       else if dq_kind r = minimal_approval_kind \<and> dq_status r = Processing then dq_status r' = Dead
       else dq_status r' = (if dq_status r = Processing then Retry else dq_status r) \<and>
            (dq_payload r' = dq_payload r \<or>
             (\<exists>x. dq_payload r = Some x \<and> \<not> has_prefix x protected_prefix \<and> dq_payload r' = protect demo_protector x))))
      (ob_queue demo_claimed) (ob_queue (snd (migrate_protected_delivery_payloads demo_protector demo_claimed)))"
    obtain a b where q: "ob_queue demo_claimed = [a, b]" "dq_status a = Processing" "dq_status b = Pending"
      "dq_kind a \<noteq> minimal_approval_kind"
    proof -
      have "map dq_status (ob_queue demo_claimed) = [Processing, Pending]"
        "map (\<lambda>r. dq_kind r = minimal_approval_kind) (ob_queue demo_claimed) = [False, False]"
        by code_simp+
      then show thesis using that by (auto simp: map_eq_Cons_conv)
    qed
    show ?thesis using all q by (auto simp: list_all2_Cons1)
  qed
qed

end
