(* ===== verification/Sha256.thy ===== *)
theory Sha256
  imports Fingerprint
begin

text \<open>
  SHA-256 (\<^verbatim>\<open>crypto/sha256\<close>) over 32-bit words, as FIPS 180 gives it. The code uses it
  to name error messages and requests without storing their text.
\<close>

unbundle bit_operations_syntax

definition sha256_k :: "u32 list" where
  "sha256_k = [
    1116352408, 1899447441, 3049323471, 3921009573, 961987163, 1508970993, 2453635748, 2870763221,
    3624381080, 310598401, 607225278, 1426881987, 1925078388, 2162078206, 2614888103, 3248222580,
    3835390401, 4022224774, 264347078, 604807628, 770255983, 1249150122, 1555081692, 1996064986,
    2554220882, 2821834349, 2952996808, 3210313671, 3336571891, 3584528711, 113926993, 338241895,
    666307205, 773529912, 1294757372, 1396182291, 1695183700, 1986661051, 2177026350, 2456956037,
    2730485921, 2820302411, 3259730800, 3345764771, 3516065817, 3600352804, 4094571909, 275423344,
    430227734, 506948616, 659060556, 883997877, 958139571, 1322822218, 1537002063, 1747873779,
    1955562222, 2024104815, 2227730452, 2361852424, 2428436474, 2756734187, 3204031479, 3329325298]"

definition small_sigma0 :: "u32 \<Rightarrow> u32" where
  "small_sigma0 x = word_rotr 7 x XOR word_rotr 18 x XOR drop_bit 3 x"
definition small_sigma1 :: "u32 \<Rightarrow> u32" where
  "small_sigma1 x = word_rotr 17 x XOR word_rotr 19 x XOR drop_bit 10 x"
definition big_sigma0 :: "u32 \<Rightarrow> u32" where
  "big_sigma0 x = word_rotr 2 x XOR word_rotr 13 x XOR word_rotr 22 x"
definition big_sigma1 :: "u32 \<Rightarrow> u32" where
  "big_sigma1 x = word_rotr 6 x XOR word_rotr 11 x XOR word_rotr 25 x"

fun sha256_extend :: "nat \<Rightarrow> u32 list \<Rightarrow> u32 list" where
  "sha256_extend 0 w = w"
| "sha256_extend (Suc n) w =
     (let t = length w
      in sha256_extend n
           (w @ [small_sigma1 (w ! (t - 2)) + w ! (t - 7) + small_sigma0 (w ! (t - 15)) + w ! (t - 16)]))"

text \<open>The eight working variables are a list.\<close>

definition sha256_round :: "u32 list \<Rightarrow> u32 \<times> u32 \<Rightarrow> u32 list" where
  "sha256_round v kw =
     (let e = v ! 4; a = v ! 0;
          t1 = v ! 7 + big_sigma1 e + ((e AND v ! 5) XOR (NOT e AND v ! 6)) + fst kw + snd kw;
          t2 = big_sigma0 a + ((a AND v ! 1) XOR (a AND v ! 2) XOR (v ! 1 AND v ! 2))
      in [t1 + t2, v ! 0, v ! 1, v ! 2, v ! 3 + t1, v ! 4, v ! 5, v ! 6])"

definition sha256_block :: "u32 list \<Rightarrow> string \<Rightarrow> u32 list" where
  "sha256_block h blk =
     (let w = sha256_extend 48 (map be_word (chunks 16 4 blk))
      in map2 (+) h (foldl sha256_round h (zip sha256_k w)))"

definition sha256_init :: "u32 list" where
  "sha256_init = [1779033703, 3144134277, 1013904242, 2773480762,
                  1359893119, 2600822924, 528734635, 1541459225]"

definition sha256 :: "string \<Rightarrow> string" where
  "sha256 m =
     (let p = sha_pad m;
          h = foldl sha256_block sha256_init (chunks (length p div 64) 64 p)
      in concat (map (\<lambda>w. be_bytes 4 (unat w)) h))"

lemma length_sha256_round: "length (sha256_round v kw) = 8"
  by (simp add: sha256_round_def Let_def)

lemma length_sha256_rounds: "length v = 8 \<Longrightarrow> length (foldl sha256_round v xs) = 8"
  by (induction xs arbitrary: v) (simp_all add: length_sha256_round)

lemma length_sha256_blocks: "length h = 8 \<Longrightarrow> length (foldl sha256_block h bs) = 8"
  by (induction bs arbitrary: h) (simp_all add: sha256_block_def Let_def length_sha256_rounds)

lemma length_concat_words: "length (concat (map (\<lambda>w. be_bytes 4 (f w)) ws)) = 4 * length ws"
  by (induction ws) simp_all

lemma length_sha256 [simp]: "length (sha256 m) = 32"
  by (simp add: sha256_def Let_def length_concat_words length_sha256_blocks sha256_init_def)

end
