(* ===== verification/Delivery_Worker.thy ===== *)
theory Delivery_Worker
  imports Outbox_Claims Sha256
begin

text \<open>
  The delivery worker: \<^verbatim>\<open>processDeliveryBatch\<close> and \<^verbatim>\<open>deliveryErrorSummary\<close> of
  \<^verbatim>\<open>internal/daemon/service.go\<close>. Telegram and the outcome of a commit are the
  environment: functions that read and change a world of any type. What JSON decoding makes of a
  payload is a parameter too, and so is the handling of the approval kinds, which have their
  own code. The results hold for every such environment.

  What the worker does to one claimed delivery meets the contract \<^verbatim>\<open>claim_ledger\<close>; the locale
  lifts it to the batch.
\<close>

text \<open>
  The environment: the two send operations with their result and error, and whether the commit
  of a completed delivery fails.
\<close>

record 'w sender =
  send_rendered_messages ::
    "int \<Rightarrow> int \<Rightarrow> rendered_message list \<Rightarrow> button_spec list list \<Rightarrow> 'w \<Rightarrow> (int list \<times> string option) \<times> 'w"
  send_message ::
    "int \<Rightarrow> int \<Rightarrow> string \<Rightarrow> button_spec list list \<Rightarrow> 'w \<Rightarrow> (int \<times> string option) \<times> 'w"
  commit_error :: "nat \<Rightarrow> 'w \<Rightarrow> string option \<times> 'w"

record delivery_config =
  cfg_retry_base :: duration
  cfg_max_attempts :: int

record 'w worker =
  wk_outbox :: outbox
  wk_world :: 'w
  wk_errors :: "string list"

definition delivery_error_summary :: "string \<Rightarrow> string option \<Rightarrow> string" where
  "delivery_error_summary status err =
     (case err of
        None \<Rightarrow> []
      | Some message \<Rightarrow>
          (let st = (if status \<in> {''decode_error'', ''send_error'', ''persist_error''} then status
                     else ''delivery_error'')
           in ''class=telegram_delivery status='' @ st @ '' length='' @ itoa (int (length message)) @
              '' sha256='' @ hex_string (take 6 (sha256 message))))"

definition backoff :: "delivery_config \<Rightarrow> int \<Rightarrow> duration" where
  "backoff cfg attempt = cfg_retry_base cfg * 2 ^ nat (min (attempt - 1) 4)"

text \<open>A failed attempt is recorded, and the delivery is retried later or given up.\<close>

definition fail_attempt ::
  "protector \<Rightarrow> instant \<Rightarrow> delivery_item \<Rightarrow> string \<Rightarrow> string \<Rightarrow> duration \<Rightarrow> bool \<Rightarrow> 'w worker \<Rightarrow> 'w worker" where
  "fail_attempt p now item status message wait dead wk =
     (let summary = delivery_error_summary status (Some message);
          attempt = qi_retry_count item + 1
      in wk\<lparr>wk_outbox := snd (fail_delivery (Some p) (qi_id item) attempt (now + wait) summary dead
              (record_delivery_attempt (qi_id item) attempt status summary (wk_outbox wk))),
            wk_errors := wk_errors wk @ [summary]\<rparr>)"

definition fail_or_retry ::
  "protector \<Rightarrow> delivery_config \<Rightarrow> instant \<Rightarrow> delivery_item \<Rightarrow> string \<Rightarrow> string \<Rightarrow> 'w worker \<Rightarrow> 'w worker" where
  "fail_or_retry p cfg now item status message wk =
     (let attempt = qi_retry_count item + 1
      in fail_attempt p now item status message (backoff cfg attempt)
           (cfg_max_attempts cfg \<le> attempt) wk)"

definition send_payload ::
  "'w sender \<Rightarrow> delivery_item \<Rightarrow> delivery_payload \<Rightarrow> 'w \<Rightarrow> (int \<times> string option) \<times> 'w" where
  "send_payload s item payload w =
     (let ((message_id, err), w') =
        (case dp_rendered payload of
           Some m \<Rightarrow>
             (let ((ids, err), w1) =
                send_rendered_messages s (qi_chat_id item) (qi_topic_id item) [m] (dp_buttons payload) w
              in ((if length ids = 1 then hd ids else 0, err), w1))
         | None \<Rightarrow> send_message s (qi_chat_id item) (qi_topic_id item) (dp_text payload) (dp_buttons payload) w)
      in ((message_id,
           if err = None \<and> message_id \<le> 0 then Some ''telegram delivery returned no message id'' else err),
          w'))"

definition route_of :: "delivery_item \<Rightarrow> delivery_payload \<Rightarrow> int \<Rightarrow> instant \<Rightarrow> message_route option" where
  "route_of item payload message_id now =
     (if dp_thread_id payload = [] then None
      else Some \<lparr>rt_chat_id = qi_chat_id item, rt_topic_id = qi_topic_id item,
                 rt_message_id = message_id, rt_thread_id = dp_thread_id payload,
                 rt_turn_id = dp_turn_id payload, rt_item_id = dp_item_id payload,
                 rt_event_id = dp_event_id payload, rt_created_at = now\<rparr>)"

definition approval_kinds :: "string list" where
  "approval_kinds = [''minimal_approval'', ''minimal_approval_pc_cleanup'',
     ''minimal_approval_inactive_edit'']"

definition deliver_item ::
  "'w sender \<Rightarrow> (string \<Rightarrow> string + delivery_payload) \<Rightarrow> protector \<Rightarrow> delivery_config \<Rightarrow> instant \<Rightarrow>
   delivery_item \<Rightarrow> 'w worker \<Rightarrow> 'w worker" where
  "deliver_item s decode p cfg now item wk =
     (case decode (qi_payload item) of
        Inl message \<Rightarrow> fail_attempt p now item ''decode_error'' message (cfg_retry_base cfg) True wk
      | Inr payload \<Rightarrow>
          (let ((message_id, err), w) = send_payload s item payload (wk_world wk);
               wk1 = wk\<lparr>wk_world := w\<rparr>
           in case err of
                Some message \<Rightarrow> fail_or_retry p cfg now item ''send_error'' message wk1
              | None \<Rightarrow>
                  (let (cerr, w2) = commit_error s (qi_id item) w;
                       wk2 = wk1\<lparr>wk_world := w2\<rparr>
                   in case cerr of
                        Some message \<Rightarrow> fail_or_retry p cfg now item ''persist_error'' message wk2
                      | None \<Rightarrow>
                          wk2\<lparr>wk_outbox := record_delivery_attempt (qi_id item) (qi_retry_count item + 1)
                                 ''delivered'' []
                                 (complete_delivery (Some p) (route_of item payload message_id now)
                                    (qi_id item) (wk_outbox wk2))\<rparr>)))"

definition process_item ::
  "'w sender \<Rightarrow> (string \<Rightarrow> string + delivery_payload) \<Rightarrow> (delivery_item \<Rightarrow> 'w worker \<Rightarrow> 'w worker) \<Rightarrow>
   protector \<Rightarrow> delivery_config \<Rightarrow> instant \<Rightarrow> delivery_item \<Rightarrow> 'w worker \<Rightarrow> 'w worker" where
  "process_item s decode approval p cfg now item wk =
     (if qi_kind item \<in> set approval_kinds then approval item wk
      else deliver_item s decode p cfg now item wk)"

definition process_delivery_batch ::
  "'w sender option \<Rightarrow> (string \<Rightarrow> string + delivery_payload) \<Rightarrow> (delivery_item \<Rightarrow> 'w worker \<Rightarrow> 'w worker) \<Rightarrow>
   protector \<Rightarrow> delivery_config \<Rightarrow> instant \<Rightarrow> 'w worker \<Rightarrow> 'w worker" where
  "process_delivery_batch sender decode approval p cfg now wk =
     (case sender of
        None \<Rightarrow> wk
      | Some s \<Rightarrow>
          (case claim_delivery_batch (Some p) now 10 (wk_outbox wk) of
             (Inl e, ob) \<Rightarrow> wk\<lparr>wk_outbox := ob\<rparr>
           | (Inr items, ob) \<Rightarrow>
               fold (process_item s decode approval p cfg now) items (wk\<lparr>wk_outbox := ob\<rparr>)))"

section \<open>The contract of one delivery\<close>

locale claim_ledger =
  fixes pending :: "'s \<Rightarrow> nat set" and ok :: "'s \<Rightarrow> bool" and fits :: "'i \<Rightarrow> bool"
    and key :: "'i \<Rightarrow> nat" and settle_item :: "'i \<Rightarrow> 's \<Rightarrow> 's"
  assumes settle_one:
    "ok s \<Longrightarrow> fits i \<Longrightarrow> key i \<in> pending s \<Longrightarrow>
     ok (settle_item i s) \<and> pending (settle_item i s) = pending s - {key i}"
begin

lemma settle_all:
  assumes "ok s" "\<forall>i\<in>set xs. fits i" "distinct (map key xs)" "key ` set xs \<subseteq> pending s"
  shows "ok (fold settle_item xs s) \<and> pending (fold settle_item xs s) = pending s - key ` set xs"
  using assms
proof (induction xs arbitrary: s)
  case (Cons x xs)
  have one: "ok (settle_item x s)" "pending (settle_item x s) = pending s - {key x}"
    using settle_one [of s x] Cons.prems by auto
  have "key ` set xs \<subseteq> pending (settle_item x s)"
  proof -
    have "key x \<notin> key ` set xs" using Cons.prems(3) by simp
    moreover have "key ` set xs \<subseteq> pending s" using Cons.prems(4) by simp
    ultimately show ?thesis unfolding one(2) by blast
  qed
  then have "ok (fold settle_item xs (settle_item x s)) \<and>
      pending (fold settle_item xs (settle_item x s)) = pending s - {key x} - key ` set xs"
    using Cons.IH [of "settle_item x s"] Cons.prems(2,3) one by simp
  then show ?case by auto
qed simp

lemma settle_everything:
  assumes "ok s" "\<forall>i\<in>set xs. fits i" "distinct (map key xs)" "key ` set xs = pending s"
  shows "pending (fold settle_item xs s) = {}"
  using settle_all [OF assms(1,2,3)] assms(4) by auto

end


section \<open>The worker meets it\<close>

lemma in_flight_map:
  assumes "\<And>r. r \<in> set q \<Longrightarrow> dq_id (h r) = dq_id r"
    "\<And>r. r \<in> set q \<Longrightarrow> dq_status (h r) = Processing \<longleftrightarrow> dq_status r = Processing \<and> dq_id r \<noteq> i"
  shows "{dq_id r |r. r \<in> set (map h q) \<and> dq_status r = Processing} =
    {dq_id r |r. r \<in> set q \<and> dq_status r = Processing} - {i}"
  using assms by (auto simp: image_iff) (metis assms(1))

lemma in_flight_complete:
  "in_flight (complete_delivery (Some p) route i ob) = in_flight ob - {i}"
proof -
  have "ob_queue (complete_delivery (Some p) route i ob) =
      map (\<lambda>r. if dq_id r = i then drop_payload (set_status Delivered r) else r) (ob_queue ob)"
    by (simp add: complete_delivery_def update_rows_def)
  then show ?thesis unfolding in_flight_def by (simp only:) (rule in_flight_map, auto)
qed

lemma in_flight_retry:
  "in_flight (snd (fail_delivery (Some p) i n t err False ob)) = in_flight ob - {i}"
proof -
  have "ob_queue (snd (fail_delivery (Some p) i n t err False ob)) =
      map (\<lambda>r. if dq_id r = i then failed_row Retry n t err r else r) (ob_queue ob)"
    by (simp add: fail_delivery_def update_rows_def)
  then show ?thesis unfolding in_flight_def by (simp only:) (rule in_flight_map, auto)
qed

text \<open>Giving a delivery up takes nothing else out of flight: its group has no other row there.\<close>

lemma in_flight_dead:
  assumes ok: "outbox_ok ob" and fl: "i \<in> in_flight ob"
  shows "in_flight (snd (fail_delivery (Some p) i n t err True ob)) = in_flight ob - {i}"
proof -
  obtain r0 where r0: "r0 \<in> set (ob_queue ob)" "dq_id r0 = i" "dq_status r0 = Processing"
    and uniq: "\<And>r. r \<in> set (ob_queue ob) \<Longrightarrow> dq_id r = i \<longleftrightarrow> r = r0"
    and around: "\<And>e g. e \<in> set (ob_queue ob) \<Longrightarrow> dq_group_id r0 = Some g \<Longrightarrow> dq_group_id e = Some g \<Longrightarrow>
       (dq_sequence_no e < dq_sequence_no r0 \<longrightarrow> dq_status e = Delivered) \<and>
       (dq_sequence_no r0 < dq_sequence_no e \<longrightarrow> \<not> started (dq_status e)) \<and>
       (trim_space g \<noteq> [] \<longrightarrow> dq_status e \<noteq> Dead)"
    by (rule in_flight_row [OF ok fl]) (rule that)
  have keys: "keys_ok ob" using ok by (simp add: outbox_ok_def)
  have alone: "r = r0" if r: "r \<in> set (ob_queue ob)" and p: "dq_status r = Processing"
      and g: "dq_group_id r0 = Some g" "dq_group_id r = Some g" for r g
  proof -
    have "dq_sequence_no r = dq_sequence_no r0"
      using around [OF r g] p by (cases "dq_sequence_no r" "dq_sequence_no r0" rule: linorder_cases) auto
    then have "dq_id r = dq_id r0"
      using keys r r0(1) g unfolding keys_ok_def by (metis option.discI)
    then show ?thesis using uniq [OF r] r0(2) by simp
  qed
  define h where "h r = (let r1 = (if dq_id r = i then drop_payload (failed_row Dead n t err r) else r)
      in if (\<exists>g. dq_group_id r0 = Some g \<and> trim_space g \<noteq> []) \<and>
            dq_group_id r = dq_group_id r0 \<and> dq_status r1 \<noteq> Delivered
         then drop_payload (set_status Dead r1) else r1)" for r
  have q: "ob_queue (snd (fail_delivery (Some p) i n t err True ob)) = map h (ob_queue ob)"
    by (simp add: fail_dead_result [OF ok r0(1,2) uniq] h_def)
  show ?thesis
    unfolding in_flight_def q
  proof (rule in_flight_map)
    fix r assume r: "r \<in> set (ob_queue ob)"
    show "dq_id (h r) = dq_id r" by (simp add: h_def Let_def)
    show "dq_status (h r) = Processing \<longleftrightarrow> dq_status r = Processing \<and> dq_id r \<noteq> i"
      using alone [OF r] uniq [OF r] by (auto simp: h_def Let_def)
  qed
qed

lemma in_flight_attempt [simp]: "in_flight (record_delivery_attempt i n st err ob) = in_flight ob"
  by (simp add: in_flight_def record_delivery_attempt_def)

definition worker_ok :: "'w worker \<Rightarrow> bool" where
  "worker_ok wk \<longleftrightarrow> outbox_ok (wk_outbox wk)"

definition worker_pending :: "'w worker \<Rightarrow> nat set" where
  "worker_pending wk = in_flight (wk_outbox wk)"

definition plain_item :: "delivery_item \<Rightarrow> bool" where
  "plain_item item \<longleftrightarrow> qi_kind item \<notin> set approval_kinds"

lemma fail_attempt_settles:
  assumes "worker_ok wk" "qi_id item \<in> worker_pending wk"
  shows "worker_ok (fail_attempt p now item st msg wait dead wk) \<and>
    worker_pending (fail_attempt p now item st msg wait dead wk) = worker_pending wk - {qi_id item}"
proof -
  let ?ob = "record_delivery_attempt (qi_id item) (qi_retry_count item + 1) st
      (delivery_error_summary st (Some msg)) (wk_outbox wk)"
  have "outbox_ok ?ob" "qi_id item \<in> in_flight ?ob"
    using assms by (simp_all add: worker_ok_def worker_pending_def attempt_ok)
  then show ?thesis
    using fail_ok in_flight_dead in_flight_retry
    by (cases dead) (simp_all add: worker_ok_def worker_pending_def fail_attempt_def Let_def)
qed

lemma deliver_item_cases:
  obtains (failed) st msg wait dead wk' where
      "deliver_item s decode p cfg now item wk = fail_attempt p now item st msg wait dead wk'"
      "wk_outbox wk' = wk_outbox wk"
      "dead \<or> \<not> cfg_max_attempts cfg \<le> qi_retry_count item + 1 \<and> wait = backoff cfg (qi_retry_count item + 1)"
  | (completed) route wk' where "deliver_item s decode p cfg now item wk = wk'"
      "wk_outbox wk' = record_delivery_attempt (qi_id item) (qi_retry_count item + 1) ''delivered'' []
         (complete_delivery (Some p) route (qi_id item) (wk_outbox wk))"
proof (cases "decode (qi_payload item)")
  case (Inl msg)
  then show thesis using failed [of "''decode_error''" msg "cfg_retry_base cfg" True wk]
    by (simp add: deliver_item_def)
next
  case (Inr payload)
  obtain m err w where send: "send_payload s item payload (wk_world wk) = ((m, err), w)"
    by (metis prod.exhaust)
  obtain cerr w2 where commit: "commit_error s (qi_id item) w = (cerr, w2)" by (rule prod.exhaust)
  note defs = deliver_item_def Inr send commit fail_or_retry_def Let_def
  let ?n = "qi_retry_count item + 1"
  show thesis
  proof (cases err)
    case (Some msg)
    then show thesis
      using failed [of "''send_error''" msg "backoff cfg ?n" "cfg_max_attempts cfg \<le> ?n"
          "wk\<lparr>wk_world := w\<rparr>"]
      by (simp add: defs)
  next
    case none: None
    show thesis
    proof (cases cerr)
      case (Some msg)
      then show thesis
        using none failed [of "''persist_error''" msg "backoff cfg ?n" "cfg_max_attempts cfg \<le> ?n"
            "wk\<lparr>wk_world := w2\<rparr>"]
        by (simp add: defs)
    next
      case None
      then show thesis using none completed [OF refl, of "route_of item payload m now"] by (simp add: defs)
    qed
  qed
qed

lemma deliver_item_settles:
  assumes "worker_ok wk" "qi_id item \<in> worker_pending wk"
  shows "worker_ok (deliver_item s decode p cfg now item wk) \<and>
    worker_pending (deliver_item s decode p cfg now item wk) = worker_pending wk - {qi_id item}"
proof (cases rule: deliver_item_cases [of s decode p cfg now item wk])
  case (failed st msg wait dead wk')
  then have "worker_ok wk'" "qi_id item \<in> worker_pending wk'" "worker_pending wk' = worker_pending wk"
    using assms by (simp_all add: worker_ok_def worker_pending_def)
  then show ?thesis using fail_attempt_settles [of wk' item] failed(1) by simp
next
  case (completed route wk')
  then show ?thesis
    using assms complete_ok by (simp add: worker_ok_def worker_pending_def in_flight_complete attempt_ok)
qed

interpretation worker: claim_ledger worker_pending worker_ok plain_item qi_id
  "process_item s decode approval p cfg now" for s decode approval p cfg now
  by unfold_locales (auto simp: process_item_def plain_item_def deliver_item_settles)


section \<open>Batches\<close>

lemma scan_row_kind: "scan_row prot r = Inr item \<Longrightarrow> qi_kind item = dq_kind r"
  by (auto simp: scan_row_def split: option.splits)

lemma claimed_kinds:
  assumes "claim_delivery_batch prot now limit ob = (Inr items, ob')" "item \<in> set items"
  shows "\<exists>r\<in>set (ob_queue ob). qi_kind item = dq_kind r \<and> qi_id item = dq_id r"
proof -
  have m: "map_result (scan_row prot) (claimed_rows now limit (ob_queue ob)) = Inr items"
    using assms(1) by (auto simp: claim_delivery_batch_def Let_def split: sum.splits)
  obtain r where "r \<in> set (claimed_rows now limit (ob_queue ob))" "scan_row prot r = Inr item"
    using map_result_mem [OF m assms(2)] by (elim bexE)
  moreover from this(1) have "r \<in> set (ob_queue ob)" using claimed_rows_claimable by blast
  ultimately show ?thesis
    using scan_row_kind scan_row_id by (intro bexI [of _ r] conjI) simp_all
qed

lemma keyed_union:
  "I \<subseteq> f ` Q \<Longrightarrow> {f r |r. r \<in> Q \<and> (f r \<in> I \<or> P r)} = {f r |r. r \<in> Q \<and> P r} \<union> I"
  by auto

lemma claimed_in_flight:
  assumes "claim_delivery_batch prot now limit ob = (Inr items, ob')"
  shows "in_flight ob' = in_flight ob \<union> qi_id ` set items"
proof -
  have q: "ob_queue ob' = map (\<lambda>r. if dq_id r \<in> set (map qi_id items) then set_status Processing r else r)
      (ob_queue ob)" by (rule claim_status [OF assms])
  define h where "h r = (if dq_id r \<in> set (map qi_id items) then set_status Processing r else r)" for r
  have "in_flight ob' = {dq_id (h r) |r. r \<in> set (ob_queue ob) \<and> dq_status (h r) = Processing}"
    unfolding in_flight_def q h_def [symmetric] by auto
  also have "\<dots> = {dq_id r |r. r \<in> set (ob_queue ob) \<and>
      (dq_id r \<in> qi_id ` set items \<or> dq_status r = Processing)}"
    by (intro Collect_cong ex_cong1) (simp add: h_def)
  finally have "in_flight ob' = {dq_id r |r. r \<in> set (ob_queue ob) \<and>
      (dq_id r \<in> qi_id ` set items \<or> dq_status r = Processing)}" .
  moreover have "qi_id ` set items \<subseteq> dq_id ` set (ob_queue ob)"
  proof -
    have "set (map qi_id items) = set (map dq_id (claimed_rows now limit (ob_queue ob)))"
      by (simp only: claim_result(1) [OF assms])
    moreover have "set (claimed_rows now limit (ob_queue ob)) \<subseteq> set (ob_queue ob)"
      using claimed_rows_claimable by (intro subsetI) blast
    ultimately show ?thesis unfolding set_map by blast
  qed
  ultimately show ?thesis unfolding in_flight_def by (simp only: keyed_union)
qed

lemma distinct_claimed:
  "outbox_ok ob \<Longrightarrow> claim_delivery_batch prot now limit ob = (Inr items, ob') \<Longrightarrow> distinct (map qi_id items)"
proof -
  assume ok: "outbox_ok ob" and c: "claim_delivery_batch prot now limit ob = (Inr items, ob')"
  have "distinct (map dq_id (ob_queue ob))"
    using ok by (simp add: outbox_ok_def keys_ok_def strict_sorted_iff)
  then have "distinct (map dq_id (sort_key dq_id (filter (claimable now (ob_queue ob)) (ob_queue ob))))"
    by (auto simp: distinct_map inj_on_def)
  then show ?thesis
    unfolding claim_result(1) [OF c] by (simp add: claimed_rows_def take_map [symmetric] distinct_take)
qed

text \<open>
  C6: A batch leaves nothing in flight. When nothing is in flight before it and the queue holds no
  deliveries of the approval kinds, which have handlers of their own, then whatever Telegram answers,
  whatever fails to decode and whichever commits of a completion fail, every delivery the batch
  claimed is delivered, waiting for a retry or dead after it, and the invariant of the outbox holds
  again. The record of a failure itself is taken to be stored: the code discards an error of
  \<^verbatim>\<open>FailDelivery\<close>, and a row whose failure could not be stored would stay in flight.
\<close>
theorem batch_leaves_nothing_in_flight:
  fixes wk :: "'w worker"
  assumes "outbox_ok (wk_outbox wk)" "in_flight (wk_outbox wk) = {}"
    and "\<forall>r\<in>set (ob_queue (wk_outbox wk)). dq_kind r \<notin> set approval_kinds"
  shows "in_flight (wk_outbox (process_delivery_batch sender decode approval p cfg now wk)) = {} \<and>
    outbox_ok (wk_outbox (process_delivery_batch sender decode approval p cfg now wk))"
proof (cases sender)
  case None
  then show ?thesis using assms by (simp add: process_delivery_batch_def)
next
  case (Some s)
  obtain res ob where claim: "claim_delivery_batch (Some p) now 10 (wk_outbox wk) = (res, ob)"
    by (rule prod.exhaust)
  show ?thesis
  proof (cases res)
    case (Inl e)
    then have "ob = wk_outbox wk"
      using claim by (auto simp: claim_delivery_batch_def Let_def split: sum.splits)
    then show ?thesis using assms Some claim Inl by (simp add: process_delivery_batch_def)
  next
    case (Inr items)
    let ?wk = "wk\<lparr>wk_outbox := ob\<rparr>"
    note c = claim [unfolded Inr]
    have ok: "worker_ok ?wk"
      using claim_ok [OF assms(1), of "Some p" now 10] c by (simp add: worker_ok_def)
    have plain: "\<forall>i\<in>set items. plain_item i"
      using claimed_kinds [OF c] assms(3) by (fastforce simp: plain_item_def)
    have "qi_id ` set items = worker_pending ?wk"
      using claimed_in_flight [OF c] assms(2) by (simp add: worker_pending_def)
    then have "worker_ok (fold (process_item s decode approval p cfg now) items ?wk) \<and>
        worker_pending (fold (process_item s decode approval p cfg now) items ?wk) = {}"
      using worker.settle_all [OF ok plain distinct_claimed [OF assms(1) c]] by simp
    then show ?thesis
      using Some c by (simp add: process_delivery_batch_def worker_ok_def worker_pending_def)
  qed
qed

text \<open>A Telegram that always fails, for the examples.\<close>

definition demo_sender :: "unit sender" where
  "demo_sender = \<lparr>send_rendered_messages = (\<lambda>c t m b w. (([], Some ''down''), w)),
     send_message = (\<lambda>c t m b w. ((0, Some ''down''), w)), commit_error = (\<lambda>i w. (None, w))\<rparr>"

definition demo_decode :: "string \<Rightarrow> string + delivery_payload" where
  "demo_decode x = Inr \<lparr>dp_mode = [], dp_text = x, dp_thread_id = [], dp_turn_id = [], dp_item_id = [],
     dp_event_id = [], dp_message_id = 0, dp_buttons = [], dp_rendered = None\<rparr>"

definition demo_config :: delivery_config where
  "demo_config = \<lparr>cfg_retry_base = 5 * second, cfg_max_attempts = 5\<rparr>"

lemma batch_leaves_nothing_in_flight_witness:
  "in_flight (wk_outbox (process_delivery_batch (Some demo_sender) demo_decode (\<lambda>i w. w)
     demo_protector demo_config 0 \<lparr>wk_outbox = demo_enqueued, wk_world = (), wk_errors = []\<rparr>)) = {}"
proof -
  have ok: "outbox_ok demo_enqueued"
    using outbox_reaches_ok [OF demo_reaches(1) empty_outbox_ok] .
  have "list_all (\<lambda>r. dq_status r \<noteq> Processing \<and> dq_kind r \<notin> set approval_kinds) (ob_queue demo_enqueued)"
    by code_simp
  then have "in_flight demo_enqueued = {}" "\<forall>r\<in>set (ob_queue demo_enqueued). dq_kind r \<notin> set approval_kinds"
    by (auto simp: in_flight_def list_all_iff)
  then show ?thesis
    using ok batch_leaves_nothing_in_flight
      [of "\<lparr>wk_outbox = demo_enqueued, wk_world = (), wk_errors = []\<rparr>"] by simp
qed

section \<open>Retries\<close>

lemma backoff_bounds:
  assumes "0 \<le> cfg_retry_base cfg"
  shows "cfg_retry_base cfg \<le> backoff cfg n \<and> backoff cfg n \<le> 16 * cfg_retry_base cfg"
proof -
  have "nat (min (n - 1) 4) \<le> 4" by simp
  then have "(2::int) ^ nat (min (n - 1) 4) \<le> 2 ^ 4" by (intro power_increasing) simp_all
  moreover have "(1::int) \<le> 2 ^ nat (min (n - 1) 4)" by simp
  ultimately show ?thesis
    using assms mult_left_mono [of "2 ^ nat (min (n - 1) 4)" 16 "cfg_retry_base cfg"]
      mult_left_mono [of 1 "2 ^ nat (min (n - 1) 4)" "cfg_retry_base cfg"]
    by (simp add: backoff_def mult.commute)
qed

lemma failed_row_in_queue:
  assumes "outbox_ok ob" "i \<in> in_flight ob"
  shows "\<exists>r\<in>set (ob_queue (snd (fail_delivery (Some p) i n t err dead ob))). dq_id r = i \<and>
    (if dead then dq_status r = Dead
     else dq_status r = Retry \<and> dq_retry_count r = n \<and> dq_available_at r = t)"
proof -
  obtain r0 where r0: "r0 \<in> set (ob_queue ob)" "dq_id r0 = i" "dq_status r0 = Processing"
    and uniq: "\<And>r. r \<in> set (ob_queue ob) \<Longrightarrow> dq_id r = i \<longleftrightarrow> r = r0"
    by (rule in_flight_row [OF assms]) (rule that)
  show ?thesis
  proof (cases dead)
    case False
    have "failed_row Retry n t err r0 \<in> set (ob_queue (snd (fail_delivery (Some p) i n t err dead ob)))"
      using r0 False by (auto simp: fail_delivery_def set_update_rows intro!: image_eqI [of _ _ r0])
    then show ?thesis using False r0(2)
      by (intro bexI [of _ "failed_row Retry n t err r0"]) (simp_all add: failed_row_def)
  next
    case True
    define h where "h r = (let r1 = (if dq_id r = i then drop_payload (failed_row Dead n t err r) else r)
      in if (\<exists>g. dq_group_id r0 = Some g \<and> trim_space g \<noteq> []) \<and>
            dq_group_id r = dq_group_id r0 \<and> dq_status r1 \<noteq> Delivered
         then drop_payload (set_status Dead r1) else r1)" for r
    have "ob_queue (snd (fail_delivery (Some p) i n t err dead ob)) = map h (ob_queue ob)"
      using True by (simp add: fail_dead_result [OF assms(1) r0(1,2) uniq] h_def)
    then have "h r0 \<in> set (ob_queue (snd (fail_delivery (Some p) i n t err dead ob)))"
      using r0(1) by simp
    moreover have "dq_id (h r0) = i" "dq_status (h r0) = Dead"
      using r0(2) by (simp_all add: h_def Let_def)
    ultimately show ?thesis using True by auto
  qed
qed

text \<open>
  C7: Attempts are bounded and spaced. When the worker handles a claimed delivery, the delivery ends
  up delivered, or dead, or waiting for another attempt; it waits only if the attempts made so far
  are fewer than the configured maximum, with its attempt counter one higher, and it becomes
  available again between one and sixteen times the configured base delay from now.
\<close>
theorem delivery_attempts_bounded:
  fixes wk :: "'w worker"
  assumes "outbox_ok (wk_outbox wk)" "qi_id item \<in> in_flight (wk_outbox wk)" "0 \<le> cfg_retry_base cfg"
  shows "\<exists>r\<in>set (ob_queue (wk_outbox (deliver_item s decode p cfg now item wk))). dq_id r = qi_id item \<and>
    (dq_status r = Delivered \<or> dq_status r = Dead \<or>
     dq_status r = Retry \<and> dq_retry_count r = qi_retry_count item + 1 \<and>
     dq_retry_count r < cfg_max_attempts cfg \<and>
     now + cfg_retry_base cfg \<le> dq_available_at r \<and>
     dq_available_at r \<le> now + 16 * cfg_retry_base cfg)"
proof (cases rule: deliver_item_cases [of s decode p cfg now item wk])
  case (failed st msg wait dead wk')
  let ?n = "qi_retry_count item + 1"
  let ?err = "delivery_error_summary st (Some msg)"
  let ?ob = "record_delivery_attempt (qi_id item) ?n st ?err (wk_outbox wk)"
  have "outbox_ok ?ob" "qi_id item \<in> in_flight ?ob"
    using assms(1,2) by (simp_all add: attempt_ok)
  from failed_row_in_queue [OF this, of p ?n "now + wait" ?err dead]
  obtain r where r: "r \<in> set (ob_queue (snd (fail_delivery (Some p) (qi_id item) ?n (now + wait) ?err dead ?ob)))"
    "dq_id r = qi_id item"
    "if dead then dq_status r = Dead
     else dq_status r = Retry \<and> dq_retry_count r = ?n \<and> dq_available_at r = now + wait" by blast
  have "wk_outbox (deliver_item s decode p cfg now item wk) =
      snd (fail_delivery (Some p) (qi_id item) ?n (now + wait) ?err dead ?ob)"
    by (simp add: failed(1,2) fail_attempt_def Let_def)
  moreover have "dq_status r = Dead \<or>
     dq_status r = Retry \<and> dq_retry_count r = ?n \<and> dq_retry_count r < cfg_max_attempts cfg \<and>
     now + cfg_retry_base cfg \<le> dq_available_at r \<and>
     dq_available_at r \<le> now + 16 * cfg_retry_base cfg"
    using r(3) failed(3) backoff_bounds [OF assms(3), of ?n] by (cases dead) auto
  ultimately show ?thesis using r(1,2) by (intro bexI [of _ r]) simp_all
next
  case (completed route wk')
  obtain r0 where r0: "r0 \<in> set (ob_queue (wk_outbox wk))" "dq_id r0 = qi_id item"
    using assms(2) by (auto simp: in_flight_def)
  have "drop_payload (set_status Delivered r0) \<in> set (ob_queue (wk_outbox wk'))"
    using r0 by (auto simp: completed(2) record_delivery_attempt_def complete_delivery_def
        set_update_rows intro!: image_eqI [of _ _ r0])
  then show ?thesis using completed(1) r0(2)
    by (intro bexI [of _ "drop_payload (set_status Delivered r0)"]) simp_all
qed

lemma delivery_attempts_bounded_witness:
  "\<exists>r\<in>set (ob_queue (wk_outbox (deliver_item demo_sender demo_decode demo_protector demo_config 0
      ((demo_item ''a'' 1)\<lparr>qi_id := 1\<rparr>) \<lparr>wk_outbox = demo_claimed, wk_world = (), wk_errors = []\<rparr>))).
     dq_id r = 1 \<and> dq_status r \<noteq> Processing"
proof -
  have ok: "outbox_ok demo_claimed"
    using outbox_reaches_ok [OF demo_reaches(2) empty_outbox_ok] .
  have "ob_queue demo_claimed ! 0 \<in> set (ob_queue demo_claimed)"
    "dq_status (ob_queue demo_claimed ! 0) = Processing" "dq_id (ob_queue demo_claimed ! 0) = 1"
    by code_simp+
  then have "1 \<in> in_flight demo_claimed"
    unfolding in_flight_def mem_Collect_eq by metis
  then show ?thesis
    using ok delivery_attempts_bounded [of "\<lparr>wk_outbox = demo_claimed, wk_world = (), wk_errors = []\<rparr>"
        "(demo_item ''a'' 1)\<lparr>qi_id := 1\<rparr>" demo_config demo_sender demo_decode demo_protector 0]
    by (fastforce simp: demo_config_def second_def)
qed

end
