(* ===== verification/Terminal_Gate.thy ===== *)
theory Terminal_Gate
  imports State_Store Diff
begin

text \<open>
  The terminal gate (\<^verbatim>\<open>internal/daemon/terminal_gate.go\<close>): a turn started from Telegram that
  reads as interrupted is not reported at once, because the App Server can show a running turn as
  interrupted for a while. The gate defers it for a grace period, polls it fast, and then accepts
  it, unless the turn recovers or was interrupted on purpose.

  The gate's records are JSON texts in \<^verbatim>\<open>daemon_state\<close>. The table of the model holds what
  such a text stands for: nothing, a state, or the text (a timestamp) an older version left.
\<close>

section \<open>Signals of a snapshot\<close>

definition filled :: "string \<Rightarrow> bool" where
  "filled s \<longleftrightarrow> trim_space s \<noteq> []"

definition item_filled :: "detail_item \<Rightarrow> bool" where
  "item_filled item \<longleftrightarrow>
     filled (di_text item) \<or> filled (di_label item) \<or> filled (di_output item) \<or> filled (di_fp item)"

definition snapshot_has_final_signal :: "snapshot \<Rightarrow> bool" where
  "snapshot_has_final_signal sn \<longleftrightarrow>
     filled (sn_final_text sn) \<or> filled (sn_final_fp sn) \<or>
     list_ex (\<lambda>e. equal_fold (trim_space (am_phase e)) ''final_answer'' \<and>
                  (filled (am_text e) \<or> filled (am_fp e))) (sn_agent_entries sn) \<or>
     list_ex (\<lambda>i. di_kind i = DetailFinal \<and> item_filled i) (sn_detail_items sn)"

definition snapshot_has_meaningful_terminal_signal :: "snapshot \<Rightarrow> bool" where
  "snapshot_has_meaningful_terminal_signal sn \<longleftrightarrow>
     filled (sn_final_text sn) \<or> filled (sn_final_fp sn) \<or>
     filled (sn_progress_text sn) \<or> filled (sn_progress_fp sn) \<or>
     filled (sn_tool_id sn) \<or> filled (sn_tool_kind sn) \<or> filled (sn_tool_label sn) \<or>
     filled (sn_tool_output sn) \<or> filled (sn_tool_fp sn) \<or>
     list_ex filled (sn_agent_messages sn) \<or>
     list_ex (\<lambda>e. filled (am_text e) \<or> filled (am_fp e)) (sn_agent_entries sn) \<or>
     list_ex (\<lambda>i. di_kind i \<noteq> DetailNone \<and> di_kind i \<noteq> DetailUser \<and> item_filled i) (sn_detail_items sn)"

definition is_deferrable_interrupted_snapshot :: "snapshot option \<Rightarrow> bool" where
  "is_deferrable_interrupted_snapshot snap =
     (case snap of
        None \<Rightarrow> False
      | Some sn \<Rightarrow>
          equal_fold (trim_space (sn_turn_status sn)) ''interrupted'' \<and>
          filled (th_id (sn_thread sn)) \<and> filled (sn_turn_id sn) \<and>
          \<not> sn_waiting_on_approval sn \<and> \<not> sn_waiting_on_reply sn)"

definition is_empty_interrupted_snapshot :: "snapshot option \<Rightarrow> bool" where
  "is_empty_interrupted_snapshot snap =
     (case snap of
        None \<Rightarrow> False
      | Some sn \<Rightarrow>
          equal_fold (trim_space (sn_turn_status sn)) ''interrupted'' \<and>
          filled (th_id (sn_thread sn)) \<and> filled (sn_turn_id sn) \<and>
          \<not> sn_waiting_on_approval sn \<and> \<not> sn_waiting_on_reply sn \<and>
          \<not> snapshot_has_meaningful_terminal_signal sn)"

definition interrupted_defer_reason :: "snapshot option \<Rightarrow> string" where
  "interrupted_defer_reason snap =
     (if is_empty_interrupted_snapshot snap then ''empty_interrupted''
      else if (case snap of None \<Rightarrow> False | Some sn \<Rightarrow> snapshot_has_final_signal sn)
        then ''final_interrupted''
      else ''partial_interrupted'')"

definition thread_looks_active_for_polling :: "thread \<Rightarrow> bool" where
  "thread_looks_active_for_polling t \<longleftrightarrow>
     filled (th_active_turn_id t) \<or>
     (let st = to_lower (trim_space (th_status t))
      in st = ''active'' \<or> has_prefix st ''active['' \<or> contains st ''waitingon'' \<or>
         contains st ''inprogress'' \<or> contains st ''running'')"

definition gate_snapshot_needs_hot_polling :: "snapshot option \<Rightarrow> bool" where
  "gate_snapshot_needs_hot_polling snap =
     (case snap of
        None \<Rightarrow> False
      | Some sn \<Rightarrow>
          thread_looks_active_for_polling (sn_thread sn) \<or>
          equal_fold (trim_space (sn_turn_status sn)) ''inProgress'' \<or>
          sn_waiting_on_approval sn \<or> sn_waiting_on_reply sn)"

section \<open>Records of the gate\<close>

datatype gate_action = GateAccept | GateDefer | GateRecover

record gate_decision =
  gd_action :: gate_action
  gd_reason :: string
  gd_thread_id :: string
  gd_turn_id :: string
  gd_empty :: bool
  gd_deferrable :: bool
  gd_explicit :: bool
  gd_grace :: duration
  gd_first_seen_at :: instant
  gd_last_seen_at :: instant
  gd_expires_at :: instant
  gd_hot_poll :: bool
  gd_next_poll_after :: time_string
  gd_defer_key :: string
  gd_explicit_key :: string

record gate_state =
  gs_thread_id :: string
  gs_turn_id :: string
  gs_first_seen_at :: time_string
  gs_last_seen_at :: time_string
  gs_expires_at :: time_string
  gs_next_poll_after :: time_string
  gs_hot_poll_millis :: int
  gs_seen_count :: int
  gs_last_decision :: string
  gs_last_reason :: string

datatype gate_value = GateNothing | GateState gate_state | GateText time_string

type_synonym gate_table = "string \<Rightarrow> gate_value"

definition terminal_gate_defer_key :: "string \<Rightarrow> string \<Rightarrow> string" where
  "terminal_gate_defer_key thread turn =
     (if trim_space thread = [] \<or> trim_space turn = [] then []
      else ''turn_terminal.defer_empty_interrupted.'' @ trim_space thread @ ''.'' @ trim_space turn)"

definition terminal_gate_explicit_key :: "string \<Rightarrow> string \<Rightarrow> string" where
  "terminal_gate_explicit_key thread turn =
     (if trim_space thread = [] \<or> trim_space turn = [] then []
      else ''turn_terminal.explicit_interrupt.'' @ trim_space thread @ ''.'' @ trim_space turn)"

definition gate_put :: "string \<Rightarrow> gate_value \<Rightarrow> gate_table \<Rightarrow> gate_table" where
  "gate_put key v g = (if key = [] then g else g(key := v))"

definition clear_empty_interrupted_defer :: "string \<Rightarrow> string \<Rightarrow> gate_table \<Rightarrow> gate_table" where
  "clear_empty_interrupted_defer thread turn = gate_put (terminal_gate_defer_key thread turn) GateNothing"

definition clear_terminal_gate :: "string \<Rightarrow> string \<Rightarrow> gate_table \<Rightarrow> gate_table" where
  "clear_terminal_gate thread turn g =
     gate_put (terminal_gate_explicit_key thread turn) GateNothing
       (clear_empty_interrupted_defer thread turn g)"

definition save_empty_interrupted_defer :: "string \<Rightarrow> string \<Rightarrow> gate_state \<Rightarrow> gate_table \<Rightarrow> gate_table" where
  "save_empty_interrupted_defer thread turn st = gate_put (terminal_gate_defer_key thread turn) (GateState st)"

definition has_explicit_interrupt :: "string \<Rightarrow> string \<Rightarrow> gate_table \<Rightarrow> bool" where
  "has_explicit_interrupt thread turn g \<longleftrightarrow>
     terminal_gate_explicit_key thread turn \<noteq> [] \<and> g (terminal_gate_explicit_key thread turn) \<noteq> GateNothing"

definition empty_gate_state :: gate_state where
  "empty_gate_state = \<lparr>gs_thread_id = [], gs_turn_id = [], gs_first_seen_at = TEmpty,
     gs_last_seen_at = TEmpty, gs_expires_at = TEmpty, gs_next_poll_after = TEmpty,
     gs_hot_poll_millis = 0, gs_seen_count = 0, gs_last_decision = [], gs_last_reason = []\<rparr>"

definition mark_explicit_interrupt :: "instant \<Rightarrow> string \<Rightarrow> string \<Rightarrow> gate_table \<Rightarrow> gate_table" where
  "mark_explicit_interrupt now thread turn =
     gate_put (terminal_gate_explicit_key thread turn)
       (GateState (empty_gate_state\<lparr>gs_thread_id := trim_space thread, gs_turn_id := trim_space turn,
          gs_first_seen_at := TStamp now, gs_last_seen_at := TStamp now,
          gs_last_decision := ''accept'', gs_last_reason := ''explicit_interrupt''\<rparr>))"

section \<open>Durations\<close>

definition gate_minimum_grace :: duration where "gate_minimum_grace = 90 * second"

definition gate_grace_duration :: "duration \<Rightarrow> duration" where
  "gate_grace_duration poll = max_duration gate_minimum_grace (poll * 12)"

definition gate_hot_poll_interval :: "duration \<Rightarrow> duration" where
  "gate_hot_poll_interval poll = (if 0 < poll then poll else 5 * second)"

definition gate_next_poll_after :: "instant \<Rightarrow> duration \<Rightarrow> time_string" where
  "gate_next_poll_after now poll = TStamp (now + gate_hot_poll_interval poll)"

definition load_empty_interrupted_defer ::
  "duration \<Rightarrow> string \<Rightarrow> string \<Rightarrow> instant \<Rightarrow> gate_table \<Rightarrow> gate_state option" where
  "load_empty_interrupted_defer poll thread turn now g =
     (if terminal_gate_defer_key thread turn = [] then None
      else case g (terminal_gate_defer_key thread turn) of
             GateNothing \<Rightarrow> None
           | GateState st \<Rightarrow> Some st
           | GateText v \<Rightarrow>
               (let first = (if is_zero_time (parse_time v) then now else parse_time v)
                in Some (empty_gate_state\<lparr>gs_thread_id := trim_space thread, gs_turn_id := trim_space turn,
                     gs_first_seen_at := TStamp first,
                     gs_expires_at := TStamp (first + gate_grace_duration poll),
                     gs_last_decision := ''defer'', gs_last_reason := ''legacy_state''\<rparr>)))"

section \<open>Turns that came from Telegram\<close>

text \<open>\<^verbatim>\<open>isTelegramOriginTurn\<close> of \<^verbatim>\<open>panels.go\<close>, over \<^verbatim>\<open>daemon_state\<close>.\<close>

definition telegram_origin_turn_key :: "string \<Rightarrow> string \<Rightarrow> string" where
  "telegram_origin_turn_key thread turn =
     (if trim_space thread = [] \<or> trim_space turn = [] then []
      else ''turn_origin.telegram.'' @ trim_space thread @ ''.'' @ trim_space turn)"

definition is_telegram_origin_turn :: "kv_table \<Rightarrow> string \<Rightarrow> string \<Rightarrow> bool" where
  "is_telegram_origin_turn s thread turn \<longleftrightarrow>
     telegram_origin_turn_key thread turn \<noteq> [] \<and>
     trim_space (get_state s (telegram_origin_turn_key thread turn)) = ''telegram_input''"

section \<open>The decision\<close>

definition gate_snapshot_ids :: "snapshot option \<Rightarrow> string \<times> string" where
  "gate_snapshot_ids snap =
     (case snap of None \<Rightarrow> ([], []) | Some sn \<Rightarrow> (trim_space (th_id (sn_thread sn)), trim_space (sn_turn_id sn)))"

text \<open>What the gate does with a turn it may defer, given the state it already has.\<close>

definition gate_next_state ::
  "duration \<Rightarrow> snapshot option \<Rightarrow> string \<Rightarrow> string \<Rightarrow> instant \<Rightarrow> gate_state option \<Rightarrow> gate_state" where
  "gate_next_state poll snap thread turn now existing =
     (let st0 = (case existing of
            Some st \<Rightarrow> st
          | None \<Rightarrow> empty_gate_state\<lparr>gs_first_seen_at := TStamp now,
              gs_expires_at := TStamp (now + gate_grace_duration poll),
              gs_last_decision := ''defer'', gs_last_reason := interrupted_defer_reason snap\<rparr>);
          st1 = st0\<lparr>gs_thread_id := thread, gs_turn_id := turn, gs_last_seen_at := TStamp now,
                    gs_seen_count := gs_seen_count st0 + 1\<rparr>;
          st2 = (if is_zero_time (parse_time (gs_first_seen_at st1))
                 then st1\<lparr>gs_first_seen_at := TStamp now\<rparr> else st1)
      in if is_zero_time (parse_time (gs_expires_at st2))
         then st2\<lparr>gs_expires_at := TStamp (parse_time (gs_first_seen_at st2) + gate_grace_duration poll)\<rparr>
         else st2)"

definition decide_terminal ::
  "kv_table \<Rightarrow> duration \<Rightarrow> snapshot option \<Rightarrow> instant \<Rightarrow> gate_table \<Rightarrow> gate_decision \<times> gate_table" where
  "decide_terminal kv poll snap now g =
     (let (thread, turn) = gate_snapshot_ids snap;
          d0 = \<lparr>gd_action = GateAccept, gd_reason = ''not_deferrable_interrupted'', gd_thread_id = thread,
                gd_turn_id = turn, gd_empty = False, gd_deferrable = False, gd_explicit = False,
                gd_grace = gate_grace_duration poll, gd_first_seen_at = zero_time,
                gd_last_seen_at = zero_time, gd_expires_at = zero_time, gd_hot_poll = False,
                gd_next_poll_after = TEmpty, gd_defer_key = terminal_gate_defer_key thread turn,
                gd_explicit_key = terminal_gate_explicit_key thread turn\<rparr>
      in if thread = [] \<or> turn = [] then (d0\<lparr>gd_reason := ''missing_thread_or_turn''\<rparr>, g)
         else let explicit = has_explicit_interrupt thread turn g;
                  deferrable = is_deferrable_interrupted_snapshot snap;
                  d1 = d0\<lparr>gd_explicit := explicit, gd_empty := is_empty_interrupted_snapshot snap,
                          gd_deferrable := deferrable\<rparr>;
                  existing = load_empty_interrupted_defer poll thread turn now g
              in if \<not> deferrable then
                   (case existing of
                      None \<Rightarrow> (d1, g)
                    | Some st \<Rightarrow>
                        (let d2 = d1\<lparr>gd_action := GateRecover, gd_reason := ''snapshot_recovered'',
                                     gd_first_seen_at := parse_time (gs_first_seen_at st),
                                     gd_last_seen_at := now,
                                     gd_expires_at := parse_time (gs_expires_at st)\<rparr>
                         in (if gate_snapshot_needs_hot_polling snap
                             then d2\<lparr>gd_hot_poll := True, gd_next_poll_after := gate_next_poll_after now poll\<rparr>
                             else d2,
                             clear_empty_interrupted_defer thread turn g)))
                 else if explicit then
                   (d1\<lparr>gd_reason := ''explicit_interrupt''\<rparr>, clear_empty_interrupted_defer thread turn g)
                 else if \<not> is_telegram_origin_turn kv thread turn then
                   (d1\<lparr>gd_reason := ''not_telegram_origin''\<rparr>, g)
                 else let st = gate_next_state poll snap thread turn now existing;
                          expires = parse_time (gs_expires_at st);
                          d2 = d1\<lparr>gd_first_seen_at := parse_time (gs_first_seen_at st),
                                  gd_last_seen_at := now, gd_expires_at := expires\<rparr>
                      in if expires \<le> now then
                           (d2\<lparr>gd_action := GateAccept, gd_reason := ''grace_expired''\<rparr>,
                            save_empty_interrupted_defer thread turn
                              (st\<lparr>gs_last_decision := ''accept'', gs_last_reason := ''grace_expired''\<rparr>) g)
                         else
                           (d2\<lparr>gd_action := GateDefer, gd_reason := interrupted_defer_reason snap,
                               gd_hot_poll := True, gd_next_poll_after := gate_next_poll_after now poll\<rparr>,
                            save_empty_interrupted_defer thread turn
                              (st\<lparr>gs_next_poll_after := gate_next_poll_after now poll,
                                  gs_hot_poll_millis := gate_hot_poll_interval poll div 1000000,
                                  gs_last_decision := ''defer'',
                                  gs_last_reason := interrupted_defer_reason snap\<rparr>) g))"

section \<open>Applying a decision\<close>

definition apply_hot_polling :: "snapshot_state \<Rightarrow> gate_decision \<Rightarrow> snapshot_state" where
  "apply_hot_polling st d =
     (if \<not> gd_hot_poll d \<or> gd_next_poll_after d = TEmpty then st
      else st\<lparr>ss_next_poll_after := gd_next_poll_after d\<rparr>)"

text \<open>
  \<^verbatim>\<open>applyTelegramOriginTerminalGate\<close>: whether the terminal reading is held back, the stored
  snapshots (only the next poll of a deferred thread changes) and the table of the gate.
\<close>

type_synonym snapshot_table = "string \<rightharpoonup> snapshot_state"

definition apply_terminal_gate ::
  "kv_table \<Rightarrow> duration \<Rightarrow> snapshot option \<Rightarrow> snapshot_state option \<Rightarrow> instant \<Rightarrow>
   snapshot_table \<Rightarrow> gate_table \<Rightarrow> bool \<times> snapshot_table \<times> gate_table" where
  "apply_terminal_gate kv poll snap previous now snaps g =
     (let (d, g') = decide_terminal kv poll snap now g
      in case gd_action d of
           GateDefer \<Rightarrow>
             (let latest = (case snaps (gd_thread_id d) of Some st \<Rightarrow> Some st | None \<Rightarrow> previous)
              in (True,
                  (case latest of
                     None \<Rightarrow> snaps
                   | Some st \<Rightarrow> snaps(gd_thread_id d \<mapsto> apply_hot_polling st d)),
                  g'))
         | _ \<Rightarrow> (False, snaps, g'))"

definition thread_has_deferred_empty_interrupted ::
  "duration \<Rightarrow> thread \<Rightarrow> snapshot_state option \<Rightarrow> instant \<Rightarrow> gate_table \<Rightarrow> bool" where
  "thread_has_deferred_empty_interrupted poll t snap now g =
     (let turns = (if th_active_turn_id t \<noteq> [] then [trim_space (th_active_turn_id t)] else []) @
                  (case snap of
                     Some st \<Rightarrow> if ss_turn_id st \<noteq> [] then [trim_space (ss_turn_id st)] else []
                   | None \<Rightarrow> [])
      in list_ex (\<lambda>turn. turn \<noteq> [] \<and>
           (case load_empty_interrupted_defer poll (th_id t) turn now g of
              None \<Rightarrow> False
            | Some st \<Rightarrow>
                (let expires = parse_time (gs_expires_at st) in is_zero_time expires \<or> now < expires)))
         turns)"


section \<open>How the decision comes about\<close>

lemma deferrable_ids:
  "is_deferrable_interrupted_snapshot snap \<Longrightarrow> fst (gate_snapshot_ids snap) \<noteq> [] \<and> snd (gate_snapshot_ids snap) \<noteq> []"
  by (auto simp: is_deferrable_interrupted_snapshot_def gate_snapshot_ids_def filled_def split: option.splits)

lemma gate_ids_trim:
  "gate_snapshot_ids snap = (a, b) \<Longrightarrow> trim_space a = a \<and> trim_space b = b"
  by (auto simp: gate_snapshot_ids_def split: option.splits)

lemma defer_only_if:
  assumes "gate_snapshot_ids snap = (a, b)" "gd_action (fst (decide_terminal kv poll snap now g)) = GateDefer"
  shows "is_deferrable_interrupted_snapshot snap" "\<not> has_explicit_interrupt a b g"
    "is_telegram_origin_turn kv a b"
    "now < parse_time (gs_expires_at
       (gate_next_state poll snap a b now (load_empty_interrupted_defer poll a b now g)))"
  using assms by (auto simp: decide_terminal_def Let_def split: if_splits option.splits)

lemma defer_table:
  assumes "gate_snapshot_ids snap = (a, b)" "is_deferrable_interrupted_snapshot snap"
    "\<not> has_explicit_interrupt a b g" "is_telegram_origin_turn kv a b"
  shows "\<exists>st'. snd (decide_terminal kv poll snap now g) = gate_put (terminal_gate_defer_key a b) (GateState st') g \<and>
    gs_expires_at st' = gs_expires_at (gate_next_state poll snap a b now (load_empty_interrupted_defer poll a b now g))"
  using assms deferrable_ids [OF assms(2)]
  by (auto simp: decide_terminal_def Let_def save_empty_interrupted_defer_def)

lemma defer_explicit_keys: "terminal_gate_explicit_key a b \<noteq> [] \<Longrightarrow> terminal_gate_explicit_key a b \<noteq> terminal_gate_defer_key c d"
  by (auto simp: terminal_gate_explicit_key_def terminal_gate_defer_key_def)

lemma explicit_frame:
  "has_explicit_interrupt a b (gate_put (terminal_gate_defer_key c d) v g) = has_explicit_interrupt a b g"
  using defer_explicit_keys [of a b c d] by (auto simp: has_explicit_interrupt_def gate_put_def)

lemma kept_expiry:
  assumes "load_empty_interrupted_defer poll a b now g = Some st" "gs_expires_at st = TStamp e" "e \<noteq> zero_time"
  shows "gs_expires_at (gate_next_state poll snap a b now (load_empty_interrupted_defer poll a b now g)) = TStamp e"
  using assms by (simp add: gate_next_state_def Let_def parse_time_def is_zero_time_def)

lemma new_expiry:
  assumes "load_empty_interrupted_defer poll a b now g = None" "now \<noteq> zero_time"
    "now + gate_grace_duration poll \<noteq> zero_time"
  shows "gs_expires_at (gate_next_state poll snap a b now (load_empty_interrupted_defer poll a b now g)) =
    TStamp (now + gate_grace_duration poll)"
  using assms by (simp add: gate_next_state_def Let_def parse_time_def is_zero_time_def)

lemma grace_minimum: "90 * second \<le> gate_grace_duration poll"
  by (simp add: gate_grace_duration_def max_duration_def gate_minimum_grace_def)

text \<open>Readings of one turn, one after another.\<close>

definition gate_readings ::
  "kv_table \<Rightarrow> duration \<Rightarrow> (snapshot option \<times> instant) list \<Rightarrow> gate_table \<Rightarrow> gate_table" where
  "gate_readings kv poll readings g = fold (\<lambda>(snap, now) g. snd (decide_terminal kv poll snap now g)) readings g"

definition has_deadline :: "string \<Rightarrow> string \<Rightarrow> instant \<Rightarrow> gate_table \<Rightarrow> bool" where
  "has_deadline a b e g \<longleftrightarrow>
     terminal_gate_defer_key a b \<noteq> [] \<and>
     (\<exists>st. g (terminal_gate_defer_key a b) = GateState st \<and> gs_expires_at st = TStamp e)"

lemma deadline_put:
  "terminal_gate_defer_key a b \<noteq> [] \<Longrightarrow> gs_expires_at st = TStamp e \<Longrightarrow>
   has_deadline a b e (gate_put (terminal_gate_defer_key a b) (GateState st) g)"
  by (simp add: has_deadline_def gate_put_def)

lemma deadline_loaded:
  "has_deadline a b e g \<Longrightarrow> \<exists>st. load_empty_interrupted_defer poll a b now g = Some st \<and> gs_expires_at st = TStamp e"
  by (auto simp: has_deadline_def load_empty_interrupted_defer_def)

lemma deadline_kept:
  assumes "has_deadline a b e g" "e \<noteq> zero_time" "gate_snapshot_ids snap = (a, b)"
    "is_deferrable_interrupted_snapshot snap" "\<not> has_explicit_interrupt a b g"
  shows "has_deadline a b e (snd (decide_terminal kv poll snap now g)) \<and>
    \<not> has_explicit_interrupt a b (snd (decide_terminal kv poll snap now g))"
proof (cases "is_telegram_origin_turn kv a b")
  case True
  obtain st where st: "load_empty_interrupted_defer poll a b now g = Some st" "gs_expires_at st = TStamp e"
    using deadline_loaded [OF assms(1)] by blast
  obtain st' where st': "snd (decide_terminal kv poll snap now g) = gate_put (terminal_gate_defer_key a b) (GateState st') g"
    "gs_expires_at st' = gs_expires_at (gate_next_state poll snap a b now (load_empty_interrupted_defer poll a b now g))"
    using defer_table [OF assms(3-5) True] by blast
  have "gs_expires_at st' = TStamp e"
    using st' kept_expiry [OF st assms(2)] by simp
  moreover have "terminal_gate_defer_key a b \<noteq> []" using assms(1) by (simp add: has_deadline_def)
  ultimately show ?thesis
    using st'(1) assms(5) by (simp add: deadline_put explicit_frame)
next
  case False
  then have "snd (decide_terminal kv poll snap now g) = g"
    using assms deferrable_ids [OF assms(4)] by (simp add: decide_terminal_def Let_def)
  then show ?thesis using assms by simp
qed

lemma deadline_through_readings:
  assumes "has_deadline a b e g" "e \<noteq> zero_time" "\<not> has_explicit_interrupt a b g"
    "\<forall>(snap, now)\<in>set readings. gate_snapshot_ids snap = (a, b) \<and> is_deferrable_interrupted_snapshot snap"
  shows "has_deadline a b e (gate_readings kv poll readings g)"
  using assms
proof (induction readings arbitrary: g)
  case (Cons x xs)
  obtain snap now where x: "x = (snap, now)" by (rule prod.exhaust)
  have "has_deadline a b e (snd (decide_terminal kv poll snap now g))"
    "\<not> has_explicit_interrupt a b (snd (decide_terminal kv poll snap now g))"
    using deadline_kept [OF Cons.prems(1,2) _ _ Cons.prems(3)] Cons.prems(4) x by auto
  then show ?case using Cons.IH Cons.prems(2,4) x by (simp add: gate_readings_def)
qed (simp add: gate_readings_def)

section \<open>Properties\<close>

text \<open>
  C8: Deferral ends. Once the gate has deferred a turn it had no record of, at time t, then however
  often the turn is read as interrupted in between, no reading at or after t plus the grace period
  (twelve poll intervals, at least 90 seconds) is deferred: the interruption is reported.
\<close>
theorem gate_deferral_bounded:
  assumes "gate_snapshot_ids snap = (a, b)" "load_empty_interrupted_defer poll a b t g = None" "0 \<le> t"
    and "gd_action (fst (decide_terminal kv poll snap t g)) = GateDefer"
    and "\<forall>(sn, now)\<in>set readings. gate_snapshot_ids sn = (a, b) \<and> is_deferrable_interrupted_snapshot sn"
    and "gate_snapshot_ids snap' = (a, b)" "t + gate_grace_duration poll \<le> now'"
  shows "gd_action (fst (decide_terminal kv poll snap' now'
      (gate_readings kv poll readings (snd (decide_terminal kv poll snap t g))))) \<noteq> GateDefer"
proof
  let ?e = "t + gate_grace_duration poll"
  let ?g1 = "snd (decide_terminal kv poll snap t g)"
  let ?g2 = "gate_readings kv poll readings ?g1"
  assume late: "gd_action (fst (decide_terminal kv poll snap' now' ?g2)) = GateDefer"
  note first = defer_only_if [OF assms(1,4)]
  have nz: "t \<noteq> zero_time" "?e \<noteq> zero_time"
    using assms(3) grace_minimum [of poll] by (auto simp: zero_time_def second_def)
  obtain st' where st': "?g1 = gate_put (terminal_gate_defer_key a b) (GateState st') g"
    "gs_expires_at st' = TStamp ?e"
    using defer_table [OF assms(1) first(1-3)] new_expiry [OF assms(2) nz] by metis
  have key: "terminal_gate_defer_key a b \<noteq> []"
    using deferrable_ids [OF first(1)] gate_ids_trim [OF assms(1)] assms(1)
    by (simp add: terminal_gate_defer_key_def)
  have "has_deadline a b ?e ?g1" "\<not> has_explicit_interrupt a b ?g1"
    using st' key first(2) by (simp_all add: deadline_put explicit_frame)
  then have "has_deadline a b ?e ?g2"
    using deadline_through_readings [OF _ nz(2) _ assms(5)] by blast
  then obtain st where st: "load_empty_interrupted_defer poll a b now' ?g2 = Some st" "gs_expires_at st = TStamp ?e"
    using deadline_loaded by blast
  have "now' < ?e"
    using defer_only_if(4) [OF assms(6) late] kept_expiry [OF st nz(2)] by (simp add: parse_time_def)
  then show False using assms(7) by simp
qed

definition demo_interrupted :: snapshot where
  "demo_interrupted = empty_snapshot\<lparr>sn_thread := empty_thread\<lparr>th_id := ''t''\<rparr>, sn_turn_id := ''u'',
     sn_turn_status := ''interrupted''\<rparr>"

definition demo_origin :: kv_table where
  "demo_origin = [''turn_origin.telegram.t.u'' \<mapsto> ''telegram_input'']"

lemma demo_gate:
  "gate_snapshot_ids (Some demo_interrupted) = (''t'', ''u'')"
  "load_empty_interrupted_defer 0 ''t'' ''u'' 0 (\<lambda>_. GateNothing) = None"
  "is_deferrable_interrupted_snapshot (Some demo_interrupted)"
  "is_telegram_origin_turn demo_origin ''t'' ''u''"
proof -
  have trims: "trim_space ''t'' = ''t''" "trim_space ''u'' = ''u''" "trim_space ''interrupted'' = ''interrupted''"
    "trim_space ''telegram_input'' = ''telegram_input''"
    by (simp_all add: trim_space_ascii ascii_mark_def)
  show "gate_snapshot_ids (Some demo_interrupted) = (''t'', ''u'')"
    by (simp add: gate_snapshot_ids_def demo_interrupted_def trims)
  show "load_empty_interrupted_defer 0 ''t'' ''u'' 0 (\<lambda>_. GateNothing) = None"
    by (simp add: load_empty_interrupted_defer_def)
  show "is_deferrable_interrupted_snapshot (Some demo_interrupted)"
    by (simp add: is_deferrable_interrupted_snapshot_def demo_interrupted_def trims filled_def
        equal_fold_def empty_snapshot_def)
  show "is_telegram_origin_turn demo_origin ''t'' ''u''"
    by (simp add: is_telegram_origin_turn_def telegram_origin_turn_key_def trims demo_origin_def get_state_def)
qed

lemma gate_deferral_bounded_witness:
  "gd_action (fst (decide_terminal demo_origin 0 (Some demo_interrupted) (90 * second)
     (snd (decide_terminal demo_origin 0 (Some demo_interrupted) 0 (\<lambda>_. GateNothing))))) \<noteq> GateDefer"
proof -
  have "gd_action (fst (decide_terminal demo_origin 0 (Some demo_interrupted) 0 (\<lambda>_. GateNothing))) = GateDefer"
    using demo_gate deferrable_ids [OF demo_gate(3)]
    by (simp add: decide_terminal_def has_explicit_interrupt_def gate_next_state_def Let_def parse_time_def
        is_zero_time_def zero_time_def gate_grace_duration_def max_duration_def gate_minimum_grace_def second_def)
  from gate_deferral_bounded [OF demo_gate(1,2) _ this, of "[]" "Some demo_interrupted" "90 * second"]
  show ?thesis
    using demo_gate(1) by (simp add: gate_readings_def gate_grace_duration_def max_duration_def
        gate_minimum_grace_def second_def)
qed

text \<open>
  The gate holds back nothing but what it is for: a reading is deferred only if the turn came from
  Telegram, reads as interrupted without waiting for an answer, and was not interrupted on purpose;
  after an interruption on purpose is recorded no reading of that turn is deferred; and in every
  case only the deferred thread's next poll time changes among the stored snapshots.
\<close>
theorem gate_defers_only_suspect_turns:
  assumes "gate_snapshot_ids snap = (a, b)"
  shows "(gd_action (fst (decide_terminal kv poll snap now g)) = GateDefer \<longrightarrow>
      is_deferrable_interrupted_snapshot snap \<and> is_telegram_origin_turn kv a b \<and> \<not> has_explicit_interrupt a b g) \<and>
    gd_action (fst (decide_terminal kv poll snap now (mark_explicit_interrupt now0 a b g))) \<noteq> GateDefer \<and>
    (\<forall>i. map_option (\<lambda>st. st\<lparr>ss_next_poll_after := TEmpty\<rparr>)
           (fst (snd (apply_terminal_gate kv poll snap (snaps a) now snaps g)) i) =
         map_option (\<lambda>st. st\<lparr>ss_next_poll_after := TEmpty\<rparr>) (snaps i))"
proof (intro conjI allI impI)
  show "is_deferrable_interrupted_snapshot snap" "is_telegram_origin_turn kv a b" "\<not> has_explicit_interrupt a b g"
    if "gd_action (fst (decide_terminal kv poll snap now g)) = GateDefer"
    using defer_only_if [OF assms that] by blast+
  show "gd_action (fst (decide_terminal kv poll snap now (mark_explicit_interrupt now0 a b g))) \<noteq> GateDefer"
  proof
    assume d: "gd_action (fst (decide_terminal kv poll snap now (mark_explicit_interrupt now0 a b g))) = GateDefer"
    have "terminal_gate_explicit_key a b \<noteq> []"
      using deferrable_ids [OF defer_only_if(1) [OF assms d]] gate_ids_trim [OF assms] assms
      by (simp add: terminal_gate_explicit_key_def)
    then have "has_explicit_interrupt a b (mark_explicit_interrupt now0 a b g)"
      by (simp add: has_explicit_interrupt_def mark_explicit_interrupt_def gate_put_def)
    then show False using defer_only_if(2) [OF assms d] by simp
  qed
  have "gd_thread_id (fst (decide_terminal kv poll snap now g)) = a"
    using assms by (simp add: decide_terminal_def Let_def split: option.split)
  then show "map_option (\<lambda>st. st\<lparr>ss_next_poll_after := TEmpty\<rparr>)
      (fst (snd (apply_terminal_gate kv poll snap (snaps a) now snaps g)) i) =
     map_option (\<lambda>st. st\<lparr>ss_next_poll_after := TEmpty\<rparr>) (snaps i)" for i
    by (auto simp: apply_terminal_gate_def Let_def apply_hot_polling_def split: prod.split gate_action.split option.split)
qed

lemma gate_defers_only_suspect_turns_witness:
  "gd_action (fst (decide_terminal demo_origin 0 (Some demo_interrupted) 5
     (mark_explicit_interrupt 1 ''t'' ''u'' (\<lambda>_. GateNothing)))) \<noteq> GateDefer"
  using gate_defers_only_suspect_turns [OF demo_gate(1)] by blast

text \<open>
  A recovery is reported once: the gate answers recover only for a turn it has a deferral of
  and that no longer reads as a deferrable interruption, it drops the deferral, and the next
  reading that is not deferrable is plainly accepted.
\<close>
theorem gate_recovers_once:
  assumes "gate_snapshot_ids snap = (a, b)" "gd_action (fst (decide_terminal kv poll snap now g)) = GateRecover"
    and "gate_snapshot_ids snap' = (a, b)" "\<not> is_deferrable_interrupted_snapshot snap'"
  shows "load_empty_interrupted_defer poll a b now g \<noteq> None \<and> \<not> is_deferrable_interrupted_snapshot snap \<and>
    gd_action (fst (decide_terminal kv poll snap' now' (snd (decide_terminal kv poll snap now g)))) = GateAccept"
proof -
  have pre: "a \<noteq> []" "b \<noteq> []" "\<not> is_deferrable_interrupted_snapshot snap"
    "load_empty_interrupted_defer poll a b now g \<noteq> None"
    "snd (decide_terminal kv poll snap now g) = clear_empty_interrupted_defer a b g"
    using assms(1,2) by (auto simp: decide_terminal_def Let_def split: if_splits option.splits)
  have "load_empty_interrupted_defer poll a b now' (clear_empty_interrupted_defer a b g) = None"
    by (simp add: load_empty_interrupted_defer_def clear_empty_interrupted_defer_def gate_put_def)
  then show ?thesis
    using pre assms(3,4) by (simp add: decide_terminal_def Let_def)
qed

lemma gate_recovers_once_witness:
  "gd_action (fst (decide_terminal demo_origin 0 (Some (demo_interrupted\<lparr>sn_turn_status := ''completed''\<rparr>)) 9
     (snd (decide_terminal demo_origin 0 (Some (demo_interrupted\<lparr>sn_turn_status := ''completed''\<rparr>)) 7
       (snd (decide_terminal demo_origin 0 (Some demo_interrupted) 0 (\<lambda>_. GateNothing))))))) = GateAccept"
proof -
  let ?s = "Some (demo_interrupted\<lparr>sn_turn_status := ''completed''\<rparr>)"
  let ?g = "snd (decide_terminal demo_origin 0 (Some demo_interrupted) 0 (\<lambda>_. GateNothing))"
  have done_trim: "trim_space ''completed'' = ''completed''" by (simp add: trim_space_ascii ascii_mark_def)
  have ids: "gate_snapshot_ids ?s = (''t'', ''u'')"
    using demo_gate(1) by (simp add: gate_snapshot_ids_def)
  have nd: "\<not> is_deferrable_interrupted_snapshot ?s"
    by (simp add: is_deferrable_interrupted_snapshot_def done_trim equal_fold_def)
  obtain st' where g: "?g = gate_put (terminal_gate_defer_key ''t'' ''u'') (GateState st') (\<lambda>_. GateNothing)"
    using defer_table [OF demo_gate(1,3) _ demo_gate(4), of "\<lambda>_. GateNothing" 0 0]
    by (auto simp: has_explicit_interrupt_def)
  have key: "terminal_gate_defer_key ''t'' ''u'' \<noteq> []"
    using deferrable_ids [OF demo_gate(3)] gate_ids_trim [OF demo_gate(1)]
    by (simp add: terminal_gate_defer_key_def)
  have "load_empty_interrupted_defer 0 ''t'' ''u'' 7 ?g = Some st'"
    using key by (simp add: g load_empty_interrupted_defer_def gate_put_def)
  then have "gd_action (fst (decide_terminal demo_origin 0 ?s 7 ?g)) = GateRecover"
    using ids nd by (simp add: decide_terminal_def Let_def)
  from gate_recovers_once [OF ids this ids nd] show ?thesis by blast
qed

end
