(* ===== verification/Notifier_Observer.thy ===== *)
theory Notifier_Observer
  imports Notifier_Store Notifier_Format Delivery_Worker Terminal_Gate
begin

text \<open>
  The notifier's observer (\<^verbatim>\<open>internal/daemon/notifier_observer.go\<close>): it lists threads to find
  the changed ones, reads a few of them each cycle, and enqueues one terminal event with one
  delivery for every turn that has ended since the last read. The App Server is the environment:
  a function that answers a list request or a read with a JSON object or an error. The JSON text
  of a payload (\<^verbatim>\<open>storage.MustJSON\<close>) is a parameter. Cancellation of the daemon's context is not
  modelled: a cycle runs to its end.
\<close>

section \<open>State and environment\<close>

record notifier =
  nf_kv :: kv_table
  nf_obs :: observations
  nf_outbox :: outbox

datatype poll_error = PollDeadline | PollRpc int string | PollStore store_error | PollOther string

record list_options =
  lo_limit :: int
  lo_cursor :: string
  lo_sort_key :: string
  lo_sort_direction :: string
  lo_source_kinds :: "string list"
  lo_archived :: "bool option"

record session =
  thread_list_with_options :: "list_options \<Rightarrow> poll_error + jmap"
  thread_read :: "string \<Rightarrow> poll_error + jmap"

section \<open>Discovery\<close>

definition notifier_catalog_limit :: int where "notifier_catalog_limit = 100"
definition notifier_sweep_cursor_key :: string where
  "notifier_sweep_cursor_key = ''notifier.sweep_cursor''"

definition notifier_list_options :: "string \<Rightarrow> list_options" where
  "notifier_list_options cursor =
     \<lparr>lo_limit = notifier_catalog_limit, lo_cursor = trim_space cursor, lo_sort_key = ''updated_at'',
      lo_sort_direction = ''desc'', lo_source_kinds = [''cli'', ''vscode''], lo_archived = Some False\<rparr>"

text \<open>\<^verbatim>\<open>minimalListNextCursor\<close> of \<^verbatim>\<open>minimal_thread_catalog.go\<close>.\<close>

definition minimal_list_next_cursor :: "jmap \<Rightarrow> string" where
  "minimal_list_next_cursor result =
     (case List.map_filter (\<lambda>k. case jget result k of JStr v \<Rightarrow> Some (trim_space v) | _ \<Rightarrow> None)
             [''nextCursor'', ''next_cursor'', ''cursor''] of
        [] \<Rightarrow> []
      | v # _ \<Rightarrow> v)"

fun observe_threads :: "thread list \<Rightarrow> observations \<Rightarrow> poll_error option \<times> observations" where
  "observe_threads [] obs = (None, obs)"
| "observe_threads (t # ts) obs =
     (case observe_notifier_thread (th_id t) (th_updated_at t) obs of
        Inl e \<Rightarrow> (Some (PollStore e), obs)
      | Inr obs' \<Rightarrow> observe_threads ts obs')"

definition observe_notifier_list_page :: "jmap \<Rightarrow> notifier \<Rightarrow> poll_error option \<times> notifier" where
  "observe_notifier_list_page result ns =
     (case observe_threads (threads_from_list result) (nf_obs ns) of
        (err, obs) \<Rightarrow> (err, ns\<lparr>nf_obs := obs\<rparr>))"

definition discover_notifier_threads :: "session option \<Rightarrow> notifier \<Rightarrow> poll_error option \<times> notifier" where
  "discover_notifier_threads poll ns =
     (case poll of
        None \<Rightarrow> (None, ns)
      | Some client \<Rightarrow>
         (case thread_list_with_options client (notifier_list_options []) of
            Inl e \<Rightarrow> (Some e, ns)
          | Inr head \<Rightarrow>
             (case observe_notifier_list_page head ns of
                (Some e, ns1) \<Rightarrow> (Some e, ns1)
              | (None, ns1) \<Rightarrow>
                 (let stored = trim_space (get_state (nf_kv ns1) notifier_sweep_cursor_key);
                      cursor = (if stored = [] then minimal_list_next_cursor head else stored)
                  in if cursor = []
                     then (None, ns1\<lparr>nf_kv := set_state (nf_kv ns1) notifier_sweep_cursor_key []\<rparr>)
                     else case thread_list_with_options client (notifier_list_options cursor) of
                            Inl e \<Rightarrow> (Some e, ns1)
                          | Inr sweep \<Rightarrow>
                             (case observe_notifier_list_page sweep ns1 of
                                (Some e, ns2) \<Rightarrow> (Some e, ns2)
                              | (None, ns2) \<Rightarrow>
                                  (None, ns2\<lparr>nf_kv := set_state (nf_kv ns2) notifier_sweep_cursor_key
                                              (minimal_list_next_cursor sweep)\<rparr>))))))"

section \<open>Which turns have ended\<close>

definition is_notifier_terminal_status :: "string \<Rightarrow> bool" where
  "is_notifier_terminal_status st \<longleftrightarrow>
     canonical_terminal_status st \<in> {''completed'', ''failed'', ''interrupted''}"

definition notifier_terminal_status :: "snapshot \<Rightarrow> string option" where
  "notifier_terminal_status sn =
     (let st = canonical_terminal_status (sn_turn_status sn)
      in if \<not> is_notifier_terminal_status st then None
         else if st = ''interrupted'' \<and> \<not> snapshot_has_final_signal sn then None
         else Some st)"

definition jset :: "jmap \<Rightarrow> string \<Rightarrow> json \<Rightarrow> jmap" where
  "jset m k v = (k, v) # filter (\<lambda>(k', _). k' \<noteq> k) m"

definition with_thread_id :: "string \<Rightarrow> snapshot \<Rightarrow> snapshot" where
  "with_thread_id i sn =
     (if trim_space (th_id (sn_thread sn)) = []
      then sn\<lparr>sn_thread := (sn_thread sn)\<lparr>th_id := i\<rparr>\<rparr> else sn)"

definition notifier_turn_snapshots_from_read :: "jmap \<Rightarrow> string \<Rightarrow> snapshot list" where
  "notifier_turn_snapshots_from_read payload fallback =
     (let tp = (case obj_of (jget payload ''thread'') of Some nested \<Rightarrow> nested | None \<Rightarrow> payload)
      in map (\<lambda>turn. with_thread_id (trim_space fallback)
               (snapshot_from_thread_read [(''thread'', JObj (jset tp ''turns'' (JArr [JObj turn])))]))
           (List.map_filter obj_of (as_list (jget tp ''turns''))))"

text \<open>The index of the previous turn, or the last index (an empty list is excluded by the caller).\<close>

fun turn_index :: "string \<Rightarrow> snapshot list \<Rightarrow> nat option" where
  "turn_index turn [] = None"
| "turn_index turn (sn # sns) =
     (if trim_space (sn_turn_id sn) = turn then Some 0 else map_option Suc (turn_index turn sns))"

definition notifier_start_index :: "string \<Rightarrow> snapshot list \<Rightarrow> nat" where
  "notifier_start_index previous sns =
     (let turn = trim_space previous
      in if turn = [] then length sns - 1
         else case turn_index turn sns of Some i \<Rightarrow> i | None \<Rightarrow> length sns - 1)"

definition notifier_terminal_transition :: "notifier_observation \<Rightarrow> snapshot \<Rightarrow> int \<Rightarrow> bool" where
  "notifier_terminal_transition previous current activation =
     (case notifier_terminal_status current of
        None \<Rightarrow> False
      | Some st \<Rightarrow>
          if sn_turn_id current = [] then False
          else if \<not> no_baseline_ready previous then activation < th_updated_at (sn_thread current)
          else no_last_turn_id previous \<noteq> sn_turn_id current \<or>
               canonical_terminal_status (no_last_turn_status previous) \<noteq> st)"

definition notifier_terminal_snapshots_since ::
  "notifier_observation \<Rightarrow> snapshot list \<Rightarrow> int \<Rightarrow> snapshot list" where
  "notifier_terminal_snapshots_since previous sns activation =
     (if sns = [] then []
      else if \<not> no_baseline_ready previous
        then (let latest = List.last sns
              in if th_updated_at (sn_thread latest) \<le> activation then []
                 else if notifier_terminal_status latest = None then []
                 else [latest])
      else filter (\<lambda>sn. notifier_terminal_status sn \<noteq> None \<and>
                        notifier_terminal_transition previous sn activation)
             (drop (notifier_start_index (no_last_turn_id previous) sns) sns))"

section \<open>Enqueueing\<close>

definition terminal_key :: "string \<Rightarrow> string \<Rightarrow> string \<Rightarrow> string" where
  "terminal_key thread turn st = thread @ '':'' @ turn @ '':'' @ st"

definition notifier_event :: "string \<Rightarrow> snapshot \<Rightarrow> string \<Rightarrow> terminal_event" where
  "notifier_event thread sn st =
     \<lparr>te_key = terminal_key thread (sn_turn_id sn) st, te_thread_id = thread,
      te_turn_id = sn_turn_id sn, te_status = st, te_delivery_status = Pending\<rparr>"

definition notifier_payload :: "terminal_event \<Rightarrow> rendered_message \<Rightarrow> delivery_payload" where
  "notifier_payload event message =
     \<lparr>dp_mode = [], dp_text = [], dp_thread_id = te_thread_id event, dp_turn_id = te_turn_id event, dp_item_id = [],
      dp_event_id = te_key event, dp_message_id = 0, dp_buttons = [], dp_rendered = Some message\<rparr>"

definition notifier_delivery_items ::
  "(delivery_payload \<Rightarrow> string) \<Rightarrow> instant \<Rightarrow> observer_target \<Rightarrow> terminal_event \<Rightarrow> rendered_message \<Rightarrow>
   delivery_item list" where
  "notifier_delivery_items enc now target event message =
     [\<lparr>qi_id = 0, qi_event_id = te_key event,
       qi_chat_key = chat_key (ot_chat_id target) (ot_topic_id target),
       qi_chat_id = ot_chat_id target, qi_topic_id = ot_topic_id target,
       qi_thread_id = te_thread_id event, qi_kind = notifier_kind, qi_status = Pending,
       qi_retry_count = 0, qi_available_at = Some now, qi_last_error = [],
       qi_payload = enc (notifier_payload event message),
       qi_group_id = te_key event, qi_sequence_no = 1, qi_sequence_count = 1\<rparr>]"

fun enqueue_terminal_snapshots ::
  "(delivery_payload \<Rightarrow> string) \<Rightarrow> protector option \<Rightarrow> instant \<Rightarrow> observer_target \<Rightarrow> string \<Rightarrow>
   snapshot list \<Rightarrow> outbox \<Rightarrow> poll_error option \<times> outbox" where
  "enqueue_terminal_snapshots enc prot now target thread [] ob = (None, ob)"
| "enqueue_terminal_snapshots enc prot now target thread (sn # sns) ob =
     (case notifier_terminal_status sn of
        None \<Rightarrow> enqueue_terminal_snapshots enc prot now target thread sns ob
      | Some st \<Rightarrow>
          (let event = notifier_event thread sn st
           in case enqueue_terminal_event prot now event
                     (notifier_delivery_items enc now target event (render_notifier_terminal sn)) ob of
                (Inl e, ob') \<Rightarrow> (Some (PollStore e), ob')
              | (Inr _, ob') \<Rightarrow> enqueue_terminal_snapshots enc prot now target thread sns ob'))"

section \<open>Reading one thread\<close>

definition record_read_of :: "string \<Rightarrow> snapshot \<Rightarrow> notifier \<Rightarrow> poll_error option \<times> notifier" where
  "record_read_of thread sn ns =
     (case record_notifier_read thread (sn_turn_id sn) (canonical_terminal_status (sn_turn_status sn))
             (th_updated_at (sn_thread sn)) False (nf_obs ns) of
        Inl e \<Rightarrow> (Some (PollStore e), ns)
      | Inr obs \<Rightarrow> (None, ns\<lparr>nf_obs := obs\<rparr>))"

definition poll_notifier_thread ::
  "(delivery_payload \<Rightarrow> string) \<Rightarrow> protector option \<Rightarrow> instant \<Rightarrow> session \<Rightarrow> notifier_observation \<Rightarrow> int \<Rightarrow>
   notifier \<Rightarrow> poll_error option \<times> notifier" where
  "poll_notifier_thread enc prot now poll previous activation ns =
     (let thread = trim_space (no_thread_id previous)
      in if thread = [] then (None, ns)
         else case thread_read poll thread of
           Inl e \<Rightarrow> (Some e, ns)
         | Inr payload \<Rightarrow>
            (let sn = with_thread_id thread (snapshot_from_thread_read payload);
                 turns = (case notifier_turn_snapshots_from_read payload thread of [] \<Rightarrow> [sn] | ts \<Rightarrow> ts);
                 ended = notifier_terminal_snapshots_since previous turns activation
             in if ended = [] then record_read_of thread sn ns
                else case get_global_observer_target (nf_kv ns) of
                       (Some target, True) \<Rightarrow>
                         if \<not> ot_enabled target \<or> ot_chat_id target = 0 then (None, ns)
                         else (case enqueue_terminal_snapshots enc prot now target thread ended (nf_outbox ns) of
                                 (Some e, ob) \<Rightarrow> (Some e, ns\<lparr>nf_outbox := ob\<rparr>)
                               | (None, ob) \<Rightarrow> record_read_of thread sn (ns\<lparr>nf_outbox := ob\<rparr>))
                     | _ \<Rightarrow> (None, ns)))"

section \<open>A cycle\<close>

definition notifier_thread_read_batch_limit :: int where "notifier_thread_read_batch_limit = 4"
definition notifier_thread_read_retry_delay :: duration where
  "notifier_thread_read_retry_delay = 30 * second"

definition notifier_thread_read_timeout :: "duration \<Rightarrow> duration \<Rightarrow> duration" where
  "notifier_thread_read_timeout interval request_timeout =
     max_duration (max_duration (10 * second) (interval * 2)) request_timeout"

definition is_unreadable_subagent_thread_read_error :: "poll_error \<Rightarrow> bool" where
  "is_unreadable_subagent_thread_read_error e =
     (case e of
        PollRpc code message \<Rightarrow>
          code = -32603 \<and>
          contains (to_lower message) ''failed to deserialize stored thread item'' \<and>
          contains (to_lower message) ''subagent-completed-''
      | _ \<Rightarrow> False)"

text \<open>
  The loop over the due threads: the first error is remembered and returned at the end, the loop
  goes on, except when the store itself refuses to clear or defer a read.
\<close>

fun poll_due ::
  "(delivery_payload \<Rightarrow> string) \<Rightarrow> protector option \<Rightarrow> instant \<Rightarrow> instant \<Rightarrow> session \<Rightarrow> int \<Rightarrow>
   notifier_observation list \<Rightarrow> poll_error option \<Rightarrow> notifier \<Rightarrow> poll_error option \<times> notifier" where
  "poll_due enc prot clock now poll activation [] first_err ns = (first_err, ns)"
| "poll_due enc prot clock now poll activation (previous # due) first_err ns =
     (case poll_notifier_thread enc prot now poll previous activation ns of
        (None, ns1) \<Rightarrow> poll_due enc prot clock now poll activation due first_err ns1
      | (Some e, ns1) \<Rightarrow>
          if is_unreadable_subagent_thread_read_error e
          then (case record_notifier_read (no_thread_id previous) (no_last_turn_id previous)
                       (no_last_turn_status previous) (no_last_updated_at previous) False (nf_obs ns1) of
                  Inl e' \<Rightarrow> (Some e, ns1)
                | Inr obs \<Rightarrow>
                    poll_due enc prot clock now poll activation due first_err (ns1\<lparr>nf_obs := obs\<rparr>))
          else let keep = (if first_err = None then Some e else first_err)
               in if e = PollDeadline
                  then (case defer_notifier_read clock (no_thread_id previous)
                               (now + notifier_thread_read_retry_delay) (nf_obs ns1) of
                          Inl e' \<Rightarrow> (Some e, ns1)
                        | Inr obs \<Rightarrow>
                            poll_due enc prot clock now poll activation due keep (ns1\<lparr>nf_obs := obs\<rparr>))
                  else poll_due enc prot clock now poll activation due keep ns1)"

definition poll_notifier_threads ::
  "(delivery_payload \<Rightarrow> string) \<Rightarrow> protector option \<Rightarrow> instant \<Rightarrow> instant \<Rightarrow> session option \<Rightarrow> notifier \<Rightarrow>
   poll_error option \<times> notifier" where
  "poll_notifier_threads enc prot clock now poll ns =
     (if trim_space (get_state (nf_kv ns) ''control.repair_request'') \<noteq> [] then (None, ns)
      else case poll of
        None \<Rightarrow> (None, ns)
      | Some client \<Rightarrow>
         (case ensure_notifier_activation clock now (nf_kv ns) of
            (Inl e, kv) \<Rightarrow> (Some (PollStore e), ns\<lparr>nf_kv := kv\<rparr>)
          | (Inr activation, kv) \<Rightarrow>
              (let obs = baseline_notifier_observations activation (nf_obs ns);
                   due = list_notifier_observations_due clock notifier_thread_read_batch_limit now obs
               in poll_due enc prot clock now client activation due None (ns\<lparr>nf_kv := kv, nf_obs := obs\<rparr>))))"


section \<open>Every cycle is a run of the stores\<close>

lemma notifier_group_items:
  "group_items (notifier_event thread sn st) (notifier_delivery_items enc now target (notifier_event thread sn st) m)"
  by (simp add: group_items_def notifier_delivery_items_def notifier_kind_def minimal_approval_kind_def)

lemma enqueue_snapshots_run:
  "outbox_reaches p ob (snd (enqueue_terminal_snapshots enc (Some p) now target thread sns ob))"
proof (induction enc "Some p" now target thread sns ob rule: enqueue_terminal_snapshots.induct)
  case (2 enc now target thread sn sns ob)
  show ?case
  proof (cases "notifier_terminal_status sn")
    case None
    then show ?thesis using 2(1) by simp
  next
    case (Some st)
    let ?event = "notifier_event thread sn st"
    obtain res ob' where res: "enqueue_terminal_event (Some p) now ?event
        (notifier_delivery_items enc now target ?event (render_notifier_terminal sn)) ob = (res, ob')"
      by (rule prod.exhaust)
    have "outbox_step p ob ob'"
      using outbox_step.terminal [OF notifier_group_items, of p ob now thread sn st enc now target
          "render_notifier_terminal sn" None] res
      by (simp add: enqueue_terminal_event_def)
    moreover have "outbox_reaches p ob' (snd (enqueue_terminal_snapshots enc (Some p) now target thread sns ob'))"
      if "isl res = False"
    proof -
      obtain b where "res = Inr b" using \<open>isl res = False\<close> by (cases res) simp_all
      then show ?thesis using 2(2) [OF Some refl res [symmetric]] by simp
    qed
    ultimately show ?thesis
      using Some res by (cases res) (auto simp: Let_def intro: converse_rtranclp_into_rtranclp)
  qed
qed simp

lemma record_read_of_run:
  assumes "record_read_of thread sn ns = (err, ns')"
  shows "observation_step\<^sup>*\<^sup>* (nf_obs ns) (nf_obs ns') \<and> nf_outbox ns' = nf_outbox ns \<and> nf_kv ns' = nf_kv ns"
  using assms by (auto simp: record_read_of_def split: sum.splits
      intro!: r_into_rtranclp observation_step.record_read)

text \<open>The turns of a read, and those of them that have ended since the previous read.\<close>

definition read_snapshot :: "string \<Rightarrow> jmap \<Rightarrow> snapshot" where
  "read_snapshot thread payload = with_thread_id thread (snapshot_from_thread_read payload)"

definition turns_of_read :: "string \<Rightarrow> jmap \<Rightarrow> snapshot list" where
  "turns_of_read thread payload =
     (case notifier_turn_snapshots_from_read payload thread of
        [] \<Rightarrow> [read_snapshot thread payload] | t # ts \<Rightarrow> t # ts)"

definition ended_turns :: "notifier_observation \<Rightarrow> string \<Rightarrow> jmap \<Rightarrow> int \<Rightarrow> snapshot list" where
  "ended_turns previous thread payload activation =
     notifier_terminal_snapshots_since previous (turns_of_read thread payload) activation"

lemma poll_thread_body:
  assumes "trim_space (no_thread_id previous) \<noteq> []"
    "thread_read poll (trim_space (no_thread_id previous)) = Inr payload"
  shows "poll_notifier_thread enc prot now poll previous activation ns =
    (let thread = trim_space (no_thread_id previous);
         ended = ended_turns previous thread payload activation
     in if ended = [] then record_read_of thread (read_snapshot thread payload) ns
        else case get_global_observer_target (nf_kv ns) of
               (Some target, True) \<Rightarrow>
                 if \<not> ot_enabled target \<or> ot_chat_id target = 0 then (None, ns)
                 else (case enqueue_terminal_snapshots enc prot now target thread ended (nf_outbox ns) of
                         (Some e, ob) \<Rightarrow> (Some e, ns\<lparr>nf_outbox := ob\<rparr>)
                       | (None, ob) \<Rightarrow> record_read_of thread (read_snapshot thread payload) (ns\<lparr>nf_outbox := ob\<rparr>))
             | _ \<Rightarrow> (None, ns))"
  using assms(1)
  by (simp only: poll_notifier_thread_def Let_def assms(2) sum.case read_snapshot_def ended_turns_def
      turns_of_read_def if_False)

lemma poll_thread_run:
  assumes "poll_notifier_thread enc (Some p) now poll previous activation ns = (err, ns')"
  shows "observation_step\<^sup>*\<^sup>* (nf_obs ns) (nf_obs ns') \<and>
    outbox_reaches p (nf_outbox ns) (nf_outbox ns') \<and> nf_kv ns' = nf_kv ns"
proof (cases "trim_space (no_thread_id previous) = [] \<or> isl (thread_read poll (trim_space (no_thread_id previous)))")
  case True
  then have "ns' = ns"
    using assms by (auto simp: poll_notifier_thread_def Let_def split: sum.splits if_splits)
  then show ?thesis by simp
next
  case False
  define thread where "thread = trim_space (no_thread_id previous)"
  obtain payload where payload: "thread_read poll thread = Inr payload"
    using False by (cases "thread_read poll thread") (auto simp: thread_def)
  define sn where "sn = read_snapshot thread payload"
  define ended where "ended = ended_turns previous thread payload activation"
  have body: "(err, ns') = (if ended = [] then record_read_of thread sn ns
      else case get_global_observer_target (nf_kv ns) of
             (Some target, True) \<Rightarrow>
               if \<not> ot_enabled target \<or> ot_chat_id target = 0 then (None, ns)
               else (case enqueue_terminal_snapshots enc (Some p) now target thread ended (nf_outbox ns) of
                       (Some e, ob) \<Rightarrow> (Some e, ns\<lparr>nf_outbox := ob\<rparr>)
                     | (None, ob) \<Rightarrow> record_read_of thread sn (ns\<lparr>nf_outbox := ob\<rparr>))
           | _ \<Rightarrow> (None, ns))"
    using poll_thread_body [of previous poll payload enc "Some p" now activation ns] assms False payload
    by (simp only: Let_def thread_def [symmetric] sn_def [symmetric] ended_def [symmetric]) simp
  show ?thesis
  proof (cases "ended = []")
    case True
    then show ?thesis using body record_read_of_run [of thread sn ns err ns'] by simp
  next
    case ne: False
    show ?thesis
    proof (cases "ns' = ns")
      case changed: False
      then obtain target where "get_global_observer_target (nf_kv ns) = (Some target, True)"
        and on: "ot_enabled target" "ot_chat_id target \<noteq> 0"
        using body ne by (auto split: prod.splits option.splits bool.splits if_splits)
      then have enq: "(err, ns') = (case enqueue_terminal_snapshots enc (Some p) now target thread ended (nf_outbox ns) of
                       (Some e, ob) \<Rightarrow> (Some e, ns\<lparr>nf_outbox := ob\<rparr>)
                     | (None, ob) \<Rightarrow> record_read_of thread sn (ns\<lparr>nf_outbox := ob\<rparr>))"
        using body ne by simp
      obtain e ob where run: "enqueue_terminal_snapshots enc (Some p) now target thread ended (nf_outbox ns) = (e, ob)"
        by (rule prod.exhaust)
      have "outbox_reaches p (nf_outbox ns) ob"
        using enqueue_snapshots_run [of p "nf_outbox ns" enc now target thread ended] run by simp
      then show ?thesis
        using enq run record_read_of_run [of thread sn "ns\<lparr>nf_outbox := ob\<rparr>" err ns'] by (cases e) auto
    qed simp
  qed
qed

lemma poll_due_run:
  "observation_step\<^sup>*\<^sup>* (nf_obs ns) (nf_obs (snd (poll_due enc (Some p) clock now poll activation due err ns))) \<and>
   outbox_reaches p (nf_outbox ns) (nf_outbox (snd (poll_due enc (Some p) clock now poll activation due err ns))) \<and>
   nf_kv (snd (poll_due enc (Some p) clock now poll activation due err ns)) = nf_kv ns"
  (is "?run ns (poll_due enc (Some p) clock now poll activation due err ns)")
proof (induction due arbitrary: err ns)
  case (Cons previous due)
  obtain e ns1 where one: "poll_notifier_thread enc (Some p) now poll previous activation ns = (e, ns1)"
    by (rule prod.exhaust)
  note step = poll_thread_run [OF one]
  have go: "?run ns (poll_due enc (Some p) clock now poll activation due err' (ns1\<lparr>nf_obs := obs\<rparr>))"
    if "observation_step\<^sup>*\<^sup>* (nf_obs ns1) obs" for err' obs
  proof -
    have "observation_step\<^sup>*\<^sup>* (nf_obs ns) obs" using step that by (blast intro: rtranclp_trans)
    then show ?thesis
      using Cons.IH [of "ns1\<lparr>nf_obs := obs\<rparr>" err'] step by (auto intro: rtranclp_trans)
  qed
  have plain: "?run ns (poll_due enc (Some p) clock now poll activation due err' ns1)" for err'
    using go [of "nf_obs ns1" err'] by simp
  show ?case
  proof (cases e)
    case None
    then show ?thesis using one plain by simp
  next
    case (Some x)
    let ?rec = "record_notifier_read (no_thread_id previous) (no_last_turn_id previous)
        (no_last_turn_status previous) (no_last_updated_at previous) False (nf_obs ns1)"
    let ?def = "defer_notifier_read clock (no_thread_id previous) (now + notifier_thread_read_retry_delay) (nf_obs ns1)"
    have "observation_step\<^sup>*\<^sup>* (nf_obs ns1) obs" if "?rec = Inr obs \<or> ?def = Inr obs" for obs
      using that observation_step.record_read observation_step.defer_read by blast
    then show ?thesis
      using Some one plain go step by (auto simp: Let_def split: sum.splits)
  qed
qed simp

lemma poll_cycle_run:
  assumes "poll_notifier_threads enc (Some p) clock now poll ns = (err, ns')"
  shows "observation_step\<^sup>*\<^sup>* (nf_obs ns) (nf_obs ns') \<and> outbox_reaches p (nf_outbox ns) (nf_outbox ns')"
proof (cases "ns' = ns")
  case False
  then obtain client where cl: "poll = Some client"
    and rep: "trim_space (get_state (nf_kv ns) ''control.repair_request'') = []"
    using assms by (cases poll) (auto simp: poll_notifier_threads_def split: if_splits)
  obtain res kv where act: "ensure_notifier_activation clock now (nf_kv ns) = (res, kv)" by (rule prod.exhaust)
  show ?thesis
  proof (cases res)
    case (Inl e)
    then show ?thesis using assms cl rep act by (auto simp: poll_notifier_threads_def)
  next
    case (Inr activation)
    let ?obs = "baseline_notifier_observations activation (nf_obs ns)"
    let ?ns = "ns\<lparr>nf_kv := kv, nf_obs := ?obs\<rparr>"
    have "(err, ns') = poll_due enc (Some p) clock now client activation
        (list_notifier_observations_due clock notifier_thread_read_batch_limit now ?obs) None ?ns"
      using assms cl rep act Inr by (simp add: poll_notifier_threads_def Let_def)
    then have "observation_step\<^sup>*\<^sup>* ?obs (nf_obs ns')" "outbox_reaches p (nf_outbox ns) (nf_outbox ns')"
      using poll_due_run [of ?ns enc p clock now client activation
          "list_notifier_observations_due clock notifier_thread_read_batch_limit now ?obs" None]
      by (metis snd_conv notifier.select_convs notifier.surjective notifier.update_convs)+
    then show ?thesis
      using observation_step.baseline [of "nf_obs ns" activation]
      by (blast intro: converse_rtranclp_into_rtranclp)
  qed
qed simp


lemma observe_threads_run:
  "observation_step\<^sup>*\<^sup>* obs (snd (observe_threads ts obs))"
proof (induction ts obs rule: observe_threads.induct)
  case (2 t ts obs)
  then show ?case
    by (auto split: sum.split intro: converse_rtranclp_into_rtranclp observation_step.observe)
qed simp

lemma list_page_run:
  "observe_notifier_list_page result ns = (err, ns') \<Longrightarrow>
   observation_step\<^sup>*\<^sup>* (nf_obs ns) (nf_obs ns') \<and> nf_outbox ns' = nf_outbox ns \<and> nf_kv ns' = nf_kv ns"
  using observe_threads_run [of "nf_obs ns" "threads_from_list result"]
  by (auto simp: observe_notifier_list_page_def split: prod.splits)

lemma discover_run:
  assumes "discover_notifier_threads poll ns = (err, ns')"
  shows "observation_step\<^sup>*\<^sup>* (nf_obs ns) (nf_obs ns') \<and> nf_outbox ns' = nf_outbox ns"
proof (cases "poll = None \<or> isl (thread_list_with_options (the poll) (notifier_list_options []))")
  case True
  then have "ns' = ns" using assms by (auto simp: discover_notifier_threads_def split: sum.splits option.splits)
  then show ?thesis by simp
next
  case False
  then obtain client head where h: "poll = Some client"
    "thread_list_with_options client (notifier_list_options []) = Inr head"
    by (cases "thread_list_with_options (the poll) (notifier_list_options [])") auto
  obtain e1 ns1 where p1: "observe_notifier_list_page head ns = (e1, ns1)" by (rule prod.exhaust)
  note run1 = list_page_run [OF p1]
  have "observation_step\<^sup>*\<^sup>* (nf_obs ns1) (nf_obs ns') \<and> nf_outbox ns' = nf_outbox ns1"
    using assms h p1
    by (auto simp: discover_notifier_threads_def Let_def dest!: list_page_run
        split: option.splits if_splits sum.splits prod.splits)
  then show ?thesis using run1 by (auto intro: rtranclp_trans)
qed

end
