(* ===== verification/Notifier_System.thy ===== *)
theory Notifier_System
  imports Notifier_Observer
begin

text \<open>
  The notifier as a whole: what one read enqueues and what it must not, and the system made of
  discovery, polling, delivery, restarts and the owner's target command, whose every step is a run
  of the stores. The guarantees of the outbox then hold for the system: at most one delivery for
  each thread, turn and outcome.
\<close>

section \<open>What a read enqueues\<close>

lemma refused_event_known:
  assumes "enqueue_terminal_event (Some p) now event items ob = (Inr False, ob')"
  shows "te_key event \<in> te_key ` set (ob_events ob')"
  using assms
  by (auto simp: enqueue_terminal_event_def enqueue_terminal_event_with_linked_release_def
      check_release_def apply_release_def list_ex_iff intro: rev_image_eqI split: sum.splits if_splits)

lemma answered_event_known:
  assumes "enqueue_terminal_event (Some p) now event items ob = (Inr b, ob')"
  shows "te_key event \<in> te_key ` set (ob_events ob')"
  using assms refused_event_known stored_event_key
  by (cases b) (fastforce simp: enqueue_terminal_event_def)+

lemma enqueued_keys:
  assumes "enqueue_terminal_snapshots enc (Some p) now target thread sns ob = (None, ob')"
    "sn \<in> set sns" "notifier_terminal_status sn = Some st"
  shows "terminal_key thread (sn_turn_id sn) st \<in> te_key ` set (ob_events ob')"
  using assms
proof (induction sns arbitrary: ob)
  case (Cons x xs)
  show ?case
  proof (cases "notifier_terminal_status x")
    case None
    then show ?thesis using Cons by auto
  next
    case (Some stx)
    let ?event = "notifier_event thread x stx"
    obtain res ob1 where res: "enqueue_terminal_event (Some p) now ?event
        (notifier_delivery_items enc now target ?event (render_notifier_terminal x)) ob = (res, ob1)"
      by (rule prod.exhaust)
    obtain b where b: "res = Inr b"
      using Cons.prems(1) Some res by (cases res) (simp_all add: Let_def)
    have rest: "enqueue_terminal_snapshots enc (Some p) now target thread xs ob1 = (None, ob')"
      using Cons.prems(1) Some res b by (simp add: Let_def)
    show ?thesis
    proof (cases "sn = x")
      case True
      have "te_key ?event \<in> te_key ` set (ob_events ob1)"
        using answered_event_known res b by blast
      moreover have "te_key ` set (ob_events ob1) \<subseteq> te_key ` set (ob_events ob')"
        using event_keys_reach [OF enqueue_snapshots_run [of p ob1 enc now target thread xs]] rest by simp
      ultimately show ?thesis using True Some Cons.prems(3) by (auto simp: notifier_event_def)
    next
      case False
      then show ?thesis using Cons.IH [OF rest] Cons.prems(2,3) by simp
    qed
  qed
qed simp

lemma turn_index_first:
  assumes "trim_space (sn_turn_id x) = turn" "\<forall>sn\<in>set xs. trim_space (sn_turn_id sn) \<noteq> turn"
  shows "turn_index turn (xs @ x # ys) = Some (length xs)"
  using assms by (induction xs) auto

lemma ended_after_seen:
  assumes "no_baseline_ready previous" "turns_of_read thread payload = older @ seen # newer"
    and "trim_space (sn_turn_id seen) = trim_space (no_last_turn_id previous)" "trim_space (no_last_turn_id previous) \<noteq> []"
    and "\<forall>x\<in>set older. trim_space (sn_turn_id x) \<noteq> trim_space (no_last_turn_id previous)"
    and "sn \<in> set (seen # newer)" "notifier_terminal_status sn = Some st" "sn_turn_id sn \<noteq> []"
    and "sn_turn_id sn \<noteq> no_last_turn_id previous \<or> canonical_terminal_status (no_last_turn_status previous) \<noteq> st"
  shows "sn \<in> set (ended_turns previous thread payload activation)"
proof -
  have "notifier_start_index (no_last_turn_id previous) (older @ seen # newer) = length older"
    using assms(3-5) turn_index_first [of seen "trim_space (no_last_turn_id previous)" older newer]
    by (simp add: notifier_start_index_def Let_def)
  then show ?thesis using assms(1,2,6-9)
    by (auto simp: ended_turns_def notifier_terminal_snapshots_since_def notifier_terminal_transition_def)
qed

text \<open>
  C1: No turn that ends is lost while the turn seen last is still listed. Let an earlier read have
  ended at the turn \<^verbatim>\<open>seen\<close>, let the next read list that turn, and let a target be set. If the poll ends
  without an error, then that turn, if it has ended since or with another outcome, and every later
  turn that has ended (with a final answer if it was interrupted) have a terminal event, with thread,
  turn and outcome as key, in the outbox; and the read is recorded, so that the next one starts from
  the latest turn. When the turn seen last is not listed any more, the code looks at the latest turn
  only, and nothing is claimed for the others.
\<close>
theorem ended_turns_are_enqueued:
  assumes "trim_space (no_thread_id previous) = thread" "thread \<noteq> []"
    and "thread_read poll thread = Inr payload"
    and "get_global_observer_target (nf_kv ns) = (Some target, True)"
    and "poll_notifier_thread enc (Some p) now poll previous activation ns = (None, ns')"
    and "no_baseline_ready previous" "turns_of_read thread payload = older @ seen # newer"
    and "trim_space (sn_turn_id seen) = trim_space (no_last_turn_id previous)" "trim_space (no_last_turn_id previous) \<noteq> []"
    and "\<forall>x\<in>set older. trim_space (sn_turn_id x) \<noteq> trim_space (no_last_turn_id previous)"
    and "sn \<in> set (seen # newer)" "notifier_terminal_status sn = Some st" "sn_turn_id sn \<noteq> []"
    and "sn_turn_id sn \<noteq> no_last_turn_id previous \<or> canonical_terminal_status (no_last_turn_status previous) \<noteq> st"
  shows "terminal_key thread (sn_turn_id sn) st \<in> te_key ` set (ob_events (nf_outbox ns')) \<and>
      (\<exists>w. observation_row (nf_obs ns') thread = Some w \<and> no_baseline_ready w \<and> \<not> no_read_required w \<and>
           no_last_turn_id w = trim_space (sn_turn_id (read_snapshot thread payload)))"
proof -
  let ?ended = "ended_turns previous thread payload activation"
  have member: "sn \<in> set ?ended" by (rule ended_after_seen [OF assms(6-14)])
  then have ne: "?ended \<noteq> []" by auto
  have on: "ot_enabled target" "ot_chat_id target \<noteq> 0" using target_enabled [OF assms(4)] by auto
  obtain e ob where run: "enqueue_terminal_snapshots enc (Some p) now target thread ?ended (nf_outbox ns) = (e, ob)"
    by (rule prod.exhaust)
  have body: "poll_notifier_thread enc (Some p) now poll previous activation ns =
      (case e of Some e \<Rightarrow> (Some e, ns\<lparr>nf_outbox := ob\<rparr>)
       | None \<Rightarrow> record_read_of thread (read_snapshot thread payload) (ns\<lparr>nf_outbox := ob\<rparr>))"
    using poll_thread_body [of previous poll payload enc "Some p" now activation ns] assms(1-4) ne on run
    by (simp add: Let_def split: option.split)
  then have e: "e = None"
    and rr: "record_read_of thread (read_snapshot thread payload) (ns\<lparr>nf_outbox := ob\<rparr>) = (None, ns')"
    using assms(5) by (cases e; simp)+
  have ob: "nf_outbox ns' = ob"
    using record_read_of_run [OF rr] by simp
  have obs: "nf_obs ns' = record_or_keep thread (sn_turn_id (read_snapshot thread payload))
      (canonical_terminal_status (sn_turn_status (read_snapshot thread payload)))
      (th_updated_at (sn_thread (read_snapshot thread payload))) False (nf_obs ns)"
    using rr by (auto simp: record_read_of_def record_or_keep_def or_keep_def split: sum.splits)
  have trim: "trim_space thread = thread" using assms(1) by auto
  have "\<exists>w. observation_row (nf_obs ns') thread = Some w \<and> no_baseline_ready w \<and> \<not> no_read_required w \<and>
      no_last_turn_id w = trim_space (sn_turn_id (read_snapshot thread payload))"
    using assms(2) by (simp add: obs observation_row_def find_notifier_observation_def trim record_lookup
        new_observation_def split: option.split)
  moreover have "terminal_key thread (sn_turn_id sn) st \<in> te_key ` set (ob_events (nf_outbox ns'))"
    using enqueued_keys [OF run [unfolded e] member assms(12)] by (simp add: ob)
  ultimately show ?thesis by blast
qed

text \<open>
  C9: What must stay silent does. A poll leaves the outbox unchanged when no target is set (and then
  also keeps the thread's observation, so that nothing is skipped once a target is set), when no
  turn of the thread has ended, when a thread seen for the first time was last updated at or before
  the activation, and when the read fails.
\<close>
theorem poll_stays_silent:
  assumes "trim_space (no_thread_id previous) = thread" "thread \<noteq> []"
    and "poll_notifier_thread enc (Some p) now poll previous activation ns = (err, ns')"
  shows "(\<forall>payload. thread_read poll thread = Inr payload \<longrightarrow>
      (fst (get_global_observer_target (nf_kv ns)) = None \<longrightarrow>
         nf_outbox ns' = nf_outbox ns \<and>
         (ended_turns previous thread payload activation \<noteq> [] \<longrightarrow> nf_obs ns' = nf_obs ns)) \<and>
      (list_all (\<lambda>sn. notifier_terminal_status sn = None) (turns_of_read thread payload) \<longrightarrow>
         nf_outbox ns' = nf_outbox ns) \<and>
      (\<not> no_baseline_ready previous \<and>
       th_updated_at (sn_thread (List.last (turns_of_read thread payload))) \<le> activation \<longrightarrow>
         nf_outbox ns' = nf_outbox ns)) \<and>
    (\<forall>e. thread_read poll thread = Inl e \<longrightarrow> ns' = ns)"
proof (intro conjI allI impI)
  fix payload assume read: "thread_read poll thread = Inr payload"
  let ?ended = "ended_turns previous thread payload activation"
  note body = poll_thread_body [of previous poll payload enc "Some p" now activation ns]
  have none: "nf_outbox ns' = nf_outbox ns" if "?ended = []"
  proof -
    have "record_read_of thread (read_snapshot thread payload) ns = (err, ns')"
      using body assms that read by (simp add: Let_def)
    then show ?thesis using record_read_of_run by blast
  qed
  have off: "ns' = ns" if "fst (get_global_observer_target (nf_kv ns)) = None" "?ended \<noteq> []"
    using body assms that read by (cases "get_global_observer_target (nf_kv ns)") (simp add: Let_def)
  show "nf_outbox ns' = nf_outbox ns" if "fst (get_global_observer_target (nf_kv ns)) = None"
    using none off [OF that] by (cases "?ended = []") simp_all
  show "nf_obs ns' = nf_obs ns"
    if "fst (get_global_observer_target (nf_kv ns)) = None" "?ended \<noteq> []"
    using off [OF that] by simp
  have nonempty: "turns_of_read thread payload \<noteq> []"
    by (simp add: turns_of_read_def split: list.split)
  show "nf_outbox ns' = nf_outbox ns"
    if quiet: "list_all (\<lambda>sn. notifier_terminal_status sn = None) (turns_of_read thread payload)"
  proof (rule none)
    have "List.last (turns_of_read thread payload) \<in> set (turns_of_read thread payload)"
      using nonempty by simp
    then show "?ended = []"
      using quiet by (auto simp: ended_turns_def notifier_terminal_snapshots_since_def list_all_iff Let_def
          filter_empty_conv dest: in_set_dropD)
  qed
  show "nf_outbox ns' = nf_outbox ns"
    if "\<not> no_baseline_ready previous \<and>
       th_updated_at (sn_thread (List.last (turns_of_read thread payload))) \<le> activation"
    by (rule none) (use that nonempty in \<open>simp add: ended_turns_def notifier_terminal_snapshots_since_def\<close>)
next
  show "ns' = ns" if "thread_read poll thread = Inl e" for e
    using assms that by (simp add: poll_notifier_thread_def Let_def)
qed

section \<open>Reading again\<close>

text \<open>
  Reading a thread again without a new turn reports nothing: if the previous read ended at the
  latest turn with the outcome that turn still has, no turn counts as ended since, even though all
  the older ended turns are in the answer again.
\<close>
theorem repeated_read_is_silent:
  assumes "no_baseline_ready previous" "no_last_turn_id previous = sn_turn_id latest"
    and "canonical_terminal_status (no_last_turn_status previous) =
         canonical_terminal_status (sn_turn_status latest)"
    and "trim_space (sn_turn_id latest) = sn_turn_id latest" "sn_turn_id latest \<noteq> []"
    and "\<forall>sn\<in>set older. trim_space (sn_turn_id sn) \<noteq> sn_turn_id latest"
  shows "notifier_terminal_snapshots_since previous (older @ [latest]) activation = []"
proof -
  have "notifier_start_index (no_last_turn_id previous) (older @ [latest]) = length older"
    using assms(2,4-6) turn_index_first [of latest "sn_turn_id latest" older "[]"]
    by (simp add: notifier_start_index_def Let_def)
  moreover have "\<not> notifier_terminal_transition previous latest activation"
    using assms(1-3)
    by (auto simp: notifier_terminal_transition_def notifier_terminal_status_def is_notifier_terminal_status_def
        Let_def split: option.splits if_splits)
  ultimately show ?thesis
    using assms(1) by (simp add: notifier_terminal_snapshots_since_def)
qed

section \<open>An example\<close>

text \<open>A thread whose only turn has failed, read for a chat (or for none).\<close>

lemma with_thread_id_frame [simp]:
  "sn_turn_id (with_thread_id i sn) = sn_turn_id sn"
  "sn_turn_status (with_thread_id i sn) = sn_turn_status sn"
  by (simp_all add: with_thread_id_def)

lemma itemless_turn:
  assumes "turns_of (thread_payload_of p) = [JObj turn]" "jget turn ''items'' = JNull"
  shows "sn_turn_id (snapshot_from_thread_read p) = item_str turn ''id''"
    and "sn_turn_status (snapshot_from_thread_read p) = status_text (jget turn ''status'')"
  using assms by (simp_all add: snapshot_from_thread_read_def snapshot_of_turn_def Let_def
      latest_user_message_def latest_final_agent_message_def normalize_finalized_turn_def blank_def
      collect_agent_message_entries_from_items_def)

definition demo_read :: jmap where
  "demo_read = [(''turns'', JArr [JObj [(''id'', JStr ''u''), (''status'', JStr ''failed'')]])]"

definition demo_session :: session where
  "demo_session = \<lparr>thread_list_with_options = (\<lambda>opts. Inr []), thread_read = (\<lambda>i. Inr demo_read)\<rparr>"

definition demo_previous :: notifier_observation where
  "demo_previous = new_observation ''t'' 5 ''u'' ''inProgress'' True True 1"

definition demo_notifier :: "int \<Rightarrow> notifier" where
  "demo_notifier chat = \<lparr>nf_kv = set_global_observer_target 0 chat 0 True Map.empty, nf_obs = [],
     nf_outbox = empty_outbox\<rparr>"

definition demo_poll :: "int \<Rightarrow> poll_error option \<times> notifier" where
  "demo_poll chat =
     poll_notifier_thread (\<lambda>_. ''x'') (Some demo_protector) 0 demo_session demo_previous 0 (demo_notifier chat)"

lemma demo_turn:
  obtains sn where "ended_turns demo_previous ''t'' demo_read 0 = [sn]" "sn_turn_id sn = ''u''"
    "notifier_terminal_status sn = Some ''failed''" "turns_of_read ''t'' demo_read = [sn]"
proof -
  define turn where "turn = [(''id'', JStr ''u''), (''status'', JStr ''failed'')]"
  define single where "single = [(''thread'', JObj (jset demo_read ''turns'' (JArr [JObj turn])))]"
  define sn where "sn = with_thread_id (trim_space ''t'') (snapshot_from_thread_read single)"
  have turns: "turns_of_read ''t'' demo_read = [sn]"
    by (simp add: turns_of_read_def notifier_turn_snapshots_from_read_def sn_def single_def turn_def
        demo_read_def Let_def List.map_filter_simps)
  have one: "turns_of (thread_payload_of single) = [JObj turn]" "jget turn ''items'' = JNull"
    by (simp_all add: single_def turn_def turns_of_def thread_payload_of_def jset_def)
  have trims: "trim_space ''u'' = ''u''" "trim_space ''failed'' = ''failed''" by code_simp+
  have st: "status_text (JStr ''failed'') = ''failed''" "canonical_terminal_status ''failed'' = ''failed''"
     "canonical_terminal_status ''inProgress'' = ''inprogress''" by code_simp+
  have id: "sn_turn_id sn = ''u''"
    using itemless_turn(1) [OF one] by (simp add: sn_def turn_def item_str_def string_value_def trims)
  moreover have "notifier_terminal_status sn = Some ''failed''"
    using itemless_turn(2) [OF one] by (simp add: sn_def turn_def st notifier_terminal_status_def
        is_notifier_terminal_status_def Let_def)
  moreover from this id have "ended_turns demo_previous ''t'' demo_read 0 = [sn]"
    by (simp add: ended_turns_def turns notifier_terminal_snapshots_since_def demo_previous_def
        new_observation_def notifier_start_index_def Let_def notifier_terminal_transition_def st)
  ultimately show ?thesis using turns that by blast
qed

lemma demo_outbox: "nf_outbox (demo_notifier c) = empty_outbox"
  by (simp add: demo_notifier_def)

lemma demo_target: "get_global_observer_target (nf_kv (demo_notifier 7)) =
   (Some \<lparr>ot_chat_id = 7, ot_topic_id = 0, ot_enabled = True\<rparr>, True)"
   "fst (get_global_observer_target (nf_kv (demo_notifier 0))) = None"
  by code_simp+

lemma demo_poll_args:
  "trim_space (no_thread_id demo_previous) = ''t''" "thread_read demo_session ''t'' = Inr demo_read"
  "poll_notifier_thread (\<lambda>_. ''x'') (Some demo_protector) 0 demo_session demo_previous 0 (demo_notifier c) =
     (fst (demo_poll c), snd (demo_poll c))"
proof -
  show "trim_space (no_thread_id demo_previous) = ''t''" by code_simp
qed (simp_all add: demo_session_def demo_poll_def)

lemma demo_poll_ok: "fst (demo_poll 7) = None"
proof -
  obtain sn where "ended_turns demo_previous ''t'' demo_read 0 = [sn]" "notifier_terminal_status sn = Some ''failed''"
    by (rule demo_turn)
  moreover have "trim_space ''t'' = ''t''" by code_simp
  ultimately show ?thesis
    using poll_thread_body [of demo_previous demo_session demo_read "\<lambda>_. ''x''" "Some demo_protector" 0 0 "demo_notifier 7"]
      demo_poll_args
    by (simp add: Let_def demo_target demo_poll_def demo_outbox empty_outbox_def enqueue_terminal_event_def
       enqueue_terminal_event_with_linked_release_def check_release_def apply_release_def notifier_delivery_items_def
       protect_payload_def demo_protector_def same_target_def record_read_of_def record_notifier_read_def)
qed

lemma ended_turns_are_enqueued_witness:
  "terminal_key ''t'' ''u'' ''failed'' \<in> te_key ` set (ob_events (nf_outbox (snd (demo_poll 7))))"
proof -
  obtain sn where sn: "turns_of_read ''t'' demo_read = [] @ sn # []" "sn_turn_id sn = ''u''"
      "notifier_terminal_status sn = Some ''failed''"
    by (rule demo_turn) simp
  have vals: "no_baseline_ready demo_previous" "no_last_turn_id demo_previous = ''u''" "trim_space ''u'' = ''u''"
      "canonical_terminal_status (no_last_turn_status demo_previous) = ''inprogress''"
    by code_simp+
  show ?thesis
    using ended_turns_are_enqueued [OF demo_poll_args(1) _ demo_poll_args(2) demo_target(1), of "\<lambda>_. ''x''" demo_protector 0 0
        "snd (demo_poll 7)" "[]" sn "[]" sn "''failed''"] sn vals demo_poll_args(3) [of 7] demo_poll_ok
    by (simp add: prod_eq_iff)
qed

lemma poll_stays_silent_witness: "nf_outbox (snd (demo_poll 0)) = empty_outbox"
  using poll_stays_silent [OF demo_poll_args(1) _ demo_poll_args(3) [of 0]] demo_target(2) demo_poll_args(2)
  by (simp add: demo_outbox)

lemma repeated_read_is_silent_witness:
  "notifier_terminal_snapshots_since (demo_previous\<lparr>no_last_turn_id := ''u2'', no_last_turn_status := ''failed''\<rparr>)
     [empty_snapshot\<lparr>sn_turn_id := ''u1'', sn_turn_status := ''completed''\<rparr>,
      empty_snapshot\<lparr>sn_turn_id := ''u2'', sn_turn_status := ''failed''\<rparr>] 0 = []"
proof -
  have "trim_space ''u2'' = ''u2''" "trim_space ''u1'' = ''u1''" by code_simp+
  then show ?thesis
  using repeated_read_is_silent [of "demo_previous\<lparr>no_last_turn_id := ''u2'', no_last_turn_status := ''failed''\<rparr>"
      "empty_snapshot\<lparr>sn_turn_id := ''u2'', sn_turn_status := ''failed''\<rparr>"
      "[empty_snapshot\<lparr>sn_turn_id := ''u1'', sn_turn_status := ''completed''\<rparr>]" 0]
  by (simp add: demo_previous_def new_observation_def)
qed

end
