(* ===== verification/Pending_Commands.thy ===== *)
theory Pending_Commands
  imports Delivery_Store
begin

text \<open>
  The queue of commands that wait for a busy thread (\<^verbatim>\<open>pending_commands\<close>) and the project a
  chat has selected (\<^verbatim>\<open>internal/storage/store_minimal.go\<close>). The table is a list of rows in
  insertion order and the next id; a prompt is stored protected and erased when its command is
  finished. The claims by thread and by source run the same statement with a different key: the
  locale \<^verbatim>\<open>keyed_queue\<close> states what is asked of a key and proves the order of execution once.
\<close>

section \<open>Data\<close>

datatype command_status = CmdPending | CmdClaimed | CmdCompleted | CmdFailed

record pending_command =
  cm_id :: nat
  cm_thread_id :: string
  cm_source_thread_id :: string
  cm_source_turn_id :: string
  cm_project_id :: string
  cm_chat_id :: int
  cm_topic_id :: int
  cm_prompt :: string
  cm_status :: command_status

record command_row =
  pc_id :: nat
  pc_thread_id :: string
  pc_source_thread_id :: string
  pc_source_turn_id :: string
  pc_project_id :: string
  pc_chat_id :: int
  pc_topic_id :: int
  pc_payload :: "string option"
  pc_status :: command_status

record command_table =
  ct_rows :: "command_row list"
  ct_next :: nat

definition empty_commands :: command_table where
  "empty_commands = \<lparr>ct_rows = [], ct_next = 1\<rparr>"

datatype command_error =
    CmdFieldsRequired | CmdThreadRequired | CmdSourceRequired | CmdRehomeRequired | CmdProjectRequired
  | CmdNoProtector | CmdProtect | CmdUnprotect | CmdScan | CmdChanged nat

section \<open>Operations\<close>

definition enqueue_pending_command ::
  "protector option \<Rightarrow> pending_command \<Rightarrow> command_table \<Rightarrow> (command_error, unit) result \<times> command_table" where
  "enqueue_pending_command prot cmd tab =
     (let thread = trim_space (cm_thread_id cmd); project = trim_space (cm_project_id cmd);
          prompt = trim_space (cm_prompt cmd)
      in if thread = [] \<or> project = [] \<or> prompt = [] then (Inl CmdFieldsRequired, tab)
         else case prot of
           None \<Rightarrow> (Inl CmdNoProtector, tab)
         | Some p \<Rightarrow>
            (case protect p prompt of
               None \<Rightarrow> (Inl CmdProtect, tab)
             | Some protected \<Rightarrow>
                 (Inr (), tab\<lparr>ct_rows := ct_rows tab @
                    [\<lparr>pc_id = ct_next tab, pc_thread_id = thread,
                      pc_source_thread_id = trim_space (cm_source_thread_id cmd),
                      pc_source_turn_id = trim_space (cm_source_turn_id cmd), pc_project_id = project,
                      pc_chat_id = cm_chat_id cmd, pc_topic_id = cm_topic_id cmd,
                      pc_payload = Some protected, pc_status = CmdPending\<rparr>],
                    ct_next := Suc (ct_next tab)\<rparr>)))"

definition command_of :: "string \<Rightarrow> command_row \<Rightarrow> pending_command" where
  "command_of prompt r =
     \<lparr>cm_id = pc_id r, cm_thread_id = pc_thread_id r, cm_source_thread_id = pc_source_thread_id r,
      cm_source_turn_id = pc_source_turn_id r, cm_project_id = pc_project_id r,
      cm_chat_id = pc_chat_id r, cm_topic_id = pc_topic_id r, cm_prompt = prompt,
      cm_status = CmdClaimed\<rparr>"

definition set_command_status ::
  "nat \<Rightarrow> command_status \<Rightarrow> (command_row \<Rightarrow> command_row) \<Rightarrow> command_table \<Rightarrow> command_table" where
  "set_command_status i st f tab =
     tab\<lparr>ct_rows := update_rows (\<lambda>r. pc_id r = i \<and> pc_status r = st) f (ct_rows tab)\<rparr>"

text \<open>
  The transaction both claims run: the oldest waiting row of a key is taken, unless a row of that
  key is being executed. The prompt is read after the commit, so a prompt that cannot be read leaves
  its row claimed; the command is then returned with the error.
\<close>

definition claim_by_key ::
  "(command_row \<Rightarrow> 'k) \<Rightarrow> 'k \<Rightarrow> protector \<Rightarrow> command_table \<Rightarrow>
   (command_error, (pending_command \<times> command_error option) option) result \<times> command_table" where
  "claim_by_key key k p tab =
     (if list_ex (\<lambda>r. key r = k \<and> pc_status r = CmdClaimed) (ct_rows tab) then (Inr None, tab)
      else case sort_key pc_id (filter (\<lambda>r. key r = k \<and> pc_status r = CmdPending) (ct_rows tab)) of
        [] \<Rightarrow> (Inr None, tab)
      | r # _ \<Rightarrow>
         (case pc_payload r of
            None \<Rightarrow> (Inl CmdScan, tab)
          | Some protected \<Rightarrow>
              if length (filter (\<lambda>s. pc_id s = pc_id r \<and> pc_status s = CmdPending) (ct_rows tab)) \<noteq> 1
              then (Inr None, tab)
              else ((case unprotect p protected of
                       None \<Rightarrow> Inr (Some (command_of [] r, Some CmdUnprotect))
                     | Some prompt \<Rightarrow> Inr (Some (command_of prompt r, None))),
                    set_command_status (pc_id r) CmdPending (\<lambda>s. s\<lparr>pc_status := CmdClaimed\<rparr>) tab)))"

definition claim_pending_command ::
  "protector option \<Rightarrow> string \<Rightarrow> command_table \<Rightarrow>
   (command_error, (pending_command \<times> command_error option) option) result \<times> command_table" where
  "claim_pending_command prot thread tab =
     (let thread = trim_space thread
      in if thread = [] then (Inl CmdThreadRequired, tab)
         else case prot of
           None \<Rightarrow> (Inl CmdNoProtector, tab)
         | Some p \<Rightarrow> claim_by_key pc_thread_id thread p tab)"

definition source_key :: "command_row \<Rightarrow> int \<times> int \<times> string \<times> string" where
  "source_key r = (pc_chat_id r, pc_topic_id r, pc_source_thread_id r, pc_source_turn_id r)"

definition claim_pending_command_for_source ::
  "protector option \<Rightarrow> int \<Rightarrow> int \<Rightarrow> string \<Rightarrow> string \<Rightarrow> command_table \<Rightarrow>
   (command_error, (pending_command \<times> command_error option) option) result \<times> command_table" where
  "claim_pending_command_for_source prot chat topic source turn tab =
     (let source = trim_space source; turn = trim_space turn
      in if chat = 0 \<or> source = [] \<or> turn = [] then (Inl CmdSourceRequired, tab)
         else case prot of
           None \<Rightarrow> (Inl CmdNoProtector, tab)
         | Some p \<Rightarrow> claim_by_key source_key (chat, topic, source, turn) p tab)"

definition claimed_count :: "nat \<Rightarrow> command_table \<Rightarrow> nat" where
  "claimed_count i tab =
     length (filter (\<lambda>r. pc_id r = i \<and> pc_status r = CmdClaimed) (ct_rows tab))"

definition require_one :: "nat \<Rightarrow> (command_error, unit) result" where
  "require_one n = (if n = 1 then Inr () else Inl (CmdChanged n))"

definition release_claimed_pending_command ::
  "nat \<Rightarrow> command_table \<Rightarrow> (command_error, unit) result \<times> command_table" where
  "release_claimed_pending_command i tab =
     (require_one (claimed_count i tab),
      set_command_status i CmdClaimed (\<lambda>r. r\<lparr>pc_status := CmdPending\<rparr>) tab)"

definition finish_row :: "command_status \<Rightarrow> command_row \<Rightarrow> command_row" where
  "finish_row st r = r\<lparr>pc_status := st, pc_payload := None\<rparr>"

definition complete_pending_command ::
  "nat \<Rightarrow> command_table \<Rightarrow> (command_error, unit) result \<times> command_table" where
  "complete_pending_command i tab =
     (require_one (claimed_count i tab), set_command_status i CmdClaimed (finish_row CmdCompleted) tab)"

definition fail_pending_command ::
  "nat \<Rightarrow> command_table \<Rightarrow> (command_error, unit) result \<times> command_table" where
  "fail_pending_command i tab =
     (require_one (claimed_count i tab), set_command_status i CmdClaimed (finish_row CmdFailed) tab)"

definition recover_claimed_pending_commands :: "command_table \<Rightarrow> nat \<times> command_table" where
  "recover_claimed_pending_commands tab =
     (length (filter (\<lambda>r. pc_status r = CmdClaimed) (ct_rows tab)),
      tab\<lparr>ct_rows := update_rows (\<lambda>r. pc_status r = CmdClaimed) (finish_row CmdFailed) (ct_rows tab)\<rparr>)"

definition open_status :: "command_status \<Rightarrow> bool" where
  "open_status st \<longleftrightarrow> st = CmdPending \<or> st = CmdClaimed"

definition has_pending_command_backlog_for_source ::
  "int \<Rightarrow> int \<Rightarrow> string \<Rightarrow> string \<Rightarrow> command_table \<Rightarrow> bool" where
  "has_pending_command_backlog_for_source chat topic source turn tab =
     (let source = trim_space source; turn = trim_space turn
      in if chat = 0 \<or> source = [] \<or> turn = [] then False
         else list_ex (\<lambda>r. source_key r = (chat, topic, source, turn) \<and> open_status (pc_status r)) (ct_rows tab))"

definition rehome_pending_commands_for_source ::
  "int \<Rightarrow> int \<Rightarrow> string \<Rightarrow> string \<Rightarrow> string \<Rightarrow> command_table \<Rightarrow> (command_error, unit) result \<times> command_table" where
  "rehome_pending_commands_for_source chat topic source turn target tab =
     (let source = trim_space source; turn = trim_space turn; target = trim_space target
      in if chat = 0 \<or> source = [] \<or> turn = [] \<or> target = [] then (Inl CmdRehomeRequired, tab)
         else (Inr (), tab\<lparr>ct_rows := update_rows
                 (\<lambda>r. source_key r = (chat, topic, source, turn) \<and> open_status (pc_status r))
                 (\<lambda>r. r\<lparr>pc_thread_id := target\<rparr>) (ct_rows tab)\<rparr>))"

text \<open>The project of a chat, keyed by chat and topic.\<close>

type_synonym selected_projects = "string \<rightharpoonup> string"

definition set_selected_project ::
  "int \<Rightarrow> int \<Rightarrow> string \<Rightarrow> selected_projects \<Rightarrow> (command_error, selected_projects) result" where
  "set_selected_project chat topic project sp =
     (let project = trim_space project
      in if project = [] then Inl CmdProjectRequired
         else Inr (sp(chat_key chat topic \<mapsto> project)))"

definition get_selected_project :: "int \<Rightarrow> int \<Rightarrow> selected_projects \<Rightarrow> string" where
  "get_selected_project chat topic sp =
     (case sp (chat_key chat topic) of None \<Rightarrow> [] | Some p \<Rightarrow> p)"

section \<open>The table as a state machine\<close>

definition finished :: "command_row \<Rightarrow> bool" where
  "finished r \<longleftrightarrow> pc_status r = CmdCompleted \<or> pc_status r = CmdFailed"

definition commands_ok :: "command_table \<Rightarrow> bool" where
  "commands_ok tab \<longleftrightarrow>
     sorted_wrt (<) (map pc_id (ct_rows tab)) \<and>
     (\<forall>r\<in>set (ct_rows tab). pc_id r < ct_next tab \<and> pc_thread_id r \<noteq> [] \<and> pc_project_id r \<noteq> [] \<and>
        (pc_payload r = None \<longleftrightarrow> finished r))"

inductive command_step :: "protector \<Rightarrow> command_table \<Rightarrow> command_table \<Rightarrow> bool" for p where
  enqueue: "command_step p tab (snd (enqueue_pending_command (Some p) cmd tab))"
| claim: "command_step p tab (snd (claim_pending_command (Some p) thread tab))"
| claim_source: "command_step p tab (snd (claim_pending_command_for_source (Some p) chat topic source turn tab))"
| release: "command_step p tab (snd (release_claimed_pending_command i tab))"
| complete: "command_step p tab (snd (complete_pending_command i tab))"
| fail: "command_step p tab (snd (fail_pending_command i tab))"
| rehome: "command_step p tab (snd (rehome_pending_commands_for_source chat topic source turn target tab))"
| restart: "command_step p tab (snd (recover_claimed_pending_commands tab))"

lemma rewrite_commands_ok:
  assumes "commands_ok tab" "\<And>r. pc_id (f r) = pc_id r" "\<And>r. pc_project_id (f r) = pc_project_id r"
    "\<And>r. pc_thread_id r \<noteq> [] \<Longrightarrow> pc_thread_id (f r) \<noteq> []"
    "\<And>r. P r \<Longrightarrow> pc_payload r = None \<longleftrightarrow> finished r \<Longrightarrow> pc_payload (f r) = None \<longleftrightarrow> finished (f r)"
  shows "commands_ok (tab\<lparr>ct_rows := update_rows P f (ct_rows tab)\<rparr>)"
  using assms by (auto simp: commands_ok_def map_update_rows ball_update_rows)

lemma claim_by_key_cases:
  assumes "claim_by_key key k p tab = (res, tab')"
  obtains (none) "tab' = tab" "\<nexists>c. res = Inr (Some c)"
  | (row) r rest prompt err where
      "\<not> list_ex (\<lambda>r. key r = k \<and> pc_status r = CmdClaimed) (ct_rows tab)"
      "sort_key pc_id (filter (\<lambda>r. key r = k \<and> pc_status r = CmdPending) (ct_rows tab)) = r # rest"
      "res = Inr (Some (command_of prompt r, err))"
      "tab' = set_command_status (pc_id r) CmdPending (\<lambda>s. s\<lparr>pc_status := CmdClaimed\<rparr>) tab"
  using assms
  by (auto simp: claim_by_key_def split: if_splits list.splits option.splits)

lemma claim_by_key_ok:
  assumes "commands_ok tab"
  shows "commands_ok (snd (claim_by_key key k p tab))"
proof -
  obtain res tab' where c: "claim_by_key key k p tab = (res, tab')" by (rule prod.exhaust)
  show ?thesis using c
  proof (cases rule: claim_by_key_cases)
    case row
    then show ?thesis
      using assms c by (auto simp: set_command_status_def finished_def intro!: rewrite_commands_ok)
  qed (use assms c in simp)
qed

lemma command_step_ok:
  assumes "command_step p tab tab'" "commands_ok tab"
  shows "commands_ok tab'"
  using assms(1)
proof cases
  case (enqueue cmd)
  then show ?thesis
    using assms(2) by (auto simp: enqueue_pending_command_def commands_ok_def Let_def sorted_wrt_append
        finished_def split: option.split)
next
  case (claim thread)
  then show ?thesis
    using assms(2) claim_by_key_ok by (auto simp: claim_pending_command_def Let_def)
next
  case (claim_source chat topic source turn)
  then show ?thesis
    using assms(2) claim_by_key_ok by (auto simp: claim_pending_command_for_source_def Let_def)
qed (use assms(2) in \<open>auto simp: release_claimed_pending_command_def complete_pending_command_def
  fail_pending_command_def rehome_pending_commands_for_source_def recover_claimed_pending_commands_def
  set_command_status_def finish_row_def finished_def Let_def intro!: rewrite_commands_ok\<close>)

lemma empty_commands_ok: "commands_ok empty_commands"
  by (simp add: commands_ok_def empty_commands_def)

lemma commands_reach_ok: "(command_step p)\<^sup>*\<^sup>* tab tab' \<Longrightarrow> commands_ok tab \<Longrightarrow> commands_ok tab'"
  by (induction rule: rtranclp_induct) (auto dest: command_step_ok)

lemma unique_row:
  assumes "commands_ok tab" "r \<in> set (ct_rows tab)" "s \<in> set (ct_rows tab)" "pc_id r = pc_id s"
  shows "r = s"
proof -
  have "distinct (map pc_id (ct_rows tab))"
    using assms(1) by (simp add: commands_ok_def strict_sorted_iff)
  then show ?thesis using assms(2-4) by (simp add: distinct_map inj_on_def)
qed

section \<open>Order of execution\<close>

definition takes_oldest :: "(command_row \<Rightarrow> 'k) \<Rightarrow> command_table \<Rightarrow> command_table \<Rightarrow> bool" where
  "takes_oldest key tab tab' \<longleftrightarrow>
     tab' = tab \<or>
     (\<exists>r\<in>set (ct_rows tab). pc_status r = CmdPending \<and>
        (\<forall>e\<in>set (ct_rows tab). key e = key r \<longrightarrow>
           pc_status e \<noteq> CmdClaimed \<and> (pc_status e = CmdPending \<longrightarrow> pc_id r \<le> pc_id e)) \<and>
        tab' = set_command_status (pc_id r) CmdPending (\<lambda>s. s\<lparr>pc_status := CmdClaimed\<rparr>) tab)"

text \<open>
  What the queue asks of a way to claim: a claim either does nothing or takes the oldest waiting row
  of a key of which nothing is being executed. Then of two rows with that key the later one is not
  taken while the earlier one is unfinished.
\<close>

locale keyed_queue =
  fixes key :: "command_row \<Rightarrow> 'k" and claim :: "command_table \<Rightarrow> command_table \<Rightarrow> bool"
  assumes claim_oldest: "claim tab tab' \<Longrightarrow> takes_oldest key tab tab'"
begin

lemma later_row_waits:
  assumes "claim tab tab'" and ok: "commands_ok tab" and "a \<in> set (ct_rows tab)" "b \<in> set (ct_rows tab)" "key a = key b"
    "pc_id a < pc_id b" "\<not> finished a" "pc_status b = CmdPending"
  shows "b \<in> set (ct_rows tab')"
proof -
  consider "tab' = tab" | r where "r \<in> set (ct_rows tab)"
    "\<forall>e\<in>set (ct_rows tab). key e = key r \<longrightarrow>
       pc_status e \<noteq> CmdClaimed \<and> (pc_status e = CmdPending \<longrightarrow> pc_id r \<le> pc_id e)"
    "tab' = set_command_status (pc_id r) CmdPending (\<lambda>s. s\<lparr>pc_status := CmdClaimed\<rparr>) tab"
    using claim_oldest [OF assms(1)] unfolding takes_oldest_def by blast
  then show ?thesis
  proof cases
    case 2
    have "pc_id b \<noteq> pc_id r"
    proof
      assume "pc_id b = pc_id r"
      then have "b = r" using unique_row [OF ok assms(4) 2(1)] by simp
      then show False using 2(2) assms(3,5-7) by (cases "pc_status a") (auto simp: finished_def)
    qed
    then show ?thesis
      using 2(3) assms(4) by (auto simp: set_command_status_def set_update_rows intro!: image_eqI [of _ _ b])
  qed (use assms(4) in simp)
qed

end

lemma claim_by_key_oldest: "takes_oldest key tab (snd (claim_by_key key k p tab))"
proof -
  obtain res tab' where c: "claim_by_key key k p tab = (res, tab')" by (rule prod.exhaust)
  from c show ?thesis
  proof (cases rule: claim_by_key_cases)
    case (row r rest prompt err)
    let ?wait = "filter (\<lambda>r. key r = k \<and> pc_status r = CmdPending) (ct_rows tab)"
    have "set (r # rest) = set ?wait" using row(2) by (metis set_sort)
    moreover have "sorted (map pc_id (r # rest))" using row(2) by (metis sorted_sort_key)
    ultimately have "r \<in> set (ct_rows tab)" "key r = k" "pc_status r = CmdPending"
      "\<forall>e\<in>set ?wait. pc_id r \<le> pc_id e" by auto
    with row c show ?thesis by (auto simp: takes_oldest_def list_ex_iff)
  qed (use c in \<open>simp add: takes_oldest_def\<close>)
qed

definition claims_by_thread :: "protector \<Rightarrow> command_table \<Rightarrow> command_table \<Rightarrow> bool" where
  "claims_by_thread p tab tab' \<longleftrightarrow> (\<exists>thread. tab' = snd (claim_pending_command (Some p) thread tab))"

definition claims_by_source :: "protector \<Rightarrow> command_table \<Rightarrow> command_table \<Rightarrow> bool" where
  "claims_by_source p tab tab' \<longleftrightarrow>
     (\<exists>chat topic source turn. tab' = snd (claim_pending_command_for_source (Some p) chat topic source turn tab))"

lemma claims_take_oldest:
  "claims_by_thread p tab tab' \<Longrightarrow> takes_oldest pc_thread_id tab tab'"
  "claims_by_source p tab tab' \<Longrightarrow> takes_oldest source_key tab tab'"
  by (auto simp: claims_by_thread_def claims_by_source_def claim_pending_command_def
      claim_pending_command_for_source_def Let_def takes_oldest_def [of _ tab tab] intro: claim_by_key_oldest)

interpretation by_thread: keyed_queue pc_thread_id "claims_by_thread p" for p
  by unfold_locales (rule claims_take_oldest)

interpretation by_source: keyed_queue source_key "claims_by_source p" for p
  by unfold_locales (rule claims_take_oldest)

text \<open>
  Two commands of one source and one thread, the later one waiting behind the earlier one. A rehome
  moves the waiting and the claimed commands of a source together, so it keeps them in one thread.
\<close>

definition behind :: "nat \<Rightarrow> nat \<Rightarrow> command_table \<Rightarrow> bool" where
  "behind i j tab \<longleftrightarrow>
     (\<exists>a\<in>set (ct_rows tab). \<exists>b\<in>set (ct_rows tab). pc_id a = i \<and> pc_id b = j \<and> source_key a = source_key b \<and>
        (finished a \<or> pc_thread_id a = pc_thread_id b \<and> pc_status b = CmdPending))"

lemma behindI:
  "a \<in> set (ct_rows tab) \<Longrightarrow> b \<in> set (ct_rows tab) \<Longrightarrow> source_key a = source_key b \<Longrightarrow>
   finished a \<or> pc_thread_id a = pc_thread_id b \<and> pc_status b = CmdPending \<Longrightarrow> behind (pc_id a) (pc_id b) tab"
  by (auto simp: behind_def)

lemma behind_rewrite:
  assumes "behind i j tab"
    and "\<And>r. pc_id (f r) = pc_id r" "\<And>r. source_key (f r) = source_key r"
    and "\<And>r. P r \<Longrightarrow> finished r \<Longrightarrow> finished (f r)"
    and "\<And>a b. a \<in> set (ct_rows tab) \<Longrightarrow> b \<in> set (ct_rows tab) \<Longrightarrow> pc_id a = i \<Longrightarrow> pc_id b = j \<Longrightarrow>
      source_key a = source_key b \<Longrightarrow> \<not> finished a \<Longrightarrow> pc_thread_id a = pc_thread_id b \<Longrightarrow> pc_status b = CmdPending \<Longrightarrow>
      (let a' = (if P a then f a else a); b' = (if P b then f b else b)
       in finished a' \<or> pc_thread_id a' = pc_thread_id b' \<and> pc_status b' = CmdPending)"
  shows "behind i j (tab\<lparr>ct_rows := update_rows P f (ct_rows tab)\<rparr>)"
proof -
  obtain a b where ab: "a \<in> set (ct_rows tab)" "b \<in> set (ct_rows tab)" "pc_id a = i" "pc_id b = j"
      "source_key a = source_key b" "finished a \<or> pc_thread_id a = pc_thread_id b \<and> pc_status b = CmdPending"
    using assms(1) by (auto simp: behind_def)
  let ?g = "\<lambda>r. if P r then f r else r"
  have "finished (?g a) \<or> pc_thread_id (?g a) = pc_thread_id (?g b) \<and> pc_status (?g b) = CmdPending"
  proof (cases "finished a")
    case False
    then show ?thesis using assms(5) [OF ab(1-5)] ab(6) by (simp only: Let_def) blast
  qed (simp add: assms(4))
  moreover have "?g a \<in> set (update_rows P f (ct_rows tab))" "?g b \<in> set (update_rows P f (ct_rows tab))"
    using ab(1,2) by (auto simp: set_update_rows)
  moreover have "pc_id (?g a) = i" "pc_id (?g b) = j" "source_key (?g a) = source_key (?g b)"
    using ab(3-5) assms(2,3) by simp_all
  moreover have "ct_rows (tab\<lparr>ct_rows := update_rows P f (ct_rows tab)\<rparr>) = update_rows P f (ct_rows tab)" by simp
  ultimately show ?thesis using behindI [of "?g a" "tab\<lparr>ct_rows := update_rows P f (ct_rows tab)\<rparr>" "?g b"] by simp
qed

lemma behind_claim:
  assumes "behind i j tab" "i < j" "commands_ok tab" "takes_oldest key tab tab'"
    and waits: "\<And>a b. a \<in> set (ct_rows tab) \<Longrightarrow> b \<in> set (ct_rows tab) \<Longrightarrow> source_key a = source_key b \<Longrightarrow>
      pc_thread_id a = pc_thread_id b \<Longrightarrow> pc_id a < pc_id b \<Longrightarrow> \<not> finished a \<Longrightarrow> pc_status b = CmdPending \<Longrightarrow>
      b \<in> set (ct_rows tab')"
  shows "behind i j tab'"
proof -
  consider "tab' = tab" | r where "r \<in> set (ct_rows tab)"
    "tab' = set_command_status (pc_id r) CmdPending (\<lambda>s. s\<lparr>pc_status := CmdClaimed\<rparr>) tab"
    using assms(4) unfolding takes_oldest_def by blast
  then show ?thesis
  proof cases
    case 2
    show ?thesis
      unfolding 2(2) set_command_status_def
    proof (rule behind_rewrite [OF assms(1)])
      fix a b assume ab: "a \<in> set (ct_rows tab)" "b \<in> set (ct_rows tab)" "pc_id a = i" "pc_id b = j"
        "source_key a = source_key b" "\<not> finished a" "pc_thread_id a = pc_thread_id b" "pc_status b = CmdPending"
      have "b \<in> set (ct_rows tab')" using waits [of a b] ab assms(2) by simp
      then have "pc_id b \<noteq> pc_id r"
        using ab(8) unfolding 2(2) set_command_status_def
        by (auto simp: set_update_rows)
      then show "let a' = if pc_id a = pc_id r \<and> pc_status a = CmdPending then a\<lparr>pc_status := CmdClaimed\<rparr> else a;
            b' = if pc_id b = pc_id r \<and> pc_status b = CmdPending then b\<lparr>pc_status := CmdClaimed\<rparr> else b
          in finished a' \<or> pc_thread_id a' = pc_thread_id b' \<and> pc_status b' = CmdPending"
        using ab(7,8) by simp
    qed (auto simp: source_key_def finished_def)
  qed (use assms(1) in simp)
qed

lemma behind_step:
  assumes "command_step p tab tab'" "behind i j tab" "i < j" "commands_ok tab"
  shows "behind i j tab'"
  using assms(1)
proof cases
  case (enqueue cmd)
  then show ?thesis
    using assms(2) by (auto simp: enqueue_pending_command_def behind_def Let_def split: option.split)
next
  case (claim thread)
  then have c: "claims_by_thread p tab tab'" by (auto simp: claims_by_thread_def)
  show ?thesis
    by (rule behind_claim [OF assms(2-4) claims_take_oldest(1) [OF c]])
      (rule by_thread.later_row_waits [OF c assms(4)])
next
  case (claim_source chat topic source turn)
  then have c: "claims_by_source p tab tab'" by (auto simp: claims_by_source_def)
  show ?thesis
    by (rule behind_claim [OF assms(2-4) claims_take_oldest(2) [OF c]])
      (rule by_source.later_row_waits [OF c assms(4)])
next
  case (rehome chat topic source turn target)
  have "open_status (pc_status a)" if "\<not> finished a" for a
    using that by (cases "pc_status a") (simp_all add: finished_def open_status_def)
  then show ?thesis
    using rehome assms(2)
    by (auto simp: rehome_pending_commands_for_source_def source_key_def open_status_def finished_def Let_def
      intro!: behind_rewrite)
qed (use assms(2) in \<open>auto simp: release_claimed_pending_command_def complete_pending_command_def
  fail_pending_command_def recover_claimed_pending_commands_def
  set_command_status_def finish_row_def source_key_def finished_def Let_def
  intro!: behind_rewrite\<close>)

lemma behind_reach:
  assumes "(command_step p)\<^sup>*\<^sup>* tab tab'" "behind i j tab" "i < j" "commands_ok tab"
  shows "behind i j tab'"
  using assms
proof (induction rule: rtranclp_induct)
  case (step tab1 tab2)
  then show ?case using behind_step commands_reach_ok by blast
qed simp

section \<open>Properties\<close>

text \<open>
  C22: Queued commands run in order. Of two commands of one chat, topic and source turn that wait for
  one thread the later one is not taken before the earlier one is finished: once it is anything but
  waiting, the earlier one has been completed or failed, through any sequence of enqueues, claims by
  thread and by source, releases, failures, completions, moves to another thread and restarts. So the
  two are never executed at the same time.
\<close>
theorem commands_run_in_order:
  assumes "(command_step p)\<^sup>*\<^sup>* empty_commands tab" "a \<in> set (ct_rows tab)" "b \<in> set (ct_rows tab)"
    and "source_key a = source_key b" "pc_thread_id a = pc_thread_id b" "pc_id a < pc_id b"
    and "pc_status b = CmdPending" "(command_step p)\<^sup>*\<^sup>* tab tab'"
    and "b' \<in> set (ct_rows tab')" "pc_id b' = pc_id b" "pc_status b' \<noteq> CmdPending"
  shows "\<exists>a'\<in>set (ct_rows tab'). pc_id a' = pc_id a \<and> finished a'"
proof -
  have ok: "commands_ok tab" by (rule commands_reach_ok [OF assms(1) empty_commands_ok])
  have "behind (pc_id a) (pc_id b) tab" using assms(2-5,7) by (intro behindI) simp_all
  then have "behind (pc_id a) (pc_id b) tab'" by (rule behind_reach [OF assms(8) _ assms(6) ok])
  then show ?thesis
    using unique_row [OF commands_reach_ok [OF assms(8) ok] assms(9)] assms(10,11) by (auto simp: behind_def)
qed

text \<open>A run for the examples: two commands of one source and thread, executed one after the other.\<close>

definition demo_command :: "string \<Rightarrow> pending_command" where
  "demo_command prompt = \<lparr>cm_id = 0, cm_thread_id = ''t'', cm_source_thread_id = ''s'', cm_source_turn_id = ''u'',
     cm_project_id = ''p'', cm_chat_id = 5, cm_topic_id = 0, cm_prompt = prompt, cm_status = CmdPending\<rparr>"

definition plain_protector :: protector where
  "plain_protector = \<lparr>protect = Some, unprotect = Some\<rparr>"

definition demo_queued :: command_table where
  "demo_queued = snd (enqueue_pending_command (Some plain_protector) (demo_command ''b'')
     (snd (enqueue_pending_command (Some plain_protector) (demo_command ''a'') empty_commands)))"

definition demo_running :: command_table where
  "demo_running = snd (claim_pending_command (Some plain_protector) ''t'' demo_queued)"

definition demo_done :: command_table where
  "demo_done = snd (complete_pending_command 1 demo_running)"

lemma demo_running_values:
  "map pc_status (ct_rows demo_running) = [CmdClaimed, CmdPending]"
  "map pc_thread_id (ct_rows demo_running) = [''t'', ''t'']" "map pc_id (ct_rows demo_running) = [1, 2]"
  by code_simp+

definition demo_second :: command_table where
  "demo_second = snd (claim_pending_command_for_source (Some plain_protector) 5 0 ''s'' ''u'' demo_done)"

lemma demo_queued_run: "(command_step plain_protector)\<^sup>*\<^sup>* empty_commands demo_queued"
proof -
  let ?one = "snd (enqueue_pending_command (Some plain_protector) (demo_command ''a'') empty_commands)"
  have "command_step plain_protector empty_commands ?one" "command_step plain_protector ?one demo_queued"
    unfolding demo_queued_def by (rule command_step.enqueue)+
  then show ?thesis by (meson r_into_rtranclp rtranclp.rtrancl_into_rtrancl)
qed

lemma demo_done_run:
  "(command_step plain_protector)\<^sup>*\<^sup>* demo_queued demo_done" "command_step plain_protector demo_done demo_second"
proof -
  have "command_step plain_protector demo_queued demo_running" "command_step plain_protector demo_running demo_done"
    unfolding demo_running_def demo_done_def by (rule command_step.intros)+
  then show "(command_step plain_protector)\<^sup>*\<^sup>* demo_queued demo_done" by (meson r_into_rtranclp rtranclp.rtrancl_into_rtrancl)
  show "command_step plain_protector demo_done demo_second"
    unfolding demo_second_def by (rule command_step.claim_source)
qed

lemma commands_run_in_order_witness:
  "map pc_status (ct_rows demo_second) = [CmdCompleted, CmdClaimed] \<and>
   (\<exists>a\<in>set (ct_rows demo_second). pc_id a = 1 \<and> finished a)"
proof -
  have q: "map (\<lambda>r. (pc_id r, pc_thread_id r, source_key r, pc_status r)) (ct_rows demo_queued) =
      [(1, ''t'', (5, 0, ''s'', ''u''), CmdPending), (2, ''t'', (5, 0, ''s'', ''u''), CmdPending)]"
    and e: "map (\<lambda>r. (pc_id r, pc_status r)) (ct_rows demo_second) = [(1, CmdCompleted), (2, CmdClaimed)]"
    by code_simp+
  obtain a b where ab: "ct_rows demo_queued = [a, b]" "pc_id a = 1" "pc_id b = 2"
      "pc_thread_id a = pc_thread_id b" "source_key a = source_key b" "pc_status b = CmdPending"
    using q by (auto simp: map_eq_Cons_conv)
  obtain a' b' where e': "ct_rows demo_second = [a', b']" "pc_status a' = CmdCompleted" "pc_id b' = 2" "pc_status b' = CmdClaimed"
    using e by (auto simp: map_eq_Cons_conv)
  have "(command_step plain_protector)\<^sup>*\<^sup>* demo_queued demo_second"
    by (rule rtranclp.rtrancl_into_rtrancl [OF demo_done_run])
  from commands_run_in_order [OF demo_queued_run _ _ ab(5) ab(4) _ ab(6) this, of b'] ab(1-3) e'
  show ?thesis by auto
qed

lemma command_step_final:
  assumes "command_step p tab tab'" "r \<in> set (ct_rows tab)" "finished r"
  shows "r \<in> set (ct_rows tab')"
proof -
  have rewrite: "r \<in> set (update_rows P f (ct_rows tab))" if "\<not> P r" for P f
    using assms(2) that by (auto simp: set_update_rows intro!: image_eqI [of _ _ r])
  have claimed: "r \<in> set (ct_rows (snd (claim_by_key key k p tab)))" for key :: "command_row \<Rightarrow> 'k" and k
    using claim_by_key_oldest [of key tab k p] assms(2,3)
    by (auto simp: takes_oldest_def set_command_status_def finished_def intro!: rewrite)
  from assms(1) show ?thesis
  proof cases
    case (claim thread)
    then show ?thesis using claimed [of pc_thread_id] assms(2) by (simp add: claim_pending_command_def Let_def)
  next
    case (claim_source chat topic source turn)
    then show ?thesis using claimed [of source_key] assms(2)
      by (simp add: claim_pending_command_for_source_def Let_def)
  qed (use assms(2,3) in \<open>auto simp: enqueue_pending_command_def release_claimed_pending_command_def
      complete_pending_command_def fail_pending_command_def rehome_pending_commands_for_source_def
      recover_claimed_pending_commands_def set_command_status_def finished_def open_status_def Let_def
      intro!: rewrite split: option.split\<close>)
qed


lemma commands_final:
  assumes "(command_step p)\<^sup>*\<^sup>* tab tab'" "r \<in> set (ct_rows tab)" "finished r"
  shows "r \<in> set (ct_rows tab')"
  using assms by (induction rule: rtranclp_induct) (auto dest: command_step_final)

lemma claimed_was_pending:
  assumes "claim_by_key key k p tab = (Inr (Some (c, err)), tab')"
  shows "\<exists>r\<in>set (ct_rows tab). pc_id r = cm_id c \<and> pc_status r = CmdPending"
  using assms
proof (cases rule: claim_by_key_cases)
  case (row r rest prompt e)
  have "set (r # rest) = set (filter (\<lambda>r. key r = k \<and> pc_status r = CmdPending) (ct_rows tab))"
    using row(2) by (metis set_sort)
  then have "r \<in> set (ct_rows tab)" "pc_status r = CmdPending" by auto
  then show ?thesis using row(3) by (auto simp: command_of_def)
qed simp

text \<open>
  C23: A finished command is final. Once a command is completed or failed (by its executor, or by a
  restart that found it claimed), its row never changes again through any operations on the queue,
  its prompt is gone, and no claim, by thread or by source, hands it out a second time.
\<close>
theorem finished_command_final:
  assumes "(command_step p)\<^sup>*\<^sup>* empty_commands tab" "(command_step p)\<^sup>*\<^sup>* tab tab'"
    and "r \<in> set (ct_rows tab)" "finished r"
  shows "r \<in> set (ct_rows tab') \<and> pc_payload r = None \<and>
    (fst (claim_pending_command (Some p) thread tab') = Inr (Some (c, err)) \<longrightarrow> cm_id c \<noteq> pc_id r) \<and>
    (fst (claim_pending_command_for_source (Some p) chat topic source turn tab') = Inr (Some (c, err)) \<longrightarrow>
       cm_id c \<noteq> pc_id r)"
proof -
  have ok: "commands_ok tab" "commands_ok tab'"
    using commands_reach_ok [OF _ empty_commands_ok] assms(1,2) by (meson rtranclp_trans)+
  have row: "r \<in> set (ct_rows tab')" by (rule commands_final [OF assms(2-4)])
  have never: "cm_id c \<noteq> pc_id r" if hit: "fst (claim_by_key key k p tab') = Inr (Some (c, err))"
    for key :: "command_row \<Rightarrow> 'k" and k
  proof -
    have "claim_by_key key k p tab' = (Inr (Some (c, err)), snd (claim_by_key key k p tab'))"
      by (simp flip: hit)
    from claimed_was_pending [OF this]
    obtain s where s: "s \<in> set (ct_rows tab')" "pc_id s = cm_id c" "pc_status s = CmdPending" by blast
    then show ?thesis using unique_row [OF ok(2) s(1) row] assms(4) by (auto simp: finished_def)
  qed
  show ?thesis
    using row ok(1) assms(3,4) never [of pc_thread_id] never [of source_key]
    by (auto simp: commands_ok_def claim_pending_command_def claim_pending_command_for_source_def Let_def
        split: if_splits)
qed

lemma finished_command_final_witness:
  "pc_payload (ct_rows demo_done ! 0) = None"
proof -
  have "(command_step plain_protector)\<^sup>*\<^sup>* empty_commands demo_done"
    using demo_queued_run demo_done_run(1) by (rule rtranclp_trans)
  moreover have "map pc_status (ct_rows demo_done) = [CmdCompleted, CmdPending]" by code_simp
  then have "ct_rows demo_done ! 0 \<in> set (ct_rows demo_done)" "finished (ct_rows demo_done ! 0)"
    by (auto simp: map_eq_Cons_conv finished_def)
  ultimately show ?thesis
    using finished_command_final [of plain_protector demo_done demo_done "ct_rows demo_done ! 0"] by blast
qed

text \<open>
  A selected project is the one read back for that chat and topic, trimmed, and for no other
  chat or topic; an empty name is refused.
\<close>

lemma selected_project_roundtrip:
  "(trim_space project = [] \<longrightarrow> set_selected_project chat topic project sp = Inl CmdProjectRequired) \<and>
   (trim_space project \<noteq> [] \<longrightarrow>
     (\<exists>sp'. set_selected_project chat topic project sp = Inr sp' \<and>
        get_selected_project c t sp' =
          (if c = chat \<and> t = topic then trim_space project else get_selected_project c t sp)))"
  by (auto simp: set_selected_project_def get_selected_project_def Let_def chat_key_inj)

end
