(* ===== verification/Callback_Tokens.thy ===== *)
theory Callback_Tokens
  imports Pending_Commands
begin

text \<open>
  Buttons that work once: the confirmations of voice commands with their two callback routes, and
  the routes of the thread picker (\<^verbatim>\<open>internal/storage/store_minimal.go\<close>). A button carries a
  random token; the row of the token says what it may do, in which chat, on which message and until
  when. The locale \<^verbatim>\<open>single_use\<close> is the contract of such tokens; both tables interpret it.
\<close>

section \<open>Voice confirmations\<close>

datatype voice_status = VoicePending | VoiceExecuted | VoiceCancelled | VoiceExpired | VoiceFailed
datatype route_status = RouteActive | RouteConsumed

definition voice_target_new :: string where "voice_target_new = ''new''"
definition voice_target_thread :: string where "voice_target_thread = ''thread''"
definition voice_action_execute :: string where "voice_action_execute = ''voice_execute''"
definition voice_action_cancel :: string where "voice_action_cancel = ''voice_cancel''"

record voice_confirmation =
  vo_id :: nat
  vo_project_id :: string
  vo_target_kind :: string
  vo_thread_id :: string
  vo_source_turn_id :: string
  vo_transcript :: string
  vo_session_identity :: string
  vo_status :: voice_status
  vo_expires_at :: time_string
  vo_chat_id :: int
  vo_topic_id :: int
  vo_message_id :: int

record voice_row =
  vc_id :: nat
  vc_project_id :: string
  vc_target_kind :: string
  vc_thread_id :: "string option"
  vc_source_turn_id :: string
  vc_payload :: "string option"
  vc_session_identity :: string
  vc_status :: voice_status
  vc_expires_at :: time_string
  vc_chat_id :: int
  vc_topic_id :: int
  vc_message_id :: int

record voice_route =
  vr_token :: string
  vr_voice_id :: nat
  vr_action :: string
  vr_status :: route_status
  vr_chat_id :: int
  vr_topic_id :: int
  vr_message_id :: int

record voice_claim =
  cl_token :: string
  cl_action :: string
  cl_session_identity :: string
  cl_chat_id :: int
  cl_topic_id :: int
  cl_message_id :: int
  cl_now :: instant

record voice_table =
  vt_rows :: "voice_row list"
  vt_routes :: "voice_route list"
  vt_next :: nat

definition empty_voice :: voice_table where
  "empty_voice = \<lparr>vt_rows = [], vt_routes = [], vt_next = 1\<rparr>"

datatype voice_error =
    VoiceFieldsRequired | VoiceTargetInvalid | VoiceThreadRequired | VoiceTokensInvalid
  | VoiceNoProtector | VoiceProtect | VoiceUnprotect | VoiceConstraint
  | VoiceBindIncomplete | VoiceBindChanged nat

definition hex_char :: "char \<Rightarrow> bool" where
  "hex_char c \<longleftrightarrow> CHR ''0'' \<le> c \<and> c \<le> CHR ''9'' \<or> CHR ''a'' \<le> c \<and> c \<le> CHR ''f'' \<or>
     CHR ''A'' \<le> c \<and> c \<le> CHR ''F''"

definition valid_voice_token :: "string \<Rightarrow> bool" where
  "valid_voice_token token \<longleftrightarrow> length token = 32 \<and> list_all hex_char token"

definition new_voice_row :: "nat \<Rightarrow> string \<Rightarrow> voice_confirmation \<Rightarrow> voice_row" where
  "new_voice_row i payload c =
     \<lparr>vc_id = i, vc_project_id = trim_space (vo_project_id c), vc_target_kind = trim_space (vo_target_kind c),
      vc_thread_id = nullable (trim_space (vo_thread_id c)),
      vc_source_turn_id = trim_space (vo_source_turn_id c), vc_payload = Some payload,
      vc_session_identity = trim_space (vo_session_identity c), vc_status = VoicePending,
      vc_expires_at = vo_expires_at c, vc_chat_id = 0, vc_topic_id = 0, vc_message_id = 0\<rparr>"

definition new_voice_route :: "nat \<Rightarrow> string \<Rightarrow> string \<Rightarrow> voice_route" where
  "new_voice_route i token action =
     \<lparr>vr_token = token, vr_voice_id = i, vr_action = action, vr_status = RouteActive,
      vr_chat_id = 0, vr_topic_id = 0, vr_message_id = 0\<rparr>"

definition create_voice_confirmation ::
  "protector option \<Rightarrow> voice_confirmation \<Rightarrow> string \<Rightarrow> string \<Rightarrow> voice_table \<Rightarrow>
   (voice_error, nat) result \<times> voice_table" where
  "create_voice_confirmation prot c execute cancel tab =
     (let kind = trim_space (vo_target_kind c); transcript = trim_space (vo_transcript c)
      in if trim_space (vo_project_id c) = [] \<or> transcript = [] \<or> trim_space (vo_session_identity c) = [] \<or>
            ts_blank (vo_expires_at c) then (Inl VoiceFieldsRequired, tab)
         else if kind \<noteq> voice_target_new \<and> kind \<noteq> voice_target_thread then (Inl VoiceTargetInvalid, tab)
         else if kind = voice_target_thread \<and> trim_space (vo_thread_id c) = [] then (Inl VoiceThreadRequired, tab)
         else if \<not> valid_voice_token execute \<or> \<not> valid_voice_token cancel \<or> execute = cancel
         then (Inl VoiceTokensInvalid, tab)
         else case prot of
           None \<Rightarrow> (Inl VoiceNoProtector, tab)
         | Some p \<Rightarrow>
            (case protect p transcript of
               None \<Rightarrow> (Inl VoiceProtect, tab)
             | Some protected \<Rightarrow>
                 if list_ex (\<lambda>r. vr_token r = execute \<or> vr_token r = cancel) (vt_routes tab)
                 then (Inl VoiceConstraint, tab)
                 else (Inr (vt_next tab),
                   tab\<lparr>vt_rows := vt_rows tab @ [new_voice_row (vt_next tab) protected c],
                      vt_routes := vt_routes tab @
                        [new_voice_route (vt_next tab) execute voice_action_execute,
                         new_voice_route (vt_next tab) cancel voice_action_cancel],
                      vt_next := Suc (vt_next tab)\<rparr>)))"

definition bind_row_matches :: "nat \<Rightarrow> voice_row \<Rightarrow> bool" where
  "bind_row_matches i r \<longleftrightarrow> vc_id r = i \<and> vc_status r = VoicePending \<and> vc_message_id r = 0"

definition bind_route_matches :: "nat \<Rightarrow> voice_route \<Rightarrow> bool" where
  "bind_route_matches i r \<longleftrightarrow> vr_voice_id r = i \<and> vr_status r = RouteActive \<and> vr_message_id r = 0"

definition bind_voice_confirmation ::
  "nat \<Rightarrow> int \<Rightarrow> int \<Rightarrow> int \<Rightarrow> voice_table \<Rightarrow> (voice_error, unit) result \<times> voice_table" where
  "bind_voice_confirmation i chat topic message tab =
     (let changed = length (filter (bind_row_matches i) (vt_rows tab));
          routes = length (filter (bind_route_matches i) (vt_routes tab))
      in if i = 0 \<or> chat = 0 \<or> message = 0 then (Inl VoiceBindIncomplete, tab)
         else if changed \<noteq> 1 then (Inl (VoiceBindChanged changed), tab)
         else if routes \<noteq> 2 then (Inl (VoiceBindChanged routes), tab)
         else (Inr (), tab\<lparr>
           vt_rows := update_rows (bind_row_matches i)
             (\<lambda>r. r\<lparr>vc_chat_id := chat, vc_topic_id := topic, vc_message_id := message\<rparr>) (vt_rows tab),
           vt_routes := update_rows (bind_route_matches i)
             (\<lambda>r. r\<lparr>vr_chat_id := chat, vr_topic_id := topic, vr_message_id := message\<rparr>) (vt_routes tab)\<rparr>))"

definition get_voice_confirmation_route :: "string \<Rightarrow> voice_table \<Rightarrow> voice_route option" where
  "get_voice_confirmation_route token tab =
     find (\<lambda>r. vr_token r = trim_space token) (vt_routes tab)"

text \<open>
  The end of a confirmation in the status given: the transcript is erased and both buttons stop
  working. \<^verbatim>\<open>expireVoiceConfirmationTx\<close>, \<^verbatim>\<open>AbandonVoiceConfirmation\<close> and the consumption run these
  two statements.
\<close>

definition close_voice :: "voice_status \<Rightarrow> nat \<Rightarrow> voice_table \<Rightarrow> voice_table" where
  "close_voice st i tab =
     tab\<lparr>vt_rows := update_rows (\<lambda>r. vc_id r = i \<and> vc_status r = VoicePending)
           (\<lambda>r. r\<lparr>vc_status := st, vc_payload := None\<rparr>) (vt_rows tab),
        vt_routes := update_rows (\<lambda>r. vr_voice_id r = i \<and> vr_status r = RouteActive)
           (\<lambda>r. r\<lparr>vr_status := RouteConsumed\<rparr>) (vt_routes tab)\<rparr>"

definition expire_voice_confirmation :: "nat \<Rightarrow> voice_table \<Rightarrow> voice_table" where
  "expire_voice_confirmation = close_voice VoiceExpired"

definition abandon_voice_confirmation :: "nat \<Rightarrow> voice_table \<Rightarrow> voice_table" where
  "abandon_voice_confirmation = close_voice VoiceFailed"

definition confirmation_of :: "voice_status \<Rightarrow> string \<Rightarrow> voice_row \<Rightarrow> voice_confirmation" where
  "confirmation_of st transcript v =
     \<lparr>vo_id = vc_id v, vo_project_id = vc_project_id v, vo_target_kind = vc_target_kind v,
      vo_thread_id = (case vc_thread_id v of None \<Rightarrow> [] | Some t \<Rightarrow> t),
      vo_source_turn_id = vc_source_turn_id v, vo_transcript = transcript,
      vo_session_identity = vc_session_identity v, vo_status = st, vo_expires_at = vc_expires_at v,
      vo_chat_id = vc_chat_id v, vo_topic_id = vc_topic_id v, vo_message_id = vc_message_id v\<rparr>"

definition voice_claim_matches :: "voice_claim \<Rightarrow> voice_route \<Rightarrow> voice_row \<Rightarrow> bool" where
  "voice_claim_matches cl r v \<longleftrightarrow>
     vr_status r = RouteActive \<and> vr_action r = trim_space (cl_action cl) \<and> vc_status v = VoicePending \<and>
     vc_session_identity v = trim_space (cl_session_identity cl) \<and> vc_chat_id v \<noteq> 0 \<and> vc_message_id v \<noteq> 0 \<and>
     vc_chat_id v = cl_chat_id cl \<and> vc_topic_id v = cl_topic_id cl \<and> vc_message_id v = cl_message_id cl"

definition expires_before :: "instant \<Rightarrow> time_string \<Rightarrow> bool" where
  "expires_before now v = (case v of TStamp t \<Rightarrow> t \<le> now | _ \<Rightarrow> True)"

definition active_siblings :: "nat \<Rightarrow> voice_table \<Rightarrow> nat" where
  "active_siblings i tab =
     length (filter (\<lambda>r. vr_voice_id r = i \<and> vr_status r = RouteActive) (vt_routes tab))"

definition pending_rows :: "nat \<Rightarrow> voice_table \<Rightarrow> nat" where
  "pending_rows i tab = length (filter (\<lambda>r. vc_id r = i \<and> vc_status r = VoicePending) (vt_rows tab))"

text \<open>
  The number of buttons is read and checked before the update; the second check, of the rows the
  update changed, can not fail in the same transaction.
\<close>

definition consume_voice_confirmation ::
  "protector option \<Rightarrow> instant \<Rightarrow> voice_claim \<Rightarrow> voice_table \<Rightarrow>
   (voice_error, voice_confirmation option) result \<times> voice_table" where
  "consume_voice_confirmation prot clock cl tab =
     (let action = trim_space (cl_action cl); now = or_clock clock (cl_now cl)
      in case prot of
           None \<Rightarrow> (Inl VoiceNoProtector, tab)
         | Some p \<Rightarrow>
            (case find (\<lambda>r. vr_token r = trim_space (cl_token cl)) (vt_routes tab) of
               None \<Rightarrow> (Inr None, tab)
             | Some r \<Rightarrow>
                (case find (\<lambda>v. vc_id v = vr_voice_id r) (vt_rows tab) of
                   None \<Rightarrow> (Inr None, tab)
                 | Some v \<Rightarrow>
                    (if \<not> voice_claim_matches cl r v then (Inr None, tab)
                     else if active_siblings (vc_id v) tab \<noteq> 2 \<or> expires_before now (vc_expires_at v)
                     then (Inr None, expire_voice_confirmation (vc_id v) tab)
                     else if action \<noteq> voice_action_execute \<and> action \<noteq> voice_action_cancel then (Inr None, tab)
                     else if pending_rows (vc_id v) tab \<noteq> 1 then (Inr None, tab)
                     else let st = (if action = voice_action_execute then VoiceExecuted else VoiceCancelled);
                              tab' = close_voice st (vc_id v) tab
                          in if action = voice_action_execute
                             then (case unprotect p (case vc_payload v of None \<Rightarrow> [] | Some x \<Rightarrow> x) of
                                     None \<Rightarrow> (Inl VoiceUnprotect, tab')
                                   | Some transcript \<Rightarrow> (Inr (Some (confirmation_of st transcript v)), tab'))
                             else (Inr (Some (confirmation_of st [] v)), tab')))))"

definition recover_voice_confirmations :: "voice_table \<Rightarrow> nat \<times> voice_table" where
  "recover_voice_confirmations tab =
     (length (filter (\<lambda>r. vc_status r = VoicePending) (vt_rows tab)),
      tab\<lparr>vt_rows := update_rows (\<lambda>r. vc_status r = VoicePending)
             (\<lambda>r. r\<lparr>vc_status := VoiceExpired, vc_payload := None\<rparr>) (vt_rows tab),
          vt_routes := update_rows (\<lambda>r. vr_status r = RouteActive)
             (\<lambda>r. r\<lparr>vr_status := RouteConsumed\<rparr>) (vt_routes tab)\<rparr>)"

section \<open>Picker routes\<close>

text \<open>
  The callers write expiries as formatted instants; the empty text is \<^verbatim>\<open>None\<close>. The status is the
  text the column holds.
\<close>

record picker_route =
  pk_token :: string
  pk_action :: string
  pk_project_id :: string
  pk_thread_id :: string
  pk_page :: int
  pk_chat_id :: int
  pk_topic_id :: int
  pk_status :: string
  pk_expires_at :: "instant option"

datatype picker_error = PickerFieldsRequired | PickerChatRequired | PickerPageNegative | PickerConstraint

definition trimmed_route :: "picker_route \<Rightarrow> picker_route" where
  "trimmed_route r =
     r\<lparr>pk_token := trim_space (pk_token r), pk_action := trim_space (pk_action r),
       pk_project_id := trim_space (pk_project_id r), pk_thread_id := trim_space (pk_thread_id r),
       pk_status := trim_space (pk_status r)\<rparr>"

definition check_picker_route :: "picker_route \<Rightarrow> picker_error option" where
  "check_picker_route r =
     (if pk_token r = [] \<or> pk_action r = [] \<or> pk_project_id r = [] \<or> pk_status r = [] \<or> pk_expires_at r = None
      then Some PickerFieldsRequired
      else if pk_chat_id r = 0 then Some PickerChatRequired
      else if pk_page r < 0 then Some PickerPageNegative else None)"

fun insert_picker_routes :: "picker_route list \<Rightarrow> picker_route list \<Rightarrow> (picker_error, picker_route list) result" where
  "insert_picker_routes [] tab = Inr tab"
| "insert_picker_routes (r # rs) tab =
     (let r' = trimmed_route r
      in case check_picker_route r' of
           Some e \<Rightarrow> Inl e
         | None \<Rightarrow> if list_ex (\<lambda>s. pk_token s = pk_token r') tab then Inl PickerConstraint
                   else insert_picker_routes rs (tab @ [r']))"

definition create_minimal_picker_routes ::
  "picker_route list \<Rightarrow> picker_route list \<Rightarrow> (picker_error, unit) result \<times> picker_route list" where
  "create_minimal_picker_routes rs tab =
     (case insert_picker_routes rs tab of Inl e \<Rightarrow> (Inl e, tab) | Inr tab' \<Rightarrow> (Inr (), tab'))"

definition existing_actions :: "string list" where
  "existing_actions = [''minimal_existing_open'', ''minimal_existing_page'', ''minimal_existing_back'',
     ''minimal_existing_select'']"

definition picker_active :: "string \<Rightarrow> picker_route \<Rightarrow> bool" where
  "picker_active token r \<longleftrightarrow> pk_token r = token \<and> pk_status r = ''active''"

definition picker_expired :: "instant \<Rightarrow> picker_route \<Rightarrow> bool" where
  "picker_expired now r = (case pk_expires_at r of None \<Rightarrow> True | Some t \<Rightarrow> stamp_le t now)"

text \<open>A route of the existing-thread pages is stale once the chat has selected another project.\<close>

definition project_current :: "selected_projects \<Rightarrow> int \<Rightarrow> int \<Rightarrow> picker_route \<Rightarrow> bool" where
  "project_current sp chat topic r \<longleftrightarrow>
     pk_action r \<notin> set existing_actions \<or> sp (chat_key chat topic) = None \<or>
     sp (chat_key chat topic) = Some (pk_project_id r)"

definition picker_here :: "string \<Rightarrow> int \<Rightarrow> int \<Rightarrow> instant \<Rightarrow> picker_route \<Rightarrow> bool" where
  "picker_here token chat topic now r \<longleftrightarrow>
     picker_active token r \<and> pk_chat_id r = chat \<and> pk_topic_id r = topic \<and> \<not> picker_expired now r"

definition consume_minimal_picker_route ::
  "selected_projects \<Rightarrow> instant \<Rightarrow> string \<Rightarrow> int \<Rightarrow> int \<Rightarrow> instant \<Rightarrow> picker_route list \<Rightarrow>
   picker_route option \<times> picker_route list" where
  "consume_minimal_picker_route sp clock token chat topic now tab =
     (let token = trim_space token; now = or_clock clock now
      in if token = [] \<or> chat = 0 then (None, tab)
         else let tab1 = update_rows (\<lambda>r. picker_active token r \<and> picker_expired now r)
                           (\<lambda>r. r\<lparr>pk_status := ''expired''\<rparr>) tab;
                  here = picker_here token chat topic now;
                  consume = (\<lambda>P. update_rows P (\<lambda>r. r\<lparr>pk_status := ''consumed''\<rparr>) tab1)
              in if list_ex (\<lambda>r. here r \<and> project_current sp chat topic r) tab1
                 then let tab2 = consume (\<lambda>r. here r \<and> project_current sp chat topic r)
                      in (find (\<lambda>r. pk_token r = token) tab2, tab2)
                 else (None, consume (\<lambda>r. here r \<and> \<not> project_current sp chat topic r)))"

section \<open>Tokens that work once\<close>

locale single_use =
  fixes step :: "'s \<Rightarrow> 's \<Rightarrow> bool" and ok :: "'s \<Rightarrow> bool" and spent :: "string \<Rightarrow> 's \<Rightarrow> bool"
    and consume :: "'c \<Rightarrow> 's \<Rightarrow> 'r option \<times> 's" and token :: "'c \<Rightarrow> string"
  assumes ok_stays: "step s s' \<Longrightarrow> ok s \<Longrightarrow> ok s'"
    and consume_step: "step s (snd (consume c s))"
    and spent_stays: "step s s' \<Longrightarrow> ok s \<Longrightarrow> spent t s \<Longrightarrow> spent t s'"
    and spent_dead: "ok s \<Longrightarrow> spent (token c) s \<Longrightarrow> fst (consume c s) = None"
    and consume_spends: "ok s \<Longrightarrow> consume c s = (Some r, s') \<Longrightarrow> spent (token c) s'"
begin

lemma ok_forever: "step\<^sup>*\<^sup>* s s' \<Longrightarrow> ok s \<Longrightarrow> ok s'"
  by (induction rule: rtranclp_induct) (auto intro: ok_stays)

lemma spent_forever: "step\<^sup>*\<^sup>* s s' \<Longrightarrow> ok s \<Longrightarrow> spent t s \<Longrightarrow> spent t s'"
  by (induction rule: rtranclp_induct) (auto intro: spent_stays ok_forever)

lemma works_once:
  assumes "ok s" "consume c s = (Some r, s1)" "step\<^sup>*\<^sup>* s1 s2" "token c' = token c"
  shows "fst (consume c' s2) = None"
proof -
  have "step s s1" using consume_step [of s c] assms(2) by simp
  then have "ok s1" using assms(1) by (rule ok_stays)
  then show ?thesis
    using spent_dead [of s2 c'] spent_forever [OF assms(3)] ok_forever [OF assms(3)]
      consume_spends [OF assms(1,2)] assms(4) by simp
qed

end

subsection \<open>Voice buttons\<close>

inductive voice_step :: "protector \<Rightarrow> voice_table \<Rightarrow> voice_table \<Rightarrow> bool" for p where
  create: "voice_step p tab (snd (create_voice_confirmation (Some p) c execute cancel tab))"
| bind: "voice_step p tab (snd (bind_voice_confirmation i chat topic message tab))"
| consume: "voice_step p tab (snd (consume_voice_confirmation (Some p) clock cl tab))"
| abandon: "voice_step p tab (abandon_voice_confirmation i tab)"
| restart: "voice_step p tab (snd (recover_voice_confirmations tab))"

definition voice_spent :: "string \<Rightarrow> voice_table \<Rightarrow> bool" where
  "voice_spent token tab \<longleftrightarrow>
     (\<exists>r. find (\<lambda>r. vr_token r = token) (vt_routes tab) = Some r \<and> vr_status r = RouteConsumed)"

lemma rewrite_spent:
  assumes "voice_spent token tab" "\<And>r. vr_token (f r) = vr_token r"
    "\<And>r. P r \<Longrightarrow> vr_status r = RouteConsumed \<Longrightarrow> vr_status (f r) = RouteConsumed"
  shows "voice_spent token (tab\<lparr>vt_rows := rows, vt_routes := update_rows P f (vt_routes tab)\<rparr>)"
proof -
  obtain r where r: "find (\<lambda>r. vr_token r = token) (vt_routes tab) = Some r" "vr_status r = RouteConsumed"
    using assms(1) by (auto simp: voice_spent_def)
  have "find (\<lambda>r. vr_token r = token) (update_rows P f (vt_routes tab)) = Some (if P r then f r else r)"
    by (simp add: find_update_rows assms(2) r(1))
  then show ?thesis using r(2) assms(3) by (simp add: voice_spent_def)
qed

lemma close_voice_spent: "voice_spent token tab \<Longrightarrow> voice_spent token (close_voice st i tab)"
  by (auto simp: close_voice_def intro!: rewrite_spent)

lemma consume_voice_cases:
  assumes "consume_voice_confirmation (Some p) clock cl tab = (res, tab')"
  obtains (nothing) "res = Inr None" "tab' = tab"
  | (closed) r v st where
      "find (\<lambda>r. vr_token r = trim_space (cl_token cl)) (vt_routes tab) = Some r"
      "find (\<lambda>v. vc_id v = vr_voice_id r) (vt_rows tab) = Some v"
      "voice_claim_matches cl r v" "tab' = close_voice st (vc_id v) tab"
      "res = Inr None \<or> res = Inl VoiceUnprotect \<or>
       (\<exists>transcript. res = Inr (Some (confirmation_of st transcript v)))"
proof -
  consider (no_route) "find (\<lambda>r. vr_token r = trim_space (cl_token cl)) (vt_routes tab) = None"
    | (no_row) r where "find (\<lambda>r. vr_token r = trim_space (cl_token cl)) (vt_routes tab) = Some r"
        "find (\<lambda>v. vc_id v = vr_voice_id r) (vt_rows tab) = None"
    | (both) r v where "find (\<lambda>r. vr_token r = trim_space (cl_token cl)) (vt_routes tab) = Some r"
        "find (\<lambda>v. vc_id v = vr_voice_id r) (vt_rows tab) = Some v"
    by (meson not_None_eq)
  then show ?thesis
  proof cases
    case both
    note body = assms [unfolded consume_voice_confirmation_def Let_def option.case both]
    show ?thesis
    proof (cases "voice_claim_matches cl r v")
      case True
      note body = body [simplified True not_True_eq_False if_False]
      show ?thesis
      proof (cases "active_siblings (vc_id v) tab \<noteq> 2 \<or> expires_before (or_clock clock (cl_now cl)) (vc_expires_at v)")
        case late: True
        then show ?thesis
          using body True both by (intro closed [of r v VoiceExpired]) (simp_all add: expire_voice_confirmation_def)
      next
        case False
        then show ?thesis
          using body True both closed [of r v VoiceExecuted] closed [of r v VoiceCancelled]
          by (auto split: if_split_asm option.split_asm) (rule nothing; simp)+
      qed
    qed (rule nothing; use body in simp)
  qed (rule nothing; use assms in \<open>simp add: consume_voice_confirmation_def\<close>)+
qed

lemma voice_step_spent:
  assumes "voice_step p tab tab'" "voice_spent token tab"
  shows "voice_spent token tab'"
  using assms(1)
proof cases
  case (create c execute cancel)
  then show ?thesis
    using assms(2) by (auto simp: create_voice_confirmation_def voice_spent_def find_append Let_def split: option.split)
next
  case (consume clock cl)
  obtain res where c: "consume_voice_confirmation (Some p) clock cl tab = (res, tab')"
    using consume by (metis prod.collapse)
  then show ?thesis
    by (cases rule: consume_voice_cases) (use assms(2) close_voice_spent in auto)
qed (use assms(2) in \<open>auto simp: bind_voice_confirmation_def bind_route_matches_def
  abandon_voice_confirmation_def recover_voice_confirmations_def Let_def
  intro!: rewrite_spent close_voice_spent\<close>)

definition consume_voice ::
  "protector \<Rightarrow> instant \<times> voice_claim \<Rightarrow> voice_table \<Rightarrow> voice_confirmation option \<times> voice_table" where
  "consume_voice p c tab =
     (case consume_voice_confirmation (Some p) (fst c) (snd c) tab of
        (Inr (Some v), tab') \<Rightarrow> (Some v, tab')
      | (_, tab') \<Rightarrow> (None, tab'))"

lemma spent_voice_refused:
  assumes "voice_spent (trim_space (cl_token cl)) tab"
  shows "consume_voice_confirmation (Some p) clock cl tab = (Inr None, tab)"
  using assms
  by (auto simp: voice_spent_def consume_voice_confirmation_def voice_claim_matches_def Let_def split: option.split)

lemma closed_routes_spent:
  assumes "find (\<lambda>r. vr_token r = token) (vt_routes tab) = Some r" "vr_voice_id r = i"
  shows "voice_spent token (close_voice st i tab)"
proof -
  have "vr_status r = RouteActive \<or> vr_status r = RouteConsumed" by (cases "vr_status r") auto
  then show ?thesis
    using assms by (auto simp: voice_spent_def close_voice_def find_update_rows)
qed

lemma consumed_voice:
  assumes "consume_voice_confirmation (Some p) clock cl tab = (Inr (Some c), tab')"
  obtains r v st where
    "find (\<lambda>r. vr_token r = trim_space (cl_token cl)) (vt_routes tab) = Some r"
    "vr_voice_id r = vo_id c" "voice_claim_matches cl r v" "tab' = close_voice st (vo_id c) tab"
  using assms
proof (cases rule: consume_voice_cases)
  case (closed r v st)
  have "vc_id v = vo_id c" using closed(5) by (auto simp: confirmation_of_def)
  moreover have "vc_id v = vr_voice_id r" using find_key_in [OF closed(2)] by blast
  ultimately show ?thesis using closed(1,3,4) by (intro that) auto
qed simp

interpretation voice:
  single_use "voice_step p" "\<lambda>_. True" voice_spent "consume_voice p" "\<lambda>c. trim_space (cl_token (snd c))" for p
proof unfold_locales
  show "voice_step p s (snd (consume_voice p c s))" for s c
  proof -
    have "snd (consume_voice p c s) = snd (consume_voice_confirmation (Some p) (fst c) (snd c) s)"
      by (simp add: consume_voice_def split: prod.split sum.split option.split)
    then show ?thesis by (simp add: voice_step.consume)
  qed
  show "fst (consume_voice p c s) = None" if "voice_spent (trim_space (cl_token (snd c))) s" for c s
    using spent_voice_refused [OF that] by (simp add: consume_voice_def)
  show "voice_spent (trim_space (cl_token (snd c))) s'" if "consume_voice p c s = (Some r, s')" for c s r s'
  proof -
    have "consume_voice_confirmation (Some p) (fst c) (snd c) s = (Inr (Some r), s')"
      using that by (auto simp: consume_voice_def split: prod.splits sum.splits option.splits)
    then show ?thesis by (rule consumed_voice) (metis closed_routes_spent)
  qed
qed (simp_all add: voice_step_spent)

text \<open>
  C24: A voice command is decided once. After one of the two buttons of a confirmation has been
  accepted, then through any further operations on the voice tables (other confirmations, bindings,
  expiries, restarts) neither that button nor its sibling is accepted again: the command is executed
  at most once, and never both executed and cancelled.
\<close>
theorem voice_command_decided_once:
  assumes "consume_voice_confirmation (Some p) clock cl tab = (Inr (Some c), tab1)"
    and "(voice_step p)\<^sup>*\<^sup>* tab1 tab2"
    and "get_voice_confirmation_route (cl_token cl') tab = Some r" "vr_voice_id r = vo_id c"
  shows "consume_voice_confirmation (Some p) clock' cl' tab2 = (Inr None, tab2)"
proof -
  obtain st where "tab1 = close_voice st (vo_id c) tab" by (rule consumed_voice [OF assms(1)])
  then have "voice_spent (trim_space (cl_token cl')) tab1"
    using closed_routes_spent assms(3,4) by (simp add: get_voice_confirmation_route_def)
  then show ?thesis
    by (rule spent_voice_refused [OF voice.spent_forever [OF assms(2) TrueI]])
qed

definition voice_ok :: "voice_table \<Rightarrow> bool" where
  "voice_ok tab \<longleftrightarrow> 0 < vt_next tab \<and> (\<forall>v\<in>set (vt_rows tab). vc_id v < vt_next tab) \<and>
     (\<forall>r\<in>set (vt_routes tab). vr_voice_id r < vt_next tab)"

lemma close_voice_ok: "voice_ok tab \<Longrightarrow> voice_ok (close_voice st i tab)"
  by (auto simp: voice_ok_def close_voice_def ball_update_rows)

lemma voice_step_ok:
  assumes "voice_step p tab tab'" "voice_ok tab"
  shows "voice_ok tab'"
  using assms(1)
proof cases
  case (create c execute cancel)
  then show ?thesis
    using assms(2) by (auto simp: create_voice_confirmation_def voice_ok_def new_voice_row_def new_voice_route_def
        less_Suc_eq Let_def split: option.split)
next
  case (consume clock cl)
  obtain res where c: "consume_voice_confirmation (Some p) clock cl tab = (res, tab')"
    using consume by (metis prod.collapse)
  then show ?thesis
    by (cases rule: consume_voice_cases) (use assms(2) close_voice_ok in auto)
qed (use assms(2) in \<open>auto simp: bind_voice_confirmation_def abandon_voice_confirmation_def
  recover_voice_confirmations_def voice_ok_def ball_update_rows Let_def intro!: close_voice_ok [unfolded voice_ok_def]\<close>)

lemma voice_reach_ok: "(voice_step p)\<^sup>*\<^sup>* empty_voice tab \<Longrightarrow> voice_ok tab"
proof (induction rule: rtranclp_induct)
  case base
  show ?case by (simp add: voice_ok_def empty_voice_def)
qed (rule voice_step_ok)

lemma valid_token_trim: "valid_voice_token token \<Longrightarrow> trim_space token = token"
proof -
  assume v: "valid_voice_token token"
  then have ne: "token \<noteq> []" by (auto simp: valid_voice_token_def)
  have mark: "ascii_mark c" if "c \<in> set token" for c
    using v that by (auto simp: valid_voice_token_def list_all_iff hex_char_def ascii_mark_def less_eq_char_def)
  show ?thesis
    using ne mark by (intro trim_space_ascii) (auto intro: hd_in_set last_in_set)
qed

text \<open>The tables right after a confirmation was created and its preview message sent.\<close>

lemma created_and_bound:
  assumes "voice_ok tab"
    and "create_voice_confirmation (Some p) c execute cancel tab = (Inr i, tab1)"
    and "bind_voice_confirmation i chat topic message tab1 = (Inr (), tab2)"
  obtains protected r v where
    "protect p (trim_space (vo_transcript c)) = Some protected" "valid_voice_token execute"
    "find (\<lambda>r. vr_token r = execute) (vt_routes tab2) = Some r" "find (\<lambda>v. vc_id v = vr_voice_id r) (vt_rows tab2) = Some v"
    "r = (new_voice_route i execute voice_action_execute)
       \<lparr>vr_chat_id := chat, vr_topic_id := topic, vr_message_id := message\<rparr>"
    "v = (new_voice_row i protected c)\<lparr>vc_chat_id := chat, vc_topic_id := topic, vc_message_id := message\<rparr>"
    "chat \<noteq> 0" "message \<noteq> 0" "active_siblings i tab2 = 2" "pending_rows i tab2 = 1"
proof -
  obtain protected where prot: "protect p (trim_space (vo_transcript c)) = Some protected"
    and valid: "valid_voice_token execute" "execute \<noteq> cancel" and i: "i = vt_next tab"
    and fresh: "\<not> list_ex (\<lambda>r. vr_token r = execute \<or> vr_token r = cancel) (vt_routes tab)"
    and tab1: "vt_rows tab1 = vt_rows tab @ [new_voice_row i protected c]"
      "vt_routes tab1 = vt_routes tab @ [new_voice_route i execute voice_action_execute,
         new_voice_route i cancel voice_action_cancel]"
    using assms(2) by (auto simp: create_voice_confirmation_def Let_def split: if_split_asm option.split_asm)
  have tab2: "vt_rows tab2 = update_rows (bind_row_matches i)
        (\<lambda>r. r\<lparr>vc_chat_id := chat, vc_topic_id := topic, vc_message_id := message\<rparr>) (vt_rows tab1)"
      "vt_routes tab2 = update_rows (bind_route_matches i)
        (\<lambda>r. r\<lparr>vr_chat_id := chat, vr_topic_id := topic, vr_message_id := message\<rparr>) (vt_routes tab1)"
    and set: "chat \<noteq> 0" "message \<noteq> 0"
    using assms(3) by (auto simp: bind_voice_confirmation_def Let_def split: if_split_asm)
  have old: "vc_id x \<noteq> i" if "x \<in> set (vt_rows tab)" for x
    using assms(1) that i by (auto simp: voice_ok_def)
  have old': "vr_voice_id x \<noteq> i" if "x \<in> set (vt_routes tab)" for x
    using assms(1) that i by (auto simp: voice_ok_def)
  let ?r = "(new_voice_route i execute voice_action_execute)
       \<lparr>vr_chat_id := chat, vr_topic_id := topic, vr_message_id := message\<rparr>"
  let ?v = "(new_voice_row i protected c)\<lparr>vc_chat_id := chat, vc_topic_id := topic, vc_message_id := message\<rparr>"
  have keep: "update_rows (bind_row_matches i) f (vt_rows tab) = vt_rows tab"
    "update_rows (bind_route_matches i) g (vt_routes tab) = vt_routes tab" for f g
    using old old' by (auto intro!: update_rows_none simp: bind_row_matches_def bind_route_matches_def)
  have rows2: "vt_rows tab2 = vt_rows tab @ [?v]"
    unfolding tab2 tab1 update_rows_append keep by (simp add: bind_row_matches_def new_voice_row_def)
  have routes2: "vt_routes tab2 = vt_routes tab @ [?r, (new_voice_route i cancel voice_action_cancel)
       \<lparr>vr_chat_id := chat, vr_topic_id := topic, vr_message_id := message\<rparr>]"
    unfolding tab2 tab1 update_rows_append keep by (simp add: bind_route_matches_def new_voice_route_def)
  have none: "find (\<lambda>r. vr_token r = execute) (vt_routes tab) = None" "find (\<lambda>v. vc_id v = i) (vt_rows tab) = None"
    using fresh old by (auto simp: find_None_iff list_ex_iff)
  have empty: "filter (\<lambda>r. vr_voice_id r = i \<and> vr_status r = RouteActive) (vt_routes tab) = []"
    "filter (\<lambda>v. vc_id v = i \<and> vc_status v = VoicePending) (vt_rows tab) = []"
    using old old' by (auto simp: filter_empty_conv)
  show ?thesis
    by (rule that [OF prot valid(1), of ?r ?v])
      (simp_all add: rows2 routes2 find_append none empty active_siblings_def pending_rows_def set
        new_voice_row_def new_voice_route_def)
qed

text \<open>
  C25: The voice command that runs is the one that was confirmed, on the message that showed it. For
  a confirmation that was created and whose preview was bound to a message, pressing the execute
  button on that message in the same session before the expiry returns the transcript, project and
  target it was created with; pressing it anywhere else (another chat, topic or message, or another
  session) returns nothing and changes nothing. The protector's promise to give back what it
  protected is the hypothesis.
\<close>
theorem voice_command_roundtrip:
  assumes "\<forall>x y. protect p x = Some y \<longrightarrow> unprotect p y = Some x"
    and "(voice_step p)\<^sup>*\<^sup>* empty_voice tab"
    and "create_voice_confirmation (Some p) c execute cancel tab = (Inr i, tab1)"
    and "bind_voice_confirmation i chat topic message tab1 = (Inr (), tab2)"
    and "trim_space (cl_token cl) = execute" "trim_space (cl_action cl) = voice_action_execute"
  shows "if cl_chat_id cl = chat \<and> cl_topic_id cl = topic \<and> cl_message_id cl = message \<and>
        trim_space (cl_session_identity cl) = trim_space (vo_session_identity c)
    then vo_expires_at c = TStamp t \<and> or_clock clock (cl_now cl) < t \<longrightarrow>
      (\<exists>v. fst (consume_voice_confirmation (Some p) clock cl tab2) = Inr (Some v) \<and>
         vo_transcript v = trim_space (vo_transcript c) \<and> vo_project_id v = trim_space (vo_project_id c) \<and>
         vo_target_kind v = trim_space (vo_target_kind c) \<and> vo_thread_id v = trim_space (vo_thread_id c))
    else consume_voice_confirmation (Some p) clock cl tab2 = (Inr None, tab2)"
proof -
  obtain protected r v where prot: "protect p (trim_space (vo_transcript c)) = Some protected"
    and valid: "valid_voice_token execute"
    and find: "find (\<lambda>r. vr_token r = execute) (vt_routes tab2) = Some r" "find (\<lambda>v. vc_id v = vr_voice_id r) (vt_rows tab2) = Some v"
    and r: "r = (new_voice_route i execute voice_action_execute)
       \<lparr>vr_chat_id := chat, vr_topic_id := topic, vr_message_id := message\<rparr>"
    and v: "v = (new_voice_row i protected c)\<lparr>vc_chat_id := chat, vc_topic_id := topic, vc_message_id := message\<rparr>"
    and set: "chat \<noteq> 0" "message \<noteq> 0" "active_siblings i tab2 = 2" "pending_rows i tab2 = 1"
    by (rule created_and_bound [OF voice_reach_ok [OF assms(2)] assms(3,4)])
  have id: "vc_id v = i" by (simp add: v new_voice_row_def)
  have matches: "voice_claim_matches cl r v \<longleftrightarrow> cl_chat_id cl = chat \<and> cl_topic_id cl = topic \<and>
      cl_message_id cl = message \<and> trim_space (cl_session_identity cl) = trim_space (vo_session_identity c)"
    using set assms(6) by (auto simp: voice_claim_matches_def r v new_voice_row_def new_voice_route_def)
  have thread: "(case nullable (trim_space x) of None \<Rightarrow> [] | Some y \<Rightarrow> y) = trim_space x" for x
    by (simp add: nullable_def)
  have open_text: "unprotect p protected = Some (trim_space (vo_transcript c))" using assms(1) prot by blast
  have row: "vc_payload v = Some protected" "vc_expires_at v = vo_expires_at c"
    by (simp_all add: v new_voice_row_def)
  have result: "fst (consume_voice_confirmation (Some p) clock cl tab2) =
      Inr (Some (confirmation_of VoiceExecuted (trim_space (vo_transcript c)) v))"
    if "voice_claim_matches cl r v" "vo_expires_at c = TStamp t" "or_clock clock (cl_now cl) < t"
    using that find set assms(5,6) open_text
    by (simp add: consume_voice_confirmation_def Let_def id row expires_before_def)
  have none: "consume_voice_confirmation (Some p) clock cl tab2 = (Inr None, tab2)" if "\<not> voice_claim_matches cl r v"
    using that find assms(5) by (simp add: consume_voice_confirmation_def Let_def)
  have "vo_transcript (confirmation_of VoiceExecuted x v) = x"
    "vo_project_id (confirmation_of VoiceExecuted x v) = trim_space (vo_project_id c)"
    "vo_target_kind (confirmation_of VoiceExecuted x v) = trim_space (vo_target_kind c)"
    "vo_thread_id (confirmation_of VoiceExecuted x v) = trim_space (vo_thread_id c)" for x
    by (simp_all add: confirmation_of_def v new_voice_row_def thread)
  with result none show ?thesis unfolding matches [symmetric] by auto
qed

text \<open>An example: a confirmation created, bound and executed.\<close>

definition demo_voice :: voice_confirmation where
  "demo_voice = \<lparr>vo_id = 0, vo_project_id = ''p'', vo_target_kind = ''new'', vo_thread_id = [],
     vo_source_turn_id = [], vo_transcript = ''run'', vo_session_identity = ''s'', vo_status = VoicePending,
     vo_expires_at = TStamp 100, vo_chat_id = 0, vo_topic_id = 0, vo_message_id = 0\<rparr>"

definition demo_token :: "char \<Rightarrow> string" where
  "demo_token c = replicate 32 c"

definition demo_created :: voice_table where
  "demo_created = snd (create_voice_confirmation (Some plain_protector) demo_voice (demo_token CHR ''a'')
     (demo_token CHR ''b'') empty_voice)"

definition demo_bound :: voice_table where
  "demo_bound = snd (bind_voice_confirmation 1 5 0 9 demo_created)"

definition demo_claim :: "char \<Rightarrow> string \<Rightarrow> voice_claim" where
  "demo_claim c action = \<lparr>cl_token = demo_token c, cl_action = action, cl_session_identity = ''s'',
     cl_chat_id = 5, cl_topic_id = 0, cl_message_id = 9, cl_now = 50\<rparr>"

lemma demo_voice_run:
  "create_voice_confirmation (Some plain_protector) demo_voice (demo_token CHR ''a'') (demo_token CHR ''b'')
     empty_voice = (Inr 1, demo_created)"
  "bind_voice_confirmation 1 5 0 9 demo_created = (Inr (), demo_bound)"
  unfolding demo_created_def demo_bound_def by code_simp+

lemma demo_claim_trims:
  "trim_space (cl_token (demo_claim CHR ''a'' voice_action_execute)) = demo_token CHR ''a''"
  "trim_space (cl_action (demo_claim c voice_action_execute)) = voice_action_execute"
  by (simp add: demo_claim_def, code_simp)+

lemma voice_command_roundtrip_witness:
  "\<exists>v. fst (consume_voice_confirmation (Some plain_protector) 0 (demo_claim CHR ''a'' voice_action_execute) demo_bound) =
     Inr (Some v) \<and> vo_transcript v = trim_space ''run''"
  using voice_command_roundtrip [of plain_protector empty_voice demo_voice "demo_token CHR ''a''"
      "demo_token CHR ''b''" 1 demo_created 5 0 9 demo_bound "demo_claim CHR ''a'' voice_action_execute" 100 0]
    demo_voice_run demo_claim_trims
  by (auto simp: plain_protector_def demo_voice_def demo_claim_def or_clock_def is_zero_time_def zero_time_def)

definition demo_decided :: voice_table where
  "demo_decided = snd (consume_voice_confirmation (Some plain_protector) 0
     (demo_claim CHR ''a'' voice_action_execute) demo_bound)"

lemma voice_command_decided_once_witness:
  "consume_voice_confirmation (Some plain_protector) 0 (demo_claim CHR ''b'' voice_action_cancel) demo_decided =
     (Inr None, demo_decided)"
proof -
  let ?x = "consume_voice_confirmation (Some plain_protector) 0 (demo_claim CHR ''a'' voice_action_execute) demo_bound"
  have "case fst ?x of Inr (Some c) \<Rightarrow> vo_id c = 1 | _ \<Rightarrow> False" by code_simp
  then obtain c where c: "fst ?x = Inr (Some c)" "vo_id c = 1" by (auto split: sum.splits option.splits)
  then have x: "?x = (Inr (Some c), demo_decided)" by (simp add: demo_decided_def prod_eq_iff)
  have "map_option vr_voice_id (get_voice_confirmation_route
      (cl_token (demo_claim CHR ''b'' voice_action_cancel)) demo_bound) = Some 1" by code_simp
  then obtain r where "get_voice_confirmation_route
      (cl_token (demo_claim CHR ''b'' voice_action_cancel)) demo_bound = Some r" "vr_voice_id r = vo_id c"
    using c(2) by auto
  from voice_command_decided_once [OF x rtranclp.rtrancl_refl this] show ?thesis .
qed

subsection \<open>Picker buttons\<close>

inductive picker_step :: "picker_route list \<Rightarrow> picker_route list \<Rightarrow> bool" where
  create: "picker_step tab (snd (create_minimal_picker_routes rs tab))"
| consume: "picker_step tab (snd (consume_minimal_picker_route sp clock token chat topic now tab))"

definition picker_ok :: "picker_route list \<Rightarrow> bool" where
  "picker_ok tab \<longleftrightarrow> distinct (map pk_token tab)"

definition picker_spent :: "string \<Rightarrow> picker_route list \<Rightarrow> bool" where
  "picker_spent token tab \<longleftrightarrow> (\<exists>r\<in>set tab. pk_token r = token) \<and> (\<forall>r\<in>set tab. \<not> picker_active token r)"

record picker_press =
  pp_projects :: selected_projects
  pp_clock :: instant
  pp_token :: string
  pp_chat :: int
  pp_topic :: int
  pp_now :: instant

definition press_picker :: "picker_press \<Rightarrow> picker_route list \<Rightarrow> picker_route option \<times> picker_route list" where
  "press_picker b = consume_minimal_picker_route (pp_projects b) (pp_clock b) (pp_token b) (pp_chat b)
     (pp_topic b) (pp_now b)"


lemma insert_picker_routes_fresh:
  assumes "insert_picker_routes rs tab = Inr tab'"
  shows "\<exists>new. tab' = tab @ new \<and> distinct (map pk_token new) \<and>
    (\<forall>x\<in>set new. \<forall>y\<in>set tab. pk_token x \<noteq> pk_token y)"
  using assms
proof (induction rs arbitrary: tab)
  case (Cons r rs)
  then have fresh: "pk_token (trimmed_route r) \<notin> pk_token ` set tab"
    and rest: "insert_picker_routes rs (tab @ [trimmed_route r]) = Inr tab'"
    by (auto simp: Let_def list_ex_iff split: option.splits if_splits)
  obtain new where "tab' = (tab @ [trimmed_route r]) @ new" "distinct (map pk_token new)"
    "\<forall>x\<in>set new. \<forall>y\<in>set (tab @ [trimmed_route r]). pk_token x \<noteq> pk_token y"
    using Cons.IH [OF rest] by blast
  then show ?case using fresh by (intro exI [of _ "trimmed_route r # new"]) auto
qed simp

text \<open>A rewriting of the table that only takes routes out of use.\<close>

definition settled_row :: "picker_route \<Rightarrow> picker_route \<Rightarrow> bool" where
  "settled_row r r' \<longleftrightarrow> pk_token r' = pk_token r \<and> (r' = r \<or> pk_status r = ''active'' \<and> pk_status r' \<noteq> ''active'')"

definition settles :: "picker_route list \<Rightarrow> picker_route list \<Rightarrow> bool" where
  "settles = list_all2 settled_row"

lemma settles_refl: "settles tab tab"
  by (simp add: settles_def settled_row_def list_all2_refl)

lemma settles_trans: "settles a b \<Longrightarrow> settles b c \<Longrightarrow> settles a c"
proof -
  have "settled_row x y \<Longrightarrow> settled_row y z \<Longrightarrow> settled_row x z" for x y z
    by (auto simp: settled_row_def)
  then show "settles a b \<Longrightarrow> settles b c \<Longrightarrow> settles a c"
    unfolding settles_def by (rule list_all2_trans)
qed

lemma settles_update:
  assumes "\<And>r. P r \<Longrightarrow> pk_status r = ''active''" "st \<noteq> ''active''"
  shows "settles tab (update_rows P (\<lambda>r. r\<lparr>pk_status := st\<rparr>) tab)"
  using assms by (induction tab) (auto simp: settles_def settled_row_def)

lemma settles_tokens: "settles tab tab' \<Longrightarrow> map pk_token tab' = map pk_token tab"
  unfolding settles_def by (induction rule: list_all2_induct) (auto simp: settled_row_def)

lemma settles_active:
  assumes "settles tab tab'" "picker_active t r" "r \<in> set tab'"
  shows "r \<in> set tab"
proof -
  obtain i where i: "i < length tab'" "r = tab' ! i" using assms(3) by (auto simp: in_set_conv_nth)
  then have "i < length tab" "tab' ! i = tab ! i"
    using assms(1,2) by (auto simp: settles_def settled_row_def list_all2_conv_all_nth picker_active_def)
  then show ?thesis using i(2) by simp
qed

lemma settles_spent:
  assumes "settles tab tab'" "picker_spent t tab"
  shows "picker_spent t tab'"
proof -
  have "t \<in> set (map pk_token tab')"
    using assms(2) unfolding settles_tokens [OF assms(1)] by (auto simp: picker_spent_def)
  moreover have "\<not> picker_active t r" if "r \<in> set tab'" for r
    using settles_active [OF assms(1) _ that] assms(2) by (auto simp: picker_spent_def)
  ultimately show ?thesis by (auto simp: picker_spent_def)
qed

lemma press_picker_settles: "settles tab (snd (press_picker b tab))"
proof -
  let ?Q = "\<lambda>r. picker_active (trim_space (pp_token b)) r \<and> picker_expired (or_clock (pp_clock b) (pp_now b)) r"
  let ?here = "picker_here (trim_space (pp_token b)) (pp_chat b) (pp_topic b) (or_clock (pp_clock b) (pp_now b))"
  have first: "settles tab (update_rows ?Q (\<lambda>r. r\<lparr>pk_status := ''expired''\<rparr>) tab)"
    by (rule settles_update) (auto simp: picker_active_def)
  have "settles tab (update_rows (\<lambda>r. ?here r \<and> C r) (\<lambda>r. r\<lparr>pk_status := ''consumed''\<rparr>)
      (update_rows ?Q (\<lambda>r. r\<lparr>pk_status := ''expired''\<rparr>) tab))" for C
    by (rule settles_trans [OF first settles_update]) (auto simp: picker_here_def picker_active_def)
  then show ?thesis
    by (simp add: press_picker_def consume_minimal_picker_route_def Let_def settles_refl)
qed

lemma pressed_picker:
  assumes "picker_ok tab" "press_picker b tab = (Some r, tab')"
  obtains r0 where "r0 \<in> set tab" "r = r0\<lparr>pk_status := ''consumed''\<rparr>" "picker_spent (trim_space (pp_token b)) tab'"
    "picker_here (trim_space (pp_token b)) (pp_chat b) (pp_topic b) (or_clock (pp_clock b) (pp_now b)) r0"
    "project_current (pp_projects b) (pp_chat b) (pp_topic b) r0"
proof -
  let ?t = "trim_space (pp_token b)"
  let ?Q = "\<lambda>r. picker_active ?t r \<and> picker_expired (or_clock (pp_clock b) (pp_now b)) r"
  define tab1 where "tab1 = update_rows ?Q (\<lambda>r. r\<lparr>pk_status := ''expired''\<rparr>) tab"
  define hit where "hit r \<longleftrightarrow> picker_here ?t (pp_chat b) (pp_topic b) (or_clock (pp_clock b) (pp_now b)) r \<and>
    project_current (pp_projects b) (pp_chat b) (pp_topic b) r" for r
  have ex: "list_ex hit tab1" and tab': "tab' = update_rows hit (\<lambda>r. r\<lparr>pk_status := ''consumed''\<rparr>) tab1"
    and r: "find (\<lambda>r. pk_token r = ?t) tab' = Some r"
    using assms(2) unfolding press_picker_def consume_minimal_picker_route_def Let_def tab1_def [symmetric] hit_def [symmetric]
    by (auto split: if_splits)
  then obtain r0 where r0: "r0 \<in> set tab1" "hit r0" by (auto simp: list_ex_iff)
  have set1: "settles tab tab1"
    unfolding tab1_def by (rule settles_update) (auto simp: picker_active_def)
  have active: "picker_active ?t r0" using r0(2) by (simp add: hit_def picker_here_def)
  have only: "y = r0" if "y \<in> set tab1" "pk_token y = ?t" for y
  proof -
    have "distinct (map pk_token tab1)" using assms(1) settles_tokens [OF set1] by (simp add: picker_ok_def)
    then show ?thesis using that r0(1) active by (auto simp: picker_active_def distinct_map inj_on_def)
  qed
  have row: "x = r0\<lparr>pk_status := ''consumed''\<rparr>" if "x \<in> set tab'" "pk_token x = ?t" for x
    using that only r0(2) by (auto simp: tab' set_update_rows split: if_splits)
  have mem: "r \<in> set tab'" "pk_token r = ?t" using find_key_in [OF r] by auto
  have "pk_status x \<noteq> ''active''" if "x \<in> set tab'" "pk_token x = ?t" for x
    by (simp add: row [OF that])
  then have spent: "picker_spent ?t tab'"
    using mem by (auto simp: picker_spent_def picker_active_def)
  show ?thesis
    using that [OF settles_active [OF set1 active r0(1)] row [OF mem] spent] r0(2) by (simp add: hit_def)
qed

interpretation picker: single_use picker_step picker_ok picker_spent press_picker "\<lambda>b. trim_space (pp_token b)"
proof unfold_locales
  have press: "settles tab (snd (consume_minimal_picker_route sp clock token chat topic now tab))"
    for tab sp clock token chat topic now
    using press_picker_settles [of tab "\<lparr>pp_projects = sp, pp_clock = clock, pp_token = token, pp_chat = chat,
        pp_topic = topic, pp_now = now\<rparr>"] by (simp add: press_picker_def)
  have grown: "\<exists>new. snd (create_minimal_picker_routes rs tab) = tab @ new \<and> distinct (map pk_token new) \<and>
      (\<forall>x\<in>set new. \<forall>y\<in>set tab. pk_token x \<noteq> pk_token y)" for rs tab
    using insert_picker_routes_fresh [of rs tab]
    by (auto simp: create_minimal_picker_routes_def split: sum.split)
  show "picker_step s (snd (press_picker b s))" for s b
    by (simp add: press_picker_def picker_step.consume)
  show "picker_ok s'" if "picker_step s s'" "picker_ok s" for s s'
    using that(1)
  proof cases
    case (create rs)
    then show ?thesis using that(2) grown [of rs s] by (fastforce simp: picker_ok_def)
  next
    case consume
    then show ?thesis using that(2) settles_tokens [OF press] by (simp add: picker_ok_def)
  qed
  show "picker_spent t s'" if "picker_step s s'" "picker_ok s" "picker_spent t s" for s s' t
    using that(1)
  proof cases
    case (create rs)
    then obtain new where "s' = s @ new" "\<forall>x\<in>set new. \<forall>y\<in>set s. pk_token x \<noteq> pk_token y" using grown [of rs s] by auto
    then show ?thesis using that(3) by (auto simp: picker_spent_def picker_active_def)
  next
    case consume
    then show ?thesis using that(3) settles_spent [OF press] by simp
  qed
  show "fst (press_picker b s) = None"
    if ok: "picker_ok s" and spent: "picker_spent (trim_space (pp_token b)) s" for b s
  proof (rule ccontr)
    assume "fst (press_picker b s) \<noteq> None"
    then obtain r s' where "press_picker b s = (Some r, s')" by (metis not_None_eq prod.collapse)
    then obtain r0 where "r0 \<in> set s" "picker_active (trim_space (pp_token b)) r0"
      by (rule pressed_picker [OF ok]) (auto simp: picker_here_def)
    then show False using spent by (auto simp: picker_spent_def)
  qed
  show "picker_spent (trim_space (pp_token b)) s'"
    if ok: "picker_ok s" and hit: "press_picker b s = (Some r, s')" for b s r s'
    by (rule pressed_picker [OF ok hit])
qed

lemma picker_reach_ok: "picker_step\<^sup>*\<^sup>* [] tab \<Longrightarrow> picker_ok tab"
  by (erule picker.ok_forever) (simp add: picker_ok_def)

text \<open>
  A picker button works once, where it was shown and while it is current. If pressing a button
  returns a route, the route belongs to that chat and topic, has not expired, and (on the pages of
  existing threads) is for the project the chat has selected now; and whatever happens to the table
  afterwards, the same token returns nothing again, from any chat.
\<close>
theorem picker_button_works_once:
  assumes "picker_step\<^sup>*\<^sup>* [] tab"
    and "consume_minimal_picker_route sp clock token chat topic now tab = (Some r, tab1)"
    and "picker_step\<^sup>*\<^sup>* tab1 tab2" "trim_space token' = trim_space token"
  shows "pk_chat_id r = chat \<and> pk_topic_id r = topic \<and> \<not> picker_expired (or_clock clock now) r \<and>
    project_current sp chat topic r \<and>
    fst (consume_minimal_picker_route sp' clock' token' chat' topic' now' tab2) = None"
proof -
  let ?b = "\<lparr>pp_projects = sp, pp_clock = clock, pp_token = token, pp_chat = chat, pp_topic = topic, pp_now = now\<rparr>"
  let ?b' = "\<lparr>pp_projects = sp', pp_clock = clock', pp_token = token', pp_chat = chat', pp_topic = topic', pp_now = now'\<rparr>"
  have ok: "picker_ok tab" by (rule picker_reach_ok [OF assms(1)])
  have hit: "press_picker ?b tab = (Some r, tab1)" using assms(2) by (simp add: press_picker_def)
  obtain r0 where r0: "r = r0\<lparr>pk_status := ''consumed''\<rparr>"
    "picker_here (trim_space token) chat topic (or_clock clock now) r0" "project_current sp chat topic r0"
    by (rule pressed_picker [OF ok hit]) auto
  have "fst (press_picker ?b' tab2) = None"
    using picker.works_once [OF ok hit assms(3), of ?b'] assms(4) by simp
  then show ?thesis
    using r0 by (simp add: press_picker_def picker_here_def picker_expired_def project_current_def)
qed

definition demo_route :: picker_route where
  "demo_route = \<lparr>pk_token = ''k'', pk_action = ''minimal_existing_open'', pk_project_id = ''p'', pk_thread_id = [],
     pk_page = 0, pk_chat_id = 5, pk_topic_id = 0, pk_status = ''active'', pk_expires_at = Some (9 * second)\<rparr>"

lemma picker_button_works_once_witness:
  "fst (consume_minimal_picker_route Map.empty 0 ''k'' 5 0 second
     (snd (consume_minimal_picker_route Map.empty 0 ''k'' 5 0 second
        (snd (create_minimal_picker_routes [demo_route] []))))) = None"
proof -
  let ?tab = "snd (create_minimal_picker_routes [demo_route] [])"
  have "picker_step\<^sup>*\<^sup>* [] ?tab" by (rule r_into_rtranclp) (rule picker_step.create)
  moreover have "fst (consume_minimal_picker_route Map.empty 0 ''k'' 5 0 second ?tab) \<noteq> None"
  proof -
    have trims: "trim_space ''k'' = ''k''" "trim_space ''minimal_existing_open'' = ''minimal_existing_open''"
      "trim_space ''p'' = ''p''" "trim_space ''active'' = ''active''" "trim_space [] = []" by code_simp+
    have tab: "?tab = [demo_route]"
      by (simp add: create_minimal_picker_routes_def Let_def trimmed_route_def demo_route_def check_picker_route_def trims)
    have "\<not> picker_expired second demo_route"
      by (simp add: picker_expired_def demo_route_def stamp_le_def second_def)
    moreover have "or_clock 0 second = second"
      by (simp add: or_clock_def is_zero_time_def zero_time_def second_def)
    ultimately show ?thesis unfolding tab
      by (simp add: consume_minimal_picker_route_def Let_def trims picker_here_def picker_active_def project_current_def)
        (simp add: demo_route_def)
  qed
  then obtain r where "consume_minimal_picker_route Map.empty 0 ''k'' 5 0 second ?tab =
      (Some r, snd (consume_minimal_picker_route Map.empty 0 ''k'' 5 0 second ?tab))"
    by (metis not_None_eq prod.collapse)
  ultimately show ?thesis
    using picker_button_works_once [OF _ _ rtranclp.rtrancl_refl refl] by blast
qed

end
