(* ===== verification/Approval_Store.thy ===== *)
theory Approval_Store
  imports Delivery_Store Sha256 Fingerprint "HOL-Library.Product_Lexorder"
begin

text \<open>
  Approval requests of the minimal profile (\<^verbatim>\<open>internal/storage/store.go\<close>): the tables
  \<^verbatim>\<open>minimal_approvals\<close> and \<^verbatim>\<open>minimal_approval_routes\<close> with every operation on them, and the
  tables \<^verbatim>\<open>pending_approvals\<close> and \<^verbatim>\<open>callback_routes\<close> of the full profile, which expire together
  with them. A request has two buttons, approve and deny; a press claims the request, the answer
  finishes it. The operations also write to the outbox: the request's own delivery, the edit that
  marks a message as inactive, and the removal of a superseded notice.

  Every operation is one transaction. The JSON text of a payload is a parameter. The column
  \<^verbatim>\<open>updated_at\<close> is kept, because one query orders by it.
\<close>

section \<open>Request identities\<close>

definition zero_byte :: string where "zero_byte = [CHR 0x00]"

definition scoped_request_id :: "string \<Rightarrow> string \<Rightarrow> string" where
  "scoped_request_id session_identity wire_request_id =
     (let s = trim_space session_identity; w = trim_space wire_request_id
      in if s = [] \<or> w = [] then w
         else ''scoped-request:'' @ hex_string (sha256 (s @ zero_byte @ w)))"

definition normalize_request_identity :: "string \<Rightarrow> string \<Rightarrow> string \<Rightarrow> string \<times> string" where
  "normalize_request_identity session_identity request_id wire_request_id =
     (let s = trim_space session_identity; r = trim_space request_id; w0 = trim_space wire_request_id;
          w = (if w0 = [] then r else w0)
      in if s = [] then (if r = [] then w else r, w)
         else if w0 = [] then (r, w)
         else if w = [] then ([], [])
         else (scoped_request_id s w, w))"

section \<open>Tables\<close>

datatype claim_state = ClaimIdle | ClaimTaken

record minimal_approval =
  ma_request_id :: string
  ma_wire_request_id :: string
  ma_thread_id :: string
  ma_turn_id :: string
  ma_request_kind :: string
  ma_project_name :: string
  ma_session_identity :: string
  ma_supersede_event_id :: string
  ma_status :: string
  ma_claim_state :: claim_state
  ma_claim_action :: "string option"
  ma_chat_id :: int
  ma_topic_id :: int
  ma_message_id :: int
  ma_queue_id :: nat
  ma_updated_at :: instant

datatype button_status = ButtonActive | ButtonClaimed | ButtonConsumed | ButtonExpired

record approval_button =
  ab_token :: string
  ab_action :: string
  ab_request_id :: string
  ab_thread_id :: string
  ab_turn_id :: string
  ab_request_kind :: string
  ab_status :: button_status
  ab_chat_id :: int
  ab_topic_id :: int
  ab_message_id :: int

text \<open>A route as the code returns it: the button's row with the wire id and the session of its request.\<close>

record minimal_approval_route =
  mr_button :: approval_button
  mr_wire_request_id :: string
  mr_session_identity :: string

record approval_seed =
  sd_approval :: minimal_approval
  sd_approve_token :: string
  sd_deny_token :: string
  sd_delivery :: delivery_item
  sd_supersede_event_id :: string

record pending_approval =
  pa_request_id :: string
  pa_wire_request_id :: string
  pa_thread_id :: string
  pa_turn_id :: string
  pa_item_id :: string
  pa_prompt_kind :: string
  pa_request_kind :: string
  pa_question :: string
  pa_session_identity :: string
  pa_status :: string
  pa_message_id :: int
  pa_payload :: string

record callback_route =
  cb_token :: string
  cb_action :: string
  cb_thread_id :: string
  cb_turn_id :: string
  cb_request_id :: string
  cb_session_identity :: string
  cb_message_id :: int
  cb_status :: string
  cb_expires_at :: string
  cb_payload :: string

record approvals =
  av_rows :: "minimal_approval list"
  av_buttons :: "approval_button list"
  av_pending :: "pending_approval list"
  av_callbacks :: "callback_route list"
  av_outbox :: outbox

datatype approval_error =
    ApNoProtector | ApProtect | ApUnprotect | ApIncomplete | ApBadRoutes | ApConstraint | ApNoRow
  | ApLost | ApRouteCount nat | ApNotPending | ApNotProcessing

definition approval_pending :: string where "approval_pending = ''pending''"

definition affected :: "('r \<Rightarrow> bool) \<Rightarrow> 'r list \<Rightarrow> nat" where
  "affected p rs = length (filter p rs)"

section \<open>Lookup\<close>

type_synonym request_key = "string \<times> string \<times> string"

definition resolve_approval_request_id_exact ::
  "request_key list \<Rightarrow> string \<Rightarrow> string \<Rightarrow> bool \<Rightarrow> string option" where
  "resolve_approval_request_id_exact keys request_id session_identity allow_legacy =
     (case find (\<lambda>(r, _, _). r = request_id) keys of
        None \<Rightarrow> None
      | Some (durable, _, row_session) \<Rightarrow>
          if session_identity = [] \<or> row_session = session_identity \<or> (allow_legacy \<and> row_session = [])
          then Some durable else None)"

definition resolve_approval_request_id ::
  "request_key list \<Rightarrow> string \<Rightarrow> string \<Rightarrow> bool \<Rightarrow> string option" where
  "resolve_approval_request_id keys request_id session_identity allow_legacy_wire =
     (let r = trim_space request_id; s = trim_space session_identity;
          scoped_id = scoped_request_id s r
      in if r = [] then None
         else case (if s \<noteq> [] \<and> scoped_id \<noteq> [] \<and> scoped_id \<noteq> r
                    then resolve_approval_request_id_exact keys scoped_id s False else None) of
           Some durable \<Rightarrow> Some durable
         | None \<Rightarrow>
            (case resolve_approval_request_id_exact keys r s allow_legacy_wire of
               Some durable \<Rightarrow> Some durable
             | None \<Rightarrow>
                 if \<not> allow_legacy_wire then None
                 else case filter (\<lambda>(_, w, rs). w = r \<and> rs = []) keys of
                        [(durable, _, _)] \<Rightarrow> Some durable
                      | _ \<Rightarrow> None))"

definition approval_keys :: "minimal_approval list \<Rightarrow> request_key list" where
  "approval_keys = map (\<lambda>a. (ma_request_id a, ma_wire_request_id a, ma_session_identity a))"

definition pending_keys :: "pending_approval list \<Rightarrow> request_key list" where
  "pending_keys = map (\<lambda>a. (pa_request_id a, pa_wire_request_id a, pa_session_identity a))"

definition resolve_minimal_approval_request_id :: "string \<Rightarrow> approvals \<Rightarrow> string option" where
  "resolve_minimal_approval_request_id i av = resolve_approval_request_id (approval_keys (av_rows av)) i [] True"

definition resolve_minimal_approval_request_id_for_session :: "string \<Rightarrow> string \<Rightarrow> approvals \<Rightarrow> string option" where
  "resolve_minimal_approval_request_id_for_session i s av =
     resolve_approval_request_id (approval_keys (av_rows av)) i s False"

definition find_approval :: "string \<Rightarrow> approvals \<Rightarrow> minimal_approval option" where
  "find_approval i av = find (\<lambda>a. ma_request_id a = i) (av_rows av)"

definition wire_or_request :: "minimal_approval \<Rightarrow> string" where
  "wire_or_request a = (if ma_wire_request_id a = [] then ma_request_id a else ma_wire_request_id a)"

definition get_minimal_approval_by_resolved_id :: "string \<Rightarrow> approvals \<Rightarrow> minimal_approval option" where
  "get_minimal_approval_by_resolved_id i av =
     map_option (\<lambda>a. a\<lparr>ma_wire_request_id := wire_or_request a\<rparr>) (find_approval i av)"

definition get_minimal_approval :: "string \<Rightarrow> approvals \<Rightarrow> minimal_approval option" where
  "get_minimal_approval i av =
     Option.bind (resolve_minimal_approval_request_id i av) (\<lambda>r. get_minimal_approval_by_resolved_id r av)"

definition get_minimal_approval_for_session :: "string \<Rightarrow> string \<Rightarrow> approvals \<Rightarrow> minimal_approval option" where
  "get_minimal_approval_for_session i s av =
     Option.bind (resolve_minimal_approval_request_id_for_session i s av)
       (\<lambda>r. get_minimal_approval_by_resolved_id r av)"

definition find_button :: "string \<Rightarrow> approvals \<Rightarrow> approval_button option" where
  "find_button token av = find (\<lambda>b. ab_token b = token) (av_buttons av)"

definition get_minimal_approval_route :: "string \<Rightarrow> approvals \<Rightarrow> minimal_approval_route option" where
  "get_minimal_approval_route token av =
     map_option
       (\<lambda>b. case find_approval (ab_request_id b) av of
              None \<Rightarrow> \<lparr>mr_button = b, mr_wire_request_id = ab_request_id b, mr_session_identity = []\<rparr>
            | Some a \<Rightarrow> \<lparr>mr_button = b, mr_wire_request_id = wire_or_request a,
                         mr_session_identity = ma_session_identity a\<rparr>)
       (find_button token av)"

section \<open>Create\<close>

definition approval_inactive_text :: string where
  "approval_inactive_text = [CHR 0xEC, CHR 0x9A, CHR 0x94, CHR 0xEC, CHR 0xB2, CHR 0xAD, CHR 0xEC, CHR 0x9D, CHR 0xB4,
     CHR 0x20, CHR 0xEB, CHR 0x8D, CHR 0x94, CHR 0x20, CHR 0xEC, CHR 0x9D, CHR 0xB4, CHR 0xEC,
     CHR 0x83, CHR 0x81, CHR 0x20, CHR 0xED, CHR 0x99, CHR 0x9C, CHR 0xEC, CHR 0x84, CHR 0xB1,
     CHR 0x20, CHR 0xEC, CHR 0x83, CHR 0x81, CHR 0xED, CHR 0x83, CHR 0x9C, CHR 0xEA, CHR 0xB0,
     CHR 0x80, CHR 0x20, CHR 0xEC, CHR 0x95, CHR 0x84, CHR 0xEB, CHR 0x8B, CHR 0x99, CHR 0xEB,
     CHR 0x8B, CHR 0x88, CHR 0xEB, CHR 0x8B, CHR 0xA4, CHR 0x2E]"

definition approval_unknown_outcome_text :: string where
  "approval_unknown_outcome_text = [CHR 0xEC, CHR 0xB2, CHR 0x98, CHR 0xEB, CHR 0xA6, CHR 0xAC, CHR 0x20, CHR 0xEA, CHR 0xB2,
     CHR 0xB0, CHR 0xEA, CHR 0xB3, CHR 0xBC, CHR 0xEB, CHR 0xA5, CHR 0xBC, CHR 0x20, CHR 0xED,
     CHR 0x99, CHR 0x95, CHR 0xEC, CHR 0x9D, CHR 0xB8, CHR 0xED, CHR 0x95, CHR 0xA0, CHR 0x20,
     CHR 0xEC, CHR 0x88, CHR 0x98, CHR 0x20, CHR 0xEC, CHR 0x97, CHR 0x86, CHR 0xEC, CHR 0x96,
     CHR 0xB4, CHR 0x20, CHR 0xEB, CHR 0xB2, CHR 0x84, CHR 0xED, CHR 0x8A, CHR 0xBC, CHR 0xEC,
     CHR 0x9D, CHR 0xB4, CHR 0x20, CHR 0xEB, CHR 0xB9, CHR 0x84, CHR 0xED, CHR 0x99, CHR 0x9C,
     CHR 0xEC, CHR 0x84, CHR 0xB1, CHR 0xED, CHR 0x99, CHR 0x94, CHR 0xEB, CHR 0x90, CHR 0x98,
     CHR 0xEC, CHR 0x97, CHR 0x88, CHR 0xEC, CHR 0x8A, CHR 0xB5, CHR 0xEB, CHR 0x8B, CHR 0x88,
     CHR 0xEB, CHR 0x8B, CHR 0xA4, CHR 0x2E]"

definition button_open :: "string \<Rightarrow> approval_button \<Rightarrow> bool" where
  "button_open i b \<longleftrightarrow> ab_request_id b = i \<and> (ab_status b = ButtonActive \<or> ab_status b = ButtonClaimed)"

definition button_in :: "button_status \<Rightarrow> string \<Rightarrow> approval_button \<Rightarrow> bool" where
  "button_in st i b \<longleftrightarrow> ab_request_id b = i \<and> ab_status b = st"

definition mark_button :: "button_status \<Rightarrow> approval_button \<Rightarrow> approval_button" where
  "mark_button st b = b\<lparr>ab_status := st\<rparr>"

text \<open>An UPDATE of the buttons that must reach exactly two rows.\<close>

definition mark_two_buttons ::
  "(approval_button \<Rightarrow> bool) \<Rightarrow> (approval_button \<Rightarrow> approval_button) \<Rightarrow> approvals \<Rightarrow>
   (approval_error, approvals) result" where
  "mark_two_buttons p f av =
     (let n = affected p (av_buttons av)
      in if n \<noteq> 2 then Inl (ApRouteCount n)
         else Inr (av\<lparr>av_buttons := update_rows p f (av_buttons av)\<rparr>))"

definition insert_button :: "approval_button \<Rightarrow> approvals \<Rightarrow> (approval_error, approvals) result" where
  "insert_button b av =
     (if list_ex (\<lambda>b'. ab_token b' = ab_token b) (av_buttons av) then Inl ApConstraint
      else Inr (av\<lparr>av_buttons := av_buttons av @ [b]\<rparr>))"

definition new_button :: "approval_seed \<Rightarrow> string \<Rightarrow> string \<Rightarrow> approval_button" where
  "new_button seed token action =
     \<lparr>ab_token = token, ab_action = action, ab_request_id = ma_request_id (sd_approval seed),
      ab_thread_id = ma_thread_id (sd_approval seed), ab_turn_id = ma_turn_id (sd_approval seed),
      ab_request_kind = ma_request_kind (sd_approval seed), ab_status = ButtonActive,
      ab_chat_id = qi_chat_id (sd_delivery seed), ab_topic_id = qi_topic_id (sd_delivery seed),
      ab_message_id = 0\<rparr>"

definition insert_minimal_approval_routes :: "approval_seed \<Rightarrow> approvals \<Rightarrow> (approval_error, approvals) result" where
  "insert_minimal_approval_routes seed av =
     (case insert_button (new_button seed (sd_approve_token seed) ''approve'') av of
        Inl e \<Rightarrow> Inl e
      | Inr av1 \<Rightarrow> insert_button (new_button seed (sd_deny_token seed) ''deny'') av1)"

text \<open>\<^verbatim>\<open>UPDATE delivery_queue SET status='dead',payload_json=NULL WHERE ... AND status IN ('pending','retry','processing')\<close>.\<close>

definition kill_deliveries :: "(nat \<Rightarrow> bool) \<Rightarrow> approvals \<Rightarrow> approvals" where
  "kill_deliveries p av =
     av\<lparr>av_outbox := (av_outbox av)\<lparr>ob_queue :=
          update_rows (\<lambda>r. p (dq_id r) \<and> live (dq_status r)) (\<lambda>r. drop_payload (set_status Dead r))
            (ob_queue (av_outbox av))\<rparr>\<rparr>"

text \<open>\<^verbatim>\<open>INSERT ... ON CONFLICT(event_id,chat_key) DO NOTHING\<close> and the plain INSERT.\<close>

definition queue_or_ignore :: "instant \<Rightarrow> string \<Rightarrow> delivery_item \<Rightarrow> approvals \<Rightarrow> approvals" where
  "queue_or_ignore now payload item av =
     (if list_ex (same_target item) (ob_queue (av_outbox av)) then av
      else av\<lparr>av_outbox := append_row (\<lambda>i. single_row now i payload item) (av_outbox av)\<rparr>)"

definition approval_item :: "string \<Rightarrow> int \<Rightarrow> int \<Rightarrow> string \<Rightarrow> string \<Rightarrow> delivery_item" where
  "approval_item event chat topic thread kind =
     \<lparr>qi_id = 0, qi_event_id = event, qi_chat_key = chat_key chat topic, qi_chat_id = chat,
      qi_topic_id = topic, qi_thread_id = thread, qi_kind = kind, qi_status = Pending,
      qi_retry_count = 0, qi_available_at = None, qi_last_error = [], qi_payload = [],
      qi_group_id = [], qi_sequence_no = 1, qi_sequence_count = 1\<rparr>"

definition digest_id :: "string \<Rightarrow> string list \<Rightarrow> string" where
  "digest_id tag parts = tag @ hex_string (take 12 (sha256 (join zero_byte parts)))"

definition inactive_edit_payload :: "minimal_approval \<Rightarrow> string \<Rightarrow> delivery_payload" where
  "inactive_edit_payload a txt =
     \<lparr>dp_mode = ''edit'', dp_text = txt, dp_thread_id = ma_thread_id a, dp_turn_id = ma_turn_id a,
      dp_item_id = [], dp_event_id = ma_request_id a, dp_message_id = ma_message_id a,
      dp_buttons = [], dp_rendered = None\<rparr>"

definition enqueue_minimal_approval_inactive_edit ::
  "(delivery_payload \<Rightarrow> string) \<Rightarrow> protector \<Rightarrow> instant \<Rightarrow> minimal_approval \<Rightarrow> string \<Rightarrow> approvals \<Rightarrow>
   (approval_error, approvals) result" where
  "enqueue_minimal_approval_inactive_edit enc p now a txt av =
     (case protect p (enc (inactive_edit_payload a txt)) of
        None \<Rightarrow> Inl ApProtect
      | Some protected \<Rightarrow>
          Inr (queue_or_ignore now protected
            (approval_item
              (digest_id ''minimal-approval-inactive:''
                 [ma_request_id a, ma_thread_id a, ma_turn_id a, ma_request_kind a, ma_session_identity a])
              (ma_chat_id a) (ma_topic_id a) (ma_thread_id a) ''minimal_approval_inactive_edit'') av))"

definition definitely_unsent :: string where
  "definitely_unsent = ''delivery_outcome=definitely_unsent''"

definition unsent_and_dead :: "delivery_row \<Rightarrow> bool" where
  "unsent_and_dead r \<longleftrightarrow>
     dq_status r = Dead \<and> contains (case dq_last_error r of None \<Rightarrow> [] | Some e \<Rightarrow> e) definitely_unsent"

definition rearm_minimal_approval_delivery_if_dead ::
  "instant \<Rightarrow> minimal_approval \<Rightarrow> approval_seed \<Rightarrow> string \<Rightarrow> approvals \<Rightarrow> (approval_error, approvals) result" where
  "rearm_minimal_approval_delivery_if_dead now a seed protected av =
     (if ma_queue_id a = 0 \<or> trim_space protected = [] then Inr av
      else case find (\<lambda>r. dq_id r = ma_queue_id a \<and> dq_kind r = minimal_approval_kind) (ob_queue (av_outbox av)) of
        None \<Rightarrow> Inr av
      | Some r \<Rightarrow>
          if \<not> unsent_and_dead r then Inr av
          else case mark_two_buttons (button_open (ma_request_id a)) (mark_button ButtonExpired) av of
            Inl e \<Rightarrow> Inl e
          | Inr av1 \<Rightarrow>
             (case insert_minimal_approval_routes seed av1 of
                Inl e \<Rightarrow> Inl e
              | Inr av2 \<Rightarrow>
                 (let dead = (\<lambda>r. dq_id r = ma_queue_id a \<and> dq_kind r = minimal_approval_kind \<and>
                                  dq_status r = Dead \<and>
                                  (case dq_last_error r of None \<Rightarrow> False | Some e \<Rightarrow> e \<noteq> []));
                      q = ob_queue (av_outbox av2)
                  in if affected dead q \<noteq> 1 then Inl ApLost
                     else Inr (av2\<lparr>av_outbox := (av_outbox av2)\<lparr>ob_queue := update_rows dead
                       (\<lambda>r. r\<lparr>dq_status := Pending, dq_retry_count := 0,
                              dq_available_at := available_or now (sd_delivery seed),
                              dq_last_error := None, dq_payload := Some protected\<rparr>) q\<rparr>\<rparr>))))"

text \<open>The seed with its identity normalised, and the row it stands for.\<close>

definition normalized_seed :: "approval_seed \<Rightarrow> approval_seed" where
  "normalized_seed seed =
     (let a = sd_approval seed; s = trim_space (ma_session_identity a);
          (r, w) = normalize_request_identity s (ma_request_id a) (ma_wire_request_id a)
      in seed\<lparr>sd_approval := a\<lparr>ma_session_identity := s, ma_request_id := r, ma_wire_request_id := w\<rparr>\<rparr>)"

definition seed_status :: "approval_seed \<Rightarrow> string" where
  "seed_status seed =
     (let st = trim_space (ma_status (sd_approval seed)) in if st = [] then approval_pending else st)"

definition fresh_approval :: "instant \<Rightarrow> approval_seed \<Rightarrow> minimal_approval" where
  "fresh_approval now seed =
     (sd_approval seed)\<lparr>ma_supersede_event_id := sd_supersede_event_id seed, ma_status := seed_status seed,
        ma_claim_state := ClaimIdle, ma_claim_action := None,
        ma_chat_id := qi_chat_id (sd_delivery seed), ma_topic_id := qi_topic_id (sd_delivery seed),
        ma_message_id := 0, ma_queue_id := 0, ma_updated_at := now\<rparr>"

definition same_request :: "approval_seed \<Rightarrow> minimal_approval \<Rightarrow> bool" where
  "same_request seed a \<longleftrightarrow>
     ma_thread_id a = ma_thread_id (sd_approval seed) \<and> ma_turn_id a = ma_turn_id (sd_approval seed) \<and>
     ma_request_kind a = ma_request_kind (sd_approval seed)"

definition set_approvals ::
  "(minimal_approval \<Rightarrow> bool) \<Rightarrow> (minimal_approval \<Rightarrow> minimal_approval) \<Rightarrow> approvals \<Rightarrow> approvals" where
  "set_approvals p f av = av\<lparr>av_rows := update_rows p f (av_rows av)\<rparr>"

definition pending_request :: "string \<Rightarrow> minimal_approval \<Rightarrow> bool" where
  "pending_request i a \<longleftrightarrow> ma_request_id a = i \<and> ma_status a = approval_pending"

definition replay_minimal_approval ::
  "instant \<Rightarrow> approval_seed \<Rightarrow> string \<Rightarrow> minimal_approval \<Rightarrow> approvals \<Rightarrow>
   (approval_error, bool) result \<times> approvals" where
  "replay_minimal_approval now seed protected a av =
     (if ma_status a \<noteq> approval_pending
      then (Inr False, if 0 < ma_queue_id a then kill_deliveries (\<lambda>i. i = ma_queue_id a) av else av)
      else if affected (pending_request (ma_request_id a)) (av_rows av) \<noteq> 1 then (Inl ApLost, av)
      else case rearm_minimal_approval_delivery_if_dead now a seed protected
                  (set_approvals (pending_request (ma_request_id a))
                     (\<lambda>x. x\<lparr>ma_wire_request_id := ma_wire_request_id (sd_approval seed),
                            ma_session_identity := ma_session_identity (sd_approval seed),
                            ma_supersede_event_id := sd_supersede_event_id seed,
                            ma_updated_at := now\<rparr>) av) of
             Inl e \<Rightarrow> (Inl e, av)
           | Inr av' \<Rightarrow> (Inr False, av'))"

definition retire_minimal_approval ::
  "(delivery_payload \<Rightarrow> string) \<Rightarrow> protector \<Rightarrow> instant \<Rightarrow> minimal_approval \<Rightarrow> approvals \<Rightarrow>
   (approval_error, approvals) result" where
  "retire_minimal_approval enc p now a av =
     (case (if ma_status a = approval_pending
            then mark_two_buttons (button_open (ma_request_id a)) (mark_button ButtonExpired) av
            else Inr av) of
        Inl e \<Rightarrow> Inl e
      | Inr av1 \<Rightarrow>
         (case (if ma_chat_id a \<noteq> 0 \<and> 0 < ma_message_id a
                then enqueue_minimal_approval_inactive_edit enc p now a approval_inactive_text av1
                else Inr av1) of
            Inl e \<Rightarrow> Inl e
          | Inr av2 \<Rightarrow>
              Inr (if 0 < ma_queue_id a then kill_deliveries (\<lambda>i. i = ma_queue_id a) av2 else av2)))"

definition seeded_button :: "approval_seed \<Rightarrow> approval_button \<Rightarrow> bool" where
  "seeded_button seed b \<longleftrightarrow>
     ab_request_id b = ma_request_id (sd_approval seed) \<and>
     ab_thread_id b = ma_thread_id (sd_approval seed) \<and> ab_turn_id b = ma_turn_id (sd_approval seed) \<and>
     ab_request_kind b = ma_request_kind (sd_approval seed) \<and> ab_status b = ButtonActive"

text \<open>The common end of the insertion and the replacement: two buttons and one delivery.\<close>

definition publish_minimal_approval ::
  "instant \<Rightarrow> approval_seed \<Rightarrow> string \<Rightarrow> approvals \<Rightarrow> (approval_error, approvals) result" where
  "publish_minimal_approval now seed protected av =
     (case insert_minimal_approval_routes seed av of
        Inl e \<Rightarrow> Inl e
      | Inr av1 \<Rightarrow>
         (let n = affected (seeded_button seed) (av_buttons av1); item = sd_delivery seed; ob = av_outbox av1
          in if n \<noteq> 2 then Inl (ApRouteCount n)
             else if list_ex (same_target item) (ob_queue ob) then Inl ApConstraint
             else Inr (set_approvals (\<lambda>a. ma_request_id a = ma_request_id (sd_approval seed))
                    (\<lambda>a. a\<lparr>ma_queue_id := ob_next_id ob\<rparr>)
                    (av1\<lparr>av_outbox := append_row (\<lambda>i. single_row now i protected
                       (item\<lparr>qi_status := Pending, qi_retry_count := 0, qi_last_error := []\<rparr>)) ob\<rparr>))))"

definition seed_incomplete :: "approval_seed \<Rightarrow> bool" where
  "seed_incomplete seed \<longleftrightarrow>
     (let a = sd_approval seed
      in trim_space (ma_request_id a) = [] \<or> trim_space (ma_thread_id a) = [] \<or>
         trim_space (ma_turn_id a) = [] \<or> trim_space (ma_request_kind a) = [] \<or>
         trim_space (ma_session_identity a) = [])"

definition seed_routes_invalid :: "approval_seed \<Rightarrow> bool" where
  "seed_routes_invalid seed \<longleftrightarrow>
     qi_chat_id (sd_delivery seed) = 0 \<or> trim_space (sd_approve_token seed) = [] \<or>
     trim_space (sd_deny_token seed) = [] \<or> sd_approve_token seed = sd_deny_token seed"

definition commit_created :: "approvals \<Rightarrow> (approval_error, approvals) result \<Rightarrow>
   (approval_error, bool) result \<times> approvals" where
  "commit_created av res = (case res of Inl e \<Rightarrow> (Inl e, av) | Inr av' \<Rightarrow> (Inr True, av'))"

definition create_minimal_approval ::
  "(delivery_payload \<Rightarrow> string) \<Rightarrow> protector option \<Rightarrow> instant \<Rightarrow> approval_seed \<Rightarrow> approvals \<Rightarrow>
   (approval_error, bool) result \<times> approvals" where
  "create_minimal_approval enc prot now seed0 av =
     (let seed = normalized_seed seed0; i = ma_request_id (sd_approval seed)
      in case prot of
           None \<Rightarrow> (Inl ApNoProtector, av)
         | Some p \<Rightarrow>
             if seed_incomplete seed then (Inl ApIncomplete, av)
             else if seed_routes_invalid seed then (Inl ApBadRoutes, av)
             else case protect p (qi_payload (sd_delivery seed)) of
               None \<Rightarrow> (Inl ApProtect, av)
             | Some protected \<Rightarrow>
                (case find_approval i av of
                   None \<Rightarrow>
                     commit_created av (publish_minimal_approval now seed protected
                       (av\<lparr>av_rows := av_rows av @ [fresh_approval now seed]\<rparr>))
                 | Some a \<Rightarrow>
                     if same_request seed a then replay_minimal_approval now seed protected a av
                     else (case retire_minimal_approval enc p now a av of
                             Inl e \<Rightarrow> (Inl e, av)
                           | Inr av1 \<Rightarrow>
                               commit_created av (publish_minimal_approval now seed protected
                                 (set_approvals (\<lambda>x. ma_request_id x = i) (\<lambda>_. fresh_approval now seed) av1)))))"

section \<open>Delivery of the request\<close>

text \<open>\<^verbatim>\<open>INSERT ... ON CONFLICT\<close> of a message route: the item of an existing route stays.\<close>

definition bind_message_route :: "int \<Rightarrow> int \<Rightarrow> int \<Rightarrow> string \<Rightarrow> string \<Rightarrow> string \<Rightarrow> instant \<Rightarrow> approvals \<Rightarrow> approvals" where
  "bind_message_route chat topic message thread turn event now av =
     (let same = (\<lambda>r. rt_chat_id r = chat \<and> rt_topic_id r = topic \<and> rt_message_id r = message);
          rts = ob_routes (av_outbox av)
      in av\<lparr>av_outbox := (av_outbox av)\<lparr>ob_routes :=
           (if list_ex same rts
            then update_rows same (\<lambda>r. r\<lparr>rt_thread_id := thread, rt_turn_id := turn, rt_event_id := event,
                                        rt_created_at := now\<rparr>) rts
            else rts @ [\<lparr>rt_chat_id = chat, rt_topic_id = topic, rt_message_id = message,
                         rt_thread_id = thread, rt_turn_id = turn, rt_item_id = [], rt_event_id = event,
                         rt_created_at = now\<rparr>])\<rparr>\<rparr>)"

definition minimal_approval_pc_cleanup_event_id :: "string \<Rightarrow> string \<Rightarrow> string" where
  "minimal_approval_pc_cleanup_event_id request_id supersede_event_id =
     digest_id ''minimal-approval-pc-cleanup:'' [request_id, supersede_event_id]"

definition pc_cleanup_payload :: "minimal_approval \<Rightarrow> string \<Rightarrow> message_route \<Rightarrow> delivery_payload" where
  "pc_cleanup_payload a supersede rt =
     \<lparr>dp_mode = ''delete_message'', dp_text = [], dp_thread_id = ma_thread_id a, dp_turn_id = ma_turn_id a,
      dp_item_id = ma_request_id a, dp_event_id = supersede, dp_message_id = rt_message_id rt,
      dp_buttons = [], dp_rendered = None\<rparr>"

fun enqueue_cleanups ::
  "(delivery_payload \<Rightarrow> string) \<Rightarrow> protector option \<Rightarrow> instant \<Rightarrow> minimal_approval \<Rightarrow> string \<Rightarrow>
   message_route list \<Rightarrow> approvals \<Rightarrow> (approval_error, approvals) result" where
  "enqueue_cleanups enc prot now a supersede [] av = Inr av"
| "enqueue_cleanups enc prot now a supersede (rt # rts) av =
     (if rt_chat_id rt = 0 \<or> rt_message_id rt \<le> 0 then enqueue_cleanups enc prot now a supersede rts av
      else case protect_payload prot (enc (pc_cleanup_payload a supersede rt)) of
        Inl e \<Rightarrow> Inl ApProtect
      | Inr payload \<Rightarrow>
          enqueue_cleanups enc prot now a supersede rts
            (queue_or_ignore now payload
               (approval_item (minimal_approval_pc_cleanup_event_id (ma_request_id a) supersede)
                  (rt_chat_id rt) (rt_topic_id rt) (ma_thread_id a) ''minimal_approval_pc_cleanup'') av))"

definition enqueue_minimal_approval_pc_cleanup ::
  "(delivery_payload \<Rightarrow> string) \<Rightarrow> protector option \<Rightarrow> instant \<Rightarrow> minimal_approval \<Rightarrow> approvals \<Rightarrow>
   (approval_error, approvals) result" where
  "enqueue_minimal_approval_pc_cleanup enc prot now a av =
     (let supersede = trim_space (ma_supersede_event_id a)
      in if supersede = [] then Inr av
         else enqueue_cleanups enc prot now a supersede
                (sort_key (\<lambda>r. (rt_chat_id r, rt_topic_id r, rt_message_id r))
                   (filter (\<lambda>r. rt_event_id r = supersede \<and> rt_thread_id r = ma_thread_id a \<and>
                                rt_turn_id r = ma_turn_id a) (ob_routes (av_outbox av)))) av)"

text \<open>The rows of \<^verbatim>\<open>CompleteMinimalApprovalDelivery\<close>, once its guards are passed.\<close>

definition bind_delivered_approval :: "nat \<Rightarrow> string \<Rightarrow> int \<Rightarrow> int \<Rightarrow> int \<Rightarrow> instant \<Rightarrow> approvals \<Rightarrow>
   (approval_error, approvals) result" where
  "bind_delivered_approval queue_id i chat topic message now av =
     mark_two_buttons (button_in ButtonActive i)
       (\<lambda>b. b\<lparr>ab_chat_id := chat, ab_topic_id := topic, ab_message_id := message\<rparr>)
       (set_approvals (\<lambda>a. ma_request_id a = i)
          (\<lambda>a. a\<lparr>ma_chat_id := chat, ma_topic_id := topic, ma_message_id := message, ma_updated_at := now\<rparr>) av)"

definition mark_delivered :: "nat \<Rightarrow> approvals \<Rightarrow> approvals" where
  "mark_delivered queue_id av =
     av\<lparr>av_outbox := (av_outbox av)\<lparr>ob_queue :=
          update_rows (\<lambda>r. dq_id r = queue_id) (\<lambda>r. drop_payload (set_status Delivered r))
            (ob_queue (av_outbox av))\<rparr>\<rparr>"

definition complete_minimal_approval_delivery ::
  "(delivery_payload \<Rightarrow> string) \<Rightarrow> protector option \<Rightarrow> instant \<Rightarrow> nat \<Rightarrow> string \<Rightarrow> int \<Rightarrow> int \<Rightarrow> int \<Rightarrow> approvals \<Rightarrow>
   (approval_error, unit) result \<times> approvals" where
  "complete_minimal_approval_delivery enc prot now queue_id request_id chat topic message av =
     (if queue_id = 0 \<or> message \<le> 0 then (Inl ApIncomplete, av)
      else case Option.bind (resolve_minimal_approval_request_id request_id av) (\<lambda>i. find_approval i av) of
        None \<Rightarrow> (Inl ApNoRow, av)
      | Some a \<Rightarrow>
          if ma_queue_id a \<noteq> queue_id \<or> ma_status a \<noteq> approval_pending then (Inl ApNotPending, av)
          else case find (\<lambda>r. dq_id r = queue_id \<and> dq_chat_id r = chat \<and> dq_topic_id r = topic \<and>
                              dq_kind r = minimal_approval_kind) (ob_queue (av_outbox av)) of
            None \<Rightarrow> (Inl ApNoRow, av)
          | Some r \<Rightarrow>
              if dq_status r \<noteq> Processing then (Inl ApNotProcessing, av)
              else case bind_delivered_approval queue_id (ma_request_id a) chat topic message now av of
                Inl e \<Rightarrow> (Inl e, av)
              | Inr av1 \<Rightarrow>
                 (case enqueue_minimal_approval_pc_cleanup enc prot now a
                         (mark_delivered queue_id
                           (bind_message_route chat topic message (ma_thread_id a) (ma_turn_id a)
                              (ma_request_id a) now av1)) of
                    Inl e \<Rightarrow> (Inl e, av)
                  | Inr av2 \<Rightarrow> (Inr (), av2)))"

text \<open>The latest request of a turn that supersedes an event: \<^verbatim>\<open>ORDER BY updated_at DESC LIMIT 1\<close>.\<close>

fun latest_approval :: "minimal_approval list \<Rightarrow> minimal_approval option" where
  "latest_approval [] = None"
| "latest_approval (a # as) =
     (case latest_approval as of
        None \<Rightarrow> Some a
      | Some b \<Rightarrow> if stamp_le (ma_updated_at b) (ma_updated_at a) then Some a else Some b)"

definition minimal_approval_pc_cleanup_ready :: "string \<Rightarrow> string \<Rightarrow> string \<Rightarrow> string \<Rightarrow> approvals \<Rightarrow> bool \<times> bool" where
  "minimal_approval_pc_cleanup_ready request_id thread_id turn_id supersede_event_id av =
     (let r = trim_space request_id; t = trim_space thread_id; u = trim_space turn_id;
          e = trim_space supersede_event_id;
          chosen = (if r = []
                    then (if t = [] \<or> u = [] \<or> e = [] then None
                          else map_option ma_request_id
                                 (latest_approval (filter (\<lambda>a. ma_thread_id a = t \<and> ma_turn_id a = u \<and>
                                                               ma_supersede_event_id a = e) (av_rows av))))
                    else resolve_minimal_approval_request_id r av)
      in case chosen of
           None \<Rightarrow> (False, True)
         | Some i \<Rightarrow>
            (case find (\<lambda>a. ma_request_id a = i \<and> (t = [] \<or> ma_thread_id a = t) \<and> (u = [] \<or> ma_turn_id a = u) \<and>
                            (e = [] \<or> ma_supersede_event_id a = e)) (av_rows av) of
               None \<Rightarrow> (False, True)
             | Some a \<Rightarrow>
                 if ma_status a \<noteq> approval_pending then (False, True)
                 else if ma_message_id a \<le> 0 then (False, False)
                 else (affected (\<lambda>rt. rt_chat_id rt = ma_chat_id a \<and> rt_topic_id rt = ma_topic_id a \<and>
                         rt_message_id rt = ma_message_id a \<and> rt_event_id rt = i) (ob_routes (av_outbox av)) = 1,
                       False)))"

definition minimal_approval_delivery_active :: "nat \<Rightarrow> string \<Rightarrow> approvals \<Rightarrow> bool" where
  "minimal_approval_delivery_active queue_id request_id av =
     (case resolve_minimal_approval_request_id request_id av of
        None \<Rightarrow> False
      | Some i \<Rightarrow>
          length (List.product
            (filter (\<lambda>a. ma_request_id a = i \<and> ma_queue_id a = queue_id \<and> ma_status a = approval_pending \<and>
                         ma_claim_state a = ClaimIdle) (av_rows av))
            (filter (\<lambda>r. dq_id r = queue_id \<and> dq_status r = Processing) (ob_queue (av_outbox av)))) = 1)"

section \<open>A press of a button\<close>

definition claim_exact :: "int \<Rightarrow> int \<Rightarrow> int \<Rightarrow> string \<Rightarrow> approval_button \<Rightarrow> minimal_approval \<Rightarrow> bool" where
  "claim_exact chat topic message session_identity b a \<longleftrightarrow>
     0 < message \<and> ma_session_identity a = session_identity \<and> ab_status b = ButtonActive \<and>
     ma_status a = approval_pending \<and> ma_claim_state a = ClaimIdle \<and>
     ab_chat_id b = chat \<and> ab_topic_id b = topic \<and> ma_chat_id a = chat \<and> ma_topic_id a = topic \<and>
     (ab_message_id b = message \<and> ma_message_id a = message \<or> ab_message_id b = 0 \<and> ma_message_id a = 0) \<and>
     ab_thread_id b = ma_thread_id a \<and> ab_turn_id b = ma_turn_id a \<and> ab_request_kind b = ma_request_kind a"

definition idle_request :: "string \<Rightarrow> minimal_approval \<Rightarrow> bool" where
  "idle_request i a \<longleftrightarrow> pending_request i a \<and> ma_claim_state a = ClaimIdle"

definition claimed_request :: "string \<Rightarrow> string \<Rightarrow> minimal_approval \<Rightarrow> bool" where
  "claimed_request i action a \<longleftrightarrow>
     pending_request i a \<and> ma_claim_state a = ClaimTaken \<and> ma_claim_action a = Some action"

text \<open>
  The first press binds the message when the delivery has not: the request's row, then its two
  buttons, then the route of replies. \<^verbatim>\<open>Inr None\<close> is the early return without a claim.
\<close>

definition self_bind ::
  "int \<Rightarrow> int \<Rightarrow> int \<Rightarrow> instant \<Rightarrow> approval_button \<Rightarrow> approvals \<Rightarrow> (approval_error, approvals option) result" where
  "self_bind chat topic message now b av =
     (let i = ab_request_id b; free = (\<lambda>a. idle_request i a \<and> ma_message_id a = 0)
      in if affected free (av_rows av) \<noteq> 1 then Inr None
         else case mark_two_buttons (\<lambda>b. button_in ButtonActive i b \<and> ab_message_id b = 0)
                     (\<lambda>b. b\<lparr>ab_message_id := message\<rparr>)
                     (set_approvals free (\<lambda>a. a\<lparr>ma_message_id := message, ma_updated_at := now\<rparr>) av) of
                Inl e \<Rightarrow> Inl e
              | Inr av1 \<Rightarrow> Inr (Some (bind_message_route chat topic message (ab_thread_id b) (ab_turn_id b) i now av1)))"

definition take_claim ::
  "instant \<Rightarrow> minimal_approval_route \<Rightarrow> approvals \<Rightarrow> approvals \<Rightarrow>
   (approval_error, minimal_approval_route option \<times> bool) result \<times> approvals" where
  "take_claim now route av0 av =
     (let i = ab_request_id (mr_button route)
      in if affected (idle_request i) (av_rows av) \<noteq> 1 then (Inr (Some route, False), av)
         else case mark_two_buttons (button_in ButtonActive i) (mark_button ButtonClaimed)
                     (set_approvals (idle_request i)
                        (\<lambda>a. a\<lparr>ma_claim_state := ClaimTaken, ma_claim_action := Some (ab_action (mr_button route)),
                               ma_updated_at := now\<rparr>) av) of
                Inl e \<Rightarrow> (Inl e, av0)
              | Inr av' \<Rightarrow> (Inr (Some route, True), av'))"

definition claim_minimal_approval ::
  "instant \<Rightarrow> string \<Rightarrow> int \<Rightarrow> int \<Rightarrow> int \<Rightarrow> string \<Rightarrow> approvals \<Rightarrow>
   (approval_error, minimal_approval_route option \<times> bool) result \<times> approvals" where
  "claim_minimal_approval now token chat topic message session_identity av =
     (case find_button token av of
        None \<Rightarrow> (Inr (None, False), av)
      | Some b \<Rightarrow>
         (case find_approval (ab_request_id b) av of
            None \<Rightarrow> (Inr (None, False), av)
          | Some a \<Rightarrow>
             (let route = \<lparr>mr_button = b, mr_wire_request_id = wire_or_request a,
                           mr_session_identity = ma_session_identity a\<rparr>
              in if \<not> claim_exact chat topic message (trim_space session_identity) b a
                 then (Inr (Some route, False), av)
                 else if ab_message_id b = 0 \<and> ma_message_id a = 0
                 then (case self_bind chat topic message now b av of
                         Inl e \<Rightarrow> (Inl e, av)
                       | Inr None \<Rightarrow> (Inr (Some route, False), av)
                       | Inr (Some av1) \<Rightarrow>
                           take_claim now (route\<lparr>mr_button := b\<lparr>ab_message_id := message\<rparr>\<rparr>) av av1)
                 else take_claim now route av av)))"

section \<open>The end of a claim or a request\<close>

text \<open>
  The shape these transactions share: one row of the request changes, and then exactly two of
  its buttons. When the row does not qualify nothing changes and the answer is false.
\<close>

definition settle_request ::
  "(minimal_approval \<Rightarrow> bool) \<Rightarrow> (minimal_approval \<Rightarrow> minimal_approval) \<Rightarrow> button_status \<Rightarrow> button_status \<Rightarrow>
   string \<Rightarrow> approvals \<Rightarrow> (approval_error, approvals option) result" where
  "settle_request p f from_st to_st i av =
     (if affected p (av_rows av) \<noteq> 1 then Inr None
      else case mark_two_buttons (button_in from_st i) (mark_button to_st) (set_approvals p f av) of
             Inl e \<Rightarrow> Inl e
           | Inr av' \<Rightarrow> Inr (Some av'))"

definition commit_settled ::
  "approvals \<Rightarrow> (approval_error, approvals option) result \<Rightarrow> (approval_error, bool) result \<times> approvals" where
  "commit_settled av res =
     (case res of
        Inl e \<Rightarrow> (Inl e, av)
      | Inr None \<Rightarrow> (Inr False, av)
      | Inr (Some av') \<Rightarrow> (Inr True, av'))"

definition free_claim :: "string \<Rightarrow> instant \<Rightarrow> minimal_approval \<Rightarrow> minimal_approval" where
  "free_claim st now a =
     a\<lparr>ma_status := st, ma_claim_state := ClaimIdle, ma_claim_action := None, ma_updated_at := now\<rparr>"

definition restore_minimal_approval_claim ::
  "instant \<Rightarrow> string \<Rightarrow> string \<Rightarrow> approvals \<Rightarrow> (approval_error, bool) result \<times> approvals" where
  "restore_minimal_approval_claim now request_id action av =
     (case resolve_minimal_approval_request_id request_id av of
        None \<Rightarrow> (Inr False, av)
      | Some i \<Rightarrow> commit_settled av
          (settle_request (claimed_request i action) (\<lambda>a. free_claim (ma_status a) now a)
             ButtonClaimed ButtonActive i av))"

definition finish_minimal_approval_claim ::
  "instant \<Rightarrow> string \<Rightarrow> string \<Rightarrow> string \<Rightarrow> approvals \<Rightarrow> (approval_error, bool) result \<times> approvals" where
  "finish_minimal_approval_claim now request_id action st av =
     (case resolve_minimal_approval_request_id request_id av of
        None \<Rightarrow> (Inr False, av)
      | Some i \<Rightarrow> commit_settled av
          (settle_request (claimed_request i action) (free_claim st now) ButtonClaimed ButtonConsumed i av))"

definition expire_resolved :: "instant \<Rightarrow> string option \<Rightarrow> approvals \<Rightarrow> (approval_error, bool) result \<times> approvals" where
  "expire_resolved now resolved av =
     (case resolved of
        None \<Rightarrow> (Inr False, av)
      | Some i \<Rightarrow> commit_settled av
          (case settle_request (idle_request i) (\<lambda>a. a\<lparr>ma_status := ''expired'', ma_updated_at := now\<rparr>)
                  ButtonActive ButtonExpired i av of
             Inr (Some av') \<Rightarrow>
               Inr (Some (kill_deliveries (\<lambda>q. q \<in> set (map ma_queue_id
                            (filter (\<lambda>a. ma_request_id a = i) (av_rows av')))) av'))
           | res \<Rightarrow> res))"

definition expire_minimal_approval :: "instant \<Rightarrow> string \<Rightarrow> approvals \<Rightarrow> (approval_error, bool) result \<times> approvals" where
  "expire_minimal_approval now request_id av =
     expire_resolved now (resolve_minimal_approval_request_id request_id av) av"

definition expire_minimal_approval_for_session ::
  "instant \<Rightarrow> string \<Rightarrow> string \<Rightarrow> approvals \<Rightarrow> (approval_error, bool) result \<times> approvals" where
  "expire_minimal_approval_for_session now request_id session_identity av =
     expire_resolved now (resolve_minimal_approval_request_id_for_session request_id session_identity av) av"

text \<open>The end of a session expires everything it asked: both kinds of requests and the callback routes.\<close>

definition expire_minimal_approvals_of_session :: "instant \<Rightarrow> string \<Rightarrow> approvals \<Rightarrow> nat \<times> approvals" where
  "expire_minimal_approvals_of_session now identity av =
     (let waiting = (\<lambda>a. ma_session_identity a = identity \<and> ma_status a = approval_pending);
          changed = affected waiting (av_rows av);
          av1 = set_approvals waiting (free_claim ''expired'' now) av;
          gone = filter (\<lambda>a. ma_session_identity a = identity \<and> ma_status a = ''expired'') (av_rows av1)
      in (changed,
          if changed = 0 then av1
          else kill_deliveries (\<lambda>q. q \<in> set (map ma_queue_id gone))
                 (av1\<lparr>av_buttons := update_rows
                    (\<lambda>b. (ab_status b = ButtonActive \<or> ab_status b = ButtonClaimed) \<and>
                         ab_request_id b \<in> set (map ma_request_id gone))
                    (mark_button ButtonExpired) (av_buttons av1)\<rparr>)))"

definition expire_pending_approvals_for_session :: "string \<Rightarrow> approvals \<Rightarrow> nat \<times> approvals" where
  "expire_pending_approvals_for_session identity av =
     (let p = (\<lambda>a. pa_session_identity a = identity \<and> pa_status a = ''pending'')
      in (affected p (av_pending av),
          av\<lparr>av_pending := update_rows p (\<lambda>a. a\<lparr>pa_status := ''expired''\<rparr>) (av_pending av)\<rparr>))"

definition expire_callback_routes_for_session :: "string \<Rightarrow> approvals \<Rightarrow> approvals" where
  "expire_callback_routes_for_session identity av =
     av\<lparr>av_callbacks := update_rows
          (\<lambda>c. cb_session_identity c = identity \<and> (cb_status c = ''active'' \<or> cb_status c = ''claimed''))
          (\<lambda>c. c\<lparr>cb_status := ''expired''\<rparr>) (av_callbacks av)\<rparr>"

definition expire_minimal_approvals_for_session :: "instant \<Rightarrow> string \<Rightarrow> approvals \<Rightarrow> nat \<times> approvals" where
  "expire_minimal_approvals_for_session now session_identity av =
     (let identity = trim_space session_identity
      in if identity = [] then (0, av)
         else let (n, av1) = expire_minimal_approvals_of_session now identity av;
                  (m, av2) = expire_pending_approvals_for_session identity av1
              in (n + m, expire_callback_routes_for_session identity av2))"

text \<open>The end of a turn: its requests that nobody holds expire.\<close>

definition expire_minimal_approvals_for_thread_turn :: "instant \<Rightarrow> string \<Rightarrow> string \<Rightarrow> approvals \<Rightarrow> nat \<times> approvals" where
  "expire_minimal_approvals_for_thread_turn now thread0 turn0 av =
     (let thread = trim_space thread0; turn = trim_space turn0;
          here = (\<lambda>a. ma_thread_id a = thread \<and> ma_turn_id a = turn);
          waiting = (\<lambda>a. here a \<and> ma_status a = approval_pending \<and> ma_claim_state a = ClaimIdle);
          changed = affected waiting (av_rows av);
          av1 = set_approvals waiting (\<lambda>a. a\<lparr>ma_status := ''expired'', ma_updated_at := now\<rparr>) av;
          gone = filter (\<lambda>a. here a \<and> ma_status a = ''expired'') (av_rows av1)
      in if thread = [] \<or> turn = [] then (0, av)
         else (changed,
           if changed = 0 then av1
           else kill_deliveries (\<lambda>q. q \<in> set (map ma_queue_id gone))
                  (av1\<lparr>av_buttons := update_rows
                     (\<lambda>b. ab_status b = ButtonActive \<and> ab_request_id b \<in> set (map ma_request_id gone))
                     (mark_button ButtonExpired) (av_buttons av1)\<rparr>)))"

definition cancel_minimal_approval_claim_with_inactive_edit ::
  "(delivery_payload \<Rightarrow> string) \<Rightarrow> protector option \<Rightarrow> instant \<Rightarrow> string \<Rightarrow> string \<Rightarrow> string \<Rightarrow> approvals \<Rightarrow>
   (approval_error, bool) result \<times> approvals" where
  "cancel_minimal_approval_claim_with_inactive_edit enc prot now request_id action txt av =
     (case prot of
        None \<Rightarrow> (Inl ApNoProtector, av)
      | Some p \<Rightarrow>
         (case Option.bind (resolve_minimal_approval_request_id request_id av) (\<lambda>i. find_approval i av) of
            None \<Rightarrow> (Inr False, av)
          | Some a \<Rightarrow>
             (let i = ma_request_id a
              in if ma_status a \<noteq> approval_pending \<or> ma_claim_state a \<noteq> ClaimTaken \<or>
                    (case ma_claim_action a of None \<Rightarrow> [] | Some x \<Rightarrow> x) \<noteq> action \<or>
                    ma_chat_id a = 0 \<or> ma_message_id a \<le> 0 \<or> trim_space txt = []
                 then (Inr False, av)
                 else commit_settled av
                   (case settle_request (claimed_request i action) (free_claim ''cancelled'' now)
                           ButtonClaimed ButtonConsumed i av of
                      Inr (Some av1) \<Rightarrow> map_sum id Some (enqueue_minimal_approval_inactive_edit enc p now a txt av1)
                    | res \<Rightarrow> res))))"

fun recover_claims ::
  "(delivery_payload \<Rightarrow> string) \<Rightarrow> protector option \<Rightarrow> instant \<Rightarrow> (string \<times> string) list \<Rightarrow> nat \<Rightarrow> approvals \<Rightarrow>
   (approval_error, nat) result \<times> approvals" where
  "recover_claims enc prot now [] n av = (Inr n, av)"
| "recover_claims enc prot now ((i, action) # cs) n av =
     (case cancel_minimal_approval_claim_with_inactive_edit enc prot now i action
             approval_unknown_outcome_text av of
        (Inl e, av1) \<Rightarrow> (Inl e, av1)
      | (Inr changed, av1) \<Rightarrow> recover_claims enc prot now cs (if changed then Suc n else n) av1)"

definition recover_minimal_approval_claims ::
  "(delivery_payload \<Rightarrow> string) \<Rightarrow> protector option \<Rightarrow> instant \<Rightarrow> approvals \<Rightarrow>
   (approval_error, nat) result \<times> approvals" where
  "recover_minimal_approval_claims enc prot now av =
     recover_claims enc prot now
       (map (\<lambda>a. (ma_request_id a, case ma_claim_action a of None \<Rightarrow> [] | Some x \<Rightarrow> x))
          (filter (\<lambda>a. ma_status a = approval_pending \<and> ma_claim_state a = ClaimTaken) (av_rows av))) 0 av"

section \<open>Requests and routes of the full profile\<close>

definition protect_sensitive_text :: "protector option \<Rightarrow> string \<Rightarrow> (approval_error, string) result" where
  "protect_sensitive_text prot v =
     (case prot of
        None \<Rightarrow> Inr v
      | Some p \<Rightarrow>
          if trim_space v = [] then Inr v
          else if has_prefix v protected_prefix
          then (if unprotect p v = None then Inl ApUnprotect else Inr v)
          else (case protect p v of None \<Rightarrow> Inl ApProtect | Some c \<Rightarrow> Inr c))"

definition unprotect_sensitive_text :: "protector option \<Rightarrow> string \<Rightarrow> (approval_error, string) result" where
  "unprotect_sensitive_text prot v =
     (case prot of
        None \<Rightarrow> Inr v
      | Some p \<Rightarrow>
          if trim_space v = [] \<or> \<not> has_prefix v protected_prefix then Inr v
          else (case unprotect p v of None \<Rightarrow> Inl ApUnprotect | Some t \<Rightarrow> Inr t))"

definition save_pending_approval ::
  "protector option \<Rightarrow> pending_approval \<Rightarrow> approvals \<Rightarrow> (approval_error, unit) result \<times> approvals" where
  "save_pending_approval prot a0 av =
     (let s = trim_space (pa_session_identity a0);
          (r, w) = normalize_request_identity s (pa_request_id a0) (pa_wire_request_id a0);
          kind = (if trim_space (pa_request_kind a0) = [] then pa_prompt_kind a0 else pa_request_kind a0)
      in case protect_sensitive_text prot (pa_question a0) of
           Inl e \<Rightarrow> (Inl e, av)
         | Inr question \<Rightarrow>
            (case protect_sensitive_text prot (pa_payload a0) of
               Inl e \<Rightarrow> (Inl e, av)
             | Inr payload \<Rightarrow>
                (let row = a0\<lparr>pa_request_id := r, pa_wire_request_id := w, pa_session_identity := s,
                              pa_turn_id := blank_to_empty (pa_turn_id a0),
                              pa_item_id := blank_to_empty (pa_item_id a0), pa_request_kind := kind,
                              pa_question := blank_to_empty question, pa_payload := payload\<rparr>;
                     same = (\<lambda>x. pa_request_id x = r)
                 in (Inr (), av\<lparr>av_pending := (if list_ex same (av_pending av)
                                               then update_rows same (\<lambda>_. row) (av_pending av)
                                               else av_pending av @ [row])\<rparr>))))"

definition read_pending_approval :: "protector option \<Rightarrow> pending_approval \<Rightarrow> (approval_error, pending_approval) result" where
  "read_pending_approval prot a =
     (case unprotect_sensitive_text prot (pa_question a) of
        Inl e \<Rightarrow> Inl e
      | Inr question \<Rightarrow>
         (case unprotect_sensitive_text prot (pa_payload a) of
            Inl e \<Rightarrow> Inl e
          | Inr payload \<Rightarrow>
              Inr (a\<lparr>pa_wire_request_id := (if pa_wire_request_id a = [] then pa_request_id a else pa_wire_request_id a),
                     pa_request_kind := (if pa_request_kind a = [] then pa_prompt_kind a else pa_request_kind a),
                     pa_question := question, pa_payload := payload\<rparr>)))"

definition get_pending_approval_by_resolved_id ::
  "protector option \<Rightarrow> string option \<Rightarrow> approvals \<Rightarrow> (approval_error, pending_approval option) result" where
  "get_pending_approval_by_resolved_id prot resolved av =
     (case Option.bind resolved (\<lambda>i. find (\<lambda>a. pa_request_id a = i) (av_pending av)) of
        None \<Rightarrow> Inr None
      | Some a \<Rightarrow> map_sum id Some (read_pending_approval prot a))"

definition get_pending_approval ::
  "protector option \<Rightarrow> string \<Rightarrow> approvals \<Rightarrow> (approval_error, pending_approval option) result" where
  "get_pending_approval prot i av =
     get_pending_approval_by_resolved_id prot
       (resolve_approval_request_id (pending_keys (av_pending av)) i [] True) av"

definition get_pending_approval_for_session ::
  "protector option \<Rightarrow> string \<Rightarrow> string \<Rightarrow> approvals \<Rightarrow> (approval_error, pending_approval option) result" where
  "get_pending_approval_for_session prot i s av =
     get_pending_approval_by_resolved_id prot
       (resolve_approval_request_id (pending_keys (av_pending av)) i s False) av"

definition set_pending_status :: "string option \<Rightarrow> string \<Rightarrow> approvals \<Rightarrow> approvals" where
  "set_pending_status resolved st av =
     (case resolved of
        None \<Rightarrow> av
      | Some i \<Rightarrow> av\<lparr>av_pending := update_rows (\<lambda>a. pa_request_id a = i) (\<lambda>a. a\<lparr>pa_status := st\<rparr>) (av_pending av)\<rparr>)"

definition update_pending_approval_status :: "string \<Rightarrow> string \<Rightarrow> approvals \<Rightarrow> approvals" where
  "update_pending_approval_status i st av =
     set_pending_status (resolve_approval_request_id (pending_keys (av_pending av)) i [] True) st av"

definition update_pending_approval_status_for_session :: "string \<Rightarrow> string \<Rightarrow> string \<Rightarrow> approvals \<Rightarrow> approvals" where
  "update_pending_approval_status_for_session i s st av =
     set_pending_status (resolve_approval_request_id (pending_keys (av_pending av)) i s False) st av"

definition mark_all_pending_approvals :: "string \<Rightarrow> approvals \<Rightarrow> nat \<times> approvals" where
  "mark_all_pending_approvals st av =
     (let p = (\<lambda>a. pa_status a = ''pending'')
      in (affected p (av_pending av),
          av\<lparr>av_pending := update_rows p (\<lambda>a. a\<lparr>pa_status := st\<rparr>) (av_pending av)\<rparr>))"

definition put_callback_route ::
  "protector option \<Rightarrow> callback_route \<Rightarrow> approvals \<Rightarrow> (approval_error, unit) result \<times> approvals" where
  "put_callback_route prot c av =
     (case protect_sensitive_text prot (cb_payload c) of
        Inl e \<Rightarrow> (Inl e, av)
      | Inr payload \<Rightarrow>
          (Inr (), av\<lparr>av_callbacks := filter (\<lambda>x. cb_token x \<noteq> cb_token c) (av_callbacks av) @
             [c\<lparr>cb_turn_id := blank_to_empty (cb_turn_id c), cb_request_id := blank_to_empty (cb_request_id c),
                cb_session_identity := trim_space (cb_session_identity c),
                cb_expires_at := blank_to_empty (cb_expires_at c), cb_payload := payload\<rparr>]\<rparr>))"

definition get_callback_route ::
  "protector option \<Rightarrow> string \<Rightarrow> approvals \<Rightarrow> (approval_error, callback_route option) result" where
  "get_callback_route prot token av =
     (case find (\<lambda>c. cb_token c = token) (av_callbacks av) of
        None \<Rightarrow> Inr None
      | Some c \<Rightarrow>
          map_sum id (\<lambda>payload. Some (c\<lparr>cb_payload := payload\<rparr>)) (unprotect_sensitive_text prot (cb_payload c)))"

definition expire_callback_route :: "string \<Rightarrow> approvals \<Rightarrow> approvals" where
  "expire_callback_route token av =
     av\<lparr>av_callbacks := update_rows (\<lambda>c. cb_token c = token) (\<lambda>c. c\<lparr>cb_status := ''expired''\<rparr>) (av_callbacks av)\<rparr>"

end
