(* ===== verification/Approvals.thy ===== *)
theory Approvals
  imports Approval_Store
begin

text \<open>
  Approval requests as a state machine. Every pending request has exactly one approve and one deny
  button that are open, both in the same state and both for that request; a request that is not
  pending has none. So the code's checks that an update reached two buttons hold whenever the
  request is idle, a press is answered for the request the owner saw, and once a press has been
  accepted no other press is, until the claim is given back.
\<close>

section \<open>The invariant\<close>

definition open_buttons :: "string \<Rightarrow> approval_button list \<Rightarrow> approval_button list" where
  "open_buttons i bs = filter (button_open i) bs"

definition button_for :: "minimal_approval \<Rightarrow> approval_button \<Rightarrow> bool" where
  "button_for a b \<longleftrightarrow>
     ab_thread_id b = ma_thread_id a \<and> ab_turn_id b = ma_turn_id a \<and> ab_request_kind b = ma_request_kind a"

definition button_pair :: "minimal_approval \<Rightarrow> approval_button list \<Rightarrow> bool" where
  "button_pair a bs \<longleftrightarrow>
     map ab_action bs = [''approve'', ''deny''] \<and> list_all (button_for a) bs \<and>
     (list_all (\<lambda>b. ab_status b = ButtonActive) bs \<or>
      ma_claim_state a = ClaimTaken \<and> list_all (\<lambda>b. ab_status b = ButtonClaimed) bs)"

definition request_ok :: "minimal_approval \<Rightarrow> approval_button list \<Rightarrow> bool" where
  "request_ok a bs \<longleftrightarrow>
     (if ma_status a = approval_pending
      then button_pair a bs \<and>
           (ma_claim_state a = ClaimTaken \<longrightarrow> ma_claim_action a \<in> {Some ''approve'', Some ''deny''})
      else bs = [])"

definition approvals_ok :: "approvals \<Rightarrow> bool" where
  "approvals_ok av \<longleftrightarrow>
     distinct (map ma_request_id (av_rows av)) \<and> distinct (map ab_token (av_buttons av)) \<and>
     (\<forall>b\<in>set (av_buttons av). ab_request_id b \<in> ma_request_id ` set (av_rows av)) \<and>
     (\<forall>b\<in>set (av_buttons av). ab_action b \<in> {''approve'', ''deny''}) \<and>
     (\<forall>a\<in>set (av_rows av). request_ok a (open_buttons (ma_request_id a) (av_buttons av)))"

definition empty_approvals :: approvals where
  "empty_approvals = \<lparr>av_rows = [], av_buttons = [], av_pending = [], av_callbacks = [], av_outbox = empty_outbox\<rparr>"

lemma empty_approvals_ok: "approvals_ok empty_approvals"
  by (simp add: approvals_ok_def empty_approvals_def)

lemma approvals_okD:
  assumes "approvals_ok av" "a \<in> set (av_rows av)"
  shows "request_ok a (open_buttons (ma_request_id a) (av_buttons av))"
  using assms by (simp add: approvals_ok_def)

lemma approvals_ok_frame:
  "av_rows av' = av_rows av \<Longrightarrow> av_buttons av' = av_buttons av \<Longrightarrow> approvals_ok av' = approvals_ok av"
  by (simp add: approvals_ok_def)

subsection \<open>Updates of buttons\<close>

lemma open_buttons_other:
  assumes "\<And>b. p b \<Longrightarrow> ab_request_id b \<noteq> j" "\<And>b. ab_request_id (f b) = ab_request_id b"
  shows "open_buttons j (update_rows p f bs) = open_buttons j bs"
  using assms by (induction bs) (auto simp: open_buttons_def button_open_def)

lemma open_buttons_closed:
  assumes "\<And>b. b \<in> set bs \<Longrightarrow> button_open i b \<Longrightarrow> p b" "\<And>b. \<not> button_open i (f b)"
  shows "open_buttons i (update_rows p f bs) = []"
  using assms by (induction bs) (auto simp: open_buttons_def)

lemma open_buttons_kept:
  assumes "\<And>b. b \<in> set bs \<Longrightarrow> button_open i b = p b" "\<And>b. p b \<Longrightarrow> button_open i (f b)"
  shows "open_buttons i (update_rows p f bs) = map f (open_buttons i bs)"
  using assms by (induction bs) (auto simp: open_buttons_def)

lemma mark_two_buttons_result:
  assumes "mark_two_buttons p f av = Inr av'"
  shows "affected p (av_buttons av) = 2" "av' = av\<lparr>av_buttons := update_rows p f (av_buttons av)\<rparr>"
  using assms by (auto simp: mark_two_buttons_def Let_def split: if_splits)

lemma pair_status:
  assumes "button_pair a (open_buttons i bs)" "st = ButtonActive \<or> st = ButtonClaimed"
    "affected (button_in st i) bs = 2" "b \<in> set bs"
  shows "button_open i b \<longleftrightarrow> button_in st i b"
proof -
  have "filter (button_in st i) bs \<noteq> []" using assms(3) by (auto simp: affected_def)
  then obtain c where c: "c \<in> set bs" "button_in st i c" by (auto simp: filter_empty_conv)
  then have "c \<in> set (open_buttons i bs)" using assms(2) by (auto simp: open_buttons_def button_open_def button_in_def)
  then have "\<forall>d\<in>set (open_buttons i bs). ab_status d = st"
    using assms(1) c(2) by (fastforce simp: button_pair_def list_all_iff button_in_def)
  then show ?thesis using assms(2,4) by (auto simp: open_buttons_def button_open_def button_in_def)
qed

text \<open>An idle pending request has two active buttons.\<close>

lemma idle_pair:
  assumes "button_pair a (open_buttons i bs)" "ma_claim_state a = ClaimIdle"
  shows "affected (button_in ButtonActive i) bs = 2"
proof -
  have "\<forall>b\<in>set (open_buttons i bs). ab_status b = ButtonActive"
    using assms by (simp add: button_pair_def list_all_iff)
  then have "filter (button_in ButtonActive i) bs = open_buttons i bs"
    unfolding open_buttons_def by (intro filter_cong) (auto simp: button_open_def button_in_def)
  moreover have "length (open_buttons i bs) = 2"
    using assms(1) by (simp add: button_pair_def) (metis length_Cons length_map list.size(3) numeral_2_eq_2)
  ultimately show ?thesis by (simp add: affected_def)
qed

lemma open_pair:
  assumes "button_pair a (open_buttons i bs)"
  shows "affected (button_open i) bs = 2"
  using assms by (simp add: button_pair_def open_buttons_def affected_def)
    (metis length_Cons length_map list.size(3) numeral_2_eq_2)

subsection \<open>Operations on one request\<close>

text \<open>The frame of every transaction that changes one request and its buttons.\<close>

lemma one_request_ok:
  assumes ok: "approvals_ok av"
    and rows: "av_rows av' = update_rows p f (av_rows av)"
    and p: "\<And>a. p a \<Longrightarrow> ma_request_id a = i" and f: "\<And>a. p a \<Longrightarrow> ma_request_id (f a) = i"
    and tokens: "distinct (map ab_token (av_buttons av'))"
    and fk: "\<And>b. b \<in> set (av_buttons av') \<Longrightarrow>
       ab_request_id b \<in> ma_request_id ` set (av_rows av) \<and> ab_action b \<in> {''approve'', ''deny''}"
    and others: "\<And>j. j \<noteq> i \<Longrightarrow> open_buttons j (av_buttons av') = open_buttons j (av_buttons av)"
    and same: "\<And>a. a \<in> set (av_rows av) \<Longrightarrow> ma_request_id a = i \<Longrightarrow>
       request_ok a (open_buttons i (av_buttons av)) \<Longrightarrow>
       request_ok (if p a then f a else a) (open_buttons i (av_buttons av'))"
  shows "approvals_ok av'"
proof -
  have ids: "ma_request_id (if p a then f a else a) = ma_request_id a" for a using p f by metis
  then have map_ids: "map ma_request_id (av_rows av') = map ma_request_id (av_rows av)"
    by (simp add: rows update_rows_def)
  have "request_ok x (open_buttons (ma_request_id x) (av_buttons av'))" if x: "x \<in> set (av_rows av')" for x
  proof -
    obtain a where a: "a \<in> set (av_rows av)" "x = (if p a then f a else a)"
      using x by (auto simp: rows set_update_rows)
    have old: "request_ok a (open_buttons (ma_request_id a) (av_buttons av))" by (rule approvals_okD [OF ok a(1)])
    show ?thesis
    proof (cases "ma_request_id a = i")
      case True
      then show ?thesis using same [OF a(1) True] old a(2) ids [of a] by simp
    next
      case False
      then have "x = a" using a(2) p by auto
      then show ?thesis using old others [OF False] by simp
    qed
  qed
  moreover have "ma_request_id ` set (av_rows av') = ma_request_id ` set (av_rows av)"
    using map_ids by (metis set_map)
  ultimately show ?thesis using ok map_ids tokens fk by (auto simp: approvals_ok_def)
qed

text \<open>The same for an update of existing buttons.\<close>

lemma one_request_update_ok:
  assumes ok: "approvals_ok av"
    and rows: "av_rows av' = update_rows p f (av_rows av)"
    and buttons: "av_buttons av' = update_rows q g (av_buttons av)"
    and p: "\<And>a. p a \<Longrightarrow> ma_request_id a = i" "\<And>a. ma_request_id (f a) = ma_request_id a"
    and q: "\<And>b. q b \<Longrightarrow> ab_request_id b = i"
    and g: "\<And>b. ab_request_id (g b) = ab_request_id b" "\<And>b. ab_token (g b) = ab_token b"
      "\<And>b. ab_action (g b) = ab_action b"
    and same: "\<And>a. a \<in> set (av_rows av) \<Longrightarrow> ma_request_id a = i \<Longrightarrow>
       request_ok a (open_buttons i (av_buttons av)) \<Longrightarrow>
       request_ok (if p a then f a else a) (open_buttons i (av_buttons av'))"
  shows "approvals_ok av'"
proof (rule one_request_ok [OF ok rows p(1)])
  show "ma_request_id (f a) = i" if "p a" for a using p that by simp
  show "distinct (map ab_token (av_buttons av'))"
    using ok g(2) by (simp add: buttons map_update_rows approvals_ok_def)
  show "ab_request_id b \<in> ma_request_id ` set (av_rows av) \<and> ab_action b \<in> {''approve'', ''deny''}"
    if "b \<in> set (av_buttons av')" for b
    using that ok g(1,3) by (auto simp: buttons set_update_rows approvals_ok_def)
  show "open_buttons j (av_buttons av') = open_buttons j (av_buttons av)" if "j \<noteq> i" for j
    unfolding buttons using that q g(1) by (intro open_buttons_other) auto
qed (use same in auto)

lemma affected_one:
  assumes "affected p rows = 1" "distinct (map k rows)" "a \<in> set rows" "k a = i" "\<And>x. p x \<Longrightarrow> k x = i"
  shows "p a"
proof -
  have "filter p rows \<noteq> []" using assms(1) by (auto simp: affected_def)
  then obtain x where "x \<in> set rows" "p x" by (auto simp: filter_empty_conv)
  then have "x = a" using assms(2-5) by (metis distinct_map inj_onD)
  then show ?thesis using \<open>p x\<close> by simp
qed

lemma affected_key:
  assumes "distinct (map k rows)" "a \<in> set rows" "p a" "\<And>x. p x \<Longrightarrow> k x = k a"
  shows "affected p rows = 1"
proof -
  have "x = a" if "x \<in> set rows" "p x" for x
    using assms that by (metis distinct_map inj_onD)
  then have "set (filter p rows) = {a}" unfolding set_filter using assms(2,3) by blast
  moreover have "distinct (filter p rows)" using assms(1) by (simp add: distinct_map)
  ultimately show ?thesis using distinct_card [of "filter p rows"] by (simp add: affected_def)
qed

lemma settle_requestD:
  assumes "settle_request p f st st' i av = Inr (Some av')"
  shows "affected p (av_rows av) = 1" "affected (button_in st i) (av_buttons av) = 2"
    "av' = av\<lparr>av_rows := update_rows p f (av_rows av),
              av_buttons := update_rows (button_in st i) (mark_button st') (av_buttons av)\<rparr>"
  using assms mark_two_buttons_result [of "button_in st i" "mark_button st'" "set_approvals p f av"]
  by (auto simp: settle_request_def set_approvals_def split: if_splits sum.splits)

lemma settle_request_ok:
  assumes ok: "approvals_ok av" and s: "settle_request p f st st' i av = Inr (Some av')"
    and p: "\<And>a. p a \<Longrightarrow> pending_request i a" and f: "\<And>a. ma_request_id (f a) = ma_request_id a"
    and st: "st = ButtonActive \<or> st = ButtonClaimed"
    and result: "\<And>a. p a \<Longrightarrow> button_pair a (open_buttons i (av_buttons av)) \<Longrightarrow>
      request_ok (f a) (if st' = ButtonActive \<or> st' = ButtonClaimed
                        then map (mark_button st') (open_buttons i (av_buttons av)) else [])"
  shows "approvals_ok av'"
proof (rule one_request_update_ok [OF ok])
  note d = settle_requestD [OF s]
  show rows: "av_rows av' = update_rows p f (av_rows av)"
    and buttons: "av_buttons av' = update_rows (button_in st i) (mark_button st') (av_buttons av)"
    by (simp_all add: d(3))
  show "ma_request_id a = i" if "p a" for a using p [OF that] by (simp add: pending_request_def)
  fix a
  assume a: "a \<in> set (av_rows av)" "ma_request_id a = i" and ro: "request_ok a (open_buttons i (av_buttons av))"
  have pa: "p a"
    by (rule affected_one [where k = ma_request_id, OF d(1) _ a]) (use ok p in \<open>auto simp: approvals_ok_def pending_request_def\<close>)
  then have pair: "button_pair a (open_buttons i (av_buttons av))"
    using ro p by (auto simp: request_ok_def pending_request_def)
  note eq = pair_status [OF pair st d(2)]
  have "open_buttons i (av_buttons av') =
      (if st' = ButtonActive \<or> st' = ButtonClaimed
       then map (mark_button st') (open_buttons i (av_buttons av)) else [])"
    unfolding buttons
    by (auto intro!: open_buttons_kept open_buttons_closed simp: eq)
      (auto simp: button_open_def button_in_def mark_button_def)
  then show "request_ok (if p a then f a else a) (open_buttons i (av_buttons av'))"
    using result [OF pa pair] pa by simp
qed (simp_all add: button_in_def mark_button_def f)

lemma mark_button_pair:
  "button_pair a bs \<Longrightarrow> button_for a = button_for a' \<Longrightarrow>
   st = ButtonActive \<or> st = ButtonClaimed \<and> ma_claim_state a' = ClaimTaken \<Longrightarrow>
   button_pair a' (map (mark_button st) bs)"
  by (auto simp: button_pair_def list_all_iff mark_button_def button_for_def fun_eq_iff comp_def)

subsection \<open>Presses and answers\<close>

lemma approval_frames [simp]:
  "av_rows (kill_deliveries p av) = av_rows av" "av_buttons (kill_deliveries p av) = av_buttons av"
  "av_rows (queue_or_ignore now payload item av) = av_rows av"
  "av_buttons (queue_or_ignore now payload item av) = av_buttons av"
  "av_rows (mark_delivered q av) = av_rows av" "av_buttons (mark_delivered q av) = av_buttons av"
  "av_rows (bind_message_route c t m th tu e n av) = av_rows av"
  "av_buttons (bind_message_route c t m th tu e n av) = av_buttons av"
  "av_rows (set_approvals w f av) = update_rows w f (av_rows av)"
  "av_buttons (set_approvals w f av) = av_buttons av"
  by (simp_all add: kill_deliveries_def queue_or_ignore_def mark_delivered_def bind_message_route_def
      set_approvals_def Let_def)

lemma inactive_edit_frame:
  "enqueue_minimal_approval_inactive_edit enc p now a txt av = Inr av' \<Longrightarrow>
   av_rows av' = av_rows av \<and> av_buttons av' = av_buttons av"
  by (auto simp: enqueue_minimal_approval_inactive_edit_def split: option.splits)

lemma commit_settled_ok:
  assumes "approvals_ok av" "\<And>av'. res = Inr (Some av') \<Longrightarrow> approvals_ok av'"
  shows "approvals_ok (snd (commit_settled av res))"
  using assms by (auto simp: commit_settled_def split: sum.split option.split)

lemma restore_ok:
  assumes "approvals_ok av"
  shows "approvals_ok (snd (restore_minimal_approval_claim now request_id action av))"
proof (cases "resolve_minimal_approval_request_id request_id av")
  case (Some i)
  have "approvals_ok av'"
    if "settle_request (claimed_request i action) (\<lambda>a. free_claim (ma_status a) now a) ButtonClaimed ButtonActive i av
        = Inr (Some av')" for av'
  proof (rule settle_request_ok [OF assms that])
    fix a assume "claimed_request i action a" "button_pair a (open_buttons i (av_buttons av))"
    then show "request_ok (free_claim (ma_status a) now a)
        (if ButtonActive = ButtonActive \<or> ButtonActive = ButtonClaimed
         then map (mark_button ButtonActive) (open_buttons i (av_buttons av)) else [])"
      by (simp add: request_ok_def free_claim_def claimed_request_def pending_request_def)
        (erule mark_button_pair; simp add: button_for_def fun_eq_iff)
  qed (simp_all add: claimed_request_def free_claim_def)
  then show ?thesis using Some assms by (simp add: restore_minimal_approval_claim_def commit_settled_ok)
qed (simp add: restore_minimal_approval_claim_def assms)

text \<open>A transaction that closes a request closes its two buttons.\<close>

lemma settle_closed_ok:
  assumes "approvals_ok av" "settle_request p f st st' i av = Inr (Some av')"
    "\<And>a. p a \<Longrightarrow> pending_request i a" "\<And>a. ma_request_id (f a) = ma_request_id a"
    "\<And>a. ma_status (f a) \<noteq> approval_pending"
    "st = ButtonActive \<or> st = ButtonClaimed" "st' = ButtonConsumed \<or> st' = ButtonExpired"
  shows "approvals_ok av'"
  by (rule settle_request_ok [OF assms(1,2)]) (use assms(3-7) in \<open>auto simp: request_ok_def\<close>)

lemma finish_ok:
  assumes "approvals_ok av" "st \<noteq> approval_pending"
  shows "approvals_ok (snd (finish_minimal_approval_claim now request_id action st av))"
  using assms
  by (auto simp: finish_minimal_approval_claim_def claimed_request_def free_claim_def split: option.split
      intro!: commit_settled_ok elim!: settle_closed_ok)

lemma expire_resolved_ok:
  assumes "approvals_ok av"
  shows "approvals_ok (snd (expire_resolved now resolved av))"
proof (cases resolved)
  case (Some i)
  have "approvals_ok av'"
    if "settle_request (idle_request i) (\<lambda>a. a\<lparr>ma_status := ''expired'', ma_updated_at := now\<rparr>)
          ButtonActive ButtonExpired i av = Inr (Some av')" for av'
    by (rule settle_closed_ok [OF assms that]) (simp_all add: idle_request_def approval_pending_def)
  then have "approvals_ok av2"
    if "(case settle_request (idle_request i) (\<lambda>a. a\<lparr>ma_status := ''expired'', ma_updated_at := now\<rparr>)
          ButtonActive ButtonExpired i av of
        Inr (Some av') \<Rightarrow> Inr (Some (kill_deliveries (q av') av')) | res \<Rightarrow> res) = Inr (Some av2)" for q av2
    using that by (auto simp: approvals_ok_frame [of "kill_deliveries _ _"] split: sum.splits option.splits)
  then show ?thesis unfolding expire_resolved_def Some option.case by (rule commit_settled_ok [OF assms])
qed (simp add: expire_resolved_def assms)

lemma cancel_ok:
  assumes "approvals_ok av"
  shows "approvals_ok (snd (cancel_minimal_approval_claim_with_inactive_edit enc prot now request_id action txt av))"
proof -
  have "approvals_ok av2"
    if "settle_request (claimed_request i action) (free_claim ''cancelled'' now) ButtonClaimed ButtonConsumed i av
        = Inr (Some av1)"
      "enqueue_minimal_approval_inactive_edit enc p now a txt av1 = Inr av2" for i p a av1 av2
  proof -
    have "approvals_ok av1"
      by (rule settle_closed_ok [OF assms that(1)])
        (simp_all add: claimed_request_def free_claim_def approval_pending_def)
    then show ?thesis using inactive_edit_frame [OF that(2)] by (simp add: approvals_ok_frame [of av2 av1])
  qed
  then have "approvals_ok (snd (commit_settled av
      (case settle_request (claimed_request i action) (free_claim ''cancelled'' now) ButtonClaimed ButtonConsumed i av of
         Inr (Some av1) \<Rightarrow> map_sum id Some (enqueue_minimal_approval_inactive_edit enc p now a txt av1)
       | res \<Rightarrow> res)))" for i p a
    by (intro commit_settled_ok [OF assms]) (auto simp: map_sum_Inr split: sum.splits option.splits)
  then show ?thesis using assms
    by (simp add: cancel_minimal_approval_claim_with_inactive_edit_def Let_def split: option.split)
qed

lemma recover_claims_ok:
  "approvals_ok av \<Longrightarrow> approvals_ok (snd (recover_claims enc prot now cs n av))"
proof (induction enc prot now cs n av rule: recover_claims.induct)
  case (2 enc prot now i action cs n av)
  obtain res av1 where r: "cancel_minimal_approval_claim_with_inactive_edit enc prot now i action
      approval_unknown_outcome_text av = (res, av1)" by (rule prod.exhaust)
  then have "approvals_ok av1" using cancel_ok [OF 2(2)] by (metis snd_conv)
  then show ?case using 2(1) [OF r [symmetric]] r by (cases res) auto
qed simp

subsection \<open>Presses and deliveries\<close>

lemma open_buttons_update:
  assumes "\<And>b. button_open i (g b) = button_open i b"
  shows "open_buttons i (update_rows q g bs) = update_rows q g (open_buttons i bs)"
  using assms by (induction bs) (auto simp: open_buttons_def)

lemma list_all_update_rows: "(\<And>r. P (f r) = P r) \<Longrightarrow> list_all P (update_rows p f rs) = list_all P rs"
  by (induction rs) auto

lemma button_pair_update:
  assumes "\<And>b. ab_action (g b) = ab_action b" "\<And>b. ab_status (g b) = ab_status b"
    "\<And>b. button_for a (g b) = button_for a b"
  shows "button_pair a (update_rows q g bs) = button_pair a bs"
  using assms by (simp add: button_pair_def map_update_rows list_all_update_rows)

lemma request_ok_cong:
  assumes "ma_status a' = ma_status a" "ma_claim_state a' = ma_claim_state a"
    "ma_claim_action a' = ma_claim_action a" "button_for a' = button_for a"
  shows "request_ok a' bs = request_ok a bs"
  using assms by (simp add: request_ok_def button_pair_def)

text \<open>Where a request was shown may change without touching the invariant.\<close>

lemma relocate_ok:
  assumes ok: "approvals_ok av"
    and rows: "av_rows av' = update_rows p f (av_rows av)"
    and buttons: "av_buttons av' = update_rows q g (av_buttons av)"
    and p: "\<And>a. p a \<Longrightarrow> ma_request_id a = i"
    and f: "\<And>a. ma_request_id (f a) = ma_request_id a" "\<And>a. ma_status (f a) = ma_status a"
      "\<And>a. ma_claim_state (f a) = ma_claim_state a" "\<And>a. ma_claim_action (f a) = ma_claim_action a"
      "\<And>a. button_for (f a) = button_for a"
    and q: "\<And>b. q b \<Longrightarrow> ab_request_id b = i"
    and g: "\<And>b. ab_request_id (g b) = ab_request_id b" "\<And>b. ab_token (g b) = ab_token b"
      "\<And>b. ab_action (g b) = ab_action b" "\<And>b. ab_status (g b) = ab_status b"
      "\<And>a b. button_for a (g b) = button_for a b"
  shows "approvals_ok av'"
proof (rule one_request_update_ok [OF ok rows buttons p f(1) q g(1-3)])
  fix a
  assume "request_ok a (open_buttons i (av_buttons av))"
  moreover have "request_ok (if p a then f a else a) bs = request_ok a bs" for bs
    by (simp add: request_ok_cong [of "f a" a] f)
  moreover have "open_buttons i (av_buttons av') = update_rows q g (open_buttons i (av_buttons av))"
    unfolding buttons using g(1,4) by (intro open_buttons_update) (simp add: button_open_def)
  moreover have "update_rows q g [] = []" by simp
  ultimately show "request_ok (if p a then f a else a) (open_buttons i (av_buttons av'))"
    by (simp add: request_ok_def button_pair_update [OF g(3) g(4) g(5)] split: if_splits)
qed

lemma self_bind_ok:
  assumes "approvals_ok av" "self_bind chat topic message now b av = Inr (Some av')"
  shows "approvals_ok av'"
proof -
  obtain av1 where m: "mark_two_buttons (\<lambda>c. button_in ButtonActive (ab_request_id b) c \<and> ab_message_id c = 0)
      (\<lambda>c. c\<lparr>ab_message_id := message\<rparr>)
      (set_approvals (\<lambda>a. idle_request (ab_request_id b) a \<and> ma_message_id a = 0)
         (\<lambda>a. a\<lparr>ma_message_id := message, ma_updated_at := now\<rparr>) av) = Inr av1"
    and av': "av' = bind_message_route chat topic message (ab_thread_id b) (ab_turn_id b) (ab_request_id b) now av1"
    using assms(2) by (auto simp: self_bind_def Let_def split: if_splits sum.splits)
  show ?thesis
    by (rule relocate_ok [OF assms(1), where i = "ab_request_id b"
          and p = "\<lambda>a. idle_request (ab_request_id b) a \<and> ma_message_id a = 0"
          and f = "\<lambda>a. a\<lparr>ma_message_id := message, ma_updated_at := now\<rparr>"
          and q = "\<lambda>c. button_in ButtonActive (ab_request_id b) c \<and> ab_message_id c = 0"
          and g = "\<lambda>c. c\<lparr>ab_message_id := message\<rparr>"])
      (simp_all add: av' mark_two_buttons_result(2) [OF m] idle_request_def pending_request_def
        button_in_def button_for_def fun_eq_iff)
qed

lemma take_claim_ok:
  assumes ok: "approvals_ok av" and av0: "approvals_ok av0"
    and action: "ab_action (mr_button route) \<in> {''approve'', ''deny''}"
  shows "approvals_ok (snd (take_claim now route av0 av))"
proof -
  let ?i = "ab_request_id (mr_button route)"
  let ?f = "\<lambda>a. a\<lparr>ma_claim_state := ClaimTaken, ma_claim_action := Some (ab_action (mr_button route)), ma_updated_at := now\<rparr>"
  have "approvals_ok av'" if "settle_request (idle_request ?i) ?f ButtonActive ButtonClaimed ?i av = Inr (Some av')" for av'
  proof (rule settle_request_ok [OF ok that])
    fix a assume "idle_request ?i a" "button_pair a (open_buttons ?i (av_buttons av))"
    then show "request_ok (?f a) (if ButtonClaimed = ButtonActive \<or> ButtonClaimed = ButtonClaimed
        then map (mark_button ButtonClaimed) (open_buttons ?i (av_buttons av)) else [])"
      using action by (auto simp: request_ok_def idle_request_def pending_request_def button_for_def fun_eq_iff
          intro: mark_button_pair)
  qed (simp_all add: idle_request_def)
  then show ?thesis using ok av0
    by (auto simp: take_claim_def settle_request_def Let_def split: sum.split)
qed

lemma press_ok:
  assumes ok: "approvals_ok av"
  shows "approvals_ok (snd (claim_minimal_approval now token chat topic message session_identity av))"
proof (cases "find_button token av")
  case (Some b)
  then have b: "b \<in> set (av_buttons av)" by (auto simp: find_button_def find_Some_iff)
  then have action: "ab_action b \<in> {''approve'', ''deny''}" using ok by (auto simp: approvals_ok_def)
  show ?thesis
  proof (cases "find_approval (ab_request_id b) av")
    case (Some a)
    have "approvals_ok (snd (case self_bind chat topic message now b av of
        Inl e \<Rightarrow> (Inl e, av) | Inr None \<Rightarrow> (Inr (Some r0, False), av)
      | Inr (Some av1) \<Rightarrow> take_claim now (r\<lparr>mr_button := b\<lparr>ab_message_id := message\<rparr>\<rparr>) av av1))" for r r0
      using ok action
      by (auto intro!: take_claim_ok dest: self_bind_ok [OF ok] split: sum.split option.split)
    then show ?thesis using ok action \<open>find_button token av = Some b\<close> Some
      by (simp add: claim_minimal_approval_def Let_def take_claim_ok)
  qed (simp add: claim_minimal_approval_def Some ok)
qed (simp add: claim_minimal_approval_def ok)

lemma cleanup_frame:
  "enqueue_cleanups enc prot now a supersede rts av = Inr av' \<Longrightarrow>
   av_rows av' = av_rows av \<and> av_buttons av' = av_buttons av"
  by (induction enc prot now a supersede rts av rule: enqueue_cleanups.induct)
    (auto split: if_splits sum.splits)

lemma complete_approval_ok:
  assumes ok: "approvals_ok av"
  shows "approvals_ok (snd (complete_minimal_approval_delivery enc prot now queue_id request_id chat topic message av))"
proof -
  have "approvals_ok av2"
    if b: "bind_delivered_approval queue_id i chat topic message now av = Inr av1"
      and c: "enqueue_minimal_approval_pc_cleanup enc prot now a
            (mark_delivered queue_id (bind_message_route chat topic message t u i now av1)) = Inr av2" for i a t u av1 av2
  proof -
    have "approvals_ok av1"
      using mark_two_buttons_result(2) [OF b [unfolded bind_delivered_approval_def]]
      by (intro relocate_ok [OF ok, where i = i and p = "\<lambda>a. ma_request_id a = i"
            and f = "\<lambda>a. a\<lparr>ma_chat_id := chat, ma_topic_id := topic, ma_message_id := message, ma_updated_at := now\<rparr>"
            and q = "button_in ButtonActive i"
            and g = "\<lambda>b. b\<lparr>ab_chat_id := chat, ab_topic_id := topic, ab_message_id := message\<rparr>"])
        (simp_all add: button_in_def button_for_def fun_eq_iff)
    moreover have "av_rows av2 = av_rows av1 \<and> av_buttons av2 = av_buttons av1"
      using c cleanup_frame [of enc prot now a _ _ "mark_delivered queue_id (bind_message_route chat topic message t u i now av1)" av2]
      by (auto simp: enqueue_minimal_approval_pc_cleanup_def Let_def split: if_splits)
    ultimately show ?thesis by (simp add: approvals_ok_frame [of av2 av1])
  qed
  then show ?thesis using ok
    by (auto simp: complete_minimal_approval_delivery_def split: option.split sum.split)
qed

subsection \<open>The end of a session\<close>

text \<open>
  Some pending requests expire, and the open buttons of every expired request in their scope are
  closed. The buttons of the expiring requests are all among those that are closed.
\<close>

lemma scope_expiry_ok:
  assumes ok: "approvals_ok av"
    and rows: "av_rows av' = update_rows waiting f (av_rows av)"
    and gone: "gone = ma_request_id ` {a \<in> set (av_rows av'). scope a \<and> ma_status a = ''expired''}"
    and buttons: "av_buttons av' = update_rows (\<lambda>b. closing (ab_status b) \<and> ab_request_id b \<in> gone)
        (mark_button ButtonExpired) (av_buttons av)"
    and f: "\<And>a. ma_request_id (f a) = ma_request_id a" "\<And>a. ma_status (f a) = ''expired''"
      "\<And>a. waiting a \<Longrightarrow> scope (f a)"
    and closes: "\<And>a b. waiting a \<Longrightarrow> a \<in> set (av_rows av) \<Longrightarrow>
        b \<in> set (open_buttons (ma_request_id a) (av_buttons av)) \<Longrightarrow> closing (ab_status b)"
  shows "approvals_ok av'"
proof -
  have ids: "map ma_request_id (av_rows av') = map ma_request_id (av_rows av)"
    by (simp add: rows map_update_rows f(1))
  have dist: "distinct (map ma_request_id (av_rows av))" using ok by (simp add: approvals_ok_def)
  have row: "request_ok x (open_buttons (ma_request_id x) (av_buttons av'))" if x: "x \<in> set (av_rows av')" for x
  proof -
    obtain a where a: "a \<in> set (av_rows av)" "x = (if waiting a then f a else a)"
      using x by (auto simp: rows set_update_rows)
    then have id: "ma_request_id a = ma_request_id x" using f(1) by auto
    show ?thesis
    proof (cases "ma_request_id x \<in> gone")
      case True
      then obtain y where y: "y \<in> set (av_rows av')" "ma_request_id y = ma_request_id x" "ma_status y = ''expired''"
        by (auto simp: gone)
      then have "y = x" using x dist ids by (metis distinct_map inj_onD)
      then have ended: "ma_status x = ''expired''" using y(3) by simp
      have "closing (ab_status b)" if "b \<in> set (open_buttons (ma_request_id x) (av_buttons av))" for b
      proof (cases "waiting a")
        case True
        then show ?thesis using closes a(1) that id by simp
      next
        case False
        then have "ma_status a \<noteq> approval_pending" using a(2) ended by (simp add: approval_pending_def)
        then show ?thesis using approvals_okD [OF ok a(1)] that id by (simp add: request_ok_def)
      qed
      then have "open_buttons (ma_request_id x) (av_buttons av') = []"
        unfolding buttons using True
        by (intro open_buttons_closed) (auto simp: button_open_def mark_button_def open_buttons_def)
      then show ?thesis using ended by (simp add: request_ok_def approval_pending_def)
    next
      case False
      then have "x = a" using a x f(2,3) by (auto simp: gone)
      moreover have "open_buttons (ma_request_id x) (av_buttons av') = open_buttons (ma_request_id x) (av_buttons av)"
        unfolding buttons using False by (intro open_buttons_other) (auto simp: mark_button_def)
      ultimately show ?thesis using approvals_okD [OF ok a(1)] by simp
    qed
  qed
  have idset: "ma_request_id ` set (av_rows av') = ma_request_id ` set (av_rows av)" using ids by (metis set_map)
  have "distinct (map ab_token (av_buttons av'))" using ok
    by (simp add: buttons map_update_rows mark_button_def approvals_ok_def)
  moreover have "\<forall>b\<in>set (av_buttons av'). ab_request_id b \<in> ma_request_id ` set (av_rows av) \<and>
      ab_action b \<in> {''approve'', ''deny''}"
    using ok by (auto simp: buttons set_update_rows mark_button_def approvals_ok_def)
  ultimately show ?thesis using dist ids idset row by (auto simp: approvals_ok_def)
qed

lemma session_expiry_ok:
  assumes ok: "approvals_ok av"
  shows "approvals_ok (snd (expire_minimal_approvals_of_session now identity av))"
proof -
  let ?waiting = "\<lambda>a. ma_session_identity a = identity \<and> ma_status a = approval_pending"
  let ?av = "snd (expire_minimal_approvals_of_session now identity av)"
  show ?thesis
  proof (cases "affected ?waiting (av_rows av) = 0")
    case True
    then have "update_rows ?waiting (free_claim ''expired'' now) (av_rows av) = av_rows av"
      by (auto simp: affected_def filter_empty_conv intro: update_rows_none)
    then show ?thesis using ok True by (simp add: expire_minimal_approvals_of_session_def approvals_ok_def)
  next
    case False
    show ?thesis
      by (rule scope_expiry_ok [OF ok, where waiting = ?waiting and f = "free_claim ''expired'' now"
            and scope = "\<lambda>a. ma_session_identity a = identity"
            and closing = "\<lambda>st. st = ButtonActive \<or> st = ButtonClaimed", OF _ refl])
        (use False in \<open>auto simp: expire_minimal_approvals_of_session_def Let_def free_claim_def set_approvals_def
          open_buttons_def button_open_def intro!: arg_cong [where f = "\<lambda>p. update_rows p g bs" for g bs] ext\<close>)
  qed
qed

lemma turn_expiry_ok:
  assumes ok: "approvals_ok av"
  shows "approvals_ok (snd (expire_minimal_approvals_for_thread_turn now thread turn av))"
proof -
  let ?here = "\<lambda>a. ma_thread_id a = trim_space thread \<and> ma_turn_id a = trim_space turn"
  let ?waiting = "\<lambda>a. ?here a \<and> ma_status a = approval_pending \<and> ma_claim_state a = ClaimIdle"
  let ?f = "\<lambda>a. a\<lparr>ma_status := ''expired'', ma_updated_at := now\<rparr>"
  have active: "ab_status b = ButtonActive"
    if "?waiting a" "a \<in> set (av_rows av)" "b \<in> set (open_buttons (ma_request_id a) (av_buttons av))" for a b
    using approvals_okD [OF ok that(2)] that by (auto simp: request_ok_def button_pair_def list_all_iff)
  show ?thesis
  proof (cases "affected ?waiting (av_rows av) = 0 \<or> trim_space thread = [] \<or> trim_space turn = []")
    case True
    moreover have "update_rows ?waiting ?f (av_rows av) = av_rows av" if "affected ?waiting (av_rows av) = 0"
      using that by (auto simp: affected_def filter_empty_conv intro: update_rows_none)
    ultimately show ?thesis using ok
      by (auto simp: expire_minimal_approvals_for_thread_turn_def Let_def approvals_ok_def)
  next
    case False
    show ?thesis
      by (rule scope_expiry_ok [OF ok, where waiting = ?waiting and f = ?f and scope = ?here
            and closing = "\<lambda>st. st = ButtonActive", OF _ refl])
        (use False active in \<open>auto simp: expire_minimal_approvals_for_thread_turn_def Let_def set_approvals_def
          intro!: arg_cong [where f = "\<lambda>p. update_rows p g bs" for g bs] ext\<close>)
  qed
qed

lemma session_end_ok:
  assumes "approvals_ok av"
  shows "approvals_ok (snd (expire_minimal_approvals_for_session now session_identity av))"
  using session_expiry_ok [OF assms, of now "trim_space session_identity"] assms
  by (auto simp: expire_minimal_approvals_for_session_def Let_def expire_pending_approvals_for_session_def
      expire_callback_routes_for_session_def approvals_ok_def split: prod.split)

subsection \<open>Creation\<close>

text \<open>The invariant for every request but one, and what completes it.\<close>

definition approvals_ok_but :: "string \<Rightarrow> approvals \<Rightarrow> bool" where
  "approvals_ok_but i av \<longleftrightarrow>
     distinct (map ma_request_id (av_rows av)) \<and> distinct (map ab_token (av_buttons av)) \<and>
     (\<forall>b\<in>set (av_buttons av). ab_request_id b \<in> ma_request_id ` set (av_rows av)) \<and>
     (\<forall>b\<in>set (av_buttons av). ab_action b \<in> {''approve'', ''deny''}) \<and>
     (\<forall>a\<in>set (av_rows av). ma_request_id a \<noteq> i \<longrightarrow> request_ok a (open_buttons (ma_request_id a) (av_buttons av)))"

lemma approvals_ok_but_weaken: "approvals_ok av \<Longrightarrow> approvals_ok_but i av"
  by (simp add: approvals_ok_but_def approvals_ok_def)

lemma approvals_ok_but_frame:
  "av_rows av' = av_rows av \<Longrightarrow> av_buttons av' = av_buttons av \<Longrightarrow> approvals_ok_but i av' = approvals_ok_but i av"
  by (simp add: approvals_ok_but_def)

lemma insert_routes_result:
  assumes "insert_minimal_approval_routes seed av = Inr av'"
  defines "pair \<equiv> [new_button seed (sd_approve_token seed) ''approve'', new_button seed (sd_deny_token seed) ''deny'']"
  shows "av' = av\<lparr>av_buttons := av_buttons av @ pair\<rparr>"
    "set (map ab_token pair) \<inter> set (map ab_token (av_buttons av)) = {}" "distinct (map ab_token pair)"
  using assms
  by (auto simp: insert_minimal_approval_routes_def insert_button_def new_button_def list_ex_iff
      split: if_splits sum.splits)

lemma insert_routes_ok:
  assumes ok: "approvals_ok_but i av" and none: "open_buttons i (av_buttons av) = []"
    and ins: "insert_minimal_approval_routes seed av = Inr av'"
    and i: "ma_request_id (sd_approval seed) = i" "i \<in> ma_request_id ` set (av_rows av)"
    and row: "\<And>a. a \<in> set (av_rows av) \<Longrightarrow> ma_request_id a = i \<Longrightarrow>
      ma_status a = approval_pending \<and> same_request seed a \<and>
      (ma_claim_state a = ClaimTaken \<longrightarrow> ma_claim_action a \<in> {Some ''approve'', Some ''deny''})"
  shows "approvals_ok av'"
proof -
  note d = insert_routes_result [OF ins]
  have open_i: "open_buttons i (av_buttons av') =
      [new_button seed (sd_approve_token seed) ''approve'', new_button seed (sd_deny_token seed) ''deny'']"
    using none i(1) by (simp add: d(1) open_buttons_def button_open_def new_button_def)
  have other: "open_buttons j (av_buttons av') = open_buttons j (av_buttons av)" if "j \<noteq> i" for j
    using that i(1) by (simp add: d(1) open_buttons_def button_open_def new_button_def)
  have "request_ok a (open_buttons (ma_request_id a) (av_buttons av'))" if a: "a \<in> set (av_rows av)" for a
  proof (cases "ma_request_id a = i")
    case True
    then show ?thesis using row [OF a True]
      by (auto simp: open_i request_ok_def button_pair_def new_button_def button_for_def same_request_def)
  next
    case False
    then show ?thesis using ok a other by (simp add: approvals_ok_but_def)
  qed
  moreover have "distinct (map ab_token (av_buttons av'))"
    using ok d(2,3) by (auto simp: d(1) approvals_ok_but_def)
  moreover have "\<forall>b\<in>set (av_buttons av'). ab_request_id b \<in> ma_request_id ` set (av_rows av') \<and>
      ab_action b \<in> {''approve'', ''deny''}"
    using ok i by (auto simp: d(1) approvals_ok_but_def new_button_def)
  ultimately show ?thesis using ok by (simp add: d(1) approvals_ok_def approvals_ok_but_def)
qed

lemma close_request:
  assumes "approvals_ok av" "mark_two_buttons (button_open i) (mark_button ButtonExpired) av = Inr av'"
  shows "approvals_ok_but i av'" "open_buttons i (av_buttons av') = []"
proof -
  let ?bs = "update_rows (button_open i) (mark_button ButtonExpired) (av_buttons av)"
  have av': "av' = av\<lparr>av_buttons := ?bs\<rparr>" by (rule mark_two_buttons_result(2) [OF assms(2)])
  show "open_buttons i (av_buttons av') = []"
    unfolding av' by (auto simp: mark_button_def button_open_def intro: open_buttons_closed)
  have "open_buttons j ?bs = open_buttons j (av_buttons av)" if "j \<noteq> i" for j
    using that by (intro open_buttons_other) (auto simp: button_open_def mark_button_def)
  moreover have "map ab_token ?bs = map ab_token (av_buttons av)"
    by (simp add: map_update_rows mark_button_def)
  moreover have "\<forall>b\<in>set ?bs. ab_request_id b \<in> ma_request_id ` set (av_rows av) \<and> ab_action b \<in> {''approve'', ''deny''}"
    using assms(1) by (simp add: ball_update_rows mark_button_def approvals_ok_def)
  ultimately show "approvals_ok_but i av'"
    using assms(1) by (simp add: av' approvals_ok_but_def approvals_ok_def)
qed

lemma publish_ok:
  assumes ok: "approvals_ok_but (ma_request_id (sd_approval seed)) av"
    and none: "open_buttons (ma_request_id (sd_approval seed)) (av_buttons av) = []"
    and pub: "publish_minimal_approval now seed protected av = Inr av'"
    and fresh: "fresh_approval now seed \<in> set (av_rows av)" and st: "seed_status seed = approval_pending"
  shows "approvals_ok av'"
proof -
  let ?i = "ma_request_id (sd_approval seed)"
  obtain av1 where ins: "insert_minimal_approval_routes seed av = Inr av1"
    and rows: "av_rows av' = update_rows (\<lambda>a. ma_request_id a = ?i)
        (\<lambda>a. a\<lparr>ma_queue_id := ob_next_id (av_outbox av1)\<rparr>) (av_rows av1)"
    and buttons: "av_buttons av' = av_buttons av1"
    using pub by (auto simp: publish_minimal_approval_def Let_def split: sum.splits if_splits)
  have id: "ma_request_id (fresh_approval now seed) = ?i" by (simp add: fresh_approval_def)
  have uniq: "a = fresh_approval now seed" if "a \<in> set (av_rows av)" "ma_request_id a = ?i" for a
    using that fresh id ok unfolding approvals_ok_but_def by (metis distinct_map inj_onD)
  have new: "ma_status (fresh_approval now seed) = approval_pending \<and> same_request seed (fresh_approval now seed) \<and>
      ma_claim_state (fresh_approval now seed) = ClaimIdle"
    using st by (simp add: fresh_approval_def same_request_def)
  have "approvals_ok av1"
  proof (rule insert_routes_ok [OF ok none ins refl])
    show "?i \<in> ma_request_id ` set (av_rows av)" using fresh id by (metis image_eqI)
    show "ma_status a = approval_pending \<and> same_request seed a \<and>
        (ma_claim_state a = ClaimTaken \<longrightarrow> ma_claim_action a \<in> {Some ''approve'', Some ''deny''})"
      if "a \<in> set (av_rows av)" "ma_request_id a = ?i" for a
      unfolding uniq [OF that] using new by simp
  qed
  then show ?thesis
    by (rule relocate_ok [where i = ?i and q = "\<lambda>_. False" and g = id, OF _ rows])
      (simp_all add: buttons button_for_def fun_eq_iff update_rows_def)
qed

lemma replay_ok:
  assumes ok: "approvals_ok av" and a: "a \<in> set (av_rows av)" and same: "same_request seed a"
    and i: "ma_request_id (sd_approval seed) = ma_request_id a"
  shows "approvals_ok (snd (replay_minimal_approval now seed protected a av))"
proof (cases "ma_status a = approval_pending")
  case False
  then show ?thesis using ok by (simp add: replay_minimal_approval_def approvals_ok_frame [of "kill_deliveries _ av" av])
next
  case True
  let ?i = "ma_request_id a"
  let ?f = "\<lambda>x. x\<lparr>ma_wire_request_id := ma_wire_request_id (sd_approval seed),
      ma_session_identity := ma_session_identity (sd_approval seed),
      ma_supersede_event_id := sd_supersede_event_id seed, ma_updated_at := now\<rparr>"
  let ?av = "set_approvals (pending_request ?i) ?f av"
  have ok1: "approvals_ok ?av"
    by (rule relocate_ok [OF ok, where i = ?i and p = "pending_request ?i" and f = ?f and q = "\<lambda>_. False" and g = id])
      (simp_all add: pending_request_def button_for_def fun_eq_iff update_rows_def)
  have "approvals_ok av'" if r: "rearm_minimal_approval_delivery_if_dead now a seed protected ?av = Inr av'" for av'
  proof -
    consider "av' = ?av"
      | av1 av2 where "mark_two_buttons (button_open ?i) (mark_button ButtonExpired) ?av = Inr av1"
          "insert_minimal_approval_routes seed av1 = Inr av2" "av_rows av' = av_rows av2" "av_buttons av' = av_buttons av2"
      using r by (auto simp: rearm_minimal_approval_delivery_if_dead_def Let_def split: if_splits option.splits sum.splits)
    then show ?thesis
    proof cases
      case 1
      then show ?thesis using ok1 by simp
    next
      case 2
      note but = close_request(1) [OF ok1 2(1)] and none = close_request(2) [OF ok1 2(1)]
      have m: "av_rows av1 = av_rows ?av" using mark_two_buttons_result(2) [OF 2(1)] by simp
      have mem: "?f a \<in> set (av_rows ?av)" using a True by (force simp: set_update_rows pending_request_def)
      have uniq: "x = ?f a" if x: "x \<in> set (av_rows ?av)" "ma_request_id x = ?i" for x
      proof -
        obtain y where y: "y \<in> set (av_rows av)" "x = (if pending_request ?i y then ?f y else y)"
          using x(1) unfolding approval_frames set_update_rows by blast
        then have "ma_request_id y = ?i" using x(2) by (auto split: if_splits)
        then have "y = a" using y(1) a ok unfolding approvals_ok_def by (metis distinct_map inj_onD)
        then show ?thesis using y(2) True by (simp add: pending_request_def)
      qed
      have old: "request_ok a (open_buttons ?i (av_buttons av))" by (rule approvals_okD [OF ok a])
      have new: "ma_status (?f a) = approval_pending \<and> same_request seed (?f a) \<and>
          (ma_claim_state (?f a) = ClaimTaken \<longrightarrow> ma_claim_action (?f a) \<in> {Some ''approve'', Some ''deny''})"
        using old True same by (simp add: request_ok_def same_request_def)
      have "approvals_ok av2"
      proof (rule insert_routes_ok [OF but none 2(2) i])
        show "?i \<in> ma_request_id ` set (av_rows av1)" using imageI [OF mem, of ma_request_id] by (simp add: m)
        show "ma_status x = approval_pending \<and> same_request seed x \<and>
            (ma_claim_state x = ClaimTaken \<longrightarrow> ma_claim_action x \<in> {Some ''approve'', Some ''deny''})"
          if "x \<in> set (av_rows av1)" "ma_request_id x = ?i" for x
          unfolding uniq [OF that [unfolded m]] using new by simp
      qed
      then show ?thesis using 2(3,4) by (simp add: approvals_ok_frame [of av' av2])
    qed
  qed
  then show ?thesis using True ok by (simp add: replay_minimal_approval_def split: sum.split)
qed

lemma normalized_status [simp]: "seed_status (normalized_seed seed) = seed_status seed"
  by (simp add: seed_status_def normalized_seed_def Let_def split: prod.split)

lemma retired:
  assumes ok: "approvals_ok av" and a: "a \<in> set (av_rows av)"
    and r: "retire_minimal_approval enc p now a av = Inr av'"
  shows "approvals_ok_but (ma_request_id a) av'" "open_buttons (ma_request_id a) (av_buttons av') = []"
    "av_rows av' = av_rows av"
proof -
  obtain av1 where av1: "(if ma_status a = approval_pending
      then mark_two_buttons (button_open (ma_request_id a)) (mark_button ButtonExpired) av else Inr av) = Inr av1"
    and rest: "av_rows av' = av_rows av1 \<and> av_buttons av' = av_buttons av1"
    using r by (auto simp: retire_minimal_approval_def dest: inactive_edit_frame split: sum.splits if_splits)
  have "approvals_ok_but (ma_request_id a) av1 \<and> open_buttons (ma_request_id a) (av_buttons av1) = [] \<and>
      av_rows av1 = av_rows av"
  proof (cases "ma_status a = approval_pending")
    case True
    then have m: "mark_two_buttons (button_open (ma_request_id a)) (mark_button ButtonExpired) av = Inr av1"
      using av1 by simp
    show ?thesis using close_request [OF ok m] mark_two_buttons_result(2) [OF m] by simp
  next
    case False
    then show ?thesis using av1 approvals_okD [OF ok a] ok by (simp add: request_ok_def approvals_ok_but_weaken)
  qed
  then show "approvals_ok_but (ma_request_id a) av'" "open_buttons (ma_request_id a) (av_buttons av') = []"
    "av_rows av' = av_rows av"
    using rest by (simp_all add: approvals_ok_but_frame [of av' av1])
qed

lemma commit_created_ok:
  "approvals_ok av \<Longrightarrow> (\<And>av'. res = Inr av' \<Longrightarrow> approvals_ok av') \<Longrightarrow> approvals_ok (snd (commit_created av res))"
  by (auto simp: commit_created_def split: sum.split)

lemma create_new_ok:
  assumes ok: "approvals_ok av" and st: "seed_status seed = approval_pending"
    and none: "find_approval (ma_request_id (sd_approval seed)) av = None"
    and pub: "publish_minimal_approval now seed protected (av\<lparr>av_rows := av_rows av @ [fresh_approval now seed]\<rparr>) = Inr av'"
  shows "approvals_ok av'"
proof (rule publish_ok [OF _ _ pub _ st])
  let ?i = "ma_request_id (sd_approval seed)"
  have new: "?i \<notin> ma_request_id ` set (av_rows av)" using none by (simp add: find_approval_def find_key_None)
  have id: "ma_request_id (fresh_approval now seed) = ?i" by (simp add: fresh_approval_def)
  show "approvals_ok_but ?i (av\<lparr>av_rows := av_rows av @ [fresh_approval now seed]\<rparr>)"
    using ok new id by (auto simp: approvals_ok_but_def approvals_ok_def)
  show "open_buttons ?i (av_buttons (av\<lparr>av_rows := av_rows av @ [fresh_approval now seed]\<rparr>)) = []"
  proof -
    have "ab_request_id b \<noteq> ?i" if "b \<in> set (av_buttons av)" for b
      using ok new that unfolding approvals_ok_def by metis
    then show ?thesis by (auto simp: open_buttons_def filter_empty_conv button_open_def)
  qed
qed simp

lemma create_replaced_ok:
  assumes ok: "approvals_ok av" and st: "seed_status seed = approval_pending"
    and a: "a \<in> set (av_rows av)" "ma_request_id a = ma_request_id (sd_approval seed)"
    and r: "retire_minimal_approval enc p now a av = Inr av1"
    and pub: "publish_minimal_approval now seed protected
      (set_approvals (\<lambda>x. ma_request_id x = ma_request_id (sd_approval seed)) (\<lambda>_. fresh_approval now seed) av1) = Inr av'"
  shows "approvals_ok av'"
proof (rule publish_ok [OF _ _ pub _ st])
  let ?i = "ma_request_id (sd_approval seed)"
  let ?av = "set_approvals (\<lambda>x. ma_request_id x = ?i) (\<lambda>_. fresh_approval now seed) av1"
  note d = retired [OF ok a(1) r, unfolded a(2)]
  have id: "ma_request_id (fresh_approval now seed) = ?i" by (simp add: fresh_approval_def)
  then have ids: "map ma_request_id (av_rows ?av) = map ma_request_id (av_rows av1)"
    by (simp add: update_rows_def)
  then have idset: "ma_request_id ` set (av_rows ?av) = ma_request_id ` set (av_rows av1)" by (metis set_map)
  have "x \<in> set (av_rows av1)" if "x \<in> set (av_rows ?av)" "ma_request_id x \<noteq> ?i" for x
    using that id by (auto simp: set_update_rows split: if_splits)
  then show "approvals_ok_but ?i ?av" using d(1) ids idset by (simp add: approvals_ok_but_def)
  show "open_buttons ?i (av_buttons ?av) = []" using d(2) by simp
  show "fresh_approval now seed \<in> set (av_rows ?av)" using a d(3) by (force simp: set_update_rows)
qed

lemma create_ok:
  assumes ok: "approvals_ok av" and st: "seed_status seed0 = approval_pending"
  shows "approvals_ok (snd (create_minimal_approval enc prot now seed0 av))"
proof -
  let ?seed = "normalized_seed seed0"
  have st': "seed_status ?seed = approval_pending" using st by simp
  have replay: "approvals_ok (snd (replay_minimal_approval now ?seed protected a av))"
    if f: "find_approval (ma_request_id (sd_approval ?seed)) av = Some a" and "same_request ?seed a" for a protected
    by (rule replay_ok [OF ok _ that(2)])
      (use find_key_in [OF f [unfolded find_approval_def]] in simp_all)
  have replace: "approvals_ok av'"
    if f: "find_approval (ma_request_id (sd_approval ?seed)) av = Some a"
      and r: "retire_minimal_approval enc p now a av = Inr av1"
      and pub: "publish_minimal_approval now ?seed protected
        (set_approvals (\<lambda>x. ma_request_id x = ma_request_id (sd_approval ?seed)) (\<lambda>_. fresh_approval now ?seed) av1)
        = Inr av'" for a p av1 protected av'
    by (rule create_replaced_ok [OF ok st' _ _ r pub])
      (use find_key_in [OF f [unfolded find_approval_def]] in simp_all)
  show ?thesis
    using ok
    by (auto simp: create_minimal_approval_def Let_def replay
        intro!: commit_created_ok intro: create_new_ok [OF ok st'] replace split: option.split sum.split)
qed

section \<open>Runs\<close>

text \<open>
  One transaction. A creation and the return of a claim carry the request they are for; the rest
  of the daemon may change the outbox and the tables of the full profile in any way.
\<close>

datatype approval_op = OpCreate string string string string | OpRestore string | OpOther

inductive approval_step ::
  "(delivery_payload \<Rightarrow> string) \<Rightarrow> protector \<Rightarrow> approvals \<Rightarrow> approval_op \<Rightarrow> approvals \<Rightarrow> bool"
  for enc p where
  create: "seed_status seed = approval_pending \<Longrightarrow> a = sd_approval (normalized_seed seed) \<Longrightarrow>
     approval_step enc p av (OpCreate (ma_request_id a) (ma_thread_id a) (ma_turn_id a) (ma_request_kind a))
       (snd (create_minimal_approval enc (Some p) now seed av))"
| complete: "approval_step enc p av OpOther
     (snd (complete_minimal_approval_delivery enc (Some p) now queue_id request_id chat topic message av))"
| claim: "approval_step enc p av OpOther
     (snd (claim_minimal_approval now token chat topic message session_identity av))"
| restore: "resolve_minimal_approval_request_id request_id av = Some i \<Longrightarrow>
     approval_step enc p av (OpRestore i) (snd (restore_minimal_approval_claim now request_id action av))"
| finish: "st \<noteq> approval_pending \<Longrightarrow>
     approval_step enc p av OpOther (snd (finish_minimal_approval_claim now request_id action st av))"
| expire: "approval_step enc p av OpOther (snd (expire_minimal_approval now request_id av))"
| expire_for_session: "approval_step enc p av OpOther
     (snd (expire_minimal_approval_for_session now request_id session_identity av))"
| end_session: "approval_step enc p av OpOther (snd (expire_minimal_approvals_for_session now session_identity av))"
| end_turn: "approval_step enc p av OpOther (snd (expire_minimal_approvals_for_thread_turn now thread turn av))"
| cancel: "approval_step enc p av OpOther
     (snd (cancel_minimal_approval_claim_with_inactive_edit enc (Some p) now request_id action txt av))"
| recover: "approval_step enc p av OpOther (snd (recover_minimal_approval_claims enc (Some p) now av))"
| elsewhere: "approval_step enc p av OpOther (av\<lparr>av_outbox := ob, av_pending := ps, av_callbacks := cs\<rparr>)"

inductive approval_run ::
  "(delivery_payload \<Rightarrow> string) \<Rightarrow> protector \<Rightarrow> (approval_op \<Rightarrow> bool) \<Rightarrow> approvals \<Rightarrow> approvals \<Rightarrow> bool"
  for enc p allowed where
  start: "approval_run enc p allowed av av"
| step: "approval_run enc p allowed av av1 \<Longrightarrow> approval_step enc p av1 op av2 \<Longrightarrow> allowed op \<Longrightarrow>
     approval_run enc p allowed av av2"

lemma approval_step_ok: "approval_step enc p av op av' \<Longrightarrow> approvals_ok av \<Longrightarrow> approvals_ok av'"
  by (induction rule: approval_step.induct)
    (auto simp: expire_minimal_approval_def expire_minimal_approval_for_session_def
      recover_minimal_approval_claims_def recover_claims_ok
      approvals_ok_frame [of "_\<lparr>av_outbox := _, av_pending := _, av_callbacks := _\<rparr>"]
      intro: create_ok complete_approval_ok press_ok restore_ok finish_ok expire_resolved_ok session_end_ok turn_expiry_ok cancel_ok)

lemma approval_run_ok: "approval_run enc p allowed av av' \<Longrightarrow> approvals_ok av \<Longrightarrow> approvals_ok av'"
  by (induction rule: approval_run.induct) (auto intro: approval_step_ok)

end
