(* ===== verification/Approval_Decisions.thy ===== *)
theory Approval_Decisions
  imports Approvals
begin

text \<open>
  What the approval tables promise about decisions: an accepted press is for the request the owner
  saw, and a request is decided once. A held or ended request is spent; every transaction but the
  return of its claim keeps it spent. The last section shows how a replay can disarm a held claim.
\<close>

section \<open>A request is answered once\<close>

text \<open>A request is spent while its claim is held and after it has ended.\<close>

definition spent_row :: "minimal_approval \<Rightarrow> bool" where
  "spent_row a \<longleftrightarrow> ma_status a \<noteq> approval_pending \<or> ma_claim_state a = ClaimTaken"

definition request_ident :: "minimal_approval \<Rightarrow> string \<times> string \<times> string \<times> string" where
  "request_ident a = (ma_request_id a, ma_thread_id a, ma_turn_id a, ma_request_kind a)"

definition spent :: "string \<times> string \<times> string \<times> string \<Rightarrow> approvals \<Rightarrow> bool" where
  "spent x av \<longleftrightarrow> (\<exists>a\<in>set (av_rows av). request_ident a = x \<and> spent_row a)"

text \<open>The operations that can open it again: the return of its claim, and another request under its id.\<close>

definition keeps_request :: "string \<times> string \<times> string \<times> string \<Rightarrow> approval_op \<Rightarrow> bool" where
  "keeps_request x op =
     (case op of
        OpRestore i \<Rightarrow> i \<noteq> fst x
      | OpCreate i t u k \<Rightarrow> i = fst x \<longrightarrow> (i, t, u, k) = x
      | OpOther \<Rightarrow> True)"

lemma spent_frame: "av_rows av' = av_rows av \<Longrightarrow> spent x av' = spent x av"
  by (simp add: spent_def)

lemma spent_update:
  assumes "spent x av" "av_rows av' = update_rows q f (av_rows av)"
    "\<And>a. q a \<Longrightarrow> request_ident a = x \<Longrightarrow> spent_row a \<Longrightarrow> request_ident (f a) = x \<and> spent_row (f a)"
  shows "spent x av'"
proof -
  obtain a where a: "a \<in> set (av_rows av)" "request_ident a = x" "spent_row a"
    using assms(1) by (auto simp: spent_def)
  have "(if q a then f a else a) \<in> set (av_rows av')" using a(1) by (auto simp: assms(2) set_update_rows)
  moreover have "request_ident (if q a then f a else a) = x \<and> spent_row (if q a then f a else a)"
    using a assms(3) by simp
  ultimately show ?thesis unfolding spent_def by blast
qed

lemma spent_settled:
  assumes "spent x av" "settle_request q f st st' i av = Inr (Some av')"
    "\<And>a. q a \<Longrightarrow> request_ident a = x \<Longrightarrow> spent_row a \<Longrightarrow> request_ident (f a) = x \<and> spent_row (f a)"
  shows "spent x av'"
  by (rule spent_update [where q = q and f = f, OF assms(1) _ assms(3)])
    (simp_all add: settle_requestD(3) [OF assms(2)])

lemma spent_committed:
  assumes "spent x av" "\<And>av'. res = Inr (Some av') \<Longrightarrow> spent x av'"
  shows "spent x (snd (commit_settled av res))"
  using assms by (auto simp: commit_settled_def split: sum.split option.split)

lemma idle_not_spent: "idle_request i a \<Longrightarrow> \<not> spent_row a"
  by (simp add: idle_request_def spent_row_def pending_request_def)

lemma spent_expired:
  assumes "spent x av"
  shows "spent x (snd (expire_resolved now resolved av))"
proof (cases resolved)
  case (Some i)
  have "spent x av2"
    if r: "(case settle_request (idle_request i) (\<lambda>a. a\<lparr>ma_status := ''expired'', ma_updated_at := now\<rparr>)
          ButtonActive ButtonExpired i av of
        Inr (Some av') \<Rightarrow> Inr (Some (kill_deliveries (q av') av')) | res \<Rightarrow> res) = Inr (Some av2)" for q av2
  proof -
    obtain av1 where s: "settle_request (idle_request i) (\<lambda>a. a\<lparr>ma_status := ''expired'', ma_updated_at := now\<rparr>)
        ButtonActive ButtonExpired i av = Inr (Some av1)" and av2: "av2 = kill_deliveries (q av1) av1"
      using r by (auto split: sum.splits option.splits)
    have "spent x av1" by (rule spent_settled [OF assms s]) (simp add: idle_not_spent)
    then show ?thesis by (simp add: av2 spent_frame [of "kill_deliveries (q av1) av1" av1])
  qed
  then show ?thesis unfolding expire_resolved_def Some option.case by (rule spent_committed [OF assms])
qed (simp add: expire_resolved_def assms)

lemma spent_finished:
  assumes "spent x av" "st \<noteq> approval_pending"
  shows "spent x (snd (finish_minimal_approval_claim now request_id action st av))"
proof (cases "resolve_minimal_approval_request_id request_id av")
  case (Some i)
  have "spent x (snd (commit_settled av (settle_request (claimed_request i action) (free_claim st now)
      ButtonClaimed ButtonConsumed i av)))"
    by (rule spent_committed [OF assms(1)], erule spent_settled [OF assms(1)])
      (simp add: free_claim_def spent_row_def request_ident_def assms(2))
  then show ?thesis using Some by (simp add: finish_minimal_approval_claim_def)
qed (simp add: finish_minimal_approval_claim_def assms)

lemma spent_restored:
  assumes "spent x av" "resolve_minimal_approval_request_id request_id av = Some i" "i \<noteq> fst x"
  shows "spent x (snd (restore_minimal_approval_claim now request_id action av))"
proof -
  have "spent x (snd (commit_settled av (settle_request (claimed_request i action)
      (\<lambda>a. free_claim (ma_status a) now a) ButtonClaimed ButtonActive i av)))"
    by (rule spent_committed [OF assms(1)], erule spent_settled [OF assms(1)])
      (use assms(3) in \<open>auto simp: claimed_request_def pending_request_def request_ident_def\<close>)
  then show ?thesis by (simp add: restore_minimal_approval_claim_def assms(2))
qed

lemma spent_cancelled:
  assumes "spent x av"
  shows "spent x (snd (cancel_minimal_approval_claim_with_inactive_edit enc prot now request_id action txt av))"
proof -
  have "spent x av2"
    if s: "settle_request (claimed_request i action) (free_claim ''cancelled'' now) ButtonClaimed ButtonConsumed i av
        = Inr (Some av1)" and e: "enqueue_minimal_approval_inactive_edit enc p now a txt av1 = Inr av2" for i p a av1 av2
  proof -
    have "spent x av1"
      by (rule spent_settled [OF assms s])
        (simp_all add: free_claim_def spent_row_def request_ident_def approval_pending_def)
    then show ?thesis using inactive_edit_frame [OF e] by (simp add: spent_frame [of av2 av1])
  qed
  then have "spent x (snd (commit_settled av
      (case settle_request (claimed_request i action) (free_claim ''cancelled'' now) ButtonClaimed ButtonConsumed i av of
         Inr (Some av1) \<Rightarrow> map_sum id Some (enqueue_minimal_approval_inactive_edit enc p now a txt av1)
       | res \<Rightarrow> res)))" for i p a
    by (intro spent_committed [OF assms]) (auto simp: map_sum_Inr split: sum.splits option.splits)
  then show ?thesis using assms
    by (simp add: cancel_minimal_approval_claim_with_inactive_edit_def Let_def split: option.split)
qed

lemma spent_recovered:
  "spent x av \<Longrightarrow> spent x (snd (recover_claims enc prot now cs n av))"
proof (induction enc prot now cs n av rule: recover_claims.induct)
  case (2 enc prot now i action cs n av)
  obtain res av1 where r: "cancel_minimal_approval_claim_with_inactive_edit enc prot now i action
      approval_unknown_outcome_text av = (res, av1)" by (rule prod.exhaust)
  then have "spent x av1" using spent_cancelled [OF 2(2)] by (metis snd_conv)
  then show ?case using 2(1) [OF r [symmetric]] r by (cases res) auto
qed simp

lemma spent_session_end:
  assumes "spent x av"
  shows "spent x (snd (expire_minimal_approvals_for_session now session_identity av))"
proof -
  have "spent x (snd (expire_minimal_approvals_of_session now i av))" for i
    by (rule spent_update [OF assms, where q = "\<lambda>a. ma_session_identity a = i \<and> ma_status a = approval_pending"
          and f = "free_claim ''expired'' now"])
      (simp_all add: expire_minimal_approvals_of_session_def Let_def free_claim_def spent_row_def
        request_ident_def approval_pending_def)
  then show ?thesis using assms
    by (auto simp: expire_minimal_approvals_for_session_def Let_def expire_pending_approvals_for_session_def
        expire_callback_routes_for_session_def spent_def split: prod.split) (metis snd_conv)
qed

lemma spent_turn_end:
  assumes "spent x av"
  shows "spent x (snd (expire_minimal_approvals_for_thread_turn now thread turn av))"
proof (cases "trim_space thread = [] \<or> trim_space turn = []")
  case False
  show ?thesis
    by (rule spent_update [OF assms, where q = "\<lambda>a. (ma_thread_id a = trim_space thread \<and> ma_turn_id a = trim_space turn) \<and>
          ma_status a = approval_pending \<and> ma_claim_state a = ClaimIdle"
          and f = "\<lambda>a. a\<lparr>ma_status := ''expired'', ma_updated_at := now\<rparr>"])
      (use False in \<open>simp_all add: expire_minimal_approvals_for_thread_turn_def Let_def spent_row_def\<close>)
qed (use assms in \<open>auto simp: expire_minimal_approvals_for_thread_turn_def Let_def\<close>)

lemma spent_take:
  assumes "spent x av" "spent x av0"
  shows "spent x (snd (take_claim now route av0 av))"
proof -
  have "spent x (set_approvals (idle_request i) f av)" for i f
    by (rule spent_update [OF assms(1), where q = "idle_request i" and f = f]) (simp_all add: idle_not_spent)
  then have "spent x (set_approvals (idle_request i) f av\<lparr>av_buttons := bs\<rparr>)" for i f bs
    by (simp add: spent_def)
  then show ?thesis using assms by (simp add: take_claim_def Let_def mark_two_buttons_def)
qed

lemma spent_bound:
  assumes "spent x av" "self_bind chat topic message now b av = Inr (Some av1)"
  shows "spent x av1"
proof -
  let ?free = "\<lambda>a. idle_request (ab_request_id b) a \<and> ma_message_id a = 0"
  have "av_rows av1 = update_rows ?free (\<lambda>a. a\<lparr>ma_message_id := message, ma_updated_at := now\<rparr>) (av_rows av)"
    using assms(2) by (auto simp: self_bind_def Let_def mark_two_buttons_def split: if_splits)
  then show ?thesis by (rule spent_update [OF assms(1)]) (auto dest: idle_not_spent)
qed

lemma spent_claimed:
  assumes "spent x av"
  shows "spent x (snd (claim_minimal_approval now token chat topic message session_identity av))"
  using assms
  by (auto simp: claim_minimal_approval_def Let_def intro!: spent_take dest: spent_bound [OF assms]
      split: option.split sum.split)

lemma spent_completed:
  assumes "spent x av"
  shows "spent x (snd (complete_minimal_approval_delivery enc prot now queue_id request_id chat topic message av))"
proof -
  have "spent x av2"
    if b: "bind_delivered_approval queue_id i chat topic message now av = Inr av1"
      and c: "enqueue_minimal_approval_pc_cleanup enc prot now a
            (mark_delivered queue_id (bind_message_route chat topic message t u i now av1)) = Inr av2" for i a t u av1 av2
  proof -
    let ?f = "\<lambda>a. a\<lparr>ma_chat_id := chat, ma_topic_id := topic, ma_message_id := message, ma_updated_at := now\<rparr>"
    have "av_rows av2 = update_rows (\<lambda>a. ma_request_id a = i) ?f (av_rows av)"
      using mark_two_buttons_result(2) [OF b [unfolded bind_delivered_approval_def]]
        c cleanup_frame [of enc prot now a _ _ "mark_delivered queue_id (bind_message_route chat topic message t u i now av1)" av2]
      by (auto simp: enqueue_minimal_approval_pc_cleanup_def Let_def split: if_splits)
    then show ?thesis
      by (rule spent_update [OF assms]) (simp add: request_ident_def spent_row_def)
  qed
  then show ?thesis using assms
    by (auto simp: complete_minimal_approval_delivery_def split: option.split sum.split)
qed

lemma published_rows:
  assumes "publish_minimal_approval now seed protected av = Inr av'"
  shows "\<exists>n. av_rows av' = update_rows (\<lambda>a. ma_request_id a = ma_request_id (sd_approval seed))
    (\<lambda>a. a\<lparr>ma_queue_id := n\<rparr>) (av_rows av)"
  using assms insert_routes_result(1) [of seed av]
  by (fastforce simp: publish_minimal_approval_def Let_def split: sum.splits if_splits)

lemma spent_published:
  assumes "spent x av" "publish_minimal_approval now seed protected av = Inr av'"
  shows "spent x av'"
proof -
  obtain n where "av_rows av' = update_rows (\<lambda>a. ma_request_id a = ma_request_id (sd_approval seed))
      (\<lambda>a. a\<lparr>ma_queue_id := n\<rparr>) (av_rows av)" using published_rows [OF assms(2)] by blast
  then show ?thesis by (rule spent_update [OF assms(1)]) (simp add: request_ident_def spent_row_def)
qed

lemma spent_replayed:
  assumes "spent x av"
  shows "spent x (snd (replay_minimal_approval now seed protected a av))"
proof -
  have "spent x av'"
    if r: "rearm_minimal_approval_delivery_if_dead now a seed protected (set_approvals (pending_request i) f av) = Inr av'"
      and f: "\<And>a. request_ident (f a) = request_ident a" "\<And>a. spent_row (f a) = spent_row a" for f i av'
  proof -
    have rows: "av_rows av' = update_rows (pending_request i) f (av_rows av)"
      using r mark_two_buttons_result(2) [of "button_open (ma_request_id a)" "mark_button ButtonExpired"
          "set_approvals (pending_request i) f av"] insert_routes_result(1) [of seed]
      by (fastforce simp: rearm_minimal_approval_delivery_if_dead_def Let_def split: if_splits option.splits sum.splits)
    show ?thesis by (rule spent_update [OF assms rows]) (simp add: f)
  qed
  then show ?thesis using assms
    by (auto simp: replay_minimal_approval_def request_ident_def spent_row_def spent_frame [of "kill_deliveries _ av" av]
        split: sum.split)
qed

lemma spent_created:
  assumes ok: "approvals_ok av" and sp: "spent x av" and a: "a = sd_approval (normalized_seed seed0)"
    and keeps: "keeps_request x (OpCreate (ma_request_id a) (ma_thread_id a) (ma_turn_id a) (ma_request_kind a))"
  shows "spent x (snd (create_minimal_approval enc prot now seed0 av))"
proof -
  let ?seed = "normalized_seed seed0"
  let ?i = "ma_request_id (sd_approval ?seed)"
  have new: "spent x (av\<lparr>av_rows := av_rows av @ [r]\<rparr>)" for r using sp by (auto simp: spent_def)
  have replace: "spent x av'"
    if f: "find_approval ?i av = Some b" and n: "\<not> same_request ?seed b"
      and r: "retire_minimal_approval enc p now b av = Inr av1"
      and pub: "publish_minimal_approval now ?seed protected
        (set_approvals (\<lambda>y. ma_request_id y = ?i) (\<lambda>_. fresh_approval now ?seed) av1) = Inr av'"
    for b p av1 protected av'
  proof (rule spent_published [OF _ pub], rule spent_update [where x = x and av = av1])
    have b: "b \<in> set (av_rows av)" "ma_request_id b = ?i"
      using find_key_in [OF f [unfolded find_approval_def]] by simp_all
    note rows = retired(3) [OF ok b(1) r]
    show "spent x av1" using sp rows by (simp add: spent_frame [of av1 av])
    have "?i \<noteq> fst x"
    proof
      assume "?i = fst x"
      moreover obtain c where c: "c \<in> set (av_rows av)" "request_ident c = x" using sp by (auto simp: spent_def)
      ultimately have "c = b" using b ok unfolding approvals_ok_def by (metis distinct_map fst_conv inj_onD request_ident_def)
      then show False using n keeps \<open>?i = fst x\<close> c(2)
        by (auto simp: keeps_request_def a request_ident_def same_request_def)
    qed
    then show "request_ident (fresh_approval now ?seed) = x \<and> spent_row (fresh_approval now ?seed)"
      if "ma_request_id y = ?i" "request_ident y = x" for y using that by (auto simp: request_ident_def)
  qed simp
  show ?thesis
    using sp
    by (auto simp: create_minimal_approval_def Let_def commit_created_def spent_replayed
        intro: spent_published [OF new] replace split: option.split sum.split)
qed

text \<open>A different request under the id of a spent one replaces it, or nothing changes.\<close>

lemma created_other:
  assumes ok: "approvals_ok av" and sp: "spent x av"
    and i: "ma_request_id (sd_approval (normalized_seed seed0)) = fst x"
      "request_ident (sd_approval (normalized_seed seed0)) \<noteq> x"
  shows "snd (create_minimal_approval enc prot now seed0 av) = av \<or>
    x \<notin> request_ident ` set (av_rows (snd (create_minimal_approval enc prot now seed0 av)))"
proof -
  let ?seed = "normalized_seed seed0"
  let ?a = "sd_approval ?seed"
  obtain c where c: "c \<in> set (av_rows av)" "request_ident c = x" using sp by (auto simp: spent_def)
  then have cid: "ma_request_id c = ma_request_id ?a" using i(1) by (auto simp: request_ident_def)
  have dist: "distinct (map ma_request_id (av_rows av))" using ok by (simp add: approvals_ok_def)
  have f: "find_approval (ma_request_id ?a) av = Some c"
    unfolding find_approval_def cid [symmetric] by (rule distinct_find_key [OF dist c(1)])
  have n: "\<not> same_request ?seed c" using i(2) c(2) cid by (auto simp: same_request_def request_ident_def)
  have "x \<notin> request_ident ` set (av_rows av')"
    if pub: "publish_minimal_approval now ?seed protected
        (set_approvals (\<lambda>y. ma_request_id y = ma_request_id ?a) (\<lambda>_. fresh_approval now ?seed) av1) = Inr av'"
    for protected av1 av'
  proof
    obtain k where k: "av_rows av' = update_rows (\<lambda>y. ma_request_id y = ma_request_id ?a) (\<lambda>y. y\<lparr>ma_queue_id := k\<rparr>)
        (update_rows (\<lambda>y. ma_request_id y = ma_request_id ?a) (\<lambda>_. fresh_approval now ?seed) (av_rows av1))"
      using published_rows [OF pub] by auto
    have cols: "ma_request_id (fresh_approval now ?seed) = ma_request_id ?a" "ma_thread_id (fresh_approval now ?seed) = ma_thread_id ?a"
      "ma_turn_id (fresh_approval now ?seed) = ma_turn_id ?a" "ma_request_kind (fresh_approval now ?seed) = ma_request_kind ?a"
      by (simp_all add: fresh_approval_def)
    assume "x \<in> request_ident ` set (av_rows av')"
    then have "x = request_ident ?a \<or> fst x \<noteq> ma_request_id ?a"
      by (auto simp: k set_update_rows request_ident_def cols)
    then show False using i by simp
  qed
  moreover define Q where "Q y \<longleftrightarrow> y = av \<or> x \<notin> request_ident ` set (av_rows y)" for y
  ultimately have Q: "Q av'"
    if "publish_minimal_approval now ?seed protected
        (set_approvals (\<lambda>y. ma_request_id y = ma_request_id ?a) (\<lambda>_. fresh_approval now ?seed) av1) = Inr av'"
    for protected av1 av' using that by blast
  have "Q av" by (simp add: Q_def)
  with Q have "Q (snd (create_minimal_approval enc prot now seed0 av))"
    by (simp add: create_minimal_approval_def Let_def f n commit_created_def split: option.split sum.split)
  then show ?thesis by (simp add: Q_def)
qed

lemma spent_step:
  assumes "approval_step enc p av op av'" "approvals_ok av" "spent x av" "keeps_request x op"
  shows "spent x av'"
  using assms
proof (induction rule: approval_step.induct)
  case (create seed a av now)
  then show ?case by (auto intro: spent_created)
next
  case (restore request_id av i now action)
  then show ?case by (simp add: spent_restored keeps_request_def)
qed (simp_all add: spent_completed spent_claimed spent_finished spent_expired expire_minimal_approval_def
    expire_minimal_approval_for_session_def spent_session_end spent_turn_end spent_cancelled
    recover_minimal_approval_claims_def spent_recovered
    spent_frame [of "_\<lparr>av_outbox := _, av_pending := _, av_callbacks := _\<rparr>"])

lemma spent_run:
  assumes "approval_run enc p allowed av av'" "approvals_ok av" "spent x av" "\<And>op. allowed op \<Longrightarrow> keeps_request x op"
  shows "spent x av'"
  using assms by (induction rule: approval_run.induct) (auto intro: spent_step approval_run_ok)

section \<open>What an accepted press means\<close>

lemma claim_success:
  assumes "claim_minimal_approval now token chat topic message s av = (Inr (Some route, True), av')"
  obtains b a where "find_button token av = Some b" "find_approval (ab_request_id b) av = Some a"
    "claim_exact chat topic message (trim_space s) b a"
    "route = \<lparr>mr_button = b\<lparr>ab_message_id := message\<rparr>, mr_wire_request_id = wire_or_request a,
              mr_session_identity = ma_session_identity a\<rparr>"
    "\<exists>av1. (av1 = av \<or> self_bind chat topic message now b av = Inr (Some av1)) \<and>
       settle_request (idle_request (ab_request_id b))
         (\<lambda>a. a\<lparr>ma_claim_state := ClaimTaken, ma_claim_action := Some (ab_action b), ma_updated_at := now\<rparr>)
         ButtonActive ButtonClaimed (ab_request_id b) av1 = Inr (Some av')"
proof -
  have take: "r = route \<and> settle_request (idle_request (ab_request_id (mr_button r)))
      (\<lambda>a. a\<lparr>ma_claim_state := ClaimTaken, ma_claim_action := Some (ab_action (mr_button r)), ma_updated_at := now\<rparr>)
      ButtonActive ButtonClaimed (ab_request_id (mr_button r)) av1 = Inr (Some av')"
    if "take_claim now r av av1 = (Inr (Some route, True), av')" for r av1
    using that by (auto simp: take_claim_def Let_def settle_request_def split: if_splits sum.splits)
  have bound: "b\<lparr>ab_message_id := message\<rparr> = b"
    if "claim_exact chat topic message (trim_space s) b a" "\<not> (ab_message_id b = 0 \<and> ma_message_id a = 0)" for a b
    using that by (auto simp: claim_exact_def)
  obtain b a where b: "find_button token av = Some b" and a: "find_approval (ab_request_id b) av = Some a"
    using assms by (auto simp: claim_minimal_approval_def split: option.splits)
  show thesis
    using assms take [of "\<lparr>mr_button = b\<lparr>ab_message_id := message\<rparr>, mr_wire_request_id = wire_or_request a,
              mr_session_identity = ma_session_identity a\<rparr>"] bound [of b a]
    by (intro that [OF b a])
      (auto simp: claim_minimal_approval_def Let_def b a split: if_splits sum.splits option.splits)
qed

lemma taken_claim:
  assumes ok: "approvals_ok av"
    and s: "settle_request (idle_request i)
      (\<lambda>a. a\<lparr>ma_claim_state := ClaimTaken, ma_claim_action := Some act, ma_updated_at := now\<rparr>)
      ButtonActive ButtonClaimed i av = Inr (Some av')"
    and a: "a \<in> set (av_rows av)" "ma_request_id a = i"
  shows "a\<lparr>ma_claim_state := ClaimTaken, ma_claim_action := Some act, ma_updated_at := now\<rparr> \<in> set (av_rows av')"
    "open_buttons i (av_buttons av') \<noteq> []" "\<forall>c\<in>set (open_buttons i (av_buttons av')). ab_status c = ButtonClaimed"
proof -
  note d = settle_requestD [OF s]
  have idle: "idle_request i a"
    by (rule affected_one [where k = ma_request_id, OF d(1) _ a])
      (use ok in \<open>auto simp: approvals_ok_def idle_request_def pending_request_def\<close>)
  then show "a\<lparr>ma_claim_state := ClaimTaken, ma_claim_action := Some act, ma_updated_at := now\<rparr> \<in> set (av_rows av')"
    using a(1) by (force simp: d(3) set_update_rows)
  have pair: "button_pair a (open_buttons i (av_buttons av))"
    using approvals_okD [OF ok a(1)] idle a(2) by (auto simp: request_ok_def idle_request_def pending_request_def)
  have "open_buttons i (av_buttons av') = map (mark_button ButtonClaimed) (open_buttons i (av_buttons av))"
    using pair_status [OF pair disjI1 [OF refl] d(2)]
    by (auto simp: d(3) button_open_def button_in_def mark_button_def intro!: open_buttons_kept)
  then show "open_buttons i (av_buttons av') \<noteq> []"
    "\<forall>c\<in>set (open_buttons i (av_buttons av')). ab_status c = ButtonClaimed"
    using pair by (auto simp: button_pair_def mark_button_def)
qed

lemma self_bound_row:
  assumes "approvals_ok av" "self_bind chat topic message now b av = Inr (Some av1)"
    "a \<in> set (av_rows av)" "ma_request_id a = ab_request_id b"
  shows "a\<lparr>ma_message_id := message, ma_updated_at := now\<rparr> \<in> set (av_rows av1)"
proof -
  let ?free = "\<lambda>a. idle_request (ab_request_id b) a \<and> ma_message_id a = 0"
  have rows: "av_rows av1 = update_rows ?free (\<lambda>a. a\<lparr>ma_message_id := message, ma_updated_at := now\<rparr>) (av_rows av)"
    and one: "affected ?free (av_rows av) = 1"
    using assms(2) by (auto simp: self_bind_def Let_def mark_two_buttons_def split: if_splits)
  have "?free a"
    by (rule affected_one [where k = ma_request_id, OF one _ assms(3,4)])
      (use assms(1) in \<open>auto simp: approvals_ok_def idle_request_def pending_request_def\<close>)
  then show ?thesis using assms(3) by (force simp: rows set_update_rows)
qed

lemma claim_takes:
  assumes ok: "approvals_ok av"
    and c: "claim_minimal_approval now token chat topic message s av = (Inr (Some route, True), av')"
  shows "\<exists>a\<in>set (av_rows av). \<exists>a'\<in>set (av_rows av').
     claim_exact chat topic message (trim_space s) (the (find_button token av)) a \<and>
     ma_request_id a = ab_request_id (mr_button route) \<and> request_ident a' = request_ident a \<and>
     ma_status a' = approval_pending \<and> ma_claim_state a' = ClaimTaken \<and>
     ma_claim_action a' = Some (ab_action (mr_button route)) \<and>
     open_buttons (ma_request_id a) (av_buttons av') \<noteq> [] \<and>
     (\<forall>x\<in>set (open_buttons (ma_request_id a) (av_buttons av')). ab_status x = ButtonClaimed)"
proof -
  obtain b a av1 where b: "find_button token av = Some b" and fa: "find_approval (ab_request_id b) av = Some a"
    and ex: "claim_exact chat topic message (trim_space s) b a"
    and route: "ab_request_id (mr_button route) = ab_request_id b" "ab_action (mr_button route) = ab_action b"
    and av1: "av1 = av \<or> self_bind chat topic message now b av = Inr (Some av1)"
    and s: "settle_request (idle_request (ab_request_id b))
         (\<lambda>a. a\<lparr>ma_claim_state := ClaimTaken, ma_claim_action := Some (ab_action b), ma_updated_at := now\<rparr>)
         ButtonActive ButtonClaimed (ab_request_id b) av1 = Inr (Some av')"
    using c by (elim claim_success) auto
  have a: "a \<in> set (av_rows av)" "ma_request_id a = ab_request_id b"
    using find_key_in [OF fa [unfolded find_approval_def]] by simp_all
  have ok1: "approvals_ok av1" using av1 ok self_bind_ok by blast
  have "\<exists>a1\<in>set (av_rows av1). request_ident a1 = request_ident a \<and> ma_request_id a1 = ab_request_id b \<and>
      ma_status a1 = ma_status a"
    using av1
  proof
    assume "self_bind chat topic message now b av = Inr (Some av1)"
    from self_bound_row [OF ok this a] show ?thesis
      by (rule rev_bexI) (simp add: request_ident_def a(2))
  qed (use a in auto)
  then obtain a1 where a1: "a1 \<in> set (av_rows av1)" "request_ident a1 = request_ident a"
      "ma_request_id a1 = ab_request_id b" "ma_status a1 = ma_status a" by blast
  note t = taken_claim [OF ok1 s a1(1,3)]
  show ?thesis
    using a b ex route t a1 ex
    by (intro bexI [OF _ a(1)] bexI [OF _ t(1)]) (auto simp: request_ident_def claim_exact_def)
qed

text \<open>No press succeeds on a spent request.\<close>

lemma spent_not_claimed:
  assumes "approvals_ok av" "spent x av" "find_button token av = Some b" "ab_request_id b = fst x"
  shows "\<exists>r. claim_minimal_approval now token chat topic message s av = (Inr (r, False), av)"
proof -
  obtain c where c: "c \<in> set (av_rows av)" "request_ident c = x" "spent_row c" using assms(2) by (auto simp: spent_def)
  have "find_approval (ab_request_id b) av = Some c"
    using assms(1,4) c(1,2) distinct_find_key [of ma_request_id "av_rows av" c]
    by (auto simp: find_approval_def approvals_ok_def request_ident_def)
  moreover have "\<not> claim_exact chat topic message (trim_space s) b c"
    using c(3) by (auto simp: claim_exact_def spent_row_def)
  ultimately show ?thesis by (simp add: claim_minimal_approval_def assms(3) Let_def)
qed

lemma claimed_spent:
  assumes "approvals_ok av"
    "claim_minimal_approval now token chat topic message s av = (Inr (Some route, True), av')"
  obtains x where "fst x = ab_request_id (mr_button route)" "spent x av'"
    "x = (ab_request_id (mr_button route), ab_thread_id (mr_button route), ab_turn_id (mr_button route),
          ab_request_kind (mr_button route))"
proof -
  obtain b a where f: "find_button token av = Some b" "claim_exact chat topic message (trim_space s) b a"
    and r: "mr_button route = b\<lparr>ab_message_id := message\<rparr>" "find_approval (ab_request_id b) av = Some a"
    using assms(2) by (elim claim_success) auto
  obtain a1 a2 where a: "a1 \<in> set (av_rows av)" "a2 \<in> set (av_rows av')" "claim_exact chat topic message (trim_space s) b a1"
      "ma_request_id a1 = ab_request_id (mr_button route)" "request_ident a2 = request_ident a1" "ma_claim_state a2 = ClaimTaken"
    using claim_takes [OF assms] f(1) by auto
  have "request_ident a1 = (ab_request_id (mr_button route), ab_thread_id (mr_button route), ab_turn_id (mr_button route),
          ab_request_kind (mr_button route))"
    using a(3,4) r(1) by (auto simp: request_ident_def claim_exact_def)
  then show thesis using a(2,5,6) by (intro that [OF _ _ refl]) (auto simp: spent_def spent_row_def)
qed

section \<open>A request for the examples\<close>

definition ask_protector :: protector where
  "ask_protector = \<lparr>protect = Some, unprotect = Some\<rparr>"

definition ask_seed :: "string \<Rightarrow> string \<Rightarrow> approval_seed" where
  "ask_seed approve deny =
     \<lparr>sd_approval = \<lparr>ma_request_id = ''r'', ma_wire_request_id = [], ma_thread_id = ''t'', ma_turn_id = ''u'',
        ma_request_kind = ''k'', ma_project_name = ''p'', ma_session_identity = ''s'',
        ma_supersede_event_id = [], ma_status = ''pending'', ma_claim_state = ClaimIdle,
        ma_claim_action = None, ma_chat_id = 0, ma_topic_id = 0, ma_message_id = 0, ma_queue_id = 0,
        ma_updated_at = 0\<rparr>,
      sd_approve_token = approve, sd_deny_token = deny,
      sd_delivery = (approval_item ''e'' 5 0 ''t'' minimal_approval_kind)\<lparr>qi_payload := ''x''\<rparr>,
      sd_supersede_event_id = []\<rparr>"

definition ask_create :: "string \<Rightarrow> string \<Rightarrow> approvals \<Rightarrow> approvals" where
  "ask_create approve deny av =
     snd (create_minimal_approval dp_text (Some ask_protector) 0 (ask_seed approve deny) av)"

definition ask_stored :: approvals where "ask_stored = ask_create ''a'' ''d'' empty_approvals"
definition ask_pressed :: approvals where
  "ask_pressed = snd (claim_minimal_approval 1 ''a'' 5 0 77 ''s'' ask_stored)"

lemma ask_create_run:
  assumes "approval_run enc ask_protector allowed av av'" "enc = dp_text"
    "allowed (OpCreate ''r'' ''t'' ''u'' ''k'')"
  shows "approval_run enc ask_protector allowed av (ask_create approve deny av')"
proof -
  have seed: "seed_status (ask_seed approve deny) = approval_pending" by code_simp
  have ids: "ma_request_id (sd_approval (normalized_seed (ask_seed approve deny))) = ''r''"
    "ma_thread_id (sd_approval (normalized_seed (ask_seed approve deny))) = ''t''"
    "ma_turn_id (sd_approval (normalized_seed (ask_seed approve deny))) = ''u''"
    "ma_request_kind (sd_approval (normalized_seed (ask_seed approve deny))) = ''k''" by code_simp+
  show ?thesis
    unfolding ask_create_def assms(2)
    by (rule approval_run.step [OF assms(1) [unfolded assms(2)] approval_step.create [OF seed refl]])
      (use assms(3) ids in simp)
qed

lemma ask_stored_run: "approval_run dp_text ask_protector (\<lambda>_. True) empty_approvals ask_stored"
  unfolding ask_stored_def by (rule ask_create_run [OF approval_run.start]) simp_all

lemma ask_stored_values:
  "map ma_request_id (av_rows ask_stored) = [''r'']" "map ma_status (av_rows ask_stored) = [''pending'']"
  "map ab_action (filter (button_open ''r'') (av_buttons ask_stored)) = [''approve'', ''deny'']"
  "map ab_token (av_buttons ask_stored) = [''a'', ''d'']" "map ab_request_id (av_buttons ask_stored) = [''r'', ''r'']"
  by code_simp+

lemma ask_press:
  "\<exists>r. claim_minimal_approval 1 ''a'' 5 0 77 ''s'' ask_stored = (Inr (Some r, True), ask_pressed) \<and>
       ab_request_id (mr_button r) = ''r'' \<and> ab_thread_id (mr_button r) = ''t'' \<and> ab_turn_id (mr_button r) = ''u'' \<and>
       ab_request_kind (mr_button r) = ''k'' \<and> ab_action (mr_button r) = ''approve''"
proof -
  have "(case fst (claim_minimal_approval 1 ''a'' 5 0 77 ''s'' ask_stored) of
      Inr (Some r, True) \<Rightarrow> ab_request_id (mr_button r) = ''r'' \<and> ab_thread_id (mr_button r) = ''t'' \<and>
        ab_turn_id (mr_button r) = ''u'' \<and> ab_request_kind (mr_button r) = ''k'' \<and>
        ab_action (mr_button r) = ''approve''
    | _ \<Rightarrow> False)" by code_simp
  then show ?thesis
    by (cases "claim_minimal_approval 1 ''a'' 5 0 77 ''s'' ask_stored")
      (auto simp: ask_pressed_def split: sum.splits option.splits bool.splits)
qed

section \<open>The promises\<close>

text \<open>
  C26: The buttons of an approval request match it in every reachable state of the store: a pending
  request has exactly one approve and one deny button that can still be pressed or are held, both
  in the same state and both for the thread, turn and kind of the request; while nobody holds it
  both can be pressed; a request that has ended has no such button.
\<close>
theorem approval_buttons_match:
  assumes "approval_run enc p (\<lambda>_. True) empty_approvals av" "a \<in> set (av_rows av)"
  shows "if ma_status a = approval_pending
    then \<exists>x y. filter (button_open (ma_request_id a)) (av_buttons av) = [x, y] \<and>
           ab_action x = ''approve'' \<and> ab_action y = ''deny'' \<and> ab_status x = ab_status y \<and>
           (ma_claim_state a = ClaimIdle \<longrightarrow> ab_status x = ButtonActive) \<and>
           map (\<lambda>b. (ab_thread_id b, ab_turn_id b, ab_request_kind b)) [x, y] =
             [(ma_thread_id a, ma_turn_id a, ma_request_kind a), (ma_thread_id a, ma_turn_id a, ma_request_kind a)]
    else filter (button_open (ma_request_id a)) (av_buttons av) = []"
proof -
  have "approvals_ok av" by (rule approval_run_ok [OF assms(1) empty_approvals_ok])
  from approvals_okD [OF this assms(2)] show ?thesis
    by (auto simp: request_ok_def button_pair_def open_buttons_def button_for_def map_eq_Cons_conv)
qed

lemma approval_buttons_match_witness:
  "length (filter (button_open ''r'') (av_buttons ask_stored)) = 2"
proof -
  obtain a where "av_rows ask_stored = [a]" "ma_request_id a = ''r''" "ma_status a = approval_pending"
    using ask_stored_values(1,2) by (auto simp: map_eq_Cons_conv approval_pending_def)
  then show ?thesis using approval_buttons_match [OF ask_stored_run, of a] by auto
qed

text \<open>
  C27: A press of an approval button is accepted only for what the owner saw: the button can still
  be pressed, the request is pending and not held, the press comes from the chat and topic the
  request was sent to and from its message (or the first message the request is shown in), and the
  App Server session that asked is the one the caller named. The accepted press holds the request
  with the action of the button that was pressed, and neither of its buttons can be pressed any more.
\<close>
theorem approval_press_exact:
  assumes "approval_run enc p (\<lambda>_. True) empty_approvals av"
    and "claim_minimal_approval now token chat topic message session av = (Inr (Some route, True), av')"
  shows "\<exists>b a a'. find_button token av = Some b \<and> a \<in> set (av_rows av) \<and> a' \<in> set (av_rows av') \<and>
    ab_status b = ButtonActive \<and> ma_status a = approval_pending \<and> ma_claim_state a = ClaimIdle \<and>
    (ab_chat_id b, ab_topic_id b) = (chat, topic) \<and> (ma_chat_id a, ma_topic_id a) = (chat, topic) \<and> 0 < message \<and>
    (ab_message_id b, ma_message_id a) \<in> {(message, message), (0, 0)} \<and>
    ma_session_identity a = trim_space session \<and>
    (ab_request_id b, ab_thread_id b, ab_turn_id b, ab_request_kind b) = request_ident a \<and>
    request_ident a' = request_ident a \<and> ma_claim_state a' = ClaimTaken \<and> ma_claim_action a' = Some (ab_action b) \<and>
    filter (\<lambda>x. ab_request_id x = ma_request_id a \<and> ab_status x = ButtonActive) (av_buttons av') = []"
proof -
  have ok: "approvals_ok av" by (rule approval_run_ok [OF assms(1) empty_approvals_ok])
  obtain b where b: "find_button token av = Some b" "mr_button route = b\<lparr>ab_message_id := message\<rparr>"
    using assms(2) by (elim claim_success) auto
  obtain a a' where a: "a \<in> set (av_rows av)" "a' \<in> set (av_rows av')"
    "claim_exact chat topic message (trim_space session) b a" "ma_request_id a = ab_request_id b"
    "request_ident a' = request_ident a" "ma_claim_state a' = ClaimTaken" "ma_claim_action a' = Some (ab_action b)"
    "\<forall>x\<in>set (open_buttons (ma_request_id a) (av_buttons av')). ab_status x = ButtonClaimed"
    using claim_takes [OF ok assms(2)] b by auto
  have "filter (\<lambda>x. ab_request_id x = ma_request_id a \<and> ab_status x = ButtonActive) (av_buttons av') = []"
    using a(8) by (auto simp: filter_empty_conv open_buttons_def button_open_def)
  then show ?thesis using a b(1) by (intro exI [of _ b] exI [of _ a] exI [of _ a']) (auto simp: claim_exact_def request_ident_def)
qed

lemma approval_press_exact_witness:
  "filter (\<lambda>x. ab_request_id x = ''r'' \<and> ab_status x = ButtonActive) (av_buttons ask_pressed) = []"
proof -
  obtain r where "claim_minimal_approval 1 ''a'' 5 0 77 ''s'' ask_stored = (Inr (Some r, True), ask_pressed)"
    using ask_press by blast
  from approval_press_exact [OF ask_stored_run this] obtain a where
    "a \<in> set (av_rows ask_stored)"
    "filter (\<lambda>x. ab_request_id x = ma_request_id a \<and> ab_status x = ButtonActive) (av_buttons ask_pressed) = []"
    by blast
  then show ?thesis using ask_stored_values(1) by (auto simp: map_eq_Cons_conv)
qed

text \<open>
  C28: An approval request is decided once. After one of its buttons was accepted, no press of any
  button of the request is accepted, whatever happens in between: deliveries, replays of the same
  request by the App Server, answers, expiry, the end of the session, recovery after a restart. Only
  the explicit return of the claim (the answer definitely did not leave) or a different request
  under the same id opens it again.
\<close>
theorem approval_decided_once:
  assumes "approval_run enc p (\<lambda>_. True) empty_approvals av"
    and "claim_minimal_approval now token chat topic message session av = (Inr (Some route, True), av1)"
    and "approval_run enc p (keeps_request (ab_request_id (mr_button route), ab_thread_id (mr_button route),
           ab_turn_id (mr_button route), ab_request_kind (mr_button route))) av1 av2"
    and "find_button token' av2 = Some b" "ab_request_id b = ab_request_id (mr_button route)"
  shows "\<exists>r. claim_minimal_approval now' token' chat' topic' message' session' av2 = (Inr (r, False), av2)"
proof -
  have ok: "approvals_ok av" by (rule approval_run_ok [OF assms(1) empty_approvals_ok])
  have ok1: "approvals_ok av1" using press_ok [OF ok] assms(2) by (metis snd_conv)
  obtain x where x: "fst x = ab_request_id (mr_button route)" "spent x av1"
    "x = (ab_request_id (mr_button route), ab_thread_id (mr_button route), ab_turn_id (mr_button route),
          ab_request_kind (mr_button route))"
    by (rule claimed_spent [OF ok assms(2)])
  have "spent x av2" by (rule spent_run [OF assms(3) ok1 x(2)]) (simp add: x(3))
  then show ?thesis
    using spent_not_claimed [OF approval_run_ok [OF assms(3) ok1], of x token' b] assms(4,5) x(1) by auto
qed

lemma approval_decided_once_witness:
  "\<exists>r. claim_minimal_approval 9 ''d'' 5 0 77 ''s'' (ask_create ''b'' ''f'' ask_pressed) =
     (Inr (r, False), ask_create ''b'' ''f'' ask_pressed)"
proof -
  obtain r where r: "claim_minimal_approval 1 ''a'' 5 0 77 ''s'' ask_stored = (Inr (Some r, True), ask_pressed)"
    "ab_request_id (mr_button r) = ''r''" "ab_thread_id (mr_button r) = ''t''" "ab_turn_id (mr_button r) = ''u''"
    "ab_request_kind (mr_button r) = ''k''" using ask_press by blast
  have run: "approval_run dp_text ask_protector (keeps_request (ab_request_id (mr_button r), ab_thread_id (mr_button r),
           ab_turn_id (mr_button r), ab_request_kind (mr_button r))) ask_pressed (ask_create ''b'' ''f'' ask_pressed)"
    by (rule ask_create_run [OF approval_run.start]) (simp_all add: keeps_request_def r)
  have "map_option ab_request_id (find_button ''d'' (ask_create ''b'' ''f'' ask_pressed)) = Some ''r''" by code_simp
  then obtain b where "find_button ''d'' (ask_create ''b'' ''f'' ask_pressed) = Some b" "ab_request_id b = ''r''"
    by auto
  then show ?thesis using approval_decided_once [OF ask_stored_run r(1) run] r(2) by simp
qed

section \<open>A claim that a replay has disarmed\<close>

lemma no_claimed_button:
  assumes "button_pair a (open_buttons i bs)" "b \<in> set bs" "button_in ButtonActive i b"
  shows "affected (button_in ButtonClaimed i) bs = 0"
proof -
  have "b \<in> set (open_buttons i bs)" using assms(2,3) by (auto simp: open_buttons_def button_open_def button_in_def)
  then have "\<forall>c\<in>set (open_buttons i bs). ab_status c = ButtonActive"
    using assms(1,3) by (fastforce simp: button_pair_def list_all_iff button_in_def)
  then show ?thesis
    by (auto simp: affected_def filter_empty_conv open_buttons_def button_open_def button_in_def)
qed

text \<open>A held request with an active button cannot be finished, returned, cancelled or recovered.\<close>

lemma disarmed_claim_fails:
  assumes "approval_run enc p (\<lambda>_. True) empty_approvals av" and "a \<in> set (av_rows av)"
    and "ma_status a = approval_pending" "ma_claim_state a = ClaimTaken" "ma_claim_action a = Some act"
    and "b \<in> set (av_buttons av)" "ab_request_id b = ma_request_id a" "ab_status b = ButtonActive"
    and "resolve_minimal_approval_request_id (ma_request_id a) av = Some (ma_request_id a)"
    and "ma_chat_id a \<noteq> 0" "0 < ma_message_id a" "trim_space txt \<noteq> []"
  shows "finish_minimal_approval_claim now (ma_request_id a) act st av = (Inl (ApRouteCount 0), av) \<and>
    restore_minimal_approval_claim now (ma_request_id a) act av = (Inl (ApRouteCount 0), av) \<and>
    cancel_minimal_approval_claim_with_inactive_edit enc (Some p) now (ma_request_id a) act txt av =
      (Inl (ApRouteCount 0), av) \<and>
    (filter (\<lambda>x. ma_status x = approval_pending \<and> ma_claim_state x = ClaimTaken) (av_rows av) = [a] \<longrightarrow>
      recover_minimal_approval_claims enc (Some p) now av = (Inl (ApRouteCount 0), av))"
proof -
  have ok: "approvals_ok av" by (rule approval_run_ok [OF assms(1) empty_approvals_ok])
  have pair: "button_pair a (open_buttons (ma_request_id a) (av_buttons av))"
    using approvals_okD [OF ok assms(2)] assms(3) by (simp add: request_ok_def)
  have none: "affected (button_in ButtonClaimed (ma_request_id a)) (av_buttons av) = 0"
    by (rule no_claimed_button [OF pair assms(6)]) (simp add: button_in_def assms(7,8))
  have dist: "distinct (map ma_request_id (av_rows av))" using ok by (simp add: approvals_ok_def)
  have one: "affected (claimed_request (ma_request_id a) act) (av_rows av) = 1"
    by (rule affected_key [OF dist assms(2)]) (use assms(3-5) in \<open>auto simp: claimed_request_def pending_request_def\<close>)
  have stuck: "settle_request (claimed_request (ma_request_id a) act) f ButtonClaimed s' (ma_request_id a) av =
      Inl (ApRouteCount 0)" for f s'
    using one none by (simp add: settle_request_def mark_two_buttons_def)
  have found: "find_approval (ma_request_id a) av = Some a"
    unfolding find_approval_def by (rule distinct_find_key [OF dist assms(2)])
  have cancel: "cancel_minimal_approval_claim_with_inactive_edit enc (Some p) now (ma_request_id a) act t av =
      (Inl (ApRouteCount 0), av)" if "trim_space t \<noteq> []" for t
    using assms(3-5,9-11) that
    by (simp add: stuck commit_settled_def cancel_minimal_approval_claim_with_inactive_edit_def found)
  have "trim_space approval_unknown_outcome_text \<noteq> []" by code_simp
  then show ?thesis
    using assms(3-5,9-12) cancel
    by (simp add: finish_minimal_approval_claim_def restore_minimal_approval_claim_def stuck commit_settled_def
        recover_minimal_approval_claims_def)
qed

end
