(* ===== verification/Thread_Store.thy ===== *)
theory Thread_Store
  imports Delivery_Store Diff "HOL-Library.Product_Lexorder"
begin

text \<open>
  The tables of \<^verbatim>\<open>internal/storage/store.go\<close> that are written and read row by row: threads,
  snapshots, the binding of a chat to a thread, the chats that observe, and the routes from a
  Telegram message to a turn. Each is an upsert and a lookup; what an upsert and a lookup owe each
  other is the locale \<^verbatim>\<open>upsert_table\<close>. The JSON text of a snapshot and of a thread's raw payload
  is kept as the value it encodes. Listing with SQLite's JSON functions is not modelled.
\<close>

section \<open>Upserts\<close>

definition upsert_row :: "('r \<Rightarrow> 'k) \<Rightarrow> ('r \<Rightarrow> 'r \<Rightarrow> 'r) \<Rightarrow> 'r \<Rightarrow> 'r list \<Rightarrow> 'r list" where
  "upsert_row key merge r rs =
     (if list_ex (\<lambda>x. key x = key r) rs then update_rows (\<lambda>x. key x = key r) (merge r) rs else rs @ [r])"

text \<open>
  The interface: rows with a key, a write that creates or changes the row of its key, and a
  lookup. Every write is visible, disturbs no other key, and leaves one row per key.
\<close>

locale upsert_table =
  fixes key :: "'r \<Rightarrow> 'k" and row :: "'w \<Rightarrow> 'r" and put :: "'w \<Rightarrow> 'r list \<Rightarrow> 'r list"
    and look :: "'k \<Rightarrow> 'r list \<Rightarrow> 'r option"
  assumes look_put: "look (key (row w)) (put w rs) = Some (row w)"
    and look_other: "k \<noteq> key (row w) \<Longrightarrow> look k (put w rs) = look k rs"
    and put_distinct: "distinct (map key rs) \<Longrightarrow> distinct (map key (put w rs))"
begin

text \<open>After any writes a lookup returns the last one for its key.\<close>

definition last_write :: "'k \<Rightarrow> 'w list \<Rightarrow> 'r option" where
  "last_write k ws = (let vs = filter (\<lambda>w. key (row w) = k) ws in if vs = [] then None else Some (row (last vs)))"

lemma last_write_snoc:
  "last_write k (ws @ [w]) = (if key (row w) = k then Some (row w) else last_write k ws)"
  by (simp add: last_write_def Let_def)

lemma look_writes:
  "look k (foldl (\<lambda>t w. put w t) rs ws) = (case last_write k ws of None \<Rightarrow> look k rs | Some r \<Rightarrow> Some r)"
proof (induction ws rule: rev_induct)
  case Nil
  then show ?case by (simp add: last_write_def)
next
  case (snoc w ws)
  then show ?case by (cases "k = key (row w)") (auto simp: last_write_snoc look_put look_other)
qed

lemma writes_distinct: "distinct (map key rs) \<Longrightarrow> distinct (map key (foldl (\<lambda>t w. put w t) rs ws))"
  by (induction ws arbitrary: rs) (simp_all add: put_distinct)

end

lemma find_upsert_merge:
  assumes "\<And>x. key x = key r \<Longrightarrow> key (merge r x) = key r"
  shows "find (\<lambda>x. key x = k) (upsert_row key merge r rs) =
    (if k = key r then Some (case find (\<lambda>x. key x = k) rs of None \<Rightarrow> r | Some old \<Rightarrow> merge r old)
     else find (\<lambda>x. key x = k) rs)"
proof (cases "list_ex (\<lambda>x. key x = key r) rs")
  case True
  have "find (\<lambda>x. key x = k) (update_rows (\<lambda>x. key x = key r) (merge r) rs) =
      (if k = key r then map_option (merge r) (find (\<lambda>x. key x = k) rs) else find (\<lambda>x. key x = k) rs)"
    using assms by (induction rs) auto
  moreover have "find (\<lambda>x. key x = key r) rs \<noteq> None" using True by (auto simp: list_ex_iff find_None_iff)
  ultimately show ?thesis using True by (auto simp: upsert_row_def)
next
  case False
  then have "find (\<lambda>x. key x = key r) rs = None" by (auto simp: find_None_iff list_ex_iff)
  then show ?thesis using False by (auto simp: upsert_row_def find_append split: option.split)
qed

lemma find_upsert:
  assumes "\<And>r x. key x = key r \<Longrightarrow> merge r x = r"
  shows "find (\<lambda>x. key x = k) (upsert_row key merge r rs) =
    (if k = key r then Some r else find (\<lambda>x. key x = k) rs)"
proof -
  have old: "(case find (\<lambda>x. key x = key r) rs of None \<Rightarrow> r | Some old \<Rightarrow> merge r old) = r"
  proof (cases "find (\<lambda>x. key x = key r) rs")
    case (Some x)
    then show ?thesis using assms [of x r] find_key_in [OF Some] by simp
  qed simp
  have "key (merge r x) = key r" if "key x = key r" for x using assms [OF that] by simp
  from find_upsert_merge [of key r merge k rs, OF this] show ?thesis using old by auto
qed

lemma distinct_upsert:
  assumes "\<And>r x. key x = key r \<Longrightarrow> key (merge r x) = key r" "distinct (map key rs)"
  shows "distinct (map key (upsert_row key merge r rs))"
proof (cases "list_ex (\<lambda>x. key x = key r) rs")
  case True
  have "map key (update_rows (\<lambda>x. key x = key r) (merge r) rs) = map key rs"
    using assms(1) by (induction rs) auto
  then show ?thesis using True assms(2) by (simp add: upsert_row_def)
qed (use assms(2) in \<open>auto simp: upsert_row_def list_ex_iff\<close>)

section \<open>Threads and snapshots\<close>

text \<open>The row of a thread: blank texts become NULL and are read back as the empty string.\<close>

definition thread_row :: "thread \<Rightarrow> thread" where
  "thread_row t =
     t\<lparr>th_cwd := blank_to_empty (th_cwd t), th_directory_name := blank_to_empty (th_directory_name t),
       th_status := blank_to_empty (th_status t), th_last_preview := blank_to_empty (th_last_preview t),
       th_active_turn_id := blank_to_empty (th_active_turn_id t),
       th_preferred_model := blank_to_empty (th_preferred_model t),
       th_permissions_mode := blank_to_empty (th_permissions_mode t),
       th_raw := (if th_raw t = JNull then JObj [] else th_raw t)\<rparr>"

definition upsert_thread :: "thread \<Rightarrow> thread list \<Rightarrow> thread list" where
  "upsert_thread t ts = upsert_row th_id (\<lambda>new _. new) (thread_row t) ts"

definition get_thread :: "string \<Rightarrow> thread list \<Rightarrow> thread option" where
  "get_thread i ts = find (\<lambda>t. th_id t = i) ts"

definition count_threads :: "thread list \<Rightarrow> nat" where
  "count_threads ts = length ts"

type_synonym snapshot_table = "(string \<times> snapshot_state) list"

definition upsert_snapshot :: "string \<times> snapshot_state \<Rightarrow> snapshot_table \<Rightarrow> snapshot_table" where
  "upsert_snapshot r tab = upsert_row fst (\<lambda>new _. new) r tab"

definition get_snapshot :: "string \<Rightarrow> snapshot_table \<Rightarrow> snapshot_state option" where
  "get_snapshot i tab = map_option snd (find (\<lambda>r. fst r = i) tab)"

definition empty_snapshot_state :: snapshot_state where
  "empty_snapshot_state =
     \<lparr>ss_thread_updated_at = 0, ss_thread_status = [], ss_turn_id = [], ss_turn_status = [],
      ss_progress_fp = [], ss_progress_sent_at = TEmpty, ss_final_fp = [], ss_completion_fp = [],
      ss_approval_fp = [], ss_reply_fp = [], ss_final_notice_fp = [], ss_tool_document_fp = [],
      ss_rich_live_event_at = TEmpty, ss_poll_at = TEmpty, ss_next_poll_after = TEmpty, ss_compact = None\<rparr>"

definition mark_live_event :: "string \<Rightarrow> time_string \<Rightarrow> snapshot_table \<Rightarrow> snapshot_table" where
  "mark_live_event i at tab =
     (let st = (case get_snapshot i tab of None \<Rightarrow> empty_snapshot_state | Some st \<Rightarrow> st)
      in upsert_snapshot (i, st\<lparr>ss_rich_live_event_at := at\<rparr>) tab)"

section \<open>Bindings and observers\<close>

record thread_binding =
  tb_chat_key :: string
  tb_chat_id :: int
  tb_topic_id :: int
  tb_thread_id :: string
  tb_mode :: string

definition set_binding :: "int \<Rightarrow> int \<Rightarrow> string \<Rightarrow> string \<Rightarrow> thread_binding list \<Rightarrow> thread_binding list" where
  "set_binding chat topic thread mode bs =
     upsert_row tb_chat_key (\<lambda>new old. old\<lparr>tb_thread_id := tb_thread_id new, tb_mode := tb_mode new\<rparr>)
       \<lparr>tb_chat_key = chat_key chat topic, tb_chat_id = chat, tb_topic_id = topic, tb_thread_id = thread,
        tb_mode = mode\<rparr> bs"

definition clear_binding :: "int \<Rightarrow> int \<Rightarrow> thread_binding list \<Rightarrow> thread_binding list" where
  "clear_binding chat topic bs = filter (\<lambda>b. tb_chat_key b \<noteq> chat_key chat topic) bs"

definition get_binding :: "int \<Rightarrow> int \<Rightarrow> thread_binding list \<Rightarrow> thread_binding option" where
  "get_binding chat topic bs = find (\<lambda>b. tb_chat_key b = chat_key chat topic) bs"

record observer_row =
  or_chat_key :: string
  or_chat_id :: int
  or_topic_id :: int
  or_enabled :: bool
  or_updated_at :: instant

definition set_observer_target :: "instant \<Rightarrow> int \<Rightarrow> int \<Rightarrow> bool \<Rightarrow> observer_row list \<Rightarrow> observer_row list" where
  "set_observer_target now chat topic enabled os =
     upsert_row or_chat_key (\<lambda>new old. old\<lparr>or_enabled := or_enabled new, or_updated_at := or_updated_at new\<rparr>)
       \<lparr>or_chat_key = chat_key chat topic, or_chat_id = chat, or_topic_id = topic, or_enabled = enabled,
        or_updated_at = now\<rparr> os"

definition is_observer_target :: "int \<Rightarrow> int \<Rightarrow> observer_row list \<Rightarrow> bool" where
  "is_observer_target chat topic os =
     (case find (\<lambda>r. or_chat_key r = chat_key chat topic) os of None \<Rightarrow> False | Some r \<Rightarrow> or_enabled r)"

definition stamp_key :: "instant \<Rightarrow> int \<times> string" where
  "stamp_key t = (t div second, stamp_fraction t)"

lemma stamp_le_key: "stamp_le a b \<longleftrightarrow> stamp_key a \<le> stamp_key b"
  by (auto simp: stamp_le_def stamp_key_def less_eq_prod_def)

definition list_observer_targets :: "observer_row list \<Rightarrow> observer_row list" where
  "list_observer_targets os = sort_key (\<lambda>r. stamp_key (or_updated_at r)) (filter or_enabled os)"

section \<open>Message routes\<close>

definition route_key :: "message_route \<Rightarrow> int \<times> int \<times> int" where
  "route_key r = (rt_chat_id r, rt_topic_id r, rt_message_id r)"

definition stored_route :: "message_route \<Rightarrow> message_route" where
  "stored_route r =
     r\<lparr>rt_turn_id := blank_to_empty (rt_turn_id r), rt_item_id := blank_to_empty (rt_item_id r),
       rt_event_id := blank_to_empty (rt_event_id r)\<rparr>"

definition put_message_route :: "message_route \<Rightarrow> message_route list \<Rightarrow> message_route list" where
  "put_message_route r rs = filter (\<lambda>x. route_key x \<noteq> route_key r) rs @ [stored_route r]"

definition resolve_message_route :: "int \<Rightarrow> int \<Rightarrow> int \<Rightarrow> message_route list \<Rightarrow> message_route option" where
  "resolve_message_route chat topic message rs = find (\<lambda>r. route_key r = (chat, topic, message)) rs"

text \<open>\<^verbatim>\<open>ORDER BY ... DESC LIMIT 1\<close>: the row with the greatest key.\<close>

fun greatest :: "('r \<Rightarrow> 'k::linorder) \<Rightarrow> 'r list \<Rightarrow> 'r option" where
  "greatest k [] = None"
| "greatest k (r # rs) =
     (case greatest k rs of None \<Rightarrow> Some r | Some s \<Rightarrow> if k s \<le> k r then Some r else Some s)"

definition resolve_message_route_by_event :: "string \<Rightarrow> int \<Rightarrow> int \<Rightarrow> message_route list \<Rightarrow> message_route option" where
  "resolve_message_route_by_event event chat topic rs =
     (let e = trim_space event
      in if e = [] then None
         else greatest rt_message_id
                (filter (\<lambda>r. rt_event_id r = e \<and> rt_chat_id r = chat \<and> rt_topic_id r = topic) rs))"

definition resolve_message_route_by_event_identity ::
  "string \<Rightarrow> string \<Rightarrow> string \<Rightarrow> message_route list \<Rightarrow> message_route option" where
  "resolve_message_route_by_event_identity event thread turn rs =
     (let e = trim_space event; t = trim_space thread; u = trim_space turn
      in if e = [] then None
         else greatest (\<lambda>r. (stamp_key (rt_created_at r), rt_message_id r))
                (filter (\<lambda>r. rt_event_id r = e \<and> (t = [] \<or> rt_thread_id r = t) \<and> (u = [] \<or> rt_turn_id r = u)) rs))"

lemma greatest_None: "greatest k rs = None \<longleftrightarrow> rs = []"
  by (cases rs) (auto split: option.split)

lemma greatest_in:
  assumes "greatest k rs = Some r"
  shows "r \<in> set rs \<and> (\<forall>s\<in>set rs. k s \<le> k r)"
  using assms
proof (induction rs arbitrary: r)
  case (Cons a rs)
  show ?case
  proof (cases "greatest k rs")
    case None
    then show ?thesis using Cons.prems by (simp add: greatest_None)
  next
    case (Some s)
    then show ?thesis using Cons.IH [OF Some] Cons.prems by (auto split: if_splits)
  qed
qed simp

section \<open>Every table keeps the contract\<close>

lemma chat_key_eq: "chat_key c t = chat_key c' t' \<longleftrightarrow> c = c' \<and> t = t'"
  using chat_key_inj by blast

interpretation threads: upsert_table th_id thread_row upsert_thread get_thread
  by unfold_locales (simp_all add: upsert_thread_def get_thread_def find_upsert distinct_upsert)

interpretation snapshots: upsert_table fst id upsert_snapshot "\<lambda>i tab. find (\<lambda>r. fst r = i) tab"
  by unfold_locales (simp_all add: upsert_snapshot_def find_upsert distinct_upsert)

interpretation message_routes: upsert_table route_key stored_route put_message_route
  "\<lambda>k rs. find (\<lambda>r. route_key r = k) rs"
proof unfold_locales
  have key: "route_key (stored_route w) = route_key w" for w by (simp add: route_key_def stored_route_def)
  have gone: "find (\<lambda>r. route_key r = route_key w) (filter (\<lambda>x. route_key x \<noteq> route_key w) rs) = None" for w rs
    by (simp add: find_None_iff)
  show "find (\<lambda>r. route_key r = route_key (stored_route w)) (put_message_route w rs) = Some (stored_route w)" for w rs
    by (simp add: put_message_route_def find_append gone key)
  show "find (\<lambda>r. route_key r = k) (put_message_route w rs) = find (\<lambda>r. route_key r = k) rs"
    if "k \<noteq> route_key (stored_route w)" for k w rs
  proof -
    have "find (\<lambda>r. route_key r = k) (filter (\<lambda>x. route_key x \<noteq> route_key w) rs) = find (\<lambda>r. route_key r = k) rs"
      using that key by (induction rs) auto
    then show ?thesis using that by (simp add: put_message_route_def find_append key split: option.split)
  qed
  show "distinct (map route_key (put_message_route w rs))" if "distinct (map route_key rs)" for w rs
    using that by (auto simp: put_message_route_def key distinct_map inj_on_def)
qed

text \<open>A binding or observer is found for exactly the chat and topic it was set for.\<close>

lemma binding_roundtrip:
  "get_binding c t (set_binding c' t' thread mode bs) =
     (if c = c' \<and> t = t' then
        (case get_binding c t bs of
           None \<Rightarrow> Some \<lparr>tb_chat_key = chat_key c t, tb_chat_id = c, tb_topic_id = t, tb_thread_id = thread, tb_mode = mode\<rparr>
         | Some old \<Rightarrow> Some (old\<lparr>tb_thread_id := thread, tb_mode := mode\<rparr>))
      else get_binding c t bs)"
  by (auto simp: get_binding_def set_binding_def chat_key_eq find_upsert_merge split: option.split)

lemma cleared_binding: "get_binding c t (clear_binding c t bs) = None"
  by (auto simp: get_binding_def clear_binding_def find_None_iff)

lemma live_event_marked:
  "map_option ss_rich_live_event_at (get_snapshot i (mark_live_event i at tab)) = Some at"
  using snapshots.look_put [of "(i, (case get_snapshot i tab of None \<Rightarrow> empty_snapshot_state | Some st \<Rightarrow> st)
      \<lparr>ss_rich_live_event_at := at\<rparr>)" tab]
  by (simp add: get_snapshot_def mark_live_event_def Let_def)

end
