(* ===== verification/Approval_Flow.thy ===== *)
theory Approval_Flow
  imports Approval_Store Delivery_Worker Thread_Store Control Utf8
begin

text \<open>
  The daemon's handling of approval requests (\<^verbatim>\<open>internal/daemon/minimal_approval.go\<close>): the App
  Server asks, the request is stored with its two buttons and delivered, the owner presses a
  button, the answer goes back, and the message is edited. Telegram, the App Server session, the
  registry of projects and the random tokens are the environment. A press is answered in two
  parts, before and after the App Server has the answer, because other transactions run in
  between.
\<close>

section \<open>Texts\<close>

definition text_project :: string where
  "text_project = [CHR 0xED, CHR 0x94, CHR 0x84, CHR 0xEB, CHR 0xA1, CHR 0x9C, CHR 0xEC, CHR 0xA0, CHR 0x9D,
     CHR 0xED, CHR 0x8A, CHR 0xB8, CHR 0x3A, CHR 0x20]"
definition text_request :: string where
  "text_request = [CHR 0xEC, CHR 0x9A, CHR 0x94, CHR 0xEC, CHR 0xB2, CHR 0xAD, CHR 0x3A, CHR 0x20]"
definition text_summary :: string where
  "text_summary = [CHR 0xEC, CHR 0x9A, CHR 0x94, CHR 0xEC, CHR 0x95, CHR 0xBD, CHR 0x3A, CHR 0x20]"
definition button_approve :: string where
  "button_approve = [CHR 0xEC, CHR 0x8A, CHR 0xB9, CHR 0xEC, CHR 0x9D, CHR 0xB8]"
definition button_deny :: string where
  "button_deny = [CHR 0xEA, CHR 0xB1, CHR 0xB0, CHR 0xEB, CHR 0xB6, CHR 0x80]"
definition text_waiting :: string where
  "text_waiting = [CHR 0xEC, CHR 0x8A, CHR 0xB9, CHR 0xEC, CHR 0x9D, CHR 0xB8, CHR 0x20, CHR 0xEB, CHR 0x8C,
     CHR 0x80, CHR 0xEA, CHR 0xB8, CHR 0xB0, CHR 0x20, CHR 0xEC, CHR 0xA4, CHR 0x91]"
definition text_pc_only :: string where
  "text_pc_only = [CHR 0xEC, CHR 0x9D, CHR 0xB4, CHR 0x20, CHR 0xEC, CHR 0x9A, CHR 0x94, CHR 0xEC, CHR 0xB2,
     CHR 0xAD, CHR 0xEC, CHR 0x9D, CHR 0x80, CHR 0x20, CHR 0x50, CHR 0x43, CHR 0xEC, CHR 0x97,
     CHR 0x90, CHR 0xEC, CHR 0x84, CHR 0x9C, CHR 0x20, CHR 0xEC, CHR 0xA7, CHR 0x81, CHR 0xEC,
     CHR 0xA0, CHR 0x91, CHR 0x20, CHR 0xEC, CHR 0x8A, CHR 0xB9, CHR 0xEC, CHR 0x9D, CHR 0xB8,
     CHR 0xED, CHR 0x95, CHR 0x98, CHR 0xEA, CHR 0xB1, CHR 0xB0, CHR 0xEB, CHR 0x82, CHR 0x98,
     CHR 0x20, CHR 0xEA, CHR 0xB1, CHR 0xB0, CHR 0xEB, CHR 0xB6, CHR 0x80, CHR 0xED, CHR 0x95,
     CHR 0xB4, CHR 0xEC, CHR 0x95, CHR 0xBC, CHR 0x20, CHR 0xED, CHR 0x95, CHR 0xA9, CHR 0xEB,
     CHR 0x8B, CHR 0x88, CHR 0xEB, CHR 0x8B, CHR 0xA4, CHR 0x2E]"
definition text_approved :: string where
  "text_approved = [CHR 0xEC, CHR 0x8A, CHR 0xB9, CHR 0xEC, CHR 0x9D, CHR 0xB8, CHR 0xEB, CHR 0x90, CHR 0xA8]"
definition text_denied :: string where
  "text_denied = [CHR 0xEA, CHR 0xB1, CHR 0xB0, CHR 0xEB, CHR 0xB6, CHR 0x80, CHR 0xEB, CHR 0x90, CHR 0xA8]"
definition text_inactive_callback :: string where
  "text_inactive_callback = [CHR 0xEB, CHR 0xB9, CHR 0x84, CHR 0xED, CHR 0x99, CHR 0x9C, CHR 0xEC, CHR 0x84, CHR 0xB1,
     CHR 0x20, CHR 0xEC, CHR 0x9A, CHR 0x94, CHR 0xEC, CHR 0xB2, CHR 0xAD, CHR 0xEC, CHR 0x9E,
     CHR 0x85, CHR 0xEB, CHR 0x8B, CHR 0x88, CHR 0xEB, CHR 0x8B, CHR 0xA4, CHR 0x2E]"
definition label_command :: string where
  "label_command = [CHR 0xEB, CHR 0xAA, CHR 0x85, CHR 0xEB, CHR 0xA0, CHR 0xB9, CHR 0x20, CHR 0xEC, CHR 0x8B,
     CHR 0xA4, CHR 0xED, CHR 0x96, CHR 0x89]"
definition no_command_detail :: string where
  "no_command_detail = [CHR 0xEB, CHR 0xAA, CHR 0x85, CHR 0xEB, CHR 0xA0, CHR 0xB9, CHR 0x20, CHR 0xEC, CHR 0x84,
     CHR 0xB8, CHR 0xEB, CHR 0xB6, CHR 0x80, CHR 0x20, CHR 0xEC, CHR 0xA0, CHR 0x95, CHR 0xEB,
     CHR 0xB3, CHR 0xB4, CHR 0x20, CHR 0xEC, CHR 0x97, CHR 0x86, CHR 0xEC, CHR 0x9D, CHR 0x8C]"
definition label_file_change :: string where
  "label_file_change = [CHR 0xED, CHR 0x8C, CHR 0x8C, CHR 0xEC, CHR 0x9D, CHR 0xBC, CHR 0x20, CHR 0xEB, CHR 0xB3,
     CHR 0x80, CHR 0xEA, CHR 0xB2, CHR 0xBD]"
definition no_file_detail :: string where
  "no_file_detail = [CHR 0xED, CHR 0x8C, CHR 0x8C, CHR 0xEC, CHR 0x9D, CHR 0xBC, CHR 0x20, CHR 0xEB, CHR 0xB3,
     CHR 0x80, CHR 0xEA, CHR 0xB2, CHR 0xBD, CHR 0x20, CHR 0xEC, CHR 0x84, CHR 0xB8, CHR 0xEB,
     CHR 0xB6, CHR 0x80, CHR 0x20, CHR 0xEC, CHR 0xA0, CHR 0x95, CHR 0xEB, CHR 0xB3, CHR 0xB4,
     CHR 0x20, CHR 0xEC, CHR 0x97, CHR 0x86, CHR 0xEC, CHR 0x9D, CHR 0x8C]"
definition label_unknown :: string where
  "label_unknown = [CHR 0xEC, CHR 0x95, CHR 0x8C, CHR 0x20, CHR 0xEC, CHR 0x88, CHR 0x98, CHR 0x20, CHR 0xEC,
     CHR 0x97, CHR 0x86, CHR 0xEB, CHR 0x8A, CHR 0x94, CHR 0x20, CHR 0xEC, CHR 0x9A, CHR 0x94,
     CHR 0xEC, CHR 0xB2, CHR 0xAD]"
definition no_detail :: string where
  "no_detail = [CHR 0xEC, CHR 0x84, CHR 0xB8, CHR 0xEB, CHR 0xB6, CHR 0x80, CHR 0x20, CHR 0xEC, CHR 0xA0,
     CHR 0x95, CHR 0xEB, CHR 0xB3, CHR 0xB4, CHR 0x20, CHR 0xEC, CHR 0x97, CHR 0x86, CHR 0xEC,
     CHR 0x9D, CHR 0x8C]"
definition three_dots :: string where
  "three_dots = [CHR 0xE2, CHR 0x80, CHR 0xA6]"

section \<open>Reading a request\<close>

definition minimal_command_approval_kind :: string where
  "minimal_command_approval_kind = ''item/commandExecution/requestApproval''"
definition minimal_file_approval_kind :: string where
  "minimal_file_approval_kind = ''item/fileChange/requestApproval''"

definition clean_payload_string :: "string \<Rightarrow> string" where
  "clean_payload_string v = (let t = trim_space v in if t = [] \<or> t = ''<nil>'' then [] else t)"

definition payload_string :: "json \<Rightarrow> string" where
  "payload_string v = (if v = JNull then [] else clean_payload_string (fmt_v v))"

definition payload_map_string :: "jmap \<Rightarrow> string \<Rightarrow> string" where
  "payload_map_string m k = payload_string (jget m k)"

fun first_non_empty :: "string list \<Rightarrow> string" where
  "first_non_empty [] = []"
| "first_non_empty (v # vs) = (let t = clean_payload_string v in if t \<noteq> [] then t else first_non_empty vs)"

definition float_equals :: "float64 \<Rightarrow> int \<Rightarrow> bool" where
  "float_equals x n \<longleftrightarrow>
     (if 0 \<le> f_exp x then f_mant x * 2 ^ nat (f_exp x) = n else f_mant x = n * 2 ^ nat (- f_exp x))"

definition minimal_rpc_id :: "json \<Rightarrow> string" where
  "minimal_rpc_id v =
     (case v of
        JStr s \<Rightarrow> trim_space s
      | JNum x \<Rightarrow> if float_equals x (int64_value v) then itoa (int64_value v) else []
      | _ \<Rightarrow> [])"

definition minimal_worker_callback_identity :: "string \<Rightarrow> bool" where
  "minimal_worker_callback_identity identity \<longleftrightarrow> has_prefix (trim_space identity) ''minimal-link-worker:''"

definition minimal_approval_event_id :: "string \<Rightarrow> string \<Rightarrow> string \<Rightarrow> string \<Rightarrow> string" where
  "minimal_approval_event_id request_id thread turn kind =
     digest_id ''minimal-approval:'' [request_id, thread, turn, kind]"

definition minimal_poll_only_approval_event_id :: "string \<Rightarrow> string \<Rightarrow> string" where
  "minimal_poll_only_approval_event_id thread turn = digest_id ''minimal-pc-approval:'' [thread, turn]"

definition minimal_approval_summary_runes :: nat where "minimal_approval_summary_runes = 300"

definition bounded_minimal_approval_summary :: "string \<Rightarrow> string \<Rightarrow> string" where
  "bounded_minimal_approval_summary v fallback =
     (let t = join '' '' (Go_Strings.fields (trim_space v)); u = (if t = [] then fallback else t); rs = runes u
      in if minimal_approval_summary_runes < length rs
         then of_runes (take (minimal_approval_summary_runes - 1) rs) @ three_dots
         else u)"

definition minimal_approval_presentation :: "string \<Rightarrow> jmap \<Rightarrow> string \<times> string" where
  "minimal_approval_presentation kind params =
     (if kind = minimal_command_approval_kind
      then (label_command, bounded_minimal_approval_summary (payload_map_string params ''command'') no_command_detail)
      else if kind = minimal_file_approval_kind
      then (label_file_change,
            bounded_minimal_approval_summary
              (let r = payload_map_string params ''reason''
               in if r = [] then payload_map_string params ''grantRoot'' else r) no_file_detail)
      else (label_unknown, no_detail))"

definition minimal_approval_response :: "string \<Rightarrow> string \<Rightarrow> string option" where
  "minimal_approval_response kind action =
     (if action \<noteq> ''deny'' \<and> action \<noteq> ''approve'' then None
      else if kind = minimal_command_approval_kind \<or> kind = minimal_file_approval_kind
      then Some (if action = ''deny'' then ''decline'' else ''accept'')
      else None)"

section \<open>Errors\<close>

text \<open>An error: its text, and whether it is \<^verbatim>\<open>ErrApprovalTransportUnavailable\<close> underneath.\<close>

record go_error =
  ge_text :: string
  ge_unavailable :: bool

definition minimal_approval_request_inactive :: "go_error \<Rightarrow> bool" where
  "minimal_approval_request_inactive e =
     (let m = to_lower (ge_text e)
      in contains m ''not pending in the current session'' \<or> contains m ''already resolved'' \<or>
         contains m ''request is not pending'')"

definition minimal_approval_definitely_unsent :: "go_error \<Rightarrow> bool" where
  "minimal_approval_definitely_unsent e = contains (to_lower (ge_text e)) ''app-server is not running''"

text \<open>\<^verbatim>\<open>strconv.Atoi\<close> fails on more digits than an int holds.\<close>

definition minimal_approval_leading_status_code :: "string \<Rightarrow> int option" where
  "minimal_approval_leading_status_code v =
     (let ds = takeWhile is_digit v
      in if ds = [] then None
         else case parse_int ds of (n, ok) \<Rightarrow> if ok then Some n else None)"

fun telegram_rejection :: "string \<Rightarrow> string list \<Rightarrow> bool" where
  "telegram_rejection message [] = False"
| "telegram_rejection message (p # ps) =
     (if \<not> has_prefix message p then telegram_rejection message ps
      else case minimal_approval_leading_status_code (trim_space (drop (length p) message)) of
             None \<Rightarrow> False
           | Some code \<Rightarrow> 400 \<le> code \<and> code < 500)"

definition minimal_approval_telegram_send_rejection_definitely_unsent :: "go_error \<Rightarrow> bool" where
  "minimal_approval_telegram_send_rejection_definitely_unsent e =
     telegram_rejection (to_lower (trim_space (ge_text e))) [''telegram sendmessage http '', ''telegram sendmessage: '']"

definition minimal_approval_send_definitely_unsent :: "go_error \<Rightarrow> bool" where
  "minimal_approval_send_definitely_unsent e \<longleftrightarrow>
     ge_unavailable e \<or> minimal_approval_definitely_unsent e \<or>
     minimal_approval_telegram_send_rejection_definitely_unsent e"

definition outcome_unknown :: string where "outcome_unknown = ''delivery_outcome=unknown''"

definition minimal_approval_delivery_error_summary :: "string \<Rightarrow> go_error \<Rightarrow> string" where
  "minimal_approval_delivery_error_summary status e =
     (let summary = delivery_error_summary status (Some (ge_text e))
      in if status \<noteq> ''send_error'' then summary
         else summary @ '' '' @ (if minimal_approval_send_definitely_unsent e then definitely_unsent else outcome_unknown))"

section \<open>Environment and state\<close>

record 'w approval_sender =
  as_send :: "int \<Rightarrow> int \<Rightarrow> string \<Rightarrow> button_spec list list \<Rightarrow> 'w \<Rightarrow> (int \<times> go_error option) \<times> 'w"
  as_edit :: "int \<Rightarrow> int \<Rightarrow> int \<Rightarrow> string \<Rightarrow> 'w \<Rightarrow> go_error option \<times> 'w"
  as_delete :: "int \<Rightarrow> int \<Rightarrow> int \<Rightarrow> 'w \<Rightarrow> go_error option \<times> 'w"
  as_commit_error :: "nat \<Rightarrow> 'w \<Rightarrow> string option \<times> 'w"

record 'w flow =
  fl_approvals :: approvals
  fl_world :: 'w
  fl_errors :: "string list"

text \<open>The sessions a press can reach: the linked workers and the live connection.\<close>

record session_registry =
  sr_workers :: "string \<Rightarrow> (string \<times> bool) option"
  sr_has_workers :: bool
  sr_live_identity :: string
  sr_live_ready :: bool

datatype session_ref = WorkerSession string | LiveSession

definition session_for_callback_identity :: "session_registry \<Rightarrow> string \<Rightarrow> string \<Rightarrow> session_ref option" where
  "session_for_callback_identity reg identity0 thread0 =
     (let identity = trim_space identity0; thread = trim_space thread0;
          live = (if identity \<noteq> [] \<and> identity \<noteq> sr_live_identity reg then None
                  else if sr_live_ready reg then Some LiveSession else None)
      in if identity \<noteq> [] \<and> sr_has_workers reg
         then case sr_workers reg identity of
                Some (worker_thread, has_session) \<Rightarrow>
                  (let wt = trim_space worker_thread
                   in if thread \<noteq> [] \<and> wt \<noteq> [] \<and> wt \<noteq> thread then None
                      else if has_session then Some (WorkerSession identity) else None)
              | None \<Rightarrow> if minimal_worker_callback_identity identity then None else live
         else live)"

section \<open>A request arrives\<close>

record approval_config =
  ac_profile :: string
  ac_allowed_user_ids :: "int list"
  ac_allowed_chat_ids :: "int list"
  ac_poll_interval :: duration

definition current_background_target :: "approval_config \<Rightarrow> kv_table \<Rightarrow> observer_target option" where
  "current_background_target cfg kv =
     (let (target, configured) = get_global_observer_target kv;
          solo = (\<lambda>c. Some \<lparr>ot_chat_id = c, ot_topic_id = 0, ot_enabled = True\<rparr>)
      in if configured then target
         else case ac_allowed_user_ids cfg of
                [u] \<Rightarrow> solo u
              | [] \<Rightarrow> (case ac_allowed_chat_ids cfg of [c] \<Rightarrow> solo c | _ \<Rightarrow> None)
              | _ \<Rightarrow> None)"

definition snapshot_for_persistence :: "string \<Rightarrow> snapshot \<Rightarrow> snapshot" where
  "snapshot_for_persistence profile sn =
     (if profile \<noteq> ''minimal'' then sn
      else sn\<lparr>sn_thread := (sn_thread sn)\<lparr>th_title := th_id (sn_thread sn), th_last_preview := [], th_raw := JNull\<rparr>,
              sn_agent_messages := [], sn_agent_entries := [], sn_progress_text := [], sn_user_text := [],
              sn_final_text := [], sn_tool_label := [], sn_tool_output := [], sn_plan_prompt := None,
              sn_detail_items := []\<rparr>)"

definition remember_bridge_owned_approval_snapshot ::
  "approval_config \<Rightarrow> instant \<Rightarrow> snapshot \<Rightarrow> snapshot_table \<Rightarrow> snapshot_table" where
  "remember_bridge_owned_approval_snapshot cfg now sn tab =
     (let i = trim_space (th_id (sn_thread sn))
      in if i = [] \<or> trim_space (sn_turn_id sn) = [] \<or> \<not> sn_waiting_on_approval sn then tab
         else upsert_snapshot
           (i, (compact_snapshot now (get_snapshot i tab) (snapshot_for_persistence (ac_profile cfg) sn) now)
                 \<lparr>ss_next_poll_after := TStamp (now + ac_poll_interval cfg)\<rparr>) tab)"

text \<open>What the environment answers while a request is stored.\<close>

record approval_environment =
  ae_thread_read :: "string \<Rightarrow> jmap option"
  ae_live :: bool
  ae_project :: "string \<Rightarrow> string option"
  ae_tokens :: "(string \<times> string) option"

definition approval_request_text :: "string \<Rightarrow> string \<Rightarrow> string \<Rightarrow> string" where
  "approval_request_text project caption summary =
     join [CHR 0x0A] [text_project @ project, text_request @ caption, text_summary @ summary]"

definition approval_request_seed ::
  "(delivery_payload \<Rightarrow> string) \<Rightarrow> instant \<Rightarrow> observer_target \<Rightarrow> string \<Rightarrow> string \<Rightarrow> string \<Rightarrow> string \<Rightarrow> string \<Rightarrow>
   string \<Rightarrow> string \<Rightarrow> string \<times> string \<Rightarrow> string \<Rightarrow> approval_seed" where
  "approval_request_seed enc now target request_id stored_wire thread turn kind project session tokens body =
     \<lparr>sd_approval =
        \<lparr>ma_request_id = request_id, ma_wire_request_id = stored_wire, ma_thread_id = thread, ma_turn_id = turn,
         ma_request_kind = kind, ma_project_name = project, ma_session_identity = session,
         ma_supersede_event_id = [], ma_status = approval_pending, ma_claim_state = ClaimIdle,
         ma_claim_action = None, ma_chat_id = 0, ma_topic_id = 0, ma_message_id = 0, ma_queue_id = 0,
         ma_updated_at = now\<rparr>,
      sd_approve_token = fst tokens, sd_deny_token = snd tokens,
      sd_delivery =
        (approval_item (minimal_approval_event_id request_id thread turn kind) (ot_chat_id target)
           (ot_topic_id target) thread minimal_approval_kind)
        \<lparr>qi_available_at := Some now,
         qi_payload := enc \<lparr>dp_mode = [], dp_text = body, dp_thread_id = thread, dp_turn_id = turn,
           dp_item_id = [], dp_event_id = request_id, dp_message_id = 0,
           dp_buttons = [[\<lparr>bs_text = button_approve, bs_callback_data = fst tokens\<rparr>,
                          \<lparr>bs_text = button_deny, bs_callback_data = snd tokens\<rparr>]],
           dp_rendered = None\<rparr>\<rparr>,
      sd_supersede_event_id = minimal_poll_only_approval_event_id thread turn\<rparr>"

definition store_approval_request ::
  "approval_config \<Rightarrow> approval_environment \<Rightarrow> (delivery_payload \<Rightarrow> string) \<Rightarrow> protector option \<Rightarrow> instant \<Rightarrow> kv_table \<Rightarrow>
   string \<Rightarrow> jmap \<Rightarrow> string \<Rightarrow> string \<Rightarrow> string \<Rightarrow> string \<Rightarrow> string \<Rightarrow> approvals \<times> snapshot_table \<Rightarrow> approvals \<times> snapshot_table" where
  "store_approval_request cfg env enc prot now kv kind params session request_id stored_wire thread turn st =
     (case ae_thread_read env thread of
        None \<Rightarrow> st
      | Some payload \<Rightarrow>
         (let sn0 = snapshot_from_thread_read payload; sn = sn0\<lparr>sn_waiting_on_approval := True\<rparr>
          in if trim_space (th_id (sn_thread sn0)) \<noteq> thread \<or> trim_space (sn_turn_id sn0) \<noteq> turn then st
             else case (ae_project env (th_cwd (sn_thread sn0)), current_background_target cfg kv, ae_tokens env) of
                    (Some project, Some target, Some tokens) \<Rightarrow>
                      if \<not> ot_enabled target then st
                      else let (caption, summary) = minimal_approval_presentation kind params;
                               (res, av) = create_minimal_approval enc prot now
                                 (approval_request_seed enc now target request_id stored_wire thread turn kind project
                                    session tokens (approval_request_text project caption summary)) (fst st)
                           in (case res of
                                 Inl _ \<Rightarrow> (av, snd st)
                               | Inr _ \<Rightarrow> (av, remember_bridge_owned_approval_snapshot cfg now sn (snd st)))
                  | _ \<Rightarrow> st))"

definition handle_minimal_approval_server_request ::
  "approval_config \<Rightarrow> approval_environment \<Rightarrow> (delivery_payload \<Rightarrow> string) \<Rightarrow> protector option \<Rightarrow> instant \<Rightarrow> kv_table \<Rightarrow>
   string \<Rightarrow> event \<Rightarrow> approvals \<times> snapshot_table \<Rightarrow> bool \<times> approvals \<times> snapshot_table" where
  "handle_minimal_approval_server_request cfg env enc prot now kv session0 ev st =
     (let m = trim_space (ev_method ev)
      in if ac_profile cfg \<noteq> ''minimal'' \<or> ev_channel ev \<noteq> ''server_request'' then (False, st)
         else if contains (to_lower m) ''requestuserinput'' then (False, st)
         else if m \<noteq> minimal_command_approval_kind \<and> m \<noteq> minimal_file_approval_kind
         then (contains (to_lower m) ''approval'', st)
         else let wire0 = minimal_rpc_id (ev_id ev);
                  thread = trim_space (payload_map_string (ev_params ev) ''threadId'');
                  turn = trim_space (payload_map_string (ev_params ev) ''turnId'');
                  session = trim_space session0;
                  (request_id, wire, stored_wire) =
                    (if minimal_worker_callback_identity session
                     then (case normalize_request_identity session wire0 wire0 of (r, w) \<Rightarrow> (r, w, w))
                     else (wire0, wire0, []))
              in if request_id = [] \<or> wire = [] \<or> thread = [] \<or> turn = [] \<or> session = [] \<or> \<not> ae_live env
                 then (True, st)
                 else (True, store_approval_request cfg env enc prot now kv m (ev_params ev) session request_id
                         stored_wire thread turn st))"

section \<open>A press is answered\<close>

datatype callback_error =
    CallbackConsumed | CallbackMismatch | TransportUnavailable | ResponderError go_error
  | CallbackStore approval_error

record callback_response =
  cr_text :: string
  cr_callback_text :: string
  cr_thread_id :: string
  cr_turn_id :: string

text \<open>The answer for the App Server: the request as it knows it, its kind and the decision.\<close>

record server_answer =
  sa_session :: session_ref
  sa_request_id :: string
  sa_thread_id :: string
  sa_turn_id :: string
  sa_kind :: string
  sa_decision :: string

definition answer_of :: "session_ref \<Rightarrow> minimal_approval_route \<Rightarrow> string \<Rightarrow> server_answer" where
  "answer_of ref route decision =
     (let b = mr_button route
      in \<lparr>sa_session = ref, sa_request_id = first_non_empty [mr_wire_request_id route, ab_request_id b],
          sa_thread_id = ab_thread_id b, sa_turn_id = ab_turn_id b, sa_kind = ab_request_kind b,
          sa_decision = decision\<rparr>)"

text \<open>Before the answer: the claim, and what gives it back when there is no way to answer.\<close>

definition begin_minimal_approval_callback ::
  "session_registry \<Rightarrow> (session_ref \<Rightarrow> bool) \<Rightarrow> instant \<Rightarrow> int \<Rightarrow> int \<Rightarrow> int \<Rightarrow> minimal_approval_route option \<Rightarrow> approvals \<Rightarrow>
   (callback_error + minimal_approval_route \<times> server_answer) \<times> approvals" where
  "begin_minimal_approval_callback reg exact now chat topic message existing av =
     (case existing of
        None \<Rightarrow> (Inl CallbackConsumed, av)
      | Some ex \<Rightarrow>
          if ab_status (mr_button ex) \<noteq> ButtonActive then (Inl CallbackConsumed, av)
          else case claim_minimal_approval now (ab_token (mr_button ex)) chat topic message
                      (trim_space (mr_session_identity ex)) av of
            (Inl e, av1) \<Rightarrow> (Inl (CallbackStore e), av1)
          | (Inr (None, False), av1) \<Rightarrow> (Inl CallbackConsumed, av1)
          | (Inr (Some route, False), av1) \<Rightarrow>
              (Inl (if ab_status (mr_button route) \<noteq> ButtonActive then CallbackConsumed else CallbackMismatch), av1)
          | (Inr (None, True), av1) \<Rightarrow> (Inl CallbackConsumed, av1)
          | (Inr (Some route, True), av1) \<Rightarrow>
             (let b = mr_button route; i = ab_request_id b; session = mr_session_identity route;
                  give_back = snd (restore_minimal_approval_claim now i (ab_action b) av1)
              in case session_for_callback_identity reg session (ab_thread_id b) of
                   None \<Rightarrow>
                     (Inl (if session \<noteq> [] \<and> \<not> minimal_worker_callback_identity session then CallbackMismatch
                           else TransportUnavailable), give_back)
                 | Some ref \<Rightarrow>
                    (case minimal_approval_response (ab_request_kind b) (ab_action b) of
                       None \<Rightarrow> (Inl CallbackMismatch,
                                snd (finish_minimal_approval_claim now i (ab_action b) ''cancelled'' av1))
                     | Some decision \<Rightarrow>
                         if \<not> exact ref then (Inl TransportUnavailable, give_back)
                         else (Inr (route, answer_of ref route decision), av1))))"

definition edit_minimal_approval_target ::
  "'w approval_sender option \<Rightarrow> int \<Rightarrow> int \<Rightarrow> int \<Rightarrow> string \<Rightarrow> 'w \<Rightarrow> go_error option \<times> 'w" where
  "edit_minimal_approval_target sender chat topic message body w =
     (case sender of
        None \<Rightarrow> (Some \<lparr>ge_text = ''telegram sender is unavailable'', ge_unavailable = False\<rparr>, w)
      | Some s \<Rightarrow> as_edit s chat topic message body w)"

definition edit_minimal_approval_message ::
  "'w approval_sender option \<Rightarrow> string \<Rightarrow> string \<Rightarrow> approvals \<Rightarrow> 'w \<Rightarrow> go_error option \<times> 'w" where
  "edit_minimal_approval_message sender i body av w =
     (case get_minimal_approval i av of
        None \<Rightarrow> (None, w)
      | Some a \<Rightarrow>
          if ma_chat_id a = 0 \<or> ma_message_id a \<le> 0 then (None, w)
          else edit_minimal_approval_target sender (ma_chat_id a) (ma_topic_id a) (ma_message_id a) body w)"

definition edit_minimal_approval_route_message ::
  "'w approval_sender option \<Rightarrow> minimal_approval_route \<Rightarrow> string \<Rightarrow> 'w \<Rightarrow> go_error option \<times> 'w" where
  "edit_minimal_approval_route_message sender route body w =
     (let b = mr_button route
      in if ab_chat_id b = 0 \<or> ab_message_id b \<le> 0 then (None, w)
         else edit_minimal_approval_target sender (ab_chat_id b) (ab_topic_id b) (ab_message_id b) body w)"

definition callback_response :: "string \<Rightarrow> callback_response" where
  "callback_response t = \<lparr>cr_text = [], cr_callback_text = t, cr_thread_id = [], cr_turn_id = []\<rparr>"

definition resolved_response :: "minimal_approval_route \<Rightarrow> string \<Rightarrow> callback_response" where
  "resolved_response route t =
     (callback_response t)\<lparr>cr_thread_id := ab_thread_id (mr_button route), cr_turn_id := ab_turn_id (mr_button route)\<rparr>"

text \<open>After the answer failed: the three ways a claim ends without a decision.\<close>

definition answer_failed ::
  "'w approval_sender option \<Rightarrow> instant \<Rightarrow> minimal_approval_route \<Rightarrow> go_error \<Rightarrow> approvals \<Rightarrow> 'w \<Rightarrow>
   (callback_error + callback_response) \<times> approvals \<times> 'w" where
  "answer_failed sender now route e av w =
     (let i = ab_request_id (mr_button route); action = ab_action (mr_button route)
      in if minimal_approval_request_inactive e
         then (Inr (callback_response text_inactive_callback),
               snd (finish_minimal_approval_claim now i action ''expired'' av),
               snd (edit_minimal_approval_route_message sender route approval_inactive_text w))
         else if ge_unavailable e \<or> minimal_approval_definitely_unsent e
         then (Inl (ResponderError e), snd (restore_minimal_approval_claim now i action av), w)
         else (Inl (ResponderError e), snd (finish_minimal_approval_claim now i action ''cancelled'' av),
               snd (edit_minimal_approval_route_message sender route approval_unknown_outcome_text w)))"

definition answer_arrived ::
  "(delivery_payload \<Rightarrow> string) \<Rightarrow> protector option \<Rightarrow> 'w approval_sender option \<Rightarrow> instant \<Rightarrow> minimal_approval_route \<Rightarrow>
   approvals \<Rightarrow> 'w \<Rightarrow> (callback_error + callback_response) \<times> approvals \<times> 'w" where
  "answer_arrived enc prot sender now route av w =
     (let i = ab_request_id (mr_button route); action = ab_action (mr_button route);
          denied = action = ''deny''; st = (if denied then ''denied'' else ''approved'');
          resolved = (if denied then text_denied else text_approved)
      in case finish_minimal_approval_claim now i action st av of
           (Inl e, av1) \<Rightarrow>
             (case cancel_minimal_approval_claim_with_inactive_edit enc prot now i action resolved av1 of
                (Inr True, av2) \<Rightarrow> (Inr (resolved_response route resolved), av2, w)
              | (_, av2) \<Rightarrow> (Inl (CallbackStore e), av2, snd (edit_minimal_approval_message sender i resolved av2 w)))
         | (Inr False, av1) \<Rightarrow>
             (case get_minimal_approval i av1 of
                Some a \<Rightarrow>
                  if ma_status a = ''expired''
                  then (Inr (callback_response text_inactive_callback), av1,
                        snd (edit_minimal_approval_message sender i approval_inactive_text av1 w))
                  else (Inl CallbackConsumed, av1, w)
              | None \<Rightarrow> (Inl CallbackConsumed, av1, w))
         | (Inr True, av1) \<Rightarrow>
             (case edit_minimal_approval_message sender i resolved av1 w of
                (Some _, w1) \<Rightarrow> (Inr ((resolved_response route resolved)\<lparr>cr_text := resolved\<rparr>), av1, w1)
              | (None, w1) \<Rightarrow> (Inr (resolved_response route resolved), av1, w1)))"

definition end_minimal_approval_callback ::
  "(delivery_payload \<Rightarrow> string) \<Rightarrow> protector option \<Rightarrow> 'w approval_sender option \<Rightarrow> instant \<Rightarrow> minimal_approval_route \<Rightarrow>
   go_error option \<Rightarrow> approvals \<Rightarrow> 'w \<Rightarrow> (callback_error + callback_response) \<times> approvals \<times> 'w" where
  "end_minimal_approval_callback enc prot sender now route err av w =
     (case err of
        Some e \<Rightarrow> answer_failed sender now route e av w
      | None \<Rightarrow> answer_arrived enc prot sender now route av w)"

text \<open>The whole handler, when nothing else runs while the App Server answers.\<close>

definition handle_minimal_approval_callback ::
  "session_registry \<Rightarrow> (session_ref \<Rightarrow> bool) \<Rightarrow> (server_answer \<Rightarrow> 'w \<Rightarrow> go_error option \<times> 'w) \<Rightarrow>
   (delivery_payload \<Rightarrow> string) \<Rightarrow> protector option \<Rightarrow> 'w approval_sender option \<Rightarrow> instant \<Rightarrow> int \<Rightarrow> int \<Rightarrow> int \<Rightarrow>
   minimal_approval_route option \<Rightarrow> approvals \<Rightarrow> 'w \<Rightarrow> (callback_error + callback_response) \<times> approvals \<times> 'w" where
  "handle_minimal_approval_callback reg exact respond enc prot sender now chat topic message existing av w =
     (case begin_minimal_approval_callback reg exact now chat topic message existing av of
        (Inl e, av1) \<Rightarrow> (Inl e, av1, w)
      | (Inr (route, answer), av1) \<Rightarrow>
          (case respond answer w of
             (err, w1) \<Rightarrow> end_minimal_approval_callback enc prot sender now route err av1 w1))"

section \<open>The App Server reports a request as resolved\<close>

definition approval_of_resolution :: "string \<Rightarrow> string \<Rightarrow> approvals \<Rightarrow> minimal_approval option" where
  "approval_of_resolution wire session av =
     (case (if session \<noteq> [] then get_minimal_approval_for_session wire session av else None) of
        Some a \<Rightarrow> Some a
      | None \<Rightarrow> if minimal_worker_callback_identity session then None else get_minimal_approval wire av)"

definition handle_minimal_approval_resolved ::
  "string \<Rightarrow> 'w approval_sender option \<Rightarrow> instant \<Rightarrow> string \<Rightarrow> event \<Rightarrow> approvals \<Rightarrow> 'w \<Rightarrow> bool \<times> approvals \<times> 'w" where
  "handle_minimal_approval_resolved profile sender now session0 ev av w =
     (let wire = trim_space (payload_map_string (ev_params ev) ''requestId''); session = trim_space session0
      in if profile \<noteq> ''minimal'' \<or> \<not> equal_fold (trim_space (ev_method ev)) ''serverRequest/resolved'' then (False, av, w)
         else if wire = [] then (True, av, w)
         else case approval_of_resolution wire session av of
                None \<Rightarrow> (False, av, w)
              | Some a \<Rightarrow>
                  if session \<noteq> [] \<and> ma_session_identity a \<noteq> [] \<and> ma_session_identity a \<noteq> session then (False, av, w)
                  else (case (if trim_space (ma_session_identity a) \<noteq> []
                              then expire_minimal_approval_for_session now wire (ma_session_identity a) av
                              else expire_minimal_approval now (ma_request_id a) av) of
                          (Inr True, av1) \<Rightarrow>
                            (True, av1, snd (edit_minimal_approval_message sender (ma_request_id a)
                                               approval_inactive_text av1 w))
                        | (_, av1) \<Rightarrow> (True, av1, w)))"

section \<open>Deliveries of approval requests\<close>

text \<open>A failed attempt: recorded, and retried after \<^verbatim>\<open>wait\<close> or given up.\<close>

definition attempt_failed ::
  "protector \<Rightarrow> instant \<Rightarrow> delivery_item \<Rightarrow> string \<Rightarrow> string \<Rightarrow> duration \<Rightarrow> bool \<Rightarrow> approvals \<Rightarrow> approvals" where
  "attempt_failed p now item status summary wait dead av =
     (let attempt = qi_retry_count item + 1
      in av\<lparr>av_outbox := snd (fail_delivery (Some p) (qi_id item) attempt (now + wait) summary dead
              (record_delivery_attempt (qi_id item) attempt status summary (av_outbox av)))\<rparr>)"

definition attempt_failed_or_retry ::
  "protector \<Rightarrow> delivery_config \<Rightarrow> instant \<Rightarrow> delivery_item \<Rightarrow> string \<Rightarrow> string \<Rightarrow> approvals \<Rightarrow> approvals" where
  "attempt_failed_or_retry p cfg now item status summary av =
     (let attempt = qi_retry_count item + 1
      in attempt_failed p now item status summary (backoff cfg attempt) (cfg_max_attempts cfg \<le> attempt) av)"

definition attempt_ended :: "delivery_item \<Rightarrow> string \<Rightarrow> approvals \<Rightarrow> approvals" where
  "attempt_ended item status av =
     av\<lparr>av_outbox := record_delivery_attempt (qi_id item) (qi_retry_count item + 1) status [] (av_outbox av)\<rparr>"

definition note_error :: "string \<Rightarrow> 'w flow \<Rightarrow> 'w flow" where
  "note_error summary fl = fl\<lparr>fl_errors := fl_errors fl @ [summary]\<rparr>"

text \<open>\<^verbatim>\<open>CompleteDelivery\<close> and the record of the attempt; a failed commit is retried.\<close>

definition complete_attempt ::
  "'w approval_sender \<Rightarrow> protector \<Rightarrow> delivery_config \<Rightarrow> instant \<Rightarrow> delivery_item \<Rightarrow> string \<Rightarrow> 'w flow \<Rightarrow> 'w flow" where
  "complete_attempt s p cfg now item status fl =
     (case as_commit_error s (qi_id item) (fl_world fl) of
        (Some message, w) \<Rightarrow>
          (let summary = delivery_error_summary ''persist_error'' (Some message)
           in note_error summary (fl\<lparr>fl_world := w, fl_approvals :=
                attempt_failed_or_retry p cfg now item ''persist_error'' summary (fl_approvals fl)\<rparr>))
      | (None, w) \<Rightarrow>
          (let av = fl_approvals fl
           in fl\<lparr>fl_world := w, fl_approvals := attempt_ended item status
                (av\<lparr>av_outbox := complete_delivery (Some p) None (qi_id item) (av_outbox av)\<rparr>)\<rparr>))"

definition process_minimal_approval_delivery ::
  "'w approval_sender \<Rightarrow> (string \<Rightarrow> string + delivery_payload) \<Rightarrow> (delivery_payload \<Rightarrow> string) \<Rightarrow>
   (approval_error \<Rightarrow> string) \<Rightarrow> protector \<Rightarrow> delivery_config \<Rightarrow> instant \<Rightarrow> delivery_item \<Rightarrow> 'w flow \<Rightarrow> 'w flow" where
  "process_minimal_approval_delivery s decode enc err_text p cfg now item fl =
     (let av = fl_approvals fl
      in case decode (qi_payload item) of
        Inl message \<Rightarrow>
          (let summary = delivery_error_summary ''decode_error'' (Some message)
           in note_error summary (fl\<lparr>fl_approvals :=
                attempt_failed p now item ''decode_error'' summary (cfg_retry_base cfg) True av\<rparr>))
      | Inr payload \<Rightarrow>
          if \<not> minimal_approval_delivery_active (qi_id item) (dp_event_id payload) av then fl
          else (case as_send s (qi_chat_id item) (qi_topic_id item) (dp_text payload) (dp_buttons payload) (fl_world fl) of
            ((message_id, err0), w) \<Rightarrow>
              (let err = (if err0 = None \<and> message_id \<le> 0
                          then Some \<lparr>ge_text = ''telegram delivery returned no message id'', ge_unavailable = False\<rparr>
                          else err0)
               in case err of
                 Some e \<Rightarrow>
                   (let summary = minimal_approval_delivery_error_summary ''send_error'' e
                    in note_error summary (fl\<lparr>fl_world := w, fl_approvals :=
                         attempt_failed_or_retry p cfg now item ''send_error'' summary av\<rparr>))
               | None \<Rightarrow>
                  (case complete_minimal_approval_delivery enc (Some p) now (qi_id item) (dp_event_id payload)
                          (qi_chat_id item) (qi_topic_id item) message_id av of
                     (Inl e, av1) \<Rightarrow>
                       (let summary = delivery_error_summary ''persist_error'' (Some (err_text e));
                            av2 = snd (expire_minimal_approval now (dp_event_id payload) av1);
                            w1 = snd (as_edit s (qi_chat_id item) (qi_topic_id item) message_id approval_inactive_text w)
                        in note_error summary (fl\<lparr>fl_world := w1, fl_approvals :=
                             attempt_failed p now item ''persist_error'' summary 0 True av2\<rparr>))
                   | (Inr _, av1) \<Rightarrow> fl\<lparr>fl_world := w, fl_approvals := attempt_ended item ''delivered'' av1\<rparr>))))"

definition pc_cleanup_route :: "delivery_item \<Rightarrow> delivery_payload \<Rightarrow> message_route list \<Rightarrow> message_route option" where
  "pc_cleanup_route item payload rts =
     (if 0 < dp_message_id payload
      then resolve_message_route (qi_chat_id item) (qi_topic_id item) (dp_message_id payload) rts
      else resolve_message_route_by_event_identity (dp_event_id payload) (dp_thread_id payload) (dp_turn_id payload) rts)"

definition cleanup_incomplete :: string where "cleanup_incomplete = ''minimal approval PC cleanup is incomplete''"
definition edit_incomplete :: string where "edit_incomplete = ''minimal approval inactive edit is incomplete''"

text \<open>A payload the handler cannot use: the decoding failed, or a field is missing.\<close>

definition give_up ::
  "protector \<Rightarrow> instant \<Rightarrow> delivery_item \<Rightarrow> string \<Rightarrow> 'w flow \<Rightarrow> 'w flow" where
  "give_up p now item message fl =
     (let summary = delivery_error_summary ''decode_error'' (Some message)
      in note_error summary (fl\<lparr>fl_approvals :=
           attempt_failed p now item ''decode_error'' summary 0 True (fl_approvals fl)\<rparr>))"

definition process_minimal_approval_pc_cleanup ::
  "'w approval_sender \<Rightarrow> (string \<Rightarrow> string + delivery_payload) \<Rightarrow> protector \<Rightarrow> delivery_config \<Rightarrow> instant \<Rightarrow>
   delivery_item \<Rightarrow> 'w flow \<Rightarrow> 'w flow" where
  "process_minimal_approval_pc_cleanup s decode p cfg now item fl =
     (let av = fl_approvals fl
      in case decode (qi_payload item) of
        Inl message \<Rightarrow> give_up p now item message fl
      | Inr payload \<Rightarrow>
          if dp_mode payload \<noteq> ''delete_message'' \<or> trim_space (dp_event_id payload) = []
          then give_up p now item cleanup_incomplete fl
          else (case pc_cleanup_route item payload (ob_routes (av_outbox av)) of
            None \<Rightarrow> complete_attempt s p cfg now item ''terminal'' fl
          | Some rt \<Rightarrow>
              if rt_message_id rt \<le> 0 \<or> trim_space (rt_event_id rt) \<noteq> dp_event_id payload
              then complete_attempt s p cfg now item ''terminal'' fl
              else (case minimal_approval_pc_cleanup_ready (dp_item_id payload) (dp_thread_id payload)
                          (dp_turn_id payload) (dp_event_id payload) av of
                 (_, True) \<Rightarrow> complete_attempt s p cfg now item ''terminal'' fl
               | (False, False) \<Rightarrow>
                   fl\<lparr>fl_approvals := attempt_failed_or_retry p cfg now item ''action_route_wait''
                        ''minimal approval actionable route is not durable yet'' av\<rparr>
               | (True, False) \<Rightarrow>
                  (case as_delete s (rt_chat_id rt) (rt_topic_id rt) (rt_message_id rt) (fl_world fl) of
                     (Some e, w) \<Rightarrow>
                       (let summary = delivery_error_summary ''send_error'' (Some (ge_text e))
                        in note_error summary (fl\<lparr>fl_world := w, fl_approvals :=
                             attempt_failed_or_retry p cfg now item ''send_error'' summary av\<rparr>))
                   | (None, w) \<Rightarrow> complete_attempt s p cfg now item ''delivered'' (fl\<lparr>fl_world := w\<rparr>)))))"

definition process_minimal_approval_inactive_edit ::
  "'w approval_sender \<Rightarrow> (string \<Rightarrow> string + delivery_payload) \<Rightarrow> protector \<Rightarrow> delivery_config \<Rightarrow> instant \<Rightarrow>
   delivery_item \<Rightarrow> 'w flow \<Rightarrow> 'w flow" where
  "process_minimal_approval_inactive_edit s decode p cfg now item fl =
     (case decode (qi_payload item) of
        Inl message \<Rightarrow> give_up p now item message fl
      | Inr payload \<Rightarrow>
          if dp_mode payload \<noteq> ''edit'' \<or> dp_message_id payload \<le> 0 \<or> trim_space (dp_text payload) = []
          then give_up p now item edit_incomplete fl
          else (case as_edit s (qi_chat_id item) (qi_topic_id item) (dp_message_id payload) (dp_text payload) (fl_world fl) of
            (Some e, w) \<Rightarrow>
              (let summary = delivery_error_summary ''send_error'' (Some (ge_text e))
               in note_error summary (fl\<lparr>fl_world := w, fl_approvals :=
                    attempt_failed_or_retry p cfg now item ''send_error'' summary (fl_approvals fl)\<rparr>))
          | (None, w) \<Rightarrow> complete_attempt s p cfg now item ''delivered'' (fl\<lparr>fl_world := w\<rparr>)))"

text \<open>The dispatch of the batch loop, as the parameter \<^verbatim>\<open>approval\<close> of \<^verbatim>\<open>process_item\<close> stands for it.\<close>

definition process_approval_item ::
  "'w approval_sender \<Rightarrow> (string \<Rightarrow> string + delivery_payload) \<Rightarrow> (delivery_payload \<Rightarrow> string) \<Rightarrow>
   (approval_error \<Rightarrow> string) \<Rightarrow> protector \<Rightarrow> delivery_config \<Rightarrow> instant \<Rightarrow> delivery_item \<Rightarrow> 'w flow \<Rightarrow> 'w flow" where
  "process_approval_item s decode enc err_text p cfg now item fl =
     (if qi_kind item = minimal_approval_kind
      then process_minimal_approval_delivery s decode enc err_text p cfg now item fl
      else if qi_kind item = ''minimal_approval_pc_cleanup''
      then process_minimal_approval_pc_cleanup s decode p cfg now item fl
      else process_minimal_approval_inactive_edit s decode p cfg now item fl)"

end
