(* ===== verification/Approval_System.thy ===== *)
theory Approval_System
  imports Approval_Decisions Approval_Flow
begin

text \<open>
  The approval flow as a state machine: owners press buttons, the App Server answers or does not,
  and every other transaction of the store runs in between. A press has two steps, before and
  after the App Server has the answer, because the daemon holds no transaction while it waits. The
  answers that may have reached the App Server are kept in the state; the theorems are about them.
\<close>

section \<open>The ids of the requests\<close>

definition request_ids :: "approvals \<Rightarrow> string set" where
  "request_ids av = ma_request_id ` set (av_rows av)"

lemma request_ids_frame: "av_rows av' = av_rows av \<Longrightarrow> request_ids av' = request_ids av"
  by (simp add: request_ids_def)

lemma request_ids_update:
  assumes "av_rows av' = update_rows q f (av_rows av)" "\<And>a. ma_request_id (f a) = ma_request_id a"
  shows "request_ids av' = request_ids av"
proof -
  have "map ma_request_id (av_rows av') = map ma_request_id (av_rows av)"
    using assms by (simp add: map_update_rows)
  then show ?thesis unfolding request_ids_def by (metis set_map)
qed

lemma request_ids_settled:
  assumes "settle_request q f st st' i av = Inr (Some av')" "\<And>a. ma_request_id (f a) = ma_request_id a"
  shows "request_ids av' = request_ids av"
  by (rule request_ids_update [OF _ assms(2), where q = q]) (simp add: settle_requestD(3) [OF assms(1)])

lemma request_ids_committed:
  assumes "\<And>av'. res = Inr (Some av') \<Longrightarrow> request_ids av' = request_ids av"
  shows "request_ids (snd (commit_settled av res)) = request_ids av"
  using assms by (auto simp: commit_settled_def split: sum.split option.split)

lemma request_ids_expired: "request_ids (snd (expire_resolved now resolved av)) = request_ids av"
proof (cases resolved)
  case (Some i)
  have "request_ids av2 = request_ids av"
    if r: "(case settle_request (idle_request i) (\<lambda>a. a\<lparr>ma_status := ''expired'', ma_updated_at := now\<rparr>)
          ButtonActive ButtonExpired i av of
        Inr (Some av') \<Rightarrow> Inr (Some (kill_deliveries (q av') av')) | res \<Rightarrow> res) = Inr (Some av2)" for q av2
  proof -
    obtain av1 where s: "settle_request (idle_request i) (\<lambda>a. a\<lparr>ma_status := ''expired'', ma_updated_at := now\<rparr>)
        ButtonActive ButtonExpired i av = Inr (Some av1)" and av2: "av2 = kill_deliveries (q av1) av1"
      using r by (auto split: sum.splits option.splits)
    show ?thesis using request_ids_settled [OF s] by (simp add: av2 request_ids_frame [of "kill_deliveries (q av1) av1" av1])
  qed
  then show ?thesis unfolding expire_resolved_def Some option.case by (rule request_ids_committed)
qed (simp add: expire_resolved_def)

lemma request_ids_finished: "request_ids (snd (finish_minimal_approval_claim now r action st av)) = request_ids av"
  by (auto simp: finish_minimal_approval_claim_def free_claim_def
      intro!: request_ids_committed request_ids_settled split: option.split)

lemma request_ids_restored: "request_ids (snd (restore_minimal_approval_claim now r action av)) = request_ids av"
  by (auto simp: restore_minimal_approval_claim_def free_claim_def
      intro!: request_ids_committed request_ids_settled split: option.split)

lemma request_ids_cancelled:
  "request_ids (snd (cancel_minimal_approval_claim_with_inactive_edit enc prot now r action txt av)) = request_ids av"
proof -
  have "request_ids av2 = request_ids av"
    if s: "settle_request (claimed_request i action) (free_claim ''cancelled'' now) ButtonClaimed ButtonConsumed i av
        = Inr (Some av1)" and e: "enqueue_minimal_approval_inactive_edit enc p now a txt av1 = Inr av2" for i p a av1 av2
    using request_ids_settled [OF s] inactive_edit_frame [OF e]
    by (simp add: free_claim_def request_ids_frame [of av2 av1])
  then have "request_ids (snd (commit_settled av
      (case settle_request (claimed_request i action) (free_claim ''cancelled'' now) ButtonClaimed ButtonConsumed i av of
         Inr (Some av1) \<Rightarrow> map_sum id Some (enqueue_minimal_approval_inactive_edit enc p now a txt av1)
       | res \<Rightarrow> res))) = request_ids av" for i p a
    by (intro request_ids_committed) (auto simp: map_sum_Inr split: sum.splits option.splits)
  then show ?thesis
    by (simp add: cancel_minimal_approval_claim_with_inactive_edit_def Let_def split: option.split)
qed

lemma request_ids_recovered: "request_ids (snd (recover_claims enc prot now cs n av)) = request_ids av"
proof (induction enc prot now cs n av rule: recover_claims.induct)
  case (2 enc prot now i action cs n av)
  obtain res av1 where r: "cancel_minimal_approval_claim_with_inactive_edit enc prot now i action
      approval_unknown_outcome_text av = (res, av1)" by (rule prod.exhaust)
  then have "request_ids av1 = request_ids av" by (metis request_ids_cancelled snd_conv)
  then show ?case using 2(1) [OF r [symmetric]] r by (cases res) auto
qed simp

lemma request_ids_session_end:
  "request_ids (snd (expire_minimal_approvals_for_session now session_identity av)) = request_ids av"
proof -
  have "request_ids (snd (expire_minimal_approvals_of_session now i av)) = request_ids av" for i
    by (rule request_ids_update [where q = "\<lambda>a. ma_session_identity a = i \<and> ma_status a = approval_pending"
          and f = "free_claim ''expired'' now"])
      (simp_all add: expire_minimal_approvals_of_session_def Let_def free_claim_def)
  then have "request_ids av1 = request_ids av" if "expire_minimal_approvals_of_session now i av = (n, av1)" for i n av1
    using that by (metis snd_conv)
  then show ?thesis
    by (simp add: expire_minimal_approvals_for_session_def Let_def expire_pending_approvals_for_session_def
        expire_callback_routes_for_session_def request_ids_frame [of "_\<lparr>av_pending := _, av_callbacks := _\<rparr>"]
        split: prod.split)
qed

lemma request_ids_turn_end:
  "request_ids (snd (expire_minimal_approvals_for_thread_turn now thread turn av)) = request_ids av"
proof (cases "trim_space thread = [] \<or> trim_space turn = []")
  case False
  show ?thesis
    by (rule request_ids_update [where q = "\<lambda>a. (ma_thread_id a = trim_space thread \<and> ma_turn_id a = trim_space turn) \<and>
          ma_status a = approval_pending \<and> ma_claim_state a = ClaimIdle"
          and f = "\<lambda>a. a\<lparr>ma_status := ''expired'', ma_updated_at := now\<rparr>"])
      (use False in \<open>simp_all add: expire_minimal_approvals_for_thread_turn_def Let_def\<close>)
qed (auto simp: expire_minimal_approvals_for_thread_turn_def Let_def)

lemma request_ids_taken:
  assumes "request_ids av1 = request_ids av0"
  shows "request_ids (snd (take_claim now route av0 av1)) = request_ids av0"
proof -
  have "request_ids (set_approvals (idle_request i) (\<lambda>a. a\<lparr>ma_claim_state := ClaimTaken, ma_claim_action := x,
      ma_updated_at := now\<rparr>) av1 \<lparr>av_buttons := bs\<rparr>) = request_ids av1" for i x bs
    by (rule request_ids_update [where q = "idle_request i" and f = "\<lambda>a. a\<lparr>ma_claim_state := ClaimTaken,
        ma_claim_action := x, ma_updated_at := now\<rparr>"]) simp_all
  then show ?thesis using assms by (simp add: take_claim_def Let_def mark_two_buttons_def)
qed

lemma request_ids_bound:
  assumes "self_bind chat topic message now b av = Inr (Some av1)"
  shows "request_ids av1 = request_ids av"
  by (rule request_ids_update [where q = "\<lambda>a. idle_request (ab_request_id b) a \<and> ma_message_id a = 0"
        and f = "\<lambda>a. a\<lparr>ma_message_id := message, ma_updated_at := now\<rparr>"])
    (use assms in \<open>auto simp: self_bind_def Let_def mark_two_buttons_def split: if_splits\<close>)

lemma request_ids_claimed:
  "request_ids (snd (claim_minimal_approval now token chat topic message session_identity av)) = request_ids av"
  by (auto simp: claim_minimal_approval_def Let_def request_ids_taken dest: request_ids_bound
      split: option.split sum.split)

lemma request_ids_completed:
  "request_ids (snd (complete_minimal_approval_delivery enc prot now queue_id r chat topic message av)) = request_ids av"
proof -
  have "request_ids av2 = request_ids av"
    if b: "bind_delivered_approval queue_id i chat topic message now av = Inr av1"
      and c: "enqueue_minimal_approval_pc_cleanup enc prot now a
            (mark_delivered queue_id (bind_message_route chat topic message t u i now av1)) = Inr av2" for i a t u av1 av2
  proof -
    let ?f = "\<lambda>a. a\<lparr>ma_chat_id := chat, ma_topic_id := topic, ma_message_id := message, ma_updated_at := now\<rparr>"
    have "av_rows av2 = update_rows (\<lambda>a. ma_request_id a = i) ?f (av_rows av)"
      using mark_two_buttons_result(2) [OF b [unfolded bind_delivered_approval_def]]
        c cleanup_frame [of enc prot now a _ _ "mark_delivered queue_id (bind_message_route chat topic message t u i now av1)" av2]
      by (auto simp: enqueue_minimal_approval_pc_cleanup_def Let_def split: if_splits)
    then show ?thesis by (rule request_ids_update) simp
  qed
  then show ?thesis by (auto simp: complete_minimal_approval_delivery_def split: option.split sum.split)
qed

lemma request_ids_published:
  assumes "publish_minimal_approval now seed protected av = Inr av'"
  shows "request_ids av' = request_ids av"
  using published_rows [OF assms] by (elim exE) (rule request_ids_update, assumption, simp)

lemma request_ids_rearmed:
  assumes "rearm_minimal_approval_delivery_if_dead now a seed protected av = Inr av'"
  shows "request_ids av' = request_ids av"
proof (rule request_ids_frame)
  show "av_rows av' = av_rows av"
    using assms mark_two_buttons_result(2) [of "button_open (ma_request_id a)" "mark_button ButtonExpired" av]
      insert_routes_result(1) [of seed]
    by (fastforce simp: rearm_minimal_approval_delivery_if_dead_def Let_def split: if_splits option.splits sum.splits)
qed

lemma request_ids_replayed: "request_ids (snd (replay_minimal_approval now seed protected a av)) = request_ids av"
proof -
  let ?f = "\<lambda>x. x\<lparr>ma_wire_request_id := ma_wire_request_id (sd_approval seed),
      ma_session_identity := ma_session_identity (sd_approval seed),
      ma_supersede_event_id := sd_supersede_event_id seed, ma_updated_at := now\<rparr>"
  have "request_ids (set_approvals (pending_request (ma_request_id a)) ?f av) = request_ids av"
    by (rule request_ids_update [where q = "pending_request (ma_request_id a)" and f = ?f]) simp_all
  then show ?thesis
    by (auto simp: replay_minimal_approval_def request_ids_frame [of "kill_deliveries _ av" av]
        dest: request_ids_rearmed split: sum.split)
qed

lemma request_ids_created:
  assumes "approvals_ok av"
  shows "request_ids (snd (create_minimal_approval enc prot now seed0 av)) \<subseteq>
    insert (ma_request_id (sd_approval (normalized_seed seed0))) (request_ids av)"
proof -
  let ?seed = "normalized_seed seed0" let ?i = "ma_request_id (sd_approval ?seed)"
  have id: "ma_request_id (fresh_approval now ?seed) = ?i" by (simp add: fresh_approval_def)
  have new: "request_ids (av\<lparr>av_rows := av_rows av @ [fresh_approval now ?seed]\<rparr>) \<subseteq> insert ?i (request_ids av)"
    by (auto simp: request_ids_def id)
  have replaced: "x = ?i"
    if f: "find_approval ?i av = Some a" and r: "retire_minimal_approval enc p now a av = Inr av1"
      and x: "x \<in> request_ids (set_approvals (\<lambda>x. ma_request_id x = ?i) (\<lambda>_. fresh_approval now ?seed) av1)"
        "x \<notin> request_ids av" for a p av1 x
    using retired(3) [OF assms _ r] find_key_in [OF f [unfolded find_approval_def]] x
    by (auto simp: request_ids_def set_update_rows id)
  show ?thesis
    using new request_ids_replayed
    by (auto simp: create_minimal_approval_def Let_def commit_created_def dest!: request_ids_published dest: replaced
        split: option.split sum.split)
qed

lemma trim_marks: "s \<noteq> [] \<Longrightarrow> (\<And>c. c \<in> set s \<Longrightarrow> ascii_mark c) \<Longrightarrow> trim_space s = s"
  by (simp add: trim_space_ascii)

lemma trim_scoped: "trim_space (scoped_request_id s w) = scoped_request_id s w"
proof -
  have "trim_space (''scoped-request:'' @ hex_string bs) = ''scoped-request:'' @ hex_string bs" for bs
    by (rule trim_marks) (auto simp: ascii_mark_def dest: hex_string_mark)
  then show ?thesis by (simp add: scoped_request_id_def Let_def)
qed

lemma normalized_id_trimmed:
  "trim_space (ma_request_id (sd_approval (normalized_seed seed))) = ma_request_id (sd_approval (normalized_seed seed))"
  by (auto simp: normalized_seed_def normalize_request_identity_def Let_def trim_scoped split: prod.split)

definition trimmed_ids :: "approvals \<Rightarrow> bool" where
  "trimmed_ids av \<longleftrightarrow> (\<forall>i\<in>request_ids av. trim_space i = i)"

lemma trimmed_step:
  assumes "approval_step enc p av op av'" "approvals_ok av" "trimmed_ids av"
  shows "trimmed_ids av'"
  using assms
proof (induction rule: approval_step.induct)
  case (create seed a av now)
  then show ?case using request_ids_created [of av enc "Some p" now seed] normalized_id_trimmed [of seed]
    by (auto simp: trimmed_ids_def)
qed (simp_all add: trimmed_ids_def request_ids_completed request_ids_claimed request_ids_restored request_ids_finished
    request_ids_expired expire_minimal_approval_def expire_minimal_approval_for_session_def request_ids_session_end request_ids_turn_end
    request_ids_cancelled recover_minimal_approval_claims_def request_ids_recovered
    request_ids_frame [of "_\<lparr>av_outbox := _, av_pending := _, av_callbacks := _\<rparr>"])

text \<open>The id of a stored request resolves to itself.\<close>

lemma own_id_resolves:
  assumes "i \<in> request_ids av" "trimmed_ids av"
  shows "resolve_minimal_approval_request_id i av = Some i \<or> i = []"
proof -
  have "find (\<lambda>(r, _, _). r = i) (approval_keys (av_rows av)) \<noteq> None"
    using assms(1) by (auto simp: find_None_iff approval_keys_def request_ids_def)
  moreover have "r = i" if "find (\<lambda>(r, _, _). r = i) ks = Some (r, w, s)" for ks r w s
    using that by (auto simp: find_Some_iff)
  ultimately show ?thesis using assms
    by (auto simp: resolve_minimal_approval_request_id_def resolve_approval_request_id_def Let_def
        resolve_approval_request_id_exact_def trimmed_ids_def split: option.split)
qed

section \<open>What a press does to the tables\<close>

definition route_ident :: "minimal_approval_route \<Rightarrow> string \<times> string \<times> string \<times> string" where
  "route_ident r =
     (ab_request_id (mr_button r), ab_thread_id (mr_button r), ab_turn_id (mr_button r), ab_request_kind (mr_button r))"

lemma begin_result:
  assumes "begin_minimal_approval_callback reg exact now chat topic message existing av = (res, av')"
  obtains
    (refused) e where "res = Inl e" "av' = av"
  | (lost) e token s where "res = Inl e" "av' = snd (claim_minimal_approval now token chat topic message s av)"
  | (returned) e token s route av1 where "res = Inl e"
      "claim_minimal_approval now token chat topic message s av = (Inr (Some route, True), av1)"
      "av' = snd (restore_minimal_approval_claim now (ab_request_id (mr_button route)) (ab_action (mr_button route)) av1)"
  | (ended) e token s route av1 where "res = Inl e"
      "claim_minimal_approval now token chat topic message s av = (Inr (Some route, True), av1)"
      "av' = snd (finish_minimal_approval_claim now (ab_request_id (mr_button route)) (ab_action (mr_button route))
         ''cancelled'' av1)"
  | (answering) ex route ref decision where "res = Inr (route, answer_of ref route decision)" "existing = Some ex"
      "claim_minimal_approval now (ab_token (mr_button ex)) chat topic message (trim_space (mr_session_identity ex)) av =
         (Inr (Some route, True), av')"
      "session_for_callback_identity reg (mr_session_identity route) (ab_thread_id (mr_button route)) = Some ref"
      "minimal_approval_response (ab_request_kind (mr_button route)) (ab_action (mr_button route)) = Some decision"
proof (cases existing)
  case None
  then show thesis using assms by (intro refused [of CallbackConsumed]) (simp_all add: begin_minimal_approval_callback_def)
next
  case (Some ex)
  show thesis
  proof (cases "ab_status (mr_button ex) = ButtonActive")
    case False
    then show thesis using assms Some
      by (intro refused [of CallbackConsumed]) (simp_all add: begin_minimal_approval_callback_def)
  next
    case True
    obtain cres av1 where c: "claim_minimal_approval now (ab_token (mr_button ex)) chat topic message
        (trim_space (mr_session_identity ex)) av = (cres, av1)" by (rule prod.exhaust)
    show thesis
    proof (cases "\<exists>route. cres = Inr (Some route, True)")
      case True
      then obtain route where r: "cres = Inr (Some route, True)" by blast
      show thesis
        using assms Some \<open>ab_status (mr_button ex) = ButtonActive\<close> c [unfolded r] returned [OF _ c [unfolded r]]
          ended [OF _ c [unfolded r]] answering [OF _ Some]
        by (auto simp: begin_minimal_approval_callback_def Let_def split: option.splits if_splits)
    next
      case False
      then have "(\<exists>e. res = Inl e) \<and> av' = av1"
        using assms Some \<open>ab_status (mr_button ex) = ButtonActive\<close> c
        by (auto simp: begin_minimal_approval_callback_def split: sum.splits prod.splits option.splits bool.splits)
      then show thesis using lost c by (metis snd_conv)
    qed
  qed
qed

lemma claimed_id_stored:
  assumes "approvals_ok av"
    "claim_minimal_approval now token chat topic message s av = (Inr (Some route, True), av')"
  shows "ab_request_id (mr_button route) \<in> request_ids av'"
  using claim_takes [OF assms] by (auto simp: request_ids_def request_ident_def) (metis image_eqI)

text \<open>The request of an accepted press was not spent before, and its claim is its own.\<close>

lemma claimed_was_open:
  assumes ok: "approvals_ok av" and sp: "spent x av"
    and c: "claim_minimal_approval now token chat topic message s av = (Inr (Some route, True), av')"
  shows "ab_request_id (mr_button route) \<noteq> fst x"
proof
  assume eq: "ab_request_id (mr_button route) = fst x"
  obtain b where "find_button token av = Some b" "ab_request_id b = fst x"
    using c eq by (elim claim_success) auto
  from spent_not_claimed [OF ok sp this] show False using c by (metis Inr_inject Pair_inject)
qed

lemma restore_own:
  assumes "spent x av" "trimmed_ids av" "i \<in> request_ids av" "i \<noteq> fst x"
  shows "spent x (snd (restore_minimal_approval_claim now i action av))"
proof (cases "resolve_minimal_approval_request_id i av")
  case None
  then show ?thesis using assms(1) by (simp add: restore_minimal_approval_claim_def)
next
  case (Some j)
  then have "j = i" using own_id_resolves [OF assms(3,2)]
    by (auto simp: resolve_minimal_approval_request_id_def resolve_approval_request_id_def)
  then show ?thesis using spent_restored [OF assms(1) Some] assms(4) by simp
qed

lemma arrived_spent:
  assumes "spent x av"
  shows "spent x (fst (snd (answer_arrived enc prot sender now route av w)))"
proof -
  let ?b = "mr_button route"
  define st where "st = (if ab_action ?b = ''deny'' then ''denied'' else ''approved'')"
  obtain res av1 where f: "finish_minimal_approval_claim now (ab_request_id ?b) (ab_action ?b) st av = (res, av1)"
    by (rule prod.exhaust)
  have "st \<noteq> approval_pending" by (simp add: st_def approval_pending_def)
  from spent_finished [OF assms this, of now "ab_request_id ?b" "ab_action ?b"]
  have sp: "spent x av1" using f by simp
  have c: "spent x av2" if "cancel_minimal_approval_claim_with_inactive_edit enc prot now i action t av1 = (r, av2)"
    for i action t r av2
    using spent_cancelled [OF sp, of enc prot now i action t] that by simp
  show ?thesis
    unfolding answer_arrived_def Let_def st_def [symmetric] f prod.case
    by (auto simp: sp c split: sum.split prod.split bool.split option.split)
qed

lemma end_spent:
  assumes "spent x av" "\<And>e. err = Some e \<Longrightarrow> minimal_approval_request_inactive e \<or>
      \<not> (ge_unavailable e \<or> minimal_approval_definitely_unsent e)"
  shows "spent x (fst (snd (end_minimal_approval_callback enc prot sender now route err av w)))"
proof (cases err)
  case (Some e)
  have "spent x (snd (finish_minimal_approval_claim now i action st av))" if "st \<noteq> approval_pending" for i action st
    by (rule spent_finished [OF assms(1) that])
  then show ?thesis using assms(2) [OF Some]
    by (auto simp: Some end_minimal_approval_callback_def answer_failed_def Let_def approval_pending_def)
qed (simp add: end_minimal_approval_callback_def arrived_spent assms(1))

section \<open>The system\<close>

text \<open>
  \<^verbatim>\<open>sy_answers\<close>: the answers handed to the App Server and not reported as unsent, to requests that
  have not been replaced; \<^verbatim>\<open>sy_waiting\<close>: the presses whose outcome the daemon still waits for.
\<close>

record approval_system =
  sy_approvals :: approvals
  sy_answers :: "(minimal_approval_route \<times> server_answer) list"
  sy_waiting :: "minimal_approval_route list"

definition claim_given_back :: "go_error option \<Rightarrow> bool" where
  "claim_given_back err =
     (case err of
        None \<Rightarrow> False
      | Some e \<Rightarrow> \<not> minimal_approval_request_inactive e \<and> (ge_unavailable e \<or> minimal_approval_definitely_unsent e))"

text \<open>
  The other transactions of the daemon. It returns claims only inside a press. The App Server may give
  the id of a request to another one (of another thread, turn or kind), which replaces it in the table;
  it does not while the daemon still waits for the outcome of a press of the first.
\<close>

definition other_work :: "minimal_approval_route list \<Rightarrow> approval_op \<Rightarrow> bool" where
  "other_work waiting op =
     (case op of
        OpRestore i \<Rightarrow> False
      | OpCreate i t u k \<Rightarrow> list_all (\<lambda>r. i = fst (route_ident r) \<longrightarrow> (i, t, u, k) = route_ident r) waiting
      | OpOther \<Rightarrow> True)"

text \<open>The answers to requests that are still the ones stored under their ids.\<close>

definition current_answers ::
  "approvals \<Rightarrow> (minimal_approval_route \<times> server_answer) list \<Rightarrow> (minimal_approval_route \<times> server_answer) list" where
  "current_answers av = filter (\<lambda>(r, _). route_ident r \<in> request_ident ` set (av_rows av))"

inductive system_step ::
  "(delivery_payload \<Rightarrow> string) \<Rightarrow> protector \<Rightarrow> approval_system \<Rightarrow> approval_system \<Rightarrow> bool" for enc p where
  pressed: "begin_minimal_approval_callback reg exact now chat topic message existing (sy_approvals s) =
      (Inr (route, answer), av) \<Longrightarrow>
    system_step enc p s (s\<lparr>sy_approvals := av, sy_answers := sy_answers s @ [(route, answer)],
                           sy_waiting := sy_waiting s @ [route]\<rparr>)"
| refused: "begin_minimal_approval_callback reg exact now chat topic message existing (sy_approvals s) = (Inl e, av) \<Longrightarrow>
    system_step enc p s (s\<lparr>sy_approvals := av\<rparr>)"
| ended: "route \<in> set (sy_waiting s) \<Longrightarrow>
    end_minimal_approval_callback enc (Some p) sender now route err (sy_approvals s) (w :: unit) = (res, av, w') \<Longrightarrow>
    system_step enc p s
      (s\<lparr>sy_approvals := av, sy_waiting := filter (\<lambda>r. r \<noteq> route) (sy_waiting s),
         sy_answers := (if claim_given_back err then filter (\<lambda>(r, _). r \<noteq> route) (sy_answers s) else sy_answers s)\<rparr>)"
| other: "approval_step enc p (sy_approvals s) op av \<Longrightarrow> other_work (sy_waiting s) op \<Longrightarrow>
    system_step enc p s (s\<lparr>sy_approvals := av, sy_answers := current_answers av (sy_answers s)\<rparr>)"
| restarted: "system_step enc p s (s\<lparr>sy_waiting := []\<rparr>)"

inductive system_run :: "(delivery_payload \<Rightarrow> string) \<Rightarrow> protector \<Rightarrow> approval_system \<Rightarrow> approval_system \<Rightarrow> bool"
  for enc p where
  start: "system_run enc p s s"
| step: "system_run enc p s s1 \<Longrightarrow> system_step enc p s1 s2 \<Longrightarrow> system_run enc p s s2"

definition system_start :: approval_system where
  "system_start = \<lparr>sy_approvals = empty_approvals, sy_answers = [], sy_waiting = []\<rparr>"

text \<open>Every part of a press is a sequence of transactions.\<close>

abbreviation any_run :: "(delivery_payload \<Rightarrow> string) \<Rightarrow> protector \<Rightarrow> approvals \<Rightarrow> approvals \<Rightarrow> bool" where
  "any_run enc p \<equiv> approval_run enc p (\<lambda>_. True)"

lemma any_step: "approval_step enc p av op av' \<Longrightarrow> any_run enc p av av'"
  by (rule approval_run.step [OF approval_run.start]) simp_all

lemma run_claim: "any_run enc p av (snd (claim_minimal_approval now token chat topic message s av))"
  by (rule any_step [OF approval_step.claim])

lemma run_restore: "any_run enc p av (snd (restore_minimal_approval_claim now i action av))"
proof (cases "resolve_minimal_approval_request_id i av")
  case None
  then show ?thesis by (simp add: restore_minimal_approval_claim_def approval_run.start)
qed (auto intro: any_step approval_step.restore)

lemma run_finish: "st \<noteq> approval_pending \<Longrightarrow> any_run enc p av (snd (finish_minimal_approval_claim now i action st av))"
  by (rule any_step [OF approval_step.finish])

lemma any_run_trans: "any_run enc p av av1 \<Longrightarrow> any_run enc p av1 av2 \<Longrightarrow> any_run enc p av av2"
  by (rotate_tac, induction rule: approval_run.induct) (auto intro: approval_run.step)

lemma begin_run:
  assumes "begin_minimal_approval_callback reg exact now chat topic message existing av = (res, av')"
  shows "any_run enc p av av'"
  using assms
proof (cases rule: begin_result)
  case (returned e token s route av1)
  then show ?thesis using run_claim [of enc p av now token chat topic message s] run_restore
    by (auto intro: any_run_trans)
next
  case (ended e token s route av1)
  then show ?thesis using run_claim [of enc p av now token chat topic message s]
      run_finish [of "''cancelled''"] by (auto simp: approval_pending_def intro: any_run_trans)
next
  case (answering ex route ref decision)
  show ?thesis
    using run_claim [of enc p av now "ab_token (mr_button ex)" chat topic message "trim_space (mr_session_identity ex)"]
    by (simp add: answering(3))
qed (auto intro: approval_run.start run_claim)

lemma end_run:
  "any_run enc p av (fst (snd (end_minimal_approval_callback enc (Some p) sender now route err av w)))"
proof (cases err)
  case (Some e)
  then show ?thesis
    using run_finish [of "''cancelled''"] run_finish [of "''expired''"] run_restore
    by (auto simp: end_minimal_approval_callback_def answer_failed_def Let_def approval_pending_def)
next
  case None
  let ?b = "mr_button route"
  define st where "st = (if ab_action ?b = ''deny'' then ''denied'' else ''approved'')"
  obtain r av1 where f: "finish_minimal_approval_claim now (ab_request_id ?b) (ab_action ?b) st av = (r, av1)"
    by (rule prod.exhaust)
  have "st \<noteq> approval_pending" by (simp add: st_def approval_pending_def)
  from run_finish [OF this, of enc p av now "ab_request_id ?b" "ab_action ?b"]
  have run: "any_run enc p av av1" using f by simp
  have c: "any_run enc p av av2"
    if "cancel_minimal_approval_claim_with_inactive_edit enc (Some p) now i action t av1 = (q, av2)" for i action t q av2
    using any_run_trans [OF run any_step [OF approval_step.cancel]] that by (metis snd_conv)
  show ?thesis
    unfolding None end_minimal_approval_callback_def option.case answer_arrived_def Let_def st_def [symmetric] f prod.case
    by (auto simp: run c split: sum.split prod.split bool.split option.split)
qed

lemma trimmed_run: "approval_run enc p allowed av av' \<Longrightarrow> approvals_ok av \<Longrightarrow> trimmed_ids av \<Longrightarrow> trimmed_ids av'"
  by (induction rule: approval_run.induct) (auto intro: trimmed_step approval_run_ok)

section \<open>The invariant\<close>

definition system_ok :: "approval_system \<Rightarrow> bool" where
  "system_ok s \<longleftrightarrow>
     approvals_ok (sy_approvals s) \<and> trimmed_ids (sy_approvals s) \<and>
     (\<forall>(r, a)\<in>set (sy_answers s). spent (route_ident r) (sy_approvals s)) \<and>
     distinct (map (\<lambda>(r, a). route_ident r) (sy_answers s)) \<and> set (sy_waiting s) \<subseteq> fst ` set (sy_answers s)"

lemma system_okI':
  assumes "system_ok s" "any_run enc p (sy_approvals s) av"
    "\<And>x. spent x (sy_approvals s) \<Longrightarrow> x \<in> (\<lambda>(r, a). route_ident r) ` set (sy_answers s) \<Longrightarrow> spent x av"
  shows "system_ok (s\<lparr>sy_approvals := av\<rparr>)"
proof -
  have inv: "approvals_ok (sy_approvals s)" "trimmed_ids (sy_approvals s)" using assms(1) by (simp_all add: system_ok_def)
  have "spent (route_ident r) av" if "(r, a) \<in> set (sy_answers s)" for r a
    using assms(1) that by (intro assms(3)) (auto simp: system_ok_def intro: rev_image_eqI)
  then show ?thesis
    using assms(1) approval_run_ok [OF assms(2) inv(1)] trimmed_run [OF assms(2) inv] by (auto simp: system_ok_def)
qed

text \<open>Two answered requests with one id are the same request.\<close>

lemma spent_same_id:
  assumes "approvals_ok av" "spent x av" "spent y av" "fst x = fst y"
  shows "x = y"
proof -
  obtain a b where a: "a \<in> set (av_rows av)" "request_ident a = x" and b: "b \<in> set (av_rows av)" "request_ident b = y"
    using assms(2,3) by (auto simp: spent_def)
  have "distinct (map ma_request_id (av_rows av))" using assms(1) by (simp add: approvals_ok_def)
  moreover have "ma_request_id a = ma_request_id b" using a b assms(4) by (auto simp: request_ident_def)
  ultimately have "a = b" using a(1) b(1) by (metis distinct_map inj_onD)
  then show ?thesis using a b by simp
qed

lemma begin_keeps_spent:
  assumes ok: "approvals_ok av" "trimmed_ids av" and sp: "spent x av"
    and b: "begin_minimal_approval_callback reg exact now chat topic message existing av = (res, av')"
  shows "spent x av'"
  using b
proof (cases rule: begin_result)
  case (returned e token s route av1)
  note run = run_claim [of undefined undefined av now token chat topic message s]
  have "any_run undefined undefined av av1" using run returned(2) by simp
  then have "trimmed_ids av1" "ab_request_id (mr_button route) \<in> request_ids av1"
    using trimmed_run ok claimed_id_stored [OF ok(1) returned(2)] by auto
  moreover have "spent x av1" using spent_claimed [OF sp, of now token chat topic message s] returned(2) by simp
  moreover have "ab_request_id (mr_button route) \<noteq> fst x" by (rule claimed_was_open [OF ok(1) sp returned(2)])
  ultimately show ?thesis unfolding returned(3) by (intro restore_own)
next
  case (ended e token s route av1)
  have "spent x av1" using spent_claimed [OF sp, of now token chat topic message s] ended(2) by simp
  then show ?thesis unfolding ended(3) by (rule spent_finished) (simp add: approval_pending_def)
next
  case (answering ex route ref decision)
  show ?thesis
    using spent_claimed [OF sp, of now "ab_token (mr_button ex)" chat topic message "trim_space (mr_session_identity ex)"]
    by (simp add: answering(3))
qed (auto intro: sp spent_claimed)

lemma pressed_ok:
  assumes ok: "system_ok s"
    and b: "begin_minimal_approval_callback reg exact now chat topic message existing (sy_approvals s) =
      (Inr (route, answer), av)"
  shows "system_ok (s\<lparr>sy_approvals := av, sy_answers := sy_answers s @ [(route, answer)],
    sy_waiting := sy_waiting s @ [route]\<rparr>)"
proof -
  let ?av = "sy_approvals s"
  have inv: "approvals_ok ?av" "trimmed_ids ?av" "\<And>r a. (r, a) \<in> set (sy_answers s) \<Longrightarrow> spent (route_ident r) ?av"
    using ok by (auto simp: system_ok_def)
  obtain token sess where c: "claim_minimal_approval now token chat topic message sess ?av = (Inr (Some route, True), av)"
    using b by (rule begin_result) auto
  have "spent (route_ident route) av"
    using claimed_spent [OF inv(1) c] by (auto simp: route_ident_def)
  moreover have "route_ident r \<noteq> route_ident route" if "(r, a) \<in> set (sy_answers s)" for r a
    using claimed_was_open [OF inv(1) inv(3) [OF that] c] by (auto simp: route_ident_def)
  moreover have "spent (route_ident r) av" if "(r, a) \<in> set (sy_answers s)" for r a
    by (rule begin_keeps_spent [OF inv(1,2) inv(3) [OF that] b])
  ultimately show ?thesis
    using ok approval_run_ok [OF begin_run [OF b, of undefined undefined] inv(1)]
      trimmed_run [OF begin_run [OF b, of undefined undefined] inv(1,2)]
    by (fastforce simp: system_ok_def)
qed

lemma ended_ok:
  assumes ok: "system_ok s" and w: "route \<in> set (sy_waiting s)"
  shows "system_ok (s\<lparr>sy_approvals := fst (snd (end_minimal_approval_callback enc (Some p) sender now route err (sy_approvals s) w')),
    sy_waiting := filter (\<lambda>r. r \<noteq> route) (sy_waiting s),
    sy_answers := (if claim_given_back err then filter (\<lambda>(r, _). r \<noteq> route) (sy_answers s) else sy_answers s)\<rparr>)"
    (is "system_ok (s\<lparr>sy_approvals := ?new, sy_waiting := ?ws, sy_answers := ?as\<rparr>)")
proof -
  let ?av = "sy_approvals s"
  have inv: "approvals_ok ?av" "trimmed_ids ?av" "\<And>r a. (r, a) \<in> set (sy_answers s) \<Longrightarrow> spent (route_ident r) ?av"
    "distinct (map (\<lambda>(r, a). route_ident r) (sy_answers s))" "set (sy_waiting s) \<subseteq> fst ` set (sy_answers s)"
    using ok by (auto simp: system_ok_def)
  obtain answer where mine: "(route, answer) \<in> set (sy_answers s)" using w inv(5) by force
  have run: "any_run enc p ?av ?new" by (rule end_run)
  have kept: "spent (route_ident r) ?new" if r: "(r, a) \<in> set ?as" for r a
  proof (cases "claim_given_back err")
    case False
    then show ?thesis using inv(3) r by (intro end_spent) (auto simp: claim_given_back_def)
  next
    case True
    then obtain e where e: "err = Some e" "\<not> minimal_approval_request_inactive e"
      "ge_unavailable e \<or> minimal_approval_definitely_unsent e" by (auto simp: claim_given_back_def split: option.splits)
    have r': "(r, a) \<in> set (sy_answers s)" "r \<noteq> route" using r True by auto
    have "route_ident r \<noteq> route_ident route"
    proof
      assume "route_ident r = route_ident route"
      then have "(r, a) = (route, answer)"
        using inj_onD [OF distinct_map [THEN iffD1, OF inv(4), THEN conjunct2] _ r'(1) mine] by simp
      then show False using r'(2) by simp
    qed
    then have "fst (route_ident r) \<noteq> fst (route_ident route)"
      using spent_same_id [OF inv(1) inv(3) [OF r'(1)] inv(3) [OF mine]] by blast
    moreover have "ab_request_id (mr_button route) \<in> request_ids ?av"
      using inv(3) [OF mine]
      by (auto simp: spent_def request_ids_def request_ident_def route_ident_def intro: rev_image_eqI)
    ultimately have "spent (route_ident r) (snd (restore_minimal_approval_claim now (ab_request_id (mr_button route))
        (ab_action (mr_button route)) ?av))"
      by (intro restore_own inv(2) inv(3) [OF r'(1)]) (auto simp: route_ident_def)
    then show ?thesis using e by (auto simp: end_minimal_approval_callback_def answer_failed_def Let_def)
  qed
  have "distinct (map (\<lambda>(r, a). route_ident r) ?as)" using inv(4) by (simp add: distinct_map_filter)
  moreover have "set ?ws \<subseteq> fst ` set ?as" using inv(5) by force
  ultimately show ?thesis
    using kept approval_run_ok [OF run inv(1)] trimmed_run [OF run inv(1,2)] by (auto simp: system_ok_def)
qed

lemma spent_or_replaced:
  assumes "approval_step enc p av op av'" "approvals_ok av" "spent x av" "\<And>i. op \<noteq> OpRestore i"
  shows "spent x av' \<or> \<not> keeps_request x op \<and> x \<notin> request_ident ` set (av_rows av')"
proof (cases "keeps_request x op")
  case True
  then show ?thesis using spent_step [OF assms(1-3)] by simp
next
  case False
  from assms(1) show ?thesis
  proof cases
    case (create seed a now)
    then have i: "ma_request_id (sd_approval (normalized_seed seed)) = fst x"
        "request_ident (sd_approval (normalized_seed seed)) \<noteq> x"
      using False by (auto simp: keeps_request_def request_ident_def)
    show ?thesis
      using created_other [OF assms(2,3) i, of enc "Some p" now] assms(3) False create by auto
  qed (use False assms(4) in \<open>simp_all add: keeps_request_def\<close>)
qed

lemma spent_ident: "spent x av \<Longrightarrow> x \<in> request_ident ` set (av_rows av)"
  by (auto simp: spent_def)

lemma other_ok:
  assumes ok: "system_ok s" and st: "approval_step enc p (sy_approvals s) op av" "other_work (sy_waiting s) op"
  shows "system_ok (s\<lparr>sy_approvals := av, sy_answers := current_answers av (sy_answers s)\<rparr>)"
proof -
  have inv: "approvals_ok (sy_approvals s)" "trimmed_ids (sy_approvals s)" "distinct (map (\<lambda>(r, a). route_ident r) (sy_answers s))"
    "\<And>r a. (r, a) \<in> set (sy_answers s) \<Longrightarrow> spent (route_ident r) (sy_approvals s)" "set (sy_waiting s) \<subseteq> fst ` set (sy_answers s)"
    using ok by (auto simp: system_ok_def)
  have kept: "spent (route_ident r) av \<or> \<not> keeps_request (route_ident r) op \<and> route_ident r \<notin> request_ident ` set (av_rows av)"
    if "(r, a) \<in> set (sy_answers s)" for r a
    using st(2) by (intro spent_or_replaced [OF st(1) inv(1) inv(4) [OF that]]) (auto simp: other_work_def)
  have "r \<in> fst ` set (current_answers av (sy_answers s))" if r: "r \<in> set (sy_waiting s)" for r
  proof -
    obtain a where a: "(r, a) \<in> set (sy_answers s)" using r inv(5) by force
    have "keeps_request (route_ident r) op"
      using st(2) r by (auto simp: other_work_def keeps_request_def list_all_iff split: approval_op.splits)
    then have "spent (route_ident r) av" using kept [OF a] by simp
    then have "(r, a) \<in> set (current_answers av (sy_answers s))"
      using a spent_ident [of "route_ident r" av] by (simp add: current_answers_def)
    then show ?thesis by (rule rev_image_eqI) simp
  qed
  moreover have "distinct (map (\<lambda>(r, a). route_ident r) (current_answers av (sy_answers s)))"
    using inv(3) by (simp add: current_answers_def distinct_map_filter)
  moreover have "spent (route_ident r) av" if "(r, a) \<in> set (current_answers av (sy_answers s))" for r a
    using that kept [of r a] by (auto simp: current_answers_def)
  ultimately show ?thesis
    using approval_step_ok [OF st(1) inv(1)] trimmed_step [OF st(1) inv(1,2)]
    unfolding system_ok_def by (simp add: subset_iff) blast
qed

lemma system_step_ok: "system_step enc p s s' \<Longrightarrow> system_ok s \<Longrightarrow> system_ok s'"
proof (induction rule: system_step.induct)
  case (pressed reg exact now chat topic message existing s route answer av)
  then show ?case by (auto intro: pressed_ok)
next
  case (refused reg exact now chat topic message existing s e av)
  then show ?case
    by (intro system_okI' [OF _ begin_run]) (auto simp: system_ok_def intro: begin_keeps_spent)
next
  case (ended route s sender now err w res av w')
  then show ?case using ended_ok [where s = s and route = route and now = now and enc = enc and p = p and sender = sender and err = err and w' = w]
    by simp
next
  case (other s op av)
  then show ?case by (auto intro: other_ok)
qed (auto simp: system_ok_def)

lemma system_run_ok: "system_run enc p s s' \<Longrightarrow> system_ok s \<Longrightarrow> system_ok s'"
  by (induction rule: system_run.induct) (auto intro: system_step_ok)

lemma system_start_ok: "system_ok system_start"
  using empty_approvals_ok
  by (simp add: system_ok_def system_start_def trimmed_ids_def request_ids_def empty_approvals_def)

section \<open>The promises\<close>

text \<open>
  C29: An approval request is answered at most once. Whatever happens between the press and the
  answer, and between presses (lost or rejected answers, retries by the owner, replays by the App
  Server, deliveries, expiry, a restart of the daemon with its recovery), no two answers that may
  have reached the App Server are for the same stored request of the same turn. The App Server may
  use an id again for another request, which replaces the first and is answered on its own, but is
  assumed not to do so while the daemon still waits for the outcome of a press of the first.
\<close>
theorem approval_answered_once:
  assumes "system_run enc p system_start s"
  shows "distinct (map (\<lambda>(route, answer). route_ident route) (sy_answers s))"
  using system_run_ok [OF assms system_start_ok] by (simp add: system_ok_def)

text \<open>
  C30: What the owner decides is what the App Server is told. An accepted press produces an answer
  for exactly the request whose button was pressed: its id as the App Server knows it, its thread,
  turn and kind. The decision is accept for the approve button and decline for the deny button, and
  it goes to the session that asked.
\<close>
theorem approval_answer_matches_press:
  assumes "any_run enc p empty_approvals av"
    and "begin_minimal_approval_callback reg exact now chat topic message (Some ex) av = (Inr (route, answer), av')"
  shows "\<exists>b a. find_button (ab_token (mr_button ex)) av = Some b \<and> a \<in> set (av_rows av) \<and>
    ma_request_id a = ab_request_id b \<and> ma_status a = approval_pending \<and> ma_claim_state a = ClaimIdle \<and>
    (sa_thread_id answer, sa_turn_id answer, sa_kind answer) = (ma_thread_id a, ma_turn_id a, ma_request_kind a) \<and>
    sa_request_id answer = first_non_empty [wire_or_request a, ma_request_id a] \<and>
    sa_decision answer = (if ab_action b = ''approve'' then ''accept'' else ''decline'') \<and>
    ab_action b \<in> {''approve'', ''deny''} \<and>
    session_for_callback_identity reg (ma_session_identity a) (ma_thread_id a) = Some (sa_session answer)"
proof -
  have ok: "approvals_ok av" by (rule approval_run_ok [OF assms(1) empty_approvals_ok])
  from assms(2) show ?thesis
  proof (cases rule: begin_result)
    case (answering ex' rt ref decision)
    then have eq: "answer = answer_of ref rt decision" "ex' = ex" by simp_all
    obtain b a where b: "find_button (ab_token (mr_button ex)) av = Some b"
      and a: "find_approval (ab_request_id b) av = Some a"
      and exact: "claim_exact chat topic message (trim_space (trim_space (mr_session_identity ex))) b a"
      and rt: "rt = \<lparr>mr_button = b\<lparr>ab_message_id := message\<rparr>, mr_wire_request_id = wire_or_request a,
              mr_session_identity = ma_session_identity a\<rparr>"
      using answering(3) unfolding eq by (elim claim_success)
    have "ab_action b \<in> {''approve'', ''deny''}"
      using ok b by (auto simp: approvals_ok_def find_button_def find_Some_iff)
    then have "decision = (if ab_action b = ''approve'' then ''accept'' else ''decline'')"
      using answering(5) by (auto simp: rt minimal_approval_response_def split: if_splits)
    then show ?thesis
      using find_key_in [OF a [unfolded find_approval_def]] exact answering(4) \<open>ab_action b \<in> _\<close>
      by (intro exI [of _ b] exI [of _ a] conjI b) (auto simp: eq(1) answer_of_def rt claim_exact_def Let_def)
  qed simp_all
qed

section \<open>A request from arrival to answer\<close>

lemma stored_request_run:
  "any_run enc p (fst st) (fst (snd (handle_minimal_approval_server_request cfg env enc (Some p) now kv session ev st)))"
proof -
  have seed: "seed_status (approval_request_seed enc now target i w t u k project s tokens body) = approval_pending"
    for target i w t u k project s tokens body
  proof -
    have "trim_space approval_pending = approval_pending" by code_simp
    then show ?thesis by (simp add: seed_status_def approval_request_seed_def Let_def approval_pending_def)
  qed
  have create: "any_run enc p (fst st) av'"
    if "create_minimal_approval enc (Some p) now (approval_request_seed enc now target i w t u k project s tokens body)
      (fst st) = (res, av')" for target i w t u k project s tokens body res av'
    using any_step [OF approval_step.create [OF seed refl]] that by (metis snd_conv)
  have "any_run enc p (fst st)
      (fst (store_approval_request cfg env enc (Some p) now kv kind params s i w t u st))" for kind params s i w t u
    by (auto simp: store_approval_request_def Let_def approval_run.start create
        split: option.split prod.split sum.split)
  then show ?thesis
    by (auto simp: handle_minimal_approval_server_request_def Let_def approval_run.start split: prod.split)
qed

definition flow_seed :: approval_seed where
  "flow_seed = (ask_seed ''a'' ''d'')\<lparr>sd_approval :=
     (sd_approval (ask_seed ''a'' ''d''))\<lparr>ma_request_kind := minimal_command_approval_kind\<rparr>\<rparr>"

definition flow_stored :: approvals where
  "flow_stored = snd (create_minimal_approval dp_text (Some ask_protector) 0 flow_seed empty_approvals)"

definition flow_registry :: session_registry where
  "flow_registry = \<lparr>sr_workers = (\<lambda>_. None), sr_has_workers = True, sr_live_identity = ''s'', sr_live_ready = True\<rparr>"

definition flow_press :: "(callback_error + minimal_approval_route \<times> server_answer) \<times> approvals" where
  "flow_press = begin_minimal_approval_callback flow_registry (\<lambda>_. True) 1 5 0 77
     (get_minimal_approval_route ''a'' flow_stored) flow_stored"

lemma flow_stored_step:
  "\<exists>i t u k. approval_step dp_text ask_protector empty_approvals (OpCreate i t u k) flow_stored"
proof -
  have "seed_status flow_seed = approval_pending" by code_simp
  from approval_step.create [OF this refl] show ?thesis unfolding flow_stored_def by blast
qed

lemma flow_press_value:
  "(case fst flow_press of Inl _ \<Rightarrow> None
    | Inr (r, a) \<Rightarrow> Some (ab_request_id (mr_button r), sa_request_id a, sa_decision a)) = Some (''r'', ''r'', ''accept'')"
  by code_simp

lemma flow_pressed:
  obtains route answer where "flow_press = (Inr (route, answer), snd flow_press)" "sa_decision answer = ''accept''"
proof -
  obtain route answer where "fst flow_press = Inr (route, answer)" "sa_decision answer = ''accept''"
    using flow_press_value by (auto split: sum.splits prod.splits)
  then show thesis using prod.collapse [of flow_press] by (intro that [of route answer]) simp_all
qed

lemma approval_answered_once_witness:
  "\<exists>s :: approval_system. length (sy_answers s) = 1 \<and> distinct (map (\<lambda>(route, answer). route_ident route) (sy_answers s))"
proof -
  obtain i t u k where c: "approval_step dp_text ask_protector empty_approvals (OpCreate i t u k) flow_stored"
    using flow_stored_step by blast
  obtain route answer where p: "flow_press = (Inr (route, answer), snd flow_press)" by (rule flow_pressed)
  let ?run = "system_run dp_text ask_protector system_start"
  have "system_step dp_text ask_protector system_start
      (system_start\<lparr>sy_approvals := flow_stored, sy_answers := current_answers flow_stored (sy_answers system_start)\<rparr>)"
    by (rule system_step.other [where op = "OpCreate i t u k"])
      (use c in \<open>simp_all add: system_start_def other_work_def\<close>)
  then have "?run (system_start\<lparr>sy_approvals := flow_stored\<rparr>)"
    using system_run.step [OF system_run.start] by (simp add: system_start_def current_answers_def)
  moreover have "system_step dp_text ask_protector (system_start\<lparr>sy_approvals := flow_stored\<rparr>)
      \<lparr>sy_approvals = snd flow_press, sy_answers = [(route, answer)], sy_waiting = [route]\<rparr>"
    using system_step.pressed [of flow_registry "\<lambda>_. True" 1 5 0 77 "get_minimal_approval_route ''a'' flow_stored"
        "system_start\<lparr>sy_approvals := flow_stored\<rparr>" route answer "snd flow_press" dp_text ask_protector] p
    by (simp add: flow_press_def system_start_def)
  ultimately have "?run \<lparr>sy_approvals = snd flow_press, sy_answers = [(route, answer)], sy_waiting = [route]\<rparr>"
    by (rule system_run.step)
  from approval_answered_once [OF this] show ?thesis
    by - (rule exI [of _ "\<lparr>sy_approvals = snd flow_press, sy_answers = [(route, answer)], sy_waiting = [route]\<rparr>"], simp)
qed

lemma approval_answer_matches_press_witness:
  "\<exists>b. find_button ''a'' flow_stored = Some b \<and> ab_action b = ''approve''"
proof -
  obtain i t u k where c: "approval_step dp_text ask_protector empty_approvals (OpCreate i t u k) flow_stored"
    using flow_stored_step by blast
  have "map_option (\<lambda>r. ab_token (mr_button r)) (get_minimal_approval_route ''a'' flow_stored) = Some ''a''" by code_simp
  then obtain ex where ex: "get_minimal_approval_route ''a'' flow_stored = Some ex" "ab_token (mr_button ex) = ''a''"
    by auto
  obtain route answer where p: "flow_press = (Inr (route, answer), snd flow_press)" "sa_decision answer = ''accept''"
    by (rule flow_pressed)
  from approval_answer_matches_press [OF any_step [OF c] p(1) [unfolded flow_press_def ex(1)]] ex(2) p(2)
  show ?thesis by (auto split: if_splits)
qed

section \<open>A claim that a replay disarms\<close>

text \<open>What a replay that rearms the delivery of a request leaves behind.\<close>

lemma rearmed:
  assumes ok: "approvals_ok av0" and a: "a \<in> set (av_rows av0)" "ma_status a = approval_pending"
    and q: "find (\<lambda>r. dq_id r = ma_queue_id a \<and> dq_kind r = minimal_approval_kind) (ob_queue (av_outbox av0)) = Some r"
      "unsent_and_dead r" "ma_queue_id a \<noteq> 0"
    and seed: "ma_request_id (sd_approval (normalized_seed seed)) = ma_request_id a" "same_request (normalized_seed seed) a"
    and pay: "protect p (qi_payload (sd_delivery (normalized_seed seed))) = Some c" "trim_space c \<noteq> []"
    and cr: "create_minimal_approval enc (Some p) now seed av0 = (Inr b, av)"
  obtains f where "av_rows av = update_rows (pending_request (ma_request_id a)) f (av_rows av0)"
    "\<And>x. f x = x\<lparr>ma_wire_request_id := ma_wire_request_id (f x), ma_session_identity := ma_session_identity (f x),
             ma_supersede_event_id := ma_supersede_event_id (f x), ma_updated_at := ma_updated_at (f x)\<rparr>"
    "\<exists>y\<in>set (av_buttons av). ab_request_id y = ma_request_id a \<and> ab_status y = ButtonActive"
proof -
  let ?seed = "normalized_seed seed"
  let ?i = "ma_request_id a"
  define f where "f x = x\<lparr>ma_wire_request_id := ma_wire_request_id (sd_approval ?seed),
      ma_session_identity := ma_session_identity (sd_approval ?seed),
      ma_supersede_event_id := sd_supersede_event_id ?seed, ma_updated_at := now\<rparr>" for x :: minimal_approval
  let ?av = "set_approvals (pending_request ?i) f av0"
  have "distinct (map ma_request_id (av_rows av0))" using ok by (simp add: approvals_ok_def)
  then have found: "find_approval ?i av0 = Some a"
    unfolding find_approval_def using a(1) by (rule distinct_find_key)
  have "rearm_minimal_approval_delivery_if_dead now a ?seed c ?av = Inr av"
    using cr seed a(2) pay(1)
    by (auto simp: create_minimal_approval_def Let_def found replay_minimal_approval_def f_def [abs_def]
        split: if_splits sum.splits)
  then obtain av1 av2 where m: "mark_two_buttons (button_open ?i) (mark_button ButtonExpired) ?av = Inr av1"
      and ins: "insert_minimal_approval_routes ?seed av1 = Inr av2"
      and same: "av_rows av = av_rows av2" "av_buttons av = av_buttons av2"
    using q pay(2)
    by (auto simp: rearm_minimal_approval_delivery_if_dead_def Let_def set_approvals_def split: if_splits sum.splits)
  note m' = mark_two_buttons_result(2) [OF m]
  have "new_button ?seed (sd_approve_token ?seed) ''approve'' \<in> set (av_buttons av2)"
    using ins by (auto simp: insert_minimal_approval_routes_def insert_button_def split: if_splits sum.splits)
  then have "\<exists>y\<in>set (av_buttons av). ab_request_id y = ?i \<and> ab_status y = ButtonActive"
    unfolding same by (rule rev_bexI) (simp add: new_button_def seed(1))
  moreover have "av_rows av = update_rows (pending_request ?i) f (av_rows av0)"
    using same(1) insert_routes_result(1) [OF ins] m' by (simp add: set_approvals_def)
  ultimately show thesis
    by (rule_tac that [of f]) (simp_all add: f_def)
qed

text \<open>
  C40: A replay of a request whose delivery is dead as definitely not sent gives the request new
  buttons even while a press of it is being answered. Afterwards the buttons can be pressed although
  the claim is held, and neither the answer, nor the return of the claim, nor its cancellation can end
  it: each of them fails, because it finds no held button where it wants two. When it is the only held
  request, the recovery at the next start fails too, and with it the start of the daemon.
\<close>
theorem rearmed_claim_is_stuck:
  assumes "approval_run enc p (\<lambda>_. True) empty_approvals av0" and "a \<in> set (av_rows av0)"
    and "ma_status a = approval_pending" "ma_claim_state a = ClaimTaken" "ma_claim_action a = Some act"
    and "find (\<lambda>r. dq_id r = ma_queue_id a \<and> dq_kind r = minimal_approval_kind) (ob_queue (av_outbox av0)) = Some r"
      "unsent_and_dead r" "ma_queue_id a \<noteq> 0"
    and "seed_status seed = approval_pending" "ma_request_id (sd_approval (normalized_seed seed)) = ma_request_id a"
      "same_request (normalized_seed seed) a"
    and "protect p (qi_payload (sd_delivery (normalized_seed seed))) = Some c" "trim_space c \<noteq> []"
    and "create_minimal_approval enc (Some p) now0 seed av0 = (Inr created, av)"
    and "ma_chat_id a \<noteq> 0" "0 < ma_message_id a" "trim_space txt \<noteq> []"
  shows "(\<exists>b\<in>set (av_buttons av). ab_request_id b = ma_request_id a \<and> ab_status b = ButtonActive) \<and>
    finish_minimal_approval_claim now (ma_request_id a) act st av = (Inl (ApRouteCount 0), av) \<and>
    restore_minimal_approval_claim now (ma_request_id a) act av = (Inl (ApRouteCount 0), av) \<and>
    cancel_minimal_approval_claim_with_inactive_edit enc (Some p) now (ma_request_id a) act txt av =
      (Inl (ApRouteCount 0), av) \<and>
    (filter (\<lambda>x. ma_status x = approval_pending \<and> ma_claim_state x = ClaimTaken) (av_rows av0) = [a] \<longrightarrow>
      recover_minimal_approval_claims enc (Some p) now av = (Inl (ApRouteCount 0), av))"
proof -
  let ?i = "ma_request_id a"
  let ?held = "\<lambda>x. ma_status x = approval_pending \<and> ma_claim_state x = ClaimTaken"
  have ok: "approvals_ok av0" by (rule approval_run_ok [OF assms(1) empty_approvals_ok])
  obtain f b where rows: "av_rows av = update_rows (pending_request ?i) f (av_rows av0)"
    and f: "\<And>x. f x = x\<lparr>ma_wire_request_id := ma_wire_request_id (f x), ma_session_identity := ma_session_identity (f x),
             ma_supersede_event_id := ma_supersede_event_id (f x), ma_updated_at := ma_updated_at (f x)\<rparr>"
    and b: "b \<in> set (av_buttons av)" "ab_request_id b = ?i" "ab_status b = ButtonActive"
    using rearmed [OF ok assms(2,3,6-8,10-14)] by blast
  have cols: "ma_request_id (f x) = ma_request_id x" "ma_status (f x) = ma_status x" "ma_claim_state (f x) = ma_claim_state x"
    "ma_claim_action (f x) = ma_claim_action x" "ma_chat_id (f x) = ma_chat_id x" "ma_message_id (f x) = ma_message_id x" for x
    by (subst f, simp)+
  have run: "approval_run enc p (\<lambda>_. True) empty_approvals av"
    using approval_run.step [OF assms(1) approval_step.create [OF assms(9) refl], of now0] assms(14) by simp
  have fa: "f a \<in> set (av_rows av)"
    using assms(2,3) by (force simp: rows set_update_rows pending_request_def)
  have "trimmed_ids av"
    by (rule trimmed_run [OF run empty_approvals_ok]) (simp add: trimmed_ids_def request_ids_def empty_approvals_def)
  moreover have "?i \<in> request_ids av" using fa cols(1) [of a] by (auto simp: request_ids_def intro: rev_image_eqI)
  moreover have "?i \<noteq> []"
    using assms(10,14) by (auto simp: create_minimal_approval_def Let_def seed_incomplete_def split: if_splits)
  ultimately have own: "resolve_minimal_approval_request_id ?i av = Some ?i" using own_id_resolves by blast
  have held: "filter ?held (av_rows av) = [f a]" if "filter ?held (av_rows av0) = [a]"
  proof -
    have "filter ?held (update_rows q f xs) = update_rows q f (filter ?held xs)" for q xs
      by (induction xs) (simp_all add: cols)
    then have "filter ?held (av_rows av) = update_rows (pending_request ?i) f (filter ?held (av_rows av0))"
      by (simp only: rows)
    then show ?thesis using that assms(3) by (simp add: pending_request_def)
  qed
  have e: "trim_space txt \<noteq> []" by (rule assms(17))
  note stuck = disarmed_claim_fails [OF run fa, of act b "txt" now st, unfolded cols, OF assms(3-5) b own assms(15,16) e]
  show ?thesis using stuck b held by blast
qed

definition ask_unsent :: approvals where
  "ask_unsent = ask_stored\<lparr>av_outbox :=
     snd (fail_delivery (Some ask_protector) 1 5 9 definitely_unsent True (av_outbox ask_stored))\<rparr>"
definition ask_held :: approvals where
  "ask_held = snd (claim_minimal_approval 1 ''a'' 5 0 77 ''s'' ask_unsent)"
definition ask_stuck :: approvals where "ask_stuck = ask_create ''b'' ''f'' ask_held"

lemma ask_stuck_run: "approval_run dp_text ask_protector (\<lambda>_. True) empty_approvals ask_held"
proof -
  have "approval_run dp_text ask_protector (\<lambda>_. True) empty_approvals ask_unsent"
    using approval_run.step [OF ask_stored_run approval_step.elsewhere [where ob = "av_outbox ask_unsent"
        and ps = "av_pending ask_stored" and cs = "av_callbacks ask_stored"]]
    by (simp add: ask_unsent_def)
  then show ?thesis
    unfolding ask_held_def by (rule approval_run.step [OF _ approval_step.claim]) simp
qed

lemma rearmed_claim_is_stuck_witness:
  "finish_minimal_approval_claim 3 ''r'' ''approve'' ''approved'' ask_stuck = (Inl (ApRouteCount 0), ask_stuck) \<and>
   recover_minimal_approval_claims dp_text (Some ask_protector) 3 ask_stuck = (Inl (ApRouteCount 0), ask_stuck)"
proof -
  have vals: "map (\<lambda>a. (ma_request_id a, ma_status a, ma_claim_state a, ma_claim_action a)) (av_rows ask_held) =
      [(''r'', approval_pending, ClaimTaken, Some ''approve'')]"
    "map (\<lambda>a. (ma_chat_id a, ma_message_id a, ma_queue_id a)) (av_rows ask_held) = [(5, 77, 1)]"
    "map_option unsent_and_dead (find (\<lambda>r. dq_id r = 1 \<and> dq_kind r = minimal_approval_kind)
       (ob_queue (av_outbox ask_held))) = Some True"
    "list_all (same_request (normalized_seed (ask_seed ''b'' ''f''))) (av_rows ask_held)"
    "fst (create_minimal_approval dp_text (Some ask_protector) 0 (ask_seed ''b'' ''f'') ask_held) = Inr False"
    by code_simp+
  have seed: "seed_status (ask_seed ''b'' ''f'') = approval_pending" "trim_space ''x'' \<noteq> []"
    "ma_request_id (sd_approval (normalized_seed (ask_seed ''b'' ''f''))) = ''r''"
    "protect ask_protector (qi_payload (sd_delivery (normalized_seed (ask_seed ''b'' ''f'')))) = Some ''x''"
    by code_simp+
  obtain a where row: "av_rows ask_held = [a]" and a: "a \<in> set (av_rows ask_held)" "ma_request_id a = ''r''" "ma_status a = approval_pending"
    "ma_claim_state a = ClaimTaken" "ma_claim_action a = Some ''approve''" "ma_chat_id a = 5" "ma_message_id a = 77" "ma_queue_id a = 1"
    using vals(1,2) by (auto simp: map_eq_Cons_conv)
  obtain r where r: "find (\<lambda>r. dq_id r = ma_queue_id a \<and> dq_kind r = minimal_approval_kind) (ob_queue (av_outbox ask_held)) = Some r"
      "unsent_and_dead r"
    using vals(3) a(8) by auto
  have same: "same_request (normalized_seed (ask_seed ''b'' ''f'')) a" using vals(4) row by simp
  have cr: "create_minimal_approval dp_text (Some ask_protector) 0 (ask_seed ''b'' ''f'') ask_held = (Inr False, ask_stuck)"
    using vals(5) by (simp add: ask_stuck_def ask_create_def prod_eq_iff)
  have one: "filter (\<lambda>x. ma_status x = approval_pending \<and> ma_claim_state x = ClaimTaken) (av_rows ask_held) = [a]"
    using row a(3,4) by simp
  from rearmed_claim_is_stuck [OF ask_stuck_run a(1,3,4,5) r _ seed(1) _ same seed(4,2) cr _ _ seed(2), of 3 "''approved''"]
  show ?thesis using one a(2,6,7,8) seed(3) by simp
qed

end
