(* ===== verification/Continuations.thy ===== *)
theory Continuations
  imports Thread_Store Pending_Commands Approval_Store
begin

text \<open>
  Continuations of the minimal profile (\<^verbatim>\<open>internal/storage/store_minimal.go\<close>): an ended turn of
  a thread is continued in a fork of it, and \<^verbatim>\<open>minimal_thread_continuations\<close> records for every
  chat, source thread and source turn whether the fork is being created, exists, or failed. A
  failure is definite (nothing was created) or ambiguous (a fork may exist). The operations are
  followed by the table as a state machine: a turn is never forked a second time while a first
  fork exists or may exist.
\<close>

section \<open>Tables\<close>

datatype continuation_status = CnCreating | CnActive | CnFailed

record continuation_key =
  ck_chat_id :: int
  ck_topic_id :: int
  ck_source_thread_id :: string
  ck_source_turn_id :: string

record continuation =
  co_key :: continuation_key
  co_project_id :: string
  co_fork_thread_id :: string
  co_status :: continuation_status
  co_failure_kind :: string

record continuation_row =
  cn_chat_key :: string
  cn_chat_id :: int
  cn_topic_id :: int
  cn_project_id :: string
  cn_source_thread_id :: string
  cn_source_turn_id :: string
  cn_fork_thread_id :: "string option"
  cn_status :: continuation_status
  cn_failure_kind :: "string option"
  cn_updated_at :: instant

text \<open>The tables the operations on continuations and linked threads share.\<close>

record link_store =
  ls_continuations :: "continuation_row list"
  ls_threads :: "thread list"
  ls_commands :: command_table
  ls_bindings :: "thread_binding list"
  ls_approvals :: approvals

datatype link_error =
    LnKeyRequired | LnProjectRequired | LnChildRequired | LnFailureKind | LnChatRequired | LnConstraint
  | LnChanged nat | LnProvenance | LnNoProtector | LnProtect | LnUnprotect | LnGenerationRequired
  | LnGenerationRange | LnGenerationNegative | LnTitleState | LnState | LnChildMismatch | LnLinkedRequired
  | LnCodeRequired

definition failure_definite :: string where "failure_definite = ''definite''"
definition failure_ambiguous :: string where "failure_ambiguous = ''ambiguous''"
definition binding_mode_bound :: string where "binding_mode_bound = ''bound''"

section \<open>Keys\<close>

definition normalize_minimal_continuation_key :: "continuation_key \<Rightarrow> (link_error, continuation_key) result" where
  "normalize_minimal_continuation_key k0 =
     (let k = k0\<lparr>ck_source_thread_id := trim_space (ck_source_thread_id k0),
                 ck_source_turn_id := trim_space (ck_source_turn_id k0)\<rparr>
      in if ck_chat_id k = 0 \<or> ck_source_thread_id k = [] \<or> ck_source_turn_id k = [] then Inl LnKeyRequired
         else Inr k)"

definition normalize_minimal_continuation :: "continuation \<Rightarrow> (link_error, continuation) result" where
  "normalize_minimal_continuation c =
     (case normalize_minimal_continuation_key (co_key c) of
        Inl e \<Rightarrow> Inl e
      | Inr k \<Rightarrow>
         (let c' = c\<lparr>co_key := k, co_project_id := trim_space (co_project_id c)\<rparr>
          in if co_project_id c' = [] then Inl LnProjectRequired else Inr c'))"

type_synonym table_key = "string \<times> string \<times> string"

definition key_of :: "continuation_key \<Rightarrow> table_key" where
  "key_of k = (chat_key (ck_chat_id k) (ck_topic_id k), ck_source_thread_id k, ck_source_turn_id k)"

definition row_key :: "continuation_row \<Rightarrow> table_key" where
  "row_key r = (cn_chat_key r, cn_source_thread_id r, cn_source_turn_id r)"

text \<open>\<^verbatim>\<open>coalesce(column, '')\<close>.\<close>

definition or_empty :: "string option \<Rightarrow> string" where
  "or_empty v = (case v of None \<Rightarrow> [] | Some s \<Rightarrow> s)"

definition read_continuation :: "continuation_row \<Rightarrow> continuation" where
  "read_continuation r =
     \<lparr>co_key = \<lparr>ck_chat_id = cn_chat_id r, ck_topic_id = cn_topic_id r,
                ck_source_thread_id = cn_source_thread_id r, ck_source_turn_id = cn_source_turn_id r\<rparr>,
      co_project_id = cn_project_id r, co_fork_thread_id = or_empty (cn_fork_thread_id r),
      co_status = cn_status r, co_failure_kind = or_empty (cn_failure_kind r)\<rparr>"

definition find_continuation :: "table_key \<Rightarrow> continuation_row list \<Rightarrow> continuation_row option" where
  "find_continuation k rs = find (\<lambda>r. row_key r = k) rs"

definition get_minimal_continuation_row :: "continuation_key \<Rightarrow> link_store \<Rightarrow> continuation option" where
  "get_minimal_continuation_row k ls =
     map_option read_continuation (find_continuation (key_of k) (ls_continuations ls))"

section \<open>Operations\<close>

definition creating_row :: "instant \<Rightarrow> continuation \<Rightarrow> continuation_row" where
  "creating_row now c =
     \<lparr>cn_chat_key = chat_key (ck_chat_id (co_key c)) (ck_topic_id (co_key c)), cn_chat_id = ck_chat_id (co_key c),
      cn_topic_id = ck_topic_id (co_key c), cn_project_id = co_project_id c,
      cn_source_thread_id = ck_source_thread_id (co_key c), cn_source_turn_id = ck_source_turn_id (co_key c),
      cn_fork_thread_id = None, cn_status = CnCreating, cn_failure_kind = None, cn_updated_at = now\<rparr>"

text \<open>A failure that certainly left no fork may be tried again.\<close>

definition retryable :: "table_key \<Rightarrow> continuation_row \<Rightarrow> bool" where
  "retryable k r \<longleftrightarrow>
     row_key r = k \<and> cn_status r = CnFailed \<and> cn_failure_kind r = Some failure_definite \<and>
     or_empty (cn_fork_thread_id r) = []"

definition claim_minimal_continuation ::
  "instant \<Rightarrow> continuation \<Rightarrow> link_store \<Rightarrow> (link_error, continuation option \<times> bool) result \<times> link_store" where
  "claim_minimal_continuation now c ls =
     (case normalize_minimal_continuation c of
        Inl e \<Rightarrow> (Inl e, ls)
      | Inr seed \<Rightarrow>
         (let k = key_of (co_key seed); rs = ls_continuations ls;
              retried = length (filter (retryable k) rs) = 1;
              rs1 = update_rows (retryable k)
                      (\<lambda>r. r\<lparr>cn_status := CnCreating, cn_failure_kind := None, cn_updated_at := now\<rparr>) rs;
              absent = \<not> list_ex (\<lambda>r. row_key r = k) rs1;
              rs2 = (if \<not> retried \<and> absent then rs1 @ [creating_row now seed] else rs1);
              ls' = ls\<lparr>ls_continuations := rs2\<rparr>
          in (Inr (get_minimal_continuation_row (co_key seed) ls', retried \<or> absent), ls')))"

definition get_minimal_continuation ::
  "continuation_key \<Rightarrow> link_store \<Rightarrow> (link_error, continuation option) result" where
  "get_minimal_continuation k0 ls =
     (case normalize_minimal_continuation_key k0 of
        Inl e \<Rightarrow> Inl e
      | Inr k \<Rightarrow> Inr (get_minimal_continuation_row k ls))"

definition latest_active :: "(continuation_row \<Rightarrow> bool) \<Rightarrow> link_store \<Rightarrow> continuation option" where
  "latest_active p ls =
     map_option read_continuation (greatest (\<lambda>r. stamp_key (cn_updated_at r))
       (filter (\<lambda>r. p r \<and> cn_status r = CnActive) (ls_continuations ls)))"

definition active_minimal_continuation_for_fork :: "int \<Rightarrow> int \<Rightarrow> string \<Rightarrow> link_store \<Rightarrow> continuation option" where
  "active_minimal_continuation_for_fork chat topic fork ls =
     (let f = trim_space fork
      in if chat = 0 \<or> f = [] then None
         else latest_active (\<lambda>r. cn_chat_key r = chat_key chat topic \<and> cn_fork_thread_id r = Some f) ls)"

definition active_minimal_continuation_by_fork :: "string \<Rightarrow> link_store \<Rightarrow> continuation option" where
  "active_minimal_continuation_by_fork fork ls =
     (let f = trim_space fork in if f = [] then None else latest_active (\<lambda>r. cn_fork_thread_id r = Some f) ls)"

definition creating_for :: "table_key \<Rightarrow> continuation_row \<Rightarrow> bool" where
  "creating_for k r \<longleftrightarrow> row_key r = k \<and> cn_status r = CnCreating"

text \<open>The unique index on the forks that are set.\<close>

definition fork_taken :: "table_key \<Rightarrow> string \<Rightarrow> continuation_row list \<Rightarrow> bool" where
  "fork_taken k fork rs \<longleftrightarrow> list_ex (\<lambda>r. cn_fork_thread_id r = Some fork \<and> row_key r \<noteq> k) rs"

text \<open>Waiting commands of the source turn move to the fork.\<close>

definition rehome_commands :: "int \<Rightarrow> int \<Rightarrow> string \<Rightarrow> string \<Rightarrow> string \<Rightarrow> command_table \<Rightarrow> command_table" where
  "rehome_commands chat topic source turn target tab =
     tab\<lparr>ct_rows := update_rows (\<lambda>r. source_key r = (chat, topic, source, turn) \<and> open_status (pc_status r))
           (\<lambda>r. r\<lparr>pc_thread_id := target\<rparr>) (ct_rows tab)\<rparr>"

definition activate_minimal_continuation ::
  "instant \<Rightarrow> continuation \<Rightarrow> thread \<Rightarrow> link_store \<Rightarrow> (link_error, unit) result \<times> link_store" where
  "activate_minimal_continuation now c child0 ls =
     (case normalize_minimal_continuation c of
        Inl e \<Rightarrow> (Inl e, ls)
      | Inr seed \<Rightarrow>
         (let child = child0\<lparr>th_id := trim_space (th_id child0)\<rparr>; key = co_key seed; k = key_of key;
              rs = ls_continuations ls; n = length (filter (creating_for k) rs)
          in if th_id child = [] then (Inl LnChildRequired, ls)
             else if n \<noteq> 0 \<and> fork_taken k (th_id child) rs then (Inl LnConstraint, ls)
             else if n \<noteq> 1 then (Inl (LnChanged n), ls)
             else (Inr (), ls\<lparr>
               ls_threads := upsert_thread child (ls_threads ls),
               ls_continuations := update_rows (creating_for k)
                 (\<lambda>r. r\<lparr>cn_fork_thread_id := Some (th_id child), cn_status := CnActive, cn_failure_kind := None,
                        cn_updated_at := now\<rparr>) rs,
               ls_commands := rehome_commands (ck_chat_id key) (ck_topic_id key) (ck_source_thread_id key)
                 (ck_source_turn_id key) (th_id child) (ls_commands ls),
               ls_bindings := set_binding (ck_chat_id key) (ck_topic_id key) (th_id child) binding_mode_bound
                 (ls_bindings ls)\<rparr>)))"

definition fail_minimal_continuation ::
  "instant \<Rightarrow> continuation \<Rightarrow> string \<Rightarrow> link_store \<Rightarrow> (link_error, unit) result \<times> link_store" where
  "fail_minimal_continuation now c kind0 ls =
     (case normalize_minimal_continuation c of
        Inl e \<Rightarrow> (Inl e, ls)
      | Inr seed \<Rightarrow>
         (let kind = trim_space kind0; k = key_of (co_key seed); rs = ls_continuations ls;
              n = length (filter (creating_for k) rs)
          in if kind \<noteq> failure_definite \<and> kind \<noteq> failure_ambiguous then (Inl LnFailureKind, ls)
             else ((if n = 1 then Inr () else Inl (LnChanged n)),
               ls\<lparr>ls_continuations := update_rows (creating_for k)
                   (\<lambda>r. r\<lparr>cn_status := CnFailed, cn_failure_kind := Some kind, cn_updated_at := now\<rparr>) rs\<rparr>)))"

definition recover_creating_minimal_continuations :: "instant \<Rightarrow> link_store \<Rightarrow> nat \<times> link_store" where
  "recover_creating_minimal_continuations now ls =
     (let rs = ls_continuations ls;
          waits = (\<lambda>r. list_ex (\<lambda>c. cn_status c = CnCreating \<and>
                    (cn_chat_id c, cn_topic_id c, cn_source_thread_id c, cn_source_turn_id c) = source_key r) rs)
      in (length (filter (\<lambda>r. cn_status r = CnCreating) rs),
          ls\<lparr>ls_commands := (ls_commands ls)\<lparr>ct_rows :=
               update_rows (\<lambda>r. pc_status r = CmdClaimed \<and> waits r) (\<lambda>r. r\<lparr>pc_status := CmdPending\<rparr>)
                 (ct_rows (ls_commands ls))\<rparr>,
             ls_continuations := update_rows (\<lambda>r. cn_status r = CnCreating)
               (\<lambda>r. r\<lparr>cn_status := CnFailed, cn_failure_kind := Some failure_ambiguous, cn_updated_at := now\<rparr>) rs\<rparr>))"

definition rearm_ambiguous_minimal_continuations ::
  "instant \<Rightarrow> int \<Rightarrow> int \<Rightarrow> link_store \<Rightarrow> (link_error, nat) result \<times> link_store" where
  "rearm_ambiguous_minimal_continuations now chat topic ls =
     (let p = (\<lambda>r. cn_chat_key r = chat_key chat topic \<and> cn_status r = CnFailed \<and>
                   cn_failure_kind r = Some failure_ambiguous);
          rs = ls_continuations ls
      in if chat = 0 then (Inl LnChatRequired, ls)
         else (Inr (length (filter p rs)),
               ls\<lparr>ls_continuations := update_rows p
                   (\<lambda>r. r\<lparr>cn_failure_kind := Some failure_definite, cn_updated_at := now\<rparr>) rs\<rparr>))"

end
