(* ===== verification/Linked_Threads.thy ===== *)
theory Linked_Threads
  imports Continuations
begin

text \<open>
  Linked threads of the minimal profile (\<^verbatim>\<open>internal/storage/store_minimal.go\<close> and
  \<^verbatim>\<open>store.go\<close>): a chat continues a source thread in a linked copy, which a worker process owns
  while Telegram uses it. The worker's generation is its fencing token: every write names the
  generation it was made under. The rows are kept in the outbox (\<^verbatim>\<open>Delivery_Store\<close>), because a
  terminal event begins the release of a linked thread in its own transaction.
\<close>

section \<open>Rows\<close>

record linked_thread =
  ml_chat_key :: string
  ml_chat_id :: int
  ml_topic_id :: int
  ml_project_id :: string
  ml_source_thread_id :: string
  ml_linked_thread_id :: string
  ml_source_anchor_turn_id :: string
  ml_source_title :: string
  ml_desired_title :: string
  ml_title_state :: string
  ml_state :: string
  ml_active_turn_id :: string
  ml_worker_generation :: "64 word"
  ml_last_blocked_at :: "instant option"
  ml_last_blocked_code :: string
  ml_failure_kind :: string
  ml_released_at :: "instant option"

definition linked_ready :: string where "linked_ready = ''ready''"
definition linked_failed :: string where "linked_failed = ''failed''"
definition title_pending :: string where "title_pending = ''pending''"
definition title_set :: string where "title_set = ''set''"

definition ls_linked :: "link_store \<Rightarrow> linked_row list" where
  "ls_linked ls = ob_linked (av_outbox (ls_approvals ls))"

definition set_linked :: "linked_row list \<Rightarrow> link_store \<Rightarrow> link_store" where
  "set_linked rows ls =
     ls\<lparr>ls_approvals := (ls_approvals ls)\<lparr>av_outbox := (av_outbox (ls_approvals ls))\<lparr>ob_linked := rows\<rparr>\<rparr>\<rparr>"

text \<open>An UPDATE that reports whether it changed exactly one row.\<close>

definition update_linked ::
  "(linked_row \<Rightarrow> bool) \<Rightarrow> (linked_row \<Rightarrow> linked_row) \<Rightarrow> link_store \<Rightarrow> bool \<times> link_store" where
  "update_linked p f ls =
     (length (filter p (ls_linked ls)) = 1, set_linked (update_rows p f (ls_linked ls)) ls)"

section \<open>Titles and generations\<close>

definition protect_minimal_linked_title :: "protector option \<Rightarrow> string \<Rightarrow> (link_error, string option) result" where
  "protect_minimal_linked_title prot title0 =
     (let title = trim_space title0
      in if title = [] then Inr None
         else case prot of
           None \<Rightarrow> Inl LnNoProtector
         | Some p \<Rightarrow> (case protect p title of None \<Rightarrow> Inl LnProtect | Some t \<Rightarrow> Inr (Some t)))"

definition unprotect_minimal_linked_title :: "protector option \<Rightarrow> string option \<Rightarrow> (link_error, string) result" where
  "unprotect_minimal_linked_title prot payload =
     (if trim_space (or_empty payload) = [] then Inr []
      else case prot of
        None \<Rightarrow> Inl LnNoProtector
      | Some p \<Rightarrow> (case unprotect p (or_empty payload) of None \<Rightarrow> Inl LnUnprotect | Some t \<Rightarrow> Inr t))"

definition minimal_linked_title_state_valid :: "string \<Rightarrow> bool" where
  "minimal_linked_title_state_valid st \<longleftrightarrow> st = title_pending \<or> st = title_set"

definition minimal_linked_generation_int64 :: "64 word \<Rightarrow> (link_error, int) result" where
  "minimal_linked_generation_int64 g = (if g > 0x7FFFFFFFFFFFFFFF then Inl LnGenerationRange else Inr (uint g))"

definition sanitize_minimal_linked_code :: "string \<Rightarrow> string" where
  "sanitize_minimal_linked_code v = take 128 (trim_space v)"

definition scan_minimal_linked_thread :: "protector option \<Rightarrow> linked_row \<Rightarrow> (link_error, linked_thread) result" where
  "scan_minimal_linked_thread prot r =
     (if lt_worker_generation r < 0 then Inl LnGenerationNegative
      else case unprotect_minimal_linked_title prot (lt_source_title r) of
        Inl e \<Rightarrow> Inl e
      | Inr source_title \<Rightarrow>
         (case unprotect_minimal_linked_title prot (lt_desired_title r) of
            Inl e \<Rightarrow> Inl e
          | Inr desired_title \<Rightarrow> Inr
             \<lparr>ml_chat_key = lt_chat_key r, ml_chat_id = lt_chat_id r, ml_topic_id = lt_topic_id r,
              ml_project_id = lt_project_id r, ml_source_thread_id = lt_source_thread_id r,
              ml_linked_thread_id = or_empty (lt_linked_thread_id r),
              ml_source_anchor_turn_id = lt_source_anchor_turn_id r, ml_source_title = source_title,
              ml_desired_title = desired_title, ml_title_state = lt_title_state r, ml_state = lt_state r,
              ml_active_turn_id = or_empty (lt_active_turn_id r),
              ml_worker_generation = word_of_int (lt_worker_generation r),
              ml_last_blocked_at = lt_last_blocked_at r, ml_last_blocked_code = or_empty (lt_last_blocked_code r),
              ml_failure_kind = or_empty (lt_failure_kind r), ml_released_at = lt_released_at r\<rparr>))"

section \<open>Lookup\<close>

definition linked_key :: "linked_row \<Rightarrow> string \<times> string" where
  "linked_key r = (lt_chat_key r, lt_source_thread_id r)"

definition scan_found ::
  "protector option \<Rightarrow> linked_row option \<Rightarrow> (link_error, linked_thread option) result" where
  "scan_found prot found =
     (case found of
        None \<Rightarrow> Inr None
      | Some r \<Rightarrow> map_sum id Some (scan_minimal_linked_thread prot r))"

definition get_minimal_linked_thread ::
  "protector option \<Rightarrow> int \<Rightarrow> int \<Rightarrow> string \<Rightarrow> link_store \<Rightarrow> (link_error, linked_thread option) result" where
  "get_minimal_linked_thread prot chat topic source0 ls =
     (let source = trim_space source0
      in if chat = 0 \<or> source = [] then Inr None
         else scan_found prot (find (\<lambda>r. linked_key r = (chat_key chat topic, source)) (ls_linked ls)))"

definition get_minimal_linked_thread_by_linked_id ::
  "protector option \<Rightarrow> string \<Rightarrow> link_store \<Rightarrow> (link_error, linked_thread option) result" where
  "get_minimal_linked_thread_by_linked_id prot linked0 ls =
     (let linked = trim_space linked0
      in if linked = [] then Inr None
         else scan_found prot (find (\<lambda>r. lt_linked_thread_id r = Some linked) (ls_linked ls)))"

section \<open>Adoption\<close>

text \<open>
  Active continuations without a linked thread are adopted: of one chat and source thread the fork
  the chat is bound to, else the latest.
\<close>

definition adoptable :: "link_store \<Rightarrow> continuation_row \<Rightarrow> bool" where
  "adoptable ls c \<longleftrightarrow>
     cn_status c = CnActive \<and> or_empty (cn_fork_thread_id c) \<noteq> [] \<and>
     \<not> list_ex (\<lambda>l. linked_key l = (cn_chat_key c, cn_source_thread_id c)) (ls_linked ls)"

definition bound_to_fork :: "link_store \<Rightarrow> continuation_row \<Rightarrow> bool" where
  "bound_to_fork ls c \<longleftrightarrow>
     (case find (\<lambda>b. tb_chat_key b = cn_chat_key c) (ls_bindings ls) of
        None \<Rightarrow> False
      | Some b \<Rightarrow> cn_fork_thread_id c = Some (tb_thread_id b))"

definition source_group :: "continuation_row \<Rightarrow> string \<times> string" where
  "source_group c = (cn_chat_key c, cn_source_thread_id c)"

definition adoption_rank :: "link_store \<Rightarrow> continuation_row \<Rightarrow> bool \<times> (int \<times> string) \<times> string" where
  "adoption_rank ls c = (bound_to_fork ls c, stamp_key (cn_updated_at c), or_empty (cn_fork_thread_id c))"

text \<open>The rows in the order of the query.\<close>

definition adoption_order :: "link_store \<Rightarrow> continuation_row list" where
  "adoption_order ls =
     sort_key source_group (rev (sort_key (adoption_rank ls) (rev (filter (adoptable ls) (ls_continuations ls)))))"

text \<open>The loop over the rows keeps the first of each group; \<^verbatim>\<open>seen\<close> holds the groups it has met.\<close>

fun first_of_each :: "('r \<Rightarrow> 'k) \<Rightarrow> 'k list \<Rightarrow> 'r list \<Rightarrow> 'r list" where
  "first_of_each key seen [] = []"
| "first_of_each key seen (r # rs) =
     (if key r \<in> set seen then first_of_each key seen rs
      else r # first_of_each key (key r # seen) rs)"

definition adoption_candidates :: "link_store \<Rightarrow> continuation_row list" where
  "adoption_candidates ls = first_of_each source_group [] (adoption_order ls)"

definition adopted_row :: "continuation_row \<Rightarrow> linked_row" where
  "adopted_row c =
     \<lparr>lt_chat_key = cn_chat_key c, lt_chat_id = cn_chat_id c, lt_topic_id = cn_topic_id c,
      lt_project_id = cn_project_id c, lt_source_thread_id = cn_source_thread_id c,
      lt_linked_thread_id = cn_fork_thread_id c, lt_source_anchor_turn_id = cn_source_turn_id c,
      lt_source_title = None, lt_desired_title = None, lt_title_state = title_pending, lt_state = linked_ready,
      lt_active_turn_id = None, lt_worker_generation = 0, lt_last_blocked_at = None,
      lt_last_blocked_code = None, lt_failure_kind = None, lt_released_at = None\<rparr>"

text \<open>The unique index on the linked thread ids that are set.\<close>

definition linked_id_taken :: "string option \<Rightarrow> linked_row list \<Rightarrow> bool" where
  "linked_id_taken i rows \<longleftrightarrow> or_empty i \<noteq> [] \<and> list_ex (\<lambda>r. lt_linked_thread_id r = i) rows"

fun adopt_rows :: "continuation_row list \<Rightarrow> nat \<Rightarrow> linked_row list \<Rightarrow> (link_error, nat \<times> linked_row list) result" where
  "adopt_rows [] n rows = Inr (n, rows)"
| "adopt_rows (c # cs) n rows =
     (if list_ex (\<lambda>l. linked_key l = (cn_chat_key c, cn_source_thread_id c)) rows then adopt_rows cs n rows
      else if linked_id_taken (cn_fork_thread_id c) rows then Inl LnConstraint
      else adopt_rows cs (Suc n) (rows @ [adopted_row c]))"

definition adopt_minimal_linked_threads :: "link_store \<Rightarrow> (link_error, nat) result \<times> link_store" where
  "adopt_minimal_linked_threads ls =
     (case adopt_rows (adoption_candidates ls) 0 (ls_linked ls) of
        Inl e \<Rightarrow> (Inl e, ls)
      | Inr (n, rows) \<Rightarrow> (Inr n, set_linked rows ls))"

definition hydrate_minimal_linked_titles ::
  "protector option \<Rightarrow> string \<Rightarrow> string \<Rightarrow> string \<Rightarrow> link_store \<Rightarrow> (link_error, bool) result \<times> link_store" where
  "hydrate_minimal_linked_titles prot linked0 source0 desired0 ls =
     (let linked = trim_space linked0; source_title = trim_space source0; desired_title = trim_space desired0;
          fill = (\<lambda>old new. if or_empty old = [] then new else old)
      in if linked = [] \<or> source_title = [] \<or> desired_title = [] then (Inr False, ls)
         else case protect_minimal_linked_title prot source_title of
           Inl e \<Rightarrow> (Inl e, ls)
         | Inr ps \<Rightarrow>
            (case protect_minimal_linked_title prot desired_title of
               Inl e \<Rightarrow> (Inl e, ls)
             | Inr pd \<Rightarrow>
                (case update_linked
                   (\<lambda>r. lt_linked_thread_id r = Some linked \<and>
                        (or_empty (lt_source_title r) = [] \<or> or_empty (lt_desired_title r) = []))
                   (\<lambda>r. r\<lparr>lt_source_title := fill (lt_source_title r) ps,
                          lt_desired_title := fill (lt_desired_title r) pd\<rparr>) ls of
                   (one, ls') \<Rightarrow> (Inr one, ls'))))"

section \<open>Activation\<close>

definition normalize_minimal_linked_activation ::
  "linked_thread \<Rightarrow> string \<Rightarrow> (link_error, linked_thread) result" where
  "normalize_minimal_linked_activation l0 child0 =
     (let child = trim_space child0;
          default = (\<lambda>v d. if v = [] then d else v);
          l = l0\<lparr>ml_chat_key := chat_key (ml_chat_id l0) (ml_topic_id l0),
                ml_project_id := trim_space (ml_project_id l0),
                ml_source_thread_id := trim_space (ml_source_thread_id l0),
                ml_linked_thread_id := trim_space (ml_linked_thread_id l0),
                ml_source_anchor_turn_id := trim_space (ml_source_anchor_turn_id l0),
                ml_title_state := default (trim_space (ml_title_state l0)) title_pending,
                ml_state := default (trim_space (ml_state l0)) linked_running\<rparr>
      in if ml_chat_id l = 0 \<or> ml_project_id l = [] \<or> ml_source_thread_id l = [] \<or>
            ml_source_anchor_turn_id l = [] \<or> child = [] then Inl LnKeyRequired
         else if ml_linked_thread_id l \<noteq> [] \<and> ml_linked_thread_id l \<noteq> child then Inl LnChildMismatch
         else if \<not> minimal_linked_title_state_valid (ml_title_state l) then Inl LnTitleState
         else if ml_state l \<noteq> linked_running then Inl LnState
         else Inr (l\<lparr>ml_linked_thread_id := child\<rparr>))"

definition fill_minimal_linked_provenance :: "linked_thread \<Rightarrow> continuation \<Rightarrow> continuation" where
  "fill_minimal_linked_provenance l c =
     (let k = co_key c
      in c\<lparr>co_key := \<lparr>ck_chat_id = (if ck_chat_id k = 0 then ml_chat_id l else ck_chat_id k),
             ck_topic_id = (if ck_topic_id k = 0 then ml_topic_id l else ck_topic_id k),
             ck_source_thread_id = (if trim_space (ck_source_thread_id k) = [] then ml_source_thread_id l
                                    else ck_source_thread_id k),
             ck_source_turn_id = (if trim_space (ck_source_turn_id k) = [] then ml_source_anchor_turn_id l
                                  else ck_source_turn_id k)\<rparr>,
           co_project_id := (if trim_space (co_project_id c) = [] then ml_project_id l else co_project_id c)\<rparr>)"

definition provenance_matches :: "linked_thread \<Rightarrow> continuation \<Rightarrow> bool" where
  "provenance_matches l seed \<longleftrightarrow>
     co_key seed = \<lparr>ck_chat_id = ml_chat_id l, ck_topic_id = ml_topic_id l,
                    ck_source_thread_id = ml_source_thread_id l, ck_source_turn_id = ml_source_anchor_turn_id l\<rparr> \<and>
     co_project_id seed = ml_project_id l"

text \<open>The upsert of the continuation: an existing row must be on its way to this fork.\<close>

definition confirms_fork :: "table_key \<Rightarrow> string \<Rightarrow> continuation_row \<Rightarrow> bool" where
  "confirms_fork k fork r \<longleftrightarrow>
     row_key r = k \<and> (cn_status r = CnCreating \<or> cn_status r = CnActive) \<and>
     (or_empty (cn_fork_thread_id r) = [] \<or> cn_fork_thread_id r = Some fork)"

definition confirm_continuation ::
  "instant \<Rightarrow> continuation \<Rightarrow> string \<Rightarrow> continuation_row list \<Rightarrow> (link_error, continuation_row list) result" where
  "confirm_continuation now seed fork rs =
     (let k = key_of (co_key seed);
          activate = (\<lambda>r. r\<lparr>cn_fork_thread_id := Some fork, cn_status := CnActive, cn_failure_kind := None,
                           cn_updated_at := now\<rparr>)
      in if list_ex (\<lambda>r. row_key r = k) rs
         then if length (filter (confirms_fork k fork) rs) \<noteq> 1 then Inl (LnChanged 0)
              else if fork_taken k fork rs then Inl LnConstraint
              else Inr (update_rows (confirms_fork k fork) activate rs)
         else if fork_taken k fork rs then Inl LnConstraint
         else Inr (rs @ [activate (creating_row now seed)]))"

definition activated_row :: "linked_thread \<Rightarrow> string option \<Rightarrow> string option \<Rightarrow> int \<Rightarrow> linked_row" where
  "activated_row l ps pd generation =
     \<lparr>lt_chat_key = ml_chat_key l, lt_chat_id = ml_chat_id l, lt_topic_id = ml_topic_id l,
      lt_project_id = ml_project_id l, lt_source_thread_id = ml_source_thread_id l,
      lt_linked_thread_id = Some (ml_linked_thread_id l),
      lt_source_anchor_turn_id = ml_source_anchor_turn_id l, lt_source_title = ps, lt_desired_title = pd,
      lt_title_state = ml_title_state l, lt_state = ml_state l, lt_active_turn_id = None,
      lt_worker_generation = generation, lt_last_blocked_at = None, lt_last_blocked_code = None,
      lt_failure_kind = None, lt_released_at = None\<rparr>"

definition insert_linked :: "linked_row \<Rightarrow> linked_row list \<Rightarrow> (link_error, linked_row list) result" where
  "insert_linked r rows =
     (if list_ex (\<lambda>x. linked_key x = linked_key r) rows \<or> linked_id_taken (lt_linked_thread_id r) rows
      then Inl LnConstraint else Inr (rows @ [r]))"

definition commit_activation ::
  "instant \<Rightarrow> linked_thread \<Rightarrow> continuation \<Rightarrow> thread \<Rightarrow> linked_row \<Rightarrow> link_store \<Rightarrow>
   (link_error, unit) result \<times> link_store" where
  "commit_activation now l seed child row ls =
     (case confirm_continuation now seed (ml_linked_thread_id l) (ls_continuations ls) of
        Inl e \<Rightarrow> (Inl e, ls)
      | Inr rs \<Rightarrow>
         (case insert_linked row (ls_linked ls) of
            Inl e \<Rightarrow> (Inl e, ls)
          | Inr rows \<Rightarrow> (Inr (), set_linked rows (ls\<lparr>
              ls_threads := upsert_thread child (ls_threads ls), ls_continuations := rs,
              ls_commands := rehome_commands (ml_chat_id l) (ml_topic_id l) (ml_source_thread_id l)
                (ml_source_anchor_turn_id l) (ml_linked_thread_id l) (ls_commands ls),
              ls_bindings := set_binding (ml_chat_id l) (ml_topic_id l) (ml_linked_thread_id l) binding_mode_bound
                (ls_bindings ls)\<rparr>))))"

definition activate_minimal_linked_thread ::
  "protector option \<Rightarrow> instant \<Rightarrow> linked_thread \<Rightarrow> continuation \<Rightarrow> thread \<Rightarrow> link_store \<Rightarrow>
   (link_error, unit) result \<times> link_store" where
  "activate_minimal_linked_thread prot now link provenance child0 ls =
     (let child = child0\<lparr>th_id := trim_space (th_id child0)\<rparr>
      in if th_id child = [] then (Inl LnChildRequired, ls)
         else case normalize_minimal_linked_activation link (th_id child) of
           Inl e \<Rightarrow> (Inl e, ls)
         | Inr l \<Rightarrow>
            (case normalize_minimal_continuation (fill_minimal_linked_provenance l provenance) of
               Inl e \<Rightarrow> (Inl e, ls)
             | Inr seed \<Rightarrow>
                 if \<not> provenance_matches l seed then (Inl LnProvenance, ls)
                 else (case protect_minimal_linked_title prot (ml_source_title l) of
                   Inl e \<Rightarrow> (Inl e, ls)
                 | Inr ps \<Rightarrow>
                    (case protect_minimal_linked_title prot (ml_desired_title l) of
                       Inl e \<Rightarrow> (Inl e, ls)
                     | Inr pd \<Rightarrow>
                        (case minimal_linked_generation_int64 (ml_worker_generation l) of
                           Inl e \<Rightarrow> (Inl e, ls)
                         | Inr generation \<Rightarrow>
                             commit_activation now l seed child (activated_row l ps pd generation) ls)))))"

section \<open>The worker\<close>

definition held_by :: "string \<Rightarrow> int \<Rightarrow> string \<Rightarrow> linked_row \<Rightarrow> bool" where
  "held_by linked g st r \<longleftrightarrow>
     lt_linked_thread_id r = Some linked \<and> lt_worker_generation r = g \<and> lt_state r = st"

text \<open>A write under a generation: nothing for an empty id, an error for one that does not fit a column.\<close>

definition under_generation ::
  "string \<Rightarrow> 64 word \<Rightarrow> (int \<Rightarrow> bool \<times> link_store) \<Rightarrow> link_store \<Rightarrow> (link_error, bool) result \<times> link_store" where
  "under_generation linked g act ls =
     (if linked = [] then (Inr False, ls)
      else case minimal_linked_generation_int64 g of
        Inl e \<Rightarrow> (Inl e, ls)
      | Inr v \<Rightarrow> (case act v of (one, ls') \<Rightarrow> (Inr one, ls')))"

definition claim_minimal_linked_worker ::
  "string \<Rightarrow> 64 word \<Rightarrow> link_store \<Rightarrow> (link_error, bool) result \<times> link_store" where
  "claim_minimal_linked_worker linked0 g ls =
     (let linked = trim_space linked0
      in if linked \<noteq> [] \<and> g = 0 then (Inl LnGenerationRequired, ls)
         else under_generation linked g (\<lambda>v. update_linked
                (\<lambda>r. lt_linked_thread_id r = Some linked \<and> lt_state r = linked_ready \<and> lt_worker_generation r < v)
                (\<lambda>r. r\<lparr>lt_state := linked_running, lt_active_turn_id := None, lt_worker_generation := v,
                       lt_last_blocked_at := None, lt_last_blocked_code := None, lt_failure_kind := None\<rparr>) ls) ls)"

definition mark_minimal_linked_turn_started ::
  "string \<Rightarrow> 64 word \<Rightarrow> string \<Rightarrow> link_store \<Rightarrow> (link_error, bool) result \<times> link_store" where
  "mark_minimal_linked_turn_started linked0 g turn0 ls =
     (let linked = trim_space linked0; turn = trim_space turn0
      in if turn = [] then (Inr False, ls)
         else under_generation linked g (\<lambda>v. update_linked
                (\<lambda>r. held_by linked v linked_running r \<and> or_empty (lt_active_turn_id r) = [])
                (\<lambda>r. r\<lparr>lt_active_turn_id := Some turn\<rparr>) ls) ls)"

definition mark_minimal_linked_title_set ::
  "string \<Rightarrow> 64 word \<Rightarrow> link_store \<Rightarrow> (link_error, bool) result \<times> link_store" where
  "mark_minimal_linked_title_set linked0 g ls =
     (let linked = trim_space linked0
      in under_generation linked g (\<lambda>v. update_linked (held_by linked v linked_running)
           (\<lambda>r. r\<lparr>lt_title_state := title_set\<rparr>) ls) ls)"

definition begin_minimal_linked_release ::
  "linked_release \<Rightarrow> link_store \<Rightarrow> (link_error, bool) result \<times> link_store" where
  "begin_minimal_linked_release rel ls =
     (let linked = trim_space (lr_linked_thread_id rel); turn = trim_space (lr_turn_id rel);
          g = lr_worker_generation rel
      in if g = 0 then (Inl LnGenerationRequired, ls)
         else if turn = [] then (Inr False, ls)
         else under_generation linked g (\<lambda>v. update_linked
                (\<lambda>r. held_by linked v linked_running r \<and> lt_active_turn_id r = Some turn)
                (\<lambda>r. r\<lparr>lt_state := linked_release_pending\<rparr>) ls) ls)"

definition finish_minimal_linked_release ::
  "string \<Rightarrow> 64 word \<Rightarrow> instant \<Rightarrow> link_store \<Rightarrow> (link_error, bool) result \<times> link_store" where
  "finish_minimal_linked_release linked0 g released ls =
     (let linked = trim_space linked0
      in under_generation linked g (\<lambda>v. update_linked (held_by linked v linked_release_pending)
           (\<lambda>r. r\<lparr>lt_state := linked_ready, lt_active_turn_id := None, lt_released_at := Some released\<rparr>) ls) ls)"

definition released_row :: "instant \<Rightarrow> linked_row \<Rightarrow> linked_row" where
  "released_row released r =
     r\<lparr>lt_state := linked_ready, lt_active_turn_id := None, lt_worker_generation := 0,
       lt_released_at := Some released\<rparr>"

definition finish_minimal_linked_release_and_clear_worker ::
  "string \<Rightarrow> 64 word \<Rightarrow> instant \<Rightarrow> link_store \<Rightarrow> (link_error, bool) result \<times> link_store" where
  "finish_minimal_linked_release_and_clear_worker linked0 g released ls =
     (let linked = trim_space linked0
      in under_generation linked g (\<lambda>v. update_linked (held_by linked v linked_release_pending)
           (released_row released) ls) ls)"

definition minimal_linked_worker_session_identity :: "64 word \<Rightarrow> string" where
  "minimal_linked_worker_session_identity g = (if g = 0 then [] else ''minimal-link-worker:'' @ itoa (uint g))"

text \<open>The end of a handoff: the session's requests expire, the row is free, the notice is queued.\<close>

definition finish_minimal_linked_release_with_ready_delivery ::
  "protector option \<Rightarrow> instant \<Rightarrow> string \<Rightarrow> 64 word \<Rightarrow> string \<Rightarrow> string \<Rightarrow> instant \<Rightarrow> delivery_item option \<Rightarrow> link_store \<Rightarrow>
   (link_error, bool) result \<times> link_store" where
  "finish_minimal_linked_release_with_ready_delivery prot now linked0 g session0 turn0 released ready ls =
     (let linked = trim_space linked0; session0 = trim_space session0; turn = trim_space turn0
      in if linked = [] \<or> turn = [] then (Inr False, ls)
         else case minimal_linked_generation_int64 g of
           Inl e \<Rightarrow> (Inl e, ls)
         | Inr v \<Rightarrow>
            (case (case ready of
                     None \<Rightarrow> Inr []
                   | Some item \<Rightarrow>
                      (case prot of
                         None \<Rightarrow> Inl LnNoProtector
                       | Some p \<Rightarrow> (case protect p (qi_payload item) of None \<Rightarrow> Inl LnProtect | Some t \<Rightarrow> Inr t))) of
               Inl e \<Rightarrow> (Inl e, ls)
             | Inr protected \<Rightarrow>
                (let session = (if session0 = [] then minimal_linked_worker_session_identity g else session0);
                     av = snd (expire_minimal_approvals_for_session now session (ls_approvals ls));
                     (one, ls1) = update_linked
                        (\<lambda>r. held_by linked v linked_release_pending r \<and> lt_active_turn_id r = Some turn)
                        (released_row released) (ls\<lparr>ls_approvals := av\<rparr>)
                 in if \<not> one then (Inr False, ls)
                    else (Inr True, case ready of
                            None \<Rightarrow> ls1
                          | Some item \<Rightarrow> ls1\<lparr>ls_approvals := queue_or_ignore now protected
                              (item\<lparr>qi_status := Pending, qi_retry_count := 0, qi_last_error := []\<rparr>)
                              (ls_approvals ls1)\<rparr>))))"

definition record_minimal_linked_blocked ::
  "string \<Rightarrow> string \<Rightarrow> instant \<Rightarrow> link_store \<Rightarrow> (link_error, unit) result \<times> link_store" where
  "record_minimal_linked_blocked linked0 code0 at ls =
     (let linked = trim_space linked0; code = sanitize_minimal_linked_code code0;
          p = (\<lambda>r. lt_linked_thread_id r = Some linked \<and> lt_state r = linked_ready)
      in if linked = [] then (Inl LnLinkedRequired, ls)
         else if code = [] then (Inl LnCodeRequired, ls)
         else case update_linked p (\<lambda>r. r\<lparr>lt_last_blocked_at := Some at, lt_last_blocked_code := Some code\<rparr>) ls of
           (one, ls') \<Rightarrow> (if one then Inr () else Inl (LnChanged (length (filter p (ls_linked ls)))), ls'))"

definition fail_minimal_linked_thread ::
  "string \<Rightarrow> 64 word \<Rightarrow> string \<Rightarrow> link_store \<Rightarrow> (link_error, unit) result \<times> link_store" where
  "fail_minimal_linked_thread linked0 g kind0 ls =
     (let linked = trim_space linked0; kind = sanitize_minimal_linked_code kind0
      in if linked = [] \<or> kind = [] then (Inl LnCodeRequired, ls)
         else case minimal_linked_generation_int64 g of
           Inl e \<Rightarrow> (Inl e, ls)
         | Inr v \<Rightarrow>
            (let p = (\<lambda>r. held_by linked v linked_running r \<or> held_by linked v linked_release_pending r)
             in case update_linked p
                  (\<lambda>r. r\<lparr>lt_state := linked_failed, lt_active_turn_id := None, lt_failure_kind := Some kind\<rparr>) ls of
                  (one, ls') \<Rightarrow> (if one then Inr () else Inl (LnChanged (length (filter p (ls_linked ls)))), ls')))"

definition recover_minimal_linked_workers :: "link_store \<Rightarrow> nat \<times> link_store" where
  "recover_minimal_linked_workers ls =
     (length (filter (\<lambda>r. lt_state r = linked_running) (ls_linked ls)),
      set_linked (update_rows (\<lambda>r. lt_state r = linked_running) (\<lambda>r. r\<lparr>lt_state := linked_release_pending\<rparr>)
        (ls_linked ls)) ls)"

section \<open>Which forks are adopted\<close>

lemma first_of_each_in:
  "x \<in> set (first_of_each key seen xs) \<longleftrightarrow> key x \<notin> set seen \<and> (\<exists>ys. filter (\<lambda>y. key y = key x) xs = x # ys)"
  by (induction xs arbitrary: seen) auto

lemma first_of_each_subset: "set (first_of_each key seen xs) \<subseteq> set xs"
  by (induction xs arbitrary: seen) auto

lemma first_of_each_keys:
  "distinct (map key (first_of_each key seen xs)) \<and> key ` set (first_of_each key seen xs) = key ` set xs - set seen"
  by (induction xs arbitrary: seen) auto

lemma first_of_each_order:
  assumes "sorted (map key xs)"
  shows "sorted (map key (first_of_each key seen xs))"
  using assms
proof (induction xs arbitrary: seen)
  case (Cons x xs)
  have "key ` set (first_of_each key (key x # seen) xs) \<subseteq> key ` set xs"
    using first_of_each_subset [of key "key x # seen" xs] by blast
  then show ?case using Cons by (fastforce simp: image_subset_iff)
qed simp

lemma greatest_first:
  assumes "greatest k zs = Some x"
  shows "\<exists>ys. filter (\<lambda>y. k y = k x) zs = x # ys"
  using assms
proof (induction zs arbitrary: x)
  case (Cons a zs)
  show ?case
  proof (cases "greatest k zs")
    case None
    then show ?thesis using Cons.prems by (simp add: greatest_None)
  next
    case (Some s)
    then show ?thesis using Cons.IH [OF Some] Cons.prems by (auto split: if_splits)
  qed
qed simp

lemma sorted_last:
  assumes "sorted (map k ws)" "x \<in> set ws"
  shows "k x \<le> k (last ws)"
  using assms by (induction ws) auto

lemma last_filter: "ws \<noteq> [] \<Longrightarrow> P (last ws) \<Longrightarrow> last (filter P ws) = last ws"
  by (induction ws rule: rev_induct) auto

lemma last_sort_key:
  assumes "greatest k zs = Some x"
  shows "last (sort_key k (rev zs)) = x"
proof -
  let ?ws = "sort_key k (rev zs)"
  obtain ys where ys: "filter (\<lambda>y. k y = k x) zs = x # ys" using greatest_first [OF assms] by blast
  have mx: "x \<in> set zs" "\<forall>s\<in>set zs. k s \<le> k x" using greatest_in [OF assms] by simp_all
  then have ne: "?ws \<noteq> []" by (metis set_sort set_rev list.set(1) empty_iff)
  have "k x \<le> k (last ?ws)" using sorted_last [of k ?ws x] mx(1) by simp
  moreover have "last ?ws \<in> set zs" using ne last_in_set by fastforce
  ultimately have key: "k (last ?ws) = k x" using mx by force
  have "last ?ws = last (filter (\<lambda>y. k y = k x) ?ws)"
    using last_filter [of ?ws "\<lambda>y. k y = k x"] ne key by simp
  also have "\<dots> = last (rev (filter (\<lambda>y. k y = k x) zs))"
    by (simp add: sort_key_stable rev_filter)
  finally show ?thesis using ys by simp
qed

text \<open>The reference: of every group, in the order of the groups, the fork with the best rank.\<close>

definition best_forks :: "link_store \<Rightarrow> continuation_row list" where
  "best_forks ls =
     (let cs = filter (adoptable ls) (ls_continuations ls)
      in List.map_filter (\<lambda>g. greatest (adoption_rank ls) (filter (\<lambda>c. source_group c = g) cs))
           (sort (remdups (map source_group cs))))"

lemma first_of_each_head:
  assumes "x \<in> set (first_of_each key [] xs)"
  shows "x = hd (filter (\<lambda>y. key y = key x) xs)"
  using assms by (auto simp: first_of_each_in)

text \<open>Keeping the first row of each group of a sorted list is choosing one row per group.\<close>

lemma first_of_each_map:
  assumes "sorted (map key xs)"
  shows "first_of_each key [] xs =
    map (\<lambda>g. hd (filter (\<lambda>y. key y = g) xs)) (sort (remdups (map key xs)))"
proof -
  let ?ys = "first_of_each key [] xs"
  have "map key ?ys = sort (remdups (map key xs))"
    using first_of_each_keys [of key "[]" xs] first_of_each_order [OF assms, of "[]"]
    by (intro sorted_distinct_set_unique) auto
  moreover have "?ys = map (\<lambda>g. hd (filter (\<lambda>y. key y = g) xs)) (map key ?ys)"
    by (rule sym, simp add: o_def, rule map_idI) (simp add: first_of_each_head [symmetric])
  ultimately show ?thesis by simp
qed

lemma map_is_map_filter:
  assumes "\<And>g. g \<in> set gs \<Longrightarrow> h g = Some (f g)"
  shows "map f gs = List.map_filter h gs"
  using assms by (induction gs) (simp_all add: map_filter_simps)

text \<open>
  C32: The adoption loop equals its specification: walking over the rows of the query in their
  order and skipping every chat and source thread it has met yields, for each of them once and in
  order, the adoptable fork the chat is bound to, else the one changed last, else the one with the
  greatest id.
\<close>
theorem adoption_takes_best: "adoption_candidates ls = best_forks ls"
proof -
  let ?cs = "filter (adoptable ls) (ls_continuations ls)"
  let ?rank = "adoption_rank ls"
  have chosen: "Some (hd (filter (\<lambda>c. source_group c = g) (adoption_order ls)))
      = greatest ?rank (filter (\<lambda>c. source_group c = g) ?cs)" if "g \<in> source_group ` set ?cs" for g
  proof -
    have "filter (\<lambda>c. source_group c = g) ?cs \<noteq> []" using that by (auto simp only: filter_empty_conv)
    then obtain x where x: "greatest ?rank (filter (\<lambda>c. source_group c = g) ?cs) = Some x"
      using greatest_None [of ?rank "filter (\<lambda>c. source_group c = g) ?cs"] by blast
    have "filter (\<lambda>c. source_group c = g) (adoption_order ls)
        = rev (sort_key ?rank (rev (filter (\<lambda>c. source_group c = g) ?cs)))"
      by (simp only: adoption_order_def sort_key_stable rev_filter [symmetric] filter_sort)
    then show ?thesis using last_sort_key [OF x] x
      by (simp add: hd_rev)
  qed
  have "source_group ` set (adoption_order ls) = source_group ` set ?cs" by (simp add: adoption_order_def)
  then have "sort (remdups (map source_group (adoption_order ls))) = sort (remdups (map source_group ?cs))"
    by (intro sorted_distinct_set_unique) auto
  then have "adoption_candidates ls = map (\<lambda>g. hd (filter (\<lambda>c. source_group c = g) (adoption_order ls)))
      (sort (remdups (map source_group ?cs)))"
    by (simp add: adoption_candidates_def first_of_each_map adoption_order_def)
  also have "\<dots> = best_forks ls"
    unfolding best_forks_def Let_def
    by (rule map_is_map_filter) (use chosen [symmetric] in auto)
  finally show ?thesis .
qed

end
