(* ===== verification/Link_Safety.thy ===== *)
theory Link_Safety
  imports Linked_Threads Approval_Decisions
begin

text \<open>
  Continuations and linked threads as a state machine. A linked row refines a lease: free, leased
  to a generation, being released, or broken; only its holder moves a lease, apart from a restart,
  which asks for its release. A turn that has or may have a fork is not forked again.
\<close>

section \<open>Runs\<close>

text \<open>What a transaction can be named by: the continuation it fails, the chat it rearms, its generation.\<close>

datatype link_op =
    LopFail table_key string | LopRearm string | LopWorker "64 word" | LopRestart | LopOther

inductive link_step :: "protector \<Rightarrow> link_store \<Rightarrow> link_op \<Rightarrow> link_store \<Rightarrow> bool" for p where
  claim: "link_step p ls LopOther (snd (claim_minimal_continuation now c ls))"
| activate: "link_step p ls LopOther (snd (activate_minimal_continuation now c child ls))"
| fail: "normalize_minimal_continuation c = Inr seed \<Longrightarrow>
    link_step p ls (LopFail (key_of (co_key seed)) (trim_space kind)) (snd (fail_minimal_continuation now c kind ls))"
| recover: "link_step p ls LopRestart (snd (recover_creating_minimal_continuations now ls))"
| rearm: "link_step p ls (LopRearm (chat_key chat topic)) (snd (rearm_ambiguous_minimal_continuations now chat topic ls))"
| adopt: "link_step p ls LopOther (snd (adopt_minimal_linked_threads ls))"
| hydrate: "link_step p ls LopOther (snd (hydrate_minimal_linked_titles (Some p) linked source_title desired ls))"
| link: "link_step p ls LopOther (snd (activate_minimal_linked_thread (Some p) now l provenance child ls))"
| claim_worker: "link_step p ls (LopWorker g) (snd (claim_minimal_linked_worker linked g ls))"
| turn_started: "link_step p ls (LopWorker g) (snd (mark_minimal_linked_turn_started linked g turn ls))"
| titled: "link_step p ls (LopWorker g) (snd (mark_minimal_linked_title_set linked g ls))"
| release: "link_step p ls (LopWorker (lr_worker_generation rel)) (snd (begin_minimal_linked_release rel ls))"
| released: "link_step p ls (LopWorker g) (snd (finish_minimal_linked_release linked g at ls))"
| cleared: "link_step p ls (LopWorker g) (snd (finish_minimal_linked_release_and_clear_worker linked g at ls))"
| handed_off: "link_step p ls (LopWorker g)
    (snd (finish_minimal_linked_release_with_ready_delivery (Some p) now linked g session turn at ready ls))"
| blocked: "link_step p ls LopOther (snd (record_minimal_linked_blocked linked code at ls))"
| failed: "link_step p ls (LopWorker g) (snd (fail_minimal_linked_thread linked g kind ls))"
| recover_workers: "link_step p ls LopRestart (snd (recover_minimal_linked_workers ls))"
| event: "link_step p ls (case rel of None \<Rightarrow> LopOther | Some r \<Rightarrow> LopWorker (lr_worker_generation r))
    (ls\<lparr>ls_approvals := (ls_approvals ls)\<lparr>av_outbox := snd (enqueue_terminal_event_with_linked_release (Some p) now ev
       items rel (av_outbox (ls_approvals ls)))\<rparr>\<rparr>)"
| elsewhere: "ob_linked (av_outbox av) = ls_linked ls \<Longrightarrow>
    link_step p ls LopOther (ls\<lparr>ls_threads := ts, ls_commands := cs, ls_bindings := bs, ls_approvals := av\<rparr>)"

inductive link_run :: "protector \<Rightarrow> link_store \<Rightarrow> link_op list \<Rightarrow> link_store \<Rightarrow> bool" for p where
  start: "link_run p ls [] ls"
| step: "link_run p ls ops ls1 \<Longrightarrow> link_step p ls1 op ls2 \<Longrightarrow> link_run p ls (ops @ [op]) ls2"

definition empty_links :: link_store where
  "empty_links = \<lparr>ls_continuations = [], ls_threads = [], ls_commands = empty_commands, ls_bindings = [],
     ls_approvals = empty_approvals\<rparr>"

section \<open>The lease of a linked row\<close>

text \<open>The generation and the turn; no turn is the empty string.\<close>

datatype lease = Free | Leased int string | Releasing int string | Broken

definition lease_of :: "linked_row \<Rightarrow> lease" where
  "lease_of r =
     (if lt_state r = linked_ready then Free
      else if lt_state r = linked_running then Leased (lt_worker_generation r) (or_empty (lt_active_turn_id r))
      else if lt_state r = linked_release_pending
      then Releasing (lt_worker_generation r) (or_empty (lt_active_turn_id r))
      else Broken)"

inductive lease_step :: "link_op \<Rightarrow> lease \<Rightarrow> lease \<Rightarrow> bool" where
  stay: "lease_step op l l"
| take: "lease_step (LopWorker g) Free (Leased (uint g) [])"
| turn: "lease_step (LopWorker g) (Leased (uint g) []) (Leased (uint g) t)"
| ask: "lease_step (LopWorker g) (Leased (uint g) t) (Releasing (uint g) t)"
| restart: "lease_step LopRestart (Leased v t) (Releasing v t)"
| free: "lease_step (LopWorker g) (Releasing (uint g) t) Free"
| break_leased: "lease_step (LopWorker g) (Leased (uint g) t) Broken"
| break_releasing: "lease_step (LopWorker g) (Releasing (uint g) t) Broken"

inductive_cases lease_step_Leased: "lease_step op (Leased v t) l"
inductive_cases lease_step_Releasing: "lease_step op (Releasing v t) l"

fun lease_run :: "link_op list \<Rightarrow> lease \<Rightarrow> lease \<Rightarrow> bool" where
  "lease_run [] l l' \<longleftrightarrow> l' = l"
| "lease_run (op # ops) l l' \<longleftrightarrow> (\<exists>m. lease_step op l m \<and> lease_run ops m l')"

lemma lease_run_append: "lease_run (ops @ ops') l l' \<longleftrightarrow> (\<exists>m. lease_run ops l m \<and> lease_run ops' m l')"
  by (induction ops arbitrary: l) auto

text \<open>Without its holder a lease is kept; a restart asks for its release.\<close>

lemma lease_kept:
  assumes "lease_run ops l l'" "l = Leased v t \<or> l = Releasing v t" "\<And>g. LopWorker g \<in> set ops \<Longrightarrow> uint g \<noteq> v"
  shows "l' = Leased v t \<or> l' = Releasing v t"
  using assms
proof (induction ops arbitrary: l)
  case (Cons op ops)
  then obtain m where m: "lease_step op l m" "lease_run ops m l'" by auto
  have "m = Leased v t \<or> m = Releasing v t"
    using Cons.prems(2,3) m(1) by (auto elim: lease_step_Leased lease_step_Releasing)
  then show ?case using Cons m(2) by auto
qed simp

section \<open>The rows refine their leases\<close>

definition rows_refine :: "link_op \<Rightarrow> linked_row list \<Rightarrow> linked_row list \<Rightarrow> bool" where
  "rows_refine op rows rows' \<longleftrightarrow>
     (\<forall>r\<in>set rows. \<exists>r'\<in>set rows'. lt_linked_thread_id r' = lt_linked_thread_id r \<and> lease_step op (lease_of r) (lease_of r'))"

lemma refine_same: "rows_refine op rows rows"
  unfolding rows_refine_def by (blast intro: lease_step.stay)

lemma refine_update:
  assumes "\<And>r. q r \<Longrightarrow> lt_linked_thread_id (f r) = lt_linked_thread_id r \<and> lease_step op (lease_of r) (lease_of (f r))"
  shows "rows_refine op rows (update_rows q f rows)"
proof -
  have "lease_step op (lease_of r) (lease_of (if q r then f r else r)) \<and>
      lt_linked_thread_id (if q r then f r else r) = lt_linked_thread_id r" for r
    using assms [of r] by (simp add: lease_step.stay)
  then show ?thesis unfolding rows_refine_def set_update_rows by blast
qed

lemma refine_append: "rows_refine op rows (rows @ added)"
  unfolding rows_refine_def by (auto intro: lease_step.stay)

lemma linked_set [simp]: "ls_linked (set_linked rows ls) = rows"
  by (simp add: ls_linked_def set_linked_def)

lemma linked_frame [simp]:
  "ls_linked (ls\<lparr>ls_continuations := rs\<rparr>) = ls_linked ls" "ls_linked (ls\<lparr>ls_threads := ts\<rparr>) = ls_linked ls"
  "ls_linked (ls\<lparr>ls_commands := cs\<rparr>) = ls_linked ls" "ls_linked (ls\<lparr>ls_bindings := bs\<rparr>) = ls_linked ls"
  "ls_linked (ls\<lparr>ls_approvals := av\<rparr>) = ob_linked (av_outbox av)"
  by (simp_all add: ls_linked_def)

lemma continuations_set [simp]: "ls_continuations (set_linked rows ls) = ls_continuations ls"
  by (simp add: set_linked_def)

lemma refine_updated:
  assumes "update_linked q f ls = (one, ls')"
    "\<And>r. q r \<Longrightarrow> lt_linked_thread_id (f r) = lt_linked_thread_id r \<and> lease_step op (lease_of r) (lease_of (f r))"
  shows "rows_refine op (ls_linked ls) (ls_linked ls')"
  using assms(1) refine_update [of q f op "ls_linked ls", OF assms(2)] by (auto simp: update_linked_def)

lemma refine_generation:
  assumes "\<And>v ls'. minimal_linked_generation_int64 g = Inr v \<Longrightarrow> rows_refine op (ls_linked ls) (ls_linked (snd (act v)))"
  shows "rows_refine op (ls_linked ls) (ls_linked (snd (under_generation linked g act ls)))"
  using assms by (auto simp: under_generation_def refine_same split: sum.split prod.split)

lemma generation_value: "minimal_linked_generation_int64 g = Inr v \<Longrightarrow> v = uint g"
  by (simp add: minimal_linked_generation_int64_def split: if_splits)

lemma state_names [simp]:
  "linked_ready \<noteq> linked_running" "linked_ready \<noteq> linked_release_pending" "linked_ready \<noteq> linked_failed"
  "linked_running \<noteq> linked_release_pending" "linked_running \<noteq> linked_failed" "linked_release_pending \<noteq> linked_failed"
  by (simp_all add: linked_ready_def linked_running_def linked_release_pending_def linked_failed_def)

lemmas state_names' [simp] = state_names [symmetric]

lemmas lease_simps = lease_of_def held_by_def or_empty_def released_row_def lease_step.intros

lemma refine_claim_worker: "rows_refine (LopWorker g) (ls_linked ls) (ls_linked (snd (claim_minimal_linked_worker linked g ls)))"
  by (auto simp: claim_minimal_linked_worker_def Let_def refine_same update_linked_def lease_simps
      intro!: refine_generation refine_update dest!: generation_value)

lemma refine_turn: "rows_refine (LopWorker g) (ls_linked ls) (ls_linked (snd (mark_minimal_linked_turn_started linked g turn ls)))"
  by (auto simp: mark_minimal_linked_turn_started_def Let_def refine_same update_linked_def lease_simps
      intro!: refine_generation refine_update dest!: generation_value split: option.splits)

lemma refine_titled: "rows_refine (LopWorker g) (ls_linked ls) (ls_linked (snd (mark_minimal_linked_title_set linked g ls)))"
  by (auto simp: mark_minimal_linked_title_set_def Let_def refine_same update_linked_def lease_simps
      intro!: refine_generation refine_update)

lemma refine_release: "rows_refine (LopWorker (lr_worker_generation rel)) (ls_linked ls)
    (ls_linked (snd (begin_minimal_linked_release rel ls)))"
  by (auto simp: begin_minimal_linked_release_def Let_def refine_same update_linked_def lease_simps
      intro!: refine_generation refine_update dest!: generation_value)

lemma refine_released: "rows_refine (LopWorker g) (ls_linked ls) (ls_linked (snd (finish_minimal_linked_release linked g at ls)))"
  by (auto simp: finish_minimal_linked_release_def Let_def refine_same update_linked_def lease_simps
      intro!: refine_generation refine_update dest!: generation_value)

lemma refine_cleared:
  "rows_refine (LopWorker g) (ls_linked ls) (ls_linked (snd (finish_minimal_linked_release_and_clear_worker linked g at ls)))"
  by (auto simp: finish_minimal_linked_release_and_clear_worker_def Let_def refine_same update_linked_def lease_simps
      intro!: refine_generation refine_update dest!: generation_value)

lemma refine_blocked: "rows_refine op (ls_linked ls) (ls_linked (snd (record_minimal_linked_blocked linked code at ls)))"
  by (auto simp: record_minimal_linked_blocked_def Let_def refine_same update_linked_def lease_simps
      intro!: refine_update)

lemma refine_failed: "rows_refine (LopWorker g) (ls_linked ls) (ls_linked (snd (fail_minimal_linked_thread linked g kind ls)))"
  by (auto simp: fail_minimal_linked_thread_def Let_def refine_same update_linked_def lease_simps
      intro!: refine_update dest!: generation_value
      split: sum.split)

lemma refine_recover: "rows_refine LopRestart (ls_linked ls) (ls_linked (snd (recover_minimal_linked_workers ls)))"
  by (auto simp: recover_minimal_linked_workers_def lease_simps intro!: refine_update)

lemma refine_hydrate:
  "rows_refine op (ls_linked ls) (ls_linked (snd (hydrate_minimal_linked_titles prot linked source_title desired ls)))"
  by (auto simp: hydrate_minimal_linked_titles_def Let_def refine_same update_linked_def lease_simps
      intro!: refine_update split: sum.split)

lemma adopt_appends: "adopt_rows cs n rows = Inr (m, rows') \<Longrightarrow> \<exists>added. rows' = rows @ added"
  by (induction cs n rows rule: adopt_rows.induct) (fastforce split: if_splits)+

lemma refine_adopt: "rows_refine op (ls_linked ls) (ls_linked (snd (adopt_minimal_linked_threads ls)))"
  by (auto simp: adopt_minimal_linked_threads_def refine_same refine_append dest!: adopt_appends split: sum.split)

lemma refine_link:
  "rows_refine op (ls_linked ls) (ls_linked (snd (activate_minimal_linked_thread prot now l provenance child ls)))"
  by (auto simp: activate_minimal_linked_thread_def commit_activation_def insert_linked_def Let_def refine_same
      refine_append split: sum.split)

lemma session_end_outbox:
  "ob_linked (av_outbox (snd (expire_minimal_approvals_for_session now session av))) = ob_linked (av_outbox av)"
  by (auto simp: expire_minimal_approvals_for_session_def expire_minimal_approvals_of_session_def
      expire_pending_approvals_for_session_def expire_callback_routes_for_session_def kill_deliveries_def
      set_approvals_def Let_def split: prod.split)

lemma queued_linked [simp]: "ob_linked (av_outbox (queue_or_ignore now payload item av)) = ob_linked (av_outbox av)"
  by (simp add: queue_or_ignore_def append_row_def)

lemma refine_handed_off:
  "rows_refine (LopWorker g) (ls_linked ls) (ls_linked
     (snd (finish_minimal_linked_release_with_ready_delivery prot now linked g session turn at ready ls)))"
proof -
  let ?q = "\<lambda>v r. held_by (trim_space linked) v linked_release_pending r \<and> lt_active_turn_id r = Some (trim_space turn)"
  have "rows_refine (LopWorker g) (ls_linked ls) (update_rows (?q v) (released_row at) (ls_linked ls))"
    if "minimal_linked_generation_int64 g = Inr v" for v
    using generation_value [OF that]
    by (auto simp: lease_simps intro!: refine_update)
  then show ?thesis
    by (auto simp: finish_minimal_linked_release_with_ready_delivery_def Let_def refine_same update_linked_def
        session_end_outbox ls_linked_def [symmetric] split: sum.split option.split)
qed

lemma insert_group_linked: "insert_group now items ob = Inr ob' \<Longrightarrow> ob_linked ob' = ob_linked ob"
  by (induction now items ob rule: insert_group.induct) (auto simp: append_row_def split: if_splits)

lemma refine_event:
  "rows_refine (case rel of None \<Rightarrow> LopOther | Some r \<Rightarrow> LopWorker (lr_worker_generation r)) (ob_linked ob)
     (ob_linked (snd (enqueue_terminal_event_with_linked_release prot now ev items rel ob)))"
proof -
  have "rows_refine (LopWorker (lr_worker_generation r)) (ob_linked ob)
      (update_rows (release_row r) (\<lambda>x. x\<lparr>lt_state := linked_release_pending\<rparr>) (ob_linked ob))" for r
    by (auto simp: lease_simps release_row_def intro!: refine_update)
  then show ?thesis
    by (auto simp: enqueue_terminal_event_with_linked_release_def apply_release_def refine_same
        dest!: insert_group_linked split: sum.split option.split bool.split)
qed

lemma refine_step: "link_step p ls op ls' \<Longrightarrow> rows_refine op (ls_linked ls) (ls_linked ls')"
proof (induction rule: link_step.induct)
  case (claim ls now c)
  then show ?case by (simp add: claim_minimal_continuation_def Let_def refine_same split: sum.split)
next
  case (activate ls now c child)
  then show ?case by (simp add: activate_minimal_continuation_def Let_def refine_same split: sum.split)
next
  case (fail c seed ls kind now)
  then show ?case by (simp add: fail_minimal_continuation_def Let_def refine_same)
next
  case (event ls rel now ev items)
  then show ?case using refine_event [of rel "av_outbox (ls_approvals ls)" "Some p" now ev items]
    by (simp add: ls_linked_def)
qed (simp_all add: refine_claim_worker refine_turn refine_titled refine_release refine_released refine_cleared
    refine_blocked refine_failed refine_recover refine_hydrate refine_adopt refine_link refine_handed_off refine_same
    recover_creating_minimal_continuations_def rearm_ambiguous_minimal_continuations_def Let_def)

lemma refine_run:
  assumes "link_run p ls ops ls'" "r \<in> set (ls_linked ls)"
  shows "\<exists>r'\<in>set (ls_linked ls'). lt_linked_thread_id r' = lt_linked_thread_id r \<and> lease_run ops (lease_of r) (lease_of r')"
  using assms
proof (induction rule: link_run.induct)
  case (step ls ops ls1 op ls2)
  then obtain r1 where r1: "r1 \<in> set (ls_linked ls1)" "lt_linked_thread_id r1 = lt_linked_thread_id r"
    "lease_run ops (lease_of r) (lease_of r1)" by blast
  obtain r2 where "r2 \<in> set (ls_linked ls2)" "lt_linked_thread_id r2 = lt_linked_thread_id r1"
    "lease_step op (lease_of r1) (lease_of r2)"
    using refine_step [OF step(2)] r1(1) unfolding rows_refine_def by blast
  then show ?case using r1 by (auto simp: lease_run_append intro!: bexI [of _ r2])
qed auto

section \<open>One row per linked thread\<close>

definition linked_ok :: "linked_row list \<Rightarrow> bool" where
  "linked_ok rows \<longleftrightarrow>
     distinct (map lt_linked_thread_id rows) \<and> (\<forall>r\<in>set rows. or_empty (lt_linked_thread_id r) \<noteq> [])"

lemma linked_ok_update:
  assumes "linked_ok rows" "\<And>r. q r \<Longrightarrow> lt_linked_thread_id (f r) = lt_linked_thread_id r"
  shows "linked_ok (update_rows q f rows)"
proof -
  have eq: "lt_linked_thread_id (if q r then f r else r) = lt_linked_thread_id r" for r using assms(2) by simp
  then have "map lt_linked_thread_id (update_rows q f rows) = map lt_linked_thread_id rows" by (simp add: update_rows_def)
  then show ?thesis using assms(1) eq by (simp add: linked_ok_def ball_update_rows)
qed

lemma linked_ok_append:
  assumes "linked_ok rows" "\<not> linked_id_taken (lt_linked_thread_id r) rows" "or_empty (lt_linked_thread_id r) \<noteq> []"
  shows "linked_ok (rows @ [r])"
  using assms by (auto simp: linked_ok_def linked_id_taken_def list_ex_iff)

lemma linked_ok_updated:
  assumes "linked_ok (ls_linked ls)" "\<And>r. q r \<Longrightarrow> lt_linked_thread_id (f r) = lt_linked_thread_id r"
  shows "linked_ok (ls_linked (snd (update_linked q f ls)))"
  using linked_ok_update [OF assms] by (simp add: update_linked_def)

lemma linked_ok_generation:
  assumes "linked_ok (ls_linked ls)" "\<And>v. linked_ok (ls_linked (snd (act v)))"
  shows "linked_ok (ls_linked (snd (under_generation linked g act ls)))"
  using assms by (simp add: under_generation_def split: sum.split prod.split)
    (metis snd_conv)

lemma linked_ok_adopted:
  "adopt_rows cs n rows = Inr (m, rows') \<Longrightarrow> linked_ok rows \<Longrightarrow>
   (\<And>c. c \<in> set cs \<Longrightarrow> or_empty (cn_fork_thread_id c) \<noteq> []) \<Longrightarrow> linked_ok rows'"
proof (induction cs n rows rule: adopt_rows.induct)
  case (2 c cs n rows)
  then show ?case using linked_ok_append [of rows "adopted_row c"]
    by (auto simp: adopted_row_def split: if_splits)
qed simp

lemma candidates_adoptable:
  assumes "c \<in> set (adoption_candidates ls)"
  shows "adoptable ls c"
proof -
  have "c \<in> set (adoption_order ls)" using assms first_of_each_subset [of source_group "[]" "adoption_order ls"] unfolding adoption_candidates_def by blast
  then show ?thesis by (simp add: adoption_order_def)
qed

lemma activation_child:
  "normalize_minimal_linked_activation l child = Inr l' \<Longrightarrow> ml_linked_thread_id l' \<noteq> []"
  by (auto simp: normalize_minimal_linked_activation_def Let_def split: if_splits)

lemma linked_ok_link:
  assumes "linked_ok (ls_linked ls)"
  shows "linked_ok (ls_linked (snd (activate_minimal_linked_thread prot now l provenance child ls)))"
  using assms
  by (auto simp: activate_minimal_linked_thread_def commit_activation_def insert_linked_def Let_def activated_row_def
      or_empty_def dest: activation_child intro!: linked_ok_append split: sum.split)

lemmas linked_ok_simps = Let_def held_by_def released_row_def

lemma linked_ok_step:
  assumes "link_step p ls op ls'" "linked_ok (ls_linked ls)"
  shows "linked_ok (ls_linked ls')"
  using assms
proof (induction rule: link_step.induct)
  case (claim ls now c)
  then show ?case by (simp add: claim_minimal_continuation_def Let_def split: sum.split)
next
  case (activate ls now c child)
  then show ?case by (simp add: activate_minimal_continuation_def Let_def split: sum.split)
next
  case (fail c seed ls kind now)
  then show ?case by (simp add: fail_minimal_continuation_def Let_def)
next
  case (adopt ls)
  then show ?case
    by (auto simp: adopt_minimal_linked_threads_def dest!: linked_ok_adopted dest: candidates_adoptable
        simp: adoptable_def split: sum.split)
next
  case (hydrate ls linked source_title desired)
  then show ?case
    by (auto simp: hydrate_minimal_linked_titles_def Let_def update_linked_def intro!: linked_ok_update split: sum.split)
next
  case (link ls now l provenance child)
  then show ?case by (rule linked_ok_link)
next
  case (handed_off ls now linked g session turn at ready)
  have "linked_ok (update_rows q (released_row at) (ls_linked ls))" for q
    by (rule linked_ok_update [OF handed_off]) (simp add: released_row_def)
  then show ?case using handed_off
    by (auto simp: finish_minimal_linked_release_with_ready_delivery_def Let_def update_linked_def
        session_end_outbox ls_linked_def [symmetric] split: sum.split option.split)
next
  case (failed ls g linked kind)
  then show ?case
    by (auto simp: fail_minimal_linked_thread_def Let_def update_linked_def intro!: linked_ok_update split: sum.split)
next
  case (event ls rel now ev items)
  have "linked_ok (update_rows (release_row r) (\<lambda>x. x\<lparr>lt_state := linked_release_pending\<rparr>) (ls_linked ls))" for r
    by (rule linked_ok_update [OF event]) simp
  then show ?case using event
    by (auto simp: enqueue_terminal_event_with_linked_release_def apply_release_def ls_linked_def
        dest!: insert_group_linked split: sum.split option.split bool.split)
qed (auto simp: claim_minimal_linked_worker_def mark_minimal_linked_turn_started_def mark_minimal_linked_title_set_def
    begin_minimal_linked_release_def finish_minimal_linked_release_def
    finish_minimal_linked_release_and_clear_worker_def record_minimal_linked_blocked_def
    recover_minimal_linked_workers_def recover_creating_minimal_continuations_def
    rearm_ambiguous_minimal_continuations_def linked_ok_simps update_linked_def
    intro!: linked_ok_generation linked_ok_update)

lemma linked_ok_run: "link_run p ls ops ls' \<Longrightarrow> linked_ok (ls_linked ls) \<Longrightarrow> linked_ok (ls_linked ls')"
  by (induction rule: link_run.induct) (auto intro: linked_ok_step)

lemma empty_linked_ok: "linked_ok (ls_linked empty_links)"
  by (simp add: linked_ok_def ls_linked_def empty_links_def empty_approvals_def empty_outbox_def)

section \<open>A turn is forked once\<close>

text \<open>A row in whose place no second fork may be made: a fork exists, is being made, or may exist.\<close>

definition fork_possible :: "continuation_row \<Rightarrow> bool" where
  "fork_possible r \<longleftrightarrow> cn_status r \<noteq> CnFailed \<or> cn_failure_kind r = Some failure_ambiguous"

definition key_guarded :: "table_key \<Rightarrow> continuation_row list \<Rightarrow> bool" where
  "key_guarded k rs \<longleftrightarrow> (\<exists>r\<in>set rs. row_key r = k \<and> fork_possible r)"

definition keys_ok :: "continuation_row list \<Rightarrow> bool" where
  "keys_ok rs \<longleftrightarrow> distinct (map row_key rs)"

lemma keys_ok_update: "keys_ok rs \<Longrightarrow> (\<And>r. row_key (f r) = row_key r) \<Longrightarrow> keys_ok (update_rows q f rs)"
  by (simp add: keys_ok_def map_update_rows)

lemma guarded_update:
  assumes "key_guarded k rs" "\<And>r. row_key (f r) = row_key r"
    "\<And>r. q r \<Longrightarrow> row_key r = k \<Longrightarrow> fork_possible r \<Longrightarrow> fork_possible (f r)"
  shows "key_guarded k (update_rows q f rs)"
proof -
  obtain r where r: "r \<in> set rs" "row_key r = k" "fork_possible r" using assms(1) by (auto simp: key_guarded_def)
  have "(if q r then f r else r) \<in> set (update_rows q f rs)" using r(1) by (auto simp: set_update_rows)
  moreover have "row_key (if q r then f r else r) = k" "fork_possible (if q r then f r else r)"
    using r assms(2,3) by simp_all
  ultimately show ?thesis unfolding key_guarded_def by blast
qed

lemma guarded_append: "key_guarded k rs \<Longrightarrow> key_guarded k (rs @ rs')"
  by (auto simp: key_guarded_def)

lemma failure_kinds [simp]: "failure_definite \<noteq> failure_ambiguous" "failure_ambiguous \<noteq> failure_definite"
  by (simp_all add: failure_definite_def failure_ambiguous_def)

definition reopens :: "table_key \<Rightarrow> link_op \<Rightarrow> bool" where
  "reopens k op \<longleftrightarrow> op = LopFail k failure_definite \<or> op = LopRearm (fst k)"

definition links_ok :: "link_store \<Rightarrow> bool" where
  "links_ok ls \<longleftrightarrow> keys_ok (ls_continuations ls)"

lemma confirmed_rows:
  assumes "confirm_continuation now seed fork rs = Inr rs'"
  shows "(keys_ok rs \<longrightarrow> keys_ok rs') \<and> (key_guarded k rs \<longrightarrow> key_guarded k rs')"
proof -
  let ?f = "\<lambda>r. r\<lparr>cn_fork_thread_id := Some fork, cn_status := CnActive, cn_failure_kind := None, cn_updated_at := now\<rparr>"
  have f: "row_key (?f r) = row_key r" for r by (simp add: row_key_def)
  have upd: "keys_ok rs \<longrightarrow> keys_ok (update_rows q ?f rs)" "key_guarded k rs \<longrightarrow> key_guarded k (update_rows q ?f rs)" for q
    by (blast intro: keys_ok_update f) (intro impI, erule guarded_update, simp_all add: f, simp add: fork_possible_def)
  have new: "row_key (?f (creating_row now seed)) = key_of (co_key seed)"
    by (simp add: row_key_def creating_row_def key_of_def)
  have app: "keys_ok (rs @ [?f (creating_row now seed)])" if "keys_ok rs" "\<not> list_ex (\<lambda>r. row_key r = key_of (co_key seed)) rs"
    using that new by (auto simp: keys_ok_def list_ex_iff)
  show ?thesis
    using assms upd app by (auto simp: confirm_continuation_def Let_def intro: guarded_append split: if_splits)
qed

lemma linked_continuations:
  "(keys_ok (ls_continuations ls) \<longrightarrow>
      keys_ok (ls_continuations (snd (activate_minimal_linked_thread prot now l provenance child ls)))) \<and>
   (key_guarded k (ls_continuations ls) \<longrightarrow>
      key_guarded k (ls_continuations (snd (activate_minimal_linked_thread prot now l provenance child ls))))"
  by (auto simp: activate_minimal_linked_thread_def commit_activation_def Let_def dest: confirmed_rows split: sum.split)

lemma claimed_continuations:
  "(keys_ok (ls_continuations ls) \<longrightarrow> keys_ok (ls_continuations (snd (claim_minimal_continuation now c ls)))) \<and>
   (key_guarded k (ls_continuations ls) \<longrightarrow> key_guarded k (ls_continuations (snd (claim_minimal_continuation now c ls))))"
proof (cases "normalize_minimal_continuation c")
  case (Inr seed)
  let ?f = "\<lambda>r. r\<lparr>cn_status := CnCreating, cn_failure_kind := None, cn_updated_at := now\<rparr>"
  let ?rs = "update_rows (retryable (key_of (co_key seed))) ?f (ls_continuations ls)"
  have f: "row_key (?f r) = row_key r" for r by (simp add: row_key_def)
  have new: "row_key (creating_row now seed) = key_of (co_key seed)"
    by (simp add: row_key_def creating_row_def key_of_def)
  have "keys_ok (ls_continuations ls) \<longrightarrow> keys_ok ?rs" by (blast intro: keys_ok_update f)
  moreover have "keys_ok ?rs \<longrightarrow> \<not> list_ex (\<lambda>r. row_key r = key_of (co_key seed)) ?rs \<longrightarrow> keys_ok (?rs @ [creating_row now seed])"
    by (auto simp: keys_ok_def list_ex_iff new)
  moreover have "key_guarded k (ls_continuations ls) \<longrightarrow> key_guarded k ?rs"
    by (intro impI, erule guarded_update) (simp_all add: f, simp add: fork_possible_def)
  ultimately show ?thesis by (auto simp: claim_minimal_continuation_def Inr Let_def intro: guarded_append)
qed (simp add: claim_minimal_continuation_def)

lemma other_continuations:
  "ls_continuations (snd (adopt_minimal_linked_threads ls)) = ls_continuations ls"
  "ls_continuations (snd (hydrate_minimal_linked_titles prot linked st dt ls)) = ls_continuations ls"
  "ls_continuations (snd (claim_minimal_linked_worker linked g ls)) = ls_continuations ls"
  "ls_continuations (snd (mark_minimal_linked_turn_started linked g turn ls)) = ls_continuations ls"
  "ls_continuations (snd (mark_minimal_linked_title_set linked g ls)) = ls_continuations ls"
  "ls_continuations (snd (begin_minimal_linked_release rel ls)) = ls_continuations ls"
  "ls_continuations (snd (finish_minimal_linked_release linked g at ls)) = ls_continuations ls"
  "ls_continuations (snd (finish_minimal_linked_release_and_clear_worker linked g at ls)) = ls_continuations ls"
  "ls_continuations (snd (finish_minimal_linked_release_with_ready_delivery prot now linked g session turn at ready ls)) =
     ls_continuations ls"
  "ls_continuations (snd (record_minimal_linked_blocked linked code at ls)) = ls_continuations ls"
  "ls_continuations (snd (fail_minimal_linked_thread linked g kind ls)) = ls_continuations ls"
  "ls_continuations (snd (recover_minimal_linked_workers ls)) = ls_continuations ls"
  by (simp_all add: adopt_minimal_linked_threads_def hydrate_minimal_linked_titles_def claim_minimal_linked_worker_def
      mark_minimal_linked_turn_started_def mark_minimal_linked_title_set_def begin_minimal_linked_release_def
      finish_minimal_linked_release_def finish_minimal_linked_release_and_clear_worker_def
      finish_minimal_linked_release_with_ready_delivery_def record_minimal_linked_blocked_def
      fail_minimal_linked_thread_def recover_minimal_linked_workers_def under_generation_def update_linked_def Let_def
      split: sum.split prod.split option.split)

lemma continuations_step:
  assumes "link_step p ls op ls'"
  shows "(links_ok ls \<longrightarrow> links_ok ls') \<and>
    (key_guarded k (ls_continuations ls) \<and> \<not> reopens k op \<longrightarrow> key_guarded k (ls_continuations ls'))"
  using assms
proof (induction rule: link_step.induct)
  case (activate ls now c child)
  have "keys_ok rs \<longrightarrow> keys_ok (update_rows (creating_for j) (\<lambda>r. r\<lparr>cn_fork_thread_id := Some i, cn_status := CnActive,
      cn_failure_kind := None, cn_updated_at := now\<rparr>) rs)" for rs i j
    by (intro impI, erule keys_ok_update) (simp add: row_key_def)
  moreover have "key_guarded k rs \<longrightarrow> key_guarded k (update_rows (creating_for j) (\<lambda>r. r\<lparr>cn_fork_thread_id := Some i,
      cn_status := CnActive, cn_failure_kind := None, cn_updated_at := now\<rparr>) rs)" for rs i j
    by (intro impI, erule guarded_update) (simp_all add: row_key_def fork_possible_def)
  ultimately show ?case
    by (auto simp: activate_minimal_continuation_def links_ok_def Let_def split: sum.split)
next
  case (fail c seed ls kind now)
  let ?j = "key_of (co_key seed)" let ?i = "trim_space kind"
  let ?f = "\<lambda>r. r\<lparr>cn_status := CnFailed, cn_failure_kind := Some ?i, cn_updated_at := now\<rparr>"
  have f: "row_key (?f r) = row_key r" for r by (simp add: row_key_def)
  let ?new = "update_rows (creating_for ?j) ?f (ls_continuations ls)"
  have keys: "keys_ok (ls_continuations ls) \<Longrightarrow> keys_ok ?new" by (rule keys_ok_update) (simp_all add: f)
  have guard: "key_guarded k ?new"
    if "key_guarded k (ls_continuations ls)" "?j = k \<longrightarrow> ?i = failure_ambiguous"
    using that by (intro guarded_update f) (auto simp: fork_possible_def creating_for_def)
  have res: "ls_continuations (snd (fail_minimal_continuation now c kind ls)) =
      (if ?i \<noteq> failure_definite \<and> ?i \<noteq> failure_ambiguous then ls_continuations ls else ?new)"
    using fail by (simp add: fail_minimal_continuation_def Let_def)
  show ?case
  proof (cases "?i \<noteq> failure_definite \<and> ?i \<noteq> failure_ambiguous")
    case True
    then show ?thesis using res by (simp add: links_ok_def)
  next
    case False
    have "ls_continuations (snd (fail_minimal_continuation now c kind ls)) = ?new"
      unfolding res using False by (rule if_not_P)
    then show ?thesis using keys guard False by (auto simp: links_ok_def reopens_def)
  qed
next
  case (recover ls now)
  have "keys_ok rs \<longrightarrow> keys_ok (update_rows q (\<lambda>r. r\<lparr>cn_status := CnFailed,
      cn_failure_kind := Some failure_ambiguous, cn_updated_at := now\<rparr>) rs)" for rs q
    by (intro impI, erule keys_ok_update) (simp add: row_key_def)
  moreover have "key_guarded k rs \<longrightarrow> key_guarded k (update_rows q
      (\<lambda>r. r\<lparr>cn_status := CnFailed, cn_failure_kind := Some failure_ambiguous, cn_updated_at := now\<rparr>) rs)" for rs q
    by (intro impI, erule guarded_update) (simp_all add: row_key_def fork_possible_def)
  ultimately show ?case by (auto simp: recover_creating_minimal_continuations_def links_ok_def Let_def)
next
  case (rearm ls chat topic now)
  let ?q = "\<lambda>r. cn_chat_key r = chat_key chat topic \<and> cn_status r = CnFailed \<and> cn_failure_kind r = Some failure_ambiguous"
  let ?f = "\<lambda>r. r\<lparr>cn_failure_kind := Some failure_definite, cn_updated_at := now\<rparr>"
  have "keys_ok rs \<longrightarrow> keys_ok (update_rows ?q ?f rs)" for rs
    by (intro impI, erule keys_ok_update) (simp add: row_key_def)
  moreover have "key_guarded k rs \<longrightarrow> chat_key chat topic \<noteq> fst k \<longrightarrow> key_guarded k (update_rows ?q ?f rs)" for rs
    by (intro impI, erule guarded_update) (auto simp: row_key_def)
  ultimately show ?case
    by (auto simp: rearm_ambiguous_minimal_continuations_def links_ok_def reopens_def Let_def)
qed (simp_all add: links_ok_def other_continuations claimed_continuations linked_continuations)

lemma continuations_run:
  assumes "link_run p ls ops ls'" "links_ok ls"
  shows "links_ok ls' \<and> (key_guarded k (ls_continuations ls) \<and> (\<forall>op\<in>set ops. \<not> reopens k op) \<longrightarrow>
    key_guarded k (ls_continuations ls'))"
  using assms
  by (induction rule: link_run.induct) (auto dest: continuations_step)

section \<open>The promises\<close>

text \<open>
  C31: A linked thread refines a lease. Whatever transactions run, the row of a linked thread stays
  and moves only along the transitions of a lease: a free row is leased to a new generation, the
  holder records its turn, asks for its release, frees it or breaks it, and a restart asks for the
  release of what was leased. No other move is possible, and a broken row stays broken.
\<close>
theorem linked_rows_refine_leases:
  assumes "link_run p ls ops ls'" and "r \<in> set (ls_linked ls)"
  shows "\<exists>r'\<in>set (ls_linked ls'). lt_linked_thread_id r' = lt_linked_thread_id r \<and>
    lease_run ops (lease_of r) (lease_of r')"
  using assms by (rule refine_run)

text \<open>
  C33: A linked thread has one owner. While a worker holds a linked thread, nothing that happens
  under another generation moves it: after any run of other workers, releases, failures, adoptions
  and restarts the row still has the same generation and the same turn, at most its release has
  been asked for, and no worker can claim it.
\<close>
theorem linked_owner_exclusive:
  assumes "link_run p empty_links ops0 ls" and "r \<in> set (ls_linked ls)" "lt_state r = linked_running"
    and "lt_linked_thread_id r = Some linked"
    and "link_run p ls ops ls'" and "\<forall>g. LopWorker g \<in> set ops \<longrightarrow> uint g \<noteq> lt_worker_generation r"
    and "trim_space name = linked"
  shows "\<exists>r'\<in>set (ls_linked ls'). lt_linked_thread_id r' = Some linked \<and>
      (lt_state r' = linked_running \<or> lt_state r' = linked_release_pending) \<and>
      lt_worker_generation r' = lt_worker_generation r \<and>
      or_empty (lt_active_turn_id r') = or_empty (lt_active_turn_id r) \<and>
      (\<forall>g. snd (claim_minimal_linked_worker name g ls') = ls' \<and> fst (claim_minimal_linked_worker name g ls') \<noteq> Inr True)"
proof -
  have lease: "lease_of r = Leased (lt_worker_generation r) (or_empty (lt_active_turn_id r))"
    using assms(3) by (simp add: lease_of_def)
  obtain r' where r': "r' \<in> set (ls_linked ls')" "lt_linked_thread_id r' = Some linked"
    "lease_run ops (lease_of r) (lease_of r')"
    using refine_run [OF assms(5,2)] assms(4) by auto
  have "lease_of r' = Leased (lt_worker_generation r) (or_empty (lt_active_turn_id r)) \<or>
      lease_of r' = Releasing (lt_worker_generation r) (or_empty (lt_active_turn_id r))"
    using lease_kept [OF r'(3)] lease assms(6) by blast
  then have held: "lt_state r' = linked_running \<or> lt_state r' = linked_release_pending"
      "lt_worker_generation r' = lt_worker_generation r" "or_empty (lt_active_turn_id r') = or_empty (lt_active_turn_id r)"
    by (auto simp: lease_of_def split: if_splits)
  have ids: "distinct (map lt_linked_thread_id (ls_linked ls'))"
    using linked_ok_run [OF assms(5) linked_ok_run [OF assms(1) empty_linked_ok]] by (simp add: linked_ok_def)
  have busy: "\<not> (lt_linked_thread_id x = Some linked \<and> lt_state x = linked_ready \<and> lt_worker_generation x < v)"
    if "x \<in> set (ls_linked ls')" for x v
  proof
    assume x: "lt_linked_thread_id x = Some linked \<and> lt_state x = linked_ready \<and> lt_worker_generation x < v"
    then have "x = r'" using r'(1,2) that ids by (metis distinct_map inj_onD)
    then show False using x held(1) by auto
  qed
  have keep: "set_linked (ls_linked ls') ls' = ls'" by (simp add: set_linked_def ls_linked_def)
  have "update_linked (\<lambda>x. lt_linked_thread_id x = Some linked \<and> lt_state x = linked_ready \<and> lt_worker_generation x < v) f ls' =
      (False, ls')" for v f
    using busy by (simp add: update_linked_def update_rows_none keep filter_empty_conv [THEN iffD2])
  then have "snd (claim_minimal_linked_worker name g ls') = ls' \<and> fst (claim_minimal_linked_worker name g ls') \<noteq> Inr True" for g
    using assms(7) by (simp add: claim_minimal_linked_worker_def under_generation_def split: sum.split)
  then show ?thesis using r'(1,2) held by blast
qed

text \<open>
  C34: A turn is forked once. After a claim to create the fork of a turn, no claim to create it
  succeeds again, whatever happens in between: the creation succeeding or failing without a clear
  outcome, a restart in the middle of it, links to it, other turns. Only a failure that certainly
  left no fork, or the repair the owner asks for, which rearms the continuations of the chat whose
  outcome is unknown, allows a second attempt.
\<close>
theorem continuation_forked_once:
  assumes "link_run p empty_links ops0 ls" and "normalize_minimal_continuation c = Inr seed"
    and "claim_minimal_continuation now c ls = (Inr (row, True), ls1)"
    and "link_run p ls1 ops ls2" and "\<forall>op\<in>set ops. \<not> reopens (key_of (co_key seed)) op"
  shows "\<exists>found. claim_minimal_continuation now' c ls2 = (Inr (Some found, False), ls2)"
proof -
  let ?k = "key_of (co_key seed)"
  have "links_ok empty_links" by (simp add: links_ok_def keys_ok_def empty_links_def)
  then have ok: "links_ok ls" using continuations_run [OF assms(1)] by blast
  have ok1: "links_ok ls1" using claimed_continuations [of ls now c] ok assms(3) by (simp add: links_ok_def)
  have "key_guarded ?k (ls_continuations ls1)"
  proof -
    let ?f = "\<lambda>r. r\<lparr>cn_status := CnCreating, cn_failure_kind := None, cn_updated_at := now\<rparr>"
    let ?rs = "update_rows (retryable ?k) ?f (ls_continuations ls)"
    consider (retried) "length (filter (retryable ?k) (ls_continuations ls)) = 1" "ls_continuations ls1 = ?rs"
      | (new) "ls_continuations ls1 = ?rs @ [creating_row now seed]"
      using assms(3) by (auto simp: claim_minimal_continuation_def assms(2) Let_def split: if_splits)
    then show ?thesis
    proof cases
      case retried
      then obtain r where "filter (retryable ?k) (ls_continuations ls) = [r]" by (auto simp: length_Suc_conv)
      then have "r \<in> set (filter (retryable ?k) (ls_continuations ls))" by simp
      then have "r \<in> set (ls_continuations ls)" "retryable ?k r" by simp_all
      then have "?f r \<in> set ?rs" by (force simp: set_update_rows)
      moreover have "row_key (?f r) = ?k" using \<open>retryable ?k r\<close> by (simp add: retryable_def row_key_def)
      ultimately show ?thesis unfolding key_guarded_def retried(2) by (intro bexI [of _ "?f r"]) (simp_all add: fork_possible_def)
    next
      case new
      then show ?thesis
        by (auto simp: key_guarded_def fork_possible_def creating_row_def row_key_def key_of_def)
    qed
  qed
  then have guarded: "key_guarded ?k (ls_continuations ls2)" and ok2: "links_ok ls2"
    using continuations_run [OF assms(4) ok1] assms(5) by blast+
  then obtain r where r: "r \<in> set (ls_continuations ls2)" "row_key r = ?k" "fork_possible r"
    by (auto simp: key_guarded_def)
  have keys: "distinct (map row_key (ls_continuations ls2))" using ok2 by (simp add: links_ok_def keys_ok_def)
  have none: "\<not> retryable ?k x" if "x \<in> set (ls_continuations ls2)" for x
  proof
    assume x: "retryable ?k x"
    then have "x = r" using that r keys by (metis distinct_map inj_onD retryable_def)
    then show False using x r(3) by (auto simp: retryable_def fork_possible_def)
  qed
  have "find_continuation ?k (ls_continuations ls2) = Some r"
    using distinct_find_key [OF keys r(1)] r(2) by (simp add: find_continuation_def)
  moreover have "list_ex (\<lambda>x. row_key x = ?k) (ls_continuations ls2)" using r by (auto simp: list_ex_iff)
  moreover have "filter (retryable ?k) (ls_continuations ls2) = []" using none by (simp add: filter_empty_conv)
  ultimately show ?thesis
    using none
    by (simp add: claim_minimal_continuation_def assms(2) Let_def update_rows_none get_minimal_continuation_row_def)
qed

section \<open>Examples\<close>

definition fork_key :: continuation_key where
  "fork_key = \<lparr>ck_chat_id = 5, ck_topic_id = 0, ck_source_thread_id = ''s'', ck_source_turn_id = ''u''\<rparr>"

definition fork_seed :: continuation where
  "fork_seed = \<lparr>co_key = fork_key, co_project_id = ''p'', co_fork_thread_id = [], co_status = CnCreating,
     co_failure_kind = []\<rparr>"

definition fork_link :: linked_thread where
  "fork_link = \<lparr>ml_chat_key = [], ml_chat_id = 5, ml_topic_id = 0, ml_project_id = ''p'', ml_source_thread_id = ''s'',
     ml_linked_thread_id = [], ml_source_anchor_turn_id = ''u'', ml_source_title = [], ml_desired_title = [],
     ml_title_state = [], ml_state = [], ml_active_turn_id = [], ml_worker_generation = 3, ml_last_blocked_at = None,
     ml_last_blocked_code = [], ml_failure_kind = [], ml_released_at = None\<rparr>"

definition fork_child :: thread where
  "fork_child = \<lparr>th_id = ''c'', th_title = [], th_cwd = [], th_project_name = [], th_directory_name = [],
     th_updated_at = 0, th_status = [], th_last_preview = [], th_active_turn_id = [], th_preferred_model = [],
     th_permissions_mode = [], th_archived = False, th_raw = JNull\<rparr>"

definition fork_linked :: link_store where
  "fork_linked = snd (activate_minimal_linked_thread (Some ask_protector) 0 fork_link fork_seed fork_child empty_links)"

definition fork_restarted :: link_store where
  "fork_restarted = snd (recover_minimal_linked_workers (snd (claim_minimal_linked_worker ''c'' 9 fork_linked)))"

lemma fork_linked_run: "link_run ask_protector empty_links [LopOther] fork_linked"
  using link_run.step [OF link_run.start link_step.link] by (simp add: fork_linked_def)

lemma fork_restarted_run: "link_run ask_protector fork_linked [LopWorker 9, LopRestart] fork_restarted"
  using link_run.step [OF link_run.step [OF link_run.start link_step.claim_worker] link_step.recover_workers]
  by (simp add: fork_restarted_def)

lemma fork_values:
  "map (\<lambda>r. (lt_linked_thread_id r, lt_state r, lt_worker_generation r)) (ls_linked fork_linked) =
     [(Some ''c'', linked_running, 3)]"
  by code_simp

lemma fork_row:
  obtains r where "r \<in> set (ls_linked fork_linked)" "lt_state r = linked_running" "lt_linked_thread_id r = Some ''c''"
    "lt_worker_generation r = 3"
  using fork_values by (auto simp: map_eq_Cons_conv)

lemma linked_rows_refine_leases_witness:
  "\<exists>r r'. r \<in> set (ls_linked fork_linked) \<and> r' \<in> set (ls_linked fork_restarted) \<and>
     lease_run [LopWorker 9, LopRestart] (lease_of r) (lease_of r')"
proof -
  obtain r where "r \<in> set (ls_linked fork_linked)" by (rule fork_row)
  with linked_rows_refine_leases [OF fork_restarted_run this] show ?thesis by blast
qed

lemma linked_owner_exclusive_witness:
  "snd (claim_minimal_linked_worker ''c'' 12 fork_restarted) = fork_restarted"
proof -
  obtain r where r: "r \<in> set (ls_linked fork_linked)" "lt_state r = linked_running" "lt_linked_thread_id r = Some ''c''"
    "lt_worker_generation r = 3" by (rule fork_row)
  have other: "\<forall>g. LopWorker g \<in> set [LopWorker 9, LopRestart] \<longrightarrow> uint g \<noteq> lt_worker_generation r" using r(4) by simp
  have name: "trim_space ''c'' = ''c''" by code_simp
  from linked_owner_exclusive [OF fork_linked_run r(1-3) fork_restarted_run other name] show ?thesis by blast
qed

definition fork_claimed :: link_store where
  "fork_claimed = snd (claim_minimal_continuation 1 fork_seed empty_links)"
definition fork_failed :: link_store where
  "fork_failed = snd (recover_creating_minimal_continuations 2 fork_claimed)"

lemma continuation_forked_once_witness:
  "\<exists>found. claim_minimal_continuation 3 fork_seed fork_failed = (Inr (Some found, False), fork_failed)"
proof -
  have norm: "normalize_minimal_continuation fork_seed = Inr fork_seed" by code_simp
  have "map_sum (\<lambda>_. ()) snd (fst (claim_minimal_continuation 1 fork_seed empty_links)) = Inr True" by code_simp
  then obtain row where c: "claim_minimal_continuation 1 fork_seed empty_links = (Inr (row, True), fork_claimed)"
    by (cases "claim_minimal_continuation 1 fork_seed empty_links") (auto simp: fork_claimed_def map_sum_Inr)
  have run: "link_run ask_protector fork_claimed [LopRestart] fork_failed"
    using link_run.step [OF link_run.start link_step.recover] by (simp add: fork_failed_def)
  show ?thesis
    by (rule continuation_forked_once [OF link_run.start norm c run]) (simp add: reopens_def)
qed

end
