(* ===== verification/Minimal_Observations.thy ===== *)
theory Minimal_Observations
  imports Thread_Store
begin

text \<open>
  The observation table of the minimal profile (\<^verbatim>\<open>minimal_thread_observations\<close> in
  \<^verbatim>\<open>internal/storage/store_minimal.go\<close>): for every known thread the turn and status last
  seen, whether it must be read, and whether it is retired. A terminal transition is claimed by
  moving the row, so that of two workers one reports it.
\<close>

section \<open>Rows\<close>

record minimal_observation =
  mo_thread_id :: string
  mo_project_id :: string
  mo_last_updated_at :: int
  mo_turn :: "string option"
  mo_status :: "string option"
  mo_baseline_ready :: bool
  mo_read_required :: bool
  mo_retired :: bool
  mo_discovery_seq :: nat

type_synonym minimal_observations = "minimal_observation list"

datatype observation_error = ObsFieldsRequired

definition or_blank :: "string option \<Rightarrow> string" where
  "or_blank v = (case v of None \<Rightarrow> [] | Some s \<Rightarrow> s)"

definition terminal_words :: "string list" where
  "terminal_words = [''completed'', ''failed'', ''interrupted'', ''cancelled'', ''canceled'']"

definition minimal_terminal_status :: "string \<Rightarrow> bool" where
  "minimal_terminal_status st \<longleftrightarrow> trim_space (to_lower st) \<in> set terminal_words"

text \<open>SQLite's \<^verbatim>\<open>lower\<close> knows ASCII only.\<close>

definition sql_terminal :: "string option \<Rightarrow> bool" where
  "sql_terminal v \<longleftrightarrow> map lower_byte (or_blank v) \<in> set terminal_words"

definition minimal_observation_read_required :: "string \<Rightarrow> string \<Rightarrow> bool" where
  "minimal_observation_read_required st turn \<longleftrightarrow>
     trim_space turn \<noteq> [] \<and> \<not> minimal_terminal_status st \<or>
     (let n = to_lower (trim_space st)
      in n = ''notloaded'' \<or> n = ''not_loaded'' \<or> n = ''active'' \<or> has_prefix n ''active['' \<or>
         contains n ''waitingon'' \<or> contains n ''inprogress'' \<or> contains n ''running'')"

definition find_observation :: "string \<Rightarrow> minimal_observations \<Rightarrow> minimal_observation option" where
  "find_observation i obs = find (\<lambda>o'. mo_thread_id o' = i) obs"

section \<open>Operations\<close>

definition observation_changed :: "string \<Rightarrow> string \<Rightarrow> int \<Rightarrow> minimal_observation option \<Rightarrow> bool" where
  "observation_changed turn st updated prev =
     (case prev of
        None \<Rightarrow> True
      | Some r \<Rightarrow>
          mo_last_updated_at r < updated \<or>
          updated = mo_last_updated_at r \<and>
            (turn \<noteq> or_blank (mo_turn r) \<or>
             \<not> minimal_terminal_status (or_blank (mo_status r)) \<and> \<not> equal_fold st (or_blank (mo_status r))) \<or>
          minimal_observation_read_required st turn \<and> \<not> mo_read_required r)"

text \<open>A running turn whose end the list does not show is kept, and the thread is read.\<close>

definition keeps_running_turn :: "string \<Rightarrow> string \<Rightarrow> minimal_observation \<Rightarrow> bool" where
  "keeps_running_turn turn st r \<longleftrightarrow>
     or_blank (mo_turn r) \<noteq> [] \<and> \<not> minimal_terminal_status (or_blank (mo_status r)) \<and>
     (turn = [] \<and> minimal_observation_read_required st turn \<or>
      minimal_terminal_status st \<and> (turn = [] \<or> or_blank (mo_turn r) = turn))"

definition observe_minimal_thread ::
  "thread \<Rightarrow> string \<Rightarrow> minimal_observations \<Rightarrow> (observation_error, unit) result \<times> minimal_observations" where
  "observe_minimal_thread t project0 obs =
     (let i = trim_space (th_id t); project = trim_space project0; turn = trim_space (th_active_turn_id t);
          st = trim_space (th_status t); required = minimal_observation_read_required st turn;
          prev = find_observation i obs; here = (\<lambda>r. mo_thread_id r = i); updated = th_updated_at t
      in if i = [] \<or> project = [] then (Inl ObsFieldsRequired, obs)
         else if (case prev of None \<Rightarrow> False | Some r \<Rightarrow> mo_retired r) then (Inr (), obs)
         else if \<not> observation_changed turn st updated prev then (Inr (), obs)
         else (Inr (), case prev of
             None \<Rightarrow> obs @ [\<lparr>mo_thread_id = i, mo_project_id = project, mo_last_updated_at = updated,
                 mo_turn = nullable turn, mo_status = nullable st, mo_baseline_ready = True,
                 mo_read_required = required, mo_retired = False,
                 mo_discovery_seq = next_seq mo_discovery_seq obs\<rparr>]
           | Some r \<Rightarrow>
               if keeps_running_turn turn st r
               then update_rows here (\<lambda>r. r\<lparr>mo_project_id := project, mo_last_updated_at := updated,
                      mo_read_required := True\<rparr>) obs
               else update_rows here (\<lambda>r. r\<lparr>mo_project_id := project, mo_last_updated_at := updated,
                      mo_turn := nullable turn, mo_status := nullable st, mo_baseline_ready := True,
                      mo_read_required := required\<rparr>) obs))"

definition observed_limit :: "int \<Rightarrow> nat" where
  "observed_limit n = (if n \<le> 0 then 50 else nat n)"

text \<open>The join with the thread table, in the order of discovery.\<close>

definition list_minimal_observed_threads_due ::
  "int \<Rightarrow> minimal_observations \<Rightarrow> thread list \<Rightarrow> thread list" where
  "list_minimal_observed_threads_due n obs ts =
     take (observed_limit n)
       (List.map_filter (\<lambda>r. get_thread (mo_thread_id r) ts)
          (sort_key (\<lambda>r. (mo_discovery_seq r, mo_thread_id r))
             (filter (\<lambda>r. mo_read_required r \<and> \<not> mo_retired r) obs)))"

definition retire_minimal_observation :: "string \<Rightarrow> minimal_observations \<Rightarrow> minimal_observations" where
  "retire_minimal_observation i0 obs =
     (let i = trim_space i0
      in if i = [] then obs
         else update_rows (\<lambda>r. mo_thread_id r = i) (\<lambda>r. r\<lparr>mo_read_required := False, mo_retired := True\<rparr>) obs)"

definition lookup_read_required :: "string \<Rightarrow> minimal_observations \<Rightarrow> bool \<times> bool" where
  "lookup_read_required i0 obs =
     (let i = trim_space i0
      in if i = [] then (False, False)
         else case find_observation i obs of
           None \<Rightarrow> (False, False)
         | Some r \<Rightarrow> (True, \<not> mo_retired r \<and> mo_read_required r))"

text \<open>The WHERE clause of the claim.\<close>

definition can_end :: "string \<Rightarrow> bool \<Rightarrow> minimal_observation \<Rightarrow> bool" where
  "can_end turn recent r \<longleftrightarrow>
     mo_baseline_ready r \<and> \<not> mo_retired r \<and>
     (mo_turn r = Some turn \<and> or_blank (mo_status r) \<noteq> [] \<and> \<not> sql_terminal (mo_status r) \<or>
      or_blank (mo_turn r) \<noteq> turn \<and> sql_terminal (mo_status r) \<or>
      recent \<and> or_blank (mo_turn r) = [] \<and>
        map lower_byte (or_blank (mo_status r)) \<in> {''notloaded'', ''not_loaded''})"

definition terminal_transition_event :: "string \<Rightarrow> string \<Rightarrow> string \<Rightarrow> terminal_event" where
  "terminal_transition_event thread turn outcome =
     \<lparr>te_key = thread @ '':'' @ turn @ '':'' @ outcome, te_thread_id = thread, te_turn_id = turn, te_status = outcome,
      te_delivery_status = Pending\<rparr>"

definition claim_terminal_transition ::
  "string \<Rightarrow> string \<Rightarrow> string \<Rightarrow> bool \<Rightarrow> minimal_observations \<Rightarrow> terminal_event option \<times> minimal_observations" where
  "claim_terminal_transition thread0 turn0 outcome0 recent obs =
     (let thread = trim_space thread0; turn = trim_space turn0; outcome = trim_space (to_lower outcome0);
          here = (\<lambda>r. mo_thread_id r = thread \<and> can_end turn recent r)
      in if thread = [] \<or> turn = [] \<or> \<not> minimal_terminal_status outcome then (None, obs)
         else if filter here obs = [] then (None, obs)
         else (Some (terminal_transition_event thread turn outcome),
               update_rows here (\<lambda>r. r\<lparr>mo_turn := Some turn, mo_status := Some outcome, mo_read_required := True\<rparr>) obs))"

definition claim_minimal_terminal_transition ::
  "string \<Rightarrow> string \<Rightarrow> string \<Rightarrow> minimal_observations \<Rightarrow> terminal_event option \<times> minimal_observations" where
  "claim_minimal_terminal_transition thread turn outcome obs = claim_terminal_transition thread turn outcome False obs"

definition claim_minimal_terminal_transition_after_baseline ::
  "string \<Rightarrow> string \<Rightarrow> string \<Rightarrow> int \<Rightarrow> int \<Rightarrow> minimal_observations \<Rightarrow> terminal_event option \<times> minimal_observations" where
  "claim_minimal_terminal_transition_after_baseline thread turn outcome updated since obs =
     claim_terminal_transition thread turn outcome (0 < since \<and> since \<le> updated) obs"

definition reopen_minimal_terminal_transition :: "string \<Rightarrow> string \<Rightarrow> minimal_observations \<Rightarrow> minimal_observations" where
  "reopen_minimal_terminal_transition thread0 turn0 obs =
     (let thread = trim_space thread0; turn = trim_space turn0
      in if thread = [] \<or> turn = [] then obs
         else update_rows
           (\<lambda>r. mo_thread_id r = thread \<and> mo_turn r = Some turn \<and> \<not> mo_retired r \<and> sql_terminal (mo_status r))
           (\<lambda>r. r\<lparr>mo_status := Some ''inProgress'', mo_read_required := True\<rparr>) obs)"

text \<open>
  The migration that numbers rows of an older schema, which have no place in the order yet: they
  follow the numbered rows, oldest first. Rows and the moments they were last written.
\<close>

definition number_unnumbered :: "(minimal_observation \<times> instant) list \<Rightarrow> minimal_observations" where
  "number_unnumbered obs =
     (let offset = foldr (\<lambda>(r, _) m. max (mo_discovery_seq r) m) obs 0;
          order = map (mo_thread_id \<circ> fst)
                    (sort_key (\<lambda>(r, t). (stamp_key t, mo_thread_id r)) (filter (\<lambda>(r, _). mo_discovery_seq r = 0) obs))
      in map (\<lambda>(r, _). if mo_discovery_seq r = 0
                        then r\<lparr>mo_discovery_seq := offset + Suc (length (takeWhile (\<lambda>i. i \<noteq> mo_thread_id r) order))\<rparr>
                        else r) obs)"

section \<open>Runs\<close>

inductive minimal_observation_step :: "minimal_observations \<Rightarrow> minimal_observations \<Rightarrow> bool" where
  observe: "minimal_observation_step obs (snd (observe_minimal_thread t project obs))"
| retire: "minimal_observation_step obs (retire_minimal_observation i obs)"
| claim: "minimal_observation_step obs (snd (claim_terminal_transition thread turn outcome recent obs))"
| reopen: "minimal_observation_step obs (reopen_minimal_terminal_transition thread turn obs)"

definition minimal_observations_ok :: "minimal_observations \<Rightarrow> bool" where
  "minimal_observations_ok obs \<longleftrightarrow>
     distinct (map mo_thread_id obs) \<and> distinct (map mo_discovery_seq obs) \<and>
     (\<forall>r\<in>set obs. mo_thread_id r \<noteq> [] \<and> mo_project_id r \<noteq> [] \<and> mo_baseline_ready r \<and>
        (mo_retired r \<longrightarrow> \<not> mo_read_required r))"

lemma observations_ok_update:
  assumes "minimal_observations_ok obs"
    "\<And>r. mo_thread_id (f r) = mo_thread_id r" "\<And>r. mo_discovery_seq (f r) = mo_discovery_seq r"
    "\<And>r. r \<in> set obs \<Longrightarrow> q r \<Longrightarrow> mo_project_id (f r) \<noteq> [] \<and> mo_baseline_ready (f r) \<and>
       (mo_retired (f r) \<longrightarrow> \<not> mo_read_required (f r))"
  shows "minimal_observations_ok (update_rows q f obs)"
  using assms by (auto simp: minimal_observations_ok_def map_update_rows ball_update_rows)

lemma observe_ok:
  assumes ok: "minimal_observations_ok obs"
  shows "minimal_observations_ok (snd (observe_minimal_thread t project obs))"
proof (cases "find_observation (trim_space (th_id t)) obs")
  case None
  then have "trim_space (th_id t) \<notin> mo_thread_id ` set obs" by (simp add: find_observation_def find_key_None)
  then show ?thesis using ok next_seq_fresh [of mo_discovery_seq obs] None
    by (auto simp: observe_minimal_thread_def Let_def minimal_observations_ok_def observation_changed_def)
next
  case (Some p)
  have "\<not> mo_retired r" if "r \<in> set obs" "mo_thread_id r = trim_space (th_id t)" "\<not> mo_retired p" for r
  proof -
    have "r = p" using that ok find_key_in [OF Some [unfolded find_observation_def]] unfolding minimal_observations_ok_def
      by (metis distinct_map inj_onD)
    then show ?thesis using that(3) by simp
  qed
  then show ?thesis using ok Some
    by (auto simp: observe_minimal_thread_def Let_def minimal_observations_ok_def [of obs]
        intro!: observations_ok_update)
qed

lemma observation_row_ok:
  assumes "minimal_observations_ok obs" "r \<in> set obs"
  shows "mo_project_id r \<noteq> []" "mo_baseline_ready r" "mo_retired r \<Longrightarrow> \<not> mo_read_required r"
  using assms by (simp_all add: minimal_observations_ok_def)

lemma minimal_observation_step_ok:
  "minimal_observation_step obs obs' \<Longrightarrow> minimal_observations_ok obs \<Longrightarrow> minimal_observations_ok obs'"
proof (induction rule: minimal_observation_step.induct)
  case (observe obs t project)
  then show ?case by (rule observe_ok)
next
  case (retire obs i)
  have "minimal_observations_ok (update_rows q (\<lambda>r. r\<lparr>mo_read_required := False, mo_retired := True\<rparr>) obs)" for q
    by (rule observations_ok_update [OF retire]) (simp_all add: observation_row_ok [OF retire])
  then show ?case using retire by (simp add: retire_minimal_observation_def Let_def)
next
  case (claim obs thread turn outcome recent)
  have "minimal_observations_ok (update_rows (\<lambda>r. mo_thread_id r = i \<and> can_end u recent r)
      (\<lambda>r. r\<lparr>mo_turn := Some u, mo_status := Some st, mo_read_required := True\<rparr>) obs)" for i u st
    by (rule observations_ok_update [OF claim]) (simp_all add: observation_row_ok [OF claim] can_end_def)
  then show ?case using claim by (simp add: claim_terminal_transition_def Let_def)
next
  case (reopen obs thread turn)
  have "minimal_observations_ok (update_rows (\<lambda>r. mo_thread_id r = i \<and> mo_turn r = Some u \<and> \<not> mo_retired r \<and>
      sql_terminal (mo_status r)) (\<lambda>r. r\<lparr>mo_status := Some ''inProgress'', mo_read_required := True\<rparr>) obs)" for i u
    by (rule observations_ok_update [OF reopen]) (simp_all add: observation_row_ok [OF reopen])
  then show ?case using reopen by (simp add: reopen_minimal_terminal_transition_def Let_def)
qed

lemma minimal_observations_reach_ok:
  "minimal_observation_step\<^sup>*\<^sup>* obs obs' \<Longrightarrow> minimal_observations_ok obs \<Longrightarrow> minimal_observations_ok obs'"
  by (induction rule: rtranclp_induct) (auto intro: minimal_observation_step_ok)

section \<open>Promises\<close>

text \<open>A retired thread stays retired: it is never due and never reports an end again.\<close>

lemma retired_step:
  assumes "minimal_observation_step obs obs'" "r \<in> set obs" "mo_retired r"
  shows "\<exists>r'\<in>set obs'. mo_thread_id r' = mo_thread_id r \<and> mo_retired r'"
  using assms
proof (induction rule: minimal_observation_step.induct)
  case (observe obs t project)
  have upd: "\<exists>r'\<in>set (update_rows q f obs). mo_thread_id r' = mo_thread_id r \<and> mo_retired r'"
    if "\<And>x. mo_thread_id (f x) = mo_thread_id x" "\<And>x. mo_retired (f x) = mo_retired x" for q f
    using observe that by (intro bexI [of _ "if q r then f r else r"]) (auto simp: set_update_rows)
  show ?case using observe by (auto simp: observe_minimal_thread_def Let_def upd split: option.split)
next
  case (retire obs i)
  then show ?case
    by (intro bexI [of _ "if mo_thread_id r = trim_space i \<and> trim_space i \<noteq> []
          then r\<lparr>mo_read_required := False, mo_retired := True\<rparr> else r"])
      (auto simp: retire_minimal_observation_def Let_def set_update_rows)
next
  case (claim obs thread turn outcome recent)
  then show ?case by (intro bexI [of _ r]) (auto simp: claim_terminal_transition_def Let_def set_update_rows can_end_def)
next
  case (reopen obs thread turn)
  then show ?case by (intro bexI [of _ r]) (auto simp: reopen_minimal_terminal_transition_def Let_def set_update_rows)
qed

lemma retired_reach:
  assumes "minimal_observation_step\<^sup>*\<^sup>* obs obs'" "r \<in> set obs" "mo_retired r"
  shows "\<exists>r'\<in>set obs'. mo_thread_id r' = mo_thread_id r \<and> mo_retired r'"
  using assms(1)
proof (induction rule: rtranclp_induct)
  case (step obs1 obs2)
  then obtain x where x: "x \<in> set obs1" "mo_thread_id x = mo_thread_id r" "mo_retired x" by blast
  from retired_step [OF step(2) x(1,3)] x(2) show ?case by simp
qed (use assms(2,3) in blast)

lemma unique_observation:
  "minimal_observations_ok obs \<Longrightarrow> r \<in> set obs \<Longrightarrow> s \<in> set obs \<Longrightarrow> mo_thread_id r = mo_thread_id s \<Longrightarrow> r = s"
  unfolding minimal_observations_ok_def by (metis distinct_map inj_onD)

lemma due_mem:
  assumes "t \<in> set (list_minimal_observed_threads_due n obs ts)"
  shows "\<exists>r\<in>set obs. mo_read_required r \<and> \<not> mo_retired r \<and> get_thread (mo_thread_id r) ts = Some t"
  using set_take_subset [THEN subsetD, OF assms [unfolded list_minimal_observed_threads_due_def]]
  by (auto simp: map_filter_def)

text \<open>
  C35: A retired thread is silent for good. Once a thread of the minimal profile has been retired,
  it is never listed as due and no end of a turn is reported for it, whatever the App Server lists
  for it and whatever is claimed or reopened afterwards.
\<close>
theorem retired_thread_silent:
  assumes "minimal_observation_step\<^sup>*\<^sup>* [] obs" and "find_observation (trim_space i) obs = Some r" "trim_space i \<noteq> []"
    and "minimal_observation_step\<^sup>*\<^sup>* (retire_minimal_observation i obs) obs'"
  shows "(\<forall>t\<in>set (list_minimal_observed_threads_due n obs' ts). th_id t \<noteq> trim_space i) \<and>
    claim_terminal_transition i turn outcome recent obs' = (None, obs') \<and>
    lookup_read_required i obs' = (True, False)"
proof -
  have "minimal_observations_ok obs"
    by (rule minimal_observations_reach_ok [OF assms(1)]) (simp add: minimal_observations_ok_def)
  then have ok: "minimal_observations_ok obs'"
    by (intro minimal_observations_reach_ok [OF assms(4)] minimal_observation_step_ok [OF minimal_observation_step.retire])
  have r: "r \<in> set obs" "mo_thread_id r = trim_space i"
    using find_key_in [OF assms(2) [unfolded find_observation_def]] by simp_all
  then have "r\<lparr>mo_read_required := False, mo_retired := True\<rparr> \<in> set (retire_minimal_observation i obs)"
    using assms(3) by (force simp: retire_minimal_observation_def Let_def set_update_rows)
  from retired_reach [OF assms(4) this] obtain x where x: "x \<in> set obs'" "mo_thread_id x = trim_space i" "mo_retired x"
    using r(2) by auto
  have only: "mo_retired y" if "y \<in> set obs'" "mo_thread_id y = trim_space i" for y
    using unique_observation [OF ok that(1) x(1)] that(2) x by simp
  have "th_id t \<noteq> trim_space i" if "t \<in> set (list_minimal_observed_threads_due n obs' ts)" for t
    using due_mem [OF that] only by (auto simp: get_thread_def find_Some_iff)
  moreover have "claim_terminal_transition i turn outcome recent obs' = (None, obs')"
    using only by (auto simp: claim_terminal_transition_def Let_def can_end_def filter_empty_conv)
  moreover have "find_observation (trim_space i) obs' = Some x"
    using distinct_find_key [of mo_thread_id obs' x] ok x by (simp add: find_observation_def minimal_observations_ok_def)
  ultimately show ?thesis using x(3) assms(3) by (auto simp: lookup_read_required_def)
qed

definition seen_thread :: thread where
  "seen_thread = \<lparr>th_id = ''t'', th_title = [], th_cwd = [], th_project_name = [], th_directory_name = [],
     th_updated_at = 1, th_status = ''active'', th_last_preview = [], th_active_turn_id = ''u'', th_preferred_model = [],
     th_permissions_mode = [], th_archived = False, th_raw = JNull\<rparr>"

definition seen_once :: minimal_observations where
  "seen_once = snd (observe_minimal_thread seen_thread ''p'' [])"

lemma seen_once_reach: "minimal_observation_step\<^sup>*\<^sup>* [] seen_once"
  unfolding seen_once_def by (blast intro: minimal_observation_step.observe)

lemma seen_once_found: "map_option mo_turn (find_observation (trim_space ''t'') seen_once) = Some (Some ''u'')"
  "trim_space ''t'' \<noteq> []"
  by code_simp+

lemma retired_thread_silent_witness:
  "fst (claim_terminal_transition ''t'' ''u'' ''completed'' False
     (snd (observe_minimal_thread seen_thread ''p'' (retire_minimal_observation ''t'' seen_once)))) = None"
proof -
  obtain r where r: "find_observation (trim_space ''t'') seen_once = Some r" using seen_once_found(1) by auto
  have "minimal_observation_step\<^sup>*\<^sup>* (retire_minimal_observation ''t'' seen_once)
      (snd (observe_minimal_thread seen_thread ''p'' (retire_minimal_observation ''t'' seen_once)))"
    by (blast intro: minimal_observation_step.observe)
  from retired_thread_silent [OF seen_once_reach r seen_once_found(2) this] show ?thesis by simp
qed

lemma terminal_word:
  assumes "s \<in> set terminal_words"
  shows "trim_space (to_lower s) = s \<and> map lower_byte s = s"
proof -
  have "list_all (\<lambda>s. trim_space (to_lower s) = s \<and> map lower_byte s = s) terminal_words" by code_simp
  then show ?thesis using assms by (simp add: list_all_iff)
qed

lemma terminal_claim_settles:
  assumes "minimal_observation_step\<^sup>*\<^sup>* [] obs"
    and "claim_terminal_transition i turn outcome recent obs = (Some ev, obs')" "outcome \<in> set terminal_words"
  obtains r where "find_observation (trim_space i) obs = Some r" "can_end (trim_space turn) recent r"
    "find_observation (trim_space i) obs' =
       Some (r\<lparr>mo_turn := Some (trim_space turn), mo_status := Some outcome, mo_read_required := True\<rparr>)"
    "ev = terminal_transition_event (trim_space i) (trim_space turn) outcome"
    "\<And>outcome' recent'. claim_terminal_transition i turn outcome' recent' obs' = (None, obs')"
proof -
  let ?out = "trim_space (to_lower outcome)"
  let ?here = "\<lambda>r. mo_thread_id r = trim_space i \<and> can_end (trim_space turn) recent r"
  let ?f = "\<lambda>r. r\<lparr>mo_turn := Some (trim_space turn), mo_status := Some ?out, mo_read_required := True\<rparr>"
  have c: "trim_space i \<noteq> []" "trim_space turn \<noteq> []" "minimal_terminal_status ?out" "filter ?here obs \<noteq> []"
    "ev = terminal_transition_event (trim_space i) (trim_space turn) ?out" "obs' = update_rows ?here ?f obs"
    using assms(2) by (auto simp: claim_terminal_transition_def Let_def split: if_splits)
  have ok: "minimal_observations_ok obs"
    by (rule minimal_observations_reach_ok [OF assms(1)]) (simp add: minimal_observations_ok_def)
  obtain r where r: "r \<in> set obs" "mo_thread_id r = trim_space i" "can_end (trim_space turn) recent r"
    using c(4) by (auto simp: filter_empty_conv)
  have found: "find_observation (trim_space i) obs = Some r"
    using distinct_find_key [of mo_thread_id obs r] ok r by (simp add: find_observation_def minimal_observations_ok_def)
  have found': "find_observation (trim_space i) obs' = Some (?f r)"
    using found r unfolding find_observation_def c(6) by (subst find_update_rows) simp_all
  have out: "?out = outcome" "map lower_byte outcome = outcome" using terminal_word [OF assms(3)] by simp_all
  have ended: "sql_terminal (Some ?out)" using assms(3) out by (simp add: sql_terminal_def or_blank_def)
  have "\<not> can_end (trim_space turn) recent' x" if "x \<in> set obs'" "mo_thread_id x = trim_space i" for x recent'
  proof -
    have "minimal_observations_ok obs'"
      using minimal_observation_step_ok [OF minimal_observation_step.claim [of obs i turn outcome recent] ok] assms(2) by simp
    then have "x = ?f r"
      using unique_observation [of obs' x "?f r"] that find_key_in [OF found' [unfolded find_observation_def]] by simp
    then show ?thesis using ended c(2) by (simp add: can_end_def or_blank_def)
  qed
  then have "claim_terminal_transition i turn outcome' recent' obs' = (None, obs')" for outcome' recent'
    by (auto simp: claim_terminal_transition_def Let_def filter_empty_conv)
  then show ?thesis using that [OF found r(3)] found' out(1) c(5) by simp
qed

text \<open>
  An end of a turn is reported on a change only. A claim that reports the end of a turn found
  the thread known and not retired, and either that turn still running, or another turn ended, or
  (for a thread that changed after the start) nothing loaded. Afterwards the thread is at that turn
  with that outcome and due to be read, and claiming the same turn again, with any outcome, reports
  nothing.
\<close>
theorem terminal_claim_reports_change:
  assumes "minimal_observation_step\<^sup>*\<^sup>* [] obs"
    and "claim_terminal_transition i turn outcome recent obs = (Some ev, obs')" "outcome \<in> set terminal_words"
  shows "\<exists>r r'. find_observation (trim_space i) obs = Some r \<and> find_observation (trim_space i) obs' = Some r' \<and>
    \<not> mo_retired r \<and> can_end (trim_space turn) recent r \<and>
    mo_turn r' = Some (trim_space turn) \<and> mo_status r' = Some (te_status ev) \<and> mo_read_required r' \<and>
    (te_thread_id ev, te_turn_id ev, te_status ev) = (trim_space i, trim_space turn, outcome) \<and>
    claim_terminal_transition i turn outcome' recent' obs' = (None, obs')"
  by (rule terminal_claim_settles [OF assms]) (auto simp: terminal_transition_event_def can_end_def)

lemma terminal_claim_reports_change_witness:
  "fst (claim_terminal_transition ''t'' ''u'' ''failed'' False
     (snd (claim_terminal_transition ''t'' ''u'' ''completed'' False seen_once))) = None"
proof -
  have "map_option te_status (fst (claim_terminal_transition ''t'' ''u'' ''completed'' False seen_once)) = Some ''completed''"
    by code_simp
  then obtain ev where "fst (claim_terminal_transition ''t'' ''u'' ''completed'' False seen_once) = Some ev" by auto
  then have "claim_terminal_transition ''t'' ''u'' ''completed'' False seen_once =
      (Some ev, snd (claim_terminal_transition ''t'' ''u'' ''completed'' False seen_once))"
    by (simp add: prod_eq_iff)
  moreover have "''completed'' \<in> set terminal_words" by (simp add: terminal_words_def)
  ultimately have "claim_terminal_transition ''t'' ''u'' ''failed'' False
      (snd (claim_terminal_transition ''t'' ''u'' ''completed'' False seen_once)) =
      (None, snd (claim_terminal_transition ''t'' ''u'' ''completed'' False seen_once))"
    using terminal_claim_reports_change [OF seen_once_reach, of "''t''" "''u''" "''completed''" False ev _ "''failed''" False] by blast
  then show ?thesis by simp
qed

end
