(* ===== verification/Rendering.thy ===== *)
theory Rendering
  imports Utf8 Model
begin

text \<open>
  Formatted messages (\<^verbatim>\<open>internal/tgformat/markdown.go\<close>) and their division into parts that
  fit a Telegram message (\<^verbatim>\<open>splitMinimalRendered\<close> of \<^verbatim>\<open>internal/daemon/minimal_observer.go\<close>).
  Telegram measures text and entities in UTF-16 units. The library that converts Markdown is a
  parameter.
\<close>

section \<open>Segments\<close>

definition telegram_message_limit :: int where "telegram_message_limit = 4096"

record segment =
  sg_plain :: string
  sg_markdown :: string

definition plain :: "string \<Rightarrow> segment" where
  "plain t = \<lparr>sg_plain = t, sg_markdown = []\<rparr>"

definition markdown :: "string \<Rightarrow> segment" where
  "markdown t = \<lparr>sg_plain = [], sg_markdown = t\<rparr>"

text \<open>The functions of the Markdown library that are called.\<close>

record markdown_library =
  mk_utf16_len :: "string \<Rightarrow> int"
  mk_convert :: "string \<Rightarrow> rendered_message"
  mk_split :: "rendered_message \<Rightarrow> int \<Rightarrow> rendered_message list"

definition shift_entity :: "int \<Rightarrow> message_entity \<Rightarrow> message_entity" where
  "shift_entity n e = e\<lparr>me_offset := me_offset e + n\<rparr>"

definition append_segment :: "markdown_library \<Rightarrow> segment \<Rightarrow> rendered_message \<Rightarrow> rendered_message" where
  "append_segment lib sg m =
     (let t = rm_text m @ sg_plain sg
      in if trim_space (sg_markdown sg) = [] then m\<lparr>rm_text := t\<rparr>
         else let c = mk_convert lib (sg_markdown sg)
              in \<lparr>rm_text = t @ rm_text c,
                  rm_entities = rm_entities m @ map (shift_entity (mk_utf16_len lib t)) (rm_entities c)\<rparr>)"

definition render_segments :: "markdown_library \<Rightarrow> segment list \<Rightarrow> int \<Rightarrow> rendered_message list" where
  "render_segments lib sgs max_len =
     (case mk_split lib (fold (append_segment lib) sgs \<lparr>rm_text = [], rm_entities = []\<rparr>)
             (if max_len \<le> 0 then telegram_message_limit else max_len) of
        [] \<Rightarrow> [\<lparr>rm_text = '' '', rm_entities = []\<rparr>]
      | parts \<Rightarrow> parts)"

definition render_markdown_with_header :: "markdown_library \<Rightarrow> string \<Rightarrow> string \<Rightarrow> rendered_message list" where
  "render_markdown_with_header lib header md =
     render_segments lib [plain (rev (dropWhile (\<lambda>c. c = CHR 0x0A) (rev header))), plain [CHR 0x0A, CHR 0x0A], markdown (trim_space md)]
       telegram_message_limit"

definition hash_rendered :: "rendered_message \<Rightarrow> string" where
  "hash_rendered m =
     join [CHR 0x00] (rm_text m #
       map (\<lambda>e. me_type e @ '':'' @ itoa (me_offset e) @ '':'' @ itoa (me_length e) @ '':'' @ me_url e @ '':'' @ me_language e)
         (rm_entities m))"

section \<open>Parts\<close>

text \<open>\<^verbatim>\<open>len(utf16.Encode([]rune{r}))\<close>; what is no scalar value is replaced by U+FFFD.\<close>

definition utf16_width :: "rune \<Rightarrow> int" where
  "utf16_width r = (if 0x10000 \<le> r \<and> r < 0x110000 then 2 else 1)"

definition utf16_length :: "rune list \<Rightarrow> int" where
  "utf16_length rs = sum_list (map utf16_width rs)"

text \<open>The inner loop: the runes that still fit and the rest.\<close>

fun fitting :: "int \<Rightarrow> int \<Rightarrow> rune list \<Rightarrow> rune list \<times> rune list" where
  "fitting limit used [] = ([], [])"
| "fitting limit used (r # rs) =
     (if limit < used + utf16_width r then ([], r # rs)
      else let (chunk, rest) = fitting limit (used + utf16_width r) rs in (r # chunk, rest))"

definition clip_entity :: "int \<Rightarrow> int \<Rightarrow> message_entity \<Rightarrow> message_entity option" where
  "clip_entity start end e =
     (let from = max (me_offset e) start; till = min (me_offset e + me_length e) end
      in if from < till then Some (e\<lparr>me_offset := from - start, me_length := till - from\<rparr>) else None)"

text \<open>The outer loop, which need not end: a rune wider than the limit is never passed.\<close>

partial_function (option) split_from ::
  "int \<Rightarrow> message_entity list \<Rightarrow> int \<Rightarrow> rune list \<Rightarrow> rendered_message list option" where
  "split_from limit es start rs =
     (if rs = [] then Some []
      else Option.bind
        (split_from limit es (start + utf16_length (fst (fitting limit 0 rs))) (snd (fitting limit 0 rs)))
        (\<lambda>out. Some (\<lparr>rm_text = of_runes (fst (fitting limit 0 rs)),
                      rm_entities = List.map_filter
                        (clip_entity start (start + utf16_length (fst (fitting limit 0 rs)))) es\<rparr> # out)))"

definition split_minimal_rendered :: "rendered_message \<Rightarrow> int \<Rightarrow> rendered_message list option" where
  "split_minimal_rendered m limit = split_from limit (rm_entities m) 0 (runes (rm_text m))"

section \<open>Which divisions end\<close>

lemma utf16_width_pos: "0 < utf16_width r"
  by (simp add: utf16_width_def)

lemma utf16_length_simps [simp]:
  "utf16_length [] = 0"
  "utf16_length (r # rs) = utf16_width r + utf16_length rs"
  "utf16_length (rs @ rs') = utf16_length rs + utf16_length rs'"
  by (simp_all add: utf16_length_def)

lemma utf16_length_nonneg: "0 \<le> utf16_length rs"
  by (induction rs) (use utf16_width_pos in \<open>auto simp: less_imp_le\<close>)

lemma fitting_parts: "fst (fitting limit used rs) @ snd (fitting limit used rs) = rs"
  by (induction limit used rs rule: fitting.induct) (simp_all add: case_prod_beta)

lemma fitting_bound: "used \<le> limit \<Longrightarrow> used + utf16_length (fst (fitting limit used rs)) \<le> limit"
  by (induction limit used rs rule: fitting.induct) (simp_all add: case_prod_beta algebra_simps)

lemma fitting_progress: "fst (fitting limit used (r # rs)) = [] \<longleftrightarrow> limit < used + utf16_width r"
  by (simp add: case_prod_beta)

lemma split_returns:
  assumes "\<forall>r\<in>set rs. utf16_width r \<le> limit"
  shows "\<exists>out. split_from limit es start rs = Some out"
  using assms
proof (induction rs arbitrary: start rule: length_induct)
  case (1 rs)
  show ?case
  proof (cases rs)
    case Nil
    then show ?thesis by (simp add: split_from.simps)
  next
    case (Cons r rs')
    let ?c = "fst (fitting limit 0 rs)" and ?rest = "snd (fitting limit 0 rs)"
    have "?c \<noteq> []" unfolding Cons fitting_progress using 1(2) Cons by auto
    then have "length ?rest < length rs"
      using fitting_parts [of limit 0 rs] by (metis length_append length_greater_0_conv less_add_same_cancel2)
    moreover have "\<forall>r\<in>set ?rest. utf16_width r \<le> limit"
      using 1(2) fitting_parts [of limit 0 rs] by (metis Un_iff set_append)
    ultimately obtain out where "split_from limit es (start + utf16_length ?c) ?rest = Some out"
      using 1(1) by blast
    then show ?thesis by (subst split_from.simps) simp
  qed
qed

lemma split_needs_room:
  assumes ret: "split_from limit es start rs = Some out"
  shows "\<forall>r\<in>set rs. utf16_width r \<le> limit"
proof (rule split_from.raw_induct [where P = "\<lambda>limit es start rs out. \<forall>r\<in>set rs. utf16_width r \<le> limit", OF _ ret])
  fix f :: "int \<Rightarrow> message_entity list \<Rightarrow> int \<Rightarrow> rune list \<Rightarrow> rendered_message list option"
  fix limit es start rs out
  let ?c = "fst (fitting limit 0 rs)" and ?rest = "snd (fitting limit 0 rs)"
  assume IH: "\<And>limit es start rs out. f limit es start rs = Some out \<Longrightarrow> \<forall>r\<in>set rs. utf16_width r \<le> limit"
    and eq: "(if rs = [] then Some []
      else Option.bind (f limit es (start + utf16_length ?c) ?rest)
        (\<lambda>out. Some (\<lparr>rm_text = of_runes ?c, rm_entities = List.map_filter
          (clip_entity start (start + utf16_length ?c)) es\<rparr> # out))) = Some out"
  show "\<forall>r\<in>set rs. utf16_width r \<le> limit"
  proof (cases "rs = []")
    case False
    then obtain out' where "f limit es (start + utf16_length ?c) ?rest = Some out'"
      using eq by (cases "f limit es (start + utf16_length ?c) ?rest") auto
    then have rest: "\<forall>r\<in>set ?rest. utf16_width r \<le> limit" by (rule IH)
    have "utf16_width r \<le> limit" if "r \<in> set ?c" for r
    proof -
      have "0 \<le> limit"
      proof (rule ccontr)
        assume "\<not> 0 \<le> limit"
        then have "?c = []" using that utf16_width_pos by (cases rs) (auto simp: not_le intro: less_trans)
        then show False using that by simp
      qed
      then have "utf16_length ?c \<le> limit" using fitting_bound [of 0 limit rs] by simp
      moreover have "utf16_width r \<le> utf16_length cs" if "r \<in> set cs" for cs
        using that utf16_length_nonneg utf16_width_pos
        by (induction cs) (auto intro: add_increasing less_imp_le)
      ultimately show ?thesis using that by fastforce
    qed
    then show ?thesis using rest fitting_parts [of limit 0 rs] by (metis Un_iff set_append)
  qed simp
qed

section \<open>What a division keeps\<close>

text \<open>The formats of the character at a position, in UTF-16 units.\<close>

definition formats :: "message_entity list \<Rightarrow> int \<Rightarrow> (string \<times> string \<times> string) list" where
  "formats es p =
     map (\<lambda>e. (me_type e, me_url e, me_language e))
       (filter (\<lambda>e. me_offset e \<le> p \<and> p < me_offset e + me_length e) es)"

definition units :: "rendered_message \<Rightarrow> int" where
  "units m = utf16_length (runes (rm_text m))"

lemma formats_clip:
  assumes "start \<le> q" "q < end"
  shows "formats (List.map_filter (clip_entity start end) es) (q - start) = formats es q"
  using assms by (induction es) (auto simp: formats_def clip_entity_def Let_def map_filter_simps)

lemma clip_inside:
  "e \<in> set (List.map_filter (clip_entity start end) es) \<Longrightarrow>
   0 \<le> me_offset e \<and> 0 < me_length e \<and> me_offset e + me_length e \<le> end - start"
  by (auto simp: map_filter_def clip_entity_def Let_def split: if_splits)

lemma split_from_Some:
  assumes "split_from limit es start rs = Some out" "rs \<noteq> []"
  obtains c rest out' where "c @ rest = rs" "c \<noteq> []" "utf16_length c \<le> limit"
    "split_from limit es (start + utf16_length c) rest = Some out'"
    "out = \<lparr>rm_text = of_runes c, rm_entities = List.map_filter (clip_entity start (start + utf16_length c)) es\<rparr> # out'"
proof -
  let ?c = "fst (fitting limit 0 rs)" and ?rest = "snd (fitting limit 0 rs)"
  obtain r rs' where rs: "rs = r # rs'" using assms(2) by (cases rs) auto
  have fits: "utf16_width r \<le> limit" using split_needs_room [OF assms(1)] rs by simp
  then have "?c \<noteq> []" unfolding rs fitting_progress by simp
  moreover have "utf16_length ?c \<le> limit" using fitting_bound [of 0 limit rs] fits utf16_width_pos [of r] by simp
  moreover obtain out' where "split_from limit es (start + utf16_length ?c) ?rest = Some out'"
      "out = \<lparr>rm_text = of_runes ?c, rm_entities = List.map_filter (clip_entity start (start + utf16_length ?c)) es\<rparr> # out'"
    using assms by (subst (asm) split_from.simps) (auto split: Option.bind_splits)
  ultimately show ?thesis using that fitting_parts by blast
qed

lemma split_from_texts:
  assumes "split_from limit es start rs = Some out" "list_all scalar rs"
  shows "concat (map (runes \<circ> rm_text) out) = rs \<and>
    (\<forall>m\<in>set out. rm_text m \<noteq> [] \<and> units m \<le> limit \<and>
       (\<forall>e\<in>set (rm_entities m). 0 \<le> me_offset e \<and> 0 < me_length e \<and> me_offset e + me_length e \<le> units m))"
  using assms
proof (induction out arbitrary: start rs)
  case Nil
  then show ?case using split_from_Some [of limit es start rs "[]"] by (cases "rs = []") auto
next
  case (Cons m out)
  have "rs \<noteq> []" using Cons.prems(1) by (auto simp: split_from.simps)
  then obtain c rest out' where s: "c @ rest = rs" "c \<noteq> []" "utf16_length c \<le> limit"
      "split_from limit es (start + utf16_length c) rest = Some out'"
      "m # out = \<lparr>rm_text = of_runes c, rm_entities = List.map_filter (clip_entity start (start + utf16_length c)) es\<rparr> # out'"
    by (rule split_from_Some [OF Cons.prems(1)])
  have sc: "list_all scalar c" "list_all scalar rest" using Cons.prems(2) s(1) by auto
  have "of_runes c \<noteq> []" using s(2) by (cases c) auto
  then show ?case
    using s Cons.IH [of "start + utf16_length c" rest] sc
    by (auto simp: runes_of_runes units_def dest: clip_inside)
qed

lemma split_from_formats:
  assumes "split_from limit es start rs = Some out" "list_all scalar rs"
    and "i < length out" "0 \<le> p" "p < units (out ! i)"
  shows "formats (rm_entities (out ! i)) p = formats es (start + sum_list (map units (take i out)) + p)"
  using assms
proof (induction out arbitrary: start rs i)
  case (Cons m out)
  have "rs \<noteq> []" using Cons.prems(1) by (auto simp: split_from.simps)
  then obtain c rest out' where s: "c @ rest = rs" "split_from limit es (start + utf16_length c) rest = Some out'"
      "m # out = \<lparr>rm_text = of_runes c, rm_entities = List.map_filter (clip_entity start (start + utf16_length c)) es\<rparr> # out'"
    by (rule split_from_Some [OF Cons.prems(1)])
  have sc: "list_all scalar c" "list_all scalar rest" using Cons.prems(2) s(1) by auto
  have units: "units m = utf16_length c" using s(3) sc by (simp add: units_def runes_of_runes)
  show ?case
  proof (cases i)
    case 0
    then show ?thesis
      using formats_clip [of start "start + p" "start + utf16_length c" es] Cons.prems(4,5) s(3) units by simp
  next
    case (Suc j)
    then show ?thesis
      using Cons.IH [of "start + utf16_length c" rest j] Cons.prems s sc units by (simp add: add.assoc)
  qed
qed simp

text \<open>
  C38: The division of a message ends exactly when no character is wider than the limit; for any
  limit of at least two units, so for Telegram's, it ends on every message.
\<close>
theorem split_terminates:
  "(split_minimal_rendered m limit \<noteq> None \<longleftrightarrow> (\<forall>r\<in>set (runes (rm_text m)). utf16_width r \<le> limit)) \<and>
   split_minimal_rendered m (telegram_message_limit - 16) \<noteq> None"
proof -
  have "split_minimal_rendered m l \<noteq> None \<longleftrightarrow> (\<forall>r\<in>set (runes (rm_text m)). utf16_width r \<le> l)" for l
    using split_returns [of "runes (rm_text m)" l "rm_entities m" 0]
      split_needs_room [of l "rm_entities m" 0 "runes (rm_text m)"]
    unfolding split_minimal_rendered_def by blast
  then show ?thesis by (simp add: utf16_width_def telegram_message_limit_def)
qed

lemma split_terminates_witness:
  "split_minimal_rendered \<lparr>rm_text = ''a'', rm_entities = []\<rparr> 1 \<noteq> None \<and>
   split_minimal_rendered \<lparr>rm_text = of_runes [0x1F600], rm_entities = []\<rparr> 1 = None"
proof -
  have r: "runes ''a'' = [97]" by code_simp
  have e: "runes (of_runes [0x1F600]) = [0x1F600]" by (rule runes_of_runes) (simp add: scalar_def)
  show ?thesis
    using split_terminates [of "\<lparr>rm_text = ''a'', rm_entities = []\<rparr>" 1]
      split_terminates [of "\<lparr>rm_text = of_runes [0x1F600], rm_entities = []\<rparr>" 1]
    by (simp add: r e utf16_width_def del: of_runes_simps)
qed

text \<open>
  C39: A division loses nothing: the parts joined are the text, none is empty or longer than the
  limit, every entity lies inside its part, and each character of a part has exactly the formats
  it had in the message.
\<close>
theorem split_keeps_message:
  assumes "split_minimal_rendered m limit = Some out"
  shows "concat (map (runes \<circ> rm_text) out) = runes (rm_text m) \<and>
    (\<forall>part\<in>set out. rm_text part \<noteq> [] \<and> units part \<le> limit \<and>
       (\<forall>e\<in>set (rm_entities part). 0 \<le> me_offset e \<and> 0 < me_length e \<and> me_offset e + me_length e \<le> units part)) \<and>
    (\<forall>i<length out. \<forall>p. 0 \<le> p \<and> p < units (out ! i) \<longrightarrow>
       formats (rm_entities (out ! i)) p = formats (rm_entities m) (sum_list (map units (take i out)) + p))"
proof -
  note s = assms [unfolded split_minimal_rendered_def]
  show ?thesis using split_from_texts [OF s scalar_runes] split_from_formats [OF s scalar_runes] by simp
qed

lemma split_keeps_message_witness:
  "concat (map (runes \<circ> rm_text) [\<lparr>rm_text = ''ab'', rm_entities = [\<lparr>me_type = ''bold'', me_offset = 1, me_length = 1, me_url = [], me_language = []\<rparr>]\<rparr>,
      \<lparr>rm_text = ''c'', rm_entities = [\<lparr>me_type = ''bold'', me_offset = 0, me_length = 1, me_url = [], me_language = []\<rparr>]\<rparr>])
    = runes ''abc''"
proof -
  have r: "runes ''abc'' = [97, 98, 99]" by code_simp
  have c: "char_of (97::nat) = CHR ''a''" "char_of (98::nat) = CHR ''b''" "char_of (99::nat) = CHR ''c''" by code_simp+
  have "split_minimal_rendered \<lparr>rm_text = ''abc'', rm_entities = [\<lparr>me_type = ''bold'', me_offset = 1, me_length = 2, me_url = [], me_language = []\<rparr>]\<rparr> 2 =
    Some [\<lparr>rm_text = ''ab'', rm_entities = [\<lparr>me_type = ''bold'', me_offset = 1, me_length = 1, me_url = [], me_language = []\<rparr>]\<rparr>,
      \<lparr>rm_text = ''c'', rm_entities = [\<lparr>me_type = ''bold'', me_offset = 0, me_length = 1, me_url = [], me_language = []\<rparr>]\<rparr>]"
    unfolding split_minimal_rendered_def rendered_message.select_convs r
    by (simp add: split_from.simps utf16_width_def clip_entity_def map_filter_simps encode_rune_def scalar_def Let_def c)
  from split_keeps_message [OF this] show ?thesis by simp
qed

end
