(* ===== verification/Project_Registry.thy ===== *)
theory Project_Registry
  imports Go_Strings
begin

text \<open>
  The registry of the projects in which commands may run
  (\<^verbatim>\<open>internal/projectregistry/registry.go\<close>): built once from the configuration, and
  checked against the file system again at every use. The functions of Go's \<^verbatim>\<open>path/filepath\<close>
  differ per operating system: they, the file system and the Unicode case tables are the
  arguments \<^verbatim>\<open>host\<close> and \<^verbatim>\<open>files\<close>; \<^verbatim>\<open>unix_clean\<close> and \<^verbatim>\<open>unix_rel\<close> are those of Unix.
\<close>

section \<open>Paths\<close>

record host =
  h_windows :: bool
  h_separator :: char
  h_lower :: "string \<Rightarrow> string"
  h_clean :: "string \<Rightarrow> string"
  h_is_abs :: "string \<Rightarrow> bool"
  h_abs :: "string \<Rightarrow> string option"
  h_rel :: "string \<Rightarrow> string \<Rightarrow> string option"

text \<open>The file system at one moment: where links lead, and what exists and is a directory.\<close>

record files =
  fs_eval :: "string \<Rightarrow> string option"
  fs_is_dir :: "string \<Rightarrow> bool option"

datatype path_error = PathRequired | PathAbsolute | PathLinks | PathStat | PathNoDirectory

definition canonical_directory :: "host \<Rightarrow> files \<Rightarrow> string \<Rightarrow> (path_error, string) result" where
  "canonical_directory h fs path =
     (let trimmed = trim_space path
      in if trimmed = [] then Inl PathRequired
         else case h_abs h (h_clean h trimmed) of
                None \<Rightarrow> Inl PathAbsolute
              | Some absolute \<Rightarrow>
                 (case fs_eval fs absolute of
                    None \<Rightarrow> Inl PathLinks
                  | Some evaluated \<Rightarrow>
                     (case fs_is_dir fs evaluated of
                        None \<Rightarrow> Inl PathStat
                      | Some d \<Rightarrow> if d then Inr (h_clean h evaluated) else Inl PathNoDirectory)))"

definition contains_path :: "host \<Rightarrow> string \<Rightarrow> string \<Rightarrow> bool" where
  "contains_path h root candidate =
     (case h_rel h root candidate of
        None \<Rightarrow> False
      | Some relative \<Rightarrow>
          \<not> h_is_abs h relative \<and>
          (relative = ''.'' \<or> relative \<noteq> ''..'' \<and> \<not> prefix (''..'' @ [h_separator h]) relative))"

definition comparison_key :: "host \<Rightarrow> string \<Rightarrow> string" where
  "comparison_key h s = h_lower h (trim_space s)"

definition path_comparison_key :: "host \<Rightarrow> string \<Rightarrow> string" where
  "path_comparison_key h s = (if h_windows h then h_lower h (h_clean h s) else h_clean h s)"

section \<open>The registry\<close>

record project =
  pj_id :: string
  pj_display_name :: string
  pj_canonical_path :: string

record registry =
  rg_projects :: "project list"
  rg_by_id :: "(string \<times> nat) list"

datatype registry_error =
    RegIdRequired nat | RegNameRequired string | RegPathRequired string | RegDuplicateId string
  | RegDuplicateName string | RegPath string path_error | RegCollision string string
  | RegUnknown string | RegRevalidate string path_error | RegMoved string

definition trimmed_project :: "project \<Rightarrow> project" where
  "trimmed_project p =
     \<lparr>pj_id = trim_space (pj_id p), pj_display_name = trim_space (pj_display_name p),
      pj_canonical_path = trim_space (pj_canonical_path p)\<rparr>"

text \<open>One round of the loop: the keys seen so far and the registry built so far.\<close>

record registry_build =
  rb_ids :: "string list"
  rb_names :: "string list"
  rb_paths :: "string list"
  rb_registry :: registry

definition register_project :: "host \<Rightarrow> files \<Rightarrow> nat \<Rightarrow> project \<Rightarrow> registry_build \<Rightarrow> (registry_error, registry_build) result" where
  "register_project h fs n raw b =
     (let p = trimmed_project raw;
          id_key = comparison_key h (pj_id p); display_key = comparison_key h (pj_display_name p)
      in if pj_id p = [] then Inl (RegIdRequired n)
         else if pj_display_name p = [] then Inl (RegNameRequired (pj_id p))
         else if pj_canonical_path p = [] then Inl (RegPathRequired (pj_id p))
         else if id_key \<in> set (rb_ids b) then Inl (RegDuplicateId (pj_id p))
         else if display_key \<in> set (rb_names b) then Inl (RegDuplicateName (pj_display_name p))
         else case canonical_directory h fs (pj_canonical_path p) of
                Inl e \<Rightarrow> Inl (RegPath (pj_id p) e)
              | Inr canonical \<Rightarrow>
                 (let path_key = path_comparison_key h canonical
                  in if path_key \<in> set (rb_paths b) then Inl (RegCollision (pj_id p) canonical)
                     else Inr \<lparr>rb_ids = id_key # rb_ids b, rb_names = display_key # rb_names b,
                               rb_paths = path_key # rb_paths b,
                               rb_registry =
                                 \<lparr>rg_projects = rg_projects (rb_registry b) @ [p\<lparr>pj_canonical_path := canonical\<rparr>],
                                  rg_by_id = (id_key, length (rg_projects (rb_registry b))) # rg_by_id (rb_registry b)\<rparr>\<rparr>))"

fun register_projects :: "host \<Rightarrow> files \<Rightarrow> nat \<Rightarrow> project list \<Rightarrow> registry_build \<Rightarrow> (registry_error, registry_build) result" where
  "register_projects h fs n [] b = Inr b"
| "register_projects h fs n (raw # raws) b =
     (case register_project h fs (Suc n) raw b of
        Inl e \<Rightarrow> Inl e
      | Inr b' \<Rightarrow> register_projects h fs (Suc n) raws b')"

definition new_registry :: "host \<Rightarrow> files \<Rightarrow> project list \<Rightarrow> (registry_error, registry) result" where
  "new_registry h fs raws =
     (case register_projects h fs 0 raws
             \<lparr>rb_ids = [], rb_names = [], rb_paths = [], rb_registry = \<lparr>rg_projects = [], rg_by_id = []\<rparr>\<rparr> of
        Inl e \<Rightarrow> Inl e
      | Inr b \<Rightarrow> Inr (rb_registry b))"

section \<open>Lookups\<close>

definition resolve_project :: "host \<Rightarrow> files \<Rightarrow> registry \<Rightarrow> string \<Rightarrow> (registry_error, project) result" where
  "resolve_project h fs reg i =
     (case map_of (rg_by_id reg) (comparison_key h (trim_space i)) of
        None \<Rightarrow> Inl (RegUnknown i)
      | Some n \<Rightarrow>
         (let p = rg_projects reg ! n
          in case canonical_directory h fs (pj_canonical_path p) of
               Inl e \<Rightarrow> Inl (RegRevalidate (pj_id p) e)
             | Inr canonical \<Rightarrow>
                 if path_comparison_key h canonical \<noteq> path_comparison_key h (pj_canonical_path p)
                 then Inl (RegMoved (pj_id p)) else Inr p))"

text \<open>The loop of \<^verbatim>\<open>MatchCWD\<close>: the longest root so far.\<close>

definition better_match :: "host \<Rightarrow> files \<Rightarrow> registry \<Rightarrow> string \<Rightarrow> project \<Rightarrow> project option \<Rightarrow> project option" where
  "better_match h fs reg cwd cached best =
     (case resolve_project h fs reg (pj_id cached) of
        Inl _ \<Rightarrow> best
      | Inr p \<Rightarrow>
          if \<not> contains_path h (pj_canonical_path p) cwd then best
          else case best of
                 None \<Rightarrow> Some p
               | Some q \<Rightarrow> if length (pj_canonical_path q) < length (pj_canonical_path p) then Some p else best)"

definition match_cwd :: "host \<Rightarrow> files \<Rightarrow> registry \<Rightarrow> string \<Rightarrow> project option" where
  "match_cwd h fs reg cwd =
     (case canonical_directory h fs cwd of
        Inl _ \<Rightarrow> None
      | Inr canonical \<Rightarrow> fold (better_match h fs reg canonical) (rg_projects reg) None)"

definition exact_match :: "host \<Rightarrow> files \<Rightarrow> registry \<Rightarrow> string \<Rightarrow> project \<Rightarrow> project option" where
  "exact_match h fs reg cwd_key cached =
     (case resolve_project h fs reg (pj_id cached) of
        Inl _ \<Rightarrow> None
      | Inr p \<Rightarrow> if path_comparison_key h (pj_canonical_path p) = cwd_key then Some p else None)"

definition match_exact_cwd :: "host \<Rightarrow> files \<Rightarrow> registry \<Rightarrow> string \<Rightarrow> project option" where
  "match_exact_cwd h fs reg cwd =
     (case canonical_directory h fs cwd of
        Inl _ \<Rightarrow> None
      | Inr canonical \<Rightarrow>
          (case List.map_filter (exact_match h fs reg (path_comparison_key h canonical)) (rg_projects reg) of
             [] \<Rightarrow> None
           | p # _ \<Rightarrow> Some p))"

section \<open>Paths on Unix\<close>

text \<open>
  \<^verbatim>\<open>filepath.Clean\<close>: empty elements and \<^verbatim>\<open>.\<close> go, \<^verbatim>\<open>..\<close> takes the element before it
  with it, and at the root it goes too.
\<close>

fun clean_elements :: "bool \<Rightarrow> string list \<Rightarrow> string list \<Rightarrow> string list" where
  "clean_elements rooted acc [] = rev acc"
| "clean_elements rooted acc (e # es) =
     (if e = [] \<or> e = ''.'' then clean_elements rooted acc es
      else if e = ''..'' then
        (case acc of
           [] \<Rightarrow> clean_elements rooted (if rooted then [] else [e]) es
         | a # as \<Rightarrow> clean_elements rooted (if a = ''..'' then e # acc else as) es)
      else clean_elements rooted (e # acc) es)"

definition rooted :: "string \<Rightarrow> bool" where
  "rooted p \<longleftrightarrow> prefix ''/'' p"

definition elements :: "string \<Rightarrow> string list" where
  "elements p = clean_elements (rooted p) [] (split_byte CHR ''/'' p)"

definition unix_clean :: "string \<Rightarrow> string" where
  "unix_clean p =
     (let s = (if rooted p then ''/'' else []) @ join ''/'' (elements p)
      in if s = [] then ''.'' else s)"

text \<open>
  \<^verbatim>\<open>filepath.Rel\<close> on rooted paths, the only ones that are compared: up from the first path, then
  down to the second.
\<close>

fun without_common :: "string list \<Rightarrow> string list \<Rightarrow> string list \<times> string list" where
  "without_common (a # as) (b # bs) = (if a = b then without_common as bs else (a # as, b # bs))"
| "without_common as bs = (as, bs)"

definition unix_rel :: "string \<Rightarrow> string \<Rightarrow> string option" where
  "unix_rel base target =
     (if rooted base \<noteq> rooted target then None
      else let (up, down) = without_common (elements base) (elements target)
           in if up \<noteq> [] \<and> hd up = ''..'' then None
              else if up = [] \<and> down = [] then Some ''.''
              else Some (join ''/'' (replicate (length up) ''..'' @ down)))"

definition unix_host :: "(string \<Rightarrow> string) \<Rightarrow> string \<Rightarrow> host" where
  "unix_host lower wd =
     \<lparr>h_windows = False, h_separator = CHR ''/'', h_lower = lower, h_clean = unix_clean, h_is_abs = rooted,
      h_abs = (\<lambda>p. Some (if rooted p then unix_clean p else unix_clean (wd @ ''/'' @ p))),
      h_rel = unix_rel\<rparr>"

section \<open>The registry is well formed\<close>

definition id_key :: "host \<Rightarrow> project \<Rightarrow> string" where
  "id_key h p = comparison_key h (pj_id p)"

definition name_key :: "host \<Rightarrow> project \<Rightarrow> string" where
  "name_key h p = comparison_key h (pj_display_name p)"

definition path_key :: "host \<Rightarrow> project \<Rightarrow> string" where
  "path_key h p = path_comparison_key h (pj_canonical_path p)"

definition registry_ok :: "host \<Rightarrow> registry \<Rightarrow> bool" where
  "registry_ok h reg \<longleftrightarrow>
     (let ps = rg_projects reg
      in rg_by_id reg = rev (zip (map (id_key h) ps) [0..<length ps]) \<and>
         distinct (map (id_key h) ps) \<and> distinct (map (name_key h) ps) \<and> distinct (map (path_key h) ps))"

definition build_ok :: "host \<Rightarrow> registry_build \<Rightarrow> bool" where
  "build_ok h b \<longleftrightarrow>
     (let ps = rg_projects (rb_registry b)
      in registry_ok h (rb_registry b) \<and> set (rb_ids b) = set (map (id_key h) ps) \<and>
         set (rb_names b) = set (map (name_key h) ps) \<and> set (rb_paths b) = set (map (path_key h) ps))"

lemma register_project_ok:
  "register_project h fs n raw b = Inr b' \<Longrightarrow> build_ok h b \<Longrightarrow> build_ok h b'"
  by (auto simp: register_project_def Let_def build_ok_def registry_ok_def id_key_def name_key_def path_key_def
      split: if_splits sum.splits)

lemma register_projects_ok:
  "register_projects h fs n raws b = Inr b' \<Longrightarrow> build_ok h b \<Longrightarrow> build_ok h b'"
  by (induction h fs n raws b rule: register_projects.induct)
    (auto dest: register_project_ok split: sum.splits)

lemma new_registry_ok: "new_registry h fs raws = Inr reg \<Longrightarrow> registry_ok h reg"
  by (auto simp: new_registry_def build_ok_def registry_ok_def Let_def split: sum.splits
      dest!: register_projects_ok)

section \<open>What a lookup returns\<close>

text \<open>The root of a project is still the directory it was.\<close>

definition current :: "host \<Rightarrow> files \<Rightarrow> project \<Rightarrow> bool" where
  "current h fs p \<longleftrightarrow>
     (case canonical_directory h fs (pj_canonical_path p) of
        Inl _ \<Rightarrow> False
      | Inr c \<Rightarrow> path_comparison_key h c = path_key h p)"

lemma comparison_key_trim [simp]: "comparison_key h (trim_space i) = comparison_key h i"
  by (simp add: comparison_key_def)

lemma lookup_id:
  assumes "registry_ok h reg"
  shows "map_of (rg_by_id reg) k = Some n \<longleftrightarrow> n < length (rg_projects reg) \<and> id_key h (rg_projects reg ! n) = k"
proof -
  let ?ps = "rg_projects reg" and ?zs = "zip (map (id_key h) (rg_projects reg)) [0..<length (rg_projects reg)]"
  have "distinct (map fst (rg_by_id reg))" using assms by (simp add: registry_ok_def Let_def flip: rev_map)
  then have "map_of (rg_by_id reg) k = Some n \<longleftrightarrow> (k, n) \<in> set ?zs"
    using assms by (simp add: registry_ok_def Let_def)
  moreover have "(k, n) \<in> set ?zs \<longleftrightarrow> n < length ?ps \<and> id_key h (?ps ! n) = k"
    by (auto simp: in_set_zip intro!: exI [of _ n])
  ultimately show ?thesis by simp
qed

lemma resolve_project_Inr:
  assumes "registry_ok h reg"
  shows "resolve_project h fs reg i = Inr p \<longleftrightarrow>
    p \<in> set (rg_projects reg) \<and> id_key h p = comparison_key h i \<and> current h fs p"
proof (cases "map_of (rg_by_id reg) (comparison_key h i)")
  case None
  then have "id_key h q \<noteq> comparison_key h i" if "q \<in> set (rg_projects reg)" for q
    using that lookup_id [OF assms, of "comparison_key h i"] by (auto simp: in_set_conv_nth)
  then show ?thesis using None by (auto simp: resolve_project_def)
next
  case (Some n)
  then have n: "n < length (rg_projects reg)" "id_key h (rg_projects reg ! n) = comparison_key h i"
    using lookup_id [OF assms] by simp_all
  have "distinct (map (id_key h) (rg_projects reg))" using assms by (simp add: registry_ok_def Let_def)
  then have "q = rg_projects reg ! n" if "q \<in> set (rg_projects reg)" "id_key h q = comparison_key h i" for q
    using that n by (metis distinct_map inj_on_eq_iff nth_mem)
  then show ?thesis using n nth_mem [OF n(1)]
    by (auto simp: resolve_project_def Some Let_def current_def path_key_def split: sum.split)
qed

lemma resolve_cached:
  assumes "registry_ok h reg" "q \<in> set (rg_projects reg)"
  shows "resolve_project h fs reg (pj_id q) = Inr p \<longleftrightarrow> p = q \<and> current h fs q"
proof -
  have "distinct (map (id_key h) (rg_projects reg))" using assms by (simp add: registry_ok_def Let_def)
  then have "p = q" if "p \<in> set (rg_projects reg)" "id_key h p = id_key h q"
    using that assms(2) by (metis distinct_map inj_on_eq_iff)
  then show ?thesis using assms by (auto simp: resolve_project_Inr id_key_def)
qed

lemma better_match_cached:
  assumes "registry_ok h reg" "q \<in> set (rg_projects reg)"
  shows "better_match h fs reg cwd q best =
    (if current h fs q \<and> contains_path h (pj_canonical_path q) cwd then
       (case best of None \<Rightarrow> Some q
        | Some r \<Rightarrow> if length (pj_canonical_path r) < length (pj_canonical_path q) then Some q else best)
     else best)"
proof (cases "resolve_project h fs reg (pj_id q)")
  case (Inl e)
  then have "\<not> current h fs q" using resolve_cached [OF assms, of fs q] by auto
  then show ?thesis by (simp add: better_match_def Inl)
next
  case (Inr p)
  then show ?thesis using resolve_cached [OF assms, of fs p] by (simp add: better_match_def)
qed

lemma fold_better_match:
  assumes "registry_ok h reg" "set qs \<subseteq> set (rg_projects reg)"
    and "ok = (\<lambda>q. current h fs q \<and> contains_path h (pj_canonical_path q) cwd)"
  shows "case fold (better_match h fs reg cwd) qs best of
      None \<Rightarrow> best = None \<and> (\<forall>q\<in>set qs. \<not> ok q)
    | Some p \<Rightarrow> (best = Some p \<or> p \<in> set qs \<and> ok p) \<and>
        (\<forall>q\<in>set qs. ok q \<longrightarrow> length (pj_canonical_path q) \<le> length (pj_canonical_path p)) \<and>
        (\<forall>q. best = Some q \<longrightarrow> length (pj_canonical_path q) \<le> length (pj_canonical_path p))"
  using assms(2)
proof (induction qs arbitrary: best)
  case Nil
  then show ?case by (cases best) simp_all
next
  case (Cons q qs)
  have b: "better_match h fs reg cwd q best =
      (if ok q then (case best of None \<Rightarrow> Some q
        | Some r \<Rightarrow> if length (pj_canonical_path r) < length (pj_canonical_path q) then Some q else best) else best)"
    using better_match_cached [OF assms(1), of q fs cwd best] Cons.prems assms(3) by simp
  let ?best = "better_match h fs reg cwd q best"
  have IH: "case fold (better_match h fs reg cwd) qs ?best of
      None \<Rightarrow> ?best = None \<and> (\<forall>q\<in>set qs. \<not> ok q)
    | Some p \<Rightarrow> (?best = Some p \<or> p \<in> set qs \<and> ok p) \<and>
        (\<forall>q\<in>set qs. ok q \<longrightarrow> length (pj_canonical_path q) \<le> length (pj_canonical_path p)) \<and>
        (\<forall>q. ?best = Some q \<longrightarrow> length (pj_canonical_path q) \<le> length (pj_canonical_path p))"
    using Cons.prems by (intro Cons.IH) simp
  show ?case
  proof (cases "fold (better_match h fs reg cwd) qs ?best")
    case None
    then show ?thesis using IH b by (auto split: if_splits option.splits)
  next
    case (Some p)
    then show ?thesis using IH b by (fastforce split: if_splits option.splits)
  qed
qed

text \<open>
  C36: The lookup of a project by directory finds the most specific one: it is one of the configured
  projects, its root is still the directory it was at the start and contains the directory asked for,
  and no other such project has a longer root; none is found only when no current project contains
  the directory.
\<close>
theorem cwd_match_most_specific:
  assumes "new_registry h fs0 raws = Inr reg" "canonical_directory h fs cwd = Inr canonical"
  shows "case match_cwd h fs reg cwd of
      None \<Rightarrow> \<not> (\<exists>q\<in>set (rg_projects reg). current h fs q \<and> contains_path h (pj_canonical_path q) canonical)
    | Some p \<Rightarrow> p \<in> set (rg_projects reg) \<and> current h fs p \<and> contains_path h (pj_canonical_path p) canonical \<and>
        resolve_project h fs reg (pj_id p) = Inr p \<and>
        (\<forall>q\<in>set (rg_projects reg). current h fs q \<and> contains_path h (pj_canonical_path q) canonical \<longrightarrow>
           length (pj_canonical_path q) \<le> length (pj_canonical_path p))"
proof -
  have ok: "registry_ok h reg" by (rule new_registry_ok [OF assms(1)])
  show ?thesis
    using fold_better_match [OF ok order_refl refl, where fs = fs and cwd = canonical and best = None] resolve_cached [OF ok]
    by (auto simp: match_cwd_def assms(2) split: option.splits)
qed

lemma cwd_match_most_specific_witness:
  "let h = unix_host (\<lambda>s. s) ''/''; fs = \<lparr>fs_eval = Some, fs_is_dir = (\<lambda>_. Some True)\<rparr>;
       outer = \<lparr>pj_id = ''a'', pj_display_name = ''A'', pj_canonical_path = ''/w''\<rparr>;
       inner = \<lparr>pj_id = ''b'', pj_display_name = ''B'', pj_canonical_path = ''/w/b''\<rparr>;
       reg = \<lparr>rg_projects = [outer, inner], rg_by_id = [(''b'', 1), (''a'', 0)]\<rparr>
   in match_cwd h fs reg ''/w/b/./c'' = Some inner \<and> resolve_project h fs reg (pj_id inner) = Inr inner"
proof -
  define h where "h = unix_host (\<lambda>s. s) ''/''"
  define fs where "fs = \<lparr>fs_eval = Some, fs_is_dir = (\<lambda>_. Some True)\<rparr>"
  define outer where "outer = \<lparr>pj_id = ''a'', pj_display_name = ''A'', pj_canonical_path = ''/w''\<rparr>"
  define inner where "inner = \<lparr>pj_id = ''b'', pj_display_name = ''B'', pj_canonical_path = ''/w/b''\<rparr>"
  define reg where "reg = \<lparr>rg_projects = [outer, inner], rg_by_id = [(''b'', 1), (''a'', 0)]\<rparr>"
  note defs = h_def fs_def outer_def inner_def reg_def
  have "new_registry h fs [outer, inner] = Inr reg" unfolding defs by code_simp
  moreover have "canonical_directory h fs ''/w/b/./c'' = Inr ''/w/b/c''" unfolding defs by code_simp
  moreover have m: "match_cwd h fs reg ''/w/b/./c'' = Some inner" unfolding defs by code_simp
  ultimately have "resolve_project h fs reg (pj_id inner) = Inr inner"
    using cwd_match_most_specific [of h fs "[outer, inner]" reg fs "''/w/b/./c''" "''/w/b/c''"] by simp
  then show ?thesis using m by (simp only: Let_def simp_thms flip: defs)
qed

section \<open>Containment on Unix\<close>

text \<open>What an element of a cleaned rooted path looks like.\<close>

definition proper :: "string \<Rightarrow> bool" where
  "proper e \<longleftrightarrow> e \<noteq> [] \<and> e \<noteq> ''.'' \<and> e \<noteq> ''..'' \<and> CHR ''/'' \<notin> set e"

lemma clean_elements_proper:
  assumes "list_all proper acc" "\<forall>e\<in>set es. CHR ''/'' \<notin> set e"
  shows "list_all proper (clean_elements True acc es)"
  using assms
proof (induction es arbitrary: acc)
  case (Cons e es)
  have rec: "list_all proper acc' \<Longrightarrow> list_all proper (clean_elements True acc' es)" for acc'
    using Cons by simp
  consider "e = [] \<or> e = ''.''" | "e = ''..''" "acc = []" | a as where "e = ''..''" "acc = a # as" | "proper e"
    using Cons.prems(2) by (cases acc) (auto simp only: proper_def list.set_intros)
  then show ?case
  proof cases
    case 3
    then have "proper a" "list_all proper as" using Cons.prems(1) by simp_all
    then have "a \<noteq> ''..''" by (simp only: proper_def simp_thms)
    then show ?thesis using 3 rec [of as] \<open>list_all proper as\<close> by simp
  next
    case 4
    then have "clean_elements True acc (e # es) = clean_elements True (e # acc) es" by (simp add: proper_def)
    then show ?thesis using 4 rec [of "e # acc"] Cons.prems(1) by simp
  qed (use rec Cons.prems in auto)
qed (simp add: list_all_iff)

lemma elements_proper: "rooted p \<Longrightarrow> list_all proper (elements p)"
  unfolding elements_def by (auto intro!: clean_elements_proper dest: split_byte_free)

lemma without_common_prefix:
  "without_common as bs = (up, down) \<Longrightarrow> \<exists>common. as = common @ up \<and> bs = common @ down \<and> (up = [] \<longleftrightarrow> prefix as bs)"
proof (induction as bs rule: without_common.induct)
  case (1 a as b bs)
  show ?case
  proof (cases "a = b")
    case True
    then obtain common where "as = common @ up" "bs = common @ down" "up = [] \<longleftrightarrow> prefix as bs"
      using 1 by auto
    then show ?thesis using True by (intro exI [of _ "a # common"]) simp
  qed (use 1 in auto)
qed auto

lemma not_upwards:
  assumes "proper e"
  shows "join ''/'' (e # es) \<noteq> ''..'' \<and> \<not> prefix ''../'' (join ''/'' (e # es)) \<and> \<not> rooted (join ''/'' (e # es))"
proof -
  obtain s where s: "join ''/'' (e # es) = e @ s" "s = [] \<or> (\<exists>s'. s = CHR ''/'' # s')"
    by (cases es) auto
  obtain c cs where e: "e = c # cs" "c \<noteq> CHR ''/''" using assms by (cases e) (auto simp: proper_def)
  have "\<not> rooted (e @ s)" using e by (simp add: rooted_def)
  moreover have "e @ s \<noteq> ''..''"
    using assms s(2) e by (auto simp: proper_def Cons_eq_append_conv append_eq_Cons_conv)
  moreover have "\<not> prefix ''../'' (e @ s)"
    using assms s(2) e by (auto simp: proper_def Cons_eq_append_conv append_eq_Cons_conv prefix_def)
  ultimately show ?thesis using s(1) by simp
qed

text \<open>
  C37: On Unix the containment test of the registry is containment of paths: a cleaned candidate is
  accepted exactly when the elements of the root are the first elements of the candidate, so
  neither a sibling whose name starts like the root nor a way out over \<^verbatim>\<open>..\<close> passes.
\<close>
theorem contains_path_is_prefix:
  assumes "rooted root" "rooted candidate"
  shows "contains_path (unix_host lower wd) root candidate \<longleftrightarrow> prefix (elements root) (elements candidate)"
proof -
  obtain up down where w: "without_common (elements root) (elements candidate) = (up, down)"
    by (cases "without_common (elements root) (elements candidate)")
  obtain common where c: "elements root = common @ up" "elements candidate = common @ down"
      "up = [] \<longleftrightarrow> prefix (elements root) (elements candidate)"
    using without_common_prefix [OF w] by blast
  have proper: "list_all proper up" "list_all proper down"
    using elements_proper [OF assms(1)] elements_proper [OF assms(2)] c(1,2) by simp_all
  have rel: "h_rel (unix_host lower wd) root candidate =
      (if up = [] \<and> down = [] then Some ''.'' else Some (join ''/'' (replicate (length up) ''..'' @ down)))"
    using assms w proper(1) by (cases up) (auto simp: unix_host_def unix_rel_def proper_def)
  have sep: "h_separator (unix_host lower wd) = CHR ''/''" "h_is_abs (unix_host lower wd) = rooted"
    by (simp_all add: unix_host_def)
  show ?thesis
  proof (cases up)
    case Nil
    show ?thesis
    proof (cases down)
      case Nil
      then show ?thesis using \<open>up = []\<close> c(3) by (simp add: contains_path_def rel sep rooted_def)
    next
      case (Cons e es)
      then show ?thesis using \<open>up = []\<close> c(3) proper(2) not_upwards [of e es]
        by (simp add: contains_path_def rel sep)
    qed
  next
    case (Cons u us)
    let ?rest = "replicate (length us) ''..'' @ down"
    have "join ''/'' (''..'' # ?rest) = ''..'' \<or> prefix ''../'' (join ''/'' (''..'' # ?rest))"
      by (cases ?rest) auto
    moreover have "join ''/'' (''..'' # ?rest) \<noteq> ''.''" by (cases ?rest) auto
    ultimately show ?thesis using Cons c(3) by (auto simp: contains_path_def rel sep)
  qed
qed

lemma contains_path_is_prefix_witness:
  "contains_path (unix_host (\<lambda>s. s) ''/'') ''/w/b'' ''/w/b/../b/c'' \<and>
   \<not> contains_path (unix_host (\<lambda>s. s) ''/'') ''/w/b'' ''/w/bc''"
proof -
  have "elements ''/w/b'' = [''w'', ''b'']" "elements ''/w/b/../b/c'' = [''w'', ''b'', ''c'']" "elements ''/w/bc'' = [''w'', ''bc'']"
    by code_simp+
  then show ?thesis
    using contains_path_is_prefix [of "''/w/b''" "''/w/b/../b/c''" "\<lambda>s. s" "''/''"]
      contains_path_is_prefix [of "''/w/b''" "''/w/bc''" "\<lambda>s. s" "''/''"]
    by (simp add: rooted_def)
qed

end
