(* ===== verification/Link_Workers.thy ===== *)
theory Link_Workers
  imports Go_Strings "HOL-Library.Word"
begin

text \<open>
  The manager of the worker processes that run linked threads
  (\<^verbatim>\<open>internal/daemon/minimal_link_worker.go\<close>): which worker owns which registry key and
  thread, and the generation that fences its writes. The workers are objects that three tables
  share and \<^verbatim>\<open>BindThread\<close> changes in place, so the model keeps them in a heap and the tables hold
  addresses. Starting and closing a session happens outside the lock: an acquisition and a release
  are two transitions each, with the outcome of the session between them.
\<close>

section \<open>State\<close>

record 's link_worker =
  lw_registry_key :: string
  lw_thread_id :: string
  lw_generation :: "64 word"
  lw_session_identity :: string
  lw_session :: 's

record confirmed_entry =
  cr_generation :: "64 word"
  cr_session_identity :: string

record 's worker_manager =
  wm_nonce :: string
  wm_next_generation :: "64 word"
  wm_closed :: bool
  wm_acquiring :: nat
  wm_close_errors :: "string list"
  wm_heap :: "'s link_worker list"
  wm_by_key :: "string \<rightharpoonup> nat"
  wm_by_thread :: "string \<rightharpoonup> nat"
  wm_by_identity :: "string \<rightharpoonup> nat"
  wm_confirmed :: "string \<rightharpoonup> confirmed_entry"
  wm_busy_keys :: "string set"
  wm_busy_threads :: "string set"

definition new_minimal_link_worker_manager :: "string \<Rightarrow> 's worker_manager" where
  "new_minimal_link_worker_manager nonce =
     \<lparr>wm_nonce = nonce, wm_next_generation = 0, wm_closed = False, wm_acquiring = 0, wm_close_errors = [],
      wm_heap = [], wm_by_key = Map.empty, wm_by_thread = Map.empty, wm_by_identity = Map.empty,
      wm_confirmed = Map.empty, wm_busy_keys = {}, wm_busy_threads = {}\<rparr>"

datatype worker_error =
    WkKeyRequired | WkShuttingDown | WkKeyBusy string | WkKeyActive string | WkThreadBusy string
  | WkThreadActive string | WkNilSession | WkStart string | WkNoSubscription | WkThreadRequired
  | WkNotActive | WkBoundElsewhere

section \<open>Acquisition\<close>

definition begin_acquire :: "string \<Rightarrow> string \<Rightarrow> 's worker_manager \<Rightarrow> (worker_error, 's worker_manager) result" where
  "begin_acquire key linked m =
     (if wm_closed m then Inl WkShuttingDown
      else if key \<in> wm_busy_keys m then Inl (WkKeyBusy key)
      else if wm_by_key m key \<noteq> None then Inl (WkKeyActive key)
      else if linked \<noteq> [] \<and> linked \<in> wm_busy_threads m then Inl (WkThreadBusy linked)
      else if linked \<noteq> [] \<and> wm_by_thread m linked \<noteq> None then Inl (WkThreadActive linked)
      else Inr (m\<lparr>wm_busy_keys := insert key (wm_busy_keys m),
                  wm_busy_threads := (if linked = [] then wm_busy_threads m else insert linked (wm_busy_threads m)),
                  wm_acquiring := Suc (wm_acquiring m)\<rparr>))"

definition finish_acquire :: "string \<Rightarrow> string \<Rightarrow> 's worker_manager \<Rightarrow> 's worker_manager" where
  "finish_acquire key linked m =
     m\<lparr>wm_busy_keys := wm_busy_keys m - {key},
       wm_busy_threads := (if linked = [] then wm_busy_threads m else wm_busy_threads m - {linked}),
       wm_acquiring := wm_acquiring m - 1\<rparr>"

definition record_acquire_close_error :: "string option \<Rightarrow> 's worker_manager \<Rightarrow> 's worker_manager" where
  "record_acquire_close_error err m =
     (case err of
        None \<Rightarrow> m
      | Some e \<Rightarrow> if wm_closed m then m\<lparr>wm_close_errors := wm_close_errors m @ [e]\<rparr> else m)"

text \<open>What happened between the two: the session that was started, if any.\<close>

datatype 's start_outcome = NilSession | StartFailed string | NoSubscription | Started 's

definition worker_session_identity :: "string \<Rightarrow> 64 word \<Rightarrow> string" where
  "worker_session_identity nonce g = ''minimal-link-worker:'' @ nonce @ '':'' @ itoa (uint g)"

definition register_worker :: "string \<Rightarrow> string \<Rightarrow> 's \<Rightarrow> 's worker_manager \<Rightarrow> nat \<times> 's worker_manager" where
  "register_worker key linked session m =
     (let g = wm_next_generation m + 1; i = worker_session_identity (wm_nonce m) g; a = length (wm_heap m)
      in (a, m\<lparr>wm_next_generation := g,
               wm_heap := wm_heap m @ [\<lparr>lw_registry_key = key, lw_thread_id = linked, lw_generation = g,
                                         lw_session_identity = i, lw_session = session\<rparr>],
               wm_by_key := (wm_by_key m)(key \<mapsto> a),
               wm_by_thread := (if linked = [] then wm_by_thread m else (wm_by_thread m)(linked \<mapsto> a)),
               wm_confirmed := (if linked = [] then wm_confirmed m else (wm_confirmed m)(linked := None)),
               wm_by_identity := (wm_by_identity m)(i \<mapsto> a)\<rparr>))"

text \<open>
  The second half of \<^verbatim>\<open>Acquire\<close>; \<^verbatim>\<open>close_err\<close> is the outcome of closing a session that is given up.
  The result is the address of the worker.
\<close>

definition complete_acquire ::
  "string \<Rightarrow> string \<Rightarrow> 's start_outcome \<Rightarrow> string option \<Rightarrow> 's worker_manager \<Rightarrow>
   (worker_error, nat) result \<times> 's worker_manager" where
  "complete_acquire key linked outcome close_err m =
     (let give_up = (\<lambda>e. (Inl e, finish_acquire key linked (record_acquire_close_error close_err m)))
      in case outcome of
           NilSession \<Rightarrow> (Inl WkNilSession, finish_acquire key linked m)
         | StartFailed e \<Rightarrow> give_up (WkStart e)
         | NoSubscription \<Rightarrow> give_up WkNoSubscription
         | Started session \<Rightarrow>
             if wm_closed m then give_up WkShuttingDown
             else if wm_by_key m key \<noteq> None then give_up (WkKeyActive key)
             else if linked \<noteq> [] \<and> wm_by_thread m linked \<noteq> None then give_up (WkThreadActive linked)
             else let (a, m') = register_worker key linked session m in (Inr a, finish_acquire key linked m'))"

definition acquire ::
  "string \<Rightarrow> string \<Rightarrow> 's start_outcome \<Rightarrow> string option \<Rightarrow> 's worker_manager \<Rightarrow>
   (worker_error, nat) result \<times> 's worker_manager" where
  "acquire key0 linked0 outcome close_err m =
     (let key = trim_space key0; linked = trim_space linked0
      in if key = [] then (Inl WkKeyRequired, m)
         else case begin_acquire key linked m of
                Inl e \<Rightarrow> (Inl e, m)
              | Inr m' \<Rightarrow> complete_acquire key linked outcome close_err m')"

section \<open>Lookups and binding\<close>

definition bind_thread :: "nat \<Rightarrow> string \<Rightarrow> 's worker_manager \<Rightarrow> (worker_error, 's worker_manager) result" where
  "bind_thread worker thread0 m =
     (let thread = trim_space thread0; w = wm_heap m ! worker
      in if thread = [] then Inl WkThreadRequired
         else if wm_closed m then Inl WkShuttingDown
         else case wm_by_key m (lw_registry_key w) of
                None \<Rightarrow> Inl WkNotActive
              | Some a \<Rightarrow>
                 (let c = wm_heap m ! a
                  in if lw_generation c \<noteq> lw_generation w \<or> lw_session_identity c \<noteq> lw_session_identity w
                     then Inl WkNotActive
                     else if lw_thread_id c = thread then Inr m
                     else if lw_thread_id c \<noteq> [] then Inl WkBoundElsewhere
                     else if (case wm_by_thread m thread of
                                None \<Rightarrow> False | Some b \<Rightarrow> lw_generation (wm_heap m ! b) \<noteq> lw_generation w)
                     then Inl (WkThreadActive thread)
                     else if thread \<in> wm_busy_threads m then Inl (WkThreadBusy thread)
                     else Inr (m\<lparr>wm_heap := (wm_heap m)[a := c\<lparr>lw_thread_id := thread\<rparr>],
                                 wm_by_thread := (wm_by_thread m)(thread \<mapsto> a),
                                 wm_confirmed := (wm_confirmed m)(thread := None)\<rparr>)))"

definition by_thread :: "string \<Rightarrow> 's worker_manager \<Rightarrow> nat option" where
  "by_thread thread0 m =
     (let thread = trim_space thread0 in if thread = [] then None else wm_by_thread m thread)"

definition by_session_identity :: "string \<Rightarrow> 's worker_manager \<Rightarrow> nat option" where
  "by_session_identity identity0 m =
     (let i = trim_space identity0 in if i = [] then None else wm_by_identity m i)"

text \<open>A worker whose event is handled must still be the registered one.\<close>

definition active_minimal_linked_worker :: "nat \<Rightarrow> 's worker_manager \<Rightarrow> bool" where
  "active_minimal_linked_worker worker m \<longleftrightarrow>
     by_session_identity (lw_session_identity (wm_heap m ! worker)) m = Some worker"

section \<open>Release\<close>

definition remove_entry :: "string \<Rightarrow> nat \<Rightarrow> (string \<rightharpoonup> nat) \<Rightarrow> (string \<rightharpoonup> nat)" where
  "remove_entry k a tab = (if tab k = Some a then tab(k := None) else tab)"

definition remove_worker :: "nat \<Rightarrow> 's worker_manager \<Rightarrow> 's worker_manager" where
  "remove_worker a m =
     (let w = wm_heap m ! a
      in m\<lparr>wm_by_key := remove_entry (lw_registry_key w) a (wm_by_key m),
           wm_by_thread := (if lw_thread_id w = [] then wm_by_thread m else remove_entry (lw_thread_id w) a (wm_by_thread m)),
           wm_by_identity := remove_entry (lw_session_identity w) a (wm_by_identity m)\<rparr>)"

definition begin_release :: "string \<Rightarrow> 64 word \<Rightarrow> 's worker_manager \<Rightarrow> (nat \<times> 's worker_manager) option" where
  "begin_release thread0 g m =
     (let thread = trim_space thread0
      in if thread = [] then None
         else case wm_by_thread m thread of
                None \<Rightarrow> None
              | Some a \<Rightarrow> if lw_generation (wm_heap m ! a) \<noteq> g then None else Some (a, remove_worker a m))"

definition record_confirmed_release :: "string \<Rightarrow> 64 word \<Rightarrow> string \<Rightarrow> 's worker_manager \<Rightarrow> 's worker_manager" where
  "record_confirmed_release thread0 g identity0 m =
     (let thread = trim_space thread0
      in if thread = [] \<or> g = 0 \<or> wm_by_thread m thread \<noteq> None then m
         else m\<lparr>wm_confirmed := (wm_confirmed m)
                  (thread \<mapsto> \<lparr>cr_generation = g, cr_session_identity = trim_space identity0\<rparr>)\<rparr>)"

text \<open>How closing the session ended; an error may still confirm that the process is gone.\<close>

datatype close_outcome = ClosedCleanly | CloseFailed string bool

definition end_release :: "nat \<Rightarrow> close_outcome \<Rightarrow> 's worker_manager \<Rightarrow> string option \<times> 's worker_manager" where
  "end_release a outcome m =
     (let w = wm_heap m ! a;
          confirmed = record_confirmed_release (lw_thread_id w) (lw_generation w) (lw_session_identity w) m
      in case outcome of
           ClosedCleanly \<Rightarrow> (None, confirmed)
         | CloseFailed e exited \<Rightarrow> if exited then (None, confirmed) else (Some e, m))"

definition release_worker ::
  "string \<Rightarrow> 64 word \<Rightarrow> (nat \<Rightarrow> close_outcome) \<Rightarrow> 's worker_manager \<Rightarrow> (bool \<times> string option) \<times> 's worker_manager" where
  "release_worker thread g closing m =
     (case begin_release thread g m of
        None \<Rightarrow> ((False, None), m)
      | Some (a, m1) \<Rightarrow> (let (err, m2) = end_release a (closing a) m1 in ((True, err), m2)))"

definition confirmed_release :: "string \<Rightarrow> 64 word \<Rightarrow> 's worker_manager \<Rightarrow> bool" where
  "confirmed_release thread0 g m \<longleftrightarrow>
     g \<noteq> 0 \<and> trim_space thread0 \<noteq> [] \<and>
     (case wm_confirmed m (trim_space thread0) of None \<Rightarrow> False | Some c \<Rightarrow> cr_generation c = g)"

definition confirmed_release_identity :: "string \<Rightarrow> 64 word \<Rightarrow> 's worker_manager \<Rightarrow> string option" where
  "confirmed_release_identity thread0 g m =
     (if g = 0 \<or> trim_space thread0 = [] then None
      else case wm_confirmed m (trim_space thread0) of
             None \<Rightarrow> None
           | Some c \<Rightarrow>
               if cr_generation c \<noteq> g \<or> trim_space (cr_session_identity c) = [] then None
               else Some (cr_session_identity c))"

definition forget_confirmed_release :: "string \<Rightarrow> 64 word \<Rightarrow> 's worker_manager \<Rightarrow> 's worker_manager" where
  "forget_confirmed_release thread0 g m =
     (let thread = trim_space thread0
      in if g = 0 \<or> thread = [] then m
         else case wm_confirmed m thread of
                None \<Rightarrow> m
              | Some c \<Rightarrow> if cr_generation c = g then m\<lparr>wm_confirmed := (wm_confirmed m)(thread := None)\<rparr> else m)"

text \<open>
  \<^verbatim>\<open>CloseAll\<close>: no new acquisition, then, when none is under way, every worker is given up. The
  result holds the errors of the acquisitions that were given up and the workers to close.
\<close>

definition begin_close_all :: "'s worker_manager \<Rightarrow> 's worker_manager" where
  "begin_close_all m = m\<lparr>wm_closed := True\<rparr>"

definition registered :: "nat \<Rightarrow> 's worker_manager \<Rightarrow> bool" where
  "registered a m \<longleftrightarrow> a < length (wm_heap m) \<and> wm_by_identity m (lw_session_identity (wm_heap m ! a)) = Some a"

definition finish_close_all :: "'s worker_manager \<Rightarrow> (string list \<times> nat list) \<times> 's worker_manager" where
  "finish_close_all m =
     ((wm_close_errors m, filter (\<lambda>a. registered a m) [0..<length (wm_heap m)]),
      m\<lparr>wm_close_errors := [], wm_by_key := Map.empty, wm_by_thread := Map.empty, wm_by_identity := Map.empty,
        wm_confirmed := Map.empty, wm_busy_keys := {}, wm_busy_threads := {}\<rparr>)"

end
