(* ===== verification/Link_Worker_Safety.thy ===== *)
theory Link_Worker_Safety
  imports Link_Workers Model
begin

text \<open>
  The manager under any interleaving of acquisitions, bindings, releases and a shutdown: its
  tables agree, every thread has one worker, and generations grow.
\<close>

section \<open>The transitions\<close>

record 's worker_system =
  ws_manager :: "'s worker_manager"
  ws_acquiring :: "(string \<times> string) list"
  ws_releasing :: "nat list"

inductive worker_step :: "'s worker_system \<Rightarrow> 's worker_system \<Rightarrow> bool" where
  acquiring: "begin_acquire (trim_space key) (trim_space linked) (ws_manager s) = Inr m \<Longrightarrow>
    worker_step s (s\<lparr>ws_manager := m, ws_acquiring := (trim_space key, trim_space linked) # ws_acquiring s\<rparr>)"
| acquired: "(key, linked) \<in> set (ws_acquiring s) \<Longrightarrow>
    complete_acquire key linked outcome close_err (ws_manager s) = (res, m) \<Longrightarrow>
    worker_step s (s\<lparr>ws_manager := m, ws_acquiring := remove1 (key, linked) (ws_acquiring s)\<rparr>)"
| bound: "a < length (wm_heap (ws_manager s)) \<Longrightarrow> bind_thread a thread (ws_manager s) = Inr m \<Longrightarrow>
    worker_step s (s\<lparr>ws_manager := m\<rparr>)"
| releasing: "begin_release thread g (ws_manager s) = Some (a, m) \<Longrightarrow>
    worker_step s (s\<lparr>ws_manager := m, ws_releasing := a # ws_releasing s\<rparr>)"
| dropped: "a < length (wm_heap (ws_manager s)) \<Longrightarrow> lw_thread_id (wm_heap (ws_manager s) ! a) = [] \<Longrightarrow>
    worker_step s (s\<lparr>ws_manager := remove_worker a (ws_manager s)\<rparr>)"
| released: "a \<in> set (ws_releasing s) \<Longrightarrow> end_release a outcome (ws_manager s) = (err, m) \<Longrightarrow>
    worker_step s (s\<lparr>ws_manager := m, ws_releasing := remove1 a (ws_releasing s)\<rparr>)"
| forgotten: "worker_step s (s\<lparr>ws_manager := forget_confirmed_release thread g (ws_manager s)\<rparr>)"
| closing: "worker_step s (s\<lparr>ws_manager := begin_close_all (ws_manager s)\<rparr>)"
| closed: "wm_closed (ws_manager s) \<Longrightarrow> wm_acquiring (ws_manager s) = 0 \<Longrightarrow>
    finish_close_all (ws_manager s) = (left, m) \<Longrightarrow> worker_step s (s\<lparr>ws_manager := m\<rparr>)"

inductive worker_run :: "string \<Rightarrow> nat \<Rightarrow> 's worker_system \<Rightarrow> bool" for nonce where
  start: "worker_run nonce 0 \<lparr>ws_manager = new_minimal_link_worker_manager nonce, ws_acquiring = [], ws_releasing = []\<rparr>"
| step: "worker_run nonce n s \<Longrightarrow> worker_step s s' \<Longrightarrow> worker_run nonce (Suc n) s'"

section \<open>The tables agree\<close>

definition tables_ok :: "'s worker_manager \<Rightarrow> bool" where
  "tables_ok m \<longleftrightarrow>
     (\<forall>k a. wm_by_key m k = Some a \<longrightarrow> registered a m \<and> lw_registry_key (wm_heap m ! a) = k) \<and>
     (\<forall>t a. wm_by_thread m t = Some a \<longrightarrow> registered a m \<and> lw_thread_id (wm_heap m ! a) = t \<and> t \<noteq> []) \<and>
     (\<forall>i a. wm_by_identity m i = Some a \<longrightarrow> registered a m \<and> lw_session_identity (wm_heap m ! a) = i) \<and>
     (\<forall>a. registered a m \<longrightarrow> wm_by_key m (lw_registry_key (wm_heap m ! a)) = Some a \<and>
        (lw_thread_id (wm_heap m ! a) \<noteq> [] \<longrightarrow> wm_by_thread m (lw_thread_id (wm_heap m ! a)) = Some a))"

lemma tables_okI:
  assumes "\<And>k a. wm_by_key m k = Some a \<Longrightarrow> registered a m \<and> lw_registry_key (wm_heap m ! a) = k"
    and "\<And>t a. wm_by_thread m t = Some a \<Longrightarrow> registered a m \<and> lw_thread_id (wm_heap m ! a) = t \<and> t \<noteq> []"
    and "\<And>i a. wm_by_identity m i = Some a \<Longrightarrow> registered a m \<and> lw_session_identity (wm_heap m ! a) = i"
    and "\<And>a. registered a m \<Longrightarrow> wm_by_key m (lw_registry_key (wm_heap m ! a)) = Some a"
    and "\<And>a. registered a m \<Longrightarrow> lw_thread_id (wm_heap m ! a) \<noteq> [] \<Longrightarrow>
      wm_by_thread m (lw_thread_id (wm_heap m ! a)) = Some a"
  shows "tables_ok m"
  using assms by (simp add: tables_ok_def)

lemma tables_okD:
  assumes "tables_ok m"
  shows "wm_by_key m k = Some a \<Longrightarrow> registered a m \<and> lw_registry_key (wm_heap m ! a) = k"
    and "wm_by_thread m t = Some a \<Longrightarrow> registered a m \<and> lw_thread_id (wm_heap m ! a) = t \<and> t \<noteq> []"
    and "wm_by_identity m i = Some a \<Longrightarrow> registered a m \<and> lw_session_identity (wm_heap m ! a) = i"
    and "registered a m \<Longrightarrow> wm_by_key m (lw_registry_key (wm_heap m ! a)) = Some a"
    and "registered a m \<Longrightarrow> lw_thread_id (wm_heap m ! a) \<noteq> [] \<Longrightarrow>
      wm_by_thread m (lw_thread_id (wm_heap m ! a)) = Some a"
  using assms unfolding tables_ok_def by blast+

definition busy_ok :: "(string \<times> string) list \<Rightarrow> 's worker_manager \<Rightarrow> bool" where
  "busy_ok acq m \<longleftrightarrow>
     wm_acquiring m = length acq \<and> distinct (map fst acq) \<and> distinct (filter (\<lambda>t. t \<noteq> []) (map snd acq)) \<and>
     wm_busy_keys m = fst ` set acq \<and> wm_busy_threads m = snd ` set acq - {[]} \<and>
     (\<forall>k \<in> wm_busy_keys m. wm_by_key m k = None) \<and> (\<forall>t \<in> wm_busy_threads m. wm_by_thread m t = None)"

definition generations_ok :: "'s worker_manager \<Rightarrow> bool" where
  "generations_ok m \<longleftrightarrow>
     uint (wm_next_generation m) = int (length (wm_heap m)) \<and>
     (\<forall>a<length (wm_heap m). uint (lw_generation (wm_heap m ! a)) = int a + 1 \<and>
        lw_session_identity (wm_heap m ! a) = worker_session_identity (wm_nonce m) (lw_generation (wm_heap m ! a)))"

definition confirmed_ok :: "'s worker_manager \<Rightarrow> bool" where
  "confirmed_ok m \<longleftrightarrow> (\<forall>t c. wm_confirmed m t = Some c \<longrightarrow> wm_by_thread m t = None)"

definition workers_ok :: "'s worker_system \<Rightarrow> bool" where
  "workers_ok s \<longleftrightarrow>
     tables_ok (ws_manager s) \<and> busy_ok (ws_acquiring s) (ws_manager s) \<and> generations_ok (ws_manager s) \<and>
     confirmed_ok (ws_manager s)"

lemma busy_okD:
  assumes "busy_ok acq m"
  shows "k \<in> wm_busy_keys m \<Longrightarrow> wm_by_key m k = None" and "t \<in> wm_busy_threads m \<Longrightarrow> wm_by_thread m t = None"
  using assms by (simp_all add: busy_ok_def)

lemma busy_ok_mono:
  assumes "busy_ok acq m" "wm_acquiring m' = wm_acquiring m" "wm_busy_keys m' = wm_busy_keys m"
    and "wm_busy_threads m' = wm_busy_threads m"
    and "\<And>k. k \<in> wm_busy_keys m \<Longrightarrow> wm_by_key m' k = None" "\<And>t. t \<in> wm_busy_threads m \<Longrightarrow> wm_by_thread m' t = None"
  shows "busy_ok acq m'"
  using assms by (simp add: busy_ok_def)

lemma worker_identity_eq:
  "worker_session_identity nonce g = worker_session_identity nonce g' \<longleftrightarrow> g = g'"
  using itoa_inj by (auto simp: worker_session_identity_def word_uint_eq_iff)

lemma identities_distinct:
  assumes "generations_ok m" "a < length (wm_heap m)" "b < length (wm_heap m)"
  shows "lw_session_identity (wm_heap m ! a) = lw_session_identity (wm_heap m ! b) \<longleftrightarrow> a = b"
  using assms unfolding generations_ok_def
  by (metis add_right_imp_eq of_nat_eq_iff worker_identity_eq)

lemma begin_acquire_Inr:
  assumes "begin_acquire key linked m = Inr m'"
  shows "\<not> wm_closed m \<and> key \<notin> wm_busy_keys m \<and> wm_by_key m key = None \<and>
    (linked \<noteq> [] \<longrightarrow> linked \<notin> wm_busy_threads m \<and> wm_by_thread m linked = None) \<and>
    m' = m\<lparr>wm_busy_keys := insert key (wm_busy_keys m),
           wm_busy_threads := (if linked = [] then wm_busy_threads m else insert linked (wm_busy_threads m)),
           wm_acquiring := Suc (wm_acquiring m)\<rparr>"
  using assms unfolding begin_acquire_def by (simp split: if_split_asm)

text \<open>The invariants read only some of the tables.\<close>

lemma tables_ok_cong:
  "wm_heap m' = wm_heap m \<Longrightarrow> wm_by_key m' = wm_by_key m \<Longrightarrow> wm_by_thread m' = wm_by_thread m \<Longrightarrow>
   wm_by_identity m' = wm_by_identity m \<Longrightarrow> tables_ok m' \<longleftrightarrow> tables_ok m"
  by (simp add: tables_ok_def registered_def)

lemma generations_ok_cong:
  "wm_heap m' = wm_heap m \<Longrightarrow> wm_next_generation m' = wm_next_generation m \<Longrightarrow> wm_nonce m' = wm_nonce m \<Longrightarrow>
   generations_ok m' \<longleftrightarrow> generations_ok m"
  by (simp add: generations_ok_def)

lemma confirmed_ok_cong:
  "wm_confirmed m' = wm_confirmed m \<Longrightarrow> wm_by_thread m' = wm_by_thread m \<Longrightarrow> confirmed_ok m' \<longleftrightarrow> confirmed_ok m"
  by (simp add: confirmed_ok_def)

lemmas ok_congs = tables_ok_cong generations_ok_cong confirmed_ok_cong

lemma begin_acquire_ok:
  assumes "begin_acquire key linked m = Inr m'" "tables_ok m" "busy_ok acq m" "generations_ok m" "confirmed_ok m"
  shows "tables_ok m' \<and> busy_ok ((key, linked) # acq) m' \<and> generations_ok m' \<and> confirmed_ok m' \<and> wm_heap m' = wm_heap m"
proof -
  note b = begin_acquire_Inr [OF assms(1)]
  have "tables_ok m'" "generations_ok m'" "confirmed_ok m'" "wm_heap m' = wm_heap m"
    using b assms(2,4,5) tables_ok_cong [of m' m] generations_ok_cong [of m' m] confirmed_ok_cong [of m' m] by simp_all
  moreover have "busy_ok ((key, linked) # acq) m'"
    using b assms(3) by (force simp: busy_ok_def)
  ultimately show ?thesis by simp
qed

section \<open>The end of an acquisition\<close>

lemma remove_acquisition:
  assumes "(key, linked) \<in> set acq" "distinct (map fst acq)" "distinct (filter (\<lambda>t. t \<noteq> []) (map snd acq))"
  shows "fst ` set (remove1 (key, linked) acq) = fst ` set acq - {key} \<and>
    snd ` set (remove1 (key, linked) acq) - {[]} = (if linked = [] then snd ` set acq - {[]} else snd ` set acq - {[], linked}) \<and>
    distinct (map fst (remove1 (key, linked) acq)) \<and> distinct (filter (\<lambda>t. t \<noteq> []) (map snd (remove1 (key, linked) acq))) \<and>
    length (remove1 (key, linked) acq) = length acq - 1"
  using assms
proof (induction acq)
  case (Cons x acq)
  obtain k l where x: "x = (k, l)" by (cases x)
  show ?case
  proof (cases "x = (key, linked)")
    case True
    then show ?thesis using Cons.prems by (auto simp: image_iff split: if_splits)
  next
    case False
    then have "(key, linked) \<in> set acq" "k \<noteq> key" "l \<noteq> [] \<longrightarrow> l \<noteq> linked"
      using Cons.prems x by (force split: if_splits)+
    moreover from this have IH: "fst ` set (remove1 (key, linked) acq) = fst ` set acq - {key} \<and>
      snd ` set (remove1 (key, linked) acq) - {[]} = (if linked = [] then snd ` set acq - {[]} else snd ` set acq - {[], linked}) \<and>
      distinct (map fst (remove1 (key, linked) acq)) \<and> distinct (filter (\<lambda>t. t \<noteq> []) (map snd (remove1 (key, linked) acq))) \<and>
      length (remove1 (key, linked) acq) = length acq - 1"
      using Cons by (simp split: if_splits)
    moreover have "length acq \<noteq> 0" using \<open>(key, linked) \<in> set acq\<close> by auto
    moreover have "set (filter (\<lambda>t. t \<noteq> []) (map snd (remove1 (key, linked) acq))) \<subseteq> set (filter (\<lambda>t. t \<noteq> []) (map snd acq))"
      using set_remove1_subset [of "(key, linked)" acq] by auto
    ultimately show ?thesis using Cons.prems x False by (auto split: if_splits)
  qed
qed simp

lemma finish_acquire_busy:
  assumes "(key, linked) \<in> set acq" "busy_ok acq m"
  shows "busy_ok (remove1 (key, linked) acq) (finish_acquire key linked m)"
  using remove_acquisition [OF assms(1)] assms(2)
  by (auto simp: busy_ok_def finish_acquire_def)

lemma finish_acquire_same [simp]:
  "wm_heap (finish_acquire key linked m) = wm_heap m"
  "wm_by_key (finish_acquire key linked m) = wm_by_key m"
  "wm_by_thread (finish_acquire key linked m) = wm_by_thread m"
  "wm_by_identity (finish_acquire key linked m) = wm_by_identity m"
  "wm_confirmed (finish_acquire key linked m) = wm_confirmed m"
  "wm_next_generation (finish_acquire key linked m) = wm_next_generation m"
  "wm_nonce (finish_acquire key linked m) = wm_nonce m"
  by (simp_all add: finish_acquire_def)

lemma close_error_same [simp]:
  "wm_heap (record_acquire_close_error e m) = wm_heap m"
  "wm_by_key (record_acquire_close_error e m) = wm_by_key m"
  "wm_by_thread (record_acquire_close_error e m) = wm_by_thread m"
  "wm_by_identity (record_acquire_close_error e m) = wm_by_identity m"
  "wm_confirmed (record_acquire_close_error e m) = wm_confirmed m"
  "wm_next_generation (record_acquire_close_error e m) = wm_next_generation m"
  "wm_nonce (record_acquire_close_error e m) = wm_nonce m"
  "busy_ok acq (record_acquire_close_error e m) \<longleftrightarrow> busy_ok acq m"
  by (simp_all add: record_acquire_close_error_def busy_ok_def split: option.split)

lemma next_generation_succ:
  assumes "generations_ok m" "length (wm_heap m) + 1 < 2 ^ 64"
  shows "uint (wm_next_generation m + 1) = int (length (wm_heap m)) + 1"
proof -
  have u: "uint (wm_next_generation m) = int (length (wm_heap m))" using assms(1) by (simp add: generations_ok_def)
  have "int (length (wm_heap m) + 1) < int (2 ^ 64)" using assms(2) by (rule of_nat_less_iff [THEN iffD2])
  then have "int (length (wm_heap m)) + 1 < 2 ^ 64" by simp
  then show ?thesis using u by (simp add: uint_word_ariths)
qed

text \<open>What registering a worker does to its invariants.\<close>

lemma register_worker_ok:
  assumes "register_worker key linked x m = (a, m')" "tables_ok m" "generations_ok m" "confirmed_ok m"
    and "wm_by_key m key = None" "linked \<noteq> [] \<longrightarrow> wm_by_thread m linked = None" "length (wm_heap m) + 1 < 2 ^ 64"
  shows "tables_ok m' \<and> generations_ok m' \<and> confirmed_ok m' \<and> a = length (wm_heap m) \<and>
    wm_heap m' = wm_heap m @ [\<lparr>lw_registry_key = key, lw_thread_id = linked, lw_generation = wm_next_generation m + 1,
      lw_session_identity = worker_session_identity (wm_nonce m) (wm_next_generation m + 1), lw_session = x\<rparr>] \<and>
    wm_by_key m' = (wm_by_key m)(key \<mapsto> a) \<and>
    wm_by_thread m' = (if linked = [] then wm_by_thread m else (wm_by_thread m)(linked \<mapsto> a)) \<and>
    wm_acquiring m' = wm_acquiring m \<and> wm_busy_keys m' = wm_busy_keys m \<and> wm_busy_threads m' = wm_busy_threads m \<and>
    wm_closed m' = wm_closed m"
proof -
  let ?g = "wm_next_generation m + 1" and ?n = "length (wm_heap m)"
  let ?i = "worker_session_identity (wm_nonce m) ?g"
  let ?w = "\<lparr>lw_registry_key = key, lw_thread_id = linked, lw_generation = ?g, lw_session_identity = ?i, lw_session = x\<rparr>"
  have g: "uint ?g = int ?n + 1" by (rule next_generation_succ [OF assms(3,7)])
  have r: "a = ?n" "wm_heap m' = wm_heap m @ [?w]" "wm_by_key m' = (wm_by_key m)(key \<mapsto> ?n)"
      "wm_by_thread m' = (if linked = [] then wm_by_thread m else (wm_by_thread m)(linked \<mapsto> ?n))"
      "wm_by_identity m' = (wm_by_identity m)(?i \<mapsto> ?n)"
      "wm_confirmed m' = (if linked = [] then wm_confirmed m else (wm_confirmed m)(linked := None))"
      "wm_next_generation m' = ?g" "wm_nonce m' = wm_nonce m" "wm_acquiring m' = wm_acquiring m"
      "wm_busy_keys m' = wm_busy_keys m" "wm_busy_threads m' = wm_busy_threads m" "wm_closed m' = wm_closed m"
    using assms(1) by (auto simp: register_worker_def Let_def)
  have gen: "generations_ok m'"
    using assms(3) g by (auto simp: generations_ok_def r nth_append less_Suc_eq)
  have new: "lw_session_identity (wm_heap m ! b) \<noteq> ?i" if "b < ?n" for b
  proof -
    have "uint (lw_generation (wm_heap m ! b)) \<noteq> uint ?g" using assms(3) that g by (simp add: generations_ok_def)
    then show ?thesis using assms(3) that by (auto simp: generations_ok_def worker_identity_eq)
  qed
  have reg: "registered b m' \<longleftrightarrow> b = ?n \<or> registered b m" for b
    using new [of b] by (auto simp: registered_def r nth_append)
  have old: "wm_heap m' ! b = wm_heap m ! b" if "registered b m" for b
    using that by (simp add: registered_def r nth_append)
  have last: "wm_heap m' ! ?n = ?w" by (simp add: r)
  have tables: "tables_ok m'"
    using assms(2,5,6) unfolding tables_ok_def reg r(3,4,5)
    by (auto simp: old last)
  have "confirmed_ok m'" using assms(4) by (auto simp: confirmed_ok_def r)
  then show ?thesis using gen tables r by simp
qed

definition manager_ok :: "(string \<times> string) list \<Rightarrow> 's worker_manager \<Rightarrow> bool" where
  "manager_ok acq m \<longleftrightarrow> tables_ok m \<and> busy_ok acq m \<and> generations_ok m \<and> confirmed_ok m"

lemma busy_free:
  assumes "busy_ok acq m" "(key, linked) \<in> set acq"
  shows "wm_by_key m key = None" "linked \<noteq> [] \<Longrightarrow> wm_by_thread m linked = None"
proof -
  have "key \<in> fst ` set acq" "linked \<in> snd ` set acq" using imageI [OF assms(2), of fst] imageI [OF assms(2), of snd] by simp_all
  then have "key \<in> wm_busy_keys m" "linked \<noteq> [] \<Longrightarrow> linked \<in> wm_busy_threads m"
    using assms(1) by (simp_all add: busy_ok_def)
  then show "wm_by_key m key = None" "linked \<noteq> [] \<Longrightarrow> wm_by_thread m linked = None"
    using assms(1) by (auto simp: busy_ok_def)
qed

text \<open>The two tables change only where the acquisition holds the names.\<close>

lemma registered_busy:
  assumes "busy_ok acq m" "(key, linked) \<in> set acq" "wm_by_key m' = (wm_by_key m)(key \<mapsto> a)"
    "wm_by_thread m' = (if linked = [] then wm_by_thread m else (wm_by_thread m)(linked \<mapsto> a))"
    "wm_acquiring m' = wm_acquiring m" "wm_busy_keys m' = wm_busy_keys m" "wm_busy_threads m' = wm_busy_threads m"
  shows "busy_ok (remove1 (key, linked) acq) (finish_acquire key linked m')"
proof -
  note old = assms(1) [unfolded busy_ok_def]
  have D: "distinct (map fst acq)" "distinct (filter (\<lambda>t. t \<noteq> []) (map snd acq))" using old by simp_all
  note R = remove_acquisition [OF assms(2) D]
  let ?m = "finish_acquire key linked m'"
  have K: "wm_busy_keys ?m = wm_busy_keys m - {key}"
    and T: "wm_busy_threads ?m = (if linked = [] then wm_busy_threads m else wm_busy_threads m - {linked})"
    and N: "wm_acquiring ?m = wm_acquiring m - 1"
    using assms(5-7) by (simp_all add: finish_acquire_def)
  have "\<forall>k \<in> wm_busy_keys ?m. wm_by_key ?m k = None" using old K assms(3) by simp
  moreover have "\<forall>t \<in> wm_busy_threads ?m. wm_by_thread ?m t = None"
    using old T assms(4) by simp
  moreover have "wm_busy_keys ?m = fst ` set (remove1 (key, linked) acq)" using old K R by simp
  moreover have "wm_busy_threads ?m = snd ` set (remove1 (key, linked) acq) - {[]}"
    using old T R by (cases "linked = []") auto
  moreover have "wm_acquiring ?m = length (remove1 (key, linked) acq)" using old N R by simp
  ultimately show ?thesis using R unfolding busy_ok_def by blast
qed

lemma complete_acquire_ok:
  assumes "complete_acquire key linked outcome close_err m = (res, m')" "(key, linked) \<in> set acq" "manager_ok acq m"
    and "length (wm_heap m) + 1 < 2 ^ 64"
  shows "manager_ok (remove1 (key, linked) acq) m' \<and> length (wm_heap m') \<le> Suc (length (wm_heap m))"
proof -
  note ok = assms(3) [unfolded manager_ok_def]
  have same: "manager_ok (remove1 (key, linked) acq) (finish_acquire key linked m1) \<and>
      length (wm_heap (finish_acquire key linked m1)) \<le> Suc (length (wm_heap m))"
    if "m1 = m \<or> m1 = record_acquire_close_error close_err m" for m1
  proof -
    have "busy_ok acq m1" "tables_ok m1" "generations_ok m1" "confirmed_ok m1" "wm_heap m1 = wm_heap m"
      using that ok tables_ok_cong [of m1 m] generations_ok_cong [of m1 m] confirmed_ok_cong [of m1 m] by auto
    then show ?thesis
      using finish_acquire_busy [OF assms(2)] tables_ok_cong [of "finish_acquire key linked m1" m1]
        generations_ok_cong [of "finish_acquire key linked m1" m1] confirmed_ok_cong [of "finish_acquire key linked m1" m1]
      by (simp add: manager_ok_def)
  qed
  have give_up: "m' = finish_acquire key linked m \<or> m' = finish_acquire key linked (record_acquire_close_error close_err m)"
    if "\<nexists>x. outcome = Started x \<and> \<not> wm_closed m"
    using that assms(1) by (cases outcome) (auto simp: complete_acquire_def Let_def)
  show ?thesis
  proof (cases "\<exists>x. outcome = Started x \<and> \<not> wm_closed m")
    case False
    then show ?thesis using give_up same by blast
  next
    case True
    then obtain x where x: "outcome = Started x" "\<not> wm_closed m" by blast
    have free: "wm_by_key m key = None" "linked \<noteq> [] \<longrightarrow> wm_by_thread m linked = None"
      using busy_free [OF _ assms(2)] ok by blast+
    obtain a m1 where reg: "register_worker key linked x m = (a, m1)" by (cases "register_worker key linked x m")
    have m': "m' = finish_acquire key linked m1"
      using assms(1) x free reg by (auto simp: complete_acquire_def Let_def)
    have r: "tables_ok m1 \<and> generations_ok m1 \<and> confirmed_ok m1" "length (wm_heap m1) = Suc (length (wm_heap m))"
        "busy_ok (remove1 (key, linked) acq) (finish_acquire key linked m1)"
      using register_worker_ok [OF reg _ _ _ free assms(4)] ok registered_busy [OF _ assms(2), of m m1 a] by auto
    then show ?thesis
      using m' tables_ok_cong [of m' m1] generations_ok_cong [of m' m1] confirmed_ok_cong [of m' m1]
      by (simp add: manager_ok_def)
  qed
qed

section \<open>Binding and removal\<close>

lemma generation_unique:
  assumes "generations_ok m" "a < length (wm_heap m)" "b < length (wm_heap m)"
    "lw_generation (wm_heap m ! a) = lw_generation (wm_heap m ! b)"
  shows "a = b"
proof -
  have "int a + 1 = int b + 1" using assms unfolding generations_ok_def by metis
  then show ?thesis by simp
qed

lemma bind_thread_Inr:
  assumes "bind_thread a thread m = Inr m'" "a < length (wm_heap m)" "tables_ok m" "generations_ok m"
  shows "m' = m \<or> registered a m \<and> lw_thread_id (wm_heap m ! a) = [] \<and> trim_space thread \<noteq> [] \<and>
    wm_by_thread m (trim_space thread) = None \<and> trim_space thread \<notin> wm_busy_threads m \<and> \<not> wm_closed m \<and>
    m' = m\<lparr>wm_heap := (wm_heap m)[a := (wm_heap m ! a)\<lparr>lw_thread_id := trim_space thread\<rparr>],
           wm_by_thread := (wm_by_thread m)(trim_space thread \<mapsto> a),
           wm_confirmed := (wm_confirmed m)(trim_space thread := None)\<rparr>"
proof -
  let ?t = "trim_space thread" and ?w = "wm_heap m ! a"
  obtain b where b: "wm_by_key m (lw_registry_key ?w) = Some b"
      "lw_generation (wm_heap m ! b) = lw_generation ?w"
    using assms(1) by (auto simp: bind_thread_def Let_def split: if_split_asm option.splits)
  have "registered b m" using assms(3) b(1) by (simp add: tables_ok_def)
  then have "b = a" using generation_unique [OF assms(4)] b(2) assms(2) by (simp add: registered_def)
  then have a: "wm_by_key m (lw_registry_key ?w) = Some a" "registered a m" using b \<open>registered b m\<close> by simp_all
  have other: "wm_by_thread m ?t = None" if "lw_thread_id ?w = []"
      "\<not> (case wm_by_thread m ?t of None \<Rightarrow> False | Some c \<Rightarrow> lw_generation (wm_heap m ! c) \<noteq> lw_generation ?w)"
  proof (cases "wm_by_thread m ?t")
    case (Some c)
    then have c: "registered c m" "lw_thread_id (wm_heap m ! c) = ?t" "?t \<noteq> []" using assms(3) by (auto simp: tables_ok_def)
    have "lw_generation (wm_heap m ! c) = lw_generation ?w" using that(2) Some by simp
    then have "c = a" using generation_unique [OF assms(4)] c(1) assms(2) by (simp add: registered_def)
    then show ?thesis using c that(1) by simp
  qed
  show ?thesis
    using assms(1) a other by (auto simp: bind_thread_def Let_def split: if_split_asm)
qed

lemma bind_thread_ok:
  assumes "bind_thread a thread m = Inr m'" "a < length (wm_heap m)" "manager_ok acq m"
  shows "manager_ok acq m' \<and> length (wm_heap m') = length (wm_heap m)"
proof -
  note ok = assms(3) [unfolded manager_ok_def]
  let ?t = "trim_space thread" and ?w = "wm_heap m ! a"
  let ?m = "m\<lparr>wm_heap := (wm_heap m)[a := ?w\<lparr>lw_thread_id := ?t\<rparr>],
           wm_by_thread := (wm_by_thread m)(?t \<mapsto> a), wm_confirmed := (wm_confirmed m)(?t := None)\<rparr>"
  have disj: "m' = m \<or> registered a m \<and> lw_thread_id ?w = [] \<and> ?t \<noteq> [] \<and> wm_by_thread m ?t = None \<and>
      ?t \<notin> wm_busy_threads m \<and> \<not> wm_closed m \<and> m' = ?m"
    by (rule bind_thread_Inr [OF assms(1,2)]) (use ok in simp_all)
  show ?thesis
  proof (cases "m' = m")
    case False
    then have 2: "registered a m" "lw_thread_id ?w = []" "?t \<noteq> []" "wm_by_thread m ?t = None"
        "?t \<notin> wm_busy_threads m" "m' = ?m"
      using disj by simp_all
    have reg: "registered b ?m \<longleftrightarrow> registered b m" for b by (cases "b = a") (auto simp: registered_def)
    have K: "lw_registry_key (wm_heap ?m ! b) = lw_registry_key (wm_heap m ! b)" for b
      by (cases "b = a") (simp_all add: assms(2))
    have I: "lw_session_identity (wm_heap ?m ! b) = lw_session_identity (wm_heap m ! b)" for b
      by (cases "b = a") (simp_all add: assms(2))
    have T: "lw_thread_id (wm_heap ?m ! b) = (if b = a then ?t else lw_thread_id (wm_heap m ! b))" for b
      by (simp add: assms(2))
    have F: "wm_by_key ?m = wm_by_key m" "wm_by_identity ?m = wm_by_identity m" "wm_by_thread ?m = (wm_by_thread m)(?t \<mapsto> a)"
      by simp_all
    have tables: "tables_ok m" using ok by blast
    have "tables_ok ?m"
    proof (rule tables_okI, unfold reg K I T F)
      fix k b assume "wm_by_key m k = Some b"
      then show "registered b m \<and> lw_registry_key (wm_heap m ! b) = k" by (rule tables_okD(1) [OF tables])
    next
      fix i b assume "wm_by_identity m i = Some b"
      then show "registered b m \<and> lw_session_identity (wm_heap m ! b) = i" by (rule tables_okD(3) [OF tables])
    next
      fix t b assume t: "((wm_by_thread m)(?t \<mapsto> a)) t = Some b"
      show "registered b m \<and> (if b = a then ?t else lw_thread_id (wm_heap m ! b)) = t \<and> t \<noteq> []"
      proof (cases "t = ?t")
        case True
        then have "b = a" using t by simp
        then show ?thesis using True 2(1,3) by simp
      next
        case False
        then have *: "registered b m \<and> lw_thread_id (wm_heap m ! b) = t \<and> t \<noteq> []" using t tables_okD(2) [OF tables] by simp
        then have "b \<noteq> a" using 2(2) by auto
        then show ?thesis using * by simp
      qed
    next
      fix b assume b: "registered b m"
      show "wm_by_key m (lw_registry_key (wm_heap m ! b)) = Some b" using tables_okD(4) [OF tables b] .
      assume ne: "(if b = a then ?t else lw_thread_id (wm_heap m ! b)) \<noteq> []"
      show "((wm_by_thread m)(?t \<mapsto> a)) (if b = a then ?t else lw_thread_id (wm_heap m ! b)) = Some b"
      proof (cases "b = a")
        case False
        then have *: "wm_by_thread m (lw_thread_id (wm_heap m ! b)) = Some b" using ne tables_okD(5) [OF tables b] by simp
        then have "lw_thread_id (wm_heap m ! b) \<noteq> ?t" using 2(4) by auto
        then show ?thesis using * False by simp
      qed simp
    qed
    moreover have "generations_ok ?m" using ok assms(2) by (auto simp: generations_ok_def nth_list_update)
    moreover have "confirmed_ok ?m" using ok by (auto simp: confirmed_ok_def)
    moreover have "busy_ok acq ?m"
      by (rule busy_ok_mono [of acq m]) (use ok 2(5) busy_okD in \<open>auto\<close>)
    ultimately have "manager_ok acq ?m" by (simp only: manager_ok_def simp_thms)
    then show ?thesis using 2(6) by simp
  qed (use assms in simp)
qed

lemma remove_worker_ok:
  assumes "a < length (wm_heap m)" "manager_ok acq m"
  shows "manager_ok acq (remove_worker a m) \<and> wm_heap (remove_worker a m) = wm_heap m"
proof -
  let ?m = "remove_worker a m" and ?w = "wm_heap m ! a"
  have ok: "tables_ok m" "busy_ok acq m" "generations_ok m" "confirmed_ok m" using assms(2) by (simp_all add: manager_ok_def)
  note D = tables_okD [OF ok(1)]
  have F: "wm_heap ?m = wm_heap m" "wm_by_key ?m k = (if k = lw_registry_key ?w \<and> wm_by_key m k = Some a then None else wm_by_key m k)"
      "wm_by_thread ?m k = (if k = lw_thread_id ?w \<and> wm_by_thread m k = Some a then None else wm_by_thread m k)"
      "wm_by_identity ?m k = (if k = lw_session_identity ?w \<and> wm_by_identity m k = Some a then None else wm_by_identity m k)" for k
    using D(2) [of "[]"] by (auto simp: remove_worker_def Let_def remove_entry_def)
  have reg: "registered b ?m \<longleftrightarrow> registered b m \<and> b \<noteq> a" for b
    using identities_distinct [OF ok(3), of b a] assms(1) by (auto simp: registered_def F)
  have "tables_ok ?m"
  proof (rule tables_okI, unfold reg F)
    fix k b assume "(if k = lw_registry_key ?w \<and> wm_by_key m k = Some a then None else wm_by_key m k) = Some b"
    then show "(registered b m \<and> b \<noteq> a) \<and> lw_registry_key (wm_heap m ! b) = k" using D(1) by (auto split: if_splits)
  next
    fix t b assume "(if t = lw_thread_id ?w \<and> wm_by_thread m t = Some a then None else wm_by_thread m t) = Some b"
    then show "(registered b m \<and> b \<noteq> a) \<and> lw_thread_id (wm_heap m ! b) = t \<and> t \<noteq> []" using D(2) by (auto split: if_splits)
  next
    fix i b assume "(if i = lw_session_identity ?w \<and> wm_by_identity m i = Some a then None else wm_by_identity m i) = Some b"
    then show "(registered b m \<and> b \<noteq> a) \<and> lw_session_identity (wm_heap m ! b) = i" using D(3) by (auto split: if_splits)
  qed (use D(4,5) in auto)
  moreover have "generations_ok ?m" using ok(3) by (simp add: generations_ok_def F remove_worker_def Let_def)
  moreover have "wm_confirmed ?m = wm_confirmed m" by (simp add: remove_worker_def Let_def)
  then have "confirmed_ok ?m" using ok(4) by (simp add: confirmed_ok_def F)
  moreover have "busy_ok acq ?m"
    by (rule busy_ok_mono [OF ok(2)]) (use busy_okD [OF ok(2)] F in \<open>simp_all add: remove_worker_def Let_def\<close>)
  ultimately show ?thesis using F(1) by (simp add: manager_ok_def)
qed

lemma confirmed_update_ok:
  assumes "manager_ok acq m" "\<And>t d. c t = Some d \<Longrightarrow> wm_by_thread m t = None"
  shows "manager_ok acq (m\<lparr>wm_confirmed := c\<rparr>)"
proof -
  let ?m = "m\<lparr>wm_confirmed := c\<rparr>"
  have "tables_ok ?m" "generations_ok ?m"
    using assms(1) tables_ok_cong [of ?m m] generations_ok_cong [of ?m m] by (simp_all add: manager_ok_def)
  moreover have "busy_ok acq ?m"
    by (rule busy_ok_mono [of acq m]) (use assms(1) busy_okD [of acq m] in \<open>simp_all add: manager_ok_def\<close>)
  moreover have "confirmed_ok ?m" using assms(2) by (auto simp: confirmed_ok_def)
  ultimately show ?thesis by (simp only: manager_ok_def simp_thms)
qed

lemma confirmed_free: "manager_ok acq m \<Longrightarrow> wm_confirmed m t = Some d \<Longrightarrow> wm_by_thread m t = None"
  by (auto simp: manager_ok_def confirmed_ok_def)

lemma record_confirmed_ok: "manager_ok acq m \<Longrightarrow> manager_ok acq (record_confirmed_release t g i m)"
  unfolding record_confirmed_release_def Let_def
  by (auto intro!: confirmed_update_ok dest: confirmed_free split: if_split_asm)

lemma forget_confirmed_ok: "manager_ok acq m \<Longrightarrow> manager_ok acq (forget_confirmed_release t g m)"
  unfolding forget_confirmed_release_def Let_def
  by (auto intro!: confirmed_update_ok dest: confirmed_free split: if_split_asm option.split)

lemma heap_same [simp]:
  "wm_heap (record_confirmed_release t g i m) = wm_heap m"
  "wm_heap (forget_confirmed_release t g m) = wm_heap m"
  by (simp_all add: record_confirmed_release_def forget_confirmed_release_def Let_def split: option.split)

section \<open>Every reachable manager\<close>

lemma begin_release_Some:
  assumes "begin_release thread g m = Some (a, m')" "tables_ok m"
  shows "registered a m \<and> m' = remove_worker a m \<and> lw_generation (wm_heap m ! a) = g"
  using assms tables_okD(2) [OF assms(2)]
  by (auto simp: begin_release_def Let_def split: if_split_asm option.splits)

lemma finish_close_all_ok:
  assumes "manager_ok acq m" "wm_acquiring m = 0"
  shows "manager_ok acq (snd (finish_close_all m)) \<and> wm_heap (snd (finish_close_all m)) = wm_heap m"
proof -
  have "acq = []" using assms by (simp add: manager_ok_def busy_ok_def)
  then show ?thesis using assms
    by (simp add: finish_close_all_def manager_ok_def tables_ok_def registered_def busy_ok_def generations_ok_def confirmed_ok_def)
qed

lemma begin_close_all_ok: "manager_ok acq m \<Longrightarrow> manager_ok acq (begin_close_all m)"
  using tables_ok_cong [of "begin_close_all m" m] generations_ok_cong [of "begin_close_all m" m]
    confirmed_ok_cong [of "begin_close_all m" m]
  by (simp add: manager_ok_def begin_close_all_def busy_ok_def)

lemma worker_step_ok:
  assumes "worker_step s s'" "manager_ok (ws_acquiring s) (ws_manager s)" "length (wm_heap (ws_manager s)) + 1 < 2 ^ 64"
  shows "manager_ok (ws_acquiring s') (ws_manager s') \<and>
    length (wm_heap (ws_manager s')) \<le> Suc (length (wm_heap (ws_manager s)))"
  using assms
proof (induction rule: worker_step.induct)
  case (acquiring key linked s m)
  then show ?case using begin_acquire_ok [OF acquiring(1), where acq = "ws_acquiring s"] by (auto simp: manager_ok_def)
next
  case (acquired key linked s outcome close_err res m)
  then show ?case using complete_acquire_ok [OF acquired(2,1)] by simp
next
  case (bound a s thread m)
  then show ?case using bind_thread_ok [OF bound(2,1)] by simp
next
  case (releasing thread g s a m)
  have "registered a (ws_manager s) \<and> m = remove_worker a (ws_manager s)"
    using begin_release_Some [OF releasing(1)] releasing(2) by (simp add: manager_ok_def)
  then show ?case using remove_worker_ok [of a "ws_manager s"] releasing(2) by (simp add: registered_def)
next
  case (dropped a s)
  then show ?case using remove_worker_ok [OF dropped(1,3)] by simp
next
  case (released a s outcome err m)
  then show ?case
    by (auto simp: end_release_def Let_def record_confirmed_ok split: close_outcome.splits if_split_asm)
next
  case (forgotten s thread g)
  then show ?case by (simp add: forget_confirmed_ok)
next
  case (closing s)
  then show ?case using begin_close_all_ok [OF closing(1)] by (simp add: begin_close_all_def)
next
  case (closed s left m)
  then show ?case using finish_close_all_ok [OF closed(4,2)] by simp
qed

lemma worker_run_ok:
  "worker_run nonce n s \<Longrightarrow> n < 2 ^ 64 \<Longrightarrow>
   manager_ok (ws_acquiring s) (ws_manager s) \<and> length (wm_heap (ws_manager s)) \<le> n"
proof (induction rule: worker_run.induct)
  case start
  show ?case
    by (simp add: manager_ok_def new_minimal_link_worker_manager_def tables_ok_def registered_def busy_ok_def
        generations_ok_def confirmed_ok_def)
next
  case (step n s s')
  then have "manager_ok (ws_acquiring s) (ws_manager s)" "length (wm_heap (ws_manager s)) \<le> n" by simp_all
  then show ?case using worker_step_ok [OF step(2)] step(4) by simp
qed

text \<open>
  C14: A thread has one worker. Whatever acquisitions, bindings, releases and shutdowns overlap, no
  two registered workers hold the same thread, a thread that is held cannot be acquired again, and
  a release is confirmed only while no worker holds the thread.
\<close>
theorem thread_has_one_worker:
  assumes "worker_run nonce n s" "n < 2 ^ 64"
  shows "(\<forall>a b. registered a (ws_manager s) \<and> registered b (ws_manager s) \<and>
        lw_thread_id (wm_heap (ws_manager s) ! a) = lw_thread_id (wm_heap (ws_manager s) ! b) \<and>
        lw_thread_id (wm_heap (ws_manager s) ! a) \<noteq> [] \<longrightarrow> a = b) \<and>
    (\<forall>a key m'. registered a (ws_manager s) \<and> lw_thread_id (wm_heap (ws_manager s) ! a) \<noteq> [] \<longrightarrow>
        begin_acquire key (lw_thread_id (wm_heap (ws_manager s) ! a)) (ws_manager s) \<noteq> Inr m') \<and>
    (\<forall>t g. confirmed_release t g (ws_manager s) \<longrightarrow> by_thread t (ws_manager s) = None)"
proof -
  let ?m = "ws_manager s"
  have ok: "manager_ok (ws_acquiring s) ?m" using worker_run_ok [OF assms] by blast
  then have tables: "tables_ok ?m" by (simp add: manager_ok_def)
  note held = tables_okD(5) [OF tables]
  have "a = b" if "registered a ?m" "registered b ?m" "lw_thread_id (wm_heap ?m ! a) = lw_thread_id (wm_heap ?m ! b)"
      "lw_thread_id (wm_heap ?m ! a) \<noteq> []" for a b
    using held [OF that(1)] held [OF that(2)] that(3,4) by (metis option.inject)
  moreover have "begin_acquire key (lw_thread_id (wm_heap ?m ! a)) ?m \<noteq> Inr m'"
    if "registered a ?m" "lw_thread_id (wm_heap ?m ! a) \<noteq> []" for a key m'
    using begin_acquire_Inr [of key "lw_thread_id (wm_heap ?m ! a)" ?m m'] held [OF that] that(2) by auto
  moreover have "by_thread t ?m = None" if "confirmed_release t g ?m" for t g
    using that confirmed_free [OF ok, of "trim_space t"]
    by (cases "wm_confirmed ?m (trim_space t)") (simp_all add: confirmed_release_def by_thread_def)
  ultimately show ?thesis by blast
qed

text \<open>
  An acquisition that was admitted succeeds if its session starts and the manager is not shut
  down: the checks after the start never refuse it, the new worker holds its thread, and its
  generation is greater than every one given out before, so its writes fence off those of any
  earlier worker.
\<close>
theorem admitted_acquire_succeeds:
  assumes "worker_run nonce n s" "Suc n < 2 ^ 64" "(key, linked) \<in> set (ws_acquiring s)" "\<not> wm_closed (ws_manager s)"
  shows "\<exists>a m'. complete_acquire key linked (Started x) close_err (ws_manager s) = (Inr a, m') \<and> registered a m' \<and>
    lw_thread_id (wm_heap m' ! a) = linked \<and>
    (\<forall>b<length (wm_heap (ws_manager s)). lw_generation (wm_heap (ws_manager s) ! b) < lw_generation (wm_heap m' ! a))"
proof -
  let ?m = "ws_manager s"
  have "n < 2 ^ 64" using assms(2) by simp
  note run = worker_run_ok [OF assms(1) this]
  then have ok: "tables_ok ?m" "generations_ok ?m" "confirmed_ok ?m" "busy_ok (ws_acquiring s) ?m"
    by (simp_all add: manager_ok_def)
  have free: "wm_by_key ?m key = None" "linked \<noteq> [] \<longrightarrow> wm_by_thread ?m linked = None"
    using busy_free [OF ok(4) assms(3)] by blast+
  have len: "length (wm_heap ?m) + 1 < 2 ^ 64" using run assms(2) by linarith
  obtain a m1 where reg: "register_worker key linked x ?m = (a, m1)" by (cases "register_worker key linked x ?m")
  note r = register_worker_ok [OF reg ok(1-3) free len]
  have "complete_acquire key linked (Started x) close_err ?m = (Inr a, finish_acquire key linked m1)"
    using assms(4) free reg by (auto simp: complete_acquire_def Let_def)
  moreover have a: "a = length (wm_heap ?m)" "wm_heap m1 ! a = \<lparr>lw_registry_key = key, lw_thread_id = linked,
      lw_generation = wm_next_generation ?m + 1,
      lw_session_identity = worker_session_identity (wm_nonce ?m) (wm_next_generation ?m + 1), lw_session = x\<rparr>"
    using r by simp_all
  moreover have "wm_by_key m1 key = Some a" using r by simp
  then have "registered a m1" using r tables_okD(1) by blast
  moreover have "lw_generation (wm_heap ?m ! b) < wm_next_generation ?m + 1" if "b < length (wm_heap ?m)" for b
    using that ok(2) next_generation_succ [OF ok(2) len] by (simp add: word_less_def generations_ok_def)
  ultimately show ?thesis by (intro exI [of _ a] exI [of _ "finish_acquire key linked m1"]) (simp add: registered_def)
qed

text \<open>One worker that was acquired for a thread.\<close>

definition idle_workers :: "nat worker_system" where
  "idle_workers = \<lparr>ws_manager = new_minimal_link_worker_manager ''n'', ws_acquiring = [], ws_releasing = []\<rparr>"

definition busy_workers :: "nat worker_system" where
  "busy_workers =
     (case begin_acquire (trim_space ''k'') (trim_space ''t'') (ws_manager idle_workers) of
        Inr m \<Rightarrow> idle_workers\<lparr>ws_manager := m, ws_acquiring := [(trim_space ''k'', trim_space ''t'')]\<rparr> | _ \<Rightarrow> idle_workers)"

definition one_worker :: "nat worker_system" where
  "one_worker =
     busy_workers\<lparr>ws_manager := snd (complete_acquire ''k'' ''t'' (Started 7) None (ws_manager busy_workers)), ws_acquiring := []\<rparr>"

lemma k_t: "trim_space ''k'' = ''k''" "trim_space ''t'' = ''t''"
  by code_simp+

lemma busy_workers_run: "worker_run ''n'' 1 busy_workers"
proof -
  obtain m where m: "begin_acquire (trim_space ''k'') (trim_space ''t'') (ws_manager idle_workers) = Inr m"
    by (simp add: idle_workers_def new_minimal_link_worker_manager_def begin_acquire_def)
  have "worker_run ''n'' 0 idle_workers" unfolding idle_workers_def by (rule worker_run.start)
  moreover have "worker_step idle_workers busy_workers"
    using worker_step.acquiring [OF m] by (simp add: busy_workers_def m) (simp add: idle_workers_def)
  ultimately show ?thesis using worker_run.step by force
qed

lemma busy_acquiring: "ws_acquiring busy_workers = [(''k'', ''t'')]"
  by (simp add: busy_workers_def idle_workers_def new_minimal_link_worker_manager_def begin_acquire_def k_t)

lemma one_worker_run: "worker_run ''n'' 2 one_worker"
proof -
  have "worker_step busy_workers one_worker"
    using worker_step.acquired [of "''k''" "''t''" busy_workers "Started 7" None]
    by (cases "complete_acquire ''k'' ''t'' (Started 7) None (ws_manager busy_workers)")
      (force simp: one_worker_def busy_acquiring)
  from worker_run.step [OF busy_workers_run this] show ?thesis by (simp add: numeral_2_eq_2)
qed

lemma thread_has_one_worker_witness:
  "registered 0 (ws_manager one_worker) \<and> lw_thread_id (wm_heap (ws_manager one_worker) ! 0) = ''t'' \<and>
   begin_acquire ''k2'' ''t'' (ws_manager one_worker) \<noteq> Inr (ws_manager one_worker)"
proof -
  have r: "registered 0 (ws_manager one_worker)" "lw_thread_id (wm_heap (ws_manager one_worker) ! 0) = ''t''"
    by (simp_all add: one_worker_def busy_workers_def idle_workers_def new_minimal_link_worker_manager_def begin_acquire_def
        complete_acquire_def register_worker_def registered_def finish_acquire_def Let_def k_t)
  then show ?thesis using thread_has_one_worker [OF one_worker_run] by force
qed

lemma admitted_acquire_succeeds_witness:
  "\<exists>a m'. complete_acquire ''k'' ''t'' (Started 7) None (ws_manager busy_workers) = (Inr a, m') \<and> registered a m'"
proof -
  have "\<not> wm_closed (ws_manager busy_workers)"
    by (simp add: busy_workers_def idle_workers_def new_minimal_link_worker_manager_def begin_acquire_def)
  moreover have "Suc 1 < 2 ^ 64" by simp
  ultimately show ?thesis
    using admitted_acquire_succeeds [OF busy_workers_run, of "''k''" "''t''" 7 None] busy_acquiring by fastforce
qed

end
