(* ===== verification/Queue_Writers.thy ===== *)
theory Queue_Writers
  imports Link_Safety Outbox_Claims Notifier_Store
begin

text \<open>
  Everything that writes the table \<^verbatim>\<open>delivery_queue\<close>: the outbox itself, the approval transactions,
  the end of a handoff, and the migration to the notifier's profile, together as one step relation.
  Two of them can meet: a delivery is ended by an approval transaction while it is being sent.
  \<^verbatim>\<open>approvals_keep\<close> is what holds for all of them; the last section is what the meeting does to the
  queue.
\<close>

section \<open>Steps\<close>

inductive outbox_write :: "protector \<Rightarrow> outbox \<Rightarrow> outbox \<Rightarrow> bool" for p where
  single: "qi_status item = Pending \<Longrightarrow> outbox_write p ob (snd (enqueue_delivery (Some p) now item ob))"
| terminal: "outbox_write p ob
    (snd (enqueue_terminal_event_with_linked_release (Some p) now event items release ob))"
| claim: "outbox_write p ob (snd (claim_delivery_batch (Some p) now limit ob))"
| complete: "outbox_write p ob (complete_delivery (Some p) route i ob)"
| fail: "outbox_write p ob (snd (fail_delivery (Some p) i retry available err dead ob))"
| attempt: "outbox_write p ob (record_delivery_attempt i n st err ob)"
| protect_stored: "outbox_write p ob (snd (migrate_protected_delivery_payloads p ob))"
| retire: "outbox_write p ob (snd (snd (migrate_notifier_profile kv ob)))"

inductive approval_write ::
  "(delivery_payload \<Rightarrow> string) \<Rightarrow> protector \<Rightarrow> approvals \<Rightarrow> approvals \<Rightarrow> bool" for enc p where
  create: "approval_write enc p av (snd (create_minimal_approval enc (Some p) now seed av))"
| complete: "approval_write enc p av
     (snd (complete_minimal_approval_delivery enc (Some p) now queue_id request_id chat topic message av))"
| claim: "approval_write enc p av
     (snd (claim_minimal_approval now token chat topic message session_identity av))"
| restore: "approval_write enc p av (snd (restore_minimal_approval_claim now request_id action av))"
| finish: "approval_write enc p av (snd (finish_minimal_approval_claim now request_id action st av))"
| expire: "approval_write enc p av (snd (expire_minimal_approval now request_id av))"
| expire_for_session: "approval_write enc p av
     (snd (expire_minimal_approval_for_session now request_id session_identity av))"
| end_session: "approval_write enc p av (snd (expire_minimal_approvals_for_session now session_identity av))"
| end_turn: "approval_write enc p av (snd (expire_minimal_approvals_for_thread_turn now thread turn av))"
| cancel: "approval_write enc p av
     (snd (cancel_minimal_approval_claim_with_inactive_edit enc (Some p) now request_id action txt av))"
| recover: "approval_write enc p av (snd (recover_minimal_approval_claims enc (Some p) now av))"

text \<open>The whole store: any other table may change in any way, and the outbox not otherwise.\<close>

inductive store_write ::
  "(delivery_payload \<Rightarrow> string) \<Rightarrow> protector \<Rightarrow> link_store \<Rightarrow> link_store \<Rightarrow> bool" for enc p where
  outbox: "outbox_write p (av_outbox (ls_approvals ls)) ob \<Longrightarrow>
    store_write enc p ls (ls\<lparr>ls_approvals := (ls_approvals ls)\<lparr>av_outbox := ob\<rparr>\<rparr>)"
| approval: "approval_write enc p (ls_approvals ls) av \<Longrightarrow> store_write enc p ls (ls\<lparr>ls_approvals := av\<rparr>)"
| handed_off: "store_write enc p ls
    (snd (finish_minimal_linked_release_with_ready_delivery (Some p) now linked g session turn at ready ls))"
| elsewhere: "ob_queue (av_outbox (ls_approvals ls')) = ob_queue (av_outbox (ls_approvals ls)) \<Longrightarrow>
    ob_events (av_outbox (ls_approvals ls')) = ob_events (av_outbox (ls_approvals ls)) \<Longrightarrow>
    store_write enc p ls ls'"

abbreviation store_reaches ::
  "(delivery_payload \<Rightarrow> string) \<Rightarrow> protector \<Rightarrow> link_store \<Rightarrow> link_store \<Rightarrow> bool" where
  "store_reaches enc p \<equiv> (store_write enc p)\<^sup>*\<^sup>*"

abbreviation queue_of :: "link_store \<Rightarrow> delivery_row list" where
  "queue_of ls \<equiv> ob_queue (av_outbox (ls_approvals ls))"

section \<open>Finished rows carry no payload\<close>

definition erased_row :: "delivery_row \<Rightarrow> bool" where
  "erased_row r \<longleftrightarrow> live (dq_status r) \<or> dq_payload r = None"

definition erased :: "delivery_row list \<Rightarrow> bool" where
  "erased q \<longleftrightarrow> (\<forall>r\<in>set q. erased_row r)"

lemma erased_Nil [simp]: "erased []"
  by (simp add: erased_def)

lemma erased_append [simp]: "erased (q @ q') \<longleftrightarrow> erased q \<and> erased q'"
  by (auto simp: erased_def)

lemma erased_single [simp]: "erased [r] \<longleftrightarrow> erased_row r"
  by (simp add: erased_def)

lemma erased_update: "erased q \<Longrightarrow> (\<And>r. erased_row r \<Longrightarrow> erased_row (f r)) \<Longrightarrow> erased (update_rows p f q)"
  by (auto simp: erased_def set_update_rows)

lemma erased_rows [simp]:
  "erased_row (drop_payload r)" "live st \<Longrightarrow> erased_row (set_status st r)"
  "live st \<Longrightarrow> erased_row (failed_row st n t err r)"
  "erased_row (single_row now i payload item) \<longleftrightarrow> live (qi_status item)"
  "erased_row (group_row now i payload item)"
  by (simp_all add: erased_row_def single_row_def group_row_def)

lemma erased_in_place:
  "ob_queue ob' = map h (ob_queue ob) \<Longrightarrow> (\<And>r. erased_row r \<Longrightarrow> erased_row (h r)) \<Longrightarrow>
   erased (ob_queue ob) \<Longrightarrow> erased (ob_queue ob')"
  by (auto simp: erased_def)

lemma insert_group_erased: "insert_group now xs ob = Inr ob' \<Longrightarrow> erased (ob_queue ob) \<Longrightarrow> erased (ob_queue ob')"
  by (induction now xs ob rule: insert_group.induct) (auto simp: append_row_def split: if_splits)

lemma terminal_erased:
  assumes "erased (ob_queue ob)"
  shows "erased (ob_queue (snd (enqueue_terminal_event_with_linked_release prot now ev items rel ob)))"
proof (cases "enqueue_terminal_event_with_linked_release prot now ev items rel ob")
  case (Pair res ob')
  then show ?thesis
  proof (cases rule: terminal_cases)
    case (stored protected ob1)
    then have "ob_queue ob' = ob_queue ob1"
      by (auto simp: apply_release_def split: option.splits if_splits)
    then show ?thesis using Pair assms insert_group_erased [OF stored(4)] by simp
  qed (use Pair assms in simp)
qed

lemma migrate_row_erased: "migrate_row p r = Inr r' \<Longrightarrow> erased_row r'"
  by (cases "live (dq_status r)"; cases "migrate_live_row p r")
    (auto simp: migrate_row_def erased_row_def split: if_splits)

lemma claim_erased: "erased (ob_queue ob) \<Longrightarrow> erased (ob_queue (snd (claim_delivery_batch prot now limit ob)))"
  by (auto simp: claim_delivery_batch_def Let_def intro!: erased_update split: sum.split)

lemma fail_erased:
  "erased (ob_queue ob) \<Longrightarrow> erased (ob_queue (snd (fail_delivery (Some p) i retry available err dead ob)))"
  by (auto simp: fail_delivery_def Let_def intro!: erased_update split: option.split)

lemma protect_erased:
  "erased (ob_queue ob) \<Longrightarrow> erased (ob_queue (snd (migrate_protected_delivery_payloads p ob)))"
proof (cases "map_result (migrate_row p) (ob_queue ob)")
  case (Inr q)
  then have "erased q"
    using map_result_each [OF Inr] migrate_row_erased [of p]
    by (auto simp: erased_def map_result_map [OF Inr])
  then show ?thesis by (simp add: migrate_protected_delivery_payloads_def Inr)
qed (simp add: migrate_protected_delivery_payloads_def)

text \<open>
  No transaction removes a terminal event either: the second part of \<^verbatim>\<open>K\<close> are keys that have been
  stored; the first one says whether the finished rows are followed.
\<close>

definition outbox_keeps :: "bool \<times> string set \<Rightarrow> outbox \<Rightarrow> bool" where
  "outbox_keeps K ob \<longleftrightarrow> (fst K \<longrightarrow> erased (ob_queue ob)) \<and> snd K \<subseteq> te_key ` set (ob_events ob)"

lemma outbox_write_erased: "outbox_write p ob ob' \<Longrightarrow> erased (ob_queue ob) \<Longrightarrow> erased (ob_queue ob')"
proof (induction rule: outbox_write.induct)
  case (single item ob now)
  then show ?case by (simp add: enqueue_delivery_def append_row_def split: sum.split)
next
  case (complete ob route i)
  then show ?case by (simp add: complete_delivery_def erased_update)
next
  case (retire ob kv)
  then show ?case by (simp add: migrate_notifier_profile_def Let_def erased_update)
qed (simp_all add: terminal_erased claim_erased fail_erased protect_erased record_delivery_attempt_def)

lemma terminal_event_keys:
  "te_key ` set (ob_events ob) \<subseteq>
   te_key ` set (ob_events (snd (enqueue_terminal_event_with_linked_release prot now ev items rel ob)))"
proof (cases "enqueue_terminal_event_with_linked_release prot now ev items rel ob")
  case (Pair res ob')
  have grow: "insert_group now xs a = Inr b \<Longrightarrow> ob_events b = ob_events a" for xs a b
    by (induction now xs a rule: insert_group.induct) (auto simp: append_row_def split: if_splits)
  from Pair show ?thesis
  proof (cases rule: terminal_cases)
    case (stored protected ob1)
    then have "ob_events ob' = ob_events ob1"
      by (auto simp: apply_release_def split: option.splits if_splits)
    then show ?thesis using Pair grow [OF stored(4)] by auto
  qed (simp add: Pair)
qed

lemma te_key_update [simp]:
  "te_key ` set (update_rows q (\<lambda>e. e\<lparr>te_delivery_status := st\<rparr>) es) = te_key ` set es"
proof -
  have "map te_key (update_rows q (\<lambda>e. e\<lparr>te_delivery_status := st\<rparr>) es) = map te_key es"
    by (rule map_update_rows) simp
  then show ?thesis by (metis set_map)
qed

lemma outbox_write_keys: "outbox_write p ob ob' \<Longrightarrow> te_key ` set (ob_events ob) \<subseteq> te_key ` set (ob_events ob')"
proof (induction rule: outbox_write.induct)
  case (single item ob now)
  then show ?case by (auto simp: enqueue_delivery_def append_row_def split: sum.split)
next
  case (claim ob now limit)
  then show ?case by (simp add: claim_delivery_batch_def Let_def split: sum.split)
next
  case (complete ob route i)
  then show ?case by (simp add: complete_delivery_def split: option.split)
next
  case (fail ob i retry available err dead)
  then show ?case by (auto simp: fail_delivery_def Let_def split: option.split)
next
  case (protect_stored ob)
  then show ?case by (simp add: migrate_protected_delivery_payloads_def split: sum.split)
next
  case (retire ob kv)
  then show ?case by (simp add: migrate_notifier_profile_def Let_def)
qed (simp_all add: terminal_event_keys record_delivery_attempt_def)

lemma outbox_write_keeps: "outbox_write p ob ob' \<Longrightarrow> outbox_keeps K ob \<Longrightarrow> outbox_keeps K ob'"
  using outbox_write_erased outbox_write_keys by (fastforce simp: outbox_keeps_def)

subsection \<open>Approval transactions\<close>

definition approvals_keep :: "bool \<times> string set \<Rightarrow> approvals \<Rightarrow> bool" where
  "approvals_keep K av \<longleftrightarrow> outbox_keeps K (av_outbox av)"

named_theorems erased_simps

lemma approvals_keep_frame [erased_simps]:
  "approvals_keep K (av\<lparr>av_rows := rows\<rparr>) = approvals_keep K av"
  "approvals_keep K (av\<lparr>av_buttons := bs\<rparr>) = approvals_keep K av"
  "approvals_keep K (av\<lparr>av_pending := ps\<rparr>) = approvals_keep K av"
  "approvals_keep K (av\<lparr>av_callbacks := cs\<rparr>) = approvals_keep K av"
  "approvals_keep K (set_approvals p f av) = approvals_keep K av"
  "approvals_keep K (bind_message_route chat topic message thread turn event now av) = approvals_keep K av"
  by (simp_all add: approvals_keep_def outbox_keeps_def set_approvals_def bind_message_route_def Let_def)

lemma approvals_keep_writes [erased_simps]:
  "approvals_keep K av \<Longrightarrow> approvals_keep K (kill_deliveries q av)"
  "approvals_keep K av \<Longrightarrow> approvals_keep K (mark_delivered i av)"
  "approvals_keep K av \<Longrightarrow> qi_status item = Pending \<Longrightarrow> approvals_keep K (queue_or_ignore now payload item av)"
  by (simp_all add: approvals_keep_def outbox_keeps_def kill_deliveries_def mark_delivered_def queue_or_ignore_def
      append_row_def erased_update)

lemma approvals_keep_buttons [erased_simps]:
  "mark_two_buttons p f av = Inr av' \<Longrightarrow> approvals_keep K av' = approvals_keep K av"
  "insert_minimal_approval_routes seed av = Inr av' \<Longrightarrow> approvals_keep K av' = approvals_keep K av"
  by (auto simp: mark_two_buttons_def insert_minimal_approval_routes_def insert_button_def Let_def
      erased_simps split: if_splits sum.splits)

lemma inactive_edit_erased [erased_simps]:
  "enqueue_minimal_approval_inactive_edit enc p now a txt av = Inr av' \<Longrightarrow> approvals_keep K av \<Longrightarrow> approvals_keep K av'"
  by (auto simp: enqueue_minimal_approval_inactive_edit_def erased_simps approval_item_def split: option.splits)

lemma settle_erased [erased_simps]:
  "settle_request p f s s' i av = Inr (Some av') \<Longrightarrow> approvals_keep K av' = approvals_keep K av"
  by (auto simp: settle_request_def erased_simps split: if_splits sum.splits)

lemma commit_settled_erased:
  "approvals_keep K av \<Longrightarrow> (\<And>av'. res = Inr (Some av') \<Longrightarrow> approvals_keep K av') \<Longrightarrow>
   approvals_keep K (snd (commit_settled av res))"
  by (auto simp: commit_settled_def split: sum.split option.split)

lemma update_erased [erased_simps]:
  "approvals_keep K av \<Longrightarrow> (\<And>r. erased_row (f r)) \<Longrightarrow>
   approvals_keep K (av\<lparr>av_outbox := (av_outbox av)\<lparr>ob_queue := update_rows p f (ob_queue (av_outbox av))\<rparr>\<rparr>)"
  by (simp add: approvals_keep_def outbox_keeps_def erased_update)

lemma rearm_erased:
  "rearm_minimal_approval_delivery_if_dead now a seed protected av = Inr av' \<Longrightarrow> approvals_keep K av \<Longrightarrow>
   approvals_keep K av'"
  by (auto simp: rearm_minimal_approval_delivery_if_dead_def Let_def erased_simps
      erased_row_def split: if_splits option.splits sum.splits)

lemma append_erased [erased_simps]:
  "approvals_keep K av \<Longrightarrow> live (qi_status item) \<Longrightarrow>
   approvals_keep K (av\<lparr>av_outbox := append_row (\<lambda>i. single_row now i payload item) (av_outbox av)\<rparr>)"
  by (simp add: approvals_keep_def outbox_keeps_def append_row_def)

lemma publish_erased:
  "publish_minimal_approval now seed protected av = Inr av' \<Longrightarrow> approvals_keep K av \<Longrightarrow> approvals_keep K av'"
  by (auto simp: publish_minimal_approval_def Let_def erased_simps split: if_splits sum.splits)

lemma retire_erased:
  "retire_minimal_approval enc p now a av = Inr av' \<Longrightarrow> approvals_keep K av \<Longrightarrow> approvals_keep K av'"
  by (auto simp: retire_minimal_approval_def erased_simps split: if_splits sum.splits)

lemma replay_erased:
  "approvals_keep K av \<Longrightarrow> approvals_keep K (snd (replay_minimal_approval now seed protected a av))"
  by (auto simp: replay_minimal_approval_def erased_simps dest!: rearm_erased split: sum.split)

lemma commit_created_erased:
  "approvals_keep K av \<Longrightarrow> (\<And>av'. res = Inr av' \<Longrightarrow> approvals_keep K av') \<Longrightarrow>
   approvals_keep K (snd (commit_created av res))"
  by (auto simp: commit_created_def split: sum.split)

lemma create_erased: "approvals_keep K av \<Longrightarrow> approvals_keep K (snd (create_minimal_approval enc prot now seed av))"
  by (auto simp: create_minimal_approval_def Let_def replay_erased erased_simps
      intro!: commit_created_erased dest!: publish_erased dest: retire_erased split: option.split sum.split)

lemma cleanups_erased:
  "enqueue_cleanups enc prot now a supersede rts av = Inr av' \<Longrightarrow> approvals_keep K av \<Longrightarrow> approvals_keep K av'"
  by (induction enc prot now a supersede rts av rule: enqueue_cleanups.induct)
    (auto simp: erased_simps approval_item_def split: if_splits sum.splits)

lemma completed_erased:
  "approvals_keep K av \<Longrightarrow> approvals_keep K (snd (complete_minimal_approval_delivery enc prot now queue_id
     request_id chat topic message av))"
  by (auto simp: complete_minimal_approval_delivery_def bind_delivered_approval_def erased_simps
      enqueue_minimal_approval_pc_cleanup_def Let_def
      dest!: cleanups_erased split: option.split sum.splits if_splits)

lemma take_claim_erased:
  "approvals_keep K av0 \<Longrightarrow> approvals_keep K av \<Longrightarrow> approvals_keep K (snd (take_claim now route av0 av))"
  by (auto simp: take_claim_def Let_def erased_simps split: sum.split)

lemma self_bind_erased:
  "self_bind chat topic message now b av = Inr (Some av') \<Longrightarrow> approvals_keep K av' = approvals_keep K av"
  by (auto simp: self_bind_def Let_def erased_simps split: if_splits sum.splits)

lemma claimed_erased:
  "approvals_keep K av \<Longrightarrow> approvals_keep K (snd (claim_minimal_approval now token chat topic message session av))"
  by (auto simp: claim_minimal_approval_def Let_def take_claim_erased self_bind_erased
      split: option.split sum.split)

lemma expire_resolved_erased: "approvals_keep K av \<Longrightarrow> approvals_keep K (snd (expire_resolved now resolved av))"
  by (auto simp: expire_resolved_def erased_simps split: option.split sum.splits
      intro!: commit_settled_erased split: option.splits)

lemma map_sum_Some: "map_sum id Some r = Inr (Some x) \<longleftrightarrow> r = Inr x"
  by (cases r) simp_all

lemma cancel_erased:
  "approvals_keep K av \<Longrightarrow> approvals_keep K (snd (cancel_minimal_approval_claim_with_inactive_edit enc prot now i action txt av))"
  by (auto simp: cancel_minimal_approval_claim_with_inactive_edit_def Let_def erased_simps map_sum_Some
      split: option.split sum.splits intro!: commit_settled_erased split: option.splits)

lemma recover_claims_erased: "approvals_keep K av \<Longrightarrow> approvals_keep K (snd (recover_claims enc prot now cs n av))"
proof (induction enc prot now cs n av rule: recover_claims.induct)
  case (2 enc prot now i action cs n av)
  obtain res av1 where c: "cancel_minimal_approval_claim_with_inactive_edit enc prot now i action
      approval_unknown_outcome_text av = (res, av1)" by (rule prod.exhaust)
  then have "approvals_keep K av1" using cancel_erased [OF "2.prems"] by (metis snd_conv)
  then show ?case using "2.IH" c by (cases res) auto
qed simp

lemma end_session_erased:
  "approvals_keep K av \<Longrightarrow> approvals_keep K (snd (expire_minimal_approvals_for_session now session av))"
  by (auto simp: expire_minimal_approvals_for_session_def expire_minimal_approvals_of_session_def Let_def
      expire_pending_approvals_for_session_def expire_callback_routes_for_session_def erased_simps)

lemma end_turn_erased:
  "approvals_keep K av \<Longrightarrow> approvals_keep K (snd (expire_minimal_approvals_for_thread_turn now thread turn av))"
  by (auto simp: expire_minimal_approvals_for_thread_turn_def Let_def erased_simps)

lemma approval_write_erased: "approval_write enc p av av' \<Longrightarrow> approvals_keep K av \<Longrightarrow> approvals_keep K av'"
  by (induction rule: approval_write.induct)
    (auto simp: create_erased completed_erased claimed_erased expire_resolved_erased cancel_erased
      recover_claims_erased end_session_erased end_turn_erased erased_simps
      restore_minimal_approval_claim_def finish_minimal_approval_claim_def expire_minimal_approval_def
      expire_minimal_approval_for_session_def recover_minimal_approval_claims_def
      intro!: commit_settled_erased split: option.split)

lemma handed_off_erased:
  "approvals_keep K (ls_approvals ls) \<Longrightarrow> approvals_keep K (ls_approvals
     (snd (finish_minimal_linked_release_with_ready_delivery (Some p) now linked g session turn at ready ls)))"
  using end_session_erased [of K "ls_approvals ls" now]
  by (auto simp: finish_minimal_linked_release_with_ready_delivery_def Let_def update_linked_def set_linked_def
      approvals_keep_def outbox_keeps_def queue_or_ignore_def append_row_def split: sum.split option.split)

lemma store_write_erased:
  "store_write enc p ls ls' \<Longrightarrow> approvals_keep K (ls_approvals ls) \<Longrightarrow> approvals_keep K (ls_approvals ls')"
proof (induction rule: store_write.induct)
  case (outbox ls ob)
  then show ?case using outbox_write_keeps by (simp add: approvals_keep_def)
next
  case (elsewhere ls' ls)
  then show ?case by (simp add: approvals_keep_def outbox_keeps_def)
qed (simp_all add: approval_write_erased handed_off_erased)

lemma store_reaches_erased:
  assumes "store_reaches enc p ls ls'" "approvals_keep K (ls_approvals ls)"
  shows "approvals_keep K (ls_approvals ls')"
  using assms by (induction rule: rtranclp_induct) (auto intro: store_write_erased)

section \<open>A row that waits without a payload\<close>

lemma map_result_Inl: "x \<in> set xs \<Longrightarrow> f x = Inl e \<Longrightarrow> \<exists>e'. map_result f xs = Inl e'"
  by (induction xs) (auto split: sum.split)

text \<open>A row with few rows in front of it is among the first.\<close>

lemma in_take_sorted:
  assumes "x \<in> set xs" "length (filter (\<lambda>y. k y < k x) xs) < n" "\<And>y. y \<in> set xs \<Longrightarrow> k y = k x \<Longrightarrow> y = x"
    "distinct xs"
  shows "x \<in> set (take n (sort_key k xs))"
proof -
  let ?ys = "sort_key k xs"
  obtain us vs where ys: "?ys = us @ x # vs" using split_list [of x ?ys] assms(1) by auto
  have d: "distinct ?ys" using assms(4) by simp
  have "k u < k x" if u: "u \<in> set us" for u
  proof -
    have "sorted (map k ?ys)" by simp
    then have "k u \<le> k x" unfolding ys using u by (auto simp: sorted_append)
    moreover have "u \<noteq> x" using d u unfolding ys by auto
    moreover have "u \<in> set xs" using u ys by (metis Un_iff set_append set_sort)
    ultimately show ?thesis using assms(3) [of u] by (cases "k u = k x") simp_all
  qed
  then have "filter (\<lambda>y. k y < k x) us = us" by simp
  then have "length us \<le> length (filter (\<lambda>y. k y < k x) ?ys)" unfolding ys by simp
  also have "\<dots> = length (filter (\<lambda>y. k y < k x) xs)"
    by (simp add: filter_sort)
  finally show ?thesis using assms(2) unfolding ys by (simp add: take_Cons')
qed

lemma claim_without_payload_fails:
  assumes "distinct (map dq_id (ob_queue ob))" "r \<in> set (ob_queue ob)" "dq_payload r = None"
    "claimable now (ob_queue ob) r"
    "length (filter (\<lambda>x. claimable now (ob_queue ob) x \<and> dq_id x < dq_id r) (ob_queue ob)) < claim_limit limit"
  shows "\<exists>e. claim_delivery_batch prot now limit ob = (Inl e, ob)"
proof -
  let ?xs = "filter (claimable now (ob_queue ob)) (ob_queue ob)"
  have "r \<in> set (take (claim_limit limit) (sort_key dq_id ?xs))"
  proof (rule in_take_sorted)
    show "length (filter (\<lambda>y. dq_id y < dq_id r) ?xs) < claim_limit limit"
      using assms(5) by (simp add: conj_commute)
    show "y = r" if "y \<in> set ?xs" "dq_id y = dq_id r" for y
      using that assms(1,2) by (auto simp: distinct_map dest: inj_onD)
  qed (use assms in \<open>auto simp: distinct_map\<close>)
  then have "r \<in> set (claimed_rows now limit (ob_queue ob))" by (simp add: claimed_rows_def)
  from map_result_Inl [OF this, of "scan_row prot" ErrScan] assms(3)
  show ?thesis by (auto simp: claim_delivery_batch_def Let_def scan_row_def)
qed

text \<open>The end of the session, and then the failure of the send it interrupted.\<close>

definition session_ended_while_sending ::
  "protector \<Rightarrow> instant \<Rightarrow> string \<Rightarrow> nat \<Rightarrow> int \<Rightarrow> instant \<Rightarrow> string \<Rightarrow> approvals \<Rightarrow> outbox" where
  "session_ended_while_sending p now session i n available err av =
     snd (fail_delivery (Some p) i n available err False
       (av_outbox (snd (expire_minimal_approvals_for_session now session av))))"

lemma session_end_kills:
  assumes "a \<in> set (av_rows av)" "ma_status a = approval_pending" "ma_session_identity a = session"
    "trim_space session = session" "session \<noteq> []"
  obtains kill where "kill (ma_queue_id a)"
    "ob_queue (av_outbox (snd (expire_minimal_approvals_for_session now session av))) =
     update_rows (\<lambda>r. kill (dq_id r) \<and> live (dq_status r)) (\<lambda>r. drop_payload (set_status Dead r))
       (ob_queue (av_outbox av))"
proof -
  let ?waiting = "\<lambda>a. ma_session_identity a = session \<and> ma_status a = approval_pending"
  let ?rows = "update_rows ?waiting (free_claim ''expired'' now) (av_rows av)"
  let ?gone = "filter (\<lambda>a. ma_session_identity a = session \<and> ma_status a = ''expired'') ?rows"
  have "filter ?waiting (av_rows av) \<noteq> []" using assms(1-3) by (auto simp: filter_empty_conv)
  then have "affected ?waiting (av_rows av) \<noteq> 0" by (simp add: affected_def)
  moreover have "free_claim ''expired'' now a \<in> set ?gone"
    using assms(1-3) by (force simp: set_update_rows free_claim_def)
  then have "ma_queue_id (free_claim ''expired'' now a) \<in> set (map ma_queue_id ?gone)"
    by (simp only: set_map) (rule imageI)
  then have "ma_queue_id a \<in> set (map ma_queue_id ?gone)" by (simp add: free_claim_def)
  ultimately show thesis
    using assms(4,5)
    by (intro that [of "\<lambda>q. q \<in> set (map ma_queue_id ?gone)"])
      (simp_all add: expire_minimal_approvals_for_session_def expire_minimal_approvals_of_session_def Let_def
        expire_pending_approvals_for_session_def expire_callback_routes_for_session_def kill_deliveries_def
        set_approvals_def)
qed

lemma ended_while_sending_row:
  assumes "a \<in> set (av_rows av)" "ma_status a = approval_pending" "ma_session_identity a = session"
    "trim_space session = session" "session \<noteq> []"
    "r \<in> set (ob_queue (av_outbox av))" "dq_id r = ma_queue_id a" "dq_status r = Processing"
  shows "failed_row Retry n available err (drop_payload (set_status Dead r)) \<in>
    set (ob_queue (session_ended_while_sending p now session (dq_id r) n available err av))"
proof -
  obtain kill where "kill (ma_queue_id a)"
    "ob_queue (av_outbox (snd (expire_minimal_approvals_for_session now session av))) =
     update_rows (\<lambda>r. kill (dq_id r) \<and> live (dq_status r)) (\<lambda>r. drop_payload (set_status Dead r))
       (ob_queue (av_outbox av))"
    by (rule session_end_kills [OF assms(1-5)])
  then show ?thesis
    using assms(6-8)
    by (force simp: session_ended_while_sending_def fail_delivery_def set_update_rows)
qed

lemma ended_while_sending_ids:
  assumes "trim_space session = session" "session \<noteq> []"
  shows "map dq_id (ob_queue (session_ended_while_sending p now session i n available err av)) =
    map dq_id (ob_queue (av_outbox av))"
  using assms
  by (simp add: session_ended_while_sending_def fail_delivery_def expire_minimal_approvals_for_session_def
      expire_minimal_approvals_of_session_def Let_def expire_pending_approvals_for_session_def
      expire_callback_routes_for_session_def kill_deliveries_def set_approvals_def map_update_rows)

lemma migrate_keeps_row:
  assumes "r \<in> set (ob_queue ob)" "live (dq_status r)" "dq_payload r = None"
  shows "r \<in> set (ob_queue (snd (migrate_protected_delivery_payloads p ob)))"
proof -
  have m: "migrate_row p r = Inr r" using assms(2,3) by (simp add: migrate_row_def migrate_live_row_def)
  show ?thesis
  proof (cases "map_result (migrate_row p) (ob_queue ob)")
    case (Inr q)
    then have "q = map (\<lambda>r. projr (migrate_row p r)) (ob_queue ob)" by (rule map_result_map)
    then show ?thesis using assms(1) m by (force simp: migrate_protected_delivery_payloads_def Inr)
  qed (simp add: migrate_protected_delivery_payloads_def assms(1))
qed

lemma migrate_ids:
  "map dq_id (ob_queue (snd (migrate_protected_delivery_payloads p ob))) = map dq_id (ob_queue ob)"
proof (cases "map_result (migrate_row p) (ob_queue ob)")
  case (Inr q)
  have live: "dq_id b = dq_id r" if "migrate_live_row p r = Inr b" for r b
    using that by (auto simp: migrate_live_row_def Let_def split: if_splits option.splits)
  have "dq_id r' = dq_id r" if "migrate_row p r = Inr r'" for r r'
    using that live [of r] by (cases "migrate_live_row p r") (auto simp: migrate_row_def split: if_splits)
  then have "map dq_id q = map dq_id (ob_queue ob)"
    by (intro map_result_keys [OF Inr]) simp
  then show ?thesis by (simp add: migrate_protected_delivery_payloads_def Inr)
qed (simp add: migrate_protected_delivery_payloads_def)

section \<open>Properties\<close>


text \<open>
  C18: An approval transaction can end a delivery while it is being sent, and then the payload is gone
  although the row is not finished for good: when the session that asked ends during the send, and the
  send then fails, the failure puts the row back to be retried, without a payload. From the second
  after its next attempt is due, no claim succeeds as long as the row is among the first the claim
  would take: the claim fails as a whole, changes nothing and returns no delivery at all. A restart
  leaves the row as it is, and the claims after it fail too.
\<close>
theorem killed_delivery_blocks_queue:
  assumes "distinct (map dq_id (ob_queue (av_outbox av)))" "r \<in> set (ob_queue (av_outbox av))"
    and "dq_status r = Processing" "dq_group_id r = None"
    and "a \<in> set (av_rows av)" "ma_status a = approval_pending" "ma_queue_id a = dq_id r"
    and "ma_session_identity a = session" "trim_space session = session" "session \<noteq> []"
    and "ob1 = session_ended_while_sending p now session (dq_id r) n available err av"
    and "ob \<in> {ob1, snd (migrate_protected_delivery_payloads p ob1)}" "available + second \<le> due"
    and "length (filter (\<lambda>x. claimable due (ob_queue ob) x \<and> dq_id x < dq_id r) (ob_queue ob)) < claim_limit limit"
  shows "\<exists>e. claim_delivery_batch (Some p) due limit ob = (Inl e, ob)"
proof -
  define r' where "r' = failed_row Retry n available err (drop_payload (set_status Dead r))"
  have cols: "dq_status r' = Retry" "dq_payload r' = None" "dq_id r' = dq_id r" "dq_group_id r' = None"
    "dq_available_at r' = available"
    using assms(4) by (simp_all add: r'_def) (simp add: failed_row_def)
  have "r' \<in> set (ob_queue ob1)"
    unfolding r'_def assms(11)
    by (rule ended_while_sending_row [OF assms(5,6,8,9,10,2) _ assms(3)]) (simp add: assms(7))
  then have row: "r' \<in> set (ob_queue ob)"
    using assms(12) migrate_keeps_row [of r' ob1 p] cols by auto
  have "distinct (map dq_id (ob_queue ob))"
    using assms(1,11,12) ended_while_sending_ids [OF assms(9,10)] by (auto simp: migrate_ids)
  moreover have "claimable due (ob_queue ob) r'"
    using cols stamp_le_due [OF assms(13)] by (simp add: claimable_def)
  ultimately show ?thesis
    by (rule claim_without_payload_fails [OF _ row cols(2)]) (use assms(14) in \<open>simp add: cols\<close>)
qed

subsection \<open>Witnesses\<close>

definition written_store :: link_store where
  "written_store = empty_links\<lparr>ls_approvals := ask_stored\<rparr>"

definition ended_store :: link_store where
  "ended_store = written_store\<lparr>ls_approvals := snd (expire_minimal_approvals_for_session 2 ''s'' ask_stored)\<rparr>"

lemma ended_store_reached: "store_reaches dp_text ask_protector empty_links ended_store"
proof -
  have "approval_write dp_text ask_protector (ls_approvals empty_links) ask_stored"
    unfolding ask_stored_def ask_create_def empty_links_def link_store.select_convs by (rule approval_write.create)
  then have "store_write dp_text ask_protector empty_links written_store"
    unfolding written_store_def by (rule store_write.approval)
  moreover have "approval_write dp_text ask_protector (ls_approvals written_store)
      (snd (expire_minimal_approvals_for_session 2 ''s'' ask_stored))"
    using approval_write.end_session [of dp_text ask_protector ask_stored 2 "''s''"] by (simp add: written_store_def)
  then have "store_write dp_text ask_protector written_store ended_store"
    unfolding ended_store_def by (rule store_write.approval)
  ultimately show ?thesis by simp
qed


text \<open>The request's delivery is claimed, its session ends, and the send fails.\<close>

definition ask_sending :: approvals where
  "ask_sending = ask_stored\<lparr>av_outbox := snd (claim_delivery_batch (Some ask_protector) 0 10 (av_outbox ask_stored))\<rparr>"

definition ask_killed :: outbox where
  "ask_killed = session_ended_while_sending ask_protector 2 ''s'' 1 1 5 ''send_error'' ask_sending"

lemma killed_delivery_blocks_queue_witness:
  "fst (claim_delivery_batch (Some ask_protector) (5 + second) 10 ask_killed) = Inl ErrScan \<and>
   (\<exists>e. claim_delivery_batch (Some ask_protector) (5 + second) 10 ask_killed = (Inl e, ask_killed))"
proof -
  have q: "map (\<lambda>r. (dq_id r, dq_status r, dq_group_id r)) (ob_queue (av_outbox ask_sending)) = [(1, Processing, None)]"
    and a: "map (\<lambda>a. (ma_status a, ma_queue_id a, ma_session_identity a)) (av_rows ask_sending) =
      [(approval_pending, 1, ''s'')]"
    and s: "trim_space ''s'' = ''s''"
    and k: "map dq_id (ob_queue ask_killed) = [1]"
    and e: "fst (claim_delivery_batch (Some ask_protector) (5 + second) 10 ask_killed) = Inl ErrScan"
    by code_simp+
  obtain r where r: "ob_queue (av_outbox ask_sending) = [r]" "dq_id r = 1" "dq_status r = Processing" "dq_group_id r = None"
    using q by (auto simp: map_eq_Cons_conv)
  obtain a where a': "av_rows ask_sending = [a]" "ma_status a = approval_pending" "ma_queue_id a = 1" "ma_session_identity a = ''s''"
    using a by (auto simp: map_eq_Cons_conv)
  obtain r' where k': "ob_queue ask_killed = [r']" "dq_id r' = 1" using k by (auto simp: map_eq_Cons_conv)
  have kd: "ask_killed = session_ended_while_sending ask_protector 2 ''s'' (dq_id r) 1 5 ''send_error'' ask_sending"
    by (simp only: ask_killed_def r(2))
  have "\<exists>e. claim_delivery_batch (Some ask_protector) (5 + second) 10 ask_killed = (Inl e, ask_killed)"
    by (rule killed_delivery_blocks_queue [of ask_sending r a "''s''" ask_killed ask_protector 2 1 5 "''send_error''",
          OF _ _ _ _ _ _ _ _ _ _ kd])
      (use r a' s k' in \<open>simp_all add: claim_limit_def\<close>)
  then show ?thesis using e by simp
qed

end
