(* ===== verification/Minimal_Terminal.thy ===== *)
theory Minimal_Terminal
  imports Rendering Project_Registry Link_Worker_Safety Queue_Writers Minimal_Observations Notifier_Format
begin

text \<open>
  The end of a turn in the minimal profile (\<^verbatim>\<open>internal/daemon/minimal_observer.go\<close>): the
  notification goes to the outbox in numbered parts, a linked thread begins its release in the same
  transaction, its worker process is closed, and the thread is handed back to Codex. The steps are
  over the tables of the store (\<^verbatim>\<open>link_store\<close>), the observations and the manager of the workers.
\<close>

section \<open>The notification\<close>

definition marker_done :: string where
  "marker_done = [CHR 0x5B, CHR 0xEC, CHR 0x99, CHR 0x84, CHR 0xEB, CHR 0xA3, CHR 0x8C, CHR 0x5D]"

definition marker_failed :: string where
  "marker_failed = [CHR 0x5B, CHR 0xEC, CHR 0x8B, CHR 0xA4, CHR 0xED, CHR 0x8C, CHR 0xA8, CHR 0x5D]"

definition text_no_answer :: string where
  "text_no_answer = [CHR 0x43, CHR 0x6F, CHR 0x64, CHR 0x65, CHR 0x78, CHR 0xEA, CHR 0xB0, CHR 0x80, CHR 0x20,
     CHR 0xEC, CHR 0xB5, CHR 0x9C, CHR 0xEC, CHR 0xA2, CHR 0x85, CHR 0x20, CHR 0xEB, CHR 0x8B,
     CHR 0xB5, CHR 0xEB, CHR 0xB3, CHR 0x80, CHR 0xEC, CHR 0x9D, CHR 0x84, CHR 0x20, CHR 0xEB,
     CHR 0x82, CHR 0xA8, CHR 0xEA, CHR 0xB8, CHR 0xB0, CHR 0xEC, CHR 0xA7, CHR 0x80, CHR 0x20,
     CHR 0xEC, CHR 0x95, CHR 0x8A, CHR 0xEC, CHR 0x95, CHR 0x98, CHR 0xEC, CHR 0x8A, CHR 0xB5,
     CHR 0xEB, CHR 0x8B, CHR 0x88, CHR 0xEB, CHR 0x8B, CHR 0xA4, CHR 0x2E]"

definition label_conversation :: string where
  "label_conversation = [CHR 0xEB, CHR 0x8C, CHR 0x80, CHR 0xED, CHR 0x99, CHR 0x94, CHR 0x3A, CHR 0x20]"

definition text_handoff_before :: string where
  "text_handoff_before = [CHR 0x43, CHR 0x6F, CHR 0x64, CHR 0x65, CHR 0x78, CHR 0xEC, CHR 0x97, CHR 0x90, CHR 0xEC,
     CHR 0x84, CHR 0x9C, CHR 0x20, CHR 0xE2, CHR 0x80, CHR 0x9C]"

definition text_handoff_after :: string where
  "text_handoff_after = [CHR 0xE2, CHR 0x80, CHR 0x9D, CHR 0x20, CHR 0xEC, CHR 0x9E, CHR 0x91, CHR 0xEC, CHR 0x97,
     CHR 0x85, CHR 0xEC, CHR 0x9D, CHR 0x84, CHR 0x20, CHR 0xEC, CHR 0x97, CHR 0xB4, CHR 0xEC,
     CHR 0x96, CHR 0xB4, CHR 0x20, CHR 0xEC, CHR 0x9D, CHR 0xB4, CHR 0xEC, CHR 0x96, CHR 0xB4,
     CHR 0xEC, CHR 0x84, CHR 0x9C, CHR 0x20, CHR 0xEC, CHR 0x9E, CHR 0x91, CHR 0xEC, CHR 0x97,
     CHR 0x85, CHR 0xED, CHR 0x95, CHR 0xA0, CHR 0x20, CHR 0xEC, CHR 0x88, CHR 0x98, CHR 0x20,
     CHR 0xEC, CHR 0x9E, CHR 0x88, CHR 0xEC, CHR 0x8A, CHR 0xB5, CHR 0xEB, CHR 0x8B, CHR 0x88,
     CHR 0xEB, CHR 0x8B, CHR 0xA4, CHR 0x2E]"

definition clean_minimal_display_text :: "string \<Rightarrow> string" where
  "clean_minimal_display_text s = join '' '' (Go_Strings.fields (trim_space (replace_all ''<nil>'' [] s)))"

definition minimal_terminal_body :: "snapshot \<Rightarrow> string" where
  "minimal_terminal_body sn =
     (let final = trim_space (sn_final_text sn)
      in if final \<noteq> [] then final
         else case find (\<lambda>m. trim_space m \<noteq> []) (rev (sn_agent_messages sn)) of
                Some m \<Rightarrow> trim_space m
              | None \<Rightarrow> text_no_answer)"

definition minimal_terminal_header :: "string \<Rightarrow> string \<Rightarrow> snapshot \<Rightarrow> string" where
  "minimal_terminal_header st project sn =
     (let marker = (if st = ''failed'' \<or> st = ''interrupted'' then marker_failed else marker_done);
          title0 = clean_minimal_display_text (th_title (sn_thread sn));
          title = (if title0 = [] \<or> title0 = th_id (sn_thread sn) then short_id (sn_thread sn) else title0)
      in join [CHR 0x0A] [marker @ '' '' @ project, label_conversation @ title, ''Thread: '' @ short_id (sn_thread sn)])"

text \<open>
  The division of the message; it always ends here, because no character is wider than the limit
  (the lemma \<^verbatim>\<open>minimal_parts_end\<close> below).
\<close>

definition minimal_parts :: "rendered_message \<Rightarrow> rendered_message list" where
  "minimal_parts m =
     (case split_minimal_rendered m (telegram_message_limit - 16) of None \<Rightarrow> [] | Some parts \<Rightarrow> parts)"

definition part_label :: "nat \<Rightarrow> nat \<Rightarrow> string" where
  "part_label i n = ''['' @ itoa (int i) @ ''/'' @ itoa (int n) @ '']'' @ [CHR 0x0A]"

definition labelled_part :: "nat \<Rightarrow> nat \<Rightarrow> rendered_message \<Rightarrow> rendered_message" where
  "labelled_part i n m =
     \<lparr>rm_text = part_label i n @ rm_text m,
      rm_entities = map (shift_entity (int (length (runes (part_label i n))))) (rm_entities m)\<rparr>"

definition minimal_terminal_item ::
  "(delivery_payload \<Rightarrow> string) \<Rightarrow> observer_target \<Rightarrow> snapshot \<Rightarrow> terminal_event \<Rightarrow> nat \<Rightarrow> nat \<Rightarrow> rendered_message \<Rightarrow>
   delivery_item" where
  "minimal_terminal_item enc target sn event i n m =
     \<lparr>qi_id = 0, qi_event_id = te_key event @ '':'' @ itoa (int i),
      qi_chat_key = chat_key (ot_chat_id target) (ot_topic_id target),
      qi_chat_id = ot_chat_id target, qi_topic_id = ot_topic_id target, qi_thread_id = th_id (sn_thread sn),
      qi_kind = ''terminal'', qi_status = Pending, qi_retry_count = 0, qi_available_at = None, qi_last_error = [],
      qi_payload = enc \<lparr>dp_mode = [], dp_text = rm_text m, dp_thread_id = th_id (sn_thread sn), dp_turn_id = sn_turn_id sn,
        dp_item_id = [], dp_event_id = te_key event, dp_message_id = 0, dp_buttons = [], dp_rendered = Some m\<rparr>,
      qi_group_id = te_key event, qi_sequence_no = int i, qi_sequence_count = int n\<rparr>"

definition labelled_parts :: "rendered_message list \<Rightarrow> rendered_message list" where
  "labelled_parts parts = map (\<lambda>i. labelled_part (Suc i) (length parts) (parts ! i)) [0..<length parts]"

definition minimal_terminal_items ::
  "(delivery_payload \<Rightarrow> string) \<Rightarrow> observer_target \<Rightarrow> snapshot \<Rightarrow> terminal_event \<Rightarrow> rendered_message list \<Rightarrow>
   delivery_item list" where
  "minimal_terminal_items enc target sn event parts =
     (let ms = labelled_parts parts
      in map (\<lambda>i. minimal_terminal_item enc target sn event (Suc i) (length ms) (ms ! i)) [0..<length ms])"

definition minimal_terminal_message :: "markdown_library \<Rightarrow> string \<Rightarrow> string \<Rightarrow> snapshot \<Rightarrow> rendered_message" where
  "minimal_terminal_message lib st project sn =
     hd (render_segments lib
           [plain (minimal_terminal_header st project sn @ [CHR 0x0A, CHR 0x0A]), markdown (minimal_terminal_body sn)]
           (2 ^ 30))"

section \<open>The projection of an ended turn\<close>

datatype terminal_error =
    TermLink link_error | TermStore store_error | TermClose string | TermNotClosed | TermNotFinished

record terminal_tables =
  tt_links :: link_store
  tt_observations :: minimal_observations

definition with_outbox :: "outbox \<Rightarrow> link_store \<Rightarrow> link_store" where
  "with_outbox ob ls = ls\<lparr>ls_approvals := (ls_approvals ls)\<lparr>av_outbox := ob\<rparr>\<rparr>"

text \<open>The transaction of the outbox; when it fails the observation is opened again.\<close>

definition enqueue_minimal_terminal ::
  "protector option \<Rightarrow> instant \<Rightarrow> snapshot \<Rightarrow> terminal_event \<Rightarrow> delivery_item list \<Rightarrow> linked_release option \<Rightarrow>
   terminal_tables \<Rightarrow> terminal_error option \<times> terminal_tables" where
  "enqueue_minimal_terminal prot now sn event items release tt =
     (case enqueue_terminal_event_with_linked_release prot now event items release (av_outbox (ls_approvals (tt_links tt))) of
        (Inl e, ob) \<Rightarrow>
          (Some (TermStore e), tt\<lparr>tt_links := with_outbox ob (tt_links tt),
             tt_observations := reopen_minimal_terminal_transition (th_id (sn_thread sn)) (sn_turn_id sn) (tt_observations tt)\<rparr>)
      | (Inr _, ob) \<Rightarrow> (None, tt\<lparr>tt_links := with_outbox ob (tt_links tt)\<rparr>))"

definition release_of_link :: "snapshot \<Rightarrow> linked_thread option \<Rightarrow> linked_release option" where
  "release_of_link sn link =
     (case link of
        None \<Rightarrow> None
      | Some l \<Rightarrow>
          if trim_space (ml_state l) = linked_running
          then Some \<lparr>lr_linked_thread_id = ml_linked_thread_id l, lr_turn_id = sn_turn_id sn,
                     lr_worker_generation = ml_worker_generation l\<rparr>
          else None)"

definition project_minimal_terminal ::
  "string \<Rightarrow> markdown_library \<Rightarrow> (string \<Rightarrow> project option) \<Rightarrow> (delivery_payload \<Rightarrow> string) \<Rightarrow> protector option \<Rightarrow>
   kv_table \<Rightarrow> int \<Rightarrow> instant \<Rightarrow> snapshot \<Rightarrow> terminal_tables \<Rightarrow> terminal_error option \<times> terminal_tables" where
  "project_minimal_terminal profile lib match_exact enc prot kv since now sn tt =
     (let st = canonical_terminal_status (sn_turn_status sn)
      in if profile \<noteq> ''minimal'' \<or> st \<notin> {''completed'', ''failed'', ''interrupted''} then (None, tt)
         else case match_exact (th_cwd (sn_thread sn)) of
           None \<Rightarrow> (None, tt)
         | Some project \<Rightarrow>
            (case claim_minimal_terminal_transition_after_baseline (th_id (sn_thread sn)) (sn_turn_id sn) st
                    (th_updated_at (sn_thread sn)) since (tt_observations tt) of
               (None, obs) \<Rightarrow> (None, tt\<lparr>tt_observations := obs\<rparr>)
             | (Some event, obs) \<Rightarrow>
                (let tt1 = tt\<lparr>tt_observations := obs\<rparr>
                 in case get_minimal_linked_thread_by_linked_id prot (th_id (sn_thread sn)) (tt_links tt) of
                      Inl e \<Rightarrow> (Some (TermLink e), tt1)
                    | Inr link \<Rightarrow>
                       (let release = release_of_link sn link
                        in case fst (get_global_observer_target kv) of
                             Some target \<Rightarrow>
                               enqueue_minimal_terminal prot now sn event
                                 (minimal_terminal_items enc target sn event
                                    (minimal_parts (minimal_terminal_message lib st (pj_display_name project) sn)))
                                 release tt1
                           | None \<Rightarrow>
                               if release = None then (None, tt1)
                               else enqueue_minimal_terminal prot now sn event [] release tt1))))"

section \<open>Handing a thread back\<close>

definition minimal_handoff_ready_delivery ::
  "(delivery_payload \<Rightarrow> string) \<Rightarrow> kv_table \<Rightarrow> instant \<Rightarrow> linked_thread \<Rightarrow> string \<Rightarrow> delivery_item option" where
  "minimal_handoff_ready_delivery enc kv now l turn =
     (let (chat, topic) =
        (if ml_chat_id l \<noteq> 0 then (ml_chat_id l, ml_topic_id l)
         else case fst (get_global_observer_target kv) of
                Some target \<Rightarrow> (ot_chat_id target, ot_topic_id target)
              | None \<Rightarrow> (0, ml_topic_id l));
          linked = ml_linked_thread_id l;
          title0 = clean_minimal_display_text (ml_desired_title l);
          title = (if title0 \<noteq> [] then title0 else if length linked \<le> 8 then linked else take 8 linked);
          event = linked @ '':'' @ turn @ '':handoff_ready''
      in if chat = 0 then None
         else Some \<lparr>qi_id = 0, qi_event_id = event, qi_chat_key = chat_key chat topic, qi_chat_id = chat,
                    qi_topic_id = topic, qi_thread_id = linked, qi_kind = ''handoff_ready'', qi_status = Pending,
                    qi_retry_count = 0, qi_available_at = Some now, qi_last_error = [],
                    qi_payload = enc \<lparr>dp_mode = [], dp_text = text_handoff_before @ title @ text_handoff_after,
                      dp_thread_id = linked, dp_turn_id = turn, dp_item_id = [], dp_event_id = event, dp_message_id = 0,
                      dp_buttons = [], dp_rendered = None\<rparr>,
                    qi_group_id = [], qi_sequence_no = 0, qi_sequence_count = 0\<rparr>)"

text \<open>A worker without a link row: it is closed, and the requests of its session expire.\<close>

definition release_registered_minimal_terminal_worker ::
  "instant \<Rightarrow> (nat \<Rightarrow> close_outcome) \<Rightarrow> string \<Rightarrow> link_store \<times> 's worker_manager \<Rightarrow>
   terminal_error option \<times> link_store \<times> 's worker_manager" where
  "release_registered_minimal_terminal_worker now closing thread0 st =
     (let thread = trim_space thread0; (ls, m) = st
      in case by_thread thread m of
           None \<Rightarrow> (None, st)
         | Some a \<Rightarrow>
            (let w = wm_heap m ! a; g = lw_generation w; identity = trim_space (lw_session_identity w)
             in case release_worker thread g closing m of
                  ((closed, Some e), m1) \<Rightarrow> (Some (TermClose e), ls, m1)
                | ((False, None), m1) \<Rightarrow> (None, ls, m1)
                | ((True, None), m1) \<Rightarrow>
                    (None,
                     (if identity = [] then ls
                      else ls\<lparr>ls_approvals := snd (expire_minimal_approvals_for_session now identity (ls_approvals ls))\<rparr>),
                     forget_confirmed_release thread g m1)))"

text \<open>The session whose requests expire: the worker's own, else the one of the confirmed release.\<close>

definition released_session :: "string \<Rightarrow> 64 word \<Rightarrow> 's worker_manager \<Rightarrow> 's worker_manager \<Rightarrow> string" where
  "released_session linked g m m1 =
     (let own = (case by_thread linked m of
                   None \<Rightarrow> []
                 | Some a \<Rightarrow> if lw_generation (wm_heap m ! a) = g then trim_space (lw_session_identity (wm_heap m ! a)) else [])
      in if own \<noteq> [] then own
         else case confirmed_release_identity linked g m1 of None \<Rightarrow> [] | Some i \<Rightarrow> i)"

definition finish_handoff ::
  "(delivery_payload \<Rightarrow> string) \<Rightarrow> protector option \<Rightarrow> kv_table \<Rightarrow> instant \<Rightarrow> linked_thread \<Rightarrow> string \<Rightarrow> string \<Rightarrow>
   link_store \<times> 's worker_manager \<Rightarrow> terminal_error option \<times> link_store \<times> 's worker_manager" where
  "finish_handoff enc prot kv now l turn session st =
     (let (ls, m) = st; linked = ml_linked_thread_id l; g = ml_worker_generation l
      in case finish_minimal_linked_release_with_ready_delivery prot now linked g session turn now
                (minimal_handoff_ready_delivery enc kv now l turn) ls of
           (Inl e, ls1) \<Rightarrow> (Some (TermLink e), ls1, m)
         | (Inr False, ls1) \<Rightarrow> (Some TermNotFinished, ls1, m)
         | (Inr True, ls1) \<Rightarrow> (None, ls1, forget_confirmed_release linked g m))"

definition release_minimal_terminal_worker ::
  "string \<Rightarrow> (delivery_payload \<Rightarrow> string) \<Rightarrow> protector option \<Rightarrow> kv_table \<Rightarrow> instant \<Rightarrow> (nat \<Rightarrow> close_outcome) \<Rightarrow>
   snapshot \<Rightarrow> link_store \<times> 's worker_manager \<Rightarrow> terminal_error option \<times> link_store \<times> 's worker_manager" where
  "release_minimal_terminal_worker profile enc prot kv now closing sn st =
     (let thread = trim_space (th_id (sn_thread sn)); turn = trim_space (sn_turn_id sn); (ls, m) = st
      in if profile \<noteq> ''minimal'' \<or> thread = [] \<or> turn = [] then (None, st)
         else case get_minimal_linked_thread_by_linked_id prot thread ls of
           Inl e \<Rightarrow> (Some (TermLink e), st)
         | Inr None \<Rightarrow> release_registered_minimal_terminal_worker now closing thread st
         | Inr (Some l) \<Rightarrow>
             if trim_space (ml_state l) \<noteq> linked_release_pending \<or> trim_space (ml_active_turn_id l) \<noteq> turn then (None, st)
             else (let linked = ml_linked_thread_id l; g = ml_worker_generation l;
                       ((closed, err), m1) = release_worker linked g closing m;
                       confirmed = closed \<or> err = None \<and> confirmed_release linked g m1
                   in if err \<noteq> None \<or> \<not> confirmed
                      then (Some (case err of Some e \<Rightarrow> TermClose e | None \<Rightarrow> TermNotClosed),
                            snd (fail_minimal_linked_thread linked g ''release_close_failed'' ls), m1)
                      else finish_handoff enc prot kv now l turn (released_session linked g m m1) (ls, m1)))"

section \<open>Snapshots that say nothing new\<close>

definition is_terminal_status :: "string \<Rightarrow> bool" where
  "is_terminal_status st =
     (trim_space (to_lower st) \<in> {''completed'', ''interrupted'', ''failed'', ''cancelled'', ''canceled''})"

definition stale_minimal_linked_terminal ::
  "string \<Rightarrow> protector option \<Rightarrow> snapshot \<Rightarrow> link_store \<Rightarrow> (link_error, bool) result" where
  "stale_minimal_linked_terminal profile prot sn ls =
     (let thread = trim_space (th_id (sn_thread sn))
      in if profile \<noteq> ''minimal'' \<or> \<not> is_terminal_status (sn_turn_status sn) \<or> thread = [] then Inr False
         else case get_minimal_linked_thread_by_linked_id prot thread ls of
           Inl e \<Rightarrow> Inl e
         | Inr None \<Rightarrow> Inr False
         | Inr (Some l) \<Rightarrow>
             (let st = trim_space (ml_state l); active = trim_space (ml_active_turn_id l)
              in Inr ((st = linked_running \<or> st = linked_release_pending) \<and> active \<noteq> [] \<and>
                      active \<noteq> trim_space (sn_turn_id sn))))"

definition retire_minimal_observation_if_ineligible ::
  "string \<Rightarrow> (string \<Rightarrow> project option) \<Rightarrow> snapshot \<Rightarrow> minimal_observations \<Rightarrow> bool \<times> minimal_observations" where
  "retire_minimal_observation_if_ineligible profile match_exact sn obs =
     (let thread = trim_space (th_id (sn_thread sn)); cwd = trim_space (th_cwd (sn_thread sn))
      in if profile \<noteq> ''minimal'' \<or> thread = [] \<or> cwd = [] \<or> match_exact cwd \<noteq> None then (False, obs)
         else (True, retire_minimal_observation thread obs))"

section \<open>The parts fit\<close>

lemma runes_ascii:
  assumes "list_all (\<lambda>c. (of_char c :: nat) < 0x80) a"
  shows "runes (a @ s) = map of_char a @ runes s"
  using assms
proof (induction a)
  case (Cons c a)
  have "scalar (of_char c)" "encode_rune (of_char c) = [c]" using Cons.prems by (simp_all add: encode_rune_def scalar_def)
  then show ?case using Cons runes_encode [of "of_char c" "a @ s"] by simp
qed simp

lemma length_nat_digits: "0 < k \<Longrightarrow> n < 10 ^ k \<Longrightarrow> length (nat_digits n) \<le> k"
proof (induction k arbitrary: n)
  case (Suc k)
  show ?case
  proof (cases "n < 10")
    case False
    then have "0 < k" "n div 10 < 10 ^ k" using Suc.prems(2) by (cases k; simp)+
    then show ?thesis using Suc.IH [of "n div 10"] False by (subst nat_digits.simps) simp
  qed (subst nat_digits.simps, simp)
qed simp

lemma part_label_ascii: "list_all (\<lambda>c. (of_char c :: nat) < 0x80) (part_label i n)"
proof -
  have "(of_char c :: nat) < 0x80" if "is_digit c" for c using that by (simp add: is_digit_def less_eq_char_def)
  then show ?thesis
    using nat_digits_digits [of i] nat_digits_digits [of n]
    by (auto simp: part_label_def itoa_def list_all_iff)
qed

lemma length_part_label: "i \<le> n \<Longrightarrow> n < 10 ^ 6 \<Longrightarrow> length (part_label i n) \<le> 16"
  using length_nat_digits [of 6 i] length_nat_digits [of 6 n] by (simp add: part_label_def itoa_def)

lemma runes_labelled:
  "runes (rm_text (labelled_part i n m)) = map of_char (part_label i n) @ runes (rm_text m)"
  by (simp add: labelled_part_def runes_ascii part_label_ascii)

lemma units_ascii: "list_all (\<lambda>c. (of_char c :: nat) < 0x80) a \<Longrightarrow> utf16_length (map of_char a) = int (length a)"
  by (induction a) (simp_all add: utf16_width_def)

lemma units_labelled: "units (labelled_part i n m) = int (length (part_label i n)) + units m"
  by (simp add: units_def runes_labelled units_ascii part_label_ascii)

lemma minimal_parts_end:
  "split_minimal_rendered m (telegram_message_limit - 16) = Some (minimal_parts m)"
proof -
  have "\<forall>r\<in>set (runes (rm_text m)). utf16_width r \<le> telegram_message_limit - 16"
    by (simp add: utf16_width_def telegram_message_limit_def)
  then obtain out where "split_minimal_rendered m (telegram_message_limit - 16) = Some out"
    using split_returns unfolding split_minimal_rendered_def by blast
  then show ?thesis by (simp add: minimal_parts_def)
qed

text \<open>
  C17: The parts of a notification fit into Telegram's messages: below a million parts, each
  with its label is at most 4096 units long, none is empty, every entity lies inside its part, and
  the parts without their labels are the notification.
\<close>
theorem notification_parts_fit:
  assumes "length (minimal_parts m) < 10 ^ 6"
  shows "(\<forall>part\<in>set (labelled_parts (minimal_parts m)). units part \<le> telegram_message_limit \<and>
      (\<forall>e\<in>set (rm_entities part). 0 \<le> me_offset e \<and> me_offset e + me_length e \<le> units part)) \<and>
    (\<forall>i<length (minimal_parts m). rm_text (minimal_parts m ! i) \<noteq> [] \<and>
      rm_text (labelled_parts (minimal_parts m) ! i) =
        part_label (Suc i) (length (minimal_parts m)) @ rm_text (minimal_parts m ! i)) \<and>
    concat (map (runes \<circ> rm_text) (minimal_parts m)) = runes (rm_text m)"
proof -
  let ?ps = "minimal_parts m" and ?n = "length (minimal_parts m)"
  note texts = split_from_texts [OF minimal_parts_end [of m, unfolded split_minimal_rendered_def] scalar_runes]
  have "units (labelled_part (Suc i) ?n (?ps ! i)) \<le> telegram_message_limit \<and>
      (\<forall>e\<in>set (rm_entities (labelled_part (Suc i) ?n (?ps ! i))).
         0 \<le> me_offset e \<and> me_offset e + me_length e \<le> units (labelled_part (Suc i) ?n (?ps ! i)))" if "i < ?n" for i
  proof -
    have "?ps ! i \<in> set ?ps" using that by simp
    then have p: "units (?ps ! i) \<le> telegram_message_limit - 16"
        "\<forall>e\<in>set (rm_entities (?ps ! i)). 0 \<le> me_offset e \<and> me_offset e + me_length e \<le> units (?ps ! i)"
      using texts by auto
    have "length (part_label (Suc i) ?n) \<le> 16" using length_part_label [of "Suc i" ?n] that assms by simp
    moreover have "length (runes (part_label (Suc i) ?n)) = length (part_label (Suc i) ?n)"
      using runes_ascii [OF part_label_ascii, of "Suc i" ?n "[]"] by simp
    ultimately show ?thesis using p unfolding units_labelled by (auto simp: labelled_part_def shift_entity_def)
  qed
  moreover have "rm_text (?ps ! i) \<noteq> []" if "i < ?n" for i using texts that by simp
  ultimately show ?thesis using texts by (auto simp: labelled_parts_def labelled_part_def)
qed

lemma notification_parts_fit_witness:
  "concat (map (runes \<circ> rm_text) (minimal_parts \<lparr>rm_text = ''a'', rm_entities = []\<rparr>)) = runes ''a''"
proof -
  have r: "runes ''a'' = [97]" by code_simp
  have "minimal_parts \<lparr>rm_text = ''a'', rm_entities = []\<rparr> = [\<lparr>rm_text = of_runes [97], rm_entities = []\<rparr>]"
    unfolding minimal_parts_def split_minimal_rendered_def rendered_message.select_convs r
    by (simp add: split_from.simps utf16_width_def map_filter_simps telegram_message_limit_def)
  then have "length (minimal_parts \<lparr>rm_text = ''a'', rm_entities = []\<rparr>) < 10 ^ 6" by simp
  from notification_parts_fit [OF this] show ?thesis by simp
qed

section \<open>An end is announced once\<close>

lemma ended_words: "{''completed'', ''failed'', ''interrupted''} \<subseteq> set terminal_words"
  by (simp add: terminal_words_def)

lemma enqueued_keeps:
  assumes "enqueue_minimal_terminal prot now sn event items release tt = (err, tt')"
    and "ob_events (av_outbox (ls_approvals (tt_links tt'))) \<noteq> ob_events (av_outbox (ls_approvals (tt_links tt)))"
  shows "tt_observations tt' = tt_observations tt"
  using assms
  by (auto simp: enqueue_minimal_terminal_def enqueue_terminal_event_with_linked_release_def with_outbox_def
      split: prod.split_asm sum.split_asm if_split_asm bool.split_asm option.split_asm)

text \<open>The claim behind an event that was stored, and the key it was stored under.\<close>

definition end_key :: "snapshot \<Rightarrow> string" where
  "end_key sn = te_key (terminal_transition_event (trim_space (th_id (sn_thread sn))) (trim_space (sn_turn_id sn))
     (trim_space (to_lower (canonical_terminal_status (sn_turn_status sn)))))"

lemma with_outbox_simps [simp]:
  "av_outbox (ls_approvals (with_outbox ob ls)) = ob" "with_outbox (av_outbox (ls_approvals ls)) ls = ls"
  by (simp_all add: with_outbox_def)

lemma announced:
  assumes "project_minimal_terminal profile lib match_exact enc prot kv since now sn tt = (err, tt')"
    and "ob_events (av_outbox (ls_approvals (tt_links tt'))) \<noteq> ob_events (av_outbox (ls_approvals (tt_links tt)))"
  obtains event where
    "claim_terminal_transition (th_id (sn_thread sn)) (sn_turn_id sn) (canonical_terminal_status (sn_turn_status sn))
       (0 < since \<and> since \<le> th_updated_at (sn_thread sn)) (tt_observations tt) = (Some event, tt_observations tt')"
    "canonical_terminal_status (sn_turn_status sn) \<in> {''completed'', ''failed'', ''interrupted''}"
    "end_key sn \<in> te_key ` set (ob_events (av_outbox (ls_approvals (tt_links tt'))))"
proof -
  let ?st = "canonical_terminal_status (sn_turn_status sn)"
  obtain event obs items rel where claim: "claim_terminal_transition (th_id (sn_thread sn)) (sn_turn_id sn) ?st
        (0 < since \<and> since \<le> th_updated_at (sn_thread sn)) (tt_observations tt) = (Some event, obs)"
      and st: "?st \<in> {''completed'', ''failed'', ''interrupted''}"
      and put: "enqueue_minimal_terminal prot now sn event items rel (tt\<lparr>tt_observations := obs\<rparr>) = (err, tt')"
    using assms
    by (auto simp: project_minimal_terminal_def Let_def claim_minimal_terminal_transition_after_baseline_def
        split: if_split_asm option.split_asm prod.split_asm sum.split_asm)
  obtain res ob where q: "enqueue_terminal_event_with_linked_release prot now event items rel
      (av_outbox (ls_approvals (tt_links tt))) = (res, ob)" by (rule prod.exhaust)
  have new: "ob_events ob \<noteq> ob_events (av_outbox (ls_approvals (tt_links tt)))"
    using put q assms(2) by (cases res) (auto simp: enqueue_minimal_terminal_def)
  then have "res = Inr True" using q by (cases rule: terminal_cases [OF q]) auto
  then have "tt' = tt\<lparr>tt_observations := obs, tt_links := with_outbox ob (tt_links tt)\<rparr>"
    "te_key event \<in> te_key ` set (ob_events ob)"
    using put q stored_event_key [of prot now event items rel "av_outbox (ls_approvals (tt_links tt))" ob]
    by (auto simp: enqueue_minimal_terminal_def)
  moreover have "event = terminal_transition_event (trim_space (th_id (sn_thread sn))) (trim_space (sn_turn_id sn))
      (trim_space (to_lower ?st))"
    using claim by (auto simp: claim_terminal_transition_def Let_def split: if_split_asm)
  ultimately show thesis using claim st by (intro that [of event]) (simp_all add: end_key_def)
qed

text \<open>The end of a turn whose key is stored changes the outbox no more.\<close>

lemma stored_end_silent:
  assumes "end_key sn \<in> te_key ` set (ob_events (av_outbox (ls_approvals (tt_links tt))))"
  shows "tt_links (snd (project_minimal_terminal profile lib match_exact enc prot kv since now sn tt)) = tt_links tt"
proof -
  have put: "tt_links (snd (enqueue_minimal_terminal prot now sn event items rel (tt\<lparr>tt_observations := obs\<rparr>))) = tt_links tt"
    if "te_key event = end_key sn" for event items rel obs
  proof -
    obtain res ob where q: "enqueue_terminal_event_with_linked_release prot now event items rel
        (av_outbox (ls_approvals (tt_links tt))) = (res, ob)" by (rule prod.exhaust)
    then have "ob = av_outbox (ls_approvals (tt_links tt))"
      using known_event_unchanged [of event "av_outbox (ls_approvals (tt_links tt))" prot now items rel] assms that by simp
    then show ?thesis using q by (cases res) (simp_all add: enqueue_minimal_terminal_def)
  qed
  have key: "te_key event = end_key sn"
    if "claim_terminal_transition (th_id (sn_thread sn)) (sn_turn_id sn) (canonical_terminal_status (sn_turn_status sn))
        recent obs = (Some event, obs')" for recent obs event obs'
    using that by (auto simp: claim_terminal_transition_def Let_def end_key_def split: if_split_asm)
  show ?thesis
    by (auto simp: project_minimal_terminal_def Let_def claim_minimal_terminal_transition_after_baseline_def put key
        split: option.split prod.split sum.split)
qed

text \<open>
  C16: An end is announced once. If projecting a snapshot puts an event into the outbox, then
  projecting any snapshot of the same thread and turn next, whatever end it shows and whichever
  project, target or clock it meets, changes nothing and reports no error. And at any later time,
  whatever has been done to the store and however the observations have changed since (other turns of
  the thread may have ended, and the turn may be claimed again), projecting a snapshot that shows the
  same end of the same turn stores no event, no delivery and no release.
\<close>
theorem minimal_end_announced_once:
  assumes "minimal_observation_step\<^sup>*\<^sup>* [] (tt_observations tt)"
    and "project_minimal_terminal profile lib match_exact enc prot kv since now sn tt = (err, tt')"
    and "ob_events (av_outbox (ls_approvals (tt_links tt'))) \<noteq> ob_events (av_outbox (ls_approvals (tt_links tt)))"
    and "th_id (sn_thread sn') = th_id (sn_thread sn)" "sn_turn_id sn' = sn_turn_id sn"
  shows "project_minimal_terminal profile' lib match_exact' enc prot' kv' since' now' sn' tt' = (None, tt') \<and>
    (store_reaches enc p (tt_links tt') (tt_links later) \<longrightarrow>
     canonical_terminal_status (sn_turn_status sn') = canonical_terminal_status (sn_turn_status sn) \<longrightarrow>
     tt_links (snd (project_minimal_terminal profile' lib match_exact' enc prot' kv' since' now' sn' later)) = tt_links later)"
proof -
  let ?st = "canonical_terminal_status (sn_turn_status sn)"
  obtain event where claim: "claim_terminal_transition (th_id (sn_thread sn)) (sn_turn_id sn) ?st
        (0 < since \<and> since \<le> th_updated_at (sn_thread sn)) (tt_observations tt) = (Some event, tt_observations tt')"
      and st: "?st \<in> {''completed'', ''failed'', ''interrupted''}"
      and key: "end_key sn \<in> te_key ` set (ob_events (av_outbox (ls_approvals (tt_links tt'))))"
    by (rule announced [OF assms(2,3)])
  have "claim_terminal_transition (th_id (sn_thread sn)) (sn_turn_id sn) outcome recent (tt_observations tt') =
      (None, tt_observations tt')" for outcome recent
    using terminal_claim_settles [OF assms(1) claim] st ended_words by blast
  then have "project_minimal_terminal profile' lib match_exact' enc prot' kv' since' now' sn' tt' = (None, tt')"
    by (auto simp: project_minimal_terminal_def Let_def claim_minimal_terminal_transition_after_baseline_def assms(4,5)
        split: option.split)
  moreover have "tt_links (snd (project_minimal_terminal profile' lib match_exact' enc prot' kv' since' now' sn' later)) = tt_links later"
    if "store_reaches enc p (tt_links tt') (tt_links later)"
      and "canonical_terminal_status (sn_turn_status sn') = canonical_terminal_status (sn_turn_status sn)"
  proof -
    have "approvals_keep (False, {end_key sn}) (ls_approvals (tt_links tt'))"
      using key by (simp add: approvals_keep_def outbox_keeps_def)
    then have "end_key sn \<in> te_key ` set (ob_events (av_outbox (ls_approvals (tt_links later))))"
      using store_reaches_erased [OF that(1), of "(False, {end_key sn})"] by (simp add: approvals_keep_def outbox_keeps_def)
    moreover have "end_key sn' = end_key sn" using that(2) assms(4,5) by (simp add: end_key_def)
    ultimately show ?thesis by (intro stored_end_silent) simp
  qed
  ultimately show ?thesis by blast
qed

section \<open>A thread is handed back once its worker is gone\<close>

definition process_gone :: "close_outcome \<Rightarrow> bool" where
  "process_gone outcome = (case outcome of ClosedCleanly \<Rightarrow> True | CloseFailed e exited \<Rightarrow> exited)"

lemma by_thread_same [simp]:
  "by_thread t (record_confirmed_release t' g i m) = by_thread t m"
  "by_thread t (forget_confirmed_release t' g m) = by_thread t m"
  by (simp_all add: by_thread_def record_confirmed_release_def forget_confirmed_release_def Let_def split: option.split)

lemma released_thread_free:
  assumes "manager_ok acq m" "release_worker thread g closing m = ((closed, None), m')"
    and "closed \<or> confirmed_release thread g m'"
  shows "by_thread thread m' = None \<and>
    ((\<exists>a m1. begin_release thread g m = Some (a, m1) \<and> process_gone (closing a)) \<or> confirmed_release thread g m)"
proof (cases "begin_release thread g m")
  case None
  then have "m' = m" "\<not> closed" using assms(2) by (simp_all add: release_worker_def)
  then have c: "confirmed_release thread g m" using assms(3) by simp
  then obtain d where "wm_confirmed m (trim_space thread) = Some d"
    by (auto simp: confirmed_release_def split: option.splits)
  then show ?thesis using confirmed_free [OF assms(1)] c \<open>m' = m\<close> by (simp add: by_thread_def Let_def)
next
  case (Some am)
  obtain a m1 where am: "begin_release thread g m = Some (a, m1)" using Some by (cases am) simp
  have ok: "tables_ok m" using assms(1) by (simp add: manager_ok_def)
  have b: "wm_by_thread m (trim_space thread) = Some a" using am by (auto simp: begin_release_def Let_def split: if_splits option.splits)
  have "end_release a (closing a) m1 = (None, m')" using assms(2) am by (simp add: release_worker_def case_prod_beta prod_eq_iff)
  then have gone: "process_gone (closing a)" and "by_thread thread m' = by_thread thread m1"
    by (auto simp: end_release_def Let_def process_gone_def split: close_outcome.splits if_splits)
  moreover have "m1 = remove_worker a m" using begin_release_Some [OF am ok] by simp
  moreover have "lw_thread_id (wm_heap m ! a) = trim_space thread" "trim_space thread \<noteq> []" using tables_okD(2) [OF ok b] by auto
  then have "by_thread thread (remove_worker a m) = None" using b by (simp add: by_thread_def remove_worker_def remove_entry_def Let_def)
  ultimately show ?thesis using am by auto
qed

lemma finished_row:
  assumes "finish_minimal_linked_release_with_ready_delivery prot now linked g session turn released ready ls = (Inr True, ls')"
  shows "\<exists>r\<in>set (ls_linked ls). held_by (trim_space linked) (uint g) linked_release_pending r \<and>
    lt_active_turn_id r = Some (trim_space turn) \<and> released_row released r \<in> set (ls_linked ls')"
proof -
  let ?q = "\<lambda>v r. held_by (trim_space linked) v linked_release_pending r \<and> lt_active_turn_id r = Some (trim_space turn)"
  obtain v where g: "minimal_linked_generation_int64 g = Inr v" using assms
    by (auto simp: finish_minimal_linked_release_with_ready_delivery_def Let_def split: if_split_asm sum.split_asm)
  have "length (filter (?q v) (ls_linked ls)) = 1 \<and> ls_linked ls' = update_rows (?q v) (released_row released) (ls_linked ls)"
    using assms
    by (auto simp: finish_minimal_linked_release_with_ready_delivery_def Let_def update_linked_def g
        session_end_outbox ls_linked_def [symmetric] split: if_split_asm sum.split_asm option.split_asm)
  then have one: "length (filter (?q (uint g)) (ls_linked ls)) = 1"
    and rows: "ls_linked ls' = update_rows (?q (uint g)) (released_row released) (ls_linked ls)"
    using generation_value [OF g] by simp_all
  obtain r where "filter (?q (uint g)) (ls_linked ls) = [r]" using one by (auto simp: length_Suc_conv)
  then have "r \<in> set (filter (?q (uint g)) (ls_linked ls))" by simp
  then have r: "r \<in> set (ls_linked ls)" "?q (uint g) r" by simp_all
  then have "released_row released r \<in> set (ls_linked ls')" unfolding rows set_update_rows by force
  then show ?thesis using r by blast
qed

text \<open>
  C15: A thread is handed back to Codex only when its worker is gone. If the release of a
  linked thread succeeds, its worker was closed with its process gone, now or by an earlier release
  of the same generation; no worker holds the thread any more; and the row that the worker's
  generation held for this turn is ready again, without generation or turn.
\<close>
theorem handed_back_only_when_closed:
  assumes "worker_run nonce n s" "n < 2 ^ 64"
    and "get_minimal_linked_thread_by_linked_id prot (trim_space (th_id (sn_thread sn))) ls = Inr (Some l)"
    and "trim_space (ml_state l) = linked_release_pending" "trim_space (ml_active_turn_id l) = trim_space (sn_turn_id sn)"
    and "trim_space (th_id (sn_thread sn)) \<noteq> []" "trim_space (sn_turn_id sn) \<noteq> []"
    and "release_minimal_terminal_worker ''minimal'' enc prot kv now closing sn (ls, ws_manager s) = (None, ls', m')"
  shows "by_thread (ml_linked_thread_id l) m' = None \<and>
    ((\<exists>a m1. begin_release (ml_linked_thread_id l) (ml_worker_generation l) (ws_manager s) = Some (a, m1) \<and>
        process_gone (closing a)) \<or>
     confirmed_release (ml_linked_thread_id l) (ml_worker_generation l) (ws_manager s)) \<and>
    (\<exists>r\<in>set (ls_linked ls).
        held_by (trim_space (ml_linked_thread_id l)) (uint (ml_worker_generation l)) linked_release_pending r \<and>
        lt_active_turn_id r = Some (trim_space (sn_turn_id sn)) \<and> released_row now r \<in> set (ls_linked ls'))"
proof -
  let ?t = "ml_linked_thread_id l" and ?g = "ml_worker_generation l" and ?m = "ws_manager s"
  have ok: "manager_ok (ws_acquiring s) ?m" using worker_run_ok [OF assms(1,2)] by blast
  obtain closed err m1 where rel: "release_worker ?t ?g closing ?m = ((closed, err), m1)"
    by (cases "release_worker ?t ?g closing ?m") auto
  have err: "err = None" and closed: "closed \<or> confirmed_release ?t ?g m1"
    and fin: "finish_handoff enc prot kv now l (trim_space (sn_turn_id sn)) (released_session ?t ?g ?m m1) (ls, m1) = (None, ls', m')"
    using assms(3-8) rel
    by (auto simp: release_minimal_terminal_worker_def Let_def split: if_split_asm)
  have free: "by_thread ?t m1 = None \<and>
      ((\<exists>a m2. begin_release ?t ?g ?m = Some (a, m2) \<and> process_gone (closing a)) \<or> confirmed_release ?t ?g ?m)"
    using released_thread_free [OF ok rel [unfolded err] closed] .
  have m': "m' = forget_confirmed_release ?t ?g m1"
    and "finish_minimal_linked_release_with_ready_delivery prot now ?t ?g (released_session ?t ?g ?m m1)
      (trim_space (sn_turn_id sn)) now (minimal_handoff_ready_delivery enc kv now l (trim_space (sn_turn_id sn))) ls = (Inr True, ls')"
    using fin by (auto simp: finish_handoff_def Let_def split: prod.split_asm sum.split_asm bool.split_asm)
  from finished_row [OF this(2)] have "\<exists>r\<in>set (ls_linked ls).
        held_by (trim_space ?t) (uint ?g) linked_release_pending r \<and>
        lt_active_turn_id r = Some (trim_space (sn_turn_id sn)) \<and> released_row now r \<in> set (ls_linked ls')" by simp
  with free m' show ?thesis by simp
qed

text \<open>The thread of the worker above, linked and in the middle of its release.\<close>

definition hand_links :: link_store where
  "hand_links =
     snd (begin_minimal_linked_release \<lparr>lr_linked_thread_id = ''t'', lr_turn_id = ''u'', lr_worker_generation = 1\<rparr>
       (snd (mark_minimal_linked_turn_started ''t'' 1 ''u''
         (snd (activate_minimal_linked_thread (Some ask_protector) 0 (fork_link\<lparr>ml_worker_generation := 1\<rparr>) fork_seed
            (fork_child\<lparr>th_id := ''t''\<rparr>) empty_links)))))"

definition hand_snapshot :: snapshot where
  "hand_snapshot = empty_snapshot\<lparr>sn_thread := fork_child\<lparr>th_id := ''t''\<rparr>, sn_turn_id := ''u''\<rparr>"

lemma hand_values:
  "map_sum (\<lambda>_. ()) (map_option (\<lambda>l. (ml_linked_thread_id l, trim_space (ml_state l), trim_space (ml_active_turn_id l))))
     (get_minimal_linked_thread_by_linked_id (Some ask_protector) (trim_space (th_id (sn_thread hand_snapshot))) hand_links) =
   Inr (Some (''t'', linked_release_pending, trim_space (sn_turn_id hand_snapshot)))"
  "trim_space (th_id (sn_thread hand_snapshot)) \<noteq> []" "trim_space (sn_turn_id hand_snapshot) \<noteq> []"
  by code_simp+

lemma hand_returns:
  "fst (release_minimal_terminal_worker ''minimal'' dp_text (Some ask_protector) (\<lambda>_. None) 9 (\<lambda>_. ClosedCleanly) hand_snapshot
     (hand_links, ws_manager one_worker)) = None"
  by code_simp

lemma handed_back_only_when_closed_witness:
  "by_thread ''t'' (snd (snd (release_minimal_terminal_worker ''minimal'' dp_text (Some ask_protector) (\<lambda>_. None) 9
     (\<lambda>_. ClosedCleanly) hand_snapshot (hand_links, ws_manager one_worker)))) = None"
proof -
  obtain l where l: "get_minimal_linked_thread_by_linked_id (Some ask_protector) (trim_space (th_id (sn_thread hand_snapshot)))
        hand_links = Inr (Some l)"
      "ml_linked_thread_id l = ''t''" "trim_space (ml_state l) = linked_release_pending"
      "trim_space (ml_active_turn_id l) = trim_space (sn_turn_id hand_snapshot)"
    using hand_values(1)
    by (cases "get_minimal_linked_thread_by_linked_id (Some ask_protector) (trim_space (th_id (sn_thread hand_snapshot))) hand_links")
      auto
  obtain ls' m' where r: "release_minimal_terminal_worker ''minimal'' dp_text (Some ask_protector) (\<lambda>_. None) 9
      (\<lambda>_. ClosedCleanly) hand_snapshot (hand_links, ws_manager one_worker) = (None, ls', m')"
    using hand_returns by (metis prod.collapse)
  have "(2::nat) < 2 ^ 64" by simp
  from handed_back_only_when_closed [OF one_worker_run this l(1,3,4) hand_values(2,3) r] l(2) r show ?thesis by simp
qed

text \<open>The same thread while its turn runs: the end of the turn begins the release, with nobody to notify.\<close>

definition hand_running :: terminal_tables where
  "hand_running =
     \<lparr>tt_links = snd (mark_minimal_linked_turn_started ''t'' 1 ''u''
         (snd (activate_minimal_linked_thread (Some ask_protector) 0 (fork_link\<lparr>ml_worker_generation := 1\<rparr>) fork_seed
            (fork_child\<lparr>th_id := ''t''\<rparr>) empty_links))),
      tt_observations = seen_once\<rparr>"

definition hand_library :: markdown_library where
  "hand_library = \<lparr>mk_utf16_len = (\<lambda>s. int (length s)),
     mk_convert = (\<lambda>s. \<lparr>rm_text = s, rm_entities = []\<rparr>), mk_split = (\<lambda>m limit. [m])\<rparr>"

definition hand_project :: "snapshot \<Rightarrow> terminal_tables \<Rightarrow> terminal_error option \<times> terminal_tables" where
  "hand_project =
     project_minimal_terminal ''minimal'' hand_library (\<lambda>_. Some \<lparr>pj_id = ''p'', pj_display_name = ''P'', pj_canonical_path = ''/p''\<rparr>)
       dp_text (Some ask_protector) (\<lambda>_. None) 0 9"

lemma hand_announced:
  "length (ob_events (av_outbox (ls_approvals (tt_links hand_running)))) = 0"
  "length (ob_events (av_outbox (ls_approvals (tt_links
     (snd (hand_project (hand_snapshot\<lparr>sn_turn_status := ''completed''\<rparr>) hand_running)))))) = 1"
  by code_simp+

lemma minimal_end_announced_once_witness:
  "hand_project (hand_snapshot\<lparr>sn_turn_status := ''failed''\<rparr>)
      (snd (hand_project (hand_snapshot\<lparr>sn_turn_status := ''completed''\<rparr>) hand_running)) =
   (None, snd (hand_project (hand_snapshot\<lparr>sn_turn_status := ''completed''\<rparr>) hand_running))"
proof -
  let ?sn = "hand_snapshot\<lparr>sn_turn_status := ''completed''\<rparr>"
  obtain err tt where p: "hand_project ?sn hand_running = (err, tt)" by (cases "hand_project ?sn hand_running")
  have reach: "minimal_observation_step\<^sup>*\<^sup>* [] (tt_observations hand_running)"
    using seen_once_reach by (simp add: hand_running_def)
  have new: "ob_events (av_outbox (ls_approvals (tt_links tt))) \<noteq> ob_events (av_outbox (ls_approvals (tt_links hand_running)))"
    using hand_announced p by auto
  from minimal_end_announced_once [OF reach p [unfolded hand_project_def] new,
      where sn' = "hand_snapshot\<lparr>sn_turn_status := ''failed''\<rparr>"]
  show ?thesis using p by (simp add: hand_project_def)
qed

end
