(* ===== verification/Link_Routing.thy ===== *)
theory Link_Routing
  imports Minimal_Terminal Approval_Flow
begin

text \<open>
  Where a reply goes in the minimal profile (\<^verbatim>\<open>internal/daemon/minimal_link_routing.go\<close>, and the
  functions on payloads of \<^verbatim>\<open>minimal_router.go\<close> and \<^verbatim>\<open>minimal_continuation.go\<close>): the turn a reply
  answers is looked up in the thread as the App Server reads it; a reply to a source thread that was
  linked to Telegram goes to the linked thread, unless the source went on after the link was made.
\<close>

section \<open>Texts\<close>

definition text_source_diverged :: string where
  "text_source_diverged = [CHR 0xEC, CHR 0x9B, CHR 0x90, CHR 0xEB, CHR 0xB3, CHR 0xB8, CHR 0x20, CHR 0x43, CHR 0x6F,
     CHR 0x64, CHR 0x65, CHR 0x78, CHR 0x20, CHR 0xEC, CHR 0x9E, CHR 0x91, CHR 0xEC, CHR 0x97,
     CHR 0x85, CHR 0xEC, CHR 0x9D, CHR 0xB4, CHR 0x20, CHR 0xED, CHR 0x85, CHR 0x94, CHR 0xEB,
     CHR 0xA0, CHR 0x88, CHR 0xEA, CHR 0xB7, CHR 0xB8, CHR 0xEB, CHR 0x9E, CHR 0xA8, CHR 0x20,
     CHR 0xEC, CHR 0x97, CHR 0xB0, CHR 0xEB, CHR 0x8F, CHR 0x99, CHR 0x20, CHR 0xEC, CHR 0x9D,
     CHR 0xB4, CHR 0xED, CHR 0x9B, CHR 0x84, CHR 0xEC, CHR 0x97, CHR 0x90, CHR 0x20, CHR 0xEB,
     CHR 0x8D, CHR 0x94, CHR 0x20, CHR 0xEC, CHR 0xA7, CHR 0x84, CHR 0xED, CHR 0x96, CHR 0x89,
     CHR 0xEB, CHR 0x90, CHR 0x98, CHR 0xEC, CHR 0x96, CHR 0xB4, CHR 0x2C, CHR 0x20, CHR 0xEC,
     CHR 0x9D, CHR 0xB4, CHR 0x20, CHR 0xEB, CHR 0x8B, CHR 0xB5, CHR 0xEA, CHR 0xB8, CHR 0x80,
     CHR 0xEC, CHR 0x9D, CHR 0x80, CHR 0x20, CHR 0xEC, CHR 0x9E, CHR 0x90, CHR 0xEB, CHR 0x8F,
     CHR 0x99, CHR 0xEC, CHR 0x9C, CHR 0xBC, CHR 0xEB, CHR 0xA1, CHR 0x9C, CHR 0x20, CHR 0xED,
     CHR 0x95, CHR 0xA9, CHR 0xEC, CHR 0xB9, CHR 0xA0, CHR 0x20, CHR 0xEC, CHR 0x88, CHR 0x98,
     CHR 0x20, CHR 0xEC, CHR 0x97, CHR 0x86, CHR 0xEC, CHR 0x8A, CHR 0xB5, CHR 0xEB, CHR 0x8B,
     CHR 0x88, CHR 0xEB, CHR 0x8B, CHR 0xA4, CHR 0x2E, CHR 0x0A, CHR 0x0A, CHR 0x43, CHR 0x6F,
     CHR 0x64, CHR 0x65, CHR 0x78, CHR 0xEC, CHR 0x97, CHR 0x90, CHR 0xEC, CHR 0x84, CHR 0x9C,
     CHR 0x20, CHR 0xED, CHR 0x85, CHR 0x94, CHR 0xEB, CHR 0xA0, CHR 0x88, CHR 0xEA, CHR 0xB7,
     CHR 0xB8, CHR 0xEB, CHR 0x9E, CHR 0xA8, CHR 0x20, CHR 0xEC, CHR 0x97, CHR 0xB0, CHR 0xEB,
     CHR 0x8F, CHR 0x99, CHR 0x20, CHR 0xEC, CHR 0x9E, CHR 0x91, CHR 0xEC, CHR 0x97, CHR 0x85,
     CHR 0xEC, CHR 0x9D, CHR 0x84, CHR 0x20, CHR 0xEC, CHR 0x97, CHR 0xB4, CHR 0xEC, CHR 0x96,
     CHR 0xB4, CHR 0x20, CHR 0xEC, CHR 0x9D, CHR 0xB4, CHR 0xEC, CHR 0x96, CHR 0xB4, CHR 0xEC,
     CHR 0x84, CHR 0x9C, CHR 0x20, CHR 0xEC, CHR 0x9E, CHR 0x91, CHR 0xEC, CHR 0x97, CHR 0x85,
     CHR 0xED, CHR 0x95, CHR 0x98, CHR 0xEA, CHR 0xB1, CHR 0xB0, CHR 0xEB, CHR 0x82, CHR 0x98,
     CHR 0x2C, CHR 0x20, CHR 0xED, CHR 0x85, CHR 0x94, CHR 0xEB, CHR 0xA0, CHR 0x88, CHR 0xEA,
     CHR 0xB7, CHR 0xB8, CHR 0xEB, CHR 0x9E, CHR 0xA8, CHR 0xEC, CHR 0x97, CHR 0x90, CHR 0xEC,
     CHR 0x84, CHR 0x9C, CHR 0xEB, CHR 0x8A, CHR 0x94, CHR 0x20, CHR 0xEC, CHR 0x97, CHR 0xB0,
     CHR 0xEB, CHR 0x8F, CHR 0x99, CHR 0xEB, CHR 0x90, CHR 0x9C, CHR 0x20, CHR 0xEC, CHR 0x9E,
     CHR 0x91, CHR 0xEC, CHR 0x97, CHR 0x85, CHR 0x20, CHR 0xEC, CHR 0x95, CHR 0x8C, CHR 0xEB,
     CHR 0xA6, CHR 0xBC, CHR 0xEC, CHR 0x97, CHR 0x90, CHR 0x20, CHR 0xEB, CHR 0x8B, CHR 0xB5,
     CHR 0xEC, CHR 0x9E, CHR 0xA5, CHR 0xED, CHR 0x95, CHR 0xB4, CHR 0x20, CHR 0xEC, CHR 0xA3,
     CHR 0xBC, CHR 0xEC, CHR 0x84, CHR 0xB8, CHR 0xEC, CHR 0x9A, CHR 0x94, CHR 0x2E]"

definition text_source_unavailable :: string where
  "text_source_unavailable = [CHR 0xEC, CHR 0x9B, CHR 0x90, CHR 0xEB, CHR 0xB3, CHR 0xB8, CHR 0x20, CHR 0x43, CHR 0x6F,
     CHR 0x64, CHR 0x65, CHR 0x78, CHR 0x20, CHR 0xEC, CHR 0x9E, CHR 0x91, CHR 0xEC, CHR 0x97,
     CHR 0x85, CHR 0xEC, CHR 0x9D, CHR 0x98, CHR 0x20, CHR 0xEA, CHR 0xB8, CHR 0xB0, CHR 0xEC,
     CHR 0xA4, CHR 0x80, CHR 0x20, CHR 0xEB, CHR 0x8B, CHR 0xB5, CHR 0xEB, CHR 0xB3, CHR 0x80,
     CHR 0xEC, CHR 0x9D, CHR 0x84, CHR 0x20, CHR 0xED, CHR 0x99, CHR 0x95, CHR 0xEC, CHR 0x9D,
     CHR 0xB8, CHR 0xED, CHR 0x95, CHR 0xA0, CHR 0x20, CHR 0xEC, CHR 0x88, CHR 0x98, CHR 0x20,
     CHR 0xEC, CHR 0x97, CHR 0x86, CHR 0xEC, CHR 0x96, CHR 0xB4, CHR 0x2C, CHR 0x20, CHR 0xEC,
     CHR 0x9D, CHR 0xB4, CHR 0x20, CHR 0xEB, CHR 0x8B, CHR 0xB5, CHR 0xEA, CHR 0xB8, CHR 0x80,
     CHR 0xEC, CHR 0x9D, CHR 0x80, CHR 0x20, CHR 0xEC, CHR 0x95, CHR 0x88, CHR 0xEC, CHR 0xA0,
     CHR 0x84, CHR 0xED, CHR 0x95, CHR 0x98, CHR 0xEA, CHR 0xB2, CHR 0x8C, CHR 0x20, CHR 0xEC,
     CHR 0x9D, CHR 0xB4, CHR 0xEC, CHR 0x96, CHR 0xB4, CHR 0xEA, CHR 0xB0, CHR 0x88, CHR 0x20,
     CHR 0xEC, CHR 0x88, CHR 0x98, CHR 0x20, CHR 0xEC, CHR 0x97, CHR 0x86, CHR 0xEC, CHR 0x8A,
     CHR 0xB5, CHR 0xEB, CHR 0x8B, CHR 0x88, CHR 0xEB, CHR 0x8B, CHR 0xA4, CHR 0x2E, CHR 0x0A,
     CHR 0x0A, CHR 0x43, CHR 0x6F, CHR 0x64, CHR 0x65, CHR 0x78, CHR 0xEC, CHR 0x97, CHR 0x90,
     CHR 0xEC, CHR 0x84, CHR 0x9C, CHR 0x20, CHR 0xED, CHR 0x85, CHR 0x94, CHR 0xEB, CHR 0xA0,
     CHR 0x88, CHR 0xEA, CHR 0xB7, CHR 0xB8, CHR 0xEB, CHR 0x9E, CHR 0xA8, CHR 0x20, CHR 0xEC,
     CHR 0x97, CHR 0xB0, CHR 0xEB, CHR 0x8F, CHR 0x99, CHR 0x20, CHR 0xEC, CHR 0x9E, CHR 0x91,
     CHR 0xEC, CHR 0x97, CHR 0x85, CHR 0xEC, CHR 0x9D, CHR 0x84, CHR 0x20, CHR 0xEC, CHR 0x97,
     CHR 0xB4, CHR 0xEC, CHR 0x96, CHR 0xB4, CHR 0x20, CHR 0xEC, CHR 0x9D, CHR 0xB4, CHR 0xEC,
     CHR 0x96, CHR 0xB4, CHR 0xEC, CHR 0x84, CHR 0x9C, CHR 0x20, CHR 0xEC, CHR 0x9E, CHR 0x91,
     CHR 0xEC, CHR 0x97, CHR 0x85, CHR 0xED, CHR 0x95, CHR 0x98, CHR 0xEA, CHR 0xB1, CHR 0xB0,
     CHR 0xEB, CHR 0x82, CHR 0x98, CHR 0x2C, CHR 0x20, CHR 0xED, CHR 0x85, CHR 0x94, CHR 0xEB,
     CHR 0xA0, CHR 0x88, CHR 0xEA, CHR 0xB7, CHR 0xB8, CHR 0xEB, CHR 0x9E, CHR 0xA8, CHR 0xEC,
     CHR 0x97, CHR 0x90, CHR 0xEC, CHR 0x84, CHR 0x9C, CHR 0xEB, CHR 0x8A, CHR 0x94, CHR 0x20,
     CHR 0xEC, CHR 0x97, CHR 0xB0, CHR 0xEB, CHR 0x8F, CHR 0x99, CHR 0xEB, CHR 0x90, CHR 0x9C,
     CHR 0x20, CHR 0xEC, CHR 0x9E, CHR 0x91, CHR 0xEC, CHR 0x97, CHR 0x85, CHR 0x20, CHR 0xEC,
     CHR 0x95, CHR 0x8C, CHR 0xEB, CHR 0xA6, CHR 0xBC, CHR 0xEC, CHR 0x97, CHR 0x90, CHR 0x20,
     CHR 0xEB, CHR 0x8B, CHR 0xB5, CHR 0xEC, CHR 0x9E, CHR 0xA5, CHR 0xED, CHR 0x95, CHR 0xB4,
     CHR 0x20, CHR 0xEC, CHR 0xA3, CHR 0xBC, CHR 0xEC, CHR 0x84, CHR 0xB8, CHR 0xEC, CHR 0x9A,
     CHR 0x94, CHR 0x2E]"

definition text_fork_notice :: string where
  "text_fork_notice = [CHR 0x50, CHR 0x43, CHR 0x20, CHR 0x43, CHR 0x6F, CHR 0x64, CHR 0x65, CHR 0x78, CHR 0xEA,
     CHR 0xB0, CHR 0x80, CHR 0x20, CHR 0xEC, CHR 0x9B, CHR 0x90, CHR 0xEB, CHR 0xB3, CHR 0xB8,
     CHR 0x20, CHR 0xEB, CHR 0x8C, CHR 0x80, CHR 0xED, CHR 0x99, CHR 0x94, CHR 0xEB, CHR 0xA5,
     CHR 0xBC, CHR 0x20, CHR 0xEC, CHR 0x82, CHR 0xAC, CHR 0xEC, CHR 0x9A, CHR 0xA9, CHR 0x20,
     CHR 0xEC, CHR 0xA4, CHR 0x91, CHR 0xEC, CHR 0x9D, CHR 0xB4, CHR 0xEC, CHR 0x96, CHR 0xB4,
     CHR 0xEC, CHR 0x84, CHR 0x9C, CHR 0x2C, CHR 0x20, CHR 0xEB, CHR 0x8B, CHR 0xB5, CHR 0xEB,
     CHR 0xB3, CHR 0x80, CHR 0x20, CHR 0xEC, CHR 0x8B, CHR 0x9C, CHR 0xEC, CHR 0xA0, CHR 0x90,
     CHR 0xEC, CHR 0x9D, CHR 0x98, CHR 0x20, CHR 0xEB, CHR 0xAC, CHR 0xB8, CHR 0xEB, CHR 0xA7,
     CHR 0xA5, CHR 0xEC, CHR 0x9D, CHR 0x84, CHR 0x20, CHR 0xEC, CHR 0x9D, CHR 0xB4, CHR 0xEC,
     CHR 0x96, CHR 0xB4, CHR 0xEB, CHR 0xB0, CHR 0x9B, CHR 0xEC, CHR 0x9D, CHR 0x80, CHR 0x20,
     CHR 0xEC, CHR 0x83, CHR 0x88, CHR 0x20, CHR 0xEB, CHR 0x8C, CHR 0x80, CHR 0xED, CHR 0x99,
     CHR 0x94, CHR 0xEC, CHR 0x97, CHR 0x90, CHR 0xEC, CHR 0x84, CHR 0x9C, CHR 0x20, CHR 0xEC,
     CHR 0x9E, CHR 0x91, CHR 0xEC, CHR 0x97, CHR 0x85, CHR 0xEC, CHR 0x9D, CHR 0x84, CHR 0x20,
     CHR 0xEC, CHR 0x8B, CHR 0x9C, CHR 0xEC, CHR 0x9E, CHR 0x91, CHR 0xED, CHR 0x96, CHR 0x88,
     CHR 0xEC, CHR 0x8A, CHR 0xB5, CHR 0xEB, CHR 0x8B, CHR 0x88, CHR 0xEB, CHR 0x8B, CHR 0xA4,
     CHR 0x2E]"

definition text_queue_notice :: string where
  "text_queue_notice = [CHR 0xED, CHR 0x98, CHR 0x84, CHR 0xEC, CHR 0x9E, CHR 0xAC, CHR 0x20, CHR 0x50, CHR 0x43,
     CHR 0x20, CHR 0x43, CHR 0x6F, CHR 0x64, CHR 0x65, CHR 0x78, CHR 0xEA, CHR 0xB0, CHR 0x80,
     CHR 0x20, CHR 0xEB, CHR 0xB6, CHR 0x84, CHR 0xEC, CHR 0x84, CHR 0x9D, CHR 0x20, CHR 0xEC,
     CHR 0xA4, CHR 0x91, CHR 0xEC, CHR 0x9E, CHR 0x85, CHR 0xEB, CHR 0x8B, CHR 0x88, CHR 0xEB,
     CHR 0x8B, CHR 0xA4, CHR 0x2E, CHR 0x20, CHR 0xEC, CHR 0x9D, CHR 0xB4, CHR 0x20, CHR 0xEC,
     CHR 0x9E, CHR 0x91, CHR 0xEC, CHR 0x97, CHR 0x85, CHR 0xEC, CHR 0x9D, CHR 0xB4, CHR 0x20,
     CHR 0xEB, CHR 0x81, CHR 0x9D, CHR 0xEB, CHR 0x82, CHR 0x98, CHR 0xEB, CHR 0xA9, CHR 0xB4,
     CHR 0x20, CHR 0xEA, CHR 0xB0, CHR 0x99, CHR 0xEC, CHR 0x9D, CHR 0x80, CHR 0x20, CHR 0xEB,
     CHR 0xAC, CHR 0xB8, CHR 0xEB, CHR 0xA7, CHR 0xA5, CHR 0xEC, CHR 0x9D, CHR 0x84, CHR 0x20,
     CHR 0xEC, CHR 0x9D, CHR 0xB4, CHR 0xEC, CHR 0x96, CHR 0xB4, CHR 0xEB, CHR 0xB0, CHR 0x9B,
     CHR 0xEC, CHR 0x95, CHR 0x84, CHR 0x20, CHR 0xEC, CHR 0x8B, CHR 0xA4, CHR 0xED, CHR 0x96,
     CHR 0x89, CHR 0xED, CHR 0x95, CHR 0xA9, CHR 0xEB, CHR 0x8B, CHR 0x88, CHR 0xEB, CHR 0x8B,
     CHR 0xA4, CHR 0x2E]"

definition text_fork_failure :: string where
  "text_fork_failure = [CHR 0x50, CHR 0x43, CHR 0x20, CHR 0xEB, CHR 0x8C, CHR 0x80, CHR 0xED, CHR 0x99, CHR 0x94,
     CHR 0xEB, CHR 0xA5, CHR 0xBC, CHR 0x20, CHR 0xEC, CHR 0xA7, CHR 0x81, CHR 0xEC, CHR 0xA0,
     CHR 0x91, CHR 0x20, CHR 0xEC, CHR 0x9D, CHR 0xB4, CHR 0xEC, CHR 0x96, CHR 0xB4, CHR 0xEA,
     CHR 0xB0, CHR 0x88, CHR 0x20, CHR 0xEC, CHR 0x88, CHR 0x98, CHR 0x20, CHR 0xEC, CHR 0x97,
     CHR 0x86, CHR 0xEC, CHR 0x97, CHR 0x88, CHR 0xEA, CHR 0xB3, CHR 0xA0, CHR 0x2C, CHR 0x20,
     CHR 0xEB, CHR 0xAC, CHR 0xB8, CHR 0xEB, CHR 0xA7, CHR 0xA5, CHR 0xEC, CHR 0x9D, CHR 0x84,
     CHR 0x20, CHR 0xEC, CHR 0x9D, CHR 0xB4, CHR 0xEC, CHR 0x96, CHR 0xB4, CHR 0xEB, CHR 0xB0,
     CHR 0x9B, CHR 0xEB, CHR 0x8A, CHR 0x94, CHR 0x20, CHR 0xEC, CHR 0x83, CHR 0x88, CHR 0x20,
     CHR 0xEB, CHR 0x8C, CHR 0x80, CHR 0xED, CHR 0x99, CHR 0x94, CHR 0x20, CHR 0xEC, CHR 0x83,
     CHR 0x9D, CHR 0xEC, CHR 0x84, CHR 0xB1, CHR 0xEB, CHR 0x8F, CHR 0x84, CHR 0x20, CHR 0xEC,
     CHR 0x8B, CHR 0xA4, CHR 0xED, CHR 0x8C, CHR 0xA8, CHR 0xED, CHR 0x96, CHR 0x88, CHR 0xEC,
     CHR 0x8A, CHR 0xB5, CHR 0xEB, CHR 0x8B, CHR 0x88, CHR 0xEB, CHR 0x8B, CHR 0xA4, CHR 0x2E,
     CHR 0x20, CHR 0xEB, CHR 0x8B, CHR 0xA4, CHR 0xEC, CHR 0x8B, CHR 0x9C, CHR 0x20, CHR 0xEC,
     CHR 0x8B, CHR 0x9C, CHR 0xEB, CHR 0x8F, CHR 0x84, CHR 0xED, CHR 0x95, CHR 0x98, CHR 0xEA,
     CHR 0xB1, CHR 0xB0, CHR 0xEB, CHR 0x82, CHR 0x98, CHR 0x20, CHR 0x2F, CHR 0x73, CHR 0x74,
     CHR 0x61, CHR 0x74, CHR 0x75, CHR 0x73, CHR 0xEB, CHR 0xA5, CHR 0xBC, CHR 0x20, CHR 0xED,
     CHR 0x99, CHR 0x95, CHR 0xEC, CHR 0x9D, CHR 0xB8, CHR 0xED, CHR 0x95, CHR 0xB4, CHR 0xEC,
     CHR 0xA3, CHR 0xBC, CHR 0xEC, CHR 0x84, CHR 0xB8, CHR 0xEC, CHR 0x9A, CHR 0x94, CHR 0x2E]"

definition linked_title_suffix :: string where
  "linked_title_suffix = [CHR 0x20, CHR 0xC2, CHR 0xB7, CHR 0x20, CHR 0xED, CHR 0x85, CHR 0x94, CHR 0xEB, CHR 0xA0,
     CHR 0x88, CHR 0xEA, CHR 0xB7, CHR 0xB8, CHR 0xEB, CHR 0x9E, CHR 0xA8, CHR 0x20, CHR 0xEC,
     CHR 0x97, CHR 0xB0, CHR 0xEB, CHR 0x8F, CHR 0x99]"

definition text_source_label :: string where
  "text_source_label = [CHR 0x0A, CHR 0x0A, CHR 0xEC, CHR 0x9B, CHR 0x90, CHR 0xEB, CHR 0xB3, CHR 0xB8, CHR 0x3A,
     CHR 0x20]"

definition text_child_label :: string where
  "text_child_label = [CHR 0x20, CHR 0xC2, CHR 0xB7, CHR 0x20, CHR 0xEC, CHR 0x9D, CHR 0xB4, CHR 0xEC, CHR 0x96,
     CHR 0xB4, CHR 0xEB, CHR 0xB0, CHR 0x9B, CHR 0xEC, CHR 0x9D, CHR 0x80, CHR 0x20, CHR 0xEB,
     CHR 0x8C, CHR 0x80, CHR 0xED, CHR 0x99, CHR 0x94, CHR 0x3A, CHR 0x20]"

definition text_linked_title :: string where
  "text_linked_title = [CHR 0xED, CHR 0x85, CHR 0x94, CHR 0xEB, CHR 0xA0, CHR 0x88, CHR 0xEA, CHR 0xB7, CHR 0xB8,
     CHR 0xEB, CHR 0x9E, CHR 0xA8, CHR 0x20, CHR 0xEC, CHR 0x97, CHR 0xB0, CHR 0xEB, CHR 0x8F,
     CHR 0x99]"

definition text_owned_before :: string where
  "text_owned_before = [CHR 0x43, CHR 0x6F, CHR 0x64, CHR 0x65, CHR 0x78, CHR 0xEC, CHR 0x97, CHR 0x90, CHR 0xEC,
     CHR 0x84, CHR 0x9C, CHR 0x20, CHR 0xE2, CHR 0x80, CHR 0x9C]"

definition text_owned_after :: string where
  "text_owned_after = [CHR 0xE2, CHR 0x80, CHR 0x9D, CHR 0x20, CHR 0xEC, CHR 0x9E, CHR 0x91, CHR 0xEC, CHR 0x97,
     CHR 0x85, CHR 0xEC, CHR 0x9D, CHR 0x84, CHR 0x20, CHR 0xEB, CHR 0x8B, CHR 0xAB, CHR 0xEC,
     CHR 0x9D, CHR 0x80, CHR 0x20, CHR 0xED, CHR 0x9B, CHR 0x84, CHR 0x20, CHR 0xEB, CHR 0x8B,
     CHR 0xA4, CHR 0xEC, CHR 0x8B, CHR 0x9C, CHR 0x20, CHR 0xEC, CHR 0x8B, CHR 0x9C, CHR 0xEB,
     CHR 0x8F, CHR 0x84, CHR 0xED, CHR 0x95, CHR 0xB4, CHR 0xEC, CHR 0xA3, CHR 0xBC, CHR 0xEC,
     CHR 0x84, CHR 0xB8, CHR 0xEC, CHR 0x9A, CHR 0x94, CHR 0x2E, CHR 0x20, CHR 0xEA, CHR 0xB3,
     CHR 0x84, CHR 0xEC, CHR 0x86, CHR 0x8D, CHR 0x20, CHR 0xEC, CHR 0x9E, CHR 0xA0, CHR 0xEA,
     CHR 0xB2, CHR 0xA8, CHR 0x20, CHR 0xEC, CHR 0x9E, CHR 0x88, CHR 0xEC, CHR 0x9C, CHR 0xBC,
     CHR 0xEB, CHR 0xA9, CHR 0xB4, CHR 0x20, CHR 0x43, CHR 0x6F, CHR 0x64, CHR 0x65, CHR 0x78,
     CHR 0x20, CHR 0xEC, CHR 0x95, CHR 0xB1, CHR 0xEC, CHR 0x9D, CHR 0x84, CHR 0x20, CHR 0xEC,
     CHR 0xA2, CHR 0x85, CHR 0xEB, CHR 0xA3, CHR 0x8C, CHR 0xED, CHR 0x95, CHR 0x9C, CHR 0x20,
     CHR 0xEB, CHR 0x92, CHR 0xA4, CHR 0x20, CHR 0xEB, CHR 0x8B, CHR 0xA4, CHR 0xEC, CHR 0x8B,
     CHR 0x9C, CHR 0x20, CHR 0xEC, CHR 0x8B, CHR 0x9C, CHR 0xEB, CHR 0x8F, CHR 0x84, CHR 0xED,
     CHR 0x95, CHR 0xB4, CHR 0xEC, CHR 0xA3, CHR 0xBC, CHR 0xEC, CHR 0x84, CHR 0xB8, CHR 0xEC,
     CHR 0x9A, CHR 0x94, CHR 0x2E]"

section \<open>The order of turns\<close>

text \<open>
  \<^verbatim>\<open>collectMinimalTurnPositions\<close> numbers the turns of a payload in the order it meets them. The model
  returns their ids in that order, so that the positions of an id are its indices; a map that is
  absent is empty.
\<close>

definition object_keys :: "jmap \<Rightarrow> string list" where
  "object_keys m = sort (remdups (map fst m))"

lemma size_object_member:
  "map_of m k = Some v \<Longrightarrow> size v \<le> size_list (size_prod (\<lambda>_. 0) size) m"
  by (induction m) (auto split: if_splits)

lemma size_object_value: "k \<in> set (object_keys m) \<Longrightarrow> size (jget m k) \<le> size_list (size_prod (\<lambda>_. 0) size) m"
proof -
  assume "k \<in> set (object_keys m)"
  then obtain v where "map_of m k = Some v" by (cases "map_of m k") (auto simp: object_keys_def map_of_eq_None_iff)
  then show ?thesis using size_object_member by (simp add: jget_def)
qed

definition record_minimal_turn :: "jmap \<Rightarrow> string list" where
  "record_minimal_turn turn = (let i = trim_space (payload_string (jget turn ''id'')) in if i = [] then [] else [i])"

function collect_minimal_turns :: "json \<Rightarrow> string list" and collect_minimal_turn_array :: "json \<Rightarrow> string list" where
  "collect_minimal_turns (JObj m) =
     (case map_of m ''turns'' of None \<Rightarrow> [] | Some turns \<Rightarrow> collect_minimal_turn_array turns) @
     concat (map (\<lambda>k. collect_minimal_turns (jget m k)) (filter (\<lambda>k. k \<noteq> ''turns'') (object_keys m)))"
| "collect_minimal_turns (JArr xs) = concat (map collect_minimal_turns xs)"
| "collect_minimal_turns JNull = []"
| "collect_minimal_turns (JBool b) = []"
| "collect_minimal_turns (JNum n) = []"
| "collect_minimal_turns (JStr s) = []"
| "collect_minimal_turn_array (JArr xs) =
     concat (map (\<lambda>x. record_minimal_turn (as_map x) @ (if x = JObj (as_map x) then collect_minimal_turns x else [])) xs)"
| "collect_minimal_turn_array (JObj m) = []"
| "collect_minimal_turn_array JNull = []"
| "collect_minimal_turn_array (JBool b) = []"
| "collect_minimal_turn_array (JNum n) = []"
| "collect_minimal_turn_array (JStr s) = []"
  by pat_completeness auto
termination
  by (relation "measure (\<lambda>x. case x of Inl v \<Rightarrow> size v | Inr v \<Rightarrow> size v)")
    (auto simp: size_object_value size_object_member less_Suc_eq_le size_list_estimation')

definition turn_positions :: "string \<Rightarrow> string list \<Rightarrow> nat list" where
  "turn_positions i ids = filter (\<lambda>n. ids ! n = i) [0..<length ids]"

datatype turn_relation = AtOrBefore | After

text \<open>\<^verbatim>\<open>None\<close> is the error that the source turn is unavailable.\<close>

definition minimal_source_turn_relation :: "jmap \<Rightarrow> string \<Rightarrow> string \<Rightarrow> turn_relation option" where
  "minimal_source_turn_relation payload anchor0 routed0 =
     (let anchor = trim_space anchor0; routed = trim_space routed0;
          nested = as_map (jget payload ''thread'');
          ids = collect_minimal_turns (JObj (if nested = [] then payload else nested))
      in if anchor = [] \<or> routed = [] then None
         else case (turn_positions anchor ids, turn_positions routed ids) of
                ([a], [r]) \<Rightarrow> Some (if r \<le> a then AtOrBefore else After)
              | _ \<Rightarrow> None)"

section \<open>The linked thread of a reply\<close>

datatype route_error = SourceTurnUnavailable | SourceTurnInProgress | SourceDiverged | RouteStore link_error

record route_decision =
  rd_thread_id :: string
  rd_source_thread_id :: string
  rd_source_turn_id :: string
  rd_divergent :: bool

definition linked_in_chat :: "int \<Rightarrow> int \<Rightarrow> linked_thread \<Rightarrow> bool" where
  "linked_in_chat chat topic l \<longleftrightarrow> ml_chat_id l = chat \<and> ml_topic_id l = topic"

definition resolve_minimal_linked_route ::
  "protector option \<Rightarrow> int \<Rightarrow> int \<Rightarrow> string \<Rightarrow> string \<Rightarrow> jmap \<Rightarrow> link_store \<Rightarrow> route_error option \<times> route_decision" where
  "resolve_minimal_linked_route prot chat topic thread0 turn0 payload ls =
     (let thread = trim_space thread0; turn = trim_space turn0;
          d = \<lparr>rd_thread_id = thread, rd_source_thread_id = thread, rd_source_turn_id = turn, rd_divergent = False\<rparr>;
          of_source =
            (case get_minimal_linked_thread prot chat topic thread ls of
               Inl e \<Rightarrow> (Some (RouteStore e), d)
             | Inr None \<Rightarrow> (None, d)
             | Inr (Some l) \<Rightarrow>
                 if trim_space (ml_linked_thread_id l) = [] then (None, d)
                 else (let d' = d\<lparr>rd_thread_id := trim_space (ml_linked_thread_id l),
                               rd_source_thread_id := trim_space (ml_source_thread_id l),
                               rd_source_turn_id := trim_space (ml_source_anchor_turn_id l)\<rparr>
                       in case minimal_source_turn_relation payload (ml_source_anchor_turn_id l) turn of
                            None \<Rightarrow> (Some SourceTurnUnavailable, d')
                          | Some After \<Rightarrow> (Some SourceDiverged, d'\<lparr>rd_divergent := True\<rparr>)
                          | Some AtOrBefore \<Rightarrow> (None, d')))
      in if thread = [] then (None, d)
         else case get_minimal_linked_thread_by_linked_id prot thread ls of
                Inl e \<Rightarrow> (Some (RouteStore e), d)
              | Inr (Some l) \<Rightarrow>
                  if linked_in_chat chat topic l
                  then (None, d\<lparr>rd_source_thread_id := trim_space (ml_source_thread_id l)\<rparr>)
                  else of_source
              | Inr None \<Rightarrow> of_source)"

definition minimal_route_may_have_canonical_link ::
  "protector option \<Rightarrow> int \<Rightarrow> int \<Rightarrow> string \<Rightarrow> link_store \<Rightarrow> (link_error, bool) result" where
  "minimal_route_may_have_canonical_link prot chat topic thread0 ls =
     (let thread = trim_space thread0;
          of_source = (case get_minimal_linked_thread prot chat topic thread ls of
                         Inl e \<Rightarrow> Inl e
                       | Inr None \<Rightarrow> Inr False
                       | Inr (Some l) \<Rightarrow> Inr (trim_space (ml_linked_thread_id l) \<noteq> []))
      in if thread = [] then Inr False
         else case get_minimal_linked_thread_by_linked_id prot thread ls of
                Inl e \<Rightarrow> Inl e
              | Inr (Some l) \<Rightarrow> if linked_in_chat chat topic l then Inr True else of_source
              | Inr None \<Rightarrow> of_source)"

section \<open>The turn a reply answers\<close>

text \<open>A payload from the owner's own Codex: a desktop, editor or command-line client.\<close>

definition pc_client :: "string \<Rightarrow> bool" where
  "pc_client v \<longleftrightarrow> contains v ''desktop'' \<or> contains v ''vscode'' \<or> v = ''cli'' \<or> v = ''exec''"

definition payload_looks_pc_origin :: "jmap \<Rightarrow> bool" where
  "payload_looks_pc_origin payload \<longleftrightarrow>
     payload \<noteq> [] \<and>
     (list_ex (\<lambda>k. let v = to_lower (trim_space (payload_string (jget payload k)))
                   in v \<noteq> [] \<and> (pc_client v \<or> contains v ''codex cli'')) [''source'', ''originator''] \<or>
      (let source = as_map (jget payload ''source'')
       in source \<noteq> [] \<and>
          list_ex (\<lambda>k. pc_client (to_lower (trim_space (payload_string (jget source k)))))
            [''type'', ''name'', ''originator'']))"

definition payload_looks_pc_origin_payload :: "jmap \<Rightarrow> bool" where
  "payload_looks_pc_origin_payload payload \<longleftrightarrow>
     payload_looks_pc_origin payload \<or> payload_looks_pc_origin (as_map (jget payload ''thread''))"

definition pc_origin_prefix :: string where "pc_origin_prefix = ''minimal_pc_origin_thread.''"

definition mark_pc_origin_thread_from_payload :: "string \<Rightarrow> jmap \<Rightarrow> kv_table \<Rightarrow> kv_table" where
  "mark_pc_origin_thread_from_payload thread0 payload kv =
     (let thread = trim_space thread0
      in if thread = [] \<or> \<not> payload_looks_pc_origin_payload payload then kv
         else set_state kv (pc_origin_prefix @ thread) ''1'')"

definition is_pc_origin_thread :: "string \<Rightarrow> kv_table \<Rightarrow> bool" where
  "is_pc_origin_thread thread0 kv \<longleftrightarrow>
     (let thread = trim_space thread0
      in thread \<noteq> [] \<and> trim_space (get_state kv (pc_origin_prefix @ thread)) = ''1'')"

definition can_resume_minimal_thread_from_background :: "string \<Rightarrow> link_store \<Rightarrow> bool" where
  "can_resume_minimal_thread_from_background thread0 ls \<longleftrightarrow>
     trim_space thread0 \<noteq> [] \<and> active_minimal_continuation_by_fork (trim_space thread0) ls \<noteq> None"

record source_anchor =
  sa_thread_id :: string
  sa_turn_id :: string
  sa_status :: string
  sa_pc_origin :: bool

definition minimal_source_turn_status :: "json \<Rightarrow> string" where
  "minimal_source_turn_status v =
     (case v of
        JObj m \<Rightarrow> canonical_terminal_status (payload_map_string m ''type'')
      | _ \<Rightarrow> canonical_terminal_status (payload_string v))"

text \<open>The loop from the latest turn back: the requested turn, or the latest one that has ended.\<close>

fun find_source_turn :: "string \<Rightarrow> json list \<Rightarrow> (route_error, string \<times> string) result" where
  "find_source_turn requested [] = Inl SourceTurnUnavailable"
| "find_source_turn requested (t # ts) =
     (let turn = as_map t;
          i = trim_space (payload_string (jget turn ''id''));
          st = minimal_source_turn_status (jget turn ''status'')
      in if requested = [] \<and> is_terminal_status st
         then if i = [] then Inl SourceTurnUnavailable else Inr (i, st)
         else if i \<noteq> [] \<and> i = requested
         then if \<not> is_terminal_status st then Inl SourceTurnInProgress else Inr (i, st)
         else find_source_turn requested ts)"

definition resolve_source_anchor :: "jmap \<Rightarrow> string \<Rightarrow> (route_error, source_anchor) result" where
  "resolve_source_anchor payload requested =
     (let nested = (case jget payload ''thread'' of JObj m \<Rightarrow> m | _ \<Rightarrow> payload)
      in map_sum id
           (\<lambda>(i, st). \<lparr>sa_thread_id = th_id (thread_from_payload payload), sa_turn_id = i, sa_status = st,
                       sa_pc_origin = payload_looks_pc_origin_payload payload\<rparr>)
           (find_source_turn (trim_space requested) (rev (as_list (jget nested ''turns'')))))"

definition should_use_continuation_for_source :: "kv_table \<Rightarrow> thread \<Rightarrow> source_anchor \<Rightarrow> bool" where
  "should_use_continuation_for_source kv parent anchor \<longleftrightarrow>
     (let source0 = trim_space (sa_thread_id anchor);
          source = (if source0 = [] then trim_space (th_id parent) else source0)
      in source = trim_space (th_id parent) \<and> trim_space (sa_turn_id anchor) \<noteq> [] \<and>
         is_terminal_status (sa_status anchor) \<and> (sa_pc_origin anchor \<or> is_pc_origin_thread source kv))"

section \<open>Titles and answers\<close>

definition source_id_for_linked :: "thread \<Rightarrow> source_anchor \<Rightarrow> string" where
  "source_id_for_linked parent anchor =
     (let source = trim_space (sa_thread_id anchor) in if source = [] then trim_space (th_id parent) else source)"

text \<open>\<^verbatim>\<open>strings.Map\<close> also replaces the bytes that are no UTF-8.\<close>

definition safe_continuation_source_title :: "thread \<Rightarrow> string" where
  "safe_continuation_source_title parent =
     (let title0 = trim_space (th_title parent);
          title1 = (if title0 = [] \<or> title0 = th_id parent then short_id parent else title0);
          title2 = of_runes (map (\<lambda>r. if r = 13 \<or> r = 10 \<or> r = 9 then 32 else r) (runes title1));
          title = join '' '' (Go_Strings.fields title2);
          rs = runes title
      in if 64 < length rs then trim_space (of_runes (take 64 rs)) else title)"

definition has_meaningful_minimal_thread_title :: "thread \<Rightarrow> bool" where
  "has_meaningful_minimal_thread_title t \<longleftrightarrow>
     (let title = trim_space (th_title t) in title \<noteq> [] \<and> title \<noteq> trim_space (th_id t))"

definition short_log_id :: "string \<Rightarrow> string" where
  "short_log_id v = take 8 (trim_space v)"

definition continuation_fork_response_text :: "string \<Rightarrow> string \<Rightarrow> string" where
  "continuation_fork_response_text parent child =
     text_fork_notice @ text_source_label @ short_log_id parent @ text_child_label @ short_log_id child"

definition minimal_linked_owned_by_codex_response_text :: "string \<Rightarrow> string" where
  "minimal_linked_owned_by_codex_response_text title0 =
     (let title = trim_space title0
      in text_owned_before @ (if title = [] then text_linked_title else title) @ text_owned_after)"

definition minimal_linked_thread_for_start ::
  "int \<Rightarrow> int \<Rightarrow> thread \<Rightarrow> project \<Rightarrow> source_anchor \<Rightarrow> string \<Rightarrow> 64 word \<Rightarrow> linked_thread" where
  "minimal_linked_thread_for_start chat topic parent project anchor linked generation =
     (let title0 = safe_continuation_source_title parent;
          title = (if title0 = [] then ''Telegram reply'' else title0)
      in \<lparr>ml_chat_key = chat_key chat topic, ml_chat_id = chat, ml_topic_id = topic, ml_project_id = pj_id project,
          ml_source_thread_id = source_id_for_linked parent anchor, ml_linked_thread_id = trim_space linked,
          ml_source_anchor_turn_id = trim_space (sa_turn_id anchor), ml_source_title = title,
          ml_desired_title = title @ linked_title_suffix, ml_title_state = title_pending,
          ml_state = linked_running, ml_active_turn_id = [], ml_worker_generation = generation,
          ml_last_blocked_at = None, ml_last_blocked_code = [], ml_failure_kind = [], ml_released_at = None\<rparr>)"

section \<open>Replies follow the order of the turns\<close>

text \<open>A thread whose turns are a plain list: no turn and no other field holds further turns.\<close>

definition plain_turns :: "jmap \<Rightarrow> jmap list \<Rightarrow> bool" where
  "plain_turns m ts \<longleftrightarrow>
     map_of m ''turns'' = Some (JArr (map JObj ts)) \<and> (\<forall>t\<in>set ts. collect_minimal_turns (JObj t) = []) \<and>
     (\<forall>k\<in>set (object_keys m). k \<noteq> ''turns'' \<longrightarrow> collect_minimal_turns (jget m k) = [])"

definition turn_id :: "jmap \<Rightarrow> string" where
  "turn_id t = trim_space (payload_string (jget t ''id''))"

lemma collect_plain_array:
  "\<forall>t\<in>set ts. collect_minimal_turns (JObj t) = [] \<Longrightarrow> [] \<notin> set (map turn_id ts) \<Longrightarrow>
   collect_minimal_turn_array (JArr (map JObj ts)) = map turn_id ts"
  by (induction ts) (auto simp: record_minimal_turn_def turn_id_def Let_def)

lemma collect_plain_turns:
  assumes "plain_turns m ts" "[] \<notin> set (map turn_id ts)"
  shows "collect_minimal_turns (JObj m) = map turn_id ts"
proof -
  have "concat (map (\<lambda>k. collect_minimal_turns (jget m k)) (filter (\<lambda>k. k \<noteq> ''turns'') (object_keys m))) = []"
    using assms(1) by (auto simp: plain_turns_def)
  then show ?thesis using assms collect_plain_array [of ts] by (simp add: plain_turns_def del: concat_eq_Nil_conv)
qed

lemma positions_distinct:
  assumes "distinct ids" "i < length ids"
  shows "turn_positions (ids ! i) ids = [i]"
proof -
  have "turn_positions (ids ! i) ids = filter (\<lambda>n. n = i) [0..<length ids]"
    unfolding turn_positions_def using assms by (intro filter_cong) (auto simp: nth_eq_iff_index_eq)
  also have "\<dots> = [i]" using assms(2) by (induction ids rule: rev_induct) (auto simp: less_Suc_eq)
  finally show ?thesis .
qed

lemma trimmed_turn_id [simp]: "trim_space (turn_id t) = turn_id t"
  by (simp add: turn_id_def)

text \<open>
  C13: A reply to a thread that was linked to Telegram follows the order of the turns. If the
  turns of the source are a plain list with distinct ids, a reply to the turn at which the link was
  made, or to an earlier one, goes to the linked thread; a reply to a later turn is refused as
  diverged, and goes nowhere else.
\<close>
theorem linked_reply_follows_turn_order:
  assumes "trim_space thread \<noteq> []" "get_minimal_linked_thread_by_linked_id prot (trim_space thread) ls = Inr None"
    and "get_minimal_linked_thread prot chat topic (trim_space thread) ls = Inr (Some l)"
    and "trim_space (ml_linked_thread_id l) \<noteq> []"
    and "jget payload ''thread'' = JObj m" "plain_turns m ts" "distinct (map turn_id ts)" "[] \<notin> set (map turn_id ts)"
    and "a < length ts" "trim_space (ml_source_anchor_turn_id l) = turn_id (ts ! a)"
    and "r < length ts" "trim_space turn = turn_id (ts ! r)"
  shows "resolve_minimal_linked_route prot chat topic thread turn payload ls =
    (if r \<le> a then None else Some SourceDiverged,
     \<lparr>rd_thread_id = trim_space (ml_linked_thread_id l), rd_source_thread_id = trim_space (ml_source_thread_id l),
      rd_source_turn_id = trim_space (ml_source_anchor_turn_id l), rd_divergent = (a < r)\<rparr>)"
proof -
  let ?ids = "map turn_id ts"
  have m: "m \<noteq> []" using assms(6) by (auto simp: plain_turns_def)
  have ids: "collect_minimal_turns (JObj m) = ?ids" by (rule collect_plain_turns [OF assms(6,8)])
  have pos: "turn_positions (turn_id (ts ! i)) ?ids = [i]" if "i < length ts" for i
    using positions_distinct [OF assms(7), of i] that by simp
  have ne: "turn_id (ts ! i) \<noteq> []" if "i < length ts" for i using assms(8) that by (metis length_map nth_map nth_mem)
  have "minimal_source_turn_relation payload (ml_source_anchor_turn_id l) (trim_space turn) =
      Some (if r \<le> a then AtOrBefore else After)"
    using pos [OF assms(9)] pos [OF assms(11)] ne [OF assms(9)] ne [OF assms(11)] assms(5,10,12) m ids
    by (simp add: minimal_source_turn_relation_def Let_def)
  then show ?thesis using assms(1-4) by (auto simp: resolve_minimal_linked_route_def Let_def)
qed

text \<open>A thread that was linked at its first turn, and its two turns.\<close>

definition reply_turns :: "jmap list" where
  "reply_turns = [[(''id'', JStr ''u''), (''status'', JStr ''completed'')], [(''id'', JStr ''v''), (''status'', JStr ''completed'')]]"

definition reply_payload :: jmap where
  "reply_payload = [(''thread'', JObj [(''id'', JStr ''s''), (''turns'', JArr (map JObj reply_turns))])]"

lemma reply_values:
  "map_sum (\<lambda>_. ()) (map_option ml_linked_thread_id)
     (get_minimal_linked_thread_by_linked_id (Some ask_protector) (trim_space ''s'') fork_linked) = Inr None"
  "map_sum (\<lambda>_. ()) (map_option (\<lambda>l. (ml_linked_thread_id l, ml_source_anchor_turn_id l)))
     (get_minimal_linked_thread (Some ask_protector) 5 0 (trim_space ''s'') fork_linked) = Inr (Some (''c'', ''u''))"
  "trim_space ''s'' = ''s''" "trim_space ''c'' = ''c''" "trim_space ''u'' = ''u''" "trim_space ''v'' = ''v''"
  "map turn_id reply_turns = [''u'', ''v'']"
  "map (\<lambda>t. collect_minimal_turns (JObj t)) reply_turns = [[], []]"
  "object_keys [(''id'', JStr ''s''), (''turns'', JArr (map JObj reply_turns))] = [''id'', ''turns'']"
  by code_simp+

lemma linked_reply_follows_turn_order_witness:
  "fst (resolve_minimal_linked_route (Some ask_protector) 5 0 ''s'' ''v'' reply_payload fork_linked) = Some SourceDiverged \<and>
   fst (resolve_minimal_linked_route (Some ask_protector) 5 0 ''s'' ''u'' reply_payload fork_linked) = None"
proof -
  let ?m = "[(''id'', JStr ''s''), (''turns'', JArr (map JObj reply_turns))]"
  have none: "get_minimal_linked_thread_by_linked_id (Some ask_protector) (trim_space ''s'') fork_linked = Inr None"
    using reply_values(1)
    by (cases "get_minimal_linked_thread_by_linked_id (Some ask_protector) (trim_space ''s'') fork_linked") auto
  obtain l where l: "get_minimal_linked_thread (Some ask_protector) 5 0 (trim_space ''s'') fork_linked = Inr (Some l)"
      "ml_linked_thread_id l = ''c''" "ml_source_anchor_turn_id l = ''u''"
    using reply_values(2)
    by (cases "get_minimal_linked_thread (Some ask_protector) 5 0 (trim_space ''s'') fork_linked") auto
  have plain: "plain_turns ?m reply_turns"
    using reply_values(8,9) by (auto simp: plain_turns_def reply_turns_def)
  have ids: "distinct (map turn_id reply_turns)" "[] \<notin> set (map turn_id reply_turns)" "length reply_turns = 2"
    "turn_id (reply_turns ! 0) = ''u''" "turn_id (reply_turns ! 1) = ''v''"
    using reply_values(7) by (simp_all add: reply_turns_def)
  have payload: "jget reply_payload ''thread'' = JObj ?m" by (simp add: reply_payload_def)
  have ne: "trim_space ''s'' \<noteq> []" "trim_space (ml_linked_thread_id l) \<noteq> []"
    "trim_space (ml_source_anchor_turn_id l) = turn_id (reply_turns ! 0)"
    using reply_values l ids by simp_all
  note rule = linked_reply_follows_turn_order [OF ne(1) none l(1) ne(2) payload plain ids(1,2) _ ne(3)]
  show ?thesis using rule [of 1 "''v''"] rule [of 0 "''u''"] ids reply_values by simp
qed

end
