(* ===== verification/Turn_Start.thy ===== *)
theory Turn_Start
  imports Link_Routing Terminal_Gate
begin

text \<open>
  How a command of the owner becomes a turn of Codex in the minimal profile
  (\<^verbatim>\<open>internal/daemon/minimal_continuation.go\<close> and the parts of \<^verbatim>\<open>minimal_router.go\<close> and
  \<^verbatim>\<open>service.go\<close> it calls): on a worker process of its own, in the thread itself, in the linked thread
  of its source, or in a new fork. A start runs under the lock of its thread, so it is one function
  on the state. The App Server and the worker processes are an environment that may answer a call
  in any way, depending on the calls before it; the calls are part of the state.
\<close>

section \<open>Errors\<close>

text \<open>Errors as far as they are told apart; \<^verbatim>\<open>errors.Is\<close> and \<^verbatim>\<open>errors.As\<close> look through the wrappers.\<close>

datatype start_error =
    PlainError string
  | RpcError int string
  | OwnedByCodex
  | WorkerFailed worker_error
  | LinkFailed link_error
  | CommandFailed command_error
  | RouteFailed route_error
  | RegistryFailed registry_error
  | PathFailed path_error
  | PreTurn start_error
  | ForkFailed start_error string bool
  | NoRemoteStart start_error
  | Wrapped string start_error

fun rpc_error_of :: "start_error \<Rightarrow> (int \<times> string) option" where
  "rpc_error_of (RpcError code message) = Some (code, message)"
| "rpc_error_of (PreTurn e) = rpc_error_of e"
| "rpc_error_of (ForkFailed e kind unsent) = rpc_error_of e"
| "rpc_error_of (NoRemoteStart e) = rpc_error_of e"
| "rpc_error_of (Wrapped s e) = rpc_error_of e"
| "rpc_error_of _ = None"

fun fork_error_of :: "start_error \<Rightarrow> (string \<times> bool) option" where
  "fork_error_of (ForkFailed e kind unsent) = Some (kind, unsent)"
| "fork_error_of (PreTurn e) = fork_error_of e"
| "fork_error_of (NoRemoteStart e) = fork_error_of e"
| "fork_error_of (Wrapped s e) = fork_error_of e"
| "fork_error_of _ = None"

fun is_pre_turn_worker_error :: "start_error \<Rightarrow> bool" where
  "is_pre_turn_worker_error (PreTurn e) = True"
| "is_pre_turn_worker_error (ForkFailed e kind unsent) = is_pre_turn_worker_error e"
| "is_pre_turn_worker_error (NoRemoteStart e) = is_pre_turn_worker_error e"
| "is_pre_turn_worker_error (Wrapped s e) = is_pre_turn_worker_error e"
| "is_pre_turn_worker_error _ = False"

fun owned_by_codex :: "start_error \<Rightarrow> bool" where
  "owned_by_codex OwnedByCodex = True"
| "owned_by_codex (PreTurn e) = owned_by_codex e"
| "owned_by_codex (ForkFailed e kind unsent) = owned_by_codex e"
| "owned_by_codex (NoRemoteStart e) = owned_by_codex e"
| "owned_by_codex (Wrapped s e) = owned_by_codex e"
| "owned_by_codex _ = False"

definition is_active_writer_conflict :: "start_error \<Rightarrow> string \<Rightarrow> bool" where
  "is_active_writer_conflict e thread0 \<longleftrightarrow>
     (let thread = trim_space thread0
      in thread \<noteq> [] \<and>
         (case rpc_error_of e of
            None \<Rightarrow> False
          | Some (code, message) \<Rightarrow>
              code = -32600 \<and> trim_space message = ''thread '' @ thread @ '' already has an active writer''))"

definition pre_start_continuation_error :: "start_error \<Rightarrow> string \<Rightarrow> start_error" where
  "pre_start_continuation_error e kind0 =
     (if fork_error_of e \<noteq> None then e
      else let kind = trim_space kind0 in ForkFailed e (if kind = [] then failure_ambiguous else kind) True)"

definition minimal_continuation_fork_failure_kind :: "start_error \<Rightarrow> string" where
  "minimal_continuation_fork_failure_kind e =
     (case rpc_error_of e of
        None \<Rightarrow> failure_ambiguous
      | Some (code, message) \<Rightarrow>
          if code \<in> {-32700, -32600, -32601, -32602} then failure_definite else failure_ambiguous)"

section \<open>The environment and the state\<close>

record turn_options =
  to_collaboration_mode :: string
  to_model :: string
  to_reasoning_effort :: string
  to_approval_policy :: string
  to_sandbox_type :: string
  to_writable_roots :: "string list"
  to_network_access :: bool

text \<open>The calls of a start, each on the session of a worker.\<close>

datatype app_call =
    ThreadStartCall nat string
  | ThreadResumeCall nat string string
  | ThreadForkCall nat string string string
  | ThreadSetNameCall nat string string
  | ThreadReadCall nat string
  | TurnStartCall nat string string string turn_options

record 's start_environment =
  en_profile :: string
  en_host :: host
  en_files :: files
  en_registry :: registry
  en_protector :: "protector option"
  en_now :: instant
  en_poll_interval :: duration
  en_answer :: "app_call list \<Rightarrow> app_call \<Rightarrow> (start_error, jmap) result"
  en_session :: "app_call list \<Rightarrow> 's start_outcome \<times> string option"
  en_close :: "app_call list \<Rightarrow> nat \<Rightarrow> close_outcome"

record 's start_state =
  st_links :: link_store
  st_states :: kv_table
  st_snapshots :: Thread_Store.snapshot_table
  st_observations :: minimal_observations
  st_manager :: "'s worker_manager"
  st_calls :: "app_call list"

definition set_links :: "link_store \<Rightarrow> 's start_state \<Rightarrow> 's start_state" where
  "set_links ls st = st\<lparr>st_links := ls\<rparr>"

definition call_app_server ::
  "'s start_environment \<Rightarrow> app_call \<Rightarrow> 's start_state \<Rightarrow> (start_error, jmap) result \<times> 's start_state" where
  "call_app_server env c st = (en_answer env (st_calls st) c, st\<lparr>st_calls := st_calls st @ [c]\<rparr>)"

definition acquire_worker ::
  "'s start_environment \<Rightarrow> string \<Rightarrow> string \<Rightarrow> 's start_state \<Rightarrow> (worker_error, nat) result \<times> 's start_state" where
  "acquire_worker env key linked st =
     (let (outcome, close_err) = en_session env (st_calls st);
          (res, m) = acquire key linked outcome close_err (st_manager st)
      in (res, st\<lparr>st_manager := m\<rparr>))"

definition worker_of :: "nat \<Rightarrow> 's start_state \<Rightarrow> 's link_worker" where
  "worker_of w st = wm_heap (st_manager st) ! w"

text \<open>A worker whose turn did not start is given up; the error of closing it is dropped.\<close>

definition release_minimal_worker :: "'s start_environment \<Rightarrow> nat \<Rightarrow> 's start_state \<Rightarrow> 's start_state" where
  "release_minimal_worker env w st =
     (let x = worker_of w st
      in if trim_space (lw_thread_id x) \<noteq> []
         then st\<lparr>st_manager :=
                snd (release_worker (lw_thread_id x) (lw_generation x) (en_close env (st_calls st)) (st_manager st))\<rparr>
         else st\<lparr>st_manager := remove_worker w (st_manager st)\<rparr>)"

record start_result =
  sr_thread :: "thread option"
  sr_turn_id :: string
  sr_forked :: bool
  sr_queued :: bool
  sr_link_title :: string

definition no_start :: start_result where
  "no_start = \<lparr>sr_thread = None, sr_turn_id = [], sr_forked = False, sr_queued = False, sr_link_title = []\<rparr>"

type_synonym 's started = "(start_result \<times> start_error option) \<times> 's start_state"

text \<open>\<^verbatim>\<open>defer\<close>: unless the body keeps it, the worker is given up when the body returns.\<close>

definition release_unless_kept ::
  "'s start_environment \<Rightarrow> nat \<Rightarrow> bool \<times> 's started \<Rightarrow> 's started" where
  "release_unless_kept env w out =
     (let (keep, res, st) = out in (res, if keep then st else release_minimal_worker env w st))"

section \<open>Threads\<close>

definition persist_thread ::
  "'s start_environment \<Rightarrow> thread \<Rightarrow> thread list \<times> minimal_observations \<Rightarrow> thread list \<times> minimal_observations" where
  "persist_thread env t st =
     (let (ts, obs) = st
      in if en_profile env \<noteq> ''minimal'' then (upsert_thread t ts, obs)
         else (let project = (if thread_looks_active_for_polling t
                              then match_exact_cwd (en_host env) (en_files env) (en_registry env) (th_cwd t) else None);
                   t1 = (case project of
                           None \<Rightarrow> t
                         | Some p \<Rightarrow> t\<lparr>th_cwd := pj_canonical_path p, th_project_name := pj_display_name p\<rparr>);
                   t2 = t1\<lparr>th_title := th_id t1, th_last_preview := [], th_raw := JNull\<rparr>
               in (upsert_thread t2 ts,
                   case project of
                     None \<Rightarrow> obs
                   | Some p \<Rightarrow> if pj_id p = [] then obs else snd (observe_minimal_thread t2 (pj_id p) obs))))"

definition persist :: "'s start_environment \<Rightarrow> thread \<Rightarrow> 's start_state \<Rightarrow> 's start_state" where
  "persist env t st =
     (let (ts, obs) = persist_thread env t (ls_threads (st_links st), st_observations st)
      in st\<lparr>st_links := (st_links st)\<lparr>ls_threads := ts\<rparr>, st_observations := obs\<rparr>)"

definition normalize_reasoning_effort :: "string \<Rightarrow> string" where
  "normalize_reasoning_effort v =
     (let n = trim_space (to_lower v)
      in if n = [] \<or> n = ''<nil>'' then []
         else if n \<in> {''x-high'', ''x_high'', ''extra-high'', ''extra_high''} then ''xhigh'' else n)"

definition turn_start_options :: "kv_table \<Rightarrow> string \<Rightarrow> thread option \<Rightarrow> turn_options" where
  "turn_start_options kv mode t =
     (let model = trim_space (get_state kv ''codex.model'')
      in \<lparr>to_collaboration_mode = trim_space mode,
          to_model = (case t of None \<Rightarrow> model | Some x \<Rightarrow> if model = [] then trim_space (th_preferred_model x) else model),
          to_reasoning_effort = normalize_reasoning_effort (get_state kv ''codex.reasoning_effort''),
          to_approval_policy = [], to_sandbox_type = [], to_writable_roots = [], to_network_access = False\<rparr>)"

definition mark_telegram_origin_turn :: "string \<Rightarrow> string \<Rightarrow> kv_table \<Rightarrow> kv_table" where
  "mark_telegram_origin_turn thread turn kv =
     (let key = telegram_origin_turn_key thread turn in if key = [] then kv else set_state kv key ''telegram_input'')"

definition ensure_started_turn_snapshot ::
  "'s start_environment \<Rightarrow> thread \<Rightarrow> string \<Rightarrow> 's start_state \<Rightarrow> 's start_state" where
  "ensure_started_turn_snapshot env t turn0 st =
     (let turn = trim_space turn0; previous = get_snapshot (th_id t) (st_snapshots st)
      in if turn = [] \<or> (case previous of None \<Rightarrow> False | Some p \<Rightarrow> trim_space (ss_turn_id p) = turn) then st
         else (let t1 = t\<lparr>th_status := ''inProgress'', th_active_turn_id := turn,
                        th_updated_at := (if th_updated_at t = 0 then unix_seconds (en_now env) else th_updated_at t)\<rparr>;
                   project = (if en_profile env = ''minimal''
                              then match_exact_cwd (en_host env) (en_files env) (en_registry env) (th_cwd t1) else None);
                   t2 = (case project of
                           None \<Rightarrow> t1
                         | Some p \<Rightarrow> t1\<lparr>th_cwd := pj_canonical_path p, th_project_name := pj_display_name p\<rparr>);
                   here = empty_snapshot\<lparr>sn_thread := t2, sn_turn_id := turn, sn_turn_status := ''inProgress''\<rparr>;
                   next = (compact_snapshot (en_now env) previous (snapshot_for_persistence (en_profile env) here)
                            (en_now env))\<lparr>ss_next_poll_after := TStamp (en_now env + en_poll_interval env)\<rparr>;
                   st1 = persist env t2 st;
                   st2 = (case project of
                            None \<Rightarrow> st1
                          | Some p \<Rightarrow>
                              if pj_id p = [] then st1
                              else st1\<lparr>st_observations := snd (observe_minimal_thread t2 (pj_id p) (st_observations st1))\<rparr>)
               in st2\<lparr>st_snapshots := upsert_snapshot (th_id t2, next) (st_snapshots st2)\<rparr>))"

section \<open>A turn in a loaded thread\<close>

definition canonical_minimal_directory :: "host \<Rightarrow> files \<Rightarrow> string \<Rightarrow> (path_error, string) result" where
  "canonical_minimal_directory h fs v =
     (case h_abs h (h_clean h (trim_space v)) of
        None \<Rightarrow> Inl PathAbsolute
      | Some absolute \<Rightarrow>
         (case fs_eval fs absolute of
            None \<Rightarrow> Inl PathLinks
          | Some canonical \<Rightarrow>
             (case fs_is_dir fs canonical of
                None \<Rightarrow> Inl PathStat
              | Some d \<Rightarrow> if d then Inr (h_clean h canonical) else Inl PathNoDirectory)))"

definition project_for_thread :: "'s start_environment \<Rightarrow> thread \<Rightarrow> (start_error, project \<times> string) result" where
  "project_for_thread env t =
     (case canonical_minimal_directory (en_host env) (en_files env) (th_cwd t) of
        Inl e \<Rightarrow> Inl (Wrapped ''canonicalize routed thread cwd'' (PathFailed e))
      | Inr canonical \<Rightarrow>
         (case match_cwd (en_host env) (en_files env) (en_registry env) canonical of
            None \<Rightarrow> Inl (PlainError ''routed thread cwd is outside the fixed project registry'')
          | Some found \<Rightarrow>
             (case resolve_project (en_host env) (en_files env) (en_registry env) (pj_id found) of
                Inl e \<Rightarrow> Inl (RegistryFailed e)
              | Inr p \<Rightarrow> Inr (p, canonical))))"

definition app_server_thread_turn_id :: "jmap \<Rightarrow> string" where
  "app_server_thread_turn_id payload = (case jget (as_map (jget payload ''turn'')) ''id'' of JStr s \<Rightarrow> s | _ \<Rightarrow> [])"

text \<open>The turn, the thread as it is afterwards, and the error.\<close>

definition start_loaded_turn ::
  "'s start_environment \<Rightarrow> nat \<Rightarrow> thread \<Rightarrow> project \<Rightarrow> string \<Rightarrow> 's start_state \<Rightarrow>
   (string \<times> thread \<times> start_error option) \<times> 's start_state" where
  "start_loaded_turn env w t project prompt st =
     (case project_for_thread env t of
        Inl e \<Rightarrow> (([], t, Some e), st)
      | Inr (here, cwd) \<Rightarrow>
          if pj_id here \<noteq> pj_id project
          then (([], t, Some (PlainError ''registered project changed before turn start'')), st)
          else (case resolve_project (en_host env) (en_files env) (en_registry env) (pj_id project) of
            Inl e \<Rightarrow> (([], t, Some (RegistryFailed e)), st)
          | Inr p \<Rightarrow>
             (let options = (turn_start_options (st_states st) [] (Some t))
                    \<lparr>to_approval_policy := ''on-request'', to_sandbox_type := ''workspaceWrite'',
                     to_writable_roots := [pj_canonical_path p], to_network_access := False\<rparr>
              in case call_app_server env (TurnStartCall w (th_id t) prompt cwd options) st of
                   (Inl e, st1) \<Rightarrow> (([], t, Some e), st1)
                 | (Inr payload, st1) \<Rightarrow>
                    (let turn = trim_space (app_server_thread_turn_id payload);
                         t1 = t\<lparr>th_cwd := cwd, th_project_name := pj_display_name p, th_status := ''inProgress'',
                                th_active_turn_id := turn, th_updated_at := unix_seconds (en_now env)\<rparr>;
                         st2 = persist env t1 st1;
                         st3 = st2\<lparr>st_states := mark_telegram_origin_turn (th_id t1) turn (st_states st2)\<rparr>
                     in if turn = [] then (([], t, Some (PlainError ''app server turn/start returned no turn id'')), st1)
                        else ((turn, t1, None), ensure_started_turn_snapshot env t1 turn st3)))))"

definition resume_thread ::
  "'s start_environment \<Rightarrow> nat \<Rightarrow> string \<Rightarrow> string \<Rightarrow> 's start_state \<Rightarrow> start_error option \<times> 's start_state" where
  "resume_thread env w thread cwd st =
     (case call_app_server env (ThreadResumeCall w thread cwd) st of
        (Inl e, st1) \<Rightarrow> (Some e, st1) | (Inr _, st1) \<Rightarrow> (None, st1))"

section \<open>A new thread and an existing one\<close>

definition new_thread_on_worker ::
  "'s start_environment \<Rightarrow> nat \<Rightarrow> int \<Rightarrow> int \<Rightarrow> project \<Rightarrow> string \<Rightarrow> 's start_state \<Rightarrow> bool \<times> 's started" where
  "new_thread_on_worker env w chat topic project0 prompt st =
     (case call_app_server env (ThreadStartCall w (pj_canonical_path project0)) st of
        (Inl e, st1) \<Rightarrow> (False, (no_start, Some e), st1)
      | (Inr payload, st1) \<Rightarrow>
         (let t0 = thread_from_payload payload
          in if trim_space (th_id t0) = []
             then (False, (no_start, Some (PlainError ''app server thread/start returned no thread id'')), st1)
             else (case resolve_project (en_host env) (en_files env) (en_registry env) (pj_id project0) of
               Inl e \<Rightarrow> (False, (no_start, Some (RegistryFailed e)), st1)
             | Inr project \<Rightarrow>
                (let t = t0\<lparr>th_cwd := pj_canonical_path project, th_project_name := pj_display_name project,
                           th_title := (if trim_space (th_title t0) = [] then ''New thread'' else th_title t0),
                           th_updated_at := (if th_updated_at t0 = 0 then unix_seconds (en_now env) else th_updated_at t0)\<rparr>
                 in case bind_thread w (th_id t) (st_manager st1) of
                      Inl e \<Rightarrow> (False, (no_start, Some (WorkerFailed e)), st1)
                    | Inr m \<Rightarrow>
                       (let st2 = persist env t (st1\<lparr>st_manager := m\<rparr>);
                            st3 = set_links ((st_links st2)\<lparr>ls_bindings :=
                                    set_binding chat topic (th_id t) binding_mode_bound (ls_bindings (st_links st2))\<rparr>) st2
                        in case start_loaded_turn env w t project prompt st3 of
                             ((turn, t', err), st4) \<Rightarrow>
                               if trim_space turn = [] \<and> err \<noteq> None then (False, (no_start, err), st4)
                               else (True, (no_start\<lparr>sr_thread := Some t', sr_turn_id := turn\<rparr>, err), st4))))))"

definition start_new_project_on_worker ::
  "'s start_environment \<Rightarrow> int \<Rightarrow> int \<Rightarrow> project \<Rightarrow> string \<Rightarrow> 's start_state \<Rightarrow> 's started" where
  "start_new_project_on_worker env chat topic project prompt st =
     (case acquire_worker env (''new:'' @ chat_key chat topic) [] st of
        (Inl e, st1) \<Rightarrow> ((no_start, Some (WorkerFailed e)), st1)
      | (Inr w, st1) \<Rightarrow> release_unless_kept env w (new_thread_on_worker env w chat topic project prompt st1))"

text \<open>A worker that was acquired for this start still has to resume the thread.\<close>

definition resume_on_worker ::
  "'s start_environment \<Rightarrow> nat \<Rightarrow> bool \<Rightarrow> thread \<Rightarrow> project \<Rightarrow> string \<Rightarrow> 's start_state \<Rightarrow> bool \<times> 's started" where
  "resume_on_worker env w acquired t project prompt st =
     (let fail = (\<lambda>e. (no_start, Some (PreTurn e)))
      in if trim_space (lw_thread_id (worker_of w st)) \<noteq> trim_space (th_id t)
         then (\<not> acquired, fail (PlainError ''minimal link worker thread changed''), st)
         else case (if acquired then resume_thread env w (th_id t) (pj_canonical_path project) st else (None, st)) of
                (Some e, st1) \<Rightarrow> (\<not> acquired, fail e, st1)
              | (None, st1) \<Rightarrow>
                 (case start_loaded_turn env w t project prompt st1 of
                    ((turn, t', err), st2) \<Rightarrow>
                      if trim_space turn = [] \<and> err \<noteq> None then (\<not> acquired, (no_start, err), st2)
                      else (True, (no_start\<lparr>sr_thread := Some t', sr_turn_id := turn\<rparr>, err), st2)))"

definition start_existing_thread_on_worker ::
  "'s start_environment \<Rightarrow> thread \<Rightarrow> project \<Rightarrow> string \<Rightarrow> 's start_state \<Rightarrow> 's started" where
  "start_existing_thread_on_worker env t project prompt st =
     (if trim_space (th_id t) = [] then ((no_start, Some (PreTurn (PlainError ''thread is required''))), st)
      else case by_thread (th_id t) (st_manager st) of
             Some w \<Rightarrow> release_unless_kept env w (resume_on_worker env w False t project prompt st)
           | None \<Rightarrow>
              (case acquire_worker env (''thread:'' @ th_id t) (th_id t) st of
                 (Inl e, st1) \<Rightarrow> ((no_start, Some (PreTurn (WorkerFailed e))), st1)
               | (Inr w, st1) \<Rightarrow> release_unless_kept env w (resume_on_worker env w True t project prompt st1)))"

section \<open>Titles of linked threads\<close>

definition name_minimal_linked_thread ::
  "'s start_environment \<Rightarrow> nat \<Rightarrow> linked_thread \<Rightarrow> 's start_state \<Rightarrow> 's start_state" where
  "name_minimal_linked_thread env w l st =
     (let title = trim_space (ml_desired_title l)
      in if title = [] then st
         else case call_app_server env (ThreadSetNameCall w (ml_linked_thread_id l) title) st of
                (Inl e, st1) \<Rightarrow> st1
              | (Inr _, st1) \<Rightarrow>
                  set_links (snd (mark_minimal_linked_title_set (ml_linked_thread_id l) (lw_generation (worker_of w st1))
                    (st_links st1))) st1)"

definition read_minimal_linked_source_title ::
  "'s start_environment \<Rightarrow> nat \<Rightarrow> string \<Rightarrow> 's start_state \<Rightarrow> string \<times> 's start_state" where
  "read_minimal_linked_source_title env w source0 st =
     (let source = trim_space source0
      in if source = [] then ([], st)
         else case call_app_server env (ThreadReadCall w source) st of
                (Inl e, st1) \<Rightarrow> ([], st1)
              | (Inr payload, st1) \<Rightarrow>
                 (let t = thread_from_payload payload
                  in (if has_meaningful_minimal_thread_title t then safe_continuation_source_title t else [], st1)))"

definition hydrate_minimal_linked_title ::
  "'s start_environment \<Rightarrow> nat \<Rightarrow> linked_thread \<Rightarrow> thread \<Rightarrow> 's start_state \<Rightarrow> (linked_thread \<times> bool) \<times> 's start_state" where
  "hydrate_minimal_linked_title env w l parent st =
     (if trim_space (ml_source_title l) \<noteq> [] \<and> trim_space (ml_desired_title l) \<noteq> [] then ((l, True), st)
      else let stored = trim_space (ml_source_title l);
               own = (if stored = [] \<and> trim_space (th_id parent) = trim_space (ml_source_thread_id l) \<and>
                         has_meaningful_minimal_thread_title parent
                      then safe_continuation_source_title parent else stored);
               (source, st1) = (if own = [] then read_minimal_linked_source_title env w (ml_source_thread_id l) st
                                else (own, st));
               desired0 = trim_space (ml_desired_title l);
               desired = (if desired0 = [] then source @ linked_title_suffix else desired0)
           in if source = [] then ((l, False), st1)
              else case hydrate_minimal_linked_titles (en_protector env) (ml_linked_thread_id l) source desired (st_links st1) of
                     (Inl e, ls) \<Rightarrow> ((l, False), set_links ls st1)
                   | (Inr _, ls) \<Rightarrow>
                      (case get_minimal_linked_thread_by_linked_id (en_protector env) (ml_linked_thread_id l) ls of
                         Inr (Some updated) \<Rightarrow>
                           ((updated, trim_space (ml_source_title updated) \<noteq> [] \<and> trim_space (ml_desired_title updated) \<noteq> []),
                            set_links ls st1)
                       | _ \<Rightarrow> ((l, False), set_links ls st1)))"

section \<open>A turn in a linked thread\<close>

definition enqueue_command :: "'s start_environment \<Rightarrow> pending_command \<Rightarrow> 's start_state \<Rightarrow> start_error option \<times> 's start_state" where
  "enqueue_command env c st =
     (case enqueue_pending_command (en_protector env) c (ls_commands (st_links st)) of
        (Inl e, cs) \<Rightarrow> (Some (CommandFailed e), set_links ((st_links st)\<lparr>ls_commands := cs\<rparr>) st)
      | (Inr _, cs) \<Rightarrow> (None, set_links ((st_links st)\<lparr>ls_commands := cs\<rparr>) st))"

definition command_for :: "string \<Rightarrow> string \<Rightarrow> string \<Rightarrow> project \<Rightarrow> int \<Rightarrow> int \<Rightarrow> string \<Rightarrow> pending_command" where
  "command_for thread source turn project chat topic prompt =
     \<lparr>cm_id = 0, cm_thread_id = thread, cm_source_thread_id = source, cm_source_turn_id = turn,
      cm_project_id = pj_id project, cm_chat_id = chat, cm_topic_id = topic, cm_prompt = prompt, cm_status = CmdPending\<rparr>"

text \<open>
  The end of every start in a linked thread: a turn that started is entered in the row of the link,
  a start that failed before its turn fails the link.
\<close>

definition finish_linked_start ::
  "string \<Rightarrow> nat \<Rightarrow> bool \<Rightarrow> string \<Rightarrow> (string \<times> thread \<times> start_error option) \<times> 's start_state \<Rightarrow> bool \<times> 's started" where
  "finish_linked_start linked w forked title out =
     (let ((turn, t, err), st) = out; g = lw_generation (worker_of w st);
          result = no_start\<lparr>sr_thread := Some t, sr_turn_id := turn, sr_forked := forked, sr_link_title := title\<rparr>
      in if trim_space turn = [] \<and> err \<noteq> None
         then (False, (no_start, err), set_links (snd (fail_minimal_linked_thread linked g failure_ambiguous (st_links st))) st)
         else if trim_space turn = [] then (False, (result, err), st)
         else case mark_minimal_linked_turn_started linked g turn (st_links st) of
                (Inl e, ls) \<Rightarrow> (True, (result, Some (LinkFailed e)), set_links ls st)
              | (Inr False, ls) \<Rightarrow>
                  (True, (result, Some (PlainError ''minimal linked turn start marker was not updated'')), set_links ls st)
              | (Inr True, ls) \<Rightarrow> (True, (result, err), set_links ls st))"

definition start_claimed_linked_turn ::
  "'s start_environment \<Rightarrow> nat \<Rightarrow> linked_thread \<Rightarrow> thread \<Rightarrow> thread \<Rightarrow> project \<Rightarrow> string \<Rightarrow> 's start_state \<Rightarrow> bool \<times> 's started" where
  "start_claimed_linked_turn env w l child parent project prompt st =
     (let fail = (\<lambda>e st. (False, (no_start, Some (PreTurn e)), st))
      in case claim_minimal_linked_worker (ml_linked_thread_id l) (lw_generation (worker_of w st)) (st_links st) of
           (Inl e, ls) \<Rightarrow> fail (LinkFailed e) (set_links ls st)
         | (Inr False, ls) \<Rightarrow> fail (PlainError ''minimal linked thread worker claim failed'') (set_links ls st)
         | (Inr True, ls) \<Rightarrow>
            (let st1 = set_links ls st;
                 untitled = (trim_space (ml_title_state l) = [] \<or> trim_space (ml_title_state l) = title_pending);
                 ((named, ready), st2) = (if untitled then hydrate_minimal_linked_title env w l parent st1 else ((l, False), st1));
                 st3 = (if ready then name_minimal_linked_thread env w named st2 else st2)
             in finish_linked_start (ml_linked_thread_id l) w False (ml_desired_title named)
                  (start_loaded_turn env w child project prompt st3)))"

definition resume_linked_on_worker ::
  "'s start_environment \<Rightarrow> nat \<Rightarrow> linked_thread \<Rightarrow> thread \<Rightarrow> thread \<Rightarrow> project \<Rightarrow> string \<Rightarrow> 's start_state \<Rightarrow> bool \<times> 's started" where
  "resume_linked_on_worker env w l child parent project prompt st =
     (case resume_thread env w (ml_linked_thread_id l) (pj_canonical_path project) st of
        (Some e, st1) \<Rightarrow>
          if is_active_writer_conflict e (ml_linked_thread_id l)
          then (False, (no_start\<lparr>sr_thread := Some child, sr_link_title := ml_desired_title l\<rparr>, Some OwnedByCodex),
                set_links (snd (record_minimal_linked_blocked (ml_linked_thread_id l) ''active_writer'' (en_now env)
                  (st_links st1))) st1)
          else (False, (no_start, Some (PreTurn e)), st1)
      | (None, st1) \<Rightarrow> start_claimed_linked_turn env w l child parent project prompt st1)"

definition linked_child :: "string \<Rightarrow> project \<Rightarrow> 's start_state \<Rightarrow> thread" where
  "linked_child linked project st =
     (case get_thread linked (ls_threads (st_links st)) of
        Some t \<Rightarrow> t
      | None \<Rightarrow> empty_thread\<lparr>th_id := linked, th_cwd := pj_canonical_path project,
                             th_project_name := pj_display_name project\<rparr>)"

text \<open>The child as it is reported while the command waits for the running turn.\<close>

definition waiting_child :: "linked_thread \<Rightarrow> thread \<Rightarrow> thread" where
  "waiting_child l child =
     (if trim_space (th_active_turn_id child) = [] then child\<lparr>th_active_turn_id := trim_space (ml_active_turn_id l)\<rparr>
      else child)"

definition start_canonical_linked_turn ::
  "'s start_environment \<Rightarrow> int \<Rightarrow> int \<Rightarrow> linked_thread \<Rightarrow> thread \<Rightarrow> project \<Rightarrow> source_anchor \<Rightarrow> string \<Rightarrow> 's start_state \<Rightarrow> 's started" where
  "start_canonical_linked_turn env chat topic l parent project anchor prompt st =
     (let fail = (\<lambda>e. ((no_start, Some e), st)); linked = ml_linked_thread_id l; state = trim_space (ml_state l);
          child0 = linked_child linked project st
      in if trim_space linked = [] then fail (PlainError ''minimal linked thread is unavailable'')
         else if trim_space (ml_project_id l) \<noteq> [] \<and> trim_space (ml_project_id l) \<noteq> pj_id project
         then fail (PlainError ''minimal linked project changed'')
         else case project_for_thread env child0 of
           Inl e \<Rightarrow> fail e
         | Inr (found, cwd) \<Rightarrow>
            (let child = child0\<lparr>th_cwd := cwd\<rparr>
             in if pj_id found \<noteq> pj_id project then fail (PlainError ''minimal linked project changed'')
                else if state = linked_running
                then (case enqueue_command env (command_for linked (source_id_for_linked parent anchor) (sa_turn_id anchor)
                             project chat topic prompt) st of
                        (Some e, st1) \<Rightarrow> ((no_start, Some e), st1)
                      | (None, st1) \<Rightarrow>
                         ((no_start\<lparr>sr_thread := Some (waiting_child l child),
                                   sr_turn_id := th_active_turn_id (waiting_child l child), sr_queued := True,
                                   sr_link_title := ml_desired_title l\<rparr>, None), st1))
                else if state \<noteq> [] \<and> state \<noteq> linked_ready
                then fail (pre_start_continuation_error (PlainError ''minimal linked thread is not ready'') failure_ambiguous)
                else case acquire_worker env (''link:'' @ linked) linked st of
                  (Inl e, st1) \<Rightarrow> ((no_start, Some (PreTurn (WorkerFailed e))), st1)
                | (Inr w, st1) \<Rightarrow>
                    release_unless_kept env w (resume_linked_on_worker env w l child parent project prompt st1)))"

section \<open>A fork of an ended turn\<close>

definition fail_continuation ::
  "'s start_environment \<Rightarrow> continuation \<Rightarrow> string \<Rightarrow> 's start_state \<Rightarrow> 's start_state" where
  "fail_continuation env c kind st = set_links (snd (fail_minimal_continuation (en_now env) c kind (st_links st))) st"

definition load_continuation_child ::
  "'s start_environment \<Rightarrow> continuation \<Rightarrow> project \<Rightarrow> 's start_state \<Rightarrow> (start_error, thread) result" where
  "load_continuation_child env c project st =
     (let refuse = (\<lambda>s kind. Inl (ForkFailed (PlainError s) kind True));
          fail = (\<lambda>e. Inl (pre_start_continuation_error e failure_ambiguous));
          child_id = trim_space (co_fork_thread_id c)
      in if co_status c = CnFailed
         then if co_failure_kind c = failure_ambiguous
              then refuse ''minimal continuation is ambiguous; run /repair before retrying'' failure_ambiguous
              else refuse ''minimal continuation creation failed'' failure_definite
         else if co_status c = CnCreating
         then refuse ''minimal continuation creation is already in progress'' failure_ambiguous
         else if child_id = [] then fail (PlainError ''minimal continuation row is incomplete'')
         else case get_thread child_id (ls_threads (st_links st)) of
                None \<Rightarrow> fail (PlainError ''minimal continuation child is unavailable'')
              | Some child \<Rightarrow>
                  if trim_space (th_id child) = [] then fail (PlainError ''minimal continuation child is unavailable'')
                  else case project_for_thread env child of
                         Inl e \<Rightarrow> fail e
                       | Inr (found, cwd) \<Rightarrow>
                           if pj_id found \<noteq> pj_id project \<or> co_project_id c \<noteq> pj_id project
                           then fail (PlainError ''minimal continuation project changed'') else Inr child)"

definition sanitize_forked_continuation_child ::
  "'s start_environment \<Rightarrow> jmap \<Rightarrow> string \<Rightarrow> project \<Rightarrow> (start_error, thread) result" where
  "sanitize_forked_continuation_child env payload parent project =
     (let t = thread_from_payload payload; i = trim_space (th_id t);
          child = t\<lparr>th_id := i, th_cwd := pj_canonical_path project, th_project_name := pj_display_name project,
                    th_directory_name := [], th_title := i, th_last_preview := [], th_raw := JNull,
                    th_updated_at := (if th_updated_at t = 0 then unix_seconds (en_now env) else th_updated_at t)\<rparr>
      in if i = [] then Inl (PlainError ''app server thread/fork returned no child thread id'')
         else if i = trim_space parent then Inl (PlainError ''app server thread/fork returned the parent thread id'')
         else if trim_space (th_cwd t) = [] then Inr child
         else case canonical_minimal_directory (en_host env) (en_files env) (th_cwd t) of
                Inl e \<Rightarrow> Inl (Wrapped ''canonicalize forked child cwd'' (PathFailed e))
              | Inr canonical \<Rightarrow>
                  if canonical \<noteq> pj_canonical_path project
                  then Inl (PlainError ''forked child cwd is outside the exact project root'') else Inr child)"

text \<open>An active continuation from before linked threads: its fork becomes the linked thread.\<close>

definition activate_on_worker ::
  "'s start_environment \<Rightarrow> nat \<Rightarrow> bool \<Rightarrow> (link_error \<Rightarrow> bool \<times> 's started) \<Rightarrow> linked_thread \<Rightarrow> continuation \<Rightarrow> thread \<Rightarrow>
   project \<Rightarrow> string \<Rightarrow> 's start_state \<Rightarrow> bool \<times> 's started" where
  "activate_on_worker env w forked refused l c child project prompt st =
     (case activate_minimal_linked_thread (en_protector env) (en_now env) l c child (st_links st) of
        (Inl e, ls) \<Rightarrow> refused e
      | (Inr _, ls) \<Rightarrow>
         (let st1 = name_minimal_linked_thread env w l (set_links ls st)
          in finish_linked_start (th_id child) w forked (ml_desired_title l)
               (start_loaded_turn env w child project prompt st1)))"

definition legacy_on_worker ::
  "'s start_environment \<Rightarrow> nat \<Rightarrow> int \<Rightarrow> int \<Rightarrow> continuation \<Rightarrow> thread \<Rightarrow> thread \<Rightarrow> project \<Rightarrow> source_anchor \<Rightarrow> string \<Rightarrow>
   's start_state \<Rightarrow> bool \<times> 's started" where
  "legacy_on_worker env w chat topic c child parent project anchor prompt st =
     (case resume_thread env w (th_id child) (pj_canonical_path project) st of
        (Some e, st1) \<Rightarrow> (False, (no_start, Some e), st1)
      | (None, st1) \<Rightarrow>
          activate_on_worker env w False
            (\<lambda>e. (False, (no_start, Some (pre_start_continuation_error (LinkFailed e) failure_ambiguous)), st1))
            (minimal_linked_thread_for_start chat topic parent project anchor (th_id child)
               (lw_generation (worker_of w st1))) c child project prompt st1)"

definition activate_legacy_continuation_on_worker ::
  "'s start_environment \<Rightarrow> int \<Rightarrow> int \<Rightarrow> continuation \<Rightarrow> thread \<Rightarrow> thread \<Rightarrow> project \<Rightarrow> source_anchor \<Rightarrow> string \<Rightarrow>
   's start_state \<Rightarrow> 's started" where
  "activate_legacy_continuation_on_worker env chat topic c child parent project anchor prompt st =
     (let pre = (\<lambda>e. Some (pre_start_continuation_error e failure_ambiguous)); source = source_id_for_linked parent anchor
      in if thread_looks_active_for_polling child
         then (case rehome_pending_commands_for_source chat topic source (sa_turn_id anchor) (th_id child)
                      (ls_commands (st_links st)) of
                 (Inl e, cs) \<Rightarrow> ((no_start, pre (CommandFailed e)), set_links ((st_links st)\<lparr>ls_commands := cs\<rparr>) st)
               | (Inr _, cs) \<Rightarrow>
                  (case enqueue_command env (command_for (th_id child) source (sa_turn_id anchor) project chat topic prompt)
                          (set_links ((st_links st)\<lparr>ls_commands := cs\<rparr>) st) of
                     (Some e, st1) \<Rightarrow> ((no_start, pre e), st1)
                   | (None, st1) \<Rightarrow>
                       ((no_start\<lparr>sr_thread := Some child, sr_turn_id := th_active_turn_id child, sr_queued := True\<rparr>, None), st1)))
         else (case acquire_worker env (''link:'' @ th_id child) (th_id child) st of
             (Inl e, st1) \<Rightarrow> ((no_start, Some (WorkerFailed e)), st1)
           | (Inr w, st1) \<Rightarrow>
               release_unless_kept env w (legacy_on_worker env w chat topic c child parent project anchor prompt st1)))"

text \<open>The part of a new fork after the worker was acquired.\<close>

definition fork_on_worker ::
  "'s start_environment \<Rightarrow> nat \<Rightarrow> int \<Rightarrow> int \<Rightarrow> continuation \<Rightarrow> thread \<Rightarrow> project \<Rightarrow> source_anchor \<Rightarrow> string \<Rightarrow>
   's start_state \<Rightarrow> bool \<times> 's started" where
  "fork_on_worker env w chat topic c parent project anchor prompt st =
     (let source = source_id_for_linked parent anchor;
          refuse = (\<lambda>e st. (False, (no_start, Some e), fail_continuation env c failure_ambiguous st))
      in case call_app_server env (ThreadForkCall w source (pj_canonical_path project) (sa_turn_id anchor)) st of
           (Inl e, st1) \<Rightarrow>
             (let kind = minimal_continuation_fork_failure_kind e
              in (False, (no_start, Some (ForkFailed e kind True)), fail_continuation env c kind st1))
         | (Inr payload, st1) \<Rightarrow>
            (case sanitize_forked_continuation_child env payload source project of
               Inl e \<Rightarrow> refuse (pre_start_continuation_error e failure_ambiguous) st1
             | Inr child \<Rightarrow>
                (case bind_thread w (th_id child) (st_manager st1) of
                   Inl e \<Rightarrow> refuse (ForkFailed (WorkerFailed e) failure_ambiguous True) st1
                 | Inr m \<Rightarrow>
                     (let st2 = st1\<lparr>st_manager := m\<rparr>
                     in activate_on_worker env w True
                          (\<lambda>e. refuse (ForkFailed (LinkFailed e) failure_ambiguous True) st2)
                          (minimal_linked_thread_for_start chat topic parent project anchor (th_id child)
                             (lw_generation (worker_of w st2))) c child project prompt st2))))"

definition create_canonical_linked_turn ::
  "'s start_environment \<Rightarrow> int \<Rightarrow> int \<Rightarrow> thread \<Rightarrow> project \<Rightarrow> source_anchor \<Rightarrow> string \<Rightarrow> 's start_state \<Rightarrow> 's started" where
  "create_canonical_linked_turn env chat topic parent project anchor prompt st =
     (let pre = (\<lambda>e. Some (pre_start_continuation_error e failure_ambiguous)); source = source_id_for_linked parent anchor;
          seed = \<lparr>co_key = \<lparr>ck_chat_id = chat, ck_topic_id = topic, ck_source_thread_id = source,
                            ck_source_turn_id = sa_turn_id anchor\<rparr>,
                  co_project_id = pj_id project, co_fork_thread_id = [], co_status = CnCreating, co_failure_kind = []\<rparr>
      in if source = [] \<or> trim_space (sa_turn_id anchor) = []
         then ((no_start, pre (PlainError ''minimal linked source anchor is required'')), st)
         else case claim_minimal_continuation (en_now env) seed (st_links st) of
           (Inl e, ls) \<Rightarrow> ((no_start, pre (LinkFailed e)), set_links ls st)
         | (Inr (None, created), ls) \<Rightarrow>
             ((no_start, pre (PlainError ''minimal continuation is unavailable'')), set_links ls st)
         | (Inr (Some c, False), ls) \<Rightarrow>
            (case load_continuation_child env c project (set_links ls st) of
               Inl e \<Rightarrow> ((no_start, pre e), set_links ls st)
             | Inr child \<Rightarrow>
                 activate_legacy_continuation_on_worker env chat topic c child parent project anchor prompt (set_links ls st))
         | (Inr (Some c, True), ls) \<Rightarrow>
            (case acquire_worker env (''link:'' @ chat_key chat topic @ '':'' @ source) [] (set_links ls st) of
               (Inl e, st1) \<Rightarrow> ((no_start, pre (WorkerFailed e)), fail_continuation env c failure_ambiguous st1)
             | (Inr w, st1) \<Rightarrow>
                 release_unless_kept env w (fork_on_worker env w chat topic c parent project anchor prompt st1)))"

section \<open>The choice\<close>

definition start_linked_turn ::
  "'s start_environment \<Rightarrow> int \<Rightarrow> int \<Rightarrow> thread \<Rightarrow> project \<Rightarrow> source_anchor \<Rightarrow> string \<Rightarrow> 's start_state \<Rightarrow> 's started" where
  "start_linked_turn env chat topic parent project anchor prompt st =
     (if trim_space (th_id parent) = [] then ((no_start, Some (PlainError ''source thread is required'')), st)
      else case get_minimal_linked_thread (en_protector env) chat topic (source_id_for_linked parent anchor) (st_links st) of
        Inl e \<Rightarrow> ((no_start, Some (LinkFailed e)), st)
      | Inr (Some l) \<Rightarrow>
          if trim_space (ml_linked_thread_id l) \<noteq> []
          then start_canonical_linked_turn env chat topic l parent project anchor prompt st
          else create_canonical_linked_turn env chat topic parent project anchor prompt st
      | Inr None \<Rightarrow> create_canonical_linked_turn env chat topic parent project anchor prompt st)"

definition start_resumed_or_linked_turn_with_policy ::
  "'s start_environment \<Rightarrow> int \<Rightarrow> int \<Rightarrow> thread \<Rightarrow> project \<Rightarrow> source_anchor \<Rightarrow> string \<Rightarrow> bool \<Rightarrow> 's start_state \<Rightarrow> 's started" where
  "start_resumed_or_linked_turn_with_policy env chat topic parent project anchor prompt allow_source_link st =
     (if allow_source_link \<and> should_use_continuation_for_source (st_states st) parent anchor
      then start_linked_turn env chat topic parent project anchor prompt st
      else case start_existing_thread_on_worker env parent project prompt st of
        ((result, None), st1) \<Rightarrow> ((result, None), st1)
      | ((result, Some e), st1) \<Rightarrow>
          if \<not> is_active_writer_conflict e (th_id parent) then ((no_start, Some e), st1)
          else case get_minimal_linked_thread_by_linked_id (en_protector env) (th_id parent) (st_links st1) of
            Inl le \<Rightarrow> ((no_start, Some (LinkFailed le)), st1)
          | Inr (Some l) \<Rightarrow>
              ((no_start\<lparr>sr_thread := Some parent, sr_link_title := ml_desired_title l\<rparr>, Some OwnedByCodex),
               set_links (snd (record_minimal_linked_blocked (ml_linked_thread_id l) ''active_writer'' (en_now env)
                 (st_links st1))) st1)
          | Inr None \<Rightarrow>
              if \<not> allow_source_link
              then ((no_start\<lparr>sr_thread := Some parent, sr_link_title := safe_continuation_source_title parent\<rparr>,
                     Some OwnedByCodex), st1)
              else start_linked_turn env chat topic parent project anchor prompt st1)"

definition start_resumed_or_linked_turn ::
  "'s start_environment \<Rightarrow> int \<Rightarrow> int \<Rightarrow> thread \<Rightarrow> project \<Rightarrow> source_anchor \<Rightarrow> string \<Rightarrow> 's start_state \<Rightarrow> 's started" where
  "start_resumed_or_linked_turn env chat topic parent project anchor prompt st =
     start_resumed_or_linked_turn_with_policy env chat topic parent project anchor prompt True st"

end
