(* ===== verification/Queue_Drain.thy ===== *)
theory Queue_Drain
  imports Turn_Start
begin

text \<open>
  The queue of a thread (\<^verbatim>\<open>DrainNext\<close>, \<^verbatim>\<open>drainNextLocked\<close> and \<^verbatim>\<open>startQueuedCommand\<close> of
  \<^verbatim>\<open>internal/daemon/minimal_router.go\<close>): the oldest
  waiting command is claimed and started; a command that cannot start is failed, its owner is told,
  and the next one is tried; a command that must wait is put back.
\<close>

section \<open>Texts\<close>

definition text_queued :: string where
  "text_queued = [CHR 0xED, CHR 0x98, CHR 0x84, CHR 0xEC, CHR 0x9E, CHR 0xAC, CHR 0x20, CHR 0xEC, CHR 0x9E,
     CHR 0x91, CHR 0xEC, CHR 0x97, CHR 0x85, CHR 0x20, CHR 0xEB, CHR 0x92, CHR 0xA4, CHR 0xEC,
     CHR 0x97, CHR 0x90, CHR 0x20, CHR 0xEC, CHR 0x8B, CHR 0xA4, CHR 0xED, CHR 0x96, CHR 0x89,
     CHR 0xED, CHR 0x95, CHR 0x98, CHR 0xEB, CHR 0x8F, CHR 0x84, CHR 0xEB, CHR 0xA1, CHR 0x9D,
     CHR 0x20, CHR 0xEB, CHR 0x8C, CHR 0x80, CHR 0xEA, CHR 0xB8, CHR 0xB0, CHR 0xEC, CHR 0x97,
     CHR 0xB4, CHR 0xEC, CHR 0x97, CHR 0x90, CHR 0x20, CHR 0xEC, CHR 0xB6, CHR 0x94, CHR 0xEA,
     CHR 0xB0, CHR 0x80, CHR 0xED, CHR 0x96, CHR 0x88, CHR 0xEC, CHR 0x8A, CHR 0xB5, CHR 0xEB,
     CHR 0x8B, CHR 0x88, CHR 0xEB, CHR 0x8B, CHR 0xA4, CHR 0x2E]"

definition text_started :: string where
  "text_started = [CHR 0xEC, CHR 0x9E, CHR 0x91, CHR 0xEC, CHR 0x97, CHR 0x85, CHR 0xEC, CHR 0x9D, CHR 0x84,
     CHR 0x20, CHR 0xEC, CHR 0x8B, CHR 0x9C, CHR 0xEC, CHR 0x9E, CHR 0x91, CHR 0xED, CHR 0x96,
     CHR 0x88, CHR 0xEC, CHR 0x8A, CHR 0xB5, CHR 0xEB, CHR 0x8B, CHR 0x88, CHR 0xEB, CHR 0x8B,
     CHR 0xA4, CHR 0x2E]"

definition text_new_started :: string where
  "text_new_started = [CHR 0xEC, CHR 0x83, CHR 0x88, CHR 0x20, CHR 0xEC, CHR 0x9E, CHR 0x91, CHR 0xEC, CHR 0x97,
     CHR 0x85, CHR 0xEC, CHR 0x9D, CHR 0x84, CHR 0x20, CHR 0xEC, CHR 0x8B, CHR 0x9C, CHR 0xEC,
     CHR 0x9E, CHR 0x91, CHR 0xED, CHR 0x96, CHR 0x88, CHR 0xEC, CHR 0x8A, CHR 0xB5, CHR 0xEB,
     CHR 0x8B, CHR 0x88, CHR 0xEB, CHR 0x8B, CHR 0xA4, CHR 0x2E]"

definition text_not_started :: string where
  "text_not_started = [CHR 0xEB, CHR 0x8C, CHR 0x80, CHR 0xEA, CHR 0xB8, CHR 0xB0, CHR 0x20, CHR 0xEC, CHR 0xA4,
     CHR 0x91, CHR 0xEC, CHR 0x9D, CHR 0xB8, CHR 0x20, CHR 0xEC, CHR 0x9E, CHR 0x91, CHR 0xEC,
     CHR 0x97, CHR 0x85, CHR 0xEC, CHR 0x9D, CHR 0x84, CHR 0x20, CHR 0xEC, CHR 0x8B, CHR 0x9C,
     CHR 0xEC, CHR 0x9E, CHR 0x91, CHR 0xED, CHR 0x95, CHR 0x98, CHR 0xEC, CHR 0xA7, CHR 0x80,
     CHR 0x20, CHR 0xEB, CHR 0xAA, CHR 0xBB, CHR 0xED, CHR 0x96, CHR 0x88, CHR 0xEC, CHR 0x8A,
     CHR 0xB5, CHR 0xEB, CHR 0x8B, CHR 0x88, CHR 0xEB, CHR 0x8B, CHR 0xA4, CHR 0x2E]"

section \<open>One command\<close>

text \<open>The turn, the thread as it is afterwards, and the error.\<close>

type_synonym 's queued_start = "(string \<times> thread \<times> start_error option) \<times> 's start_state"

definition thread_after :: "thread \<Rightarrow> start_result \<Rightarrow> thread" where
  "thread_after t r = (case sr_thread r of None \<Rightarrow> t | Some t' \<Rightarrow> t')"

definition queued_outcome ::
  "thread \<Rightarrow> (start_error \<Rightarrow> start_error) \<Rightarrow> 's started \<Rightarrow> 's queued_start" where
  "queued_outcome t wrap out =
     (let ((r, err), st) = out
      in ((sr_turn_id r, thread_after t r,
           case err of
             None \<Rightarrow> None
           | Some e \<Rightarrow> Some (if trim_space (sr_turn_id r) = [] \<and> is_pre_turn_worker_error e then wrap e else e)), st))"

definition link_of_command :: "project \<Rightarrow> pending_command \<Rightarrow> linked_thread \<Rightarrow> bool" where
  "link_of_command project c l \<longleftrightarrow>
     ml_chat_id l = cm_chat_id c \<and> ml_topic_id l = cm_topic_id c \<and> trim_space (ml_project_id l) = pj_id project \<and>
     trim_space (ml_source_thread_id l) = trim_space (cm_source_thread_id c)"

definition start_command_in_link ::
  "'s start_environment \<Rightarrow> thread \<Rightarrow> project \<Rightarrow> pending_command \<Rightarrow> linked_thread \<Rightarrow> 's start_state \<Rightarrow> 's queued_start" where
  "start_command_in_link env t project c l st =
     (let state = trim_space (ml_state l); busy = PlainError ''minimal linked thread is not ready'';
          source = empty_thread\<lparr>th_id := trim_space (ml_source_thread_id l), th_cwd := pj_canonical_path project,
                               th_project_name := pj_display_name project, th_title := ml_source_title l\<rparr>;
          anchor = \<lparr>sa_thread_id = th_id source, sa_turn_id = trim_space (cm_source_turn_id c),
                    sa_status = ''completed'', sa_pc_origin = True\<rparr>
      in if state = linked_running \<or> state = linked_release_pending then (([], t, Some (NoRemoteStart busy)), st)
         else if state \<noteq> [] \<and> state \<noteq> linked_ready then (([], t, Some busy), st)
         else queued_outcome t NoRemoteStart
           (start_canonical_linked_turn env (cm_chat_id c) (cm_topic_id c) l source project anchor (cm_prompt c) st))"

definition start_command_elsewhere ::
  "'s start_environment \<Rightarrow> thread \<Rightarrow> project \<Rightarrow> pending_command \<Rightarrow> 's start_state \<Rightarrow> 's queued_start" where
  "start_command_elsewhere env t project c st =
     (let wrap = (\<lambda>e. pre_start_continuation_error e failure_ambiguous)
      in if trim_space (cm_source_thread_id c) = th_id t \<and> trim_space (cm_source_turn_id c) \<noteq> []
         then queued_outcome t wrap
                (start_resumed_or_linked_turn env (cm_chat_id c) (cm_topic_id c) t project
                   \<lparr>sa_thread_id = cm_source_thread_id c, sa_turn_id = cm_source_turn_id c, sa_status = ''completed'',
                    sa_pc_origin = False\<rparr> (cm_prompt c) st)
         else queued_outcome t wrap (start_existing_thread_on_worker env t project (cm_prompt c) st))"

definition start_queued_command ::
  "'s start_environment \<Rightarrow> thread \<Rightarrow> project \<Rightarrow> pending_command \<Rightarrow> 's start_state \<Rightarrow> 's queued_start" where
  "start_queued_command env t project c st =
     (let source = trim_space (cm_source_thread_id c)
      in if source \<noteq> [] \<and> trim_space (cm_source_turn_id c) \<noteq> [] \<and> source \<noteq> trim_space (th_id t)
         then (case get_minimal_linked_thread_by_linked_id (en_protector env) (th_id t) (st_links st) of
                 Inl e \<Rightarrow> (([], t, Some (LinkFailed e)), st)
               | Inr (Some l) \<Rightarrow>
                   if link_of_command project c l then start_command_in_link env t project c l st
                   else start_command_elsewhere env t project c st
               | Inr None \<Rightarrow> start_command_elsewhere env t project c st)
         else start_command_elsewhere env t project c st)"

section \<open>The loop\<close>

definition update_commands :: "command_table \<Rightarrow> 's start_state \<Rightarrow> 's start_state" where
  "update_commands cs st = set_links ((st_links st)\<lparr>ls_commands := cs\<rparr>) st"

definition finalize_claimed ::
  "string \<Rightarrow> (nat \<Rightarrow> command_table \<Rightarrow> (command_error, unit) result \<times> command_table) \<Rightarrow> nat \<Rightarrow> 's start_state \<Rightarrow>
   start_error option \<times> 's start_state" where
  "finalize_claimed what operation i st =
     (case operation i (ls_commands (st_links st)) of
        (Inl e, cs) \<Rightarrow> (Some (Wrapped what (CommandFailed e)), update_commands cs st)
      | (Inr _, cs) \<Rightarrow> (None, update_commands cs st))"

definition fail_claimed_command :: "nat \<Rightarrow> 's start_state \<Rightarrow> start_error option \<times> 's start_state" where
  "fail_claimed_command = finalize_claimed ''finalize failed pending command'' fail_pending_command"

definition release_claimed_command :: "nat \<Rightarrow> 's start_state \<Rightarrow> start_error option \<times> 's start_state" where
  "release_claimed_command = finalize_claimed ''release pending command for retry'' release_claimed_pending_command"

definition complete_command :: "nat \<Rightarrow> 's start_state \<Rightarrow> start_error option \<times> 's start_state" where
  "complete_command i st =
     (case complete_pending_command i (ls_commands (st_links st)) of
        (Inl e, cs) \<Rightarrow> (Some (CommandFailed e), update_commands cs st)
      | (Inr _, cs) \<Rightarrow> (None, update_commands cs st))"

text \<open>Whom \<^verbatim>\<open>notifyFailedStart\<close> tells: the owner's chat, else the chat of the command.\<close>

definition failed_start_notice :: "kv_table \<Rightarrow> pending_command \<Rightarrow> (int \<times> int) list" where
  "failed_start_notice kv c =
     (let (chat, topic) = (case fst (get_global_observer_target kv) of
                             Some target \<Rightarrow> (ot_chat_id target, ot_topic_id target)
                           | None \<Rightarrow> (cm_chat_id c, cm_topic_id c))
      in if chat = 0 then [] else [(chat, topic)])"

text \<open>What became of a claimed command: the drain is over, or the next command is tried.\<close>

datatype 's drained =
    DrainEnds "start_error option" "(int \<times> int) list" "'s start_state"
  | DrainGoesOn thread "(int \<times> int) list" "'s start_state"

definition fail_and_go_on ::
  "pending_command \<Rightarrow> thread \<Rightarrow> 's start_state \<Rightarrow> 's drained" where
  "fail_and_go_on c t st =
     (let (err, st1) = fail_claimed_command (cm_id c) st; told = failed_start_notice (st_states st1) c
      in if err \<noteq> None then DrainEnds err told st1 else DrainGoesOn t told st1)"

fun no_remote_start :: "start_error \<Rightarrow> bool" where
  "no_remote_start (NoRemoteStart e) = True"
| "no_remote_start (PreTurn e) = no_remote_start e"
| "no_remote_start (ForkFailed e kind unsent) = no_remote_start e"
| "no_remote_start (Wrapped s e) = no_remote_start e"
| "no_remote_start _ = False"

definition must_wait :: "start_error \<Rightarrow> bool" where
  "must_wait e \<longleftrightarrow>
     no_remote_start e \<or> owned_by_codex e \<or>
     (case fork_error_of e of None \<Rightarrow> False | Some (kind, unsent) \<Rightarrow> unsent)"

definition run_claimed_command ::
  "'s start_environment \<Rightarrow> thread \<Rightarrow> pending_command \<Rightarrow> 's start_state \<Rightarrow> 's drained" where
  "run_claimed_command env t c st =
     (case project_for_thread env t of
        Inl e \<Rightarrow> fail_and_go_on c t st
      | Inr (project, cwd) \<Rightarrow>
          if pj_id project \<noteq> cm_project_id c then fail_and_go_on c t st
          else (case start_queued_command env (t\<lparr>th_cwd := cwd\<rparr>) project c st of
            ((turn, t', err), st1) \<Rightarrow>
              if trim_space turn \<noteq> []
              then (case err of
                      Some e \<Rightarrow> DrainEnds (Some (Wrapped ''persist remotely started turn'' e)) [] st1
                    | None \<Rightarrow> (case complete_command (cm_id c) st1 of (err', st2) \<Rightarrow> DrainEnds err' [] st2))
              else (case err of
                      Some e \<Rightarrow>
                        if must_wait e
                        then (case release_claimed_command (cm_id c) st1 of (err', st2) \<Rightarrow> DrainEnds err' [] st2)
                        else fail_and_go_on c t' st1
                    | None \<Rightarrow> fail_and_go_on c t' st1)))"

text \<open>The loop need not end: a start may queue another command for the same thread.\<close>

partial_function (option) drain_from ::
  "'s start_environment \<Rightarrow> string \<Rightarrow> thread \<Rightarrow> 's start_state \<Rightarrow>
   (start_error option \<times> (int \<times> int) list \<times> 's start_state) option" where
  "drain_from env thread t st =
     (case claim_pending_command (en_protector env) thread (ls_commands (st_links st)) of
        (Inl e, cs) \<Rightarrow> Some (Some (CommandFailed e), [], update_commands cs st)
      | (Inr None, cs) \<Rightarrow> Some (None, [], update_commands cs st)
      | (Inr (Some (c, claim_err)), cs) \<Rightarrow>
         (case (if claim_err \<noteq> None then fail_and_go_on c t (update_commands cs st)
                else run_claimed_command env t c (update_commands cs st)) of
            DrainEnds err told st1 \<Rightarrow> Some (err, told, st1)
          | DrainGoesOn t' told st1 \<Rightarrow>
              Option.bind (drain_from env thread t' st1) (\<lambda>(err, told', st2). Some (err, told @ told', st2))))"

definition drain_next_locked ::
  "'s start_environment \<Rightarrow> string \<Rightarrow> 's start_state \<Rightarrow> (start_error option \<times> (int \<times> int) list \<times> 's start_state) option" where
  "drain_next_locked env thread st =
     (case get_thread thread (ls_threads (st_links st)) of
        None \<Rightarrow> Some (None, [], st)
      | Some t \<Rightarrow> if thread_looks_active_for_polling t then Some (None, [], st) else drain_from env thread t st)"

definition drain_next ::
  "'s start_environment \<Rightarrow> string \<Rightarrow> 's start_state \<Rightarrow> (start_error option \<times> (int \<times> int) list \<times> 's start_state) option" where
  "drain_next env thread0 st =
     (let thread = trim_space thread0
      in if en_profile env \<noteq> ''minimal'' then Some (None, [], st)
         else if thread = [] then Some (Some (PlainError ''thread id is required''), [], st)
         else drain_next_locked env thread st)"

end
