(* ===== verification/Turn_Safety.thy ===== *)
theory Turn_Safety
  imports Queue_Drain
begin

text \<open>
  What every start of a turn keeps: a turn runs only inside a registered project, with the write
  access of that project and with every other action up for approval; and at most one of the
  requests of a start may have begun a turn.
\<close>

section \<open>The calls of a start\<close>

definition is_turn_start :: "app_call \<Rightarrow> bool" where
  "is_turn_start c \<longleftrightarrow> (case c of TurnStartCall w t prompt cwd options \<Rightarrow> True | _ \<Rightarrow> False)"

definition turn_starts :: "app_call list \<Rightarrow> app_call list" where
  "turn_starts cs = filter is_turn_start cs"

text \<open>A turn confined to a project: what it may write, where it runs, and who is asked.\<close>

definition confined :: "'s start_environment \<Rightarrow> app_call \<Rightarrow> bool" where
  "confined env c \<longleftrightarrow>
     (case c of
        TurnStartCall w t prompt cwd options \<Rightarrow>
          to_approval_policy options = ''on-request'' \<and> to_sandbox_type options = ''workspaceWrite'' \<and>
          \<not> to_network_access options \<and>
          (\<exists>p\<in>set (rg_projects (en_registry env)).
             to_writable_roots options = [pj_canonical_path p] \<and> current (en_host env) (en_files env) p \<and>
             (\<exists>directory. canonical_directory (en_host env) (en_files env) cwd = Inr directory \<and>
                          contains_path (en_host env) (pj_canonical_path p) directory))
      | _ \<Rightarrow> True)"

text \<open>
  Whether a call began a turn. The App Server acknowledges one with its id, and it refuses one with an
  error answer of its own (\<^verbatim>\<open>RPCError\<close>). Of any other call, such as one that timed out after it was
  written, the program does not know: it may have begun a turn.
\<close>

definition began :: "'s start_environment \<Rightarrow> app_call list \<Rightarrow> app_call \<Rightarrow> bool" where
  "began env before c \<longleftrightarrow>
     is_turn_start c \<and>
     (case en_answer env before c of Inl e \<Rightarrow> False | Inr payload \<Rightarrow> trim_space (app_server_thread_turn_id payload) \<noteq> [])"

definition may_have_begun :: "'s start_environment \<Rightarrow> app_call list \<Rightarrow> app_call \<Rightarrow> bool" where
  "may_have_begun env before c \<longleftrightarrow>
     is_turn_start c \<and> (case en_answer env before c of Inl e \<Rightarrow> rpc_error_of e = None | Inr payload \<Rightarrow> True)"

fun begun :: "'s start_environment \<Rightarrow> app_call list \<Rightarrow> app_call list \<Rightarrow> nat" where
  "begun env before [] = 0"
| "begun env before (c # cs) = (if began env before c then 1 else 0) + begun env (before @ [c]) cs"

fun possible_turns :: "'s start_environment \<Rightarrow> app_call list \<Rightarrow> app_call list \<Rightarrow> nat" where
  "possible_turns env before [] = 0"
| "possible_turns env before (c # cs) = (if may_have_begun env before c then 1 else 0) + possible_turns env (before @ [c]) cs"

text \<open>No start of a turn follows an acknowledged one.\<close>

fun ends_with_turn :: "'s start_environment \<Rightarrow> app_call list \<Rightarrow> app_call list \<Rightarrow> bool" where
  "ends_with_turn env before [] = True"
| "ends_with_turn env before (c # cs) =
     (if began env before c then turn_starts cs = [] else ends_with_turn env (before @ [c]) cs)"

definition quiet :: "'s start_state \<Rightarrow> 's start_state \<Rightarrow> bool" where
  "quiet st st' \<longleftrightarrow> (\<exists>cs. st_calls st' = st_calls st @ cs \<and> turn_starts cs = [])"

text \<open>
  From one state to another: every start of a turn was confined, at most \<^verbatim>\<open>k\<close> turns were acknowledged
  and at most \<^verbatim>\<open>n\<close> may have begun.
\<close>

definition turns :: "'s start_environment \<Rightarrow> nat \<Rightarrow> nat \<Rightarrow> 's start_state \<Rightarrow> 's start_state \<Rightarrow> bool" where
  "turns env k n st st' \<longleftrightarrow>
     (\<exists>cs. st_calls st' = st_calls st @ cs \<and> list_all (confined env) (turn_starts cs) \<and>
        ends_with_turn env (st_calls st) cs \<and> begun env (st_calls st) cs \<le> k \<and> possible_turns env (st_calls st) cs \<le> n)"

definition told_turns :: "string \<Rightarrow> nat" where
  "told_turns turn = (if trim_space turn = [] then 0 else 1)"

text \<open>A start that reports the error answer of the App Server has begun nothing.\<close>

definition chance :: "start_error option \<Rightarrow> nat" where
  "chance err = (case err of None \<Rightarrow> 1 | Some e \<Rightarrow> if rpc_error_of e = None then 1 else 0)"

text \<open>A start is honest if no turn but the one it reports was acknowledged, and at most one may have begun.\<close>

definition honest :: "'s start_environment \<Rightarrow> 's start_state \<Rightarrow> 's started \<Rightarrow> bool" where
  "honest env st out \<longleftrightarrow> turns env (told_turns (sr_turn_id (fst (fst out)))) (chance (snd (fst out))) st (snd out)"

lemma quiet_same: "st_calls st' = st_calls st \<Longrightarrow> quiet st st'"
  by (simp add: quiet_def turn_starts_def)

lemma quiet_refl [simp]: "quiet st st"
  by (rule quiet_same) simp

lemma quiet_trans: "quiet st st1 \<Longrightarrow> quiet st1 st2 \<Longrightarrow> quiet st st2"
  by (auto simp: quiet_def turn_starts_def)

lemma turn_starts_simps [simp]:
  "turn_starts [] = []" "turn_starts (cs @ ds) = turn_starts cs @ turn_starts ds"
  "turn_starts (c # cs) = (if is_turn_start c then c # turn_starts cs else turn_starts cs)"
  by (simp_all add: turn_starts_def)

lemma begun_append: "begun env before (cs @ ds) = begun env before cs + begun env (before @ cs) ds"
  by (induction env before cs rule: begun.induct) simp_all

lemma possible_append:
  "possible_turns env before (cs @ ds) = possible_turns env before cs + possible_turns env (before @ cs) ds"
  by (induction env before cs rule: possible_turns.induct) simp_all

lemma ends_append:
  "begun env before cs = 0 \<Longrightarrow> ends_with_turn env before (cs @ ds) \<longleftrightarrow> ends_with_turn env (before @ cs) ds"
  by (induction env before cs rule: begun.induct) (simp_all split: if_splits)

lemma ends_append_quiet:
  "turn_starts ds = [] \<Longrightarrow> ends_with_turn env before cs \<Longrightarrow> ends_with_turn env before (cs @ ds)"
proof (induction env before cs rule: begun.induct)
  case (1 env before)
  have "ends_with_turn env before ds" using "1.prems"(1)
    by (induction env before ds rule: begun.induct) (auto split: if_splits)
  then show ?case by simp
qed (auto split: if_splits)

lemma turns_quiet:
  assumes "turn_starts cs = []"
  shows "begun env before cs = 0" "possible_turns env before cs = 0" "ends_with_turn env before cs"
  using assms by (induction env before cs rule: begun.induct) (auto simp: began_def may_have_begun_def split: if_splits)

lemma quiet_turns: "quiet st st' \<Longrightarrow> turns env k n st st'"
  by (force simp: quiet_def turns_def turns_quiet)

lemma turns_trans: "turns env 0 m st st1 \<Longrightarrow> turns env k n st1 st2 \<Longrightarrow> turns env k (m + n) st st2"
  unfolding turns_def by (force simp: begun_append possible_append ends_append)

lemma turns_then_quiet: "turns env k n st st1 \<Longrightarrow> quiet st1 st2 \<Longrightarrow> turns env k n st st2"
  unfolding turns_def quiet_def
  by (elim exE conjE, rule_tac x = "cs @ csa" in exI)
    (simp add: begun_append possible_append turns_quiet ends_append_quiet)

lemma turns_mono: "turns env k n st st' \<Longrightarrow> k \<le> k' \<Longrightarrow> n \<le> n' \<Longrightarrow> turns env k' n' st st'"
  unfolding turns_def using le_trans by blast

lemma turns_after_quiet: "quiet st st1 \<Longrightarrow> turns env k n st1 st2 \<Longrightarrow> turns env k n st st2"
  using turns_trans [of env 0 st st1 k n st2] quiet_turns [of st st1 env 0 0] by simp

lemma honest_after_quiet: "quiet st st1 \<Longrightarrow> honest env st1 out \<Longrightarrow> honest env st out"
  unfolding honest_def by (rule turns_after_quiet)

lemma quiet_honest: "quiet st (snd out) \<Longrightarrow> honest env st out"
  unfolding honest_def by (rule quiet_turns)

text \<open>The parts of a start that make no call.\<close>

lemma same_calls [simp]:
  "st_calls (set_links ls st) = st_calls st"
  "st_calls (persist env t st) = st_calls st"
  "st_calls (fail_continuation env c kind st) = st_calls st"
  "st_calls (release_minimal_worker env w st) = st_calls st"
  "st_calls (ensure_started_turn_snapshot env t turn st) = st_calls st"
  "st_calls (snd (acquire_worker env key linked st)) = st_calls st"
  "st_calls (snd (enqueue_command env cmd st)) = st_calls st"
  by (simp_all add: set_links_def persist_def fail_continuation_def release_minimal_worker_def
      ensure_started_turn_snapshot_def acquire_worker_def enqueue_command_def Let_def case_prod_beta
      split: option.split sum.split)

lemma call_calls: "call_app_server env c st = (res, st') \<Longrightarrow> st_calls st' = st_calls st @ [c]"
  by (auto simp: call_app_server_def)

lemma call_quiet: "call_app_server env c st = (res, st') \<Longrightarrow> \<not> is_turn_start c \<Longrightarrow> quiet st st'"
  by (simp add: quiet_def call_calls turn_starts_def)

lemma acquire_quiet: "acquire_worker env key linked st = (res, st') \<Longrightarrow> quiet st st'"
  using same_calls(6) [of env key linked st] by (auto intro: quiet_same)

lemma enqueue_quiet: "enqueue_command env c st = (res, st') \<Longrightarrow> quiet st st'"
  using same_calls(7) [of env c st] by (auto intro: quiet_same)

lemma resume_quiet: "resume_thread env w t cwd st = (res, st') \<Longrightarrow> quiet st st'"
  by (auto simp: resume_thread_def is_turn_start_def split: prod.split_asm sum.split_asm dest: call_quiet)

lemma name_quiet: "quiet st (name_minimal_linked_thread env w l st)"
  by (auto simp: name_minimal_linked_thread_def Let_def split: prod.split sum.split)
    (force simp: quiet_def turn_starts_def is_turn_start_def dest: call_calls)+

lemma read_title_quiet: "read_minimal_linked_source_title env w source st = (title, st') \<Longrightarrow> quiet st st'"
  by (auto simp: read_minimal_linked_source_title_def Let_def is_turn_start_def split: if_splits prod.splits sum.splits
      dest: call_quiet)

lemma quiet_links [simp]: "quiet st (set_links ls st') \<longleftrightarrow> quiet st st'"
  by (simp add: quiet_def)

lemma hydrate_quiet: "hydrate_minimal_linked_title env w l parent st = (out, st') \<Longrightarrow> quiet st st'"
  by (auto simp: hydrate_minimal_linked_title_def Let_def split: if_splits prod.splits sum.splits option.splits
      dest: read_title_quiet)

section \<open>The turn itself\<close>

definition registry_fits :: "'s start_environment \<Rightarrow> bool" where
  "registry_fits env \<longleftrightarrow> registry_ok (en_host env) (en_registry env)"

lemma match_cwd_Some:
  assumes "registry_ok h reg" "match_cwd h fs reg cwd = Some p"
  obtains directory where "canonical_directory h fs cwd = Inr directory" "p \<in> set (rg_projects reg)" "current h fs p"
    "contains_path h (pj_canonical_path p) directory"
proof -
  obtain directory where d: "canonical_directory h fs cwd = Inr directory"
      "fold (better_match h fs reg directory) (rg_projects reg) None = Some p"
    using assms(2) by (auto simp: match_cwd_def split: sum.splits)
  show ?thesis
    using that [OF d(1)] d(2) fold_better_match [OF assms(1) order_refl refl, where fs = fs and cwd = directory and best = None]
    by auto
qed

lemma project_for_thread_Inr:
  assumes "registry_fits env" "project_for_thread env t = Inr (p, cwd)"
  obtains directory where "canonical_directory (en_host env) (en_files env) cwd = Inr directory"
    "p \<in> set (rg_projects (en_registry env))" "current (en_host env) (en_files env) p"
    "contains_path (en_host env) (pj_canonical_path p) directory"
proof -
  obtain q where q: "match_cwd (en_host env) (en_files env) (en_registry env) cwd = Some q"
      "resolve_project (en_host env) (en_files env) (en_registry env) (pj_id q) = Inr p"
    using assms(2) by (auto simp: project_for_thread_def split: sum.splits option.splits)
  have reg: "registry_ok (en_host env) (en_registry env)" using assms(1) by (simp add: registry_fits_def)
  from match_cwd_Some [OF reg q(1)] obtain directory where d: "canonical_directory (en_host env) (en_files env) cwd = Inr directory"
      "q \<in> set (rg_projects (en_registry env))" "current (en_host env) (en_files env) q"
      "contains_path (en_host env) (pj_canonical_path q) directory" by blast
  moreover have "p = q" using q(2) resolve_cached [OF reg d(2)] by simp
  ultimately show ?thesis using that by blast
qed

lemma loaded_turn:
  assumes "registry_fits env" "start_loaded_turn env w t project prompt st = ((turn, t', err), st')"
  shows "turns env (told_turns turn) (chance err) st st' \<and> (err = None \<longleftrightarrow> trim_space turn \<noteq> [])"
proof (cases "\<exists>p cwd q. project_for_thread env t = Inr (p, cwd) \<and> pj_id p = pj_id project \<and>
    resolve_project (en_host env) (en_files env) (en_registry env) (pj_id project) = Inr q")
  case False
  then have "st' = st \<and> turn = [] \<and> err \<noteq> None" using assms(2)
    by (auto simp: start_loaded_turn_def split: sum.split_asm prod.split_asm if_split_asm)
  then show ?thesis by (auto intro: quiet_turns)
next
  case True
  then obtain p cwd q where p: "project_for_thread env t = Inr (p, cwd)" "pj_id p = pj_id project"
      "resolve_project (en_host env) (en_files env) (en_registry env) (pj_id project) = Inr q" by blast
  from project_for_thread_Inr [OF assms(1) p(1)] obtain directory where d:
      "canonical_directory (en_host env) (en_files env) cwd = Inr directory"
      "p \<in> set (rg_projects (en_registry env))" "current (en_host env) (en_files env) p"
      "contains_path (en_host env) (pj_canonical_path p) directory" by blast
  have "q = p" using p(2,3) resolve_cached [of "en_host env" "en_registry env" p] d(2) assms(1)
    by (simp add: registry_fits_def)
  let ?options = "(turn_start_options (st_states st) [] (Some t))
                    \<lparr>to_approval_policy := ''on-request'', to_sandbox_type := ''workspaceWrite'',
                     to_writable_roots := [pj_canonical_path p], to_network_access := False\<rparr>"
  let ?c = "TurnStartCall w (th_id t) prompt cwd ?options"
  have "confined env ?c" using d by (auto simp: confined_def)
  moreover have "st_calls st' = st_calls st @ [?c] \<and> (err = None \<longleftrightarrow> trim_space turn \<noteq> []) \<and>
      (began env (st_calls st) ?c \<longrightarrow> trim_space turn \<noteq> []) \<and> (may_have_begun env (st_calls st) ?c \<longrightarrow> chance err = 1)"
    using assms(2) p \<open>q = p\<close>
    by (auto simp: start_loaded_turn_def Let_def call_app_server_def began_def may_have_begun_def chance_def
        split: prod.split_asm sum.split_asm if_split_asm)
  ultimately show ?thesis by (auto simp: turns_def told_turns_def is_turn_start_def)
qed

definition loaded_honest :: "'s start_environment \<Rightarrow> 's start_state \<Rightarrow> (string \<times> thread \<times> start_error option) \<times> 's start_state \<Rightarrow> bool" where
  "loaded_honest env st out \<longleftrightarrow> turns env (told_turns (fst (fst out))) (chance (snd (snd (fst out)))) st (snd out)"

lemma loaded_start:
  assumes "registry_fits env" "quiet st st1"
  shows "loaded_honest env st (start_loaded_turn env w t project prompt st1)"
proof -
  obtain turn t' err st' where l: "start_loaded_turn env w t project prompt st1 = ((turn, t', err), st')"
    by (metis prod.collapse)
  show ?thesis using turns_after_quiet [OF assms(2)] loaded_turn [OF assms(1) l] by (simp add: loaded_honest_def l)
qed

section \<open>Every start\<close>

lemma release_honest [simp]: "honest env st (release_unless_kept env' w out) \<longleftrightarrow> honest env st (snd out)"
  by (simp add: release_unless_kept_def case_prod_beta honest_def turns_def)

lemma turns_simps [simp]:
  "turns env k n st (set_links ls st') \<longleftrightarrow> turns env k n st st'"
  "turns env k n (set_links ls st) st' \<longleftrightarrow> turns env k n st st'"
  by (simp_all add: turns_def)

lemma honest_links [simp]: "honest env (set_links ls st) out \<longleftrightarrow> honest env st out"
  by (simp add: honest_def)

lemma chance_le [simp]: "chance err \<le> Suc 0" "chance None = 1" "rpc_error_of e = None \<Longrightarrow> chance (Some e) = 1"
  by (simp_all add: chance_def split: option.split)

lemma turns_chance: "turns env k (chance err) st st' \<Longrightarrow> turns env k 1 st st'"
  using turns_mono [of env k "chance err" st st' k 1] by simp

lemma finish_honest: "loaded_honest env st out \<Longrightarrow> honest env st (snd (finish_linked_start linked w forked title out))"
  by (cases "fst out")
    (auto simp: finish_linked_start_def Let_def case_prod_beta loaded_honest_def honest_def told_turns_def no_start_def
      split: sum.split bool.split dest: turns_chance)

lemma told_blank [simp]: "trim_space turn = [] \<Longrightarrow> told_turns turn = 0"
  by (simp add: told_turns_def)

lemma told_none [simp]: "told_turns (sr_turn_id no_start) = 0" "sr_turn_id no_start = []"
  by (simp_all add: told_turns_def no_start_def)

lemma taken_honest:
  assumes "loaded_honest env st out"
  shows "honest env st (snd (case out of ((turn, t', err), st2) \<Rightarrow>
      if trim_space turn = [] \<and> err \<noteq> None then (k, (no_start, err), st2)
      else (True, (no_start\<lparr>sr_thread := Some t', sr_turn_id := turn\<rparr>, err), st2)))"
  using assms by (cases out) (auto simp: loaded_honest_def honest_def)

lemma resume_on_worker_honest:
  assumes "registry_fits env"
  shows "honest env st (snd (resume_on_worker env w acquired t project prompt st))"
proof -
  obtain err st1 where r: "(if acquired then resume_thread env w (th_id t) (pj_canonical_path project) st else (None, st)) = (err, st1)"
    by (cases "if acquired then resume_thread env w (th_id t) (pj_canonical_path project) st else (None, st)")
  then have q: "quiet st st1" using resume_quiet by (auto split: if_splits)
  show ?thesis
    using taken_honest [OF loaded_start [OF assms q]] q
    by (cases err) (auto simp: resume_on_worker_def Let_def r intro: quiet_honest)
qed

lemma existing_thread_honest:
  assumes "registry_fits env"
  shows "honest env st (start_existing_thread_on_worker env t project prompt st)"
proof -
  have "honest env st (snd (resume_on_worker env w True t project prompt st1))"
    if "acquire_worker env key linked st = (res, st1)" for key linked res st1 w
    using honest_after_quiet [OF acquire_quiet [OF that]] resume_on_worker_honest [OF assms] by blast
  then show ?thesis
    by (auto simp: start_existing_thread_on_worker_def resume_on_worker_honest [OF assms] acquire_quiet
        split: option.split prod.split sum.split intro!: quiet_honest)
qed

lemma existing_thread_error:
  assumes "registry_fits env" "start_existing_thread_on_worker env t project prompt st = ((r, Some e), st')"
  shows "r = no_start"
proof -
  have body: "r' = no_start" if "resume_on_worker env w acquired t project prompt st1 = (k, (r', Some e'), st2)"
    for w acquired st1 k r' e' st2
    using that loaded_turn [OF assms(1)]
    by (force simp: resume_on_worker_def Let_def split: if_split_asm prod.split_asm option.split_asm)
  show ?thesis
    using assms(2)
    by (auto simp: start_existing_thread_on_worker_def release_unless_kept_def dest!: body
        split: if_split_asm option.split_asm prod.split_asm sum.split_asm)
qed

lemma new_thread_honest:
  assumes "registry_fits env"
  shows "honest env st (snd (new_thread_on_worker env w chat topic project prompt st))"
proof -
  obtain res st1 where c: "call_app_server env (ThreadStartCall w (pj_canonical_path project)) st = (res, st1)"
    by (cases "call_app_server env (ThreadStartCall w (pj_canonical_path project)) st")
  have q: "quiet st st1" using call_quiet [OF c] by (simp add: is_turn_start_def)
  then have "quiet st (set_links ls (persist env t (st1\<lparr>st_manager := m\<rparr>)))" for ls t m by (simp add: quiet_def)
  note taken = taken_honest [OF loaded_start [OF assms this]]
  show ?thesis using q taken
    by (cases res) (auto simp: new_thread_on_worker_def Let_def c split: sum.split intro: quiet_honest)
qed

lemma new_project_honest:
  assumes "registry_fits env"
  shows "honest env st (start_new_project_on_worker env chat topic project prompt st)"
proof -
  have "honest env st (snd (new_thread_on_worker env w chat topic project prompt st1))"
    if "acquire_worker env key linked st = (res, st1)" for key linked res st1 w
    using honest_after_quiet [OF acquire_quiet [OF that]] new_thread_honest [OF assms] by blast
  then show ?thesis
    by (auto simp: start_new_project_on_worker_def acquire_quiet split: prod.split sum.split intro!: quiet_honest)
qed

lemma claimed_linked_honest:
  assumes "registry_fits env"
  shows "honest env st (snd (start_claimed_linked_turn env w l child parent project prompt st))"
proof -
  obtain res ls where c: "claim_minimal_linked_worker (ml_linked_thread_id l) (lw_generation (worker_of w st)) (st_links st) = (res, ls)"
    by (cases "claim_minimal_linked_worker (ml_linked_thread_id l) (lw_generation (worker_of w st)) (st_links st)")
  let ?untitled = "trim_space (ml_title_state l) = [] \<or> trim_space (ml_title_state l) = title_pending"
  obtain named ready st2 where h: "(if ?untitled then hydrate_minimal_linked_title env w l parent (set_links ls st)
      else ((l, False), set_links ls st)) = ((named, ready), st2)"
    by (metis prod.collapse)
  have q: "quiet st st2" using h hydrate_quiet [of env w l parent "set_links ls st"]
    by (auto simp: quiet_def turn_starts_def split: if_splits)
  have "quiet st (if ready then name_minimal_linked_thread env w named st2 else st2)"
    using q quiet_trans [OF q name_quiet] by simp
  note finish_honest [OF loaded_start [OF assms this]]
  then show ?thesis
    by (cases res rule: sum.exhaust; cases "projr res")
      (auto simp: start_claimed_linked_turn_def Let_def c h split: sum.split bool.split intro: quiet_honest)
qed

lemma resume_linked_honest:
  assumes "registry_fits env"
  shows "honest env st (snd (resume_linked_on_worker env w l child parent project prompt st))"
proof -
  obtain err st1 where r: "resume_thread env w (ml_linked_thread_id l) (pj_canonical_path project) st = (err, st1)"
    by (cases "resume_thread env w (ml_linked_thread_id l) (pj_canonical_path project) st")
  have q: "quiet st st1" using resume_quiet [OF r] .
  have "honest env st (snd (start_claimed_linked_turn env w l child parent project prompt st1))"
    using honest_after_quiet [OF q claimed_linked_honest [OF assms]] .
  then show ?thesis using q
    by (cases err) (auto simp: resume_linked_on_worker_def r intro: quiet_honest)
qed

lemma canonical_linked_honest:
  assumes "registry_fits env"
  shows "honest env st (start_canonical_linked_turn env chat topic l parent project anchor prompt st)"
proof -
  have resumed: "honest env st (snd (resume_linked_on_worker env w l child parent project prompt st1))"
    if "acquire_worker env key linked st = (res, st1)" for key linked res st1 w child
    using honest_after_quiet [OF acquire_quiet [OF that]] resume_linked_honest [OF assms] by blast
  have acquired: "honest env st (case acquire_worker env key linked st of
      (Inl e, st1) \<Rightarrow> ((no_start, f e), st1)
    | (Inr w, st1) \<Rightarrow> release_unless_kept env w (resume_linked_on_worker env w l child parent project prompt st1))"
    for key linked f child
    by (cases "acquire_worker env key linked st"; cases "fst (acquire_worker env key linked st)")
      (use resumed in \<open>auto intro!: quiet_honest intro: acquire_quiet\<close>)
  have enqueued: "honest env st (case enqueue_command env cmd st of
      (Some e, st1) \<Rightarrow> ((no_start, g e), st1) | (None, st1) \<Rightarrow> (r, st1))" for cmd g r
    by (cases "enqueue_command env cmd st"; cases "fst (enqueue_command env cmd st)")
      (auto intro!: quiet_honest intro: enqueue_quiet)
  show ?thesis
    unfolding start_canonical_linked_turn_def Let_def
    by (simp add: acquired enqueued quiet_honest split: prod.split sum.split)
qed

lemma activated_honest:
  assumes "registry_fits env" "quiet st st1" "\<And>e. honest env st (snd (refused e))"
  shows "honest env st (snd (activate_on_worker env w forked refused l c child project prompt st1))"
proof -
  have "loaded_honest env st (start_loaded_turn env w child project prompt (name_minimal_linked_thread env w l (set_links ls st1)))"
    for ls
  proof (rule loaded_start [OF assms(1)])
    show "quiet st (name_minimal_linked_thread env w l (set_links ls st1))"
      using assms(2) name_quiet [of "set_links ls st1"] quiet_trans quiet_links by metis
  qed
  then show ?thesis using assms(3)
    by (auto simp: activate_on_worker_def Let_def finish_honest split: prod.split sum.split)
qed

lemma legacy_honest:
  assumes "registry_fits env"
  shows "honest env st (activate_legacy_continuation_on_worker env chat topic c child parent project anchor prompt st)"
proof -
  have "honest env st (snd (legacy_on_worker env w chat topic c child parent project anchor prompt st1))"
    if "acquire_worker env key linked st = (res, st1)" for key linked res st1 w
  proof -
    obtain err st2 where r: "resume_thread env w (th_id child) (pj_canonical_path project) st1 = (err, st2)"
      by (cases "resume_thread env w (th_id child) (pj_canonical_path project) st1")
    have q: "quiet st st2" using acquire_quiet [OF that] resume_quiet [OF r] by (rule quiet_trans)
    then show ?thesis
      by (cases err) (auto simp: legacy_on_worker_def r intro!: activated_honest [OF assms] intro: quiet_honest)
  qed
  moreover have "quiet st st1" if "enqueue_command env cmd (set_links ls st) = (res, st1)" for cmd ls res st1
    using enqueue_quiet [OF that] by (simp add: quiet_def)
  ultimately show ?thesis
    by (auto simp: activate_legacy_continuation_on_worker_def Let_def
        split: prod.split sum.split option.split intro!: quiet_honest intro: acquire_quiet)
qed

lemma forked_honest:
  assumes "registry_fits env"
  shows "honest env st (snd (fork_on_worker env w chat topic c parent project anchor prompt st))"
proof -
  obtain res st1 where r: "call_app_server env (ThreadForkCall w (source_id_for_linked parent anchor) (pj_canonical_path project)
      (sa_turn_id anchor)) st = (res, st1)" by (metis prod.collapse)
  have q: "quiet st st1" using call_quiet [OF r] by (simp add: is_turn_start_def)
  then have "quiet st (st1\<lparr>st_manager := m\<rparr>)" "quiet st (fail_continuation env c kind st1)"
    "quiet st (fail_continuation env c kind (st1\<lparr>st_manager := m\<rparr>))" for m kind by (simp_all add: quiet_def)
  then show ?thesis
    by (cases res) (auto simp: fork_on_worker_def Let_def r intro!: activated_honest [OF assms] intro: quiet_honest split: sum.split)
qed

lemma created_honest:
  assumes "registry_fits env"
  shows "honest env st (create_canonical_linked_turn env chat topic parent project anchor prompt st)"
proof -
  have fork: "honest env st (snd (fork_on_worker env w chat topic c parent project anchor prompt st1))"
    if "acquire_worker env key linked (set_links ls st) = (res, st1)" for key linked ls res st1 w c
    using honest_after_quiet [OF acquire_quiet [OF that] forked_honest [OF assms, of st1]] by simp
  have legacy: "honest env st (activate_legacy_continuation_on_worker env chat topic c child parent project anchor prompt
      (set_links ls st))" for c child ls
    using legacy_honest [OF assms, of "set_links ls st"] by simp
  have acquired: "quiet st st1" "quiet st (fail_continuation env c kind st1)"
    if "acquire_worker env key linked (set_links ls st) = (res, st1)" for key linked ls res st1 c kind
    using acquire_quiet [OF that] by (simp_all add: quiet_def)
  show ?thesis
    by (auto simp: create_canonical_linked_turn_def Let_def fork legacy
        split: prod.split sum.split option.split bool.split intro!: quiet_honest intro: acquired)
qed

lemma linked_honest:
  "registry_fits env \<Longrightarrow> honest env st (start_linked_turn env chat topic parent project anchor prompt st)"
  by (auto simp: start_linked_turn_def created_honest canonical_linked_honest quiet_honest split: sum.split option.split)

lemma policy_honest:
  assumes "registry_fits env"
  shows "honest env st (start_resumed_or_linked_turn_with_policy env chat topic parent project anchor prompt allow st)"
proof -
  obtain r err st1 where e: "start_existing_thread_on_worker env parent project prompt st = ((r, err), st1)"
    by (metis prod.collapse)
  have h: "honest env st ((r, err), st1)" using existing_thread_honest [OF assms, of st parent project prompt] e by simp
  have blank: "turns env 0 (chance (Some x)) st st1" if "err = Some x" for x
    using h existing_thread_error [OF assms e [unfolded that]] that by (simp add: honest_def)
  then have none: "honest env st ((r', Some y), st2)"
    if "err = Some x" "chance (Some x) \<le> chance (Some y)" "st_calls st2 = st_calls st1" for r' x y st2
    using turns_mono [OF blank [OF that(1)], of _ "chance (Some y)"] that(2,3) by (simp add: honest_def turns_def)
  have then_linked: "honest env st (start_linked_turn env chat topic parent project anchor prompt st1)"
    if "err = Some x" "is_active_writer_conflict x (th_id parent)" for x
  proof -
    have "chance (Some x) = 0" using that(2) by (auto simp: is_active_writer_conflict_def Let_def chance_def split: option.splits)
    then show ?thesis
      using turns_trans [OF blank [OF that(1)]] linked_honest [OF assms, of st1] by (simp add: honest_def)
  qed
  show ?thesis
  proof (cases err)
    case None
    then show ?thesis using h
      by (simp add: start_resumed_or_linked_turn_with_policy_def e linked_honest [OF assms])
  next
    case (Some x)
    have same: "honest env st ((r', Some x), st1)" for r' by (rule none [OF Some]) simp_all
    have other: "honest env st ((r', Some y), st2)" if "rpc_error_of y = None" "st_calls st2 = st_calls st1" for r' y st2
      by (rule none [OF Some]) (use that in simp_all)
    show ?thesis
      by (simp add: start_resumed_or_linked_turn_with_policy_def e Some linked_honest [OF assms] same other
          then_linked [OF Some] split: sum.split option.split)
  qed
qed

section \<open>The queue\<close>

lemma queued_outcome_parts [simp]:
  "fst (fst (queued_outcome t wrap out)) = sr_turn_id (fst (fst out))"
  "snd (queued_outcome t wrap out) = snd out"
  by (simp_all add: queued_outcome_def case_prod_beta)

definition queued_honest :: "'s start_environment \<Rightarrow> 's start_state \<Rightarrow> 's queued_start \<Rightarrow> bool" where
  "queued_honest env st out \<longleftrightarrow> turns env (told_turns (fst (fst out))) 1 st (snd out)"

lemma queued_honestI: "honest env st out \<Longrightarrow> queued_honest env st (queued_outcome t wrap out)"
  using turns_chance by (simp add: queued_honest_def honest_def)

lemma queued_none [simp]: "queued_honest env st ((turn, t, e), st)"
  by (simp add: queued_honest_def quiet_turns)

lemma command_honest:
  assumes "registry_fits env"
  shows "queued_honest env st (start_queued_command env t project c st)"
proof -
  have "queued_honest env st (start_command_elsewhere env t project c st)"
    by (simp add: queued_honestI start_command_elsewhere_def start_resumed_or_linked_turn_def Let_def policy_honest [OF assms]
        existing_thread_honest [OF assms])
  moreover have "queued_honest env st (start_command_in_link env t project c l st)" for l
    by (simp add: queued_honestI start_command_in_link_def Let_def canonical_linked_honest [OF assms])
  ultimately show ?thesis
    by (simp add: start_queued_command_def Let_def split: sum.split option.split)
qed

lemma finalized_quiet:
  "fail_claimed_command i st = (err, st') \<Longrightarrow> quiet st st'"
  "release_claimed_command i st = (err, st') \<Longrightarrow> quiet st st'"
  "complete_command i st = (err, st') \<Longrightarrow> quiet st st'"
  by (auto simp: fail_claimed_command_def release_claimed_command_def finalize_claimed_def complete_command_def
      update_commands_def split: prod.split_asm sum.split_asm)

text \<open>A claimed command begins at most one turn, and none is acknowledged if the next command is tried.\<close>

definition drained_turns :: "'s start_environment \<Rightarrow> 's start_state \<Rightarrow> 's drained \<Rightarrow> bool" where
  "drained_turns env st d \<longleftrightarrow>
     (case d of DrainEnds err told st' \<Rightarrow> turns env 1 1 st st' | DrainGoesOn t told st' \<Rightarrow> turns env 0 1 st st')"

lemma drained_links [simp]: "drained_turns env (set_links ls st) d \<longleftrightarrow> drained_turns env st d"
  by (simp add: drained_turns_def split: drained.split)

lemma fail_on_turns: "turns env 0 1 st st1 \<Longrightarrow> drained_turns env st (fail_and_go_on c t st1)"
proof -
  assume t: "turns env 0 1 st st1"
  obtain err st2 where f: "fail_claimed_command (cm_id c) st1 = (err, st2)" by (metis prod.collapse)
  have "turns env 0 1 st st2" using turns_then_quiet [OF t finalized_quiet(1) [OF f]] .
  then show ?thesis using turns_mono [of env 0 1 st st2 1 1] by (simp add: fail_and_go_on_def f drained_turns_def Let_def)
qed

lemma claimed_turns:
  assumes "registry_fits env"
  shows "drained_turns env st (run_claimed_command env t c st)"
proof -
  have here: "turns env 0 1 st st" by (simp add: quiet_turns)
  have started: "drained_turns env st
      (if trim_space turn \<noteq> []
       then (case err of
               Some e \<Rightarrow> DrainEnds (Some (Wrapped s e)) [] st1
             | None \<Rightarrow> (case complete_command (cm_id c) st1 of (err', st2) \<Rightarrow> DrainEnds err' [] st2))
       else (case err of
               Some e \<Rightarrow>
                 if must_wait e
                 then (case release_claimed_command (cm_id c) st1 of (err', st2) \<Rightarrow> DrainEnds err' [] st2)
                 else fail_and_go_on c t' st1
             | None \<Rightarrow> fail_and_go_on c t' st1))"
    if "start_queued_command env tt p c st = ((turn, t', err), st1)" for tt p turn t' err st1 s
  proof -
    have t: "turns env (told_turns turn) 1 st st1" using command_honest [OF assms, of st tt p c] that
      by (simp add: queued_honest_def)
    then have one: "turns env 1 1 st st1" by (rule turns_mono) (simp_all add: told_turns_def)
    have fails: "trim_space turn = [] \<Longrightarrow> drained_turns env st (fail_and_go_on c t' st1)"
      using t fail_on_turns by simp
    show ?thesis
      using one turns_then_quiet [OF one] fails
      by (cases "complete_command (cm_id c) st1"; cases "release_claimed_command (cm_id c) st1")
        (auto simp: drained_turns_def dest: finalized_quiet split: option.split)
  qed
  show ?thesis
    by (auto simp: run_claimed_command_def fail_on_turns [OF here] started split: sum.split prod.split)
qed

lemma drain_turns:
  assumes "registry_fits env" "drain_from env thread t st = Some out"
  shows "\<exists>n. turns env 1 n st (snd (snd out))"
proof (rule drain_from.raw_induct [where P = "\<lambda>e th t st out. e = env \<longrightarrow> (\<exists>n. turns env 1 n st (snd (snd out)))", OF _ assms(2), THEN mp, OF _ refl])
  fix f :: "'a start_environment \<Rightarrow> string \<Rightarrow> thread \<Rightarrow> 'a start_state \<Rightarrow> (start_error option \<times> (int \<times> int) list \<times> 'a start_state) option"
  fix e th t st out
  assume IH: "\<And>e th t st out. f e th t st = Some out \<Longrightarrow> e = env \<longrightarrow> (\<exists>n. turns env 1 n st (snd (snd out)))"
    and eq: "(case claim_pending_command (en_protector e) th (ls_commands (st_links st)) of
        (Inl er, cs) \<Rightarrow> Some (Some (CommandFailed er), [], update_commands cs st)
      | (Inr None, cs) \<Rightarrow> Some (None, [], update_commands cs st)
      | (Inr (Some (c, claim_err)), cs) \<Rightarrow>
         (case (if claim_err \<noteq> None then fail_and_go_on c t (update_commands cs st)
                else run_claimed_command e t c (update_commands cs st)) of
            DrainEnds err told st1 \<Rightarrow> Some (err, told, st1)
          | DrainGoesOn t' told st1 \<Rightarrow>
              Option.bind (f e th t' st1) (\<lambda>(err, told', st2). Some (err, told @ told', st2)))) = Some out"
  show "e = env \<longrightarrow> (\<exists>n. turns env 1 n st (snd (snd out)))"
  proof
    assume e: "e = env"
    have same: "quiet st (update_commands cs st)" for cs by (simp add: update_commands_def)
    have step: "drained_turns env st (if claim_err \<noteq> None then fail_and_go_on c t (update_commands cs st)
        else run_claimed_command e t c (update_commands cs st))" for c claim_err cs
      using fail_on_turns [OF quiet_turns [OF same]] claimed_turns [OF assms(1), of "update_commands cs st" t c] e
      by (simp add: update_commands_def)
    have on: "\<exists>n. turns env 1 n st st2" if "turns env 0 1 st st1" "f e th t' st1 = Some (x, y, st2)" for st1 t' x y st2
      using turns_trans [OF that(1), of 1 _ st2] IH [OF that(2)] e by auto
    have ends: "turns env 1 1 st st1" if "(if claim_err \<noteq> None then fail_and_go_on c t (update_commands cs st)
        else run_claimed_command e t c (update_commands cs st)) = DrainEnds x y st1" for c claim_err cs x y st1
      using step [of claim_err c cs] unfolding that by (simp add: drained_turns_def)
    have goes: "turns env 0 1 st st1" if "(if claim_err \<noteq> None then fail_and_go_on c t (update_commands cs st)
        else run_claimed_command e t c (update_commands cs st)) = DrainGoesOn x y st1" for c claim_err cs x y st1
      using step [of claim_err c cs] unfolding that by (simp add: drained_turns_def)
    show "\<exists>n. turns env 1 n st (snd (snd out))"
      using eq
      by (auto split: prod.split_asm sum.split_asm option.split_asm drained.split_asm Option.bind_split_asm
          dest!: ends [unfolded not_None_eq] on [OF goes [unfolded not_None_eq]] simp: quiet_turns [OF same] simp del: One_nat_def split del: if_split)
  qed
qed

section \<open>What the owner's commands may do\<close>



text \<open>A registered project, a thread in it, and two commands that wait for the thread.\<close>

definition yard_host :: host where "yard_host = unix_host (\<lambda>s. s) ''/''"
definition yard_files :: files where "yard_files = \<lparr>fs_eval = Some, fs_is_dir = (\<lambda>_. Some True)\<rparr>"
definition yard_project :: project where
  "yard_project = \<lparr>pj_id = ''p'', pj_display_name = ''P'', pj_canonical_path = ''/w''\<rparr>"

definition yard_registry :: registry where
  "yard_registry = (case new_registry yard_host yard_files [yard_project] of Inr r \<Rightarrow> r | Inl _ \<Rightarrow> \<lparr>rg_projects = [], rg_by_id = []\<rparr>)"

definition yard_answer :: "app_call list \<Rightarrow> app_call \<Rightarrow> (start_error, jmap) result" where
  "yard_answer before c =
     (case c of
        TurnStartCall w t prompt cwd options \<Rightarrow>
          if before = [] then Inl (RpcError 1 ''busy'') else Inr [(''turn'', JObj [(''id'', JStr ''v'')])]
      | ThreadForkCall w t cwd turn \<Rightarrow> Inr [(''thread'', JObj [(''id'', JStr ''c'')])]
      | _ \<Rightarrow> Inr [(''thread'', JObj [(''id'', JStr ''t'')])])"

definition yard :: "nat start_environment" where
  "yard =
     \<lparr>en_profile = ''minimal'', en_host = yard_host, en_files = yard_files, en_registry = yard_registry,
      en_protector = Some plain_protector, en_now = 0, en_poll_interval = second, en_answer = yard_answer,
      en_session = (\<lambda>_. (Started 7, None)), en_close = (\<lambda>_ _. ClosedCleanly)\<rparr>"

definition yard_thread :: thread where
  "yard_thread = empty_thread\<lparr>th_id := ''t'', th_cwd := ''/w''\<rparr>"

definition yard_command :: "string \<Rightarrow> pending_command" where
  "yard_command prompt = command_for ''t'' [] [] yard_project 5 0 prompt"

definition yard_state :: "nat start_state" where
  "yard_state =
     (let cs = snd (enqueue_pending_command (Some plain_protector) (yard_command ''b'')
                 (snd (enqueue_pending_command (Some plain_protector) (yard_command ''a'') empty_commands)))
      in \<lparr>st_links = empty_links\<lparr>ls_threads := [yard_thread], ls_commands := cs\<rparr>, st_states = Map.empty, st_snapshots = [],
          st_observations = [], st_manager = new_minimal_link_worker_manager ''n'', st_calls = []\<rparr>)"

lemma yard_registered: "new_registry (en_host yard) yard_files [yard_project] = Inr (en_registry yard)"
  by code_simp

definition yard_next :: pending_command where
  "yard_next = (yard_command ''a'')\<lparr>cm_id := ct_next empty_commands, cm_status := CmdClaimed\<rparr>"

definition yard_claimed :: "nat start_state" where
  "yard_claimed =
     update_commands (snd (claim_pending_command (en_protector yard) ''t'' (ls_commands (st_links yard_state)))) yard_state"

lemma yard_values:
  "fst (claim_pending_command (en_protector yard) ''t'' (ls_commands (st_links yard_state))) = Inr (Some (yard_next, None))"
  "project_for_thread yard yard_thread = Inr (yard_project, ''/w'')"
  "pj_id yard_project = cm_project_id yard_next"
  "trim_space ''t'' = ''t''" "trim_space ''v'' \<noteq> []" "en_profile yard = ''minimal''"
  "get_thread ''t'' (ls_threads (st_links yard_state)) = Some yard_thread"
  "\<not> thread_looks_active_for_polling yard_thread"
  by code_simp+

lemma yard_started:
  "case fst (start_queued_command yard (yard_thread\<lparr>th_cwd := ''/w''\<rparr>) yard_project yard_next yard_claimed) of
     (turn, t, err) \<Rightarrow> turn = ''v'' \<and> err = None"
  by code_simp

lemma yard_calls:
  "length (turn_starts (st_calls (snd (start_queued_command yard (yard_thread\<lparr>th_cwd := ''/w''\<rparr>) yard_project yard_next
     yard_claimed)))) = 1"
  by code_simp

lemma drain_from_ends:
  assumes "claim_pending_command (en_protector env) thread (ls_commands (st_links st)) = (Inr (Some (c, None)), cs)"
    and "run_claimed_command env t c (update_commands cs st) = DrainEnds err told st'"
  shows "drain_from env thread t st = Some (err, told, st')"
  by (subst drain_from.simps) (simp add: assms)

lemma yard_drained:
  obtains err st' where "drain_next yard ''t'' yard_state = Some (err, [], st')" "length (turn_starts (st_calls st')) = 1"
proof -
  let ?s = "start_queued_command yard (yard_thread\<lparr>th_cwd := ''/w''\<rparr>) yard_project yard_next yard_claimed"
  obtain turn t err st1 where s: "?s = ((turn, t, err), st1)" by (metis prod.collapse)
  have started: "turn = ''v''" "err = None" "length (turn_starts (st_calls st1)) = 1"
    using yard_started yard_calls by (simp_all add: s)
  obtain err' st2 where c: "complete_command (cm_id yard_next) st1 = (err', st2)" by (metis prod.collapse)
  have claim: "claim_pending_command (en_protector yard) ''t'' (ls_commands (st_links yard_state)) =
      (Inr (Some (yard_next, None)), snd (claim_pending_command (en_protector yard) ''t'' (ls_commands (st_links yard_state))))"
    using yard_values(1) by (simp add: prod_eq_iff)
  have "run_claimed_command yard yard_thread yard_next yard_claimed = DrainEnds err' [] st2"
    using s started c yard_values(2,3,5) by (simp add: run_claimed_command_def)
  then have "drain_from yard ''t'' yard_thread yard_state = Some (err', [], st2)"
    unfolding yard_claimed_def by (rule drain_from_ends [OF claim])
  then have "drain_next yard ''t'' yard_state = Some (err', [], st2)"
    using yard_values(4,6,7,8) by (simp add: drain_next_def drain_next_locked_def)
  moreover have "st_calls st2 = st_calls st1"
    using c by (auto simp: complete_command_def update_commands_def split: prod.split_asm sum.split_asm)
  ultimately show ?thesis using that started(3) by simp
qed



end
