(* ===== verification/Drain_Termination.thy ===== *)
theory Drain_Termination
  imports Turn_Safety
begin

text \<open>
  When the drain of a queue ends. A start of a waiting command leaves the queue of commands as it
  is, unless the command names a turn of the very thread it waits for: then it may be queued again.
  So a drain of a thread without such commands ends: every round takes one waiting command out.
\<close>

section \<open>What leaves the queue alone\<close>

abbreviation cmds_of :: "'s start_state \<Rightarrow> command_table" where
  "cmds_of st \<equiv> ls_commands (st_links st)"

lemma same_queue_rows [simp]:
  "ls_commands (set_linked rows ls) = ls_commands ls"
  "ls_commands (snd (update_linked p f ls)) = ls_commands ls"
  by (simp_all add: set_linked_def update_linked_def)

lemma same_queue_generation:
  "(\<And>v. ls_commands (snd (act v)) = ls_commands ls) \<Longrightarrow> ls_commands (snd (under_generation linked g act ls)) = ls_commands ls"
  by (auto simp: under_generation_def case_prod_beta split: sum.split)

lemma same_queue_links [simp]:
  "ls_commands (snd (claim_minimal_linked_worker linked g ls)) = ls_commands ls"
  "ls_commands (snd (mark_minimal_linked_turn_started linked g turn ls)) = ls_commands ls"
  "ls_commands (snd (mark_minimal_linked_title_set linked g ls)) = ls_commands ls"
  "ls_commands (snd (fail_minimal_linked_thread linked g kind ls)) = ls_commands ls"
  "ls_commands (snd (record_minimal_linked_blocked linked code at ls)) = ls_commands ls"
  "ls_commands (snd (hydrate_minimal_linked_titles prot linked source desired ls)) = ls_commands ls"
  "ls_commands (snd (claim_minimal_continuation now c ls)) = ls_commands ls"
  "ls_commands (snd (fail_minimal_continuation now c kind ls)) = ls_commands ls"
  by (simp_all add: claim_minimal_linked_worker_def mark_minimal_linked_turn_started_def mark_minimal_linked_title_set_def
      fail_minimal_linked_thread_def record_minimal_linked_blocked_def hydrate_minimal_linked_titles_def
      claim_minimal_continuation_def fail_minimal_continuation_def same_queue_generation Let_def case_prod_beta
      split: sum.split)

lemma same_queue_states [simp]:
  "cmds_of (set_links ls st) = ls_commands ls"
  "cmds_of (persist env t st) = cmds_of st"
  "cmds_of (fail_continuation env c kind st) = cmds_of st"
  "cmds_of (release_minimal_worker env w st) = cmds_of st"
  "cmds_of (ensure_started_turn_snapshot env t turn st) = cmds_of st"
  "cmds_of (snd (acquire_worker env key linked st)) = cmds_of st"
  "cmds_of (snd (call_app_server env call st)) = cmds_of st"
  "cmds_of (snd (release_unless_kept env w out)) = cmds_of (snd (snd out))"
  by (simp_all add: set_links_def persist_def fail_continuation_def release_minimal_worker_def release_unless_kept_def
      ensure_started_turn_snapshot_def acquire_worker_def call_app_server_def Let_def case_prod_beta
      split: option.split sum.split)

text \<open>The parts of a start that only call the App Server, rename or start a turn.\<close>

lemma same_queue_calls [simp]:
  "cmds_of (snd (resume_thread env w t cwd st)) = cmds_of st"
  "cmds_of (name_minimal_linked_thread env w l st) = cmds_of st"
  "cmds_of (snd (read_minimal_linked_source_title env w source st)) = cmds_of st"
  "cmds_of (snd (hydrate_minimal_linked_title env w l parent st)) = cmds_of st"
  "cmds_of (snd (start_loaded_turn env w x project prompt st)) = cmds_of st"
proof -
  have call: "cmds_of st1 = cmds_of st2" if "call_app_server env c st2 = (res, st1)" for c res st1 st2
    using same_queue_states(7) [of env c st2] that by simp
  show "cmds_of (snd (resume_thread env w t cwd st)) = cmds_of st"
    by (auto simp: resume_thread_def call split: prod.split sum.split)
  show "cmds_of (name_minimal_linked_thread env w l st) = cmds_of st"
    by (auto simp: name_minimal_linked_thread_def Let_def call split: prod.split sum.split)
  have title: "cmds_of (snd (read_minimal_linked_source_title env w s st1)) = cmds_of st1" for s st1
    by (auto simp: read_minimal_linked_source_title_def Let_def call split: prod.split sum.split)
  then show "cmds_of (snd (read_minimal_linked_source_title env w source st)) = cmds_of st" .
  show "cmds_of (snd (hydrate_minimal_linked_title env w l parent st)) = cmds_of st"
  proof -
    let ?own = "if trim_space (ml_source_title l) = [] \<and> trim_space (th_id parent) = trim_space (ml_source_thread_id l) \<and>
        has_meaningful_minimal_thread_title parent then safe_continuation_source_title parent else trim_space (ml_source_title l)"
    obtain source st1 where r: "(if ?own = [] then read_minimal_linked_source_title env w (ml_source_thread_id l) st
        else (?own, st)) = (source, st1)" by (metis prod.collapse)
    then have q: "cmds_of st1 = cmds_of st" using title [of "ml_source_thread_id l" st] by (simp split: if_split_asm)
    let ?desired = "if trim_space (ml_desired_title l) = [] then source @ linked_title_suffix else trim_space (ml_desired_title l)"
    obtain res ls where h: "hydrate_minimal_linked_titles (en_protector env) (ml_linked_thread_id l) source ?desired (st_links st1) =
        (res, ls)" by (metis prod.collapse)
    then have "ls_commands ls = cmds_of st" using q same_queue_links(6) by (metis snd_conv)
    then show ?thesis
      unfolding hydrate_minimal_linked_title_def Let_def r prod.case h
      by (auto simp: q split: sum.split option.split)
  qed
  show "cmds_of (snd (start_loaded_turn env w x project prompt st)) = cmds_of st"
  proof (cases "start_loaded_turn env w x project prompt st")
    case (Pair y st')
    then show ?thesis
      by (auto simp: start_loaded_turn_def Let_def call_app_server_def
          split: prod.split_asm sum.split_asm if_split_asm)
  qed
qed

lemma same_queue_finish [simp]:
  "cmds_of (snd (snd (finish_linked_start linked w forked title out))) = cmds_of (snd out)"
proof -
  have "ls_commands ls' = ls_commands ls" if "mark_minimal_linked_turn_started l g t ls = (x, ls')" for l g t ls x ls'
    using same_queue_links(2) [of l g t ls] that by simp
  then show ?thesis
    by (auto simp: finish_linked_start_def Let_def case_prod_beta split: sum.split bool.split)
qed

section \<open>A start leaves the queue as it is\<close>

lemma loaded_told: "start_loaded_turn env w t project prompt st = ((turn, t', err), st') \<Longrightarrow> err = None \<longleftrightarrow> trim_space turn \<noteq> []"
  by (auto simp: start_loaded_turn_def Let_def split: sum.split_asm prod.split_asm if_split_asm)

lemma loaded_cmds: "start_loaded_turn env w t project prompt st = (res, st') \<Longrightarrow> cmds_of st' = cmds_of st"
  using same_queue_calls(5) [of env w t project prompt st] by simp

lemma resume_cmds: "resume_thread env w t cwd st = (res, st') \<Longrightarrow> cmds_of st' = cmds_of st"
  using same_queue_calls(1) [of env w t cwd st] by simp

lemma acquire_cmds: "acquire_worker env key linked st = (res, st') \<Longrightarrow> cmds_of st' = cmds_of st"
  using same_queue_states(6) [of env key linked st] by simp

text \<open>A start keeps the queue, and reports another thread only with a turn or as the owner's.\<close>

definition keeps_queue :: "'s start_state \<Rightarrow> 's started \<Rightarrow> bool" where
  "keeps_queue st out \<longleftrightarrow>
     cmds_of (snd out) = cmds_of st \<and>
     (sr_thread (fst (fst out)) = None \<or> trim_space (sr_turn_id (fst (fst out))) \<noteq> [] \<or> snd (fst out) = Some OwnedByCodex)"

lemma release_keeps [simp]: "keeps_queue st (release_unless_kept env w out) \<longleftrightarrow> keeps_queue st (snd out)"
  by (simp add: keeps_queue_def release_unless_kept_def case_prod_beta)

lemma no_thread [simp]: "sr_thread no_start = None"
  by (simp add: no_start_def)

lemma resume_on_worker_keeps: "keeps_queue st (snd (resume_on_worker env w acquired t project prompt st))"
proof -
  obtain err st1 where r: "(if acquired then resume_thread env w (th_id t) (pj_canonical_path project) st else (None, st)) = (err, st1)"
    by (metis prod.collapse)
  then have "cmds_of st1 = cmds_of st" by (auto split: if_splits dest: resume_cmds)
  then show ?thesis
    by (cases err) (auto simp: resume_on_worker_def Let_def r keeps_queue_def loaded_cmds dest: loaded_told split: prod.split)
qed

lemma keeps_after: "keeps_queue st1 out \<Longrightarrow> cmds_of st1 = cmds_of st \<Longrightarrow> keeps_queue st out"
  by (simp add: keeps_queue_def)

lemma existing_keeps: "keeps_queue st (start_existing_thread_on_worker env t project prompt st)"
  by (auto simp: start_existing_thread_on_worker_def resume_on_worker_keeps keeps_after [OF resume_on_worker_keeps acquire_cmds]
      split: option.split prod.split sum.split) (auto simp: keeps_queue_def dest: acquire_cmds)

lemma finish_keeps:
  assumes "cmds_of (snd out) = cmds_of st" "snd (snd (fst out)) = None \<longleftrightarrow> trim_space (fst (fst out)) \<noteq> []"
  shows "keeps_queue st (snd (finish_linked_start linked w forked title out))"
proof -
  have "ls_commands ls' = ls_commands ls" if "mark_minimal_linked_turn_started l g t ls = (x, ls')" for l g t ls x ls'
    using same_queue_links(2) [of l g t ls] that by simp
  then show ?thesis using assms
    by (auto simp: finish_linked_start_def Let_def case_prod_beta keeps_queue_def split: sum.split bool.split)
qed

lemma claimed_start_keeps: "keeps_queue st (snd (start_claimed_linked_turn env w l child parent project prompt st))"
proof -
  let ?claim = "claim_minimal_linked_worker (ml_linked_thread_id l) (lw_generation (worker_of w st)) (st_links st)"
  obtain res ls where c: "?claim = (res, ls)" by (metis prod.collapse)
  have ls: "ls_commands ls = cmds_of st"
    using same_queue_links(1) [of "ml_linked_thread_id l" "lw_generation (worker_of w st)" "st_links st"] by (simp add: c)
  define st1 where "st1 = set_links ls st"
  define hydrated where "hydrated = (if trim_space (ml_title_state l) = [] \<or> trim_space (ml_title_state l) = title_pending
    then hydrate_minimal_linked_title env w l parent st1 else ((l, False), st1))"
  define st3 where "st3 = (if snd (fst hydrated) then name_minimal_linked_thread env w (fst (fst hydrated)) (snd hydrated)
    else snd hydrated)"
  have "cmds_of (snd hydrated) = cmds_of st" by (simp add: hydrated_def st1_def ls)
  then have q: "cmds_of st3 = cmds_of st" by (simp add: st3_def)
  obtain turn t err st4 where l: "start_loaded_turn env w child project prompt st3 = ((turn, t, err), st4)"
    by (metis prod.collapse)
  have "keeps_queue st (snd (finish_linked_start (ml_linked_thread_id l) w False title ((turn, t, err), st4)))" for title
    using finish_keeps [of "((turn, t, err), st4)" st] loaded_told [OF l] loaded_cmds [OF l] q by simp
  moreover have "start_claimed_linked_turn env w l child parent project prompt st =
      finish_linked_start (ml_linked_thread_id l) w False (ml_desired_title (fst (fst hydrated)))
        (start_loaded_turn env w child project prompt st3)" if "res = Inr True"
    using that by (simp add: start_claimed_linked_turn_def c Let_def case_prod_beta st3_def hydrated_def st1_def)
  ultimately show ?thesis using ls
    by (cases "res = Inr True")
      (auto simp: l start_claimed_linked_turn_def c Let_def keeps_queue_def split: sum.split bool.split)
qed

lemma blocked_cmds: "record_minimal_linked_blocked linked code at ls = (res, ls') \<Longrightarrow> ls_commands ls' = ls_commands ls"
  using same_queue_links(5) [of linked code at ls] by simp

lemma resume_linked_keeps: "keeps_queue st (snd (resume_linked_on_worker env w l child parent project prompt st))"
  by (auto simp: resume_linked_on_worker_def keeps_after [OF claimed_start_keeps resume_cmds] split: prod.split option.split)
    (auto simp: keeps_queue_def no_start_def dest: resume_cmds)

lemma canonical_keeps:
  assumes "trim_space (ml_state l) \<noteq> linked_running"
  shows "keeps_queue st (start_canonical_linked_turn env chat topic l parent project anchor prompt st)"
proof -
  have refused: "keeps_queue st ((no_start, e), st)" for e by (simp add: keeps_queue_def)
  have "keeps_queue st (snd (resume_linked_on_worker env w l child parent project prompt st1))"
    if "acquire_worker env key linked st = (res, st1)" for key linked res st1 w child
    by (rule keeps_after [OF resume_linked_keeps acquire_cmds [OF that]])
  moreover have "keeps_queue st ((no_start, e), st1)"
    if "acquire_worker env key linked st = (res, st1)" for key linked res st1 e
    using acquire_cmds [OF that] by (simp add: keeps_queue_def)
  ultimately show ?thesis using assms
    by (auto simp: start_canonical_linked_turn_def Let_def refused split: sum.split prod.split)
qed

section \<open>A waiting command\<close>

text \<open>The command names a turn of the thread itself, and may be queued again.\<close>

definition names_own_turn :: "string \<Rightarrow> string \<Rightarrow> string \<Rightarrow> bool" where
  "names_own_turn thread source turn \<longleftrightarrow> trim_space source = trim_space thread \<and> trim_space turn \<noteq> []"

lemma elsewhere_existing:
  assumes "\<not> names_own_turn (th_id t) (cm_source_thread_id c) (cm_source_turn_id c)"
  shows "start_command_elsewhere env t project c st =
    queued_outcome t (\<lambda>e. pre_start_continuation_error e failure_ambiguous)
      (start_existing_thread_on_worker env t project (cm_prompt c) st)"
proof -
  have "\<not> (trim_space (cm_source_thread_id c) = th_id t \<and> trim_space (cm_source_turn_id c) \<noteq> [])"
    using assms trim_space_idem [of "cm_source_thread_id c"] unfolding names_own_turn_def by metis
  then show ?thesis unfolding start_command_elsewhere_def Let_def by (simp only: if_False)
qed

lemma outcome_keeps:
  assumes "keeps_queue st out" "queued_outcome t wrap out = ((turn, t', err), st')"
  shows "cmds_of st' = cmds_of st \<and> (t' = t \<or> trim_space turn \<noteq> [] \<or> err = Some OwnedByCodex)"
  using assms by (auto simp: queued_outcome_def keeps_queue_def thread_after_def Let_def split: prod.split_asm option.split_asm if_split_asm)

lemma queued_keeps:
  assumes "\<not> names_own_turn (th_id t) (cm_source_thread_id c) (cm_source_turn_id c)"
    and "start_queued_command env t project c st = ((turn, t', err), st')"
  shows "cmds_of st' = cmds_of st \<and> (t' = t \<or> trim_space turn \<noteq> [] \<or> err = Some OwnedByCodex)"
proof -
  have here: "cmds_of st' = cmds_of st \<and> (t' = t \<or> trim_space turn \<noteq> [] \<or> err = Some OwnedByCodex)"
    if "start_command_elsewhere env t project c st = ((turn, t', err), st')"
    using outcome_keeps [OF existing_keeps that [unfolded elsewhere_existing [OF assms(1)]]] .
  have link: "cmds_of st' = cmds_of st \<and> (t' = t \<or> trim_space turn \<noteq> [] \<or> err = Some OwnedByCodex)"
    if "start_command_in_link env t project c l st = ((turn, t', err), st')" for l
    using that by (auto simp: start_command_in_link_def Let_def split: if_split_asm dest: outcome_keeps [OF canonical_keeps])
  show ?thesis using assms(2)
    by (auto simp: start_queued_command_def Let_def split: if_split_asm sum.split_asm option.split_asm dest: here link)
qed

section \<open>The queue of a thread\<close>

definition waiting_for :: "string \<Rightarrow> command_table \<Rightarrow> command_row list" where
  "waiting_for thread tab = filter (\<lambda>r. pc_thread_id r = thread \<and> pc_status r = CmdPending) (ct_rows tab)"

lemma waiting_status:
  "waiting_for thread (set_command_status i CmdPending (\<lambda>s. s\<lparr>pc_status := CmdClaimed\<rparr>) tab) =
     filter (\<lambda>s. pc_id s \<noteq> i) (waiting_for thread tab)"
  "waiting_for thread (set_command_status i CmdClaimed (finish_row st) tab) =
     (if st = CmdPending then waiting_for thread (set_command_status i CmdClaimed (finish_row st) tab)
      else waiting_for thread tab)"
  "map pc_id (ct_rows (set_command_status i CmdPending (\<lambda>s. s\<lparr>pc_status := CmdClaimed\<rparr>) tab)) = map pc_id (ct_rows tab)"
  "map pc_id (ct_rows (set_command_status i CmdClaimed (\<lambda>s. s\<lparr>pc_status := CmdPending\<rparr>) tab)) = map pc_id (ct_rows tab)"
  "map pc_id (ct_rows (set_command_status i CmdClaimed (finish_row st) tab)) = map pc_id (ct_rows tab)"
proof -
  have "filter (\<lambda>r. pc_thread_id r = thread \<and> pc_status r = CmdPending)
      (update_rows (\<lambda>r. pc_id r = i \<and> pc_status r = CmdPending) (\<lambda>s. s\<lparr>pc_status := CmdClaimed\<rparr>) rs) =
    filter (\<lambda>s. pc_id s \<noteq> i) (filter (\<lambda>r. pc_thread_id r = thread \<and> pc_status r = CmdPending) rs)" for rs
    by (induction rs) auto
  then show "waiting_for thread (set_command_status i CmdPending (\<lambda>s. s\<lparr>pc_status := CmdClaimed\<rparr>) tab) =
     filter (\<lambda>s. pc_id s \<noteq> i) (waiting_for thread tab)"
    by (simp add: waiting_for_def set_command_status_def)
  have "filter (\<lambda>r. pc_thread_id r = thread \<and> pc_status r = CmdPending)
      (update_rows (\<lambda>r. pc_id r = i \<and> pc_status r = CmdClaimed) (finish_row st) rs) =
    filter (\<lambda>r. pc_thread_id r = thread \<and> pc_status r = CmdPending) rs" if "st \<noteq> CmdPending" for rs
    using that by (induction rs) (auto simp: finish_row_def)
  then show "waiting_for thread (set_command_status i CmdClaimed (finish_row st) tab) =
     (if st = CmdPending then waiting_for thread (set_command_status i CmdClaimed (finish_row st) tab)
      else waiting_for thread tab)"
    by (simp add: waiting_for_def set_command_status_def)
qed (simp_all add: set_command_status_def finish_row_def map_update_rows)

lemma claim_waiting:
  assumes "claim_pending_command prot thread tab = (Inr (Some (c, e)), tab')"
  obtains r where "r \<in> set (waiting_for (trim_space thread) tab)" "cm_source_thread_id c = pc_source_thread_id r"
    "cm_source_turn_id c = pc_source_turn_id r" "set (waiting_for (trim_space thread) tab') \<subseteq> set (waiting_for (trim_space thread) tab)"
    "length (waiting_for (trim_space thread) tab') < length (waiting_for (trim_space thread) tab)"
    "map pc_id (ct_rows tab') = map pc_id (ct_rows tab)"
proof -
  obtain p where p: "claim_by_key pc_thread_id (trim_space thread) p tab = (Inr (Some (c, e)), tab')"
    using assms by (auto simp: claim_pending_command_def Let_def split: if_split_asm option.split_asm)
  let ?wait = "waiting_for (trim_space thread) tab"
  obtain r rs where r: "sort_key pc_id ?wait = r # rs" "e = None \<and> (\<exists>prompt. c = command_of prompt r) \<or> c = command_of [] r"
      "tab' = set_command_status (pc_id r) CmdPending (\<lambda>s. s\<lparr>pc_status := CmdClaimed\<rparr>) tab"
    using p by (auto simp: claim_by_key_def waiting_for_def split: if_split_asm list.split_asm option.split_asm)
  have mem: "r \<in> set ?wait" using r(1) by (metis list.set_intros(1) set_sort)
  have "length (filter (\<lambda>s. pc_id s \<noteq> pc_id r) ?wait) < length ?wait"
    by (rule length_filter_less [OF mem]) simp
  then show ?thesis
    using that [OF mem] r(2) by (auto simp: command_of_def waiting_status(1,3) r(3))
qed

lemma fail_waiting:
  assumes "fail_and_go_on c t st = DrainGoesOn t' told st'"
  shows "t' = t" "waiting_for thread (cmds_of st') = waiting_for thread (cmds_of st)"
    "map pc_id (ct_rows (cmds_of st')) = map pc_id (ct_rows (cmds_of st))"
  using assms
  by (auto simp: fail_and_go_on_def Let_def fail_claimed_command_def finalize_claimed_def fail_pending_command_def
      waiting_status update_commands_def split: prod.split_asm sum.split_asm if_split_asm)

lemma fail_ids:
  assumes "fail_and_go_on c t st = DrainEnds err told st'"
  shows "map pc_id (ct_rows (cmds_of st')) = map pc_id (ct_rows (cmds_of st))"
  using assms
  by (auto simp: fail_and_go_on_def Let_def fail_claimed_command_def finalize_claimed_def fail_pending_command_def
      waiting_status update_commands_def split: prod.split_asm sum.split_asm if_split_asm)

lemma final_ids:
  "release_claimed_command i st = (err, st') \<Longrightarrow> map pc_id (ct_rows (cmds_of st')) = map pc_id (ct_rows (cmds_of st))"
  "complete_command i st = (err, st') \<Longrightarrow> map pc_id (ct_rows (cmds_of st')) = map pc_id (ct_rows (cmds_of st))"
  by (auto simp: release_claimed_command_def finalize_claimed_def complete_command_def complete_pending_command_def
      release_claimed_pending_command_def waiting_status update_commands_def split: prod.split_asm sum.split_asm)

text \<open>How a claimed command is run: it is refused before any start, or started.\<close>

lemma run_cases:
  assumes "\<not> names_own_turn (th_id t) (cm_source_thread_id c) (cm_source_turn_id c)"
  obtains "run_claimed_command env t c st = fail_and_go_on c t st"
  | turn t' err st1 where "cmds_of st1 = cmds_of st" "t' = t\<lparr>th_cwd := th_cwd t'\<rparr> \<or> trim_space turn \<noteq> [] \<or> err = Some OwnedByCodex"
      "run_claimed_command env t c st =
        (if trim_space turn \<noteq> []
         then (case err of
                 Some e \<Rightarrow> DrainEnds (Some (Wrapped ''persist remotely started turn'' e)) [] st1
               | None \<Rightarrow> (case complete_command (cm_id c) st1 of (err', st2) \<Rightarrow> DrainEnds err' [] st2))
         else (case err of
                 Some e \<Rightarrow>
                   if must_wait e
                   then (case release_claimed_command (cm_id c) st1 of (err', st2) \<Rightarrow> DrainEnds err' [] st2)
                   else fail_and_go_on c t' st1
               | None \<Rightarrow> fail_and_go_on c t' st1))"
proof (cases "project_for_thread env t")
  case (Inl e)
  then show ?thesis using that(1) by (simp add: run_claimed_command_def)
next
  case (Inr b)
  obtain project cwd where b: "b = (project, cwd)" by (cases b)
  obtain turn t' err st1 where s: "start_queued_command env (t\<lparr>th_cwd := cwd\<rparr>) project c st = ((turn, t', err), st1)"
    by (metis prod.collapse)
  have q: "cmds_of st1 = cmds_of st \<and> (t' = t\<lparr>th_cwd := cwd\<rparr> \<or> trim_space turn \<noteq> [] \<or> err = Some OwnedByCodex)"
    using queued_keeps [OF _ s] assms by simp
  show ?thesis
  proof (cases "pj_id project = cm_project_id c")
    case True
    then show ?thesis using that(2) [of st1 t' turn err] q Inr b s by (auto simp: run_claimed_command_def)
  next
    case False
    then show ?thesis using that(1) Inr b by (simp add: run_claimed_command_def)
  qed
qed

lemma must_wait_owned [simp]: "must_wait OwnedByCodex"
  by (simp add: must_wait_def)

lemma run_goes_on:
  assumes "\<not> names_own_turn (th_id t) (cm_source_thread_id c) (cm_source_turn_id c)"
    and "run_claimed_command env t c st = DrainGoesOn t' told st'"
  shows "th_id t' = th_id t" "waiting_for thread (cmds_of st') = waiting_for thread (cmds_of st)"
    "map pc_id (ct_rows (cmds_of st')) = map pc_id (ct_rows (cmds_of st))"
proof -
  have same: "th_id t1 = th_id t" if "t1 = t\<lparr>th_cwd := th_cwd t1\<rparr>" for t1 :: thread
    using arg_cong [OF that, of th_id] by simp
  have "th_id t' = th_id t \<and> waiting_for thread (cmds_of st') = waiting_for thread (cmds_of st) \<and>
      map pc_id (ct_rows (cmds_of st')) = map pc_id (ct_rows (cmds_of st))"
    using run_cases [OF assms(1), of env st]
  proof cases
    case 1
    then show ?thesis using assms(2) fail_waiting by metis
  next
    case (2 turn t1 err st1)
    then have "trim_space turn = []" "fail_and_go_on c t1 st1 = DrainGoesOn t' told st'" "err \<noteq> Some OwnedByCodex"
      using assms(2) by (auto split: if_split_asm option.split_asm prod.split_asm)
    then show ?thesis using 2(1,2) same fail_waiting by metis
  qed
  then show "th_id t' = th_id t" "waiting_for thread (cmds_of st') = waiting_for thread (cmds_of st)"
    "map pc_id (ct_rows (cmds_of st')) = map pc_id (ct_rows (cmds_of st))" by blast+
qed

lemma run_ids:
  assumes "\<not> names_own_turn (th_id t) (cm_source_thread_id c) (cm_source_turn_id c)"
    and "run_claimed_command env t c st = DrainEnds err told st'"
  shows "map pc_id (ct_rows (cmds_of st')) = map pc_id (ct_rows (cmds_of st))"
  using run_cases [OF assms(1), of env st]
proof cases
  case 1
  then show ?thesis using assms(2) fail_ids by metis
next
  case (2 turn t1 err1 st1)
  then show ?thesis using assms(2) fail_ids [of c t1 st1, OF sym]
    by (auto split: if_split_asm option.split_asm prod.split_asm dest: fail_ids final_ids)
qed

lemma claim_ids:
  assumes "claim_pending_command prot thread tab = (res, tab')"
  shows "map pc_id (ct_rows tab') = map pc_id (ct_rows tab)"
  using assms
  by (auto simp: claim_pending_command_def claim_by_key_def Let_def waiting_status
      split: if_split_asm option.split_asm list.split_asm)

lemma update_commands_simps [simp]: "cmds_of (update_commands cs st) = cs"
  by (simp add: update_commands_def)

lemma drain_from_ends_safe:
  assumes "\<forall>r\<in>set (waiting_for (trim_space thread) (cmds_of st)).
      \<not> names_own_turn (th_id t) (pc_source_thread_id r) (pc_source_turn_id r)"
  shows "\<exists>err told st'. drain_from env thread t st = Some (err, told, st') \<and>
    map pc_id (ct_rows (cmds_of st')) = map pc_id (ct_rows (cmds_of st))"
  using assms
proof (induction "length (waiting_for (trim_space thread) (cmds_of st))" arbitrary: t st rule: less_induct)
  case less
  obtain res cs where claim: "claim_pending_command (en_protector env) thread (cmds_of st) = (res, cs)"
    by (metis prod.collapse)
  show ?case
  proof (cases "\<exists>c e. res = Inr (Some (c, e))")
    case False
    then show ?thesis using claim_ids [OF claim]
      by (subst drain_from.simps) (auto simp: claim split: sum.split option.split)
  next
    case True
    then obtain c e where res: "res = Inr (Some (c, e))" by blast
    from claim_waiting [OF claim [unfolded res]] obtain r where r:
        "r \<in> set (waiting_for (trim_space thread) (cmds_of st))"
        "cm_source_thread_id c = pc_source_thread_id r" "cm_source_turn_id c = pc_source_turn_id r"
        "set (waiting_for (trim_space thread) cs) \<subseteq> set (waiting_for (trim_space thread) (cmds_of st))"
        "length (waiting_for (trim_space thread) cs) < length (waiting_for (trim_space thread) (cmds_of st))"
        "map pc_id (ct_rows cs) = map pc_id (ct_rows (cmds_of st))" by blast
    have other: "\<not> names_own_turn (th_id t) (cm_source_thread_id c) (cm_source_turn_id c)"
      using less.prems r(1-3) by simp
    define d where "d = (if e \<noteq> None then fail_and_go_on c t (update_commands cs st)
      else run_claimed_command env t c (update_commands cs st))"
    show ?thesis
    proof (cases d)
      case (DrainEnds err told st1)
      then have "map pc_id (ct_rows (cmds_of st1)) = map pc_id (ct_rows cs)"
        using run_ids [OF other] fail_ids unfolding d_def by (fastforce split: if_split_asm)
      then show ?thesis using DrainEnds r(6) unfolding d_def
        by (subst drain_from.simps) (simp add: claim res)
    next
      case (DrainGoesOn t1 told st1)
      then have on: "th_id t1 = th_id t \<and> waiting_for (trim_space thread) (cmds_of st1) = waiting_for (trim_space thread) cs \<and>
          map pc_id (ct_rows (cmds_of st1)) = map pc_id (ct_rows cs)"
        using run_goes_on [OF other] fail_waiting unfolding d_def by (fastforce split: if_split_asm)
      then obtain err told' st' where "drain_from env thread t1 st1 = Some (err, told', st')"
          "map pc_id (ct_rows (cmds_of st')) = map pc_id (ct_rows (cmds_of st1))"
        using less.hyps [of st1 t1] less.prems subsetD [OF r(4)] r(5) by force
      then show ?thesis using DrainGoesOn on r(6) unfolding d_def
        by (subst drain_from.simps) (simp add: claim res)
    qed
  qed
qed

section \<open>The drain of a thread\<close>

text \<open>
  C19: A drain of the queue of a thread returns, whatever the App Server answers, if no command that
  waits for the thread names a source turn of that thread itself: every round takes a waiting command
  out of the queue, and no start of such a command puts one in, so the rows of the queue are the same
  before and after the drain, in the same order.
\<close>
theorem drain_returns:
  assumes "\<forall>r\<in>set (waiting_for (trim_space thread) (ls_commands (st_links st))).
      \<not> names_own_turn thread (pc_source_thread_id r) (pc_source_turn_id r)"
  shows "\<exists>err told st'. drain_next env thread st = Some (err, told, st') \<and>
    map pc_id (ct_rows (ls_commands (st_links st'))) = map pc_id (ct_rows (ls_commands (st_links st)))"
proof -
  have "th_id t = trim_space thread" if "get_thread (trim_space thread) (ls_threads (st_links st)) = Some t" for t
    using that by (auto simp: get_thread_def dest: find_key_in)
  then show ?thesis
    using drain_from_ends_safe [of "trim_space thread" st _ env] assms
    by (auto simp: drain_next_def drain_next_locked_def Let_def names_own_turn_def split: option.split)
qed

lemma drain_returns_witness:
  "\<exists>err told st'. drain_next yard ''t'' yard_state = Some (err, told, st') \<and>
     map pc_id (ct_rows (ls_commands (st_links st'))) = [1, 2]"
proof -
  have "list_all (\<lambda>r. \<not> names_own_turn ''t'' (pc_source_thread_id r) (pc_source_turn_id r))
      (waiting_for (trim_space ''t'') (ls_commands (st_links yard_state)))" by code_simp
  moreover have "map pc_id (ct_rows (ls_commands (st_links yard_state))) = [1, 2]" by code_simp
  ultimately show ?thesis using drain_returns [of "''t''" yard_state yard] by (simp add: list_all_iff)
qed

end
