(* ===== verification/Spec2Isabelle.thy ===== *)
theory Spec2Isabelle
  imports Live_Event Collaboration Notifier_System Callback_Tokens Approval_System Link_Safety
    Minimal_Observations Rendering Project_Registry Link_Worker_Safety Queue_Writers Minimal_Terminal
    Turn_Safety Drain_Termination
begin

text \<open>
  A verification library for the Codex to Telegram daemon, a Go program that watches the threads
  of a Codex App Server, tells their owner over Telegram when a turn has ended, and takes
  commands and approvals back.

  \<^bold>\<open>The program and how its parts interact.\<close> The App Server answers with JSON;
  \<^verbatim>\<open>internal/appserver\<close> turns its answers and its live events into threads, snapshots of turns
  and observer events. The notifier (\<^verbatim>\<open>internal/daemon/notifier_observer.go\<close>) lists the threads
  to find the changed ones, reads a few of them each cycle, and for every turn that has ended puts
  one terminal event and one rendered message in the outbox. The outbox is a set of SQLite tables
  (\<^verbatim>\<open>internal/storage/store.go\<close>); the delivery worker (\<^verbatim>\<open>processDeliveryBatch\<close> in
  \<^verbatim>\<open>internal/daemon/service.go\<close>) claims what is due, sends it, and records success, retry or
  failure. The terminal gate holds back suspect interruptions of turns that Telegram started. In
  the minimal profile the owner's commands wait in a queue of their own, and buttons carry tokens
  that work once (\<^verbatim>\<open>internal/storage/store_minimal.go\<close>). An approval the App Server asks for
  becomes a message with two buttons, and the owner's press the answer
  (\<^verbatim>\<open>internal/daemon/minimal_approval.go\<close>). A command to a finished thread runs in a fork of it;
  the fork is created once per turn and belongs to one worker process at a time. A command starts a
  turn on such a worker, in its own thread, in the linked thread of its source or in a new fork
  (\<^verbatim>\<open>minimal_continuation.go\<close>, \<^verbatim>\<open>minimal_router.go\<close>); when the turn ends, its notification goes to the
  outbox and the thread is handed back (\<^verbatim>\<open>minimal_observer.go\<close>).

  \<^bold>\<open>The theories.\<close>
  \<^item> \<^verbatim>\<open>Prelude\<close>: results of fallible operations, and the lemmas on lists of keyed rows that every
    table uses (\<^verbatim>\<open>update_rows\<close> is an SQL \<^verbatim>\<open>UPDATE ... WHERE\<close>).
  \<^item> \<^verbatim>\<open>Go_Strings\<close>, \<^verbatim>\<open>Utf8\<close>, \<^verbatim>\<open>Sha256\<close>, \<^verbatim>\<open>Fingerprint\<close>: what the code uses of Go's standard
    library: trimming, splitting, case, number formats, runes, and the two hash functions.
  \<^item> \<^verbatim>\<open>Json\<close>, \<^verbatim>\<open>Model\<close>, \<^verbatim>\<open>Items\<close>, \<^verbatim>\<open>Snapshot\<close>, \<^verbatim>\<open>Diff\<close>, \<^verbatim>\<open>Control\<close>, \<^verbatim>\<open>Live_Event\<close>:
    \<^verbatim>\<open>internal/appserver/normalize.go\<close>, \<^verbatim>\<open>live_event.go\<close>, \<^verbatim>\<open>internal/model/types.go\<close> and
    \<^verbatim>\<open>internal/control\<close>. The lemmas show that a final answer closes its turn, that detail rows
    keep the order of the items, that comparing a reading with the state stored from the same
    reading reports nothing, that every reported event is well formed, and what a live tool event
    becomes.
  \<^item> \<^verbatim>\<open>State_Store\<close>, \<^verbatim>\<open>Collaboration\<close>: the key-value table and what is kept in it: the owner's
    chat, the plan-mode marker and its override.
  \<^item> \<^verbatim>\<open>Delivery_Store\<close>, \<^verbatim>\<open>Outbox\<close>, \<^verbatim>\<open>Outbox_Claims\<close>: the tables of the outbox, every operation on
    them, and \<^verbatim>\<open>outbox_step\<close>, the transactions of the outbox itself as a step relation. The
    invariant \<^verbatim>\<open>outbox_ok\<close> holds in every state these reach and gives the order of the parts of a
    group and the meaning of an event's status.
  \<^item> \<^verbatim>\<open>Delivery_Worker\<close>: one batch of the worker, over any sender: the deliveries it has claimed do
    not stay in flight, attempts are bounded.
  \<^item> \<^verbatim>\<open>Notifier_Store\<close>, \<^verbatim>\<open>Notifier_Format\<close>, \<^verbatim>\<open>Notifier_Observer\<close>, \<^verbatim>\<open>Notifier_System\<close>: the
    observation table, the message text, discovery and polling, and the whole notifier as one
    system: every turn that ended since the turn seen last, if that is still listed, is enqueued; a
    repeated read is silent. The migration from the older profile is in \<^verbatim>\<open>Notifier_Store\<close>.
  \<^item> \<^verbatim>\<open>Terminal_Gate\<close>: the decisions of the gate: a deferral ends, and only suspect turns are held.
  \<^item> \<^verbatim>\<open>Pending_Commands\<close>: the command queue of the minimal profile and its transactions as a step
    relation (\<^verbatim>\<open>command_step\<close>): two commands of one source that wait for one thread run one after the
    other, in order.
  \<^item> \<^verbatim>\<open>Callback_Tokens\<close>: voice confirmations and picker buttons: single use, bound to their
    message and chat.
  \<^item> \<^verbatim>\<open>Approval_Store\<close>, \<^verbatim>\<open>Approvals\<close>, \<^verbatim>\<open>Approval_Decisions\<close>: the tables of approval requests and
    their buttons with every operation, the transactions as a step relation (\<^verbatim>\<open>approval_step\<close>)
    with its invariant, and what follows for a press: it is exact, and it decides once. The label of
    a step (\<^verbatim>\<open>approval_op\<close>) says which request it creates or gives back.
  \<^item> \<^verbatim>\<open>Approval_Flow\<close>, \<^verbatim>\<open>Approval_System\<close>: the handlers of \<^verbatim>\<open>minimal_approval.go\<close> over any App
    Server session and any sender, and their composition with the tables: a request is answered at
    most once, also when its id is given to another request later, and the answer is the one of the
    button that was pressed. A request whose message is rearmed while it is claimed is stuck.
  \<^item> \<^verbatim>\<open>Thread_Store\<close>: threads, snapshots, chat bindings, observers and message routes, which are
    instances of one contract of tables with a key (the locale \<^verbatim>\<open>upsert_table\<close>).
  \<^item> \<^verbatim>\<open>Continuations\<close>, \<^verbatim>\<open>Linked_Threads\<close>, \<^verbatim>\<open>Link_Safety\<close>: the forks of finished threads, the
    linked threads with the generation of the worker that holds them, and both as a step relation:
    the rows refine an abstract lease, and a fork is created once.
  \<^item> \<^verbatim>\<open>Queue_Writers\<close>: all writers of \<^verbatim>\<open>delivery_queue\<close> as one step relation (\<^verbatim>\<open>store_write\<close>): the
    outbox, the approvals, the handoffs and the migrations. A finished row carries no payload, a
    stored event stays stored, and what happens when a row is ended while it is being sent.
  \<^item> \<^verbatim>\<open>Minimal_Observations\<close>: the observation table of the minimal profile: a retired thread stays
    silent, and the claim of an end of a turn reports a change.
  \<^item> \<^verbatim>\<open>Rendering\<close>: formatted messages and their division into parts in UTF-16 units: when the
    division ends, and that it keeps the text and the format of every character.
  \<^item> \<^verbatim>\<open>Project_Registry\<close>: the projects commands may run in, revalidated at every use, over the path
    functions of the operating system; on Unix containment is the prefix order on path elements.
  \<^item> \<^verbatim>\<open>Link_Workers\<close>, \<^verbatim>\<open>Link_Worker_Safety\<close>: the manager of the worker processes
    (\<^verbatim>\<open>minimal_link_worker.go\<close>) as a heap of workers that three tables share, and any interleaving of
    its operations: a thread has one worker.
  \<^item> \<^verbatim>\<open>Minimal_Terminal\<close>: the end of a turn in the minimal profile (\<^verbatim>\<open>minimal_observer.go\<close>): the
    notification in parts that fit, the end announced once, the worker released and the thread handed
    back only when the worker is gone.
  \<^item> \<^verbatim>\<open>Link_Routing\<close>: which turn a reply answers, and whether it goes to the linked thread.
  \<^item> \<^verbatim>\<open>Turn_Start\<close>, \<^verbatim>\<open>Queue_Drain\<close>: how a command becomes a turn, and the loop that starts the waiting
    commands of a thread, as functions on one state (\<^verbatim>\<open>start_state\<close>: the store, the worker manager and
    the calls made so far).
  \<^item> \<^verbatim>\<open>Turn_Safety\<close>, \<^verbatim>\<open>Drain_Termination\<close>: where a start may run a turn, how many turns a start or a
    drain may have begun (a request that was not answered may have begun one; only an error answer
    of the App Server shows that none began), and when a drain returns.

  \<^bold>\<open>How the code is read.\<close> A Go string is a list of bytes (\<^verbatim>\<open>char\<close>); case mapping is exact
  on the ASCII constants the code compares with. A JSON object is an association list, a float
  carries its printed form. An instant is an integer number of nanoseconds, and \<^verbatim>\<open>time.Now\<close> is
  an argument. A table is a list of rows in insertion order; an operation is one transaction, so
  that an error leaves the tables as they were. Errors are the left side of a sum. Worker
  generations are 64-bit words, because the code checks their range. The protector (the
  operating system's data protection), the Telegram sender, the App Server's session and the JSON
  encoding of a payload are parameters; where a property needs a law of them (a payload decodes
  to what was encoded) the law is a hypothesis of that property, with an instance in its witness.
  The App Server and the worker processes behind a start are an environment that may answer a call
  in any way, depending on all the calls before it. No fuel is used: recursion is structural or
  under a measure, except for two loops of the code that may run for ever, the division of a message
  (\<^verbatim>\<open>split_from\<close>) and the drain of a queue (\<^verbatim>\<open>drain_from\<close>). These are partial functions into an
  option, where \<^verbatim>\<open>None\<close> stands for a loop that does not end; when they return is proved
  (\<^verbatim>\<open>split_terminates\<close>, \<^verbatim>\<open>drain_returns\<close>).

  \<^bold>\<open>Not modelled.\<close> Failures of the database itself (except that of the commit after a send,
  which the worker handles), cancellation of contexts, locks and logging; the columns
  \<^verbatim>\<open>created_at\<close> and \<^verbatim>\<open>updated_at\<close> where nothing reads them; the HTTP side of Telegram, the pipes of the
  App Server, the operating system's protection and transcription; the router's own choice
  among the starts, its pickers and texts; the commands and panels of the full profile, whose starts
  of turns are not covered by \<^verbatim>\<open>Turn_Safety\<close>; the command line, tray application and configuration files.
\<close>

end
